(* ===== verification/Prelude.thy ===== *)
theory Prelude
  imports Complex_Main "HOL-Library.AList" "HOL-Library.List_Lexorder" "HOL-Library.Char_ord"
    "HOL-Library.Product_Lexorder"
begin

text \<open>
  The part of the library every component uses: Python exceptions as values, the sequencing of
  fallible steps, dictionaries as association lists in insertion order, decimal printing, and
  Python's rounding. Exact rationals stand for Python floats, so rounding errors of IEEE
  arithmetic are not modelled.
\<close>

section \<open>Exceptions as values\<close>

text \<open>
  One constructor per exception class the source raises, by the name of the class. The message
  text is not modelled: no caller of the modelled code reads it, except through constructors that
  carry the data a caller does read.
\<close>

datatype py_error =
    KeyError
  | TypeError
  | AttributeError
  | ValueError
  | RuntimeError
  | FileNotFoundError
  | GraphMutationError
  | CapabilityError
  | PlannerOutputError
  | BudgetRefused
  | VerifierError
  | SkillError
  | EditError
  | GuardError
  | WorkspaceError
  | CommandError
  | OSError
  | JudgeUnparseable
  | OverflowError
  | IntegrityError
  | PermissionDenied
  | PermissionError
  | NotADirectoryError
  | FileExistsError
  | NameError
  | IndexError
  | ZeroDivisionError
  | HTTPException int

type_synonym 'a result = "py_error + 'a"

definition bind_r :: "'a result \<Rightarrow> ('a \<Rightarrow> 'b result) \<Rightarrow> 'b result" where
  "bind_r m f = (case m of Inl e \<Rightarrow> Inl e | Inr x \<Rightarrow> f x)"

definition guard_r :: "py_error option \<Rightarrow> 'a result \<Rightarrow> 'a result" where
  "guard_r e k = (case e of Some x \<Rightarrow> Inl x | None \<Rightarrow> k)"

fun first_err :: "('a \<Rightarrow> py_error option) \<Rightarrow> 'a list \<Rightarrow> py_error option" where
  "first_err f [] = None"
| "first_err f (x # xs) = (case f x of Some e \<Rightarrow> Some e | None \<Rightarrow> first_err f xs)"

fun fold_r :: "('a \<Rightarrow> 's \<Rightarrow> 's result) \<Rightarrow> 'a list \<Rightarrow> 's \<Rightarrow> 's result" where
  "fold_r f [] s = Inr s"
| "fold_r f (x # xs) s = bind_r (f x s) (fold_r f xs)"

named_theorems result_simps

lemma bind_r_simps [simp]: "bind_r (Inl e) f = Inl e" "bind_r (Inr x) f = f x"
  by (simp_all add: bind_r_def)

lemma guard_r_simps [simp]: "guard_r None k = k" "guard_r (Some e) k = Inl e"
  by (simp_all add: guard_r_def)

lemma bind_r_Inr [result_simps]: "bind_r m f = Inr y \<longleftrightarrow> (\<exists>x. m = Inr x \<and> f x = Inr y)"
  by (cases m) simp_all

lemma guard_r_Inr [result_simps]: "guard_r e k = Inr y \<longleftrightarrow> e = None \<and> k = Inr y"
  by (cases e) simp_all

lemma bind_r_cong [fundef_cong]:
  "m = m' \<Longrightarrow> (\<And>x. m' = Inr x \<Longrightarrow> f x = g x) \<Longrightarrow> bind_r m f = bind_r m' g"
  by (cases m') simp_all

lemma first_err_None [result_simps]: "first_err f xs = None \<longleftrightarrow> (\<forall>x \<in> set xs. f x = None)"
  by (induction xs) (simp_all split: option.split)

lemma first_err_Some: "first_err f xs = Some e \<Longrightarrow> \<exists>x \<in> set xs. f x = Some e"
  by (induction xs) (auto split: option.splits)

lemma fold_r_append [simp]: "fold_r f (xs @ ys) s = bind_r (fold_r f xs s) (fold_r f ys)"
proof (induction xs arbitrary: s)
  case (Cons x xs)
  then show ?case by (cases "f x s") simp_all
qed simp

text \<open>An invariant every successful step keeps holds of the result of the whole loop.\<close>

lemma fold_r_invariant:
  assumes "fold_r f xs s = Inr t" and "P s"
    and "\<And>x s t. x \<in> set xs \<Longrightarrow> P s \<Longrightarrow> f x s = Inr t \<Longrightarrow> P t"
  shows "P t"
  using assms by (induction xs arbitrary: s) (auto simp: bind_r_Inr)

lemma if_Inl_Inr [result_simps]: "(if b then Inl e else k) = Inr y \<longleftrightarrow> \<not> b \<and> k = Inr y"
  by simp

text \<open>A comprehension whose element may raise.\<close>

definition map_r :: "('a \<Rightarrow> 'b result) \<Rightarrow> 'a list \<Rightarrow> 'b list result" where
  "map_r f xs = fold_r (\<lambda>x acc. bind_r (f x) (\<lambda>y. Inr (acc @ [y]))) xs []"

lemma map_r_all2: "map_r f xs = Inr ys \<Longrightarrow> list_all2 (\<lambda>x y. f x = Inr y) xs ys"
proof -
  have "fold_r (\<lambda>x acc. bind_r (f x) (\<lambda>y. Inr (acc @ [y]))) xs acc = Inr zs \<Longrightarrow>
      \<exists>ys. zs = acc @ ys \<and> list_all2 (\<lambda>x y. f x = Inr y) xs ys" for acc zs
  proof (induction xs arbitrary: acc)
    case (Cons x xs)
    then obtain y where y: "f x = Inr y"
      "fold_r (\<lambda>x acc. bind_r (f x) (\<lambda>y. Inr (acc @ [y]))) xs (acc @ [y]) = Inr zs" by (auto simp: bind_r_Inr)
    from Cons.IH [OF y(2)] obtain ys where "zs = (acc @ [y]) @ ys" "list_all2 (\<lambda>x y. f x = Inr y) xs ys" by blast
    with y(1) show ?case by (intro exI [of _ "y # ys"]) simp
  qed simp
  then show "map_r f xs = Inr ys \<Longrightarrow> ?thesis" by (fastforce simp: map_r_def)
qed

section \<open>Dictionaries: association lists in insertion order\<close>

text \<open>
  A Python dict keeps insertion order and the code iterates over dicts, so a dict is an
  association list with distinct keys: \<open>AList.update\<close> overwrites in place or appends, as
  \<open>d[k] = v\<close> does, and \<open>AList.delete\<close> is \<open>d.pop(k, None)\<close>.
\<close>

abbreviation dget :: "('k \<times> 'v) list \<Rightarrow> 'k \<Rightarrow> 'v option" where
  "dget \<equiv> map_of"

abbreviation dput :: "'k \<Rightarrow> 'v \<Rightarrow> ('k \<times> 'v) list \<Rightarrow> ('k \<times> 'v) list" where
  "dput \<equiv> AList.update"

abbreviation ddel :: "'k \<Rightarrow> ('k \<times> 'v) list \<Rightarrow> ('k \<times> 'v) list" where
  "ddel \<equiv> AList.delete"

abbreviation dkeys :: "('k \<times> 'v) list \<Rightarrow> 'k list" where
  "dkeys \<equiv> map fst"

definition dget_or :: "('k \<times> 'v) list \<Rightarrow> 'k \<Rightarrow> 'v \<Rightarrow> 'v" where
  "dget_or d k v = (case dget d k of None \<Rightarrow> v | Some w \<Rightarrow> w)"

text \<open>Apply a function to the value stored under one key, in place: \<open>d[k].x = y\<close>.\<close>

definition dmodify :: "'k \<Rightarrow> ('v \<Rightarrow> 'v) \<Rightarrow> ('k \<times> 'v) list \<Rightarrow> ('k \<times> 'v) list" where
  "dmodify k f d = map (\<lambda>(a, v). (a, if a = k then f v else v)) d"

text \<open>\<open>{**d, **e}\<close>\<close>

definition dmerge :: "('k \<times> 'v) list \<Rightarrow> ('k \<times> 'v) list \<Rightarrow> ('k \<times> 'v) list" where
  "dmerge d e = fold (\<lambda>(k, v). dput k v) e d"

lemma dget_dput [simp]: "dget (dput k v d) k' = (if k' = k then Some v else dget d k')"
  by (simp add: update_conv')

lemma dget_ddel [simp]: "dget (ddel k d) k' = (if k' = k then None else dget d k')"
  by (simp add: delete_conv')

lemma dkeys_dput: "set (dkeys (dput k v d)) = insert k (set (dkeys d))"
  by (induction d) auto

lemma image_fst_dput [simp]: "fst ` set (dput k v d) = insert k (fst ` set d)"
  using dkeys_dput [of k v d] by simp

lemma set_dput: "x \<in> set (dput k v d) \<Longrightarrow> x = (k, v) \<or> x \<in> set d"
  by (induction d) (auto split: if_splits)

lemma distinct_dkeys_dput: "distinct (dkeys d) \<Longrightarrow> distinct (dkeys (dput k v d))"
  by (rule distinct_update)

lemma dget_dmodify [simp]:
  "dget (dmodify k f d) k' = (if k' = k then map_option f (dget d k) else dget d k')"
  by (induction d) (auto simp: dmodify_def)

lemma dkeys_dmodify [simp]: "dkeys (dmodify k f d) = dkeys d"
  by (induction d) (auto simp: dmodify_def)

lemma length_dmodify [simp]: "length (dmodify k f d) = length d"
  by (simp add: dmodify_def)

lemma dget_append: "dget (d @ e) k = (case dget d k of Some v \<Rightarrow> Some v | None \<Rightarrow> dget e k)"
  by (simp add: map_add_def)

lemma dget_Some_key: "dget d k = Some v \<Longrightarrow> k \<in> set (dkeys d)"
  by (metis domI dom_map_of_conv_image_fst set_map)

lemma dget_None_iff: "dget d k = None \<longleftrightarrow> k \<notin> set (dkeys d)"
  by (simp add: map_of_eq_None_iff)

lemma dget_map_snd: "dget (map (\<lambda>(k, v). (k, f v)) d) k' = map_option f (dget d k')"
  by (induction d) auto

lemma dget_mem_iff: "distinct (dkeys d) \<Longrightarrow> (k, v) \<in> set d \<longleftrightarrow> dget d k = Some v"
  by simp

lemma dget_sort_key:
  "distinct (dkeys d) \<Longrightarrow> dget (sort_key fst d) k = dget d (k :: 'k :: linorder)"
proof -
  assume d: "distinct (dkeys d)"
  then have "distinct (dkeys (sort_key fst d))"
    by (simp add: distinct_map)
  with d show ?thesis
    by (metis map_of_inject_set set_sort)
qed

section \<open>Reachability\<close>

text \<open>
  What several components need of their steps: an invariant that holds at the start and that every
  step keeps holds after any number of steps. Each component that has a step relation interprets
  this on its own relation and invariant.
\<close>

locale invariant_system =
  fixes step :: "'s \<Rightarrow> 's \<Rightarrow> bool" and inv :: "'s \<Rightarrow> bool"
  assumes step_inv: "inv s \<Longrightarrow> step s t \<Longrightarrow> inv t"
begin

lemma steps_inv: "step\<^sup>*\<^sup>* s t \<Longrightarrow> inv s \<Longrightarrow> inv t"
  by (induction rule: rtranclp_induct) (auto intro: step_inv)

text \<open>A quantity no step decreases is not decreased by a run from a good state.\<close>

lemma steps_mono:
  fixes m :: "'s \<Rightarrow> 'n :: order"
  assumes "step\<^sup>*\<^sup>* s t" and "inv s" and "\<And>s t. inv s \<Longrightarrow> step s t \<Longrightarrow> m s \<le> m t"
  shows "m s \<le> m t"
  using assms(1,2)
proof (induction rule: rtranclp_induct)
  case (step u v)
  then have "m u \<le> m v" using assms(3) steps_inv by blast
  with step show ?case by (auto intro: order_trans)
qed simp

text \<open>A fact no step undoes survives a run from a good state.\<close>

lemma steps_stable:
  assumes "step\<^sup>*\<^sup>* s t" and "inv s" and "p s"
    and "\<And>s t. inv s \<Longrightarrow> p s \<Longrightarrow> step s t \<Longrightarrow> p t"
  shows "p t"
  using assms(1-3)
proof (induction rule: rtranclp_induct)
  case (step u v)
  then show ?case using assms(4) steps_inv by blast
qed simp

end

section \<open>Numbers\<close>

text \<open>\<open>str(n)\<close> of an int.\<close>

fun digits :: "nat \<Rightarrow> string" where
  "digits n = (if n < 10 then [char_of (48 + n)] else digits (n div 10) @ [char_of (48 + n mod 10)])"

declare digits.simps [simp del]

definition str_int :: "int \<Rightarrow> string" where
  "str_int i = (if i < 0 then CHR ''-'' # digits (nat (- i)) else digits (nat i))"

text \<open>
  \<open>round(x, n)\<close>: to the nearest multiple of \<open>10 ^ - n\<close>, ties to the even one.
\<close>

definition round_even :: "rat \<Rightarrow> int" where
  "round_even x =
     (let f = floor x; d = x - of_int f
      in if d < 1 / 2 then f else if d > 1 / 2 then f + 1 else if even f then f else f + 1)"

definition py_round :: "nat \<Rightarrow> rat \<Rightarrow> rat" where
  "py_round n x = of_int (round_even (x * 10 ^ n)) / 10 ^ n"

lemma round_even_mono_nonneg: "0 \<le> x \<Longrightarrow> 0 \<le> round_even x"
  by (auto simp: round_even_def Let_def)

lemma round_even_of_int [simp]: "round_even (of_int i) = i"
  by (simp add: round_even_def)

lemma round_even_bounds: "\<bar>of_int (round_even x) - x\<bar> \<le> 1 / 2"
proof -
  have "of_int (floor x) \<le> x" "x < of_int (floor x) + 1"
    using floor_correct [of x] by linarith+
  then show ?thesis
    by (auto simp: round_even_def Let_def abs_le_iff)
qed

lemma round_even_mono: assumes "x \<le> y" shows "round_even x \<le> round_even y"
proof (cases "floor x = floor y")
  case True
  with assms show ?thesis by (auto simp: round_even_def Let_def)
next
  case False
  with assms have "floor x + 1 \<le> floor y"
    using floor_mono [OF assms] by linarith
  moreover have "round_even x \<le> floor x + 1" "floor y \<le> round_even y"
    by (auto simp: round_even_def Let_def)
  ultimately show ?thesis by linarith
qed

lemma py_round_nonneg: "0 \<le> x \<Longrightarrow> 0 \<le> py_round n x"
  by (simp add: py_round_def round_even_mono_nonneg)

lemma py_round_mono: "x \<le> y \<Longrightarrow> py_round n x \<le> py_round n y"
  by (simp add: py_round_def divide_right_mono round_even_mono mult_right_mono)

lemma py_round_idem [simp]: "py_round n (py_round n x) = py_round n x"
  by (simp add: py_round_def)

end
