(* ===== verification/Json.thy ===== *)
theory Json
  imports Prelude
begin

text \<open>
  The JSON values that cross every boundary of the program: planner proposals, task arguments and
  results, event bodies, UI surfaces. An object keeps the order of its keys, as a Python dict does.
  The operations are the Python ones the code applies to such values: truth value, \<open>==\<close>,
  \<open>isinstance\<close>, \<open>str.strip\<close>, \<open>startswith\<close> and \<open>lower\<close> on ASCII text.
\<close>

datatype json =
    JNull
  | JBool bool
  | JInt int
  | JFloat rat
  | JStr string
  | JList "json list"
  | JObj "(string \<times> json) list"

type_synonym obj = "(string \<times> json) list"

section \<open>Truth, types and equality\<close>

text \<open>\<open>bool(v)\<close>\<close>

fun truthy :: "json \<Rightarrow> bool" where
  "truthy JNull = False"
| "truthy (JBool b) = b"
| "truthy (JInt i) = (i \<noteq> 0)"
| "truthy (JFloat q) = (q \<noteq> 0)"
| "truthy (JStr s) = (s \<noteq> [])"
| "truthy (JList xs) = (xs \<noteq> [])"
| "truthy (JObj d) = (d \<noteq> [])"

fun is_str :: "json \<Rightarrow> bool" where
  "is_str (JStr s) = True"
| "is_str v = False"

fun is_dict :: "json \<Rightarrow> bool" where
  "is_dict (JObj d) = True"
| "is_dict v = False"

fun is_list :: "json \<Rightarrow> bool" where
  "is_list (JList xs) = True"
| "is_list v = False"

fun is_bool :: "json \<Rightarrow> bool" where
  "is_bool (JBool b) = True"
| "is_bool v = False"

lemma is_str_iff: "is_str v \<longleftrightarrow> (\<exists>s. v = JStr s)"
  by (cases v) auto

lemma is_dict_iff: "is_dict v \<longleftrightarrow> (\<exists>d. v = JObj d)"
  by (cases v) auto

lemma is_list_iff: "is_list v \<longleftrightarrow> (\<exists>xs. v = JList xs)"
  by (cases v) auto

lemma is_bool_iff: "is_bool v \<longleftrightarrow> (\<exists>b. v = JBool b)"
  by (cases v) auto

lemmas json_kinds = is_str_iff is_dict_iff is_list_iff is_bool_iff

text \<open>
  Booleans and floats are numbers to \<open>==\<close>: \<open>True == 1 == 1.0\<close>. Dict equality ignores the
  order of the keys.
\<close>

fun num_of :: "json \<Rightarrow> rat option" where
  "num_of (JBool b) = Some (if b then 1 else 0)"
| "num_of (JInt i) = Some (of_int i)"
| "num_of (JFloat q) = Some q"
| "num_of v = None"

lemma size_dget: "dget d k = Some v \<Longrightarrow> size v < Suc (size_list (size_prod (\<lambda>x. 0) size) d)"
proof -
  assume "dget d k = Some v"
  then have "(k, v) \<in> set d" by (rule map_of_SomeD)
  then have "size_prod (\<lambda>x. 0) size (k, v) \<le> size_list (size_prod (\<lambda>x. 0) size) d"
    by (rule size_list_estimation'[OF _ order_refl])
  then show ?thesis by simp
qed

fun py_eq :: "json \<Rightarrow> json \<Rightarrow> bool"
  and py_eqs :: "json list \<Rightarrow> json list \<Rightarrow> bool"
  and py_sub :: "obj \<Rightarrow> obj \<Rightarrow> bool" where
  "py_eq JNull b = (b = JNull)"
| "py_eq (JStr s) b = (b = JStr s)"
| "py_eq (JList xs) b = (case b of JList ys \<Rightarrow> py_eqs xs ys | _ \<Rightarrow> False)"
| "py_eq (JObj d) b =
     (case b of JObj e \<Rightarrow> length d = length e \<and> py_sub d e | _ \<Rightarrow> False)"
| "py_eq a b = (num_of b \<noteq> None \<and> num_of a = num_of b)"
| "py_eqs [] ys = (ys = [])"
| "py_eqs (x # xs) ys = (case ys of [] \<Rightarrow> False | y # zs \<Rightarrow> py_eq x y \<and> py_eqs xs zs)"
| "py_sub [] e = True"
| "py_sub ((k, v) # d) e = (case dget e k of None \<Rightarrow> False | Some w \<Rightarrow> py_eq v w \<and> py_sub d e)"

text \<open>A value the JSON decoder makes: no dict, at any depth, has a key twice.\<close>

fun wf_json :: "json \<Rightarrow> bool"
  and wf_jsons :: "json list \<Rightarrow> bool"
  and wf_obj :: "obj \<Rightarrow> bool" where
  "wf_json (JList xs) = wf_jsons xs"
| "wf_json (JObj d) = (distinct (dkeys d) \<and> wf_obj d)"
| "wf_json v = True"
| "wf_jsons [] = True"
| "wf_jsons (x # xs) = (wf_json x \<and> wf_jsons xs)"
| "wf_obj [] = True"
| "wf_obj ((k, v) # d) = (wf_json v \<and> wf_obj d)"

lemma py_sub_weaken:
  "py_sub d e \<Longrightarrow> k \<notin> set (dkeys d) \<Longrightarrow> py_sub d ((k, v) # e)"
  by (induction d) (auto split: option.splits)

lemma py_eq_refl:
  "wf_json v \<Longrightarrow> py_eq v v"
  "wf_jsons vs \<Longrightarrow> py_eqs vs vs"
  "wf_obj d \<Longrightarrow> distinct (dkeys d) \<Longrightarrow> py_sub d d"
  by (induction v and vs and d rule: wf_json_wf_jsons_wf_obj.induct) (auto simp: py_sub_weaken)

section \<open>Strings\<close>

text \<open>The characters \<open>str.strip()\<close> and \<open>\s\<close> take for white space, in ASCII.\<close>

definition is_space :: "char \<Rightarrow> bool" where
  "is_space c = (let n = of_char c :: nat in (9 \<le> n \<and> n \<le> 13) \<or> (28 \<le> n \<and> n \<le> 32))"

definition lstrip :: "string \<Rightarrow> string" where
  "lstrip s = dropWhile is_space s"

definition rstrip :: "string \<Rightarrow> string" where
  "rstrip s = rev (dropWhile is_space (rev s))"

definition strip :: "string \<Rightarrow> string" where
  "strip s = rstrip (lstrip s)"

definition startswith :: "string \<Rightarrow> string \<Rightarrow> bool" where
  "startswith s p = (take (length p) s = p)"

definition endswith :: "string \<Rightarrow> string \<Rightarrow> bool" where
  "endswith s p = startswith (rev s) (rev p)"

text \<open>\<open>str(v)\<close>; \<open>str_of\<close> prints a value that is not a text.\<close>

definition printed :: "(json \<Rightarrow> string) \<Rightarrow> json \<Rightarrow> string" where
  "printed str_of v = (case v of JStr s \<Rightarrow> s | _ \<Rightarrow> str_of v)"

text \<open>\<open>sub in s\<close>\<close>

fun contains :: "string \<Rightarrow> string \<Rightarrow> bool" where
  "contains sub [] = (sub = [])"
| "contains sub (c # cs) = (startswith (c # cs) sub \<or> contains sub cs)"

definition lower_char :: "char \<Rightarrow> char" where
  "lower_char c = (let n = of_char c :: nat in if 65 \<le> n \<and> n \<le> 90 then char_of (n + 32) else c)"

definition lower :: "string \<Rightarrow> string" where
  "lower s = map lower_char s"

lemma startswith_append: "startswith s p \<longleftrightarrow> (\<exists>t. s = p @ t)"
  unfolding startswith_def by (metis append_eq_conv_conj append_take_drop_id)

lemma startswith_nil [simp]: "startswith s []"
  by (simp add: startswith_def)

lemma lstrip_idem [simp]: "lstrip (lstrip s) = lstrip s"
  by (simp add: lstrip_def dropWhile_idem)

lemma rstrip_idem [simp]: "rstrip (rstrip s) = rstrip s"
  by (simp add: rstrip_def dropWhile_idem)

lemma lstrip_fixed_iff: "lstrip s = s \<longleftrightarrow> s = [] \<or> \<not> is_space (hd s)"
proof (cases s)
  case (Cons c cs)
  have "length (dropWhile is_space cs) < length (c # cs)"
    using length_dropWhile_le [of is_space cs] by simp
  then have "dropWhile is_space cs \<noteq> c # cs" by (metis less_irrefl)
  with Cons show ?thesis by (simp add: lstrip_def)
qed (simp add: lstrip_def)

lemma rstrip_lstrip_fixed: "lstrip s = s \<Longrightarrow> lstrip (rstrip s) = rstrip s"
proof -
  assume s: "lstrip s = s"
  show ?thesis
  proof (cases "rstrip s")
    case (Cons c cs)
    have "\<exists>t. s = rstrip s @ t"
      by (metis rstrip_def rev_append rev_rev_ident takeWhile_dropWhile_id)
    with Cons have "hd s = c" "s \<noteq> []" by (metis append_Cons list.sel(1), metis append_Cons list.distinct(1))
    with s Cons show ?thesis by (simp add: lstrip_fixed_iff)
  qed (simp add: lstrip_def)
qed

lemma strip_idem [simp]: "strip (strip s) = strip s"
proof -
  have "lstrip (rstrip (lstrip s)) = rstrip (lstrip s)"
    by (rule rstrip_lstrip_fixed) simp
  then show ?thesis by (simp add: strip_def)
qed

lemma length_strip: "length (strip s) \<le> length s"
  unfolding strip_def rstrip_def lstrip_def
  by (metis length_dropWhile_le length_rev order_trans)

text \<open>\<open>sep.join(parts)\<close>\<close>

fun join :: "string \<Rightarrow> string list \<Rightarrow> string" where
  "join sep [] = []"
| "join sep [x] = x"
| "join sep (x # y # xs) = x @ sep @ join sep (y # xs)"

text \<open>\<open>d.get(k)\<close> on a dict and the \<open>x or default\<close> idiom.\<close>

definition jget :: "obj \<Rightarrow> string \<Rightarrow> json" where
  "jget d k = dget_or d k JNull"

definition or_else :: "json \<Rightarrow> json \<Rightarrow> json" where
  "or_else v w = (if truthy v then v else w)"

section \<open>Untyped values\<close>

text \<open>
  Reading untyped values, the way the trace builder and the loaders of evaluation files do: \<open>str\<close>, \<open>int\<close> and \<open>float\<close> of
  a value or a default, and the iteration over \<open>value or []\<close>.
\<close>

text \<open>\<open>str\<close> of what is not a text; \<open>float\<close> and \<open>int\<close> of a text, where they are numbers.\<close>

record pytext =
  px_str :: "json \<Rightarrow> string"
  px_float :: "string \<Rightarrow> rat option"
  px_int :: "string \<Rightarrow> int option"

text \<open>\<open>int(x)\<close> of a float: towards zero.\<close>

definition int_of_rat :: "rat \<Rightarrow> int" where
  "int_of_rat q = (if q < 0 then - floor (- q) else floor q)"

text \<open>\<open>_num\<close>: \<open>float(value or 0.0)\<close>, and what raises is 0.\<close>

definition num_value :: "pytext \<Rightarrow> json \<Rightarrow> rat" where
  "num_value px v =
     (if \<not> truthy v then 0 else
      case v of JStr s \<Rightarrow> (case px_float px s of None \<Rightarrow> 0 | Some q \<Rightarrow> q)
      | _ \<Rightarrow> (case num_of v of None \<Rightarrow> 0 | Some q \<Rightarrow> q))"

text \<open>\<open>int(value or 0)\<close>\<close>

definition int_value :: "pytext \<Rightarrow> json \<Rightarrow> int result" where
  "int_value px v =
     (if \<not> truthy v then Inr 0 else
      case v of JStr s \<Rightarrow> (case px_int px s of None \<Rightarrow> Inl ValueError | Some i \<Rightarrow> Inr i)
      | _ \<Rightarrow> (case num_of v of None \<Rightarrow> Inl TypeError | Some q \<Rightarrow> Inr (int_of_rat q)))"

text \<open>\<open>str(value or d)\<close>\<close>

definition text_value :: "pytext \<Rightarrow> json \<Rightarrow> string \<Rightarrow> string" where
  "text_value px v d = printed (px_str px) (or_else v (JStr d))"

text \<open>The values \<open>for x in value or []\<close> yields; \<open>records\<close> are those on which \<open>x.get\<close> is called.\<close>

definition iterated :: "json \<Rightarrow> json list result" where
  "iterated v =
     (if \<not> truthy v then Inr [] else
      case v of JList xs \<Rightarrow> Inr xs | JStr s \<Rightarrow> Inr (map (\<lambda>c. JStr [c]) s) | JObj d \<Rightarrow> Inr (map (JStr \<circ> fst) d)
      | _ \<Rightarrow> Inl TypeError)"

definition as_record :: "json \<Rightarrow> obj result" where
  "as_record v = (case v of JObj d \<Rightarrow> Inr d | _ \<Rightarrow> Inl AttributeError)"

definition records :: "json \<Rightarrow> obj list result" where
  "records v = bind_r (iterated v) (map_r as_record)"

text \<open>\<open>max(xs, key=f)\<close>: the first of the greatest.\<close>

definition max_by :: "('a \<Rightarrow> 'k :: linorder) \<Rightarrow> 'a list \<Rightarrow> 'a" where
  "max_by f xs = fold (\<lambda>y best. if f best < f y then y else best) (tl xs) (hd xs)"

lemma max_by_fold: "fold (\<lambda>y best. if f best < f y then y else best) ys x \<in> set (x # ys) \<and>
  (\<forall>z \<in> set (x # ys). f z \<le> f (fold (\<lambda>y best. if f best < f y then y else best) ys x))" for f :: "'a \<Rightarrow> 'k :: linorder"
proof (induction ys arbitrary: x)
  case (Cons y ys)
  show ?case
  proof (cases "f x < f y")
    case True
    then have "f x \<le> f y" by simp
    with True Cons.IH [of y] show ?thesis by (auto intro: order_trans)
  next
    case False
    with Cons.IH [of x] show ?thesis by (auto simp: not_less intro: order_trans)
  qed
qed simp

lemma max_by_mem: "xs \<noteq> [] \<Longrightarrow> max_by f xs \<in> set xs"
  using max_by_fold [of f "tl xs" "hd xs"] by (cases xs) (auto simp: max_by_def)

lemma max_by_greatest: "x \<in> set xs \<Longrightarrow> f x \<le> f (max_by f xs)"
  using max_by_fold [of f "tl xs" "hd xs"] by (cases xs) (auto simp: max_by_def)

end
