(* ===== verification/Econ_Ledger.thy ===== *)
theory Econ_Ledger
  imports Json
begin

text \<open>
  The ledger side of \<open>economics/\<close>: the price table (\<open>pricing.py\<close>), the tier ladder
  (\<open>tiers.py\<close>) and the run budget (\<open>budget.py\<close>). Amounts are exact rationals in place of floats,
  and the rows of the YAML files arrive already converted to numbers and strings.
\<close>

section \<open>Prices\<close>

record model_price =
  mp_input :: rat
  mp_output :: rat

record pricing =
  pr_currency :: string
  pr_unit_tokens :: int
  pr_default :: model_price
  pr_models :: "(string \<times> model_price) list"
  pr_cache_read :: rat
  pr_cache_write :: rat

text \<open>\<open>max(candidates, key=len)\<close>: the first of the longest.\<close>

fun longest :: "string \<Rightarrow> string list \<Rightarrow> string" where
  "longest best [] = best"
| "longest best (s # ss) = longest (if length s > length best then s else best) ss"

text \<open>The model's own row: the exact name, else the longest configured prefix.\<close>

definition price_row :: "pricing \<Rightarrow> string option \<Rightarrow> model_price option" where
  "price_row pr model =
     (case model of
        None \<Rightarrow> None
      | Some m \<Rightarrow>
          if m = [] then None
          else case dget (pr_models pr) m of
              Some row \<Rightarrow> Some row
            | None \<Rightarrow>
                (case filter (\<lambda>name. startswith m name) (dkeys (pr_models pr)) of
                   [] \<Rightarrow> None
                 | c # cs \<Rightarrow> dget (pr_models pr) (longest c cs)))"

definition price_for :: "pricing \<Rightarrow> string option \<Rightarrow> model_price" where
  "price_for pr model = (case price_row pr model of Some row \<Rightarrow> row | None \<Rightarrow> pr_default pr)"

definition is_priced :: "pricing \<Rightarrow> string option \<Rightarrow> bool" where
  "is_priced pr model = (price_row pr model \<noteq> None)"

definition cost :: "pricing \<Rightarrow> string option \<Rightarrow> int \<Rightarrow> int \<Rightarrow> int \<Rightarrow> int \<Rightarrow> rat" where
  "cost pr model input_tokens output_tokens cache_read cache_write =
     (let row = price_for pr model;
          per_in = mp_input row / of_int (pr_unit_tokens pr);
          per_out = mp_output row / of_int (pr_unit_tokens pr)
      in of_int (max 0 input_tokens) * per_in + of_int (max 0 output_tokens) * per_out
         + of_int (max 0 cache_read) * per_in * pr_cache_read pr
         + of_int (max 0 cache_write) * per_in * pr_cache_write pr)"

definition price_ok :: "model_price \<Rightarrow> bool" where
  "price_ok p = (0 \<le> mp_input p \<and> 0 \<le> mp_output p)"

definition pricing_ok :: "pricing \<Rightarrow> bool" where
  "pricing_ok pr = (0 < pr_unit_tokens pr \<and> price_ok (pr_default pr) \<and>
     list_all (\<lambda>(m, p). price_ok p) (pr_models pr) \<and> 0 \<le> pr_cache_read pr \<and> 0 \<le> pr_cache_write pr)"

lemma price_for_ok: assumes "pricing_ok pr" shows "price_ok (price_for pr model)"
proof (cases "price_row pr model")
  case (Some row)
  then have "\<exists>m. dget (pr_models pr) m = Some row"
    by (auto simp: price_row_def split: option.splits if_splits list.splits)
  then obtain m where "(m, row) \<in> set (pr_models pr)" by (auto dest: map_of_SomeD)
  then have "price_ok row" using assms by (auto simp: pricing_ok_def list_all_iff)
  with Some show ?thesis by (simp add: price_for_def)
qed (use assms in \<open>simp add: price_for_def pricing_ok_def\<close>)

lemma cost_nonneg: "pricing_ok pr \<Longrightarrow> 0 \<le> cost pr model i out r w"
  using price_for_ok [of pr model] by (simp add: cost_def Let_def pricing_ok_def price_ok_def)

lemma cost_mono:
  assumes "pricing_ok pr" and "i \<le> i'" and "out \<le> out'" and "r \<le> r'" and "w \<le> w'"
  shows "cost pr model i out r w \<le> cost pr model i' out' r' w'"
  using price_for_ok [OF assms(1), of model] assms
  unfolding cost_def Let_def pricing_ok_def price_ok_def
  by (intro add_mono mult_right_mono) (auto simp: max_def)

text \<open>An unlisted model is never free: it costs what the default row says.\<close>

lemma longest_mem: "longest b ss \<in> set (b # ss)"
  by (induction b ss rule: longest.induct) auto

lemma longest_max: "s \<in> set (b # ss) \<Longrightarrow> length s \<le> length (longest b ss)"
proof (induction b ss arbitrary: s rule: longest.induct)
  case (2 b x ss)
  have "length x \<le> length (longest (if length b < length x then x else b) ss)"
    "length b \<le> length (longest (if length b < length x then x else b) ss)"
    using "2.IH" [of "if length b < length x then x else b"] by auto
  with 2 show ?case by auto
qed simp

section \<open>The tier ladder\<close>

definition tier_key :: string where
  "tier_key = ''tier''"

record tier =
  t_name :: string
  t_rank :: nat
  t_request :: obj
  t_price_model :: "string option"
  t_projected_input :: int
  t_projected_output :: int

definition tier_model :: "tier \<Rightarrow> string option" where
  "tier_model t =
     (case t_price_model t of
        Some (c # cs) \<Rightarrow> Some (c # cs)
      | _ \<Rightarrow> (case jget (t_request t) ''model'' of JStr m \<Rightarrow> Some m | _ \<Rightarrow> None))"

text \<open>\<open>int(ceiling) if ceiling else ...\<close> for a number; a ceiling of another type raises.\<close>

definition max_output_tokens :: "tier \<Rightarrow> int result" where
  "max_output_tokens t =
     (let ceiling = jget (t_request t) ''max_tokens'' in
      if \<not> truthy ceiling then Inr (t_projected_output t)
      else case ceiling of
          JInt i \<Rightarrow> Inr i
        | JBool b \<Rightarrow> Inr (if b then 1 else 0)
        | JFloat q \<Rightarrow> Inr (if q < 0 then - floor (- q) else floor q)
        | JStr s \<Rightarrow> Inl ValueError
        | _ \<Rightarrow> Inl TypeError)"

record ladder =
  l_tiers :: "(string \<times> tier) list"
  l_order :: "string list"
  l_roles :: "(string \<times> string) list"
  l_default :: string

definition make_ladder ::
  "(string \<times> tier) list \<Rightarrow> string list \<Rightarrow> (string \<times> string) list \<Rightarrow> string \<Rightarrow> ladder result" where
  "make_ladder tiers order roles dflt =
     (if order = [] then Inl ValueError
      else if filter (\<lambda>name. name \<notin> set (dkeys tiers)) order \<noteq> [] then Inl ValueError
      else if dflt \<notin> set (dkeys tiers) then Inl ValueError
      else Inr \<lparr>l_tiers = tiers, l_order = order, l_roles = roles, l_default = dflt\<rparr>)"

text \<open>The loop of \<open>from_mapping\<close> over \<open>enumerate(order)\<close>; \<open>rows\<close> are the configured rows.\<close>

definition blank_tier :: tier where
  "blank_tier = \<lparr>t_name = [], t_rank = 0, t_request = [], t_price_model = None,
     t_projected_input = 0, t_projected_output = 0\<rparr>"

fun rank_tiers :: "(string \<times> tier) list \<Rightarrow> nat \<Rightarrow> string list \<Rightarrow> (string \<times> tier) list \<Rightarrow> (string \<times> tier) list" where
  "rank_tiers rows rank [] acc = acc"
| "rank_tiers rows rank (name # names) acc =
     rank_tiers rows (rank + 1) names
       (dput name ((dget_or rows name blank_tier)\<lparr>t_name := name, t_rank := rank\<rparr>) acc)"

definition tier_at :: "ladder \<Rightarrow> string \<Rightarrow> tier" where
  "tier_at l name = dget_or (l_tiers l) name blank_tier"

definition cheapest :: "ladder \<Rightarrow> tier" where
  "cheapest l = tier_at l (hd (l_order l))"

definition most_capable :: "ladder \<Rightarrow> tier" where
  "most_capable l = tier_at l (last (l_order l))"

definition default_tier :: "ladder \<Rightarrow> tier" where
  "default_tier l = tier_at l (l_default l)"

definition named_tier :: "ladder \<Rightarrow> string option \<Rightarrow> tier" where
  "named_tier l name =
     (case name of
        None \<Rightarrow> default_tier l
      | Some n \<Rightarrow> if n \<noteq> [] \<and> n \<in> set (dkeys (l_tiers l)) then tier_at l n else default_tier l)"

definition for_role :: "ladder \<Rightarrow> string option \<Rightarrow> tier" where
  "for_role l role =
     (case role of
        Some r \<Rightarrow>
          if r \<noteq> [] \<and> dget (l_roles l) r \<noteq> None then named_tier l (dget (l_roles l) r)
          else if dget (l_roles l) ''default'' \<noteq> None then named_tier l (dget (l_roles l) ''default'')
          else default_tier l
      | None \<Rightarrow>
          if dget (l_roles l) ''default'' \<noteq> None then named_tier l (dget (l_roles l) ''default'')
          else default_tier l)"

definition downgrade :: "ladder \<Rightarrow> tier \<Rightarrow> tier option" where
  "downgrade l t = (if t_rank t > 0 then Some (tier_at l (l_order l ! (t_rank t - 1))) else None)"

definition cheaper_than :: "ladder \<Rightarrow> tier \<Rightarrow> tier list" where
  "cheaper_than l t = map (tier_at l) (rev (take (t_rank t) (l_order l)))"

definition request_for :: "tier \<Rightarrow> obj option \<Rightarrow> obj" where
  "request_for t overrides = dmerge (t_request t) (case overrides of None \<Rightarrow> [] | Some d \<Rightarrow> d)"

text \<open>A ladder \<open>from_mapping\<close> builds: every rung knows its name and its position.\<close>

definition ladder_ok :: "ladder \<Rightarrow> bool" where
  "ladder_ok l = (l_order l \<noteq> [] \<and> distinct (l_order l) \<and>
     (\<forall>i < length (l_order l). \<exists>t. dget (l_tiers l) (l_order l ! i) = Some t \<and>
        t_name t = l_order l ! i \<and> t_rank t = i) \<and>
     set (dkeys (l_tiers l)) = set (l_order l) \<and> l_default l \<in> set (l_order l))"

lemma dget_rank_tiers:
  "distinct names \<Longrightarrow> dget (rank_tiers rows rank names acc) n =
     (if n \<in> set names then
        Some ((dget_or rows n blank_tier)\<lparr>t_name := n, t_rank := rank + length (takeWhile (\<lambda>m. m \<noteq> n) names)\<rparr>)
      else dget acc n)"
  by (induction rows rank names acc rule: rank_tiers.induct) auto

lemma dkeys_rank_tiers: "fst ` set (rank_tiers rows rank names acc) = set names \<union> fst ` set acc"
  by (induction rows rank names acc rule: rank_tiers.induct) auto

lemma takeWhile_nth: "distinct xs \<Longrightarrow> i < length xs \<Longrightarrow> length (takeWhile (\<lambda>m. m \<noteq> xs ! i) xs) = i"
proof (induction xs arbitrary: i)
  case (Cons x xs)
  then show ?case by (cases i) auto
qed simp

lemma rank_tiers_ok:
  assumes "order \<noteq> []" and "distinct order" and "dflt \<in> set order"
  shows "\<exists>l. make_ladder (rank_tiers rows 0 order []) order roles dflt = Inr l \<and> ladder_ok l"
proof -
  let ?t = "rank_tiers rows 0 order []"
  have "make_ladder ?t order roles dflt =
      Inr \<lparr>l_tiers = ?t, l_order = order, l_roles = roles, l_default = dflt\<rparr>"
    using assms by (simp add: make_ladder_def dkeys_rank_tiers filter_empty_conv)
  moreover have "ladder_ok \<lparr>l_tiers = ?t, l_order = order, l_roles = roles, l_default = dflt\<rparr>"
    using assms by (simp add: ladder_ok_def dget_rank_tiers dkeys_rank_tiers takeWhile_nth)
  ultimately show ?thesis by blast
qed

definition rung :: "ladder \<Rightarrow> tier \<Rightarrow> bool" where
  "rung l t = (t_rank t < length (l_order l) \<and> t = tier_at l (l_order l ! t_rank t))"

lemma tier_at_rung: "ladder_ok l \<Longrightarrow> i < length (l_order l) \<Longrightarrow> t_rank (tier_at l (l_order l ! i)) = i"
  by (auto simp: ladder_ok_def tier_at_def dget_or_def)

lemma rung_at: "ladder_ok l \<Longrightarrow> i < length (l_order l) \<Longrightarrow> rung l (tier_at l (l_order l ! i))"
  by (simp add: rung_def tier_at_rung)

lemma rung_name: assumes "ladder_ok l" and "rung l t" shows "t_name t \<in> set (l_order l)"
proof -
  have i: "t_rank t < length (l_order l)" "t = tier_at l (l_order l ! t_rank t)"
    using assms(2) by (simp_all add: rung_def)
  then obtain t' where "dget (l_tiers l) (l_order l ! t_rank t) = Some t'" "t_name t' = l_order l ! t_rank t"
    using assms(1) by (auto simp: ladder_ok_def)
  then have "t_name t = l_order l ! t_rank t" using i(2) by (simp add: tier_at_def dget_or_def)
  then show ?thesis using i(1) by simp
qed

lemma rung_cheapest: "ladder_ok l \<Longrightarrow> rung l (cheapest l)" "ladder_ok l \<Longrightarrow> t_rank (cheapest l) = 0"
proof -
  assume l: "ladder_ok l"
  then have "0 < length (l_order l)" by (simp add: ladder_ok_def)
  moreover have "hd (l_order l) = l_order l ! 0" using l by (simp add: ladder_ok_def hd_conv_nth)
  ultimately show "rung l (cheapest l)" "t_rank (cheapest l) = 0"
    using rung_at [OF l] tier_at_rung [OF l] by (simp_all add: cheapest_def)
qed

lemma rung_named: "ladder_ok l \<Longrightarrow> rung l (named_tier l n)"
proof -
  assume l: "ladder_ok l"
  have r: "rung l (tier_at l n)" if "n \<in> set (l_order l)" for n
    using that rung_at [OF l] by (auto simp: in_set_conv_nth)
  show ?thesis using l r by (auto simp: named_tier_def default_tier_def ladder_ok_def split: option.split)
qed

lemma rung_for_role: "ladder_ok l \<Longrightarrow> rung l (for_role l r)"
  using rung_named [of l] rung_named [of l None]
  by (auto simp: for_role_def named_tier_def split: option.split)

lemma downgrade_rank:
  assumes "ladder_ok l" and "rung l t" and "downgrade l t = Some t'"
  shows "rung l t' \<and> t_rank t' + 1 = t_rank t"
  using assms rung_at [OF assms(1), of "t_rank t - 1"] tier_at_rung [OF assms(1), of "t_rank t - 1"]
  by (auto simp: downgrade_def rung_def split: if_splits)

lemma cheaper_than_ranks:
  assumes "ladder_ok l" and "rung l t"
  shows "map t_rank (cheaper_than l t) = rev [0..<t_rank t]"
proof -
  have "map (\<lambda>n. t_rank (tier_at l n)) (take (t_rank t) (l_order l)) = [0..<t_rank t]"
    using assms tier_at_rung [OF assms(1)] by (intro nth_equalityI) (auto simp: rung_def)
  then show ?thesis by (simp add: cheaper_than_def rev_map [symmetric] comp_def)
qed

lemma cheaper_than_rungs:
  assumes "ladder_ok l" and "rung l t" and "t' \<in> set (cheaper_than l t)"
  shows "rung l t' \<and> t_rank t' < t_rank t"
proof -
  obtain i where "i < t_rank t" "i < length (l_order l)" "t' = tier_at l (l_order l ! i)"
    using assms(2,3) by (auto simp: cheaper_than_def rung_def in_set_conv_nth)
  then show ?thesis using rung_at [OF assms(1)] tier_at_rung [OF assms(1)] by simp
qed

end
