(* ===== verification/Econ_Budget.thy ===== *)
theory Econ_Budget
  imports Econ_Ledger
begin

text \<open>
  \<open>RunBudget\<close> of \<open>economics/budget.py\<close>, with the \<open>Decision\<close> of \<open>policy.py\<close> whose numbers its
  refusal log keeps. A reason is a constructor with the numbers its text prints.
\<close>

datatype action = Proceed | Downgrade | Branch | Refuse

datatype reason =
    Run_call_ceiling nat
  | Node_call_ceiling nat
  | Past_refuse_at rat
  | Requested_fits
  | Past_downgrade_at rat
  | Slice_too_small string rat
  | Branch_to_cheapest rat rat string
  | Nothing_fits string rat rat rat

record decision =
  d_action :: action
  d_node_id :: string
  d_requested_tier :: string
  d_tier :: "tier option"
  d_projected :: rat
  d_allowance :: rat
  d_remaining :: rat
  d_pressure :: rat
  d_reason :: reason
  d_ladder_steps :: int

definition admitted :: "decision \<Rightarrow> bool" where
  "admitted d = (d_action d \<noteq> Refuse)"

record charge =
  ch_sequence :: nat
  ch_node_id :: string
  ch_role :: string
  ch_tier :: string
  ch_provider :: "string option"
  ch_model :: "string option"
  ch_input :: int
  ch_output :: int
  ch_cache_read :: int
  ch_cache_write :: int
  ch_cost :: rat
  ch_projected :: rat
  ch_latency :: "rat option"
  ch_started_at :: rat
  ch_decision :: action
  ch_requested_tier :: "string option"

record refusal =
  rf_node_id :: string
  rf_reason :: reason
  rf_spent :: rat
  rf_remaining :: rat
  rf_pressure :: rat
  rf_detail :: "decision option"

record budget =
  b_total :: rat
  b_principal :: string
  b_currency :: string
  b_run_id :: "string option"
  b_reserve_fraction :: rat
  b_spent :: rat
  b_reservations :: "(string \<times> rat) list"
  b_charges :: "charge list"
  b_refusals :: "refusal list"
  b_calls_by_node :: "(string \<times> nat) list"

text \<open>The dataclass constructor with \<open>__post_init__\<close>.\<close>

definition new_budget :: "rat \<Rightarrow> string \<Rightarrow> string \<Rightarrow> string option \<Rightarrow> rat \<Rightarrow> budget result" where
  "new_budget amount owner currency run_id fraction =
     (if amount < 0 then Inl ValueError
      else if \<not> (0 \<le> fraction \<and> fraction < 1) then Inl ValueError
      else Inr \<lparr>b_total = amount, b_principal = owner, b_currency = currency, b_run_id = run_id,
        b_reserve_fraction = fraction, b_spent = 0, b_reservations = [], b_charges = [],
        b_refusals = [], b_calls_by_node = []\<rparr>)"

section \<open>State\<close>

definition remaining :: "budget \<Rightarrow> rat" where
  "remaining b = max 0 (b_total b - b_spent b)"

definition pressure :: "budget \<Rightarrow> rat" where
  "pressure b = (if b_total b \<le> 0 then 1 else min 1 (b_spent b / b_total b))"

definition reserve :: "budget \<Rightarrow> rat" where
  "reserve b = b_total b * b_reserve_fraction b"

definition calls :: "budget \<Rightarrow> nat" where
  "calls b = length (b_charges b)"

definition node_calls :: "budget \<Rightarrow> string \<Rightarrow> nat" where
  "node_calls b nid = dget_or (b_calls_by_node b) nid 0"

definition allowance :: "budget \<Rightarrow> string \<Rightarrow> rat" where
  "allowance b nid =
     (case dget (b_reservations b) nid of
        None \<Rightarrow> remaining b
      | Some allocated \<Rightarrow> max 0 (min allocated (remaining b)))"

section \<open>Allocation\<close>

text \<open>\<open>list(dict.fromkeys(xs))\<close>: the first occurrence of each, in order.\<close>

fun dedup :: "string list \<Rightarrow> string list" where
  "dedup [] = []"
| "dedup (x # xs) = x # filter (\<lambda>y. y \<noteq> x) (dedup xs)"

definition allocate :: "string list \<Rightarrow> rat option \<Rightarrow> budget \<Rightarrow> budget" where
  "allocate frontier fraction b =
     (let f = (case fraction of None \<Rightarrow> b_reserve_fraction b | Some x \<Rightarrow> x);
          spendable = max 0 (remaining b - b_total b * f);
          unique = dedup frontier
      in b\<lparr>b_reservations :=
             (if unique = [] then []
              else map (\<lambda>nid. (nid, spendable / of_nat (length unique))) unique)\<rparr>)"

definition release :: "string \<Rightarrow> budget \<Rightarrow> budget" where
  "release nid b = b\<lparr>b_reservations := ddel nid (b_reservations b)\<rparr>"

section \<open>Admission, refusal, charge\<close>

definition can_admit :: "budget \<Rightarrow> string \<Rightarrow> rat \<Rightarrow> rat \<Rightarrow> bool result" where
  "can_admit b nid projected headroom =
     (if projected < 0 then Inl ValueError
      else if projected > remaining b - headroom then Inr False
      else Inr (projected \<le> allowance b nid))"

definition record_refusal :: "string \<Rightarrow> reason \<Rightarrow> decision option \<Rightarrow> budget \<Rightarrow> budget" where
  "record_refusal nid why detail b =
     b\<lparr>b_refusals := b_refusals b @ [\<lparr>rf_node_id = nid, rf_reason = why, rf_spent = b_spent b,
        rf_remaining = remaining b, rf_pressure = pressure b, rf_detail = detail\<rparr>]\<rparr>"

record usage =
  u_provider :: "string option"
  u_model :: "string option"
  u_input :: int
  u_output :: int
  u_cache_read :: int
  u_cache_write :: int
  u_latency :: "rat option"
  u_started_at :: rat

definition usage_cost :: "pricing \<Rightarrow> usage \<Rightarrow> rat" where
  "usage_cost pr u = cost pr (u_model u) (u_input u) (u_output u) (u_cache_read u) (u_cache_write u)"

definition charge_call ::
  "pricing \<Rightarrow> string \<Rightarrow> string \<Rightarrow> string \<Rightarrow> usage \<Rightarrow> rat \<Rightarrow> action \<Rightarrow> string option \<Rightarrow> budget \<Rightarrow> charge \<times> budget" where
  "charge_call pr nid role tname u projected act requested b =
     (let c = usage_cost pr u;
          ch = \<lparr>ch_sequence = length (b_charges b) + 1, ch_node_id = nid, ch_role = role, ch_tier = tname,
            ch_provider = u_provider u, ch_model = u_model u, ch_input = u_input u, ch_output = u_output u,
            ch_cache_read = u_cache_read u, ch_cache_write = u_cache_write u, ch_cost = c,
            ch_projected = projected, ch_latency = u_latency u, ch_started_at = u_started_at u,
            ch_decision = act, ch_requested_tier = requested\<rparr>
      in (ch, b\<lparr>b_spent := b_spent b + c, b_charges := b_charges b @ [ch],
                b_calls_by_node := dput nid (node_calls b nid + 1) (b_calls_by_node b)\<rparr>))"

section \<open>Reports\<close>

record tier_row =
  tr_calls :: nat
  tr_cost :: rat
  tr_input :: int
  tr_output :: int

definition add_to_row :: "charge \<Rightarrow> (string \<times> tier_row) list \<Rightarrow> (string \<times> tier_row) list" where
  "add_to_row ch rows =
     (let row = dget_or rows (ch_tier ch) \<lparr>tr_calls = 0, tr_cost = 0, tr_input = 0, tr_output = 0\<rparr>
      in dput (ch_tier ch) \<lparr>tr_calls = tr_calls row + 1, tr_cost = tr_cost row + ch_cost ch,
           tr_input = tr_input row + ch_input ch, tr_output = tr_output row + ch_output ch\<rparr> rows)"

definition by_tier :: "budget \<Rightarrow> (string \<times> tier_row) list" where
  "by_tier b = fold add_to_row (b_charges b) []"

definition total_cost :: "charge list \<Rightarrow> rat" where
  "total_cost chs = sum_list (map ch_cost chs)"

section \<open>The ledger's laws\<close>

text \<open>Every number the ledger holds is derived from its charges.\<close>

definition ledger_ok :: "budget \<Rightarrow> bool" where
  "ledger_ok b = (0 \<le> b_total b \<and> b_spent b = total_cost (b_charges b) \<and>
     map ch_sequence (b_charges b) = [1..<Suc (length (b_charges b))] \<and>
     (\<forall>nid. node_calls b nid = length (filter (\<lambda>c. ch_node_id c = nid) (b_charges b))) \<and>
     (\<forall>c \<in> set (b_charges b). 0 \<le> ch_cost c))"

lemma ledger_new: "new_budget t p c r f = Inr b \<Longrightarrow> ledger_ok b"
  by (auto simp: new_budget_def ledger_ok_def total_cost_def node_calls_def dget_or_def split: if_splits)

lemma total_cost_nonneg: "\<forall>c \<in> set chs. 0 \<le> ch_cost c \<Longrightarrow> 0 \<le> total_cost chs"
  unfolding total_cost_def by (rule sum_list_nonneg) auto

lemma spent_nonneg: "ledger_ok b \<Longrightarrow> 0 \<le> b_spent b"
  using total_cost_nonneg by (auto simp: ledger_ok_def)

lemma remaining_bounds: "ledger_ok b \<Longrightarrow> 0 \<le> remaining b \<and> remaining b \<le> b_total b"
  using spent_nonneg by (auto simp: remaining_def ledger_ok_def)

lemma pressure_bounds: "ledger_ok b \<Longrightarrow> 0 \<le> pressure b \<and> pressure b \<le> 1"
  using spent_nonneg by (auto simp: pressure_def)

lemma allowance_bounds: "ledger_ok b \<Longrightarrow> 0 \<le> allowance b nid \<and> allowance b nid \<le> remaining b"
  using remaining_bounds by (auto simp: allowance_def split: option.split)

lemma ledger_frame:
  "ledger_ok (allocate fr f b) = ledger_ok b" "ledger_ok (release nid b) = ledger_ok b"
  "ledger_ok (record_refusal nid why d b) = ledger_ok b"
  by (simp_all add: ledger_ok_def allocate_def release_def record_refusal_def node_calls_def Let_def)

lemma ledger_charge:
  assumes "ledger_ok b" and "pricing_ok pr"
  shows "ledger_ok (snd (charge_call pr nid role tn u p a r b))"
  using assms cost_nonneg [of pr]
  by (auto simp: ledger_ok_def charge_call_def Let_def total_cost_def node_calls_def dget_or_def
      usage_cost_def)

lemma dedup_set [simp]: "set (dedup xs) = set xs"
  by (induction xs) auto

lemma dedup_distinct [simp]: "distinct (dedup xs)"
  by (induction xs) auto

lemma dedup_Nil [simp]: "dedup xs = [] \<longleftrightarrow> xs = []"
  by (cases xs) simp_all

lemma dget_allocation:
  "dget (b_reservations (allocate fr f b)) nid =
     (if nid \<in> set fr then
        Some (max 0 (remaining b - b_total b * (case f of None \<Rightarrow> b_reserve_fraction b | Some x \<Rightarrow> x))
              / of_nat (length (dedup fr)))
      else None)"
proof -
  have m: "dget (map (\<lambda>n. (n, v)) xs) nid = (if nid \<in> set xs then Some v else None)" for v and xs :: "string list"
    by (induction xs) auto
  show ?thesis by (simp add: allocate_def Let_def m)
qed

lemma allocation_total:
  "sum_list (map snd (b_reservations (allocate fr f b))) =
     (if fr = [] then 0
      else max 0 (remaining b - b_total b * (case f of None \<Rightarrow> b_reserve_fraction b | Some x \<Rightarrow> x)))"
  by (simp add: allocate_def Let_def comp_def sum_list_triv)

lemma can_admit_iff:
  "can_admit b nid c h = Inr True \<longleftrightarrow> 0 \<le> c \<and> c \<le> remaining b - h \<and> c \<le> allowance b nid"
  by (auto simp: can_admit_def)

end
