(* ===== verification/Dag.thy ===== *)
theory Dag
  imports Prelude
begin

text \<open>
  The one question the graph store asks of its graph library: is the graph acyclic?
  \<open>networkx.is_directed_acyclic_graph\<close> is not part of the repository, so the store's model takes
  it as an argument, and this theory states its documented answer as the interface the store relies
  on. The interface is provided by a checker that removes, round by round, the edges out of nodes
  with no incoming edge.
\<close>

type_synonym edge = "string \<times> string"

locale dag_checker =
  fixes is_dag :: "edge list \<Rightarrow> bool"
  assumes is_dag_iff: "is_dag es \<longleftrightarrow> acyclic (set es)"
begin

lemma is_dag_Nil: "is_dag []"
  by (simp add: is_dag_iff acyclic_def)

lemma is_dag_subset: "is_dag es \<Longrightarrow> set fs \<subseteq> set es \<Longrightarrow> is_dag fs"
  by (auto simp: is_dag_iff intro: acyclic_subset)

lemma is_dag_no_loop: "is_dag es \<Longrightarrow> (a, a) \<notin> set es"
  by (auto simp: is_dag_iff acyclic_def)

text \<open>
  New nodes that only depend on old ones cannot close a cycle: the shape of every patch a planner
  is allowed to make.
\<close>

lemma is_dag_extend:
  assumes "is_dag es" and "\<forall>(p, c) \<in> set fs. c \<notin> V \<and> p \<in> V"
    and "\<forall>(p, c) \<in> set es. p \<in> V \<and> c \<in> V" and "set gs = set es \<union> set fs"
  shows "is_dag gs"
proof -
  have old: "(a, b) \<in> (set es)\<^sup>+" if "(a, b) \<in> (set gs)\<^sup>+" "b \<in> V" for a b
    using that
  proof (induction rule: trancl_induct)
    case (base y)
    then show ?case using assms by auto
  next
    case (step y z)
    then have "(y, z) \<in> set es" "y \<in> V" using assms by auto
    with step show ?case by (auto intro: trancl_into_trancl)
  qed
  have "(a, a) \<notin> (set gs)\<^sup>+" for a
  proof
    assume a: "(a, a) \<in> (set gs)\<^sup>+"
    have "a \<in> V"
    proof -
      from a obtain b where "(a, b) \<in> set gs" by (meson tranclD)
      then show ?thesis using assms by auto
    qed
    with a have "(a, a) \<in> (set es)\<^sup>+" by (rule old)
    with assms(1) show False by (simp add: is_dag_iff acyclic_def)
  qed
  then show ?thesis by (simp add: is_dag_iff acyclic_def)
qed

end

section \<open>A checker\<close>

lemma trancl_last_edge: "(a, b) \<in> r\<^sup>+ \<Longrightarrow> b \<in> snd ` r"
  by (induction rule: trancl_induct) (auto intro: rev_image_eqI)

definition has_incoming :: "edge list \<Rightarrow> string \<Rightarrow> bool" where
  "has_incoming es a = (a \<in> snd ` set es)"

definition peel_once :: "edge list \<Rightarrow> edge list" where
  "peel_once es = filter (\<lambda>(a, b). has_incoming es a) es"

fun peel :: "nat \<Rightarrow> edge list \<Rightarrow> edge list" where
  "peel 0 es = es"
| "peel (Suc n) es = peel n (peel_once es)"

definition dag_check :: "edge list \<Rightarrow> bool" where
  "dag_check es = (peel (length es) es = [])"

lemma acyclic_peel_once: "acyclic (set (peel_once es)) \<longleftrightarrow> acyclic (set es)"
proof
  assume new: "acyclic (set (peel_once es))"
  have keep: "(a, b) \<in> (set (peel_once es))\<^sup>+"
    if "(a, b) \<in> (set es)\<^sup>+" "has_incoming es a" for a b
    using that
  proof (induction rule: trancl_induct)
    case (base y)
    then show ?case by (auto simp: peel_once_def)
  next
    case (step y z)
    then have "has_incoming es y"
      by (simp add: has_incoming_def trancl_last_edge)
    with step show ?case by (auto simp: peel_once_def intro: trancl_into_trancl)
  qed
  show "acyclic (set es)"
    unfolding acyclic_def
  proof (intro allI notI)
    fix a assume a: "(a, a) \<in> (set es)\<^sup>+"
    then have "has_incoming es a"
      by (simp add: has_incoming_def trancl_last_edge)
    with a keep new show False by (auto simp: acyclic_def)
  qed
next
  assume "acyclic (set es)"
  then show "acyclic (set (peel_once es))"
    by (rule acyclic_subset) (auto simp: peel_once_def)
qed

text \<open>A non-empty acyclic graph has a source, so a round removes at least one edge.\<close>

lemma peel_once_shorter:
  assumes "acyclic (set es)" and "es \<noteq> []"
  shows "length (peel_once es) < length es"
proof -
  have "wf (set es)" using assms(1) by (simp add: finite_acyclic_wf)
  moreover obtain a b where "(a, b) \<in> set es" using assms(2) by (metis list.set_intros(1) neq_Nil_conv surj_pair)
  ultimately obtain m where m: "m \<in> fst ` set es" "\<And>y. (y, m) \<in> set es \<Longrightarrow> y \<notin> fst ` set es"
    by (metis (no_types, lifting) wf_eq_minimal fst_conv image_eqI)
  then have "\<not> has_incoming es m" by (force simp: has_incoming_def)
  moreover from m obtain c where "(m, c) \<in> set es" by auto
  ultimately show ?thesis
    unfolding peel_once_def by (intro length_filter_less [of "(m, c)"]) auto
qed

lemma acyclic_peel_Nil: "acyclic (set es) \<Longrightarrow> length es \<le> n \<Longrightarrow> peel n es = []"
proof (induction n arbitrary: es)
  case (Suc n)
  show ?case
  proof (cases "es = []")
    case True
    have "peel m [] = []" for m by (induction m) (simp_all add: peel_once_def)
    with True show ?thesis by simp
  next
    case False
    then have "length (peel_once es) \<le> n" using Suc.prems peel_once_shorter [of es] by simp
    moreover have "acyclic (set (peel_once es))" using Suc.prems acyclic_peel_once by simp
    ultimately show ?thesis using Suc.IH by simp
  qed
qed simp

lemma acyclic_peel: "acyclic (set (peel n es)) \<longleftrightarrow> acyclic (set es)"
  by (induction n arbitrary: es) (simp_all add: acyclic_peel_once)

lemma dag_check_iff: "dag_check es \<longleftrightarrow> acyclic (set es)"
proof
  assume "dag_check es"
  then have "acyclic (set (peel (length es) es))" by (simp add: dag_check_def acyclic_def)
  then show "acyclic (set es)" by (simp add: acyclic_peel)
next
  assume "acyclic (set es)"
  then show "dag_check es" by (simp add: dag_check_def acyclic_peel_Nil)
qed

interpretation peeling: dag_checker dag_check
  by unfold_locales (rule dag_check_iff)

end
