(* ===== verification/Graph_Model.thy ===== *)
theory Graph_Model
  imports Json Dag
begin

text \<open>
  The data of a live graph (\<open>core/live_graph/core.py\<close>) and of its durable checkpoint
  (\<open>core/live_graph/store.py\<close>): node states, task specifications, patches, events, snapshots. The
  graph of a checkpoint is the ordered node dict and the edge list of a networkx \<open>DiGraph\<close>. The
  wall-clock stamp \<open>recorded_at\<close> of an event is left out: nothing in the store reads it.
\<close>

datatype node_state = Pending | Running | Succeeded | Failed | Cancelled | Waiting

record task_spec =
  ts_id :: string
  ts_skill :: string
  ts_input :: obj
  ts_metadata :: obj

record graph_patch =
  p_add :: "task_spec list"
  p_connect :: "edge list"
  p_cancel :: "string list"
  p_wait :: "string list"
  p_resume :: "string list"
  p_finish :: bool
  p_reason :: string
  p_metadata :: obj

definition empty_patch :: graph_patch where
  "empty_patch = \<lparr>p_add = [], p_connect = [], p_cancel = [], p_wait = [], p_resume = [],
     p_finish = False, p_reason = [], p_metadata = []\<rparr>"

record event =
  ev_sequence :: nat
  ev_kind :: string
  ev_node :: "string option"
  ev_payload :: obj

text \<open>A node of the graph: the attributes \<open>apply_patch\<close> creates it with, and \<open>wait\<close>, which only a
  parked node has.\<close>

record gnode =
  n_skill :: string
  n_input :: obj
  n_metadata :: obj
  n_state :: node_state
  n_result :: "obj option"
  n_wait :: "obj option"

record snapshot =
  sn_run_id :: string
  sn_finished :: bool
  sn_nodes :: "(string \<times> gnode) list"
  sn_edges :: "edge list"

record checkpoint =
  c_format :: string
  c_version :: nat
  c_run_id :: string
  c_finished :: bool
  c_context :: obj
  c_nodes :: "(string \<times> gnode) list"
  c_edges :: "edge list"
  c_events :: "event list"
  c_applied :: "(nat \<times> obj) list"

record deferred =
  d_handle :: string
  d_event_type :: string
  d_metadata :: obj

text \<open>\<open>Deferred.as_wait\<close>\<close>

definition as_wait :: "deferred \<Rightarrow> obj" where
  "as_wait d = dmerge [(''handle'', JStr (d_handle d)), (''event_type'', JStr (d_event_type d))]
     (d_metadata d)"

text \<open>The states in which a node may still move; the others are final.\<close>

definition active :: "node_state \<Rightarrow> bool" where
  "active s = (s \<in> {Pending, Waiting, Running})"

lemma active_simps [simp]:
  "active Pending" "active Waiting" "active Running"
  "\<not> active Succeeded" "\<not> active Failed" "\<not> active Cancelled"
  by (simp_all add: active_def)

text \<open>\<open>NodeState\<close> is a \<open>StrEnum\<close>: a state is its string.\<close>

fun state_str :: "node_state \<Rightarrow> string" where
  "state_str Pending = ''pending''"
| "state_str Running = ''running''"
| "state_str Succeeded = ''succeeded''"
| "state_str Failed = ''failed''"
| "state_str Cancelled = ''cancelled''"
| "state_str Waiting = ''waiting''"

lemma state_str_inj: "state_str a = state_str b \<longleftrightarrow> a = b"
  by (cases a; cases b) simp_all

section \<open>Reading a checkpoint\<close>

definition state_of :: "checkpoint \<Rightarrow> string \<Rightarrow> node_state option" where
  "state_of c nid = map_option n_state (dget (c_nodes c) nid)"

definition node_ids :: "checkpoint \<Rightarrow> string list" where
  "node_ids c = dkeys (c_nodes c)"

text \<open>\<open>graph.predecessors\<close>\<close>

definition preds :: "edge list \<Rightarrow> string \<Rightarrow> string list" where
  "preds es nid = map fst (filter (\<lambda>(p, c). c = nid) es)"

lemma mem_preds: "p \<in> set (preds es nid) \<longleftrightarrow> (p, nid) \<in> set es"
  by (force simp: preds_def)

text \<open>\<open>graph.nodes[nid]["state"] = s\<close>\<close>

definition set_state :: "string \<Rightarrow> node_state \<Rightarrow> checkpoint \<Rightarrow> checkpoint" where
  "set_state nid s c = c\<lparr>c_nodes := dmodify nid (\<lambda>n. n\<lparr>n_state := s\<rparr>) (c_nodes c)\<rparr>"

lemma state_of_set_state [simp]:
  "state_of (set_state nid s c) m =
     (if m = nid then (if state_of c nid = None then None else Some s) else state_of c m)"
  by (auto simp: state_of_def set_state_def)

lemma set_state_frame [simp]:
  "node_ids (set_state nid s c) = node_ids c" "c_edges (set_state nid s c) = c_edges c"
  "c_finished (set_state nid s c) = c_finished c" "c_events (set_state nid s c) = c_events c"
  "c_applied (set_state nid s c) = c_applied c" "c_run_id (set_state nid s c) = c_run_id c"
  "c_format (set_state nid s c) = c_format c" "c_context (set_state nid s c) = c_context c"
  by (simp_all add: set_state_def node_ids_def)

lemma state_of_Some_id: "state_of c nid = Some s \<Longrightarrow> nid \<in> set (node_ids c)"
  by (auto simp: state_of_def node_ids_def dest: dget_Some_key)

lemma state_of_None_iff: "state_of c nid = None \<longleftrightarrow> nid \<notin> set (node_ids c)"
  by (simp add: state_of_def node_ids_def dget_None_iff)

text \<open>\<open>GraphStore._event\<close>: append to the journal, numbered by its position.\<close>

definition add_event :: "string \<Rightarrow> string option \<Rightarrow> obj \<Rightarrow> checkpoint \<Rightarrow> event \<times> checkpoint" where
  "add_event kind nid payload c =
     (let e = \<lparr>ev_sequence = length (c_events c) + 1, ev_kind = kind, ev_node = nid,
               ev_payload = payload\<rparr>
      in (e, c\<lparr>c_events := c_events c @ [e]\<rparr>))"

abbreviation log_event :: "string \<Rightarrow> string option \<Rightarrow> obj \<Rightarrow> checkpoint \<Rightarrow> checkpoint" where
  "log_event kind nid payload c \<equiv> snd (add_event kind nid payload c)"

lemma add_event_frame [simp]:
  "state_of (log_event k n p c) m = state_of c m" "node_ids (log_event k n p c) = node_ids c"
  "c_nodes (log_event k n p c) = c_nodes c"
  "c_edges (log_event k n p c) = c_edges c" "c_finished (log_event k n p c) = c_finished c"
  "c_applied (log_event k n p c) = c_applied c" "c_run_id (log_event k n p c) = c_run_id c"
  "c_format (log_event k n p c) = c_format c" "c_context (log_event k n p c) = c_context c"
  by (simp_all add: add_event_def Let_def state_of_def node_ids_def)

section \<open>Well-formed checkpoints\<close>

text \<open>The journal is numbered 1, 2, 3, \<dots> without gaps.\<close>

definition journal_ok :: "event list \<Rightarrow> bool" where
  "journal_ok es = (map ev_sequence es = [1..<Suc (length es)])"

definition edges_ok :: "checkpoint \<Rightarrow> bool" where
  "edges_ok c = (distinct (c_edges c) \<and>
     (\<forall>(p, n) \<in> set (c_edges c). p \<in> set (node_ids c) \<and> n \<in> set (node_ids c)))"

definition quiescent :: "checkpoint \<Rightarrow> bool" where
  "quiescent c = (\<forall>s \<in> n_state ` snd ` set (c_nodes c). \<not> active s)"

definition wf_graph :: "checkpoint \<Rightarrow> bool" where
  "wf_graph c = (distinct (node_ids c) \<and> edges_ok c \<and> acyclic (set (c_edges c)) \<and>
     (c_finished c \<longrightarrow> quiescent c) \<and> journal_ok (c_events c))"

lemma journal_ok_Nil [simp]: "journal_ok []"
  by (simp add: journal_ok_def)

lemma journal_ok_log [simp]: "journal_ok (c_events (log_event k n p c)) \<longleftrightarrow> journal_ok (c_events c)"
  by (auto simp: journal_ok_def add_event_def Let_def)

lemma quiescent_iff:
  "distinct (node_ids c) \<Longrightarrow> quiescent c \<longleftrightarrow> (\<forall>nid s. state_of c nid = Some s \<longrightarrow> \<not> active s)"
  by (force simp: quiescent_def state_of_def node_ids_def image_iff)

lemma wf_log_event [simp]: "wf_graph (log_event k n p c) \<longleftrightarrow> wf_graph c"
  by (simp add: wf_graph_def edges_ok_def quiescent_def)

text \<open>Changing a node's state keeps the graph well formed unless the graph is finished and the
  new state is active.\<close>

lemma wf_set_state:
  assumes "wf_graph c" and "c_finished c \<longrightarrow> \<not> active s"
  shows "wf_graph (set_state nid s c)"
proof -
  have d: "distinct (node_ids (set_state nid s c))" "distinct (node_ids c)"
    using assms by (simp_all add: wf_graph_def)
  from assms show ?thesis
    by (auto simp: wf_graph_def edges_ok_def quiescent_iff [OF d(1)] quiescent_iff [OF d(2)]
          split: if_splits)
qed

end
