(* ===== verification/Graph_Ops.thy ===== *)
theory Graph_Ops
  imports Graph_Model
begin

text \<open>
  The operations of \<open>GraphStore\<close> on one loaded checkpoint: what each method does between its
  \<open>_load\<close> and its \<open>_save\<close>. An operation that raises returns \<open>Inl\<close> and the loaded copy is dropped,
  so the checkpoint on disk stays as it was. The file level is the theory of the store.
\<close>

definition graph_format :: string where
  "graph_format = ''s17-networkx-run-v1''"

text \<open>\<open>GraphStore._new\<close>\<close>

definition new_checkpoint :: "string \<Rightarrow> obj \<Rightarrow> checkpoint" where
  "new_checkpoint rid ctx = \<lparr>c_format = graph_format, c_version = 0, c_run_id = rid,
     c_finished = False, c_context = ctx, c_nodes = [], c_edges = [], c_events = [], c_applied = []\<rparr>"

section \<open>Resume, snapshot, ready\<close>

definition resume_ck :: "checkpoint \<Rightarrow> checkpoint" where
  "resume_ck c = log_event ''run_resumed'' None []
     (c\<lparr>c_nodes := map (\<lambda>(nid, n). (nid, if n_state n = Running then n\<lparr>n_state := Pending\<rparr> else n))
                      (c_nodes c)\<rparr>)"

definition snapshot_ck :: "checkpoint \<Rightarrow> snapshot" where
  "snapshot_ck c = \<lparr>sn_run_id = c_run_id c, sn_finished = c_finished c,
     sn_nodes = sort_key fst (c_nodes c), sn_edges = sort (c_edges c)\<rparr>"

definition spec_of :: "string \<Rightarrow> gnode \<Rightarrow> task_spec" where
  "spec_of nid n = \<lparr>ts_id = nid, ts_skill = n_skill n, ts_input = n_input n, ts_metadata = n_metadata n\<rparr>"

definition is_ready :: "checkpoint \<Rightarrow> string \<Rightarrow> bool" where
  "is_ready c nid = (state_of c nid = Some Pending \<and>
     (\<forall>p \<in> set (preds (c_edges c) nid). state_of c p = Some Succeeded))"

text \<open>The scan of \<open>ready\<close>: it stops as soon as the list has \<open>limit\<close> elements.\<close>

fun ready_loop :: "checkpoint \<Rightarrow> int \<Rightarrow> (string \<times> gnode) list \<Rightarrow> task_spec list \<Rightarrow> task_spec list" where
  "ready_loop c limit [] acc = acc"
| "ready_loop c limit ((nid, n) # rest) acc =
     (if n_state n \<noteq> Pending then ready_loop c limit rest acc
      else if list_all (\<lambda>p. state_of c p = Some Succeeded) (preds (c_edges c) nid) then
        let acc' = acc @ [spec_of nid n]
        in if int (length acc') = limit then acc' else ready_loop c limit rest acc'
      else ready_loop c limit rest acc)"

definition ready_ck :: "checkpoint \<Rightarrow> int \<Rightarrow> task_spec list" where
  "ready_ck c limit = ready_loop c limit (sort_key fst (c_nodes c)) []"

section \<open>Starting work and recording what happened\<close>

definition mark_one :: "task_spec \<Rightarrow> checkpoint \<Rightarrow> checkpoint result" where
  "mark_one t c =
     (case state_of c (ts_id t) of
        None \<Rightarrow> Inl KeyError
      | Some s \<Rightarrow>
          if s \<noteq> Pending then Inr c
          else Inr (log_event ''task_started'' (Some (ts_id t))
                 [(''skill'', JStr (ts_skill t)),
                  (''agent'', dget_or (ts_metadata t) ''agent'' (JStr (ts_skill t)))]
                 (set_state (ts_id t) Running c)))"

definition mark_running_ck :: "task_spec list \<Rightarrow> checkpoint \<Rightarrow> checkpoint result" where
  "mark_running_ck ts c = fold_r mark_one ts c"

definition set_result :: "string \<Rightarrow> obj \<Rightarrow> checkpoint \<Rightarrow> checkpoint" where
  "set_result nid r c = c\<lparr>c_nodes := dmodify nid (\<lambda>n. n\<lparr>n_result := Some r\<rparr>) (c_nodes c)\<rparr>"

definition set_wait :: "string \<Rightarrow> obj option \<Rightarrow> checkpoint \<Rightarrow> checkpoint" where
  "set_wait nid w c = c\<lparr>c_nodes := dmodify nid (\<lambda>n. n\<lparr>n_wait := w\<rparr>) (c_nodes c)\<rparr>"

definition outcome_kind :: "bool \<Rightarrow> string" where
  "outcome_kind success = (if success then ''task_succeeded'' else ''task_failed'')"

definition outcome_state :: "bool \<Rightarrow> node_state" where
  "outcome_state success = (if success then Succeeded else Failed)"

definition record_outcome_ck ::
  "string \<Rightarrow> bool \<Rightarrow> obj \<Rightarrow> checkpoint \<Rightarrow> (event \<times> checkpoint) result" where
  "record_outcome_ck nid success payload c =
     (case state_of c nid of
        None \<Rightarrow> Inl KeyError
      | Some s \<Rightarrow>
          if s \<noteq> Running then Inl GraphMutationError
          else Inr (add_event (outcome_kind success) (Some nid) payload
                 (set_result nid payload (set_state nid (outcome_state success) c))))"

definition record_waiting_ck :: "string \<Rightarrow> obj \<Rightarrow> checkpoint \<Rightarrow> (event \<times> checkpoint) result" where
  "record_waiting_ck nid wait c =
     (case state_of c nid of
        None \<Rightarrow> Inl KeyError
      | Some s \<Rightarrow>
          if s \<noteq> Running then Inl GraphMutationError
          else Inr (add_event ''task_waiting'' (Some nid) wait
                 (set_wait nid (Some wait) (set_state nid Waiting c))))"

text \<open>The body of \<open>complete_waiting\<close> once the parked node is found.\<close>

definition complete_ck ::
  "string \<Rightarrow> string \<Rightarrow> string \<Rightarrow> obj \<Rightarrow> bool \<Rightarrow> checkpoint \<Rightarrow> event \<times> checkpoint" where
  "complete_ck nid handle etype payload success c =
     (let c1 = set_wait nid None (set_result nid payload (set_state nid (outcome_state success) c));
          c2 = log_event ''external_event_received'' (Some nid)
                 [(''handle'', JStr handle), (''event_type'', JStr etype)] c1
      in add_event (outcome_kind success) (Some nid) payload c2)"

section \<open>Applying a patch\<close>

definition check_connect :: "string list \<Rightarrow> edge \<Rightarrow> py_error option" where
  "check_connect all_ids e =
     (case e of (parent, child) \<Rightarrow>
        if parent \<notin> set all_ids \<or> child \<notin> set all_ids then Some GraphMutationError
        else if parent = child then Some GraphMutationError else None)"

definition check_known :: "string list \<Rightarrow> string \<Rightarrow> py_error option" where
  "check_known all_ids nid = (if nid \<notin> set all_ids then Some GraphMutationError else None)"

text \<open>\<open>graph.nodes[node_id]\<close> raises for a node this same patch adds: it is not in the graph yet.\<close>

definition check_cancel :: "checkpoint \<Rightarrow> string \<Rightarrow> py_error option" where
  "check_cancel c nid =
     (case state_of c nid of
        None \<Rightarrow> Some KeyError
      | Some s \<Rightarrow> if s \<in> {Pending, Waiting, Running} then None else Some GraphMutationError)"

definition check_wait :: "checkpoint \<Rightarrow> string \<Rightarrow> py_error option" where
  "check_wait c nid =
     (case state_of c nid of
        None \<Rightarrow> None
      | Some s \<Rightarrow> if s \<noteq> Pending then Some GraphMutationError else None)"

definition check_resume :: "checkpoint \<Rightarrow> string \<Rightarrow> py_error option" where
  "check_resume c nid =
     (case state_of c nid of
        None \<Rightarrow> None
      | Some s \<Rightarrow> if s \<noteq> Waiting then Some GraphMutationError else None)"

definition check_patch :: "graph_patch \<Rightarrow> checkpoint \<Rightarrow> py_error option" where
  "check_patch p c =
     (let existing = node_ids c; adds = map ts_id (p_add p); all_ids = existing @ adds in
      if \<not> distinct adds \<or> set existing \<inter> set adds \<noteq> {} then Some GraphMutationError
      else case first_err (check_connect all_ids) (p_connect p) of Some e \<Rightarrow> Some e
      | None \<Rightarrow> case first_err (check_known all_ids) (p_cancel p @ p_wait p @ p_resume p) of Some e \<Rightarrow> Some e
      | None \<Rightarrow> case first_err (check_cancel c) (p_cancel p) of Some e \<Rightarrow> Some e
      | None \<Rightarrow> case first_err (check_wait c) (p_wait p) of Some e \<Rightarrow> Some e
      | None \<Rightarrow> first_err (check_resume c) (p_resume p))"

definition new_node :: "task_spec \<Rightarrow> string \<times> gnode" where
  "new_node t = (ts_id t, \<lparr>n_skill = ts_skill t, n_input = ts_input t, n_metadata = ts_metadata t,
     n_state = Pending, n_result = None, n_wait = None\<rparr>)"

text \<open>\<open>add_edges_from\<close>: an edge the graph has is not added again.\<close>

fun add_edges :: "edge list \<Rightarrow> edge list \<Rightarrow> edge list" where
  "add_edges es [] = es"
| "add_edges es (e # fs) = add_edges (if e \<in> set es then es else es @ [e]) fs"

definition grow :: "graph_patch \<Rightarrow> checkpoint \<Rightarrow> checkpoint" where
  "grow p c = c\<lparr>c_nodes := c_nodes c @ map new_node (p_add p),
                c_edges := add_edges (c_edges c) (p_connect p)\<rparr>"

definition cancel_one :: "string \<Rightarrow> string \<Rightarrow> checkpoint \<Rightarrow> checkpoint" where
  "cancel_one reason nid c =
     (let was_running = (state_of c nid = Some Running)
      in log_event ''task_cancelled'' (Some nid)
           [(''reason'', JStr reason), (''was_running'', JBool was_running)]
           (set_state nid Cancelled c))"

definition finish_one :: "string \<Rightarrow> checkpoint \<Rightarrow> checkpoint" where
  "finish_one nid c =
     (case state_of c nid of
        None \<Rightarrow> c
      | Some s \<Rightarrow> if s \<in> {Pending, Waiting, Running} then cancel_one ''graph finished'' nid c else c)"

definition finish_ck :: "checkpoint \<Rightarrow> checkpoint" where
  "finish_ck c = (fold finish_one (node_ids c) c)\<lparr>c_finished := True\<rparr>"

definition patch_payload :: "graph_patch \<Rightarrow> nat \<Rightarrow> obj" where
  "patch_payload p trigger = dmerge
     [(''trigger_event'', JInt (int trigger)), (''reason'', JStr (p_reason p)),
      (''add'', JList (map (\<lambda>t. JStr (ts_id t)) (p_add p))),
      (''connect'', JList (map (\<lambda>(a, b). JList [JStr a, JStr b]) (p_connect p))),
      (''cancel'', JList (map JStr (p_cancel p))), (''wait'', JList (map JStr (p_wait p))),
      (''resume'', JList (map JStr (p_resume p))), (''finish'', JBool (p_finish p))]
     (p_metadata p)"

text \<open>The moves of an accepted patch, in the order the code makes them.\<close>

definition patch_moves :: "graph_patch \<Rightarrow> checkpoint \<Rightarrow> checkpoint" where
  "patch_moves p c =
     (let c1 = fold (cancel_one (p_reason p)) (p_cancel p) c;
          c2 = fold (\<lambda>nid. set_state nid Waiting) (p_wait p) c1;
          c3 = fold (\<lambda>nid. set_state nid Pending) (p_resume p) c2
      in if p_finish p then finish_ck c3 else c3)"

definition record_patch :: "graph_patch \<Rightarrow> nat \<Rightarrow> checkpoint \<Rightarrow> checkpoint" where
  "record_patch p trigger c =
     (log_event ''graph_patched'' None (patch_payload p trigger) c)
       \<lparr>c_applied := dput trigger (patch_payload p trigger) (c_applied c)\<rparr>"

definition apply_patch_ck ::
  "(edge list \<Rightarrow> bool) \<Rightarrow> graph_patch \<Rightarrow> nat \<Rightarrow> checkpoint \<Rightarrow> (bool \<times> checkpoint) result" where
  "apply_patch_ck is_dag p trigger c =
     (if dget (c_applied c) trigger \<noteq> None then Inr (False, c)
      else if c_finished c then Inl GraphMutationError
      else guard_r (check_patch p c)
        (if \<not> is_dag (c_edges (grow p c)) then Inl GraphMutationError
         else Inr (True, record_patch p trigger (patch_moves p (grow p c)))))"

text \<open>The events a crash may have left without their planning round.\<close>

definition pending_planner_events_ck :: "checkpoint \<Rightarrow> event list" where
  "pending_planner_events_ck c =
     filter (\<lambda>e. ev_kind e \<in> {''run_started'', ''task_succeeded'', ''task_failed''} \<and>
                 dget (c_applied c) (ev_sequence e) = None) (c_events c)"

end
