(* ===== verification/Graph_Invariants.thy ===== *)
theory Graph_Invariants
  imports Graph_Ops
begin

text \<open>
  What every operation on a checkpoint keeps: well-formedness (distinct ids, edges between known
  nodes, no cycle, a finished graph at rest, a gapless journal) and the finality of terminal states.
  The property theorems of the graph are in the theory of the store.
\<close>

named_theorems wf_graph_intros
named_theorems state_of_simps

section \<open>Node states after each move\<close>

lemma set_add_edges [simp]: "set (add_edges es fs) = set es \<union> set fs"
  by (induction es fs rule: add_edges.induct) auto

lemma distinct_add_edges: "distinct es \<Longrightarrow> distinct (add_edges es fs)"
  by (induction es fs rule: add_edges.induct) auto

lemma fst_new_node [simp]: "fst (new_node t) = ts_id t"
  by (simp add: new_node_def)

lemma node_ids_grow [simp]: "node_ids (grow p c) = node_ids c @ map ts_id (p_add p)"
  by (simp add: node_ids_def grow_def)

lemma edges_grow [simp]: "c_edges (grow p c) = add_edges (c_edges c) (p_connect p)"
  by (simp add: grow_def)

lemma grow_frame [simp]:
  "c_finished (grow p c) = c_finished c" "c_events (grow p c) = c_events c"
  "c_applied (grow p c) = c_applied c" "c_run_id (grow p c) = c_run_id c"
  "c_format (grow p c) = c_format c" "c_context (grow p c) = c_context c"
  by (simp_all add: grow_def)

lemma dget_new_nodes:
  "dget (map new_node ts) nid = None \<longleftrightarrow> nid \<notin> ts_id ` set ts"
  "dget (map new_node ts) nid = Some n \<Longrightarrow> n_state n = Pending"
  by (induction ts) (auto simp: new_node_def split: if_splits)

lemma state_of_grow [state_of_simps]:
  "state_of (grow p c) nid =
     (case state_of c nid of Some s \<Rightarrow> Some s
      | None \<Rightarrow> if nid \<in> ts_id ` set (p_add p) then Some Pending else None)"
  using dget_new_nodes [of "p_add p" nid]
  by (auto simp: state_of_def grow_def map_add_def split: option.splits)

lemma state_of_cancel_one [state_of_simps]:
  "state_of (cancel_one r nid c) m =
     (if m = nid then map_option (\<lambda>_. Cancelled) (state_of c nid) else state_of c m)"
  by (auto simp: cancel_one_def Let_def)

lemma node_ids_cancel_one [simp]: "node_ids (cancel_one r nid c) = node_ids c"
  by (simp add: cancel_one_def Let_def)

lemma state_of_cancels [state_of_simps]:
  "state_of (fold (cancel_one r) nids c) m =
     (if m \<in> set nids then map_option (\<lambda>_. Cancelled) (state_of c m) else state_of c m)"
  by (induction nids arbitrary: c) (auto simp: state_of_cancel_one option.map_comp comp_def)

lemma state_of_set_states [state_of_simps]:
  "state_of (fold (\<lambda>nid. set_state nid s) nids c) m =
     (if m \<in> set nids then map_option (\<lambda>_. s) (state_of c m) else state_of c m)"
  by (induction nids arbitrary: c) auto

lemma state_of_finish_one [state_of_simps]:
  "state_of (finish_one nid c) m =
     (if m = nid then map_option (\<lambda>s. if active s then Cancelled else s) (state_of c nid)
      else state_of c m)"
  by (auto simp: finish_one_def state_of_cancel_one active_def split: option.splits)

lemma state_of_finishes [state_of_simps]:
  "state_of (fold finish_one nids c) m =
     (if m \<in> set nids then map_option (\<lambda>s. if active s then Cancelled else s) (state_of c m)
      else state_of c m)"
  by (induction nids arbitrary: c)
    (auto simp: state_of_finish_one option.map_comp comp_def intro!: option.map_cong)

lemma state_of_finish_ck [state_of_simps]:
  "state_of (finish_ck c) m = map_option (\<lambda>s. if active s then Cancelled else s) (state_of c m)"
proof -
  have "state_of (finish_ck c) m = state_of (fold finish_one (node_ids c) c) m"
    by (simp add: finish_ck_def state_of_def)
  then show ?thesis
    using state_of_None_iff [of c m] by (auto simp: state_of_finishes)
qed

lemma state_of_set_result [simp]: "state_of (set_result nid r c) m = state_of c m"
  by (simp add: set_result_def state_of_def option.map_comp comp_def)

lemma state_of_set_wait [simp]: "state_of (set_wait nid w c) m = state_of c m"
  by (simp add: set_wait_def state_of_def option.map_comp comp_def)

lemma set_result_frame [simp]:
  "node_ids (set_result nid r c) = node_ids c" "c_edges (set_result nid r c) = c_edges c"
  "c_finished (set_result nid r c) = c_finished c" "c_events (set_result nid r c) = c_events c"
  "c_applied (set_result nid r c) = c_applied c" "c_run_id (set_result nid r c) = c_run_id c"
  "c_format (set_result nid r c) = c_format c" "c_context (set_result nid r c) = c_context c"
  by (simp_all add: set_result_def node_ids_def)

lemma set_wait_frame [simp]:
  "node_ids (set_wait nid r c) = node_ids c" "c_edges (set_wait nid r c) = c_edges c"
  "c_finished (set_wait nid r c) = c_finished c" "c_events (set_wait nid r c) = c_events c"
  "c_applied (set_wait nid r c) = c_applied c" "c_run_id (set_wait nid r c) = c_run_id c"
  "c_format (set_wait nid r c) = c_format c" "c_context (set_wait nid r c) = c_context c"
  by (simp_all add: set_wait_def node_ids_def)

lemma state_of_resume_ck [state_of_simps]:
  "state_of (resume_ck c) m =
     map_option (\<lambda>s. if s = Running then Pending else s) (state_of c m)"
proof -
  have "(\<lambda>(nid, n). (nid, if n_state n = Running then n\<lparr>n_state := Pending\<rparr> else n)) =
        (\<lambda>(nid, n). (nid, (\<lambda>n. if n_state n = Running then n\<lparr>n_state := Pending\<rparr> else n) n))"
    by auto
  then show ?thesis
    by (auto simp: resume_ck_def state_of_def dget_map_snd option.map_comp comp_def
          intro!: option.map_cong)
qed

lemma node_ids_resume_ck [simp]: "node_ids (resume_ck c) = node_ids c"
  by (simp add: resume_ck_def node_ids_def case_prod_beta comp_def)

section \<open>Well-formedness is kept\<close>

lemma wf_graphI [wf_graph_intros]:
  assumes "distinct (node_ids c)" and "edges_ok c" and "acyclic (set (c_edges c))"
    and "\<And>nid s. c_finished c \<Longrightarrow> state_of c nid = Some s \<Longrightarrow> \<not> active s" and "journal_ok (c_events c)"
  shows "wf_graph c"
  using assms by (simp add: wf_graph_def quiescent_iff)

lemma wf_graph_finished:
  "wf_graph c \<Longrightarrow> c_finished c \<Longrightarrow> state_of c nid = Some s \<Longrightarrow> \<not> active s"
  using quiescent_iff [of c] by (auto simp: wf_graph_def)

text \<open>A graph with a node that may still move is not finished, so the node may move to any state.\<close>

lemma wf_set_state_active:
  assumes "wf_graph c" and "\<exists>s. state_of c nid = Some s \<and> active s"
  shows "wf_graph (set_state nid s' c)"
  using assms wf_graph_finished by (intro wf_set_state) blast+

lemma wf_new_checkpoint: "wf_graph (log_event k None [] (new_checkpoint rid ctx))"
  by (simp add: wf_graph_def new_checkpoint_def node_ids_def edges_ok_def acyclic_def quiescent_def)

lemma wf_resume_ck:
  assumes "wf_graph c" shows "wf_graph (resume_ck c)"
proof (rule wf_graphI)
  fix nid s
  assume "c_finished (resume_ck c)" and s: "state_of (resume_ck c) nid = Some s"
  then have "c_finished c" by (simp add: resume_ck_def)
  then have "\<And>s'. state_of c nid = Some s' \<Longrightarrow> \<not> active s'" using assms by (rule_tac wf_graph_finished)
  with s show "\<not> active s" by (auto simp: state_of_resume_ck split: if_splits)
next
  show "journal_ok (c_events (resume_ck c))"
    using assms by (simp add: resume_ck_def wf_graph_def)
  show "acyclic (set (c_edges (resume_ck c)))"
    using assms by (simp add: resume_ck_def wf_graph_def)
  have "c_edges (resume_ck c) = c_edges c" by (simp add: resume_ck_def)
  then show "edges_ok (resume_ck c)" using assms by (simp add: wf_graph_def edges_ok_def)
  show "distinct (node_ids (resume_ck c))" using assms by (simp add: wf_graph_def)
qed

lemma wf_set_result [simp]: "wf_graph (set_result nid r c) \<longleftrightarrow> wf_graph c"
  by (auto simp: wf_graph_def edges_ok_def quiescent_iff)

lemma wf_set_wait [simp]: "wf_graph (set_wait nid r c) \<longleftrightarrow> wf_graph c"
  by (auto simp: wf_graph_def edges_ok_def quiescent_iff)

lemma wf_mark_one: "wf_graph c \<Longrightarrow> mark_one t c = Inr c' \<Longrightarrow> wf_graph c'"
  by (auto simp: mark_one_def split: option.splits if_splits
      intro!: wf_set_state_active)

lemma wf_mark_running: "wf_graph c \<Longrightarrow> mark_running_ck ts c = Inr c' \<Longrightarrow> wf_graph c'"
  unfolding mark_running_ck_def by (rule fold_r_invariant) (auto intro: wf_mark_one)

lemma outcome_state_final [simp]: "\<not> active (outcome_state b)"
  by (simp add: outcome_state_def)

lemma snd_add_event: "add_event k n p c = (e, c') \<Longrightarrow> c' = log_event k n p c"
  by simp

lemma wf_record_outcome: "wf_graph c \<Longrightarrow> record_outcome_ck nid b r c = Inr (e, c') \<Longrightarrow> wf_graph c'"
  by (auto simp: record_outcome_ck_def split: option.splits if_splits
      dest!: snd_add_event intro!: wf_set_state)

lemma wf_record_waiting: "wf_graph c \<Longrightarrow> record_waiting_ck nid w c = Inr (e, c') \<Longrightarrow> wf_graph c'"
  by (auto simp: record_waiting_ck_def split: option.splits if_splits
      dest!: snd_add_event intro!: wf_set_state_active)

lemma wf_complete_ck: "wf_graph c \<Longrightarrow> wf_graph (snd (complete_ck nid h t r b c))"
  by (simp add: complete_ck_def Let_def wf_set_state)

lemma wf_cancel_one: "wf_graph c \<Longrightarrow> wf_graph (cancel_one r nid c)"
  by (simp add: cancel_one_def Let_def wf_set_state)

lemma wf_cancels: "wf_graph c \<Longrightarrow> wf_graph (fold (cancel_one r) nids c)"
  by (induction nids arbitrary: c) (simp_all add: wf_cancel_one)

lemma wf_finish_one: "wf_graph c \<Longrightarrow> wf_graph (finish_one nid c)"
  by (auto simp: finish_one_def wf_cancel_one split: option.split)

lemma wf_finishes: "wf_graph c \<Longrightarrow> wf_graph (fold finish_one nids c)"
  by (induction nids arbitrary: c) (simp_all add: wf_finish_one)

lemma wf_finish_ck: assumes "wf_graph c" shows "wf_graph (finish_ck c)"
proof (rule wf_graphI)
  let ?d = "fold finish_one (node_ids c) c"
  have d: "wf_graph ?d" using assms by (rule wf_finishes)
  then show "distinct (node_ids (finish_ck c))" "acyclic (set (c_edges (finish_ck c)))"
    "edges_ok (finish_ck c)" "journal_ok (c_events (finish_ck c))"
    by (simp_all add: finish_ck_def wf_graph_def node_ids_def edges_ok_def)
  show "\<not> active s" if "state_of (finish_ck c) nid = Some s" for nid s
    using that by (auto simp: state_of_finish_ck split: if_splits)
qed

lemma finished_cancel_one [simp]: "c_finished (cancel_one r nid c) = c_finished c"
  by (simp add: cancel_one_def Let_def)

lemma finished_cancels [simp]: "c_finished (fold (cancel_one r) nids c) = c_finished c"
  by (induction nids arbitrary: c) simp_all

lemma wf_set_states:
  "wf_graph c \<Longrightarrow> \<not> c_finished c \<Longrightarrow>
   wf_graph (fold (\<lambda>nid. set_state nid s) nids c) \<and> \<not> c_finished (fold (\<lambda>nid. set_state nid s) nids c)"
  by (induction nids arbitrary: c) (simp_all add: wf_set_state)

lemma wf_patch_moves: "wf_graph c \<Longrightarrow> \<not> c_finished c \<Longrightarrow> wf_graph (patch_moves p c)"
  by (simp add: patch_moves_def Let_def wf_cancels wf_set_states wf_finish_ck)

section \<open>Patches\<close>

lemma check_patch_None:
  "check_patch p c = None \<longleftrightarrow>
     distinct (map ts_id (p_add p)) \<and> set (node_ids c) \<inter> ts_id ` set (p_add p) = {} \<and>
     (\<forall>(a, b) \<in> set (p_connect p).
        a \<in> set (node_ids c) \<union> ts_id ` set (p_add p) \<and> b \<in> set (node_ids c) \<union> ts_id ` set (p_add p) \<and> a \<noteq> b) \<and>
     (\<forall>nid \<in> set (p_cancel p @ p_wait p @ p_resume p). nid \<in> set (node_ids c) \<union> ts_id ` set (p_add p)) \<and>
     (\<forall>nid \<in> set (p_cancel p). \<exists>s. state_of c nid = Some s \<and> active s) \<and>
     (\<forall>nid \<in> set (p_wait p). state_of c nid \<in> {None, Some Pending}) \<and>
     (\<forall>nid \<in> set (p_resume p). state_of c nid \<in> {None, Some Waiting})"
proof -
  have con: "check_connect ids e = None \<longleftrightarrow> (case e of (a, b) \<Rightarrow> a \<in> set ids \<and> b \<in> set ids \<and> a \<noteq> b)" for ids e
    by (auto simp: check_connect_def split: prod.split)
  have can: "check_cancel c nid = None \<longleftrightarrow> (\<exists>s. state_of c nid = Some s \<and> active s)" for nid
    by (auto simp: check_cancel_def active_def split: option.split)
  have wai: "check_wait c nid = None \<longleftrightarrow> state_of c nid \<in> {None, Some Pending}"
    "check_resume c nid = None \<longleftrightarrow> state_of c nid \<in> {None, Some Waiting}" for nid
    by (auto simp: check_wait_def check_resume_def split: option.split)
  have opt: "(case x of None \<Rightarrow> y | Some e \<Rightarrow> Some e) = None \<longleftrightarrow> x = None \<and> y = None" for x y :: "py_error option"
    by (cases x) simp_all
  have if_None: "(if b then Some e else k) = None \<longleftrightarrow> \<not> b \<and> k = None" for b e and k :: "py_error option"
    by simp
  show ?thesis
    unfolding check_patch_def Let_def if_None opt first_err_None con can wai
    by (simp add: check_known_def)
qed

lemma edges_ok_grow:
  assumes "edges_ok c" and "check_patch p c = None" shows "edges_ok (grow p c)"
  using assms by (auto simp: edges_ok_def check_patch_None distinct_add_edges)

context dag_checker
begin

lemma apply_patch_True:
  "apply_patch_ck is_dag p tr c = Inr (True, c') \<longleftrightarrow>
     dget (c_applied c) tr = None \<and> \<not> c_finished c \<and> check_patch p c = None \<and>
     acyclic (set (c_edges c) \<union> set (p_connect p)) \<and>
     c' = record_patch p tr (patch_moves p (grow p c))"
  by (auto simp: apply_patch_ck_def guard_r_Inr is_dag_iff)

lemma apply_patch_False:
  "apply_patch_ck is_dag p tr c = Inr (False, c') \<longleftrightarrow> dget (c_applied c) tr \<noteq> None \<and> c' = c"
  by (auto simp: apply_patch_ck_def guard_r_Inr)

lemma wf_grow:
  assumes "wf_graph c" and "check_patch p c = None" and "\<not> c_finished c"
    and "acyclic (set (c_edges c) \<union> set (p_connect p))"
  shows "wf_graph (grow p c)"
proof (rule wf_graphI)
  show "distinct (node_ids (grow p c))"
    using assms by (auto simp: wf_graph_def check_patch_None)
  show "edges_ok (grow p c)"
    using assms by (intro edges_ok_grow) (simp_all add: wf_graph_def)
  show "acyclic (set (c_edges (grow p c)))" using assms by simp
  show "journal_ok (c_events (grow p c))" using assms by (simp add: wf_graph_def)
qed (use assms in simp)

lemma wf_record_patch: "wf_graph c \<Longrightarrow> wf_graph (record_patch p tr c)"
  by (simp add: record_patch_def wf_graph_def edges_ok_def node_ids_def quiescent_def)

lemma wf_apply_patch:
  assumes "wf_graph c" and "apply_patch_ck is_dag p tr c = Inr (b, c')"
  shows "wf_graph c'"
proof (cases b)
  case True
  with assms(2) have a: "\<not> c_finished c" "check_patch p c = None"
    "acyclic (set (c_edges c) \<union> set (p_connect p))" "c' = record_patch p tr (patch_moves p (grow p c))"
    by (simp_all add: apply_patch_True)
  have "wf_graph (grow p c)" using assms(1) a by (intro wf_grow)
  then have "wf_graph (patch_moves p (grow p c))" using a(1) by (intro wf_patch_moves) simp_all
  then show ?thesis using a(4) by (simp add: wf_record_patch)
next
  case False
  with assms show ?thesis by (simp add: apply_patch_False)
qed

end

section \<open>Terminal states are final\<close>

lemma state_of_patch_moves:
  "state_of (patch_moves p c) nid =
     (let s1 = (if nid \<in> set (p_cancel p) then map_option (\<lambda>_. Cancelled) (state_of c nid) else state_of c nid);
          s2 = (if nid \<in> set (p_wait p) then map_option (\<lambda>_. Waiting) s1 else s1);
          s3 = (if nid \<in> set (p_resume p) then map_option (\<lambda>_. Pending) s2 else s2)
      in if p_finish p then map_option (\<lambda>s. if active s then Cancelled else s) s3 else s3)"
  by (simp add: patch_moves_def Let_def state_of_simps)

lemma state_of_record_patch [simp]: "state_of (record_patch p tr c) nid = state_of c nid"
  by (simp add: record_patch_def state_of_def)

text \<open>A node that has settled keeps its state.\<close>

definition settled_in :: "checkpoint \<Rightarrow> string \<Rightarrow> node_state \<Rightarrow> bool" where
  "settled_in c nid s = (state_of c nid = Some s \<and> \<not> active s)"

lemma settled_patch:
  assumes "settled_in c nid s" and "check_patch p c = None"
  shows "settled_in (record_patch p tr (patch_moves p (grow p c))) nid s"
proof -
  have s: "state_of c nid = Some s" "\<not> active s" using assms(1) by (simp_all add: settled_in_def)
  then have "nid \<notin> set (p_cancel p)" "nid \<notin> set (p_wait p)" "nid \<notin> set (p_resume p)"
    using assms(2) by (auto simp: check_patch_None)
  with s show ?thesis
    by (simp add: settled_in_def state_of_patch_moves state_of_grow Let_def)
qed

lemma settled_mark_running:
  assumes "mark_running_ck ts c = Inr c'" and "settled_in c nid s" shows "settled_in c' nid s"
  using assms unfolding mark_running_ck_def
  by (rule fold_r_invariant)
    (auto simp: mark_one_def settled_in_def split: option.splits if_splits)

lemma settled_record_outcome:
  "record_outcome_ck m b r c = Inr (e, c') \<Longrightarrow> settled_in c nid s \<Longrightarrow> settled_in c' nid s"
  by (auto simp: record_outcome_ck_def settled_in_def split: option.splits if_splits
      dest!: snd_add_event)

lemma settled_record_waiting:
  "record_waiting_ck m w c = Inr (e, c') \<Longrightarrow> settled_in c nid s \<Longrightarrow> settled_in c' nid s"
  by (auto simp: record_waiting_ck_def settled_in_def split: option.splits if_splits
      dest!: snd_add_event)

lemma settled_resume: "settled_in c nid s \<Longrightarrow> settled_in (resume_ck c) nid s"
  by (auto simp: settled_in_def state_of_resume_ck)

lemma settled_complete:
  "state_of c m = Some Waiting \<Longrightarrow> settled_in c nid s \<Longrightarrow> settled_in (snd (complete_ck m h t r b c)) nid s"
  by (auto simp: complete_ck_def Let_def settled_in_def)

lemmas settled_moves =
  settled_patch settled_mark_running settled_record_outcome settled_record_waiting settled_resume
  settled_complete

end
