(* ===== verification/Graph_Store.thy ===== *)
theory Graph_Store
  imports Graph_Invariants
begin

text \<open>
  \<open>GraphStore\<close> at the level of its files: one checkpoint per run, under a path computed from the run
  id, and the index of waiting handles. The path function (a SHA-256 digest in the code) is the
  argument \<open>path_of\<close>, and the acyclicity test of networkx the argument \<open>is_dag\<close>. Every method loads,
  works on the loaded copy and replaces the file, under one lock, so it is one step.
\<close>

record graph_store =
  gs_disk :: "(string \<times> checkpoint) list"
  gs_index :: "(string \<times> string) list"

section \<open>Loading, saving, the handle index\<close>

definition load_run :: "(string \<Rightarrow> string) \<Rightarrow> graph_store \<Rightarrow> string \<Rightarrow> checkpoint result" where
  "load_run path_of st rid =
     (case dget (gs_disk st) (path_of rid) of
        None \<Rightarrow> Inl KeyError
      | Some c \<Rightarrow>
          if c_format c \<noteq> graph_format then Inl GraphMutationError
          else if c_run_id c \<noteq> rid then Inl GraphMutationError
          else Inr c)"

definition save_run :: "(string \<Rightarrow> string) \<Rightarrow> checkpoint \<Rightarrow> graph_store \<Rightarrow> graph_store" where
  "save_run path_of c st =
     st\<lparr>gs_disk := dput (path_of (c_run_id c)) (c\<lparr>c_version := c_version c + 1\<rparr>) (gs_disk st)\<rparr>"

definition handle_key :: "string \<Rightarrow> string \<Rightarrow> string" where
  "handle_key handle etype = handle @ ''|'' @ etype"

definition index_handle :: "string \<Rightarrow> string \<Rightarrow> string \<Rightarrow> graph_store \<Rightarrow> graph_store" where
  "index_handle handle etype rid st =
     st\<lparr>gs_index := dput (handle_key handle etype) rid (gs_index st)\<rparr>"

definition forget_handle :: "string \<Rightarrow> string \<Rightarrow> graph_store \<Rightarrow> graph_store" where
  "forget_handle handle etype st = st\<lparr>gs_index := ddel (handle_key handle etype) (gs_index st)\<rparr>"

section \<open>The methods\<close>

definition start_run :: "(string \<Rightarrow> string) \<Rightarrow> graph_store \<Rightarrow> string \<Rightarrow> obj \<Rightarrow> bool \<times> graph_store" where
  "start_run path_of st rid ctx =
     (if dget (gs_disk st) (path_of rid) \<noteq> None then (False, st)
      else (True, save_run path_of
              (log_event ''run_started'' None [] (new_checkpoint rid ctx)) st))"

definition context_run :: "(string \<Rightarrow> string) \<Rightarrow> graph_store \<Rightarrow> string \<Rightarrow> obj result" where
  "context_run path_of st rid = bind_r (load_run path_of st rid) (\<lambda>c. Inr (c_context c))"

definition resume_run :: "(string \<Rightarrow> string) \<Rightarrow> graph_store \<Rightarrow> string \<Rightarrow> graph_store result" where
  "resume_run path_of st rid =
     bind_r (load_run path_of st rid) (\<lambda>c. Inr (save_run path_of (resume_ck c) st))"

definition latest_event :: "(string \<Rightarrow> string) \<Rightarrow> graph_store \<Rightarrow> string \<Rightarrow> event option result" where
  "latest_event path_of st rid =
     bind_r (load_run path_of st rid) (\<lambda>c. Inr (if c_events c = [] then None else Some (last (c_events c))))"

definition snapshot_run :: "(string \<Rightarrow> string) \<Rightarrow> graph_store \<Rightarrow> string \<Rightarrow> snapshot result" where
  "snapshot_run path_of st rid = bind_r (load_run path_of st rid) (\<lambda>c. Inr (snapshot_ck c))"

definition ready_run :: "(string \<Rightarrow> string) \<Rightarrow> graph_store \<Rightarrow> string \<Rightarrow> int \<Rightarrow> task_spec list result" where
  "ready_run path_of st rid limit = bind_r (load_run path_of st rid) (\<lambda>c. Inr (ready_ck c limit))"

definition mark_running :: "(string \<Rightarrow> string) \<Rightarrow> graph_store \<Rightarrow> string \<Rightarrow> task_spec list \<Rightarrow> graph_store result" where
  "mark_running path_of st rid ts =
     bind_r (load_run path_of st rid) (\<lambda>c.
     bind_r (mark_running_ck ts c) (\<lambda>c'. Inr (save_run path_of c' st)))"

definition record_outcome ::
  "(string \<Rightarrow> string) \<Rightarrow> graph_store \<Rightarrow> string \<Rightarrow> string \<Rightarrow> bool \<Rightarrow> obj \<Rightarrow> (event \<times> graph_store) result" where
  "record_outcome path_of st rid nid success payload =
     bind_r (load_run path_of st rid) (\<lambda>c.
     bind_r (record_outcome_ck nid success payload c) (\<lambda>(e, c'). Inr (e, save_run path_of c' st)))"

text \<open>The handle is indexed when both of its parts are non-empty strings.\<close>

definition index_wait :: "obj \<Rightarrow> string \<Rightarrow> graph_store \<Rightarrow> graph_store" where
  "index_wait wait rid st =
     (case (jget wait ''handle'', jget wait ''event_type'') of
        (JStr h, JStr t) \<Rightarrow> if h \<noteq> [] \<and> t \<noteq> [] then index_handle h t rid st else st
      | _ \<Rightarrow> st)"

lemma gs_disk_index_wait [simp]: "gs_disk (index_wait w rid st) = gs_disk st"
  by (simp add: index_wait_def index_handle_def split: json.split)

definition record_waiting ::
  "(string \<Rightarrow> string) \<Rightarrow> graph_store \<Rightarrow> string \<Rightarrow> string \<Rightarrow> obj \<Rightarrow> (event \<times> graph_store) result" where
  "record_waiting path_of st rid nid wait =
     bind_r (load_run path_of st rid) (\<lambda>c.
     bind_r (record_waiting_ck nid wait c) (\<lambda>(e, c').
       Inr (e, index_wait wait rid (save_run path_of c' st))))"

definition waits_on :: "string \<Rightarrow> string \<Rightarrow> gnode \<Rightarrow> bool" where
  "waits_on handle etype n =
     (let wait = (case n_wait n of None \<Rightarrow> [] | Some w \<Rightarrow> w)
      in n_state n = Waiting \<and> jget wait ''handle'' = JStr handle \<and>
         jget wait ''event_type'' = JStr etype)"

type_synonym match = "string \<times> checkpoint \<times> string"

definition scan_one :: "string \<Rightarrow> string \<Rightarrow> checkpoint \<Rightarrow> match list" where
  "scan_one handle etype c =
     (if c_format c \<noteq> graph_format then []
      else map (\<lambda>(nid, n). (c_run_id c, c, nid)) (filter (\<lambda>(nid, n). waits_on handle etype n) (c_nodes c)))"

definition scan_all :: "string \<Rightarrow> string \<Rightarrow> graph_store \<Rightarrow> match list" where
  "scan_all handle etype st = concat (map (\<lambda>(p, c). scan_one handle etype c) (gs_disk st))"

definition scan_path :: "(string \<Rightarrow> string) \<Rightarrow> string \<Rightarrow> string \<Rightarrow> string \<Rightarrow> graph_store \<Rightarrow> match list" where
  "scan_path path_of handle etype rid st =
     (case dget (gs_disk st) (path_of rid) of None \<Rightarrow> [] | Some c \<Rightarrow> scan_one handle etype c)"

definition full_scan :: "string \<Rightarrow> string \<Rightarrow> graph_store \<Rightarrow> match list \<times> graph_store" where
  "full_scan handle etype st =
     (let found = scan_all handle etype st
      in (found, fold (\<lambda>(owner, c, n). index_handle handle etype owner) found st))"

definition find_waiting ::
  "(string \<Rightarrow> string) \<Rightarrow> string \<Rightarrow> string \<Rightarrow> graph_store \<Rightarrow> match list \<times> graph_store" where
  "find_waiting path_of handle etype st =
     (case dget (gs_index st) (handle_key handle etype) of
        None \<Rightarrow> full_scan handle etype st
      | Some rid \<Rightarrow>
          if rid = [] then full_scan handle etype st
          else let hit = scan_path path_of handle etype rid st
               in if hit \<noteq> [] then (hit, st)
                  else full_scan handle etype (forget_handle handle etype st))"

text \<open>The store is returned beside the answer: an index repair survives the error.\<close>

definition complete_waiting ::
  "(string \<Rightarrow> string) \<Rightarrow> graph_store \<Rightarrow> string \<Rightarrow> string \<Rightarrow> obj \<Rightarrow> bool \<Rightarrow>
   (string \<times> string \<times> event) option result \<times> graph_store" where
  "complete_waiting path_of st handle etype payload success =
     (let (matches, st1) = find_waiting path_of handle etype st
      in case matches of
           [] \<Rightarrow> (Inr None, st1)
         | [(rid, c, nid)] \<Rightarrow>
             let (e, c') = complete_ck nid handle etype payload success c
             in (Inr (Some (rid, nid, e)), forget_handle handle etype (save_run path_of c' st1))
         | _ \<Rightarrow> (Inl GraphMutationError, st1))"

definition pending_planner_events :: "(string \<Rightarrow> string) \<Rightarrow> graph_store \<Rightarrow> string \<Rightarrow> event list result" where
  "pending_planner_events path_of st rid =
     bind_r (load_run path_of st rid) (\<lambda>c. Inr (pending_planner_events_ck c))"

definition apply_patch ::
  "(edge list \<Rightarrow> bool) \<Rightarrow> (string \<Rightarrow> string) \<Rightarrow> graph_store \<Rightarrow> string \<Rightarrow> graph_patch \<Rightarrow> nat \<Rightarrow>
   (bool \<times> graph_store) result" where
  "apply_patch is_dag path_of st rid p trigger =
     bind_r (load_run path_of st rid) (\<lambda>c.
     bind_r (apply_patch_ck is_dag p trigger c) (\<lambda>(applied, c').
       Inr (applied, if applied then save_run path_of c' st else st)))"

definition is_finished :: "(string \<Rightarrow> string) \<Rightarrow> graph_store \<Rightarrow> string \<Rightarrow> bool result" where
  "is_finished path_of st rid = bind_r (load_run path_of st rid) (\<lambda>c. Inr (c_finished c))"

definition node_state_run :: "(string \<Rightarrow> string) \<Rightarrow> graph_store \<Rightarrow> string \<Rightarrow> string \<Rightarrow> node_state result" where
  "node_state_run path_of st rid nid =
     bind_r (load_run path_of st rid) (\<lambda>c.
       case state_of c nid of None \<Rightarrow> Inl KeyError | Some s \<Rightarrow> Inr s)"

definition events_run :: "(string \<Rightarrow> string) \<Rightarrow> graph_store \<Rightarrow> string \<Rightarrow> event list result" where
  "events_run path_of st rid = bind_r (load_run path_of st rid) (\<lambda>c. Inr (c_events c))"

definition record_external_event ::
  "(string \<Rightarrow> string) \<Rightarrow> graph_store \<Rightarrow> string \<Rightarrow> string \<Rightarrow> string \<Rightarrow> obj \<Rightarrow> (event \<times> graph_store) result" where
  "record_external_event path_of st rid kind nid payload =
     bind_r (load_run path_of st rid) (\<lambda>c.
       let (e, c') = add_event kind (Some nid) payload c in Inr (e, save_run path_of c' st))"

section \<open>Steps of the store\<close>

text \<open>Every state-changing method, as one step of the store.\<close>

inductive graph_step :: "(edge list \<Rightarrow> bool) \<Rightarrow> (string \<Rightarrow> string) \<Rightarrow> graph_store \<Rightarrow> graph_store \<Rightarrow> bool"
  for is_dag path_of where
  gs_start: "start_run path_of st rid ctx = (b, st') \<Longrightarrow> graph_step is_dag path_of st st'"
| gs_resume: "resume_run path_of st rid = Inr st' \<Longrightarrow> graph_step is_dag path_of st st'"
| gs_mark: "mark_running path_of st rid ts = Inr st' \<Longrightarrow> graph_step is_dag path_of st st'"
| gs_outcome: "record_outcome path_of st rid nid b r = Inr (e, st') \<Longrightarrow> graph_step is_dag path_of st st'"
| gs_wait: "record_waiting path_of st rid nid w = Inr (e, st') \<Longrightarrow> graph_step is_dag path_of st st'"
| gs_complete: "complete_waiting path_of st h t r b = (res, st') \<Longrightarrow> graph_step is_dag path_of st st'"
| gs_patch: "apply_patch is_dag path_of st rid p tr = Inr (b, st') \<Longrightarrow> graph_step is_dag path_of st st'"
| gs_external: "record_external_event path_of st rid k nid r = Inr (e, st') \<Longrightarrow> graph_step is_dag path_of st st'"

definition empty_store :: graph_store where
  "empty_store = \<lparr>gs_disk = [], gs_index = []\<rparr>"

definition store_ok :: "(string \<Rightarrow> string) \<Rightarrow> graph_store \<Rightarrow> bool" where
  "store_ok path_of st = (distinct (dkeys (gs_disk st)) \<and>
     (\<forall>(p, c) \<in> set (gs_disk st). p = path_of (c_run_id c) \<and> c_format c = graph_format \<and> wf_graph c))"

end
