(* ===== verification/Graph_Props.thy ===== *)
theory Graph_Props
  imports Graph_Store
begin

text \<open>
  What the graph store promises: its files stay well formed over every sequence of method calls, a
  settled node never moves again, a patch is applied once per trigger, \<open>ready\<close> is the sorted list of
  runnable nodes, and a parked task is completed once.
\<close>

section \<open>Loading what was saved\<close>

definition same_run :: "checkpoint \<Rightarrow> checkpoint \<Rightarrow> bool" where
  "same_run c c' = (c_run_id c' = c_run_id c \<and> c_format c' = c_format c \<and> c_context c' = c_context c)"

lemma same_run_refl [simp]: "same_run c c"
  by (simp add: same_run_def)

lemma same_run_trans: "same_run a b \<Longrightarrow> same_run b c \<Longrightarrow> same_run a c"
  by (simp add: same_run_def)

lemma same_run_log [simp]: "same_run c (log_event k n p d) \<longleftrightarrow> same_run c d"
  by (simp add: same_run_def)

lemma same_run_set_state [simp]: "same_run c (set_state n s d) \<longleftrightarrow> same_run c d"
  by (simp add: same_run_def)

lemma same_run_set_result [simp]: "same_run c (set_result n r d) \<longleftrightarrow> same_run c d"
  by (simp add: same_run_def)

lemma same_run_set_wait [simp]: "same_run c (set_wait n w d) \<longleftrightarrow> same_run c d"
  by (simp add: same_run_def)

lemma same_run_grow [simp]: "same_run c (grow p d) \<longleftrightarrow> same_run c d"
  by (simp add: same_run_def)

lemma same_run_mark: "mark_running_ck ts c = Inr c' \<Longrightarrow> same_run c c'"
  unfolding mark_running_ck_def
  by (rule fold_r_invariant [where P = "same_run c"])
    (auto simp: mark_one_def split: option.splits if_splits)

lemma same_run_outcome: "record_outcome_ck n b r c = Inr (e, c') \<Longrightarrow> same_run c c'"
  by (auto simp: record_outcome_ck_def split: option.splits if_splits dest!: snd_add_event)

lemma same_run_waiting: "record_waiting_ck n w c = Inr (e, c') \<Longrightarrow> same_run c c'"
  by (auto simp: record_waiting_ck_def split: option.splits if_splits dest!: snd_add_event)

lemma same_run_complete: "same_run c (snd (complete_ck n h t r b c))"
  by (simp add: complete_ck_def Let_def)

lemma same_run_resume: "same_run c (resume_ck c)"
  by (simp add: resume_ck_def same_run_def)

lemma same_run_cancels: "same_run c (fold (cancel_one r) nids d) \<longleftrightarrow> same_run c d"
  by (induction nids arbitrary: d) (simp_all add: cancel_one_def Let_def)

lemma same_run_set_states: "same_run c (fold (\<lambda>n. set_state n s) nids d) \<longleftrightarrow> same_run c d"
  by (induction nids arbitrary: d) simp_all

lemma same_run_finishes: "same_run c (fold finish_one nids d) \<longleftrightarrow> same_run c d"
  by (induction nids arbitrary: d)
    (auto simp: finish_one_def cancel_one_def Let_def split: option.split)

lemma same_run_finish: "same_run c (finish_ck d) \<longleftrightarrow> same_run c d"
  using same_run_finishes [of c "node_ids d" d] by (simp add: finish_ck_def same_run_def)

lemma same_run_patch: "same_run c (record_patch p tr (patch_moves p (grow p c)))"
proof -
  have "same_run c (patch_moves p (grow p c))"
    by (simp add: patch_moves_def Let_def same_run_finish same_run_cancels same_run_set_states)
  then show ?thesis by (simp add: record_patch_def same_run_def)
qed

lemmas same_run_ops =
  same_run_mark same_run_outcome same_run_waiting same_run_complete same_run_resume same_run_patch

lemma load_run_Inr:
  "load_run path st rid = Inr c \<longleftrightarrow>
     dget (gs_disk st) (path rid) = Some c \<and> c_format c = graph_format \<and> c_run_id c = rid"
  by (auto simp: load_run_def split: option.splits)

lemma load_save [simp]:
  "c_format c = graph_format \<Longrightarrow> c_run_id c = rid \<Longrightarrow>
   load_run path (save_run path c st) rid = Inr (c\<lparr>c_version := c_version c + 1\<rparr>)"
  by (simp add: load_run_def save_run_def)

lemma load_save_other:
  "path (c_run_id c) \<noteq> path rid \<Longrightarrow> load_run path (save_run path c st) rid = load_run path st rid"
  by (simp add: load_run_def save_run_def)

lemma load_index [simp]:
  "load_run path (st\<lparr>gs_index := i\<rparr>) rid = load_run path st rid"
  by (simp add: load_run_def)

lemma load_handles [simp]:
  "load_run path (index_handle h t r st) rid = load_run path st rid"
  "load_run path (forget_handle h t st) rid = load_run path st rid"
  by (simp_all add: index_handle_def forget_handle_def)

lemma disk_handles [simp]:
  "gs_disk (index_handle h t r st) = gs_disk st" "gs_disk (forget_handle h t st) = gs_disk st"
  by (simp_all add: index_handle_def forget_handle_def)

lemma wf_version [simp]: "wf_graph (c\<lparr>c_version := v\<rparr>) \<longleftrightarrow> wf_graph c"
  by (simp add: wf_graph_def edges_ok_def node_ids_def quiescent_def)

lemma settled_version [simp]: "settled_in (c\<lparr>c_version := v\<rparr>) nid s \<longleftrightarrow> settled_in c nid s"
  by (simp add: settled_in_def state_of_def)

section \<open>The store stays well formed\<close>

lemma store_ok_load:
  "store_ok path st \<Longrightarrow> load_run path st rid = Inr c \<Longrightarrow> wf_graph c"
  by (auto simp: store_ok_def load_run_Inr dest!: map_of_SomeD)

lemma store_ok_member:
  assumes "store_ok path st" and "(p, c) \<in> set (gs_disk st)"
  shows "load_run path st (c_run_id c) = Inr c" and "wf_graph c" and "p = path (c_run_id c)"
  using assms by (auto simp: store_ok_def load_run_Inr)

lemma store_ok_save:
  assumes "store_ok path st" and "wf_graph c" and "c_format c = graph_format"
  shows "store_ok path (save_run path c st)"
  unfolding store_ok_def
proof (intro conjI ballI, unfold split_paired_all split_conv)
  show d: "distinct (dkeys (gs_disk (save_run path c st)))"
    using assms by (simp add: store_ok_def save_run_def distinct_update)
  fix p d
  assume "(p, d) \<in> set (gs_disk (save_run path c st))"
  with d have "dget (gs_disk (save_run path c st)) p = Some d" by simp
  then show "p = path (c_run_id d) \<and> c_format d = graph_format \<and> wf_graph d"
    using assms by (auto simp: save_run_def store_ok_def split: if_splits dest!: map_of_SomeD)
qed

lemma store_ok_index [simp]:
  "store_ok path (index_handle h t r st) \<longleftrightarrow> store_ok path st"
  "store_ok path (forget_handle h t st) \<longleftrightarrow> store_ok path st"
  by (simp_all add: store_ok_def)

lemma gs_disk_full_scan [simp]: "gs_disk (snd (full_scan h t st)) = gs_disk st"
proof -
  have "gs_disk (fold (\<lambda>(owner, c, n). index_handle h t owner) ms st) = gs_disk st"
    for ms :: "match list"
    by (induction ms arbitrary: st) auto
  then show ?thesis by (simp add: full_scan_def Let_def)
qed

lemma gs_disk_find_waiting [simp]: "gs_disk (snd (find_waiting path h t st)) = gs_disk st"
  by (auto simp: find_waiting_def Let_def split: option.split)

lemma store_ok_disk: "gs_disk st' = gs_disk st \<Longrightarrow> store_ok path st' \<longleftrightarrow> store_ok path st"
  by (simp add: store_ok_def)

lemma load_disk: "gs_disk st' = gs_disk st \<Longrightarrow> load_run path st' rid = load_run path st rid"
  by (simp add: load_run_def)

lemma scan_one_mem:
  "m \<in> set (scan_one h t c) \<longleftrightarrow>
     c_format c = graph_format \<and>
     (\<exists>nid n. m = (c_run_id c, c, nid) \<and> (nid, n) \<in> set (c_nodes c) \<and> waits_on h t n)"
  by (auto simp: scan_one_def)

text \<open>A match names a checkpoint on disk and a parked node of it.\<close>

lemma scan_all_mem:
  assumes "store_ok path st" and "(rid, c, nid) \<in> set (scan_all h t st)"
  shows "load_run path st rid = Inr c" and "state_of c nid = Some Waiting"
proof -
  obtain p where p: "(p, c) \<in> set (gs_disk st)" and m: "(rid, c, nid) \<in> set (scan_one h t c)"
    using assms(2) by (auto simp: scan_all_def scan_one_mem)
  from m obtain n where n: "rid = c_run_id c" "(nid, n) \<in> set (c_nodes c)" "waits_on h t n"
    by (auto simp: scan_one_mem)
  show "load_run path st rid = Inr c" using store_ok_member(1) [OF assms(1) p] n(1) by simp
  have "distinct (node_ids c)" using store_ok_member(2) [OF assms(1) p] by (simp add: wf_graph_def)
  with n show "state_of c nid = Some Waiting"
    by (simp add: state_of_def node_ids_def waits_on_def Let_def)
qed

lemma scan_path_subset: "set (scan_path path h t rid st) \<subseteq> set (scan_all h t st)"
proof (cases "dget (gs_disk st) (path rid)")
  case (Some c)
  then have "(path rid, c) \<in> set (gs_disk st)" by (rule map_of_SomeD)
  with Some show ?thesis by (force simp: scan_path_def scan_all_def)
qed (simp add: scan_path_def)

lemma find_waiting_subset: "set (fst (find_waiting path h t st)) \<subseteq> set (scan_all h t st)"
  using scan_path_subset
  by (auto simp: find_waiting_def full_scan_def Let_def scan_all_def forget_handle_def
      split: option.splits if_splits)

text \<open>The three ways a completion ends.\<close>

lemma complete_waiting_cases:
  assumes "complete_waiting path st h t r b = (res, st')"
  obtains (none) "fst (find_waiting path h t st) = []" "res = Inr None" "gs_disk st' = gs_disk st"
  | (one) rid c nid where "fst (find_waiting path h t st) = [(rid, c, nid)]"
      "res = Inr (Some (rid, nid, fst (complete_ck nid h t r b c)))"
      "st' = forget_handle h t (save_run path (snd (complete_ck nid h t r b c)) (snd (find_waiting path h t st)))"
  | (many) "length (fst (find_waiting path h t st)) \<ge> 2" "res = Inl GraphMutationError"
      "gs_disk st' = gs_disk st"
proof -
  obtain ms st1 where f: "find_waiting path h t st = (ms, st1)" by (meson surj_pair)
  have d: "gs_disk st1 = gs_disk st" using gs_disk_find_waiting [of path h t st] f by simp
  consider "ms = []" | rid c nid where "ms = [(rid, c, nid)]" | m m' ms' where "ms = m # m' # ms'"
    by (metis list.exhaust prod.exhaust)
  then show thesis
  proof cases
    case 1
    then show thesis using assms f d none by (simp add: complete_waiting_def)
  next
    case 2
    then show thesis using assms f one
      by (simp add: complete_waiting_def case_prod_beta)
  next
    case 3
    then show thesis using assms f d many by (simp add: complete_waiting_def)
  qed
qed

section \<open>One step, seen from a checkpoint\<close>

text \<open>What a method does to the checkpoint it loads. Every step of the store either leaves the files
  alone, creates a run, or replaces one checkpoint by its successor here.\<close>

inductive ck_step :: "(edge list \<Rightarrow> bool) \<Rightarrow> checkpoint \<Rightarrow> checkpoint \<Rightarrow> bool" for is_dag where
  ck_resume: "ck_step is_dag c (resume_ck c)"
| ck_mark: "mark_running_ck ts c = Inr c' \<Longrightarrow> ck_step is_dag c c'"
| ck_outcome: "record_outcome_ck nid b r c = Inr (e, c') \<Longrightarrow> ck_step is_dag c c'"
| ck_wait: "record_waiting_ck nid w c = Inr (e, c') \<Longrightarrow> ck_step is_dag c c'"
| ck_complete: "state_of c nid = Some Waiting \<Longrightarrow> ck_step is_dag c (snd (complete_ck nid h t r b c))"
| ck_patch: "apply_patch_ck is_dag p tr c = Inr (True, c') \<Longrightarrow> ck_step is_dag c c'"
| ck_external: "ck_step is_dag c (log_event k (Some nid) r c)"

lemma ck_step_wf:
  "ck_step is_dag c c' \<Longrightarrow> dag_checker is_dag \<Longrightarrow> wf_graph c \<Longrightarrow> wf_graph c'"
  by (induction rule: ck_step.induct)
    (auto intro: wf_resume_ck wf_mark_running wf_record_outcome wf_record_waiting wf_complete_ck
      dag_checker.wf_apply_patch)

lemma ck_step_same_run: "ck_step is_dag c c' \<Longrightarrow> dag_checker is_dag \<Longrightarrow> same_run c c'"
  by (induction rule: ck_step.induct)
    (auto intro: same_run_ops simp: dag_checker.apply_patch_True)

lemma ck_step_settled:
  assumes "ck_step is_dag c c'" and "dag_checker is_dag" and "settled_in c nid s"
  shows "settled_in c' nid s"
  using assms(1)
proof cases
  case ck_resume
  then show ?thesis using settled_resume assms(3) by simp
next
  case (ck_mark ts)
  then show ?thesis using settled_mark_running assms(3) by simp
next
  case (ck_outcome m b r e)
  then show ?thesis using settled_record_outcome assms(3) by simp
next
  case (ck_wait m w e)
  then show ?thesis using settled_record_waiting assms(3) by simp
next
  case (ck_complete m h t r b)
  then show ?thesis using settled_complete assms(3) by simp
next
  case (ck_patch p tr)
  then have "check_patch p c = None" "c' = record_patch p tr (patch_moves p (grow p c))"
    using dag_checker.apply_patch_True [OF assms(2)] by blast+
  then show ?thesis using settled_patch assms(3) by simp
next
  case (ck_external k m r)
  then show ?thesis using assms(3) by (simp add: settled_in_def)
qed

definition created :: "string \<Rightarrow> obj \<Rightarrow> checkpoint" where
  "created rid ctx = log_event ''run_started'' None [] (new_checkpoint rid ctx)"

lemma created_ok [simp]: "wf_graph (created rid ctx)" "c_format (created rid ctx) = graph_format"
  "c_run_id (created rid ctx) = rid"
proof -
  show "wf_graph (created rid ctx)" unfolding created_def by (rule wf_new_checkpoint)
qed (simp_all add: created_def new_checkpoint_def)

lemma graph_step_effect:
  assumes "graph_step is_dag path st st'" and "store_ok path st"
  obtains (same) "gs_disk st' = gs_disk st"
  | (new) rid ctx where "dget (gs_disk st) (path rid) = None"
      "gs_disk st' = gs_disk (save_run path (created rid ctx) st)"
  | (step) rid c c' where "load_run path st rid = Inr c" "ck_step is_dag c c'"
      "gs_disk st' = gs_disk (save_run path c' st)"
  using assms(1)
proof cases
  case (gs_start rid ctx b)
  then show thesis using same new by (auto simp: start_run_def created_def split: if_splits)
next
  case (gs_resume rid)
  then obtain c where "load_run path st rid = Inr c" "st' = save_run path (resume_ck c) st"
    by (auto simp: resume_run_def bind_r_Inr)
  then show thesis using step [of rid c] ck_resume [of is_dag c] by simp
next
  case (gs_mark rid ts)
  then obtain c c' where "load_run path st rid = Inr c" "mark_running_ck ts c = Inr c'"
    "st' = save_run path c' st"
    by (auto simp: mark_running_def bind_r_Inr)
  then show thesis using step [of rid c c'] ck_mark [of ts c c' is_dag] by simp
next
  case (gs_outcome rid nid b r e)
  then obtain c c' where "load_run path st rid = Inr c" "record_outcome_ck nid b r c = Inr (e, c')"
    "st' = save_run path c' st"
    by (auto simp: record_outcome_def bind_r_Inr)
  then show thesis using step [of rid c c'] ck_outcome [of nid b r c e c' is_dag] by simp
next
  case (gs_wait rid nid w e)
  then obtain c c' where "load_run path st rid = Inr c" "record_waiting_ck nid w c = Inr (e, c')"
    and "gs_disk st' = gs_disk (save_run path c' st)"
    by (auto simp: record_waiting_def bind_r_Inr Let_def split: json.splits if_splits)
  then show thesis using step [of rid c c'] ck_wait [of nid w c e c' is_dag] by simp
next
  case (gs_complete h t r b res)
  then show thesis
  proof (cases rule: complete_waiting_cases)
    case (one rid c nid)
    then have m: "(rid, c, nid) \<in> set (scan_all h t st)" using find_waiting_subset [of path h t st] by auto
    have "load_run path st rid = Inr c" "state_of c nid = Some Waiting"
      using scan_all_mem [OF assms(2) m] by simp_all
    moreover have "gs_disk st' = gs_disk (save_run path (snd (complete_ck nid h t r b c)) st)"
      using one(3) by (simp add: save_run_def)
    ultimately show thesis
      using step [of rid c "snd (complete_ck nid h t r b c)"] ck_complete [of c nid is_dag h t r b] by simp
  qed (use same in simp_all)
next
  case (gs_patch rid p tr b)
  then obtain c c' where c: "load_run path st rid = Inr c" "apply_patch_ck is_dag p tr c = Inr (b, c')"
    "st' = (if b then save_run path c' st else st)"
    by (auto simp: apply_patch_def bind_r_Inr)
  show thesis
  proof (cases b)
    case True
    with c show thesis using step [of rid c c'] ck_patch [of is_dag p tr c c'] by simp
  qed (use c same in simp)
next
  case (gs_external rid k nid r e)
  then obtain c where "load_run path st rid = Inr c" "st' = save_run path (log_event k (Some nid) r c) st"
    by (auto simp: record_external_event_def bind_r_Inr case_prod_beta Let_def)
  then show thesis using step [of rid c] ck_external [of is_dag c k nid r] by simp
qed

lemma graph_step_store_ok:
  assumes "dag_checker is_dag" and "store_ok path st" and "graph_step is_dag path st st'"
  shows "store_ok path st'"
  using assms(3,2)
proof (cases rule: graph_step_effect)
  case same
  then show ?thesis using assms(2) store_ok_disk by blast
next
  case (new rid ctx)
  then show ?thesis
    using store_ok_save [OF assms(2), of "created rid ctx"] store_ok_disk [OF new(2)] by simp
next
  case (step rid c c')
  have "wf_graph c'" using ck_step_wf [OF step(2) assms(1)] store_ok_load [OF assms(2) step(1)] .
  moreover have "c_format c' = graph_format"
    using ck_step_same_run [OF step(2) assms(1)] step(1) by (simp add: same_run_def load_run_Inr)
  ultimately show ?thesis
    using store_ok_save [OF assms(2)] store_ok_disk [OF step(3)] by simp
qed

lemma graph_system: "dag_checker is_dag \<Longrightarrow> invariant_system (graph_step is_dag path) (store_ok path)"
  by unfold_locales (rule graph_step_store_ok)

interpretation graph_runs: invariant_system "graph_step dag_check path" "store_ok path" for path
  by (rule graph_system) (rule peeling.dag_checker_axioms)

text \<open>A step that saves a checkpoint is seen by the next load of its run, and by no other run.\<close>

lemma load_after_save:
  assumes "load_run path st r = Inr d" and "same_run d d'" and "gs_disk st' = gs_disk (save_run path d' st)"
  shows "load_run path st' r = Inr (d'\<lparr>c_version := c_version d' + 1\<rparr>)"
    and "path r \<noteq> path rid \<Longrightarrow> load_run path st' rid = load_run path st rid"
proof -
  have d: "c_format d' = graph_format" "c_run_id d' = r"
    using assms(1,2) by (simp_all add: load_run_Inr same_run_def)
  note l = load_disk [OF assms(3)]
  show "load_run path st' r = Inr (d'\<lparr>c_version := c_version d' + 1\<rparr>)"
    by (simp only: l load_save d)
  show "load_run path st' rid = load_run path st rid" if "path r \<noteq> path rid"
    unfolding l by (rule load_save_other) (use that d in simp)
qed

end
