(* ===== verification/Graph_Facts.thy ===== *)
theory Graph_Facts
  imports Graph_Props
begin

text \<open>
  The store's contract, method by method: what \<open>ready\<close> returns, what a patch does to every node,
  which planning rounds are still owed, and when a callback is delivered.
\<close>

section \<open>ready\<close>

definition runnable :: "checkpoint \<Rightarrow> string \<times> gnode \<Rightarrow> bool" where
  "runnable c e = (n_state (snd e) = Pending \<and>
     (\<forall>p \<in> set (preds (c_edges c) (fst e)). state_of c p = Some Succeeded))"

definition runnable_specs :: "checkpoint \<Rightarrow> task_spec list" where
  "runnable_specs c = map (\<lambda>(nid, n). spec_of nid n) (filter (runnable c) (sort_key fst (c_nodes c)))"

lemma ready_loop_Cons:
  "ready_loop c limit ((nid, n) # rest) acc =
     (if runnable c (nid, n) then
        if int (length acc + 1) = limit then acc @ [spec_of nid n]
        else ready_loop c limit rest (acc @ [spec_of nid n])
      else ready_loop c limit rest acc)"
  by (simp add: runnable_def list_all_iff Let_def)

lemma ready_loop_take:
  assumes "limit \<le> 0 \<or> int (length acc) < limit"
  shows "ready_loop c limit es acc =
    (if limit \<le> 0 then acc @ map (\<lambda>(nid, n). spec_of nid n) (filter (runnable c) es)
     else take (nat limit) (acc @ map (\<lambda>(nid, n). spec_of nid n) (filter (runnable c) es)))"
  using assms
proof (induction es arbitrary: acc)
  case Nil
  then show ?case by auto
next
  case (Cons e es)
  obtain nid n where e: "e = (nid, n)" by force
  show ?case
  proof (cases "runnable c e")
    case False
    then show ?thesis using Cons.IH [OF Cons.prems] e by (simp add: ready_loop_Cons del: ready_loop.simps)
  next
    case True
    show ?thesis
    proof (cases "int (length acc + 1) = limit")
      case last: True
      then have "nat limit = Suc (length acc)" by simp
      then show ?thesis using True e last by (auto simp: ready_loop_Cons simp del: ready_loop.simps)
    next
      case False
      with Cons.prems have "limit \<le> 0 \<or> int (length (acc @ [spec_of nid n])) < limit" by auto
      from Cons.IH [OF this] show ?thesis
        using True False e by (simp add: ready_loop_Cons del: ready_loop.simps)
    qed
  qed
qed

lemma ready_ck_take:
  "ready_ck c limit = (if limit \<le> 0 then runnable_specs c else take (nat limit) (runnable_specs c))"
  unfolding ready_ck_def runnable_specs_def by (subst ready_loop_take) (auto simp: Let_def)

lemma sorted_runnable_specs: "sorted (map ts_id (runnable_specs c))"
proof -
  have "map ts_id (runnable_specs c) = map fst (filter (runnable c) (sort_key fst (c_nodes c)))"
    by (simp add: runnable_specs_def spec_of_def case_prod_beta comp_def)
  then show ?thesis using sorted_filter [of fst "sort_key fst (c_nodes c)"] by simp
qed

lemma mem_runnable_specs:
  assumes "wf_graph c" and "t \<in> set (runnable_specs c)"
  shows "is_ready c (ts_id t)"
proof -
  obtain nid n where n: "(nid, n) \<in> set (c_nodes c)" "runnable c (nid, n)" "t = spec_of nid n"
    using assms(2) by (auto simp: runnable_specs_def)
  have "dget (c_nodes c) nid = Some n"
    using assms(1) n(1) by (simp add: wf_graph_def node_ids_def)
  with n show ?thesis by (simp add: is_ready_def runnable_def state_of_def spec_of_def)
qed

lemma ready_complete:
  assumes "is_ready c nid"
  shows "nid \<in> ts_id ` set (runnable_specs c)"
proof -
  obtain n where "dget (c_nodes c) nid = Some n" "n_state n = Pending"
    using assms by (auto simp: is_ready_def state_of_def)
  then have "(nid, n) \<in> set (c_nodes c)" "runnable c (nid, n)"
    using assms by (auto simp: is_ready_def runnable_def dest: map_of_SomeD)
  then have "spec_of nid n \<in> set (runnable_specs c)" by (force simp: runnable_specs_def)
  then show ?thesis by (metis image_eqI spec_of_def task_spec.select_convs(1))
qed

section \<open>Applied triggers are never forgotten\<close>

lemma applied_set_result [simp]: "c_applied (set_result n r c) = c_applied c"
  by (simp add: set_result_def)

lemma applied_mark: "mark_running_ck ts c = Inr c' \<Longrightarrow> c_applied c' = c_applied c"
  unfolding mark_running_ck_def
  by (rule fold_r_invariant [where P = "\<lambda>d. c_applied d = c_applied c"])
    (auto simp: mark_one_def split: option.splits if_splits)

lemma applied_cancels [simp]: "c_applied (fold (cancel_one r) nids d) = c_applied d"
  by (induction nids arbitrary: d) (simp_all add: cancel_one_def Let_def)

lemma applied_set_states [simp]: "c_applied (fold (\<lambda>n. set_state n s) nids d) = c_applied d"
  by (induction nids arbitrary: d) simp_all

lemma applied_finishes [simp]: "c_applied (fold finish_one nids d) = c_applied d"
  by (induction nids arbitrary: d) (auto simp: finish_one_def cancel_one_def Let_def split: option.split)

lemma applied_patch_moves [simp]: "c_applied (patch_moves p d) = c_applied d"
  by (simp add: patch_moves_def Let_def finish_ck_def)

lemma applied_record_patch:
  "dget (c_applied (record_patch p tr d)) t =
     (if t = tr then Some (patch_payload p tr) else dget (c_applied d) t)"
  by (simp add: record_patch_def)

lemma ck_step_applied:
  assumes "ck_step is_dag c c'" and "dag_checker is_dag" and "dget (c_applied c) t \<noteq> None"
  shows "dget (c_applied c') t \<noteq> None"
  using assms(1)
proof cases
  case (ck_mark ts)
  then show ?thesis using applied_mark assms(3) by simp
next
  case (ck_outcome m b r e)
  then show ?thesis using assms(3)
    by (auto simp: record_outcome_ck_def split: option.splits if_splits dest!: snd_add_event)
next
  case (ck_wait m w e)
  then show ?thesis using assms(3)
    by (auto simp: record_waiting_ck_def split: option.splits if_splits dest!: snd_add_event)
next
  case (ck_patch p tr)
  then show ?thesis
    using assms(3) dag_checker.apply_patch_True [OF assms(2)] by (auto simp: applied_record_patch)
qed (use assms(3) in \<open>simp_all add: resume_ck_def complete_ck_def Let_def\<close>)

text \<open>What holds of a run's checkpoint and is kept by every step on it, is kept by the store.\<close>

lemma graph_step_keeps:
  assumes "dag_checker is_dag" and "store_ok path st" and "graph_step is_dag path st st'"
    and "\<exists>c. load_run path st rid = Inr c \<and> P c"
    and "\<And>c c'. ck_step is_dag c c' \<Longrightarrow> P c \<Longrightarrow> P c'"
    and "\<And>c v. P c \<Longrightarrow> P (c\<lparr>c_version := v\<rparr>)"
  shows "\<exists>c. load_run path st' rid = Inr c \<and> P c"
proof -
  obtain c where c: "load_run path st rid = Inr c" "P c" using assms(4) by blast
  from assms(3,2) show ?thesis
  proof (cases rule: graph_step_effect)
    case same
    then show ?thesis using c by (simp add: load_run_def)
  next
    case (new r ctx)
    then have "path (c_run_id (created r ctx)) \<noteq> path rid" using c(1) by (auto simp: load_run_Inr)
    then have "load_run path st' rid = Inr c"
      using c(1) load_disk [OF new(2)] load_save_other by simp
    with c show ?thesis by simp
  next
    case (step r d d')
    note saved = load_after_save [OF step(1) ck_step_same_run [OF step(2) assms(1)] step(3)]
    show ?thesis
    proof (cases "path r = path rid")
      case True
      then have "r = rid" "d = c" using step(1) c(1) by (auto simp: load_run_Inr)
      then show ?thesis using saved(1) assms(5) [OF step(2)] assms(6) c(2) by auto
    next
      case False
      then show ?thesis using saved(2) c by simp
    qed
  qed
qed

lemma graph_steps_keep:
  assumes "dag_checker is_dag" and "store_ok path st" and "(graph_step is_dag path)\<^sup>*\<^sup>* st st'"
    and "\<exists>c. load_run path st rid = Inr c \<and> P c"
    and "\<And>c c'. ck_step is_dag c c' \<Longrightarrow> P c \<Longrightarrow> P c'"
    and "\<And>c v. P c \<Longrightarrow> P (c\<lparr>c_version := v\<rparr>)"
  shows "\<exists>c. load_run path st' rid = Inr c \<and> P c"
  using assms(3,2,4)
proof (rule invariant_system.steps_stable [OF graph_system [OF assms(1)]])
  fix s t
  assume "store_ok path s" "\<exists>c. load_run path s rid = Inr c \<and> P c" "graph_step is_dag path s t"
  then show "\<exists>c. load_run path t rid = Inr c \<and> P c"
    using graph_step_keeps [of is_dag path s t rid P] assms(1,5,6) by blast
qed

section \<open>What a patch does to each node\<close>

definition patched_state :: "graph_patch \<Rightarrow> string \<Rightarrow> node_state \<Rightarrow> node_state" where
  "patched_state p nid s =
     (let t = (if nid \<in> set (p_resume p) then Pending
               else if nid \<in> set (p_wait p) then Waiting
               else if nid \<in> set (p_cancel p) then Cancelled else s)
      in if p_finish p \<and> active t then Cancelled else t)"

lemma state_of_patch_moves_closed:
  "state_of (patch_moves p c) nid = map_option (patched_state p nid) (state_of c nid)"
  by (cases "state_of c nid") (simp_all add: state_of_patch_moves patched_state_def Let_def)

lemma patch_moves_frame [simp]:
  "node_ids (patch_moves p c) = node_ids c" "c_edges (patch_moves p c) = c_edges c"
proof -
  have c: "node_ids (fold (cancel_one r) xs d) = node_ids d \<and> c_edges (fold (cancel_one r) xs d) = c_edges d" for r xs d
    by (induction xs arbitrary: d) (simp_all add: cancel_one_def Let_def)
  have w: "node_ids (fold (\<lambda>n. set_state n s) xs d) = node_ids d \<and>
      c_edges (fold (\<lambda>n. set_state n s) xs d) = c_edges d" for s xs d
    by (induction xs arbitrary: d) simp_all
  have f: "node_ids (fold finish_one xs d) = node_ids d \<and> c_edges (fold finish_one xs d) = c_edges d" for xs d
    by (induction xs arbitrary: d) (auto simp: finish_one_def cancel_one_def Let_def split: option.split)
  have g: "node_ids (finish_ck d) = node_ids d \<and> c_edges (finish_ck d) = c_edges d" for d
    using f [of "node_ids d" d] by (simp add: finish_ck_def node_ids_def)
  show "node_ids (patch_moves p c) = node_ids c" "c_edges (patch_moves p c) = c_edges c"
    by (simp_all add: patch_moves_def Let_def c w g)
qed

lemma record_patch_frame [simp]:
  "node_ids (record_patch p tr c) = node_ids c" "c_edges (record_patch p tr c) = c_edges c"
  by (simp_all add: record_patch_def node_ids_def)

section \<open>The planning rounds still owed\<close>

definition plans :: "event \<Rightarrow> bool" where
  "plans e = (ev_kind e \<in> {''run_started'', ''task_succeeded'', ''task_failed''})"

lemma plans_log:
  "filter plans (c_events (log_event k n r c)) =
     filter plans (c_events c) @
       (if k \<in> {''run_started'', ''task_succeeded'', ''task_failed''}
        then [fst (add_event k n r c)] else [])"
  by (simp add: add_event_def Let_def plans_def)

lemma plans_cancel [simp]: "filter plans (c_events (cancel_one r n c)) = filter plans (c_events c)"
  by (simp add: cancel_one_def Let_def plans_log)

lemma plans_cancels [simp]: "filter plans (c_events (fold (cancel_one r) ns c)) = filter plans (c_events c)"
  by (induction ns arbitrary: c) simp_all

lemma plans_set_states [simp]: "c_events (fold (\<lambda>n. set_state n s) ns c) = c_events c"
  by (induction ns arbitrary: c) simp_all

lemma plans_finishes [simp]: "filter plans (c_events (fold finish_one ns c)) = filter plans (c_events c)"
  by (induction ns arbitrary: c) (auto simp: finish_one_def split: option.split)

lemma plans_patch: "filter plans (c_events (record_patch p tr (patch_moves p (grow p c)))) = filter plans (c_events c)"
  by (simp add: record_patch_def plans_log patch_moves_def Let_def finish_ck_def)

lemma pending_planner_events_plans:
  "pending_planner_events_ck c = filter (\<lambda>e. dget (c_applied c) (ev_sequence e) = None) (filter plans (c_events c))"
  by (simp add: pending_planner_events_ck_def plans_def conj_commute)

lemma pending_after_patch:
  "pending_planner_events_ck (record_patch p tr (patch_moves p (grow p c))) =
     filter (\<lambda>e. ev_sequence e \<noteq> tr) (pending_planner_events_ck c)"
proof -
  have "(dget (c_applied (record_patch p tr (patch_moves p (grow p c)))) t = None) =
      (t \<noteq> tr \<and> dget (c_applied c) t = None)" for t
    by (simp add: applied_record_patch)
  then show ?thesis by (simp add: pending_planner_events_plans plans_patch conj_commute conj_left_commute)
qed

lemma pending_version [simp]:
  "pending_planner_events_ck (c\<lparr>c_version := v\<rparr>) = pending_planner_events_ck c"
  by (simp add: pending_planner_events_ck_def)

section \<open>One parked node, one delivery\<close>

lemma scan_path_single:
  assumes "scan_all h t st = [m]" and "distinct (dkeys (gs_disk st))"
  shows "scan_path path h t rid st = [] \<or> scan_path path h t rid st = [m]"
proof (cases "dget (gs_disk st) (path rid)")
  case (Some c)
  obtain xs ys where d: "gs_disk st = xs @ (path rid, c) # ys"
    using map_of_SomeD [OF Some] by (meson split_list)
  have s: "scan_path path h t rid st = scan_one h t c" using Some by (simp add: scan_path_def)
  have "scan_all h t st = concat (map (\<lambda>(p, c). scan_one h t c) xs) @ scan_one h t c @
      concat (map (\<lambda>(p, c). scan_one h t c) ys)"
    by (simp add: scan_all_def d)
  with assms(1) s show ?thesis by (auto simp: append_eq_Cons_conv)
qed (simp add: scan_path_def)

lemma find_waiting_single:
  assumes "scan_all h t st = [m]" and "distinct (dkeys (gs_disk st))"
  shows "fst (find_waiting path h t st) = [m]"
proof -
  have s: "scan_all h t (forget_handle h t st) = scan_all h t st"
    by (simp add: scan_all_def forget_handle_def)
  have f: "fst (full_scan h t st) = [m]" "fst (full_scan h t (forget_handle h t st)) = [m]"
    using assms(1) s by (simp_all add: full_scan_def Let_def)
  have "fst (find_waiting path h t st) = [m]" if "dget (gs_index st) (handle_key h t) = Some rid" for rid
    using that f scan_path_single [OF assms, of path rid]
    by (auto simp: find_waiting_def Let_def)
  then show ?thesis
    using f by (cases "dget (gs_index st) (handle_key h t)") (auto simp: find_waiting_def)
qed

lemma complete_waiting_single:
  assumes "scan_all h t st = [(rid, c, nid)]" and "distinct (dkeys (gs_disk st))"
  shows "\<exists>st'. complete_waiting path st h t r b =
      (Inr (Some (rid, nid, fst (complete_ck nid h t r b c))), st') \<and>
      gs_disk st' = gs_disk (save_run path (snd (complete_ck nid h t r b c)) st)"
proof -
  have f: "fst (find_waiting path h t st) = [(rid, c, nid)]"
    using find_waiting_single [OF assms] .
  obtain res st' where r: "complete_waiting path st h t r b = (res, st')" by (meson surj_pair)
  from r show ?thesis
  proof (cases rule: complete_waiting_cases)
    case (one rid' c' nid')
    then show ?thesis using r f by (simp add: save_run_def)
  qed (use f in auto)
qed

text \<open>After the delivery nothing in the store waits on the handle any more.\<close>

lemma no_match_after_complete:
  assumes "store_ok path st" and "scan_all h t st = [(rid, c, nid)]"
    and "gs_disk st' = gs_disk (save_run path (snd (complete_ck nid h t r b c)) st)"
  shows "scan_all h t st' = []"
proof (rule ccontr)
  let ?c = "snd (complete_ck nid h t r b c)"
  have m: "(rid, c, nid) \<in> set (scan_all h t st)" using assms(2) by simp
  note here = scan_all_mem [OF assms(1) m]
  have k: "c_run_id ?c = rid" "c_run_id c = rid"
    using here(1) by (simp_all add: complete_ck_def Let_def load_run_Inr)
  have d: "gs_disk st' = dput (path rid) (?c\<lparr>c_version := c_version ?c + 1\<rparr>) (gs_disk st)"
    using assms(3) k by (simp add: save_run_def)
  have dist: "distinct (dkeys (gs_disk st'))" "distinct (dkeys (gs_disk st))"
    using assms(1) d by (simp_all add: store_ok_def distinct_update)
  assume "scan_all h t st' \<noteq> []"
  then obtain x where "x \<in> set (scan_all h t st')" by (meson list.set_sel(1))
  then obtain q e where q: "(q, e) \<in> set (gs_disk st')" and x: "x \<in> set (scan_one h t e)"
    by (auto simp: scan_all_def)
  from q dist have e: "dget (gs_disk st') q = Some e" by simp
  obtain n g where g: "(n, g) \<in> set (c_nodes e)" "waits_on h t g" "c_format e = graph_format"
    using x by (auto simp: scan_one_mem)
  show False
  proof (cases "q = path rid")
    case False
    with e d have "(q, e) \<in> set (gs_disk st)" by (auto dest: map_of_SomeD)
    then have "(c_run_id e, e, n) \<in> set (scan_all h t st)"
      using g by (force simp: scan_all_def scan_one_mem)
    then have "e = c" "c_run_id e = rid" using assms(2) by auto
    with False store_ok_member(3) [OF assms(1) \<open>(q, e) \<in> set (gs_disk st)\<close>] show False by simp
  next
    case True
    with e d have "c_nodes e = c_nodes ?c" by auto
    then have n: "(n, g) \<in> set (dmodify nid (\<lambda>n. n\<lparr>n_wait := None\<rparr>) (dmodify nid (\<lambda>n. n\<lparr>n_result := Some r\<rparr>)
        (dmodify nid (\<lambda>n. n\<lparr>n_state := outcome_state b\<rparr>) (c_nodes c))))"
      using g(1) by (simp add: complete_ck_def Let_def set_wait_def set_result_def set_state_def
          add_event_def)
    show False
    proof (cases "n = nid")
      case True
      with n g(2) show False
        by (auto simp: dmodify_def waits_on_def outcome_state_def split: if_splits)
    next
      case False
      with n have "(n, g) \<in> set (c_nodes c)" by (auto simp: dmodify_def)
      moreover have "(path rid, c) \<in> set (gs_disk st)" "c_format c = graph_format"
        using here(1) by (auto simp: load_run_Inr dest: map_of_SomeD)
      ultimately have "(rid, c, n) \<in> set (scan_all h t st)"
        using g(2) k by (force simp: scan_all_def scan_one_mem)
      with assms(2) False show False by simp
    qed
  qed
qed

lemma complete_waiting_nobody:
  assumes "scan_all h t st = []"
  shows "fst (complete_waiting path st h t r b) = Inr None"
proof -
  have "fst (find_waiting path h t st) = []"
    using find_waiting_subset [of path h t st] assms by auto
  then show ?thesis by (simp add: complete_waiting_def case_prod_beta)
qed

end
