(* ===== verification/Graph_Executor.thy ===== *)
theory Graph_Executor
  imports Graph_Facts
begin

text \<open>
  \<open>LiveGraphExecutor\<close>: fill the free worker slots from \<open>ready\<close>, wait for some of the launched tasks,
  journal their outcomes in the order of their ids, plan after each outcome, propagate
  cancellations. Which tasks finish together, and how, is chosen by the environment: a round takes
  the batch that \<open>asyncio.wait\<close> returned as an argument. The planner is a parameter, a function of
  the snapshot and the event that may raise.
\<close>

text \<open>What a worker coroutine does: return a dict, return a \<open>Deferred\<close>, or raise.\<close>

datatype work = Returned obj | Deferred_to deferred | Raised string

text \<open>What \<open>future.result()\<close> does: give the triple of \<open>_execute\<close>, or raise \<open>CancelledError\<close>.\<close>

datatype future = Completed bool "obj + deferred" | Interrupted

type_synonym planner = "snapshot \<Rightarrow> event \<Rightarrow> graph_patch result"

record executor =
  x_store :: graph_store
  x_flight :: "task_spec list"
  x_executed :: "string list"
  x_cancelled :: "string list"

record run_report =
  rr_run_id :: string
  rr_finished :: bool
  rr_executed :: "string list"
  rr_waiting :: "string list"

text \<open>The arguments a run is made with, none of which changes while it runs.\<close>

record run_args =
  ra_is_dag :: "edge list \<Rightarrow> bool"
  ra_path :: "string \<Rightarrow> string"
  ra_planner :: planner
  ra_skills :: "string list"
  ra_max_workers :: int
  ra_run_id :: string
  ra_max_completed :: "int option"

text \<open>\<open>_execute\<close>\<close>

definition execute :: "string list \<Rightarrow> task_spec \<Rightarrow> work \<Rightarrow> bool \<times> (obj + deferred)" where
  "execute skills t w =
     (if ts_skill t \<notin> set skills then
        (False, Inl [(''error'', JStr (''unknown skill: '' @ ts_skill t))])
      else case w of
          Returned r \<Rightarrow> (True, Inl r)
        | Deferred_to d \<Rightarrow> (True, Inr d)
        | Raised message \<Rightarrow> (False, Inl [(''error'', JStr message)]))"

section \<open>Planning\<close>

definition plan_event :: "run_args \<Rightarrow> event option \<Rightarrow> graph_store \<Rightarrow> graph_store result" where
  "plan_event a event st =
     (case event of
        None \<Rightarrow> Inl RuntimeError
      | Some e \<Rightarrow>
          bind_r (snapshot_run (ra_path a) st (ra_run_id a)) (\<lambda>graph.
          bind_r (ra_planner a graph e) (\<lambda>patch.
          bind_r (apply_patch (ra_is_dag a) (ra_path a) st (ra_run_id a) patch (ev_sequence e))
            (\<lambda>(_, st'). Inr st'))))"

fun replay_events :: "run_args \<Rightarrow> event list \<Rightarrow> graph_store \<Rightarrow> graph_store result" where
  "replay_events a [] st = Inr st"
| "replay_events a (e # es) st =
     bind_r (is_finished (ra_path a) st (ra_run_id a)) (\<lambda>finished.
       if finished then Inr st
       else bind_r (plan_event a (Some e) st) (replay_events a es))"

definition replay_pending :: "run_args \<Rightarrow> graph_store \<Rightarrow> graph_store result" where
  "replay_pending a st =
     bind_r (pending_planner_events (ra_path a) st (ra_run_id a)) (\<lambda>es. replay_events a es st)"

text \<open>The code before the loop of \<open>run\<close>.\<close>

definition begin_run :: "run_args \<Rightarrow> bool \<Rightarrow> graph_store \<Rightarrow> executor result" where
  "begin_run a resume st =
     bind_r (if resume then resume_run (ra_path a) st (ra_run_id a)
             else Inr (snd (start_run (ra_path a) st (ra_run_id a) []))) (\<lambda>st1.
     bind_r (replay_pending a st1) (\<lambda>st2.
       Inr \<lparr>x_store = st2, x_flight = [], x_executed = [], x_cancelled = []\<rparr>))"

section \<open>One turn of the loop\<close>

definition capacity :: "run_args \<Rightarrow> executor \<Rightarrow> int" where
  "capacity a x =
     (let free = ra_max_workers a - int (length (x_flight x))
      in case ra_max_completed a of
           None \<Rightarrow> free
         | Some m \<Rightarrow> min free (m - int (length (x_executed x)) - int (length (x_flight x))))"

definition fill_slots :: "run_args \<Rightarrow> executor \<Rightarrow> executor result" where
  "fill_slots a x =
     bind_r (is_finished (ra_path a) (x_store x) (ra_run_id a)) (\<lambda>finished.
       if finished then Inr x
       else if capacity a x > 0 then
         bind_r (ready_run (ra_path a) (x_store x) (ra_run_id a) (capacity a x)) (\<lambda>ready.
           if ready = [] then Inr x
           else bind_r (mark_running (ra_path a) (x_store x) (ra_run_id a) ready) (\<lambda>st.
             Inr (x\<lparr>x_store := st, x_flight := x_flight x @ ready\<rparr>)))
       else Inr x)"

definition cancel_one_local :: "run_args \<Rightarrow> bool \<Rightarrow> task_spec \<Rightarrow> executor \<Rightarrow> executor result" where
  "cancel_one_local a cancel_all t x =
     (if cancel_all then Inr (x\<lparr>x_cancelled := ts_id t # x_cancelled x\<rparr>)
      else bind_r (node_state_run (ra_path a) (x_store x) (ra_run_id a) (ts_id t)) (\<lambda>s.
        if s = Cancelled then Inr (x\<lparr>x_cancelled := ts_id t # x_cancelled x\<rparr>) else Inr x))"

definition cancel_local :: "run_args \<Rightarrow> bool \<Rightarrow> executor \<Rightarrow> executor result" where
  "cancel_local a cancel_all x = fold_r (cancel_one_local a cancel_all) (x_flight x) x"

text \<open>The body of the loop over \<open>done\<close>; the flag says that \<open>run\<close> returns there.\<close>

definition after_outcome :: "run_args \<Rightarrow> event \<Rightarrow> executor \<Rightarrow> (bool \<times> executor) result" where
  "after_outcome a e x =
     bind_r (is_finished (ra_path a) (x_store x) (ra_run_id a)) (\<lambda>finished.
     bind_r (if finished then Inr x
             else bind_r (plan_event a (Some e) (x_store x)) (\<lambda>st.
               cancel_local a False (x\<lparr>x_store := st\<rparr>))) (\<lambda>x'.
       Inr (case ra_max_completed a of None \<Rightarrow> False | Some m \<Rightarrow> int (length (x_executed x')) \<ge> m, x')))"

definition settle :: "run_args \<Rightarrow> task_spec \<times> future \<Rightarrow> executor \<Rightarrow> (bool \<times> executor) result" where
  "settle a done x0 =
     (let (t, fut) = done; x = x0\<lparr>x_flight := remove1 t (x_flight x0)\<rparr>
      in case fut of
           Interrupted \<Rightarrow> Inr (False, x)
         | Completed success payload \<Rightarrow>
             bind_r (node_state_run (ra_path a) (x_store x) (ra_run_id a) (ts_id t)) (\<lambda>s.
               if s = Cancelled then Inr (False, x)
               else
                 let y = x\<lparr>x_executed := x_executed x @ [ts_id t]\<rparr>
                 in case payload of
                      Inr d \<Rightarrow>
                        bind_r (record_waiting (ra_path a) (x_store y) (ra_run_id a) (ts_id t) (as_wait d))
                          (\<lambda>(_, st). Inr (False, y\<lparr>x_store := st\<rparr>))
                    | Inl r \<Rightarrow>
                        bind_r (record_outcome (ra_path a) (x_store y) (ra_run_id a) (ts_id t) success r)
                          (\<lambda>(e, st). after_outcome a e (y\<lparr>x_store := st\<rparr>))))"

fun settle_all :: "run_args \<Rightarrow> (task_spec \<times> future) list \<Rightarrow> executor \<Rightarrow> (bool \<times> executor) result" where
  "settle_all a [] x = Inr (False, x)"
| "settle_all a (d # ds) x =
     bind_r (settle a d x) (\<lambda>(stop, x'). if stop then Inr (True, x') else settle_all a ds x')"

text \<open>The rest of a turn, once \<open>asyncio.wait\<close> has returned the batch: the flag is as above.\<close>

definition finish_turn :: "run_args \<Rightarrow> (task_spec \<times> future) list \<Rightarrow> executor \<Rightarrow> (bool \<times> executor) result" where
  "finish_turn a batch x =
     bind_r (settle_all a (sort_key (\<lambda>d. ts_id (fst d)) batch) x) (\<lambda>(stop, x').
       if stop then Inr (True, x')
       else bind_r (is_finished (ra_path a) (x_store x') (ra_run_id a)) (\<lambda>finished.
         if finished then bind_r (cancel_local a True x') (\<lambda>x''. Inr (False, x''))
         else Inr (False, x')))"

definition report_run :: "run_args \<Rightarrow> executor \<Rightarrow> run_report result" where
  "report_run a x =
     bind_r (snapshot_run (ra_path a) (x_store x) (ra_run_id a)) (\<lambda>g.
       Inr \<lparr>rr_run_id = ra_run_id a, rr_finished = sn_finished g, rr_executed = x_executed x,
            rr_waiting = map fst (filter (\<lambda>(nid, n). n_state n = Waiting) (sn_nodes g))\<rparr>)"

text \<open>
  The batches \<open>asyncio.wait\<close> may return: some of the launched tasks, each with a result its
  worker can give, and interrupted only when its coroutine was cancelled.
\<close>

definition batch_ok :: "run_args \<Rightarrow> executor \<Rightarrow> (task_spec \<times> future) list \<Rightarrow> bool" where
  "batch_ok a x batch = (batch \<noteq> [] \<and> distinct (map fst batch) \<and>
     set (map fst batch) \<subseteq> set (x_flight x) \<and>
     (\<forall>(t, f) \<in> set batch. case f of
        Interrupted \<Rightarrow> ts_id t \<in> set (x_cancelled x)
      | Completed success payload \<Rightarrow> \<exists>w. execute (ra_skills a) t w = (success, payload)))"

text \<open>The whole run against a schedule of batches; \<open>None\<close> when the schedule ends before the run does.\<close>

fun run_loop :: "run_args \<Rightarrow> (task_spec \<times> future) list list \<Rightarrow> executor \<Rightarrow> run_report result option" where
  "run_loop a schedule x =
     (case fill_slots a x of
        Inl e \<Rightarrow> Some (Inl e)
      | Inr y \<Rightarrow>
          if x_flight y = [] then Some (report_run a y)
          else case schedule of
              [] \<Rightarrow> None
            | batch # rest \<Rightarrow>
                (case finish_turn a batch y of
                   Inl e \<Rightarrow> Some (Inl e)
                 | Inr (stop, z) \<Rightarrow> if stop then Some (report_run a z) else run_loop a rest z))"

inductive exec_step :: "run_args \<Rightarrow> executor \<Rightarrow> executor \<Rightarrow> bool" for a where
  turn: "fill_slots a x = Inr y \<Longrightarrow> x_flight y \<noteq> [] \<Longrightarrow> batch_ok a y batch \<Longrightarrow>
    finish_turn a batch y = Inr (stop, z) \<Longrightarrow> exec_step a x z"

inductive_cases exec_stepE: "exec_step a x z"

end
