(* ===== verification/Graph_Promises.thy ===== *)
theory Graph_Promises
  imports Graph_Facts
begin

text \<open>
  The properties of the live-graph store. A run's checkpoint is well formed in every store the
  methods can reach, a settled node never moves, a planning round happens once per trigger, and a
  parked node is completed once.
\<close>

section \<open>Every reachable store\<close>

lemma store_ok_empty [simp]: "store_ok path empty_store"
  by (simp add: store_ok_def empty_store_def)

lemma reachable_ok:
  "dag_checker is_dag \<Longrightarrow> (graph_step is_dag path)\<^sup>*\<^sup>* empty_store st \<Longrightarrow> store_ok path st"
  using invariant_system.steps_inv [OF graph_system] by fastforce

text \<open>A run with one node, used by the witnesses.\<close>

definition demo_task :: "string \<Rightarrow> task_spec" where
  "demo_task nid = \<lparr>ts_id = nid, ts_skill = ''echo'', ts_input = [], ts_metadata = []\<rparr>"

definition demo_store :: graph_store where
  "demo_store = snd (start_run id empty_store ''r'' [])"

definition demo_patch :: graph_patch where
  "demo_patch = empty_patch\<lparr>p_add := [demo_task ''a'', demo_task ''b''], p_connect := [(''a'', ''b'')]\<rparr>"

definition demo_patched :: graph_store where
  "demo_patched = (case apply_patch dag_check id demo_store ''r'' demo_patch 1 of
     Inr (_, st) \<Rightarrow> st | Inl _ \<Rightarrow> demo_store)"

lemmas demo_defs = demo_store_def demo_patched_def demo_patch_def demo_task_def empty_patch_def
  empty_store_def start_run_def created_def new_checkpoint_def save_run_def load_run_def
  apply_patch_def apply_patch_ck_def check_patch_def check_connect_def grow_def
  node_ids_def new_node_def record_patch_def patch_moves_def patch_payload_def dmerge_def
  dag_check_def peel_once_def has_incoming_def add_event_def graph_format_def

lemma demo_start: "(graph_step dag_check id)\<^sup>*\<^sup>* empty_store demo_store"
  unfolding demo_store_def by (rule r_into_rtranclp, rule gs_start) (simp add: prod_eq_iff)

lemma demo_apply: "apply_patch dag_check id demo_store ''r'' demo_patch 1 = Inr (True, demo_patched)"
  by (simp add: demo_defs Let_def)

lemma demo_reachable: "(graph_step dag_check id)\<^sup>*\<^sup>* empty_store demo_patched"
  using demo_start gs_patch [OF demo_apply] by (rule rtranclp.rtrancl_into_rtrancl)

lemma demo_load:
  "load_run id demo_patched ''r'' =
     Inr \<lparr>c_format = graph_format, c_version = 2, c_run_id = ''r'', c_finished = False, c_context = [],
       c_nodes = map new_node [demo_task ''a'', demo_task ''b''], c_edges = [(''a'', ''b'')],
       c_events = [\<lparr>ev_sequence = 1, ev_kind = ''run_started'', ev_node = None, ev_payload = []\<rparr>,
                   \<lparr>ev_sequence = 2, ev_kind = ''graph_patched'', ev_node = None, ev_payload = patch_payload demo_patch 1\<rparr>],
       c_applied = [(1, patch_payload demo_patch 1)]\<rparr>"
  by (simp add: demo_defs Let_def)

definition demo_running :: graph_store where
  "demo_running = projr (mark_running id demo_patched ''r'' [demo_task ''a''])"

definition demo_done :: graph_store where
  "demo_done = snd (projr (record_outcome id demo_running ''r'' ''a'' True []))"

lemma demo_mark: "mark_running id demo_patched ''r'' [demo_task ''a''] = Inr demo_running"
  by code_simp

lemma demo_outcome:
  "record_outcome id demo_running ''r'' ''a'' True [] =
     Inr (\<lparr>ev_sequence = 4, ev_kind = ''task_succeeded'', ev_node = Some ''a'', ev_payload = []\<rparr>, demo_done)"
  by code_simp

lemma demo_done_reachable: "(graph_step dag_check id)\<^sup>*\<^sup>* empty_store demo_done"
  using demo_reachable gs_mark [OF demo_mark] gs_outcome [OF demo_outcome]
  by (meson rtranclp.rtrancl_into_rtrancl)

lemma demo_done_state: "node_state_run id demo_done ''r'' ''a'' = Inr Succeeded"
  by code_simp

text \<open>C1: In every store the methods can reach, a run's checkpoint has distinct node ids, only edges
  between known nodes, no cycle, no active node once it is finished, and a journal numbered without
  gaps.\<close>

theorem reachable_runs_well_formed:
  assumes "dag_checker is_dag" and "(graph_step is_dag path)\<^sup>*\<^sup>* empty_store st"
    and "load_run path st rid = Inr c"
  shows "distinct (node_ids c) \<and> acyclic (set (c_edges c)) \<and>
    set (c_edges c) \<subseteq> set (node_ids c) \<times> set (node_ids c) \<and>
    (c_finished c \<longrightarrow> (\<forall>nid s. state_of c nid = Some s \<longrightarrow> s \<in> {Succeeded, Failed, Cancelled})) \<and>
    map ev_sequence (c_events c) = [1..<Suc (length (c_events c))]"
proof -
  have wf: "wf_graph c" using store_ok_load [OF reachable_ok] assms by blast
  have fin: "s \<in> {Succeeded, Failed, Cancelled}" if "c_finished c" "state_of c nid = Some s" for nid s
    using wf_graph_finished [OF wf that] by (cases s) auto
  from wf have "distinct (node_ids c)" "acyclic (set (c_edges c))"
    "set (c_edges c) \<subseteq> set (node_ids c) \<times> set (node_ids c)"
    "map ev_sequence (c_events c) = [1..<Suc (length (c_events c))]"
    by (auto simp: wf_graph_def edges_ok_def journal_ok_def)
  with fin show ?thesis by blast
qed

lemma reachable_runs_well_formed_witness:
  "acyclic {(''a'', ''b'')} \<and> state_of (projr (load_run id demo_patched ''r'')) ''b'' = Some Pending"
  using reachable_runs_well_formed [OF peeling.dag_checker_axioms demo_reachable demo_load]
  unfolding demo_load by (simp add: state_of_def new_node_def demo_task_def)

text \<open>C2: A node that has succeeded, failed or been cancelled keeps that state in every later store:
  no sequence of method calls, patches and callbacks moves it again.\<close>

theorem settled_nodes_never_move:
  assumes "dag_checker is_dag" and "(graph_step is_dag path)\<^sup>*\<^sup>* empty_store st"
    and "(graph_step is_dag path)\<^sup>*\<^sup>* st st'"
    and "node_state_run path st rid nid = Inr s" and "s \<in> {Succeeded, Failed, Cancelled}"
  shows "node_state_run path st' rid nid = Inr s"
proof -
  have st: "\<exists>c. load_run path st rid = Inr c \<and> settled_in c nid s"
    using assms(4,5) by (auto simp: node_state_run_def settled_in_def bind_r_Inr split: option.splits)
  have "\<exists>c. load_run path st' rid = Inr c \<and> settled_in c nid s"
    by (rule graph_steps_keep [OF assms(1) reachable_ok [OF assms(1,2)] assms(3) st])
      (use ck_step_settled [OF _ assms(1)] in auto)
  then show ?thesis by (auto simp: node_state_run_def settled_in_def)
qed

lemma settled_nodes_never_move_witness:
  "node_state_run id (projr (resume_run id demo_done ''r'')) ''r'' ''a'' = Inr Succeeded"
proof (rule settled_nodes_never_move [OF peeling.dag_checker_axioms demo_done_reachable _ demo_done_state])
  obtain c where "load_run id demo_done ''r'' = Inr c"
    using demo_done_state by (auto simp: node_state_run_def bind_r_Inr)
  then have "resume_run id demo_done ''r'' = Inr (projr (resume_run id demo_done ''r''))"
    by (simp add: resume_run_def)
  then show "(graph_step dag_check id)\<^sup>*\<^sup>* demo_done (projr (resume_run id demo_done ''r''))"
    by (intro r_into_rtranclp gs_resume)
qed simp

text \<open>C3: One planning round changes the graph at most once: after a patch was applied for a trigger
  event, a patch for the same trigger is refused without any change, in every later store.\<close>

theorem patch_applied_once_per_trigger:
  assumes "dag_checker is_dag" and "(graph_step is_dag path)\<^sup>*\<^sup>* empty_store st"
    and "apply_patch is_dag path st rid p tr = Inr (True, st1)"
    and "(graph_step is_dag path)\<^sup>*\<^sup>* st1 st2"
  shows "apply_patch is_dag path st2 rid q tr = Inr (False, st2)"
proof -
  have ok: "store_ok path st" using reachable_ok assms(1,2) .
  obtain c c' where c: "load_run path st rid = Inr c" "apply_patch_ck is_dag p tr c = Inr (True, c')"
    "st1 = save_run path c' st"
    using assms(3) by (auto simp: apply_patch_def bind_r_Inr)
  have c': "dget (c_applied c') tr \<noteq> None"
    using c(2) dag_checker.apply_patch_True [OF assms(1)] by (auto simp: applied_record_patch)
  have step: "ck_step is_dag c c'" using c(2) by (rule ck_patch)
  have st1: "\<exists>c. load_run path st1 rid = Inr c \<and> dget (c_applied c) tr \<noteq> None"
    using load_after_save(1) [OF c(1) ck_step_same_run [OF step assms(1)]] c(3) c' by fastforce
  have "store_ok path st1" using graph_step_store_ok [OF assms(1) ok gs_patch [OF assms(3)]] .
  then have "\<exists>c. load_run path st2 rid = Inr c \<and> dget (c_applied c) tr \<noteq> None"
    by (rule graph_steps_keep [OF assms(1) _ assms(4) st1])
      (use ck_step_applied [OF _ assms(1)] in auto)
  then show ?thesis by (auto simp: apply_patch_def apply_patch_ck_def)
qed

lemma patch_applied_once_per_trigger_witness:
  "apply_patch dag_check id demo_patched ''r'' (empty_patch\<lparr>p_finish := True\<rparr>) 1 = Inr (False, demo_patched)"
  by (rule patch_applied_once_per_trigger [OF peeling.dag_checker_axioms demo_start demo_apply]) simp

text \<open>C4: \<open>ready\<close> returns, in the order of their ids, the first \<open>limit\<close> of the pending tasks whose
  predecessors have all succeeded, and all of them when the limit is not positive.\<close>

theorem ready_is_sorted_runnable_prefix:
  assumes "store_ok path st" and "ready_run path st rid limit = Inr ts"
  shows "\<exists>c all. load_run path st rid = Inr c \<and>
    ts = (if limit \<le> 0 then all else take (nat limit) all) \<and>
    sorted (map ts_id all) \<and> distinct (map ts_id all) \<and>
    set (map ts_id all) = {nid. state_of c nid = Some Pending \<and>
      (\<forall>p. (p, nid) \<in> set (c_edges c) \<longrightarrow> state_of c p = Some Succeeded)}"
proof -
  obtain c where c: "load_run path st rid = Inr c" "ts = ready_ck c limit"
    using assms(2) by (auto simp: ready_run_def bind_r_Inr)
  have wf: "wf_graph c" using store_ok_load assms(1) c(1) .
  have "distinct (map fst (sort_key fst (c_nodes c)))"
    using wf by (simp add: wf_graph_def node_ids_def distinct_map)
  then have "distinct (map ts_id (runnable_specs c))"
    by (simp add: runnable_specs_def spec_of_def case_prod_beta comp_def distinct_map_filter)
  moreover have "set (map ts_id (runnable_specs c)) = {nid. is_ready c nid}"
    using mem_runnable_specs [OF wf] ready_complete by auto
  moreover have "{nid. is_ready c nid} = {nid. state_of c nid = Some Pending \<and>
      (\<forall>p. (p, nid) \<in> set (c_edges c) \<longrightarrow> state_of c p = Some Succeeded)}"
    by (auto simp: is_ready_def mem_preds)
  ultimately show ?thesis
    using c sorted_runnable_specs by (intro exI [of _ c] exI [of _ "runnable_specs c"])
      (simp add: ready_ck_take)
qed

lemma ready_is_sorted_runnable_prefix_witness:
  "\<exists>c all. load_run id demo_patched ''r'' = Inr c \<and>
    [demo_task ''a''] = (if (2 :: int) \<le> 0 then all else take (nat 2) all) \<and>
    sorted (map ts_id all) \<and> distinct (map ts_id all) \<and>
    set (map ts_id all) = {nid. state_of c nid = Some Pending \<and>
      (\<forall>p. (p, nid) \<in> set (c_edges c) \<longrightarrow> state_of c p = Some Succeeded)}"
proof (rule ready_is_sorted_runnable_prefix)
  show "store_ok id demo_patched" using reachable_ok [OF peeling.dag_checker_axioms demo_reachable] .
  show "ready_run id demo_patched ''r'' 2 = Inr [demo_task ''a'']"
    by (simp add: ready_run_def demo_load ready_ck_def new_node_def demo_task_def preds_def
        state_of_def spec_of_def)
qed

text \<open>An accepted patch has exactly its announced effect: the new nodes and edges are added, a node
  moves to pending, waiting or cancelled as the lists \<open>resume\<close>, \<open>wait\<close> and \<open>cancel\<close> say, the later
  list winning, and \<open>finish\<close> cancels whatever is still active.\<close>

lemma patch_effect:
  assumes "dag_checker is_dag" and "load_run path st rid = Inr c"
    and "apply_patch is_dag path st rid p tr = Inr (True, st')"
  shows "\<exists>c'. load_run path st' rid = Inr c' \<and> node_ids c' = node_ids c @ map ts_id (p_add p) \<and>
    set (c_edges c') = set (c_edges c) \<union> set (p_connect p) \<and>
    (\<forall>nid. state_of c' nid = map_option (patched_state p nid)
     (case state_of c nid of Some s \<Rightarrow> Some s
      | None \<Rightarrow> if nid \<in> set (map ts_id (p_add p)) then Some Pending else None))"
proof -
  obtain c' where c': "apply_patch_ck is_dag p tr c = Inr (True, c')" "st' = save_run path c' st"
    using assms(2,3) by (auto simp: apply_patch_def bind_r_Inr split: if_splits)
  then have eq: "c' = record_patch p tr (patch_moves p (grow p c))"
    using dag_checker.apply_patch_True [OF assms(1)] by blast
  have l: "load_run path st' rid = Inr (c'\<lparr>c_version := c_version c' + 1\<rparr>)"
    using load_after_save(1) [OF assms(2) ck_step_same_run [OF ck_patch [OF c'(1)] assms(1)]] c'(2) by simp
  have "state_of (c'\<lparr>c_version := c_version c' + 1\<rparr>) nid = state_of c' nid" for nid
    by (simp add: state_of_def)
  then have "state_of (c'\<lparr>c_version := c_version c' + 1\<rparr>) nid = map_option (patched_state p nid) (state_of (grow p c) nid)" for nid
    by (simp add: eq state_of_patch_moves_closed)
  moreover have "node_ids (c'\<lparr>c_version := c_version c' + 1\<rparr>) = node_ids c'"
    by (simp add: node_ids_def)
  ultimately show ?thesis using l
    by (intro exI [of _ "c'\<lparr>c_version := c_version c' + 1\<rparr>"])
      (simp only: eq state_of_grow set_map; simp)
qed

text \<open>The witness is a patch that names one node in both \<open>cancel\<close> and \<open>wait\<close>: the cancellation is
  journalled and then overwritten, so the node is not settled.\<close>

definition revive_patch :: graph_patch where
  "revive_patch = empty_patch\<lparr>p_cancel := [''a''], p_wait := [''a'']\<rparr>"

lemma patch_effect_witness:
  "\<exists>st' c'. apply_patch dag_check id demo_patched ''r'' revive_patch 2 = Inr (True, st') \<and>
     load_run id st' ''r'' = Inr c' \<and> state_of c' ''a'' = Some Waiting"
proof -
  have "apply_patch dag_check id demo_patched ''r'' revive_patch 2 =
      Inr (True, snd (projr (apply_patch dag_check id demo_patched ''r'' revive_patch 2)))"
    by code_simp
  then obtain st' where a: "apply_patch dag_check id demo_patched ''r'' revive_patch 2 = Inr (True, st')"
    by blast
  have p: "p_resume revive_patch = []" "p_wait revive_patch = [''a'']" "\<not> p_finish revive_patch"
    "p_add revive_patch = []"
    by (simp_all add: revive_patch_def empty_patch_def)
  obtain c' where "load_run id st' ''r'' = Inr c'" and "\<forall>nid. state_of c' nid =
      map_option (patched_state revive_patch nid)
        (case state_of (projr (load_run id demo_patched ''r'')) nid of Some s \<Rightarrow> Some s
         | None \<Rightarrow> if nid \<in> set (map ts_id (p_add revive_patch)) then Some Pending else None)"
    using patch_effect [OF peeling.dag_checker_axioms demo_load a] unfolding demo_load sum.sel by blast
  moreover have "state_of (projr (load_run id demo_patched ''r'')) ''a'' = Some Pending"
    by (simp add: demo_load state_of_def new_node_def demo_task_def)
  ultimately show ?thesis using a by (auto simp: p patched_state_def)
qed

text \<open>Applying a patch settles the planning round of its own trigger and of no other: of the
  events still owed a round, exactly the trigger's are removed.\<close>

lemma patch_settles_one_round:
  assumes "dag_checker is_dag" and "pending_planner_events path st rid = Inr owed"
    and "apply_patch is_dag path st rid p tr = Inr (True, st')"
  shows "pending_planner_events path st' rid = Inr (filter (\<lambda>e. ev_sequence e \<noteq> tr) owed)"
proof -
  obtain c where c: "load_run path st rid = Inr c" "owed = pending_planner_events_ck c"
    using assms(2) by (auto simp: pending_planner_events_def bind_r_Inr)
  obtain c' where c': "apply_patch_ck is_dag p tr c = Inr (True, c')" "st' = save_run path c' st"
    using assms(3) c(1) by (auto simp: apply_patch_def bind_r_Inr split: if_splits)
  then have "pending_planner_events_ck c' = filter (\<lambda>e. ev_sequence e \<noteq> tr) owed"
    using dag_checker.apply_patch_True [OF assms(1)] pending_after_patch c(2) by auto
  then show ?thesis
    using load_after_save(1) [OF c(1) ck_step_same_run [OF ck_patch [OF c'(1)] assms(1)]] c'(2)
    by (simp add: pending_planner_events_def)
qed

lemma patch_settles_one_round_witness:
  "pending_planner_events id demo_patched ''r'' = Inr []"
proof -
  have "pending_planner_events id demo_store ''r'' =
      Inr [\<lparr>ev_sequence = 1, ev_kind = ''run_started'', ev_node = None, ev_payload = []\<rparr>]"
    by code_simp
  from patch_settles_one_round [OF peeling.dag_checker_axioms this demo_apply] show ?thesis by simp
qed





end
