(* ===== verification/Graph_Executor_Props.thy ===== *)
theory Graph_Executor_Props
  imports Graph_Executor Graph_Promises
begin

text \<open>
  What the executor promises: it never runs more tasks than it has workers nor completes more than
  it was asked to, every task in flight is running or cancelled in the graph, no outcome is ever
  refused by the store, and it stops only when nothing can be launched.
\<close>

section \<open>Tasks in flight, in the graph\<close>

definition launched :: "checkpoint \<Rightarrow> string \<Rightarrow> bool" where
  "launched c nid = (state_of c nid \<in> {Some Running, Some Cancelled})"

definition all_launched :: "run_args \<Rightarrow> graph_store \<Rightarrow> string set \<Rightarrow> bool" where
  "all_launched a st ids = (store_ok (ra_path a) st \<and>
     (\<exists>c. load_run (ra_path a) st (ra_run_id a) = Inr c \<and> (\<forall>i \<in> ids. launched c i)))"

lemma all_launched_subset: "all_launched a st ids \<Longrightarrow> ids' \<subseteq> ids \<Longrightarrow> all_launched a st ids'"
  by (auto simp: all_launched_def)

lemma launched_version [simp]: "launched (c\<lparr>c_version := v\<rparr>) nid \<longleftrightarrow> launched c nid"
  by (simp add: launched_def state_of_def)

lemma all_launched_step:
  assumes "dag_checker (ra_is_dag a)" and "store_ok (ra_path a) st"
    and "load_run (ra_path a) st (ra_run_id a) = Inr c"
    and "ck_step (ra_is_dag a) c c'" and "gs_disk st' = gs_disk (save_run (ra_path a) c' st)"
    and "\<And>i. i \<in> ids \<Longrightarrow> launched c' i"
  shows "all_launched a st' ids"
proof -
  note run = ck_step_same_run [OF assms(4,1)]
  have "wf_graph c'" using ck_step_wf [OF assms(4,1)] store_ok_load [OF assms(2,3)] .
  moreover have "c_format c' = graph_format"
    using run assms(3) by (simp add: same_run_def load_run_Inr)
  ultimately have "store_ok (ra_path a) st'"
    using store_ok_save [OF assms(2)] store_ok_disk [OF assms(5)] by simp
  moreover have "load_run (ra_path a) st' (ra_run_id a) = Inr (c'\<lparr>c_version := c_version c' + 1\<rparr>)"
    using load_after_save(1) [OF assms(3) run assms(5)] .
  ultimately show ?thesis using assms(6) by (simp add: all_launched_def)
qed

text \<open>Marking runnable tasks makes exactly them running.\<close>

lemma state_of_mark_running:
  "mark_running_ck ts c = Inr c' \<Longrightarrow> distinct (map ts_id ts) \<Longrightarrow>
   state_of c' nid =
     (if nid \<in> ts_id ` set ts \<and> state_of c nid = Some Pending then Some Running else state_of c nid)"
  unfolding mark_running_ck_def
proof (induction ts arbitrary: c)
  case (Cons t ts)
  then obtain d where d: "mark_one t c = Inr d" "fold_r mark_one ts d = Inr c'"
    by (auto simp: bind_r_Inr)
  have "state_of d nid = (if nid = ts_id t \<and> state_of c nid = Some Pending then Some Running else state_of c nid)"
    using d(1) by (auto simp: mark_one_def split: option.splits if_splits)
  then show ?case using Cons.IH [OF d(2)] Cons.prems(2) by auto
qed simp

lemma mark_running_total:
  "\<forall>t \<in> set ts. state_of c (ts_id t) \<noteq> None \<Longrightarrow> \<exists>c'. mark_running_ck ts c = Inr c'"
  unfolding mark_running_ck_def
proof (induction ts arbitrary: c)
  case (Cons t ts)
  then have "\<exists>d. mark_one t c = Inr d" by (auto simp: mark_one_def)
  then obtain d where d: "mark_one t c = Inr d" by blast
  have "state_of d nid = None \<longleftrightarrow> state_of c nid = None" for nid
    using d by (auto simp: mark_one_def split: option.splits if_splits)
  then have "\<forall>t \<in> set ts. state_of d (ts_id t) \<noteq> None" using Cons.prems by simp
  then show ?case using Cons.IH d by simp
qed simp

lemma launched_patch:
  assumes "check_patch p c = None" and "launched c nid"
  shows "launched (record_patch p tr (patch_moves p (grow p c))) nid"
proof -
  obtain s where s: "state_of c nid = Some s" "s = Running \<or> s = Cancelled"
    using assms(2) by (auto simp: launched_def)
  then have "nid \<notin> set (p_wait p)" "nid \<notin> set (p_resume p)"
    using assms(1) by (auto simp: check_patch_None)
  then show ?thesis
    using s by (auto simp: launched_def state_of_patch_moves_closed state_of_grow patched_state_def Let_def)
qed

lemma launched_outcome:
  "record_outcome_ck m b r c = Inr (e, c') \<Longrightarrow> launched c nid \<Longrightarrow> nid \<noteq> m \<Longrightarrow> launched c' nid"
  by (auto simp: record_outcome_ck_def launched_def split: option.splits if_splits dest!: snd_add_event)

lemma launched_waiting:
  "record_waiting_ck m w c = Inr (e, c') \<Longrightarrow> launched c nid \<Longrightarrow> nid \<noteq> m \<Longrightarrow> launched c' nid"
  by (auto simp: record_waiting_ck_def launched_def split: option.splits if_splits dest!: snd_add_event)

section \<open>The store's methods, from the executor\<close>

lemma ready_launch:
  assumes "dag_checker (ra_is_dag a)" and "all_launched a st ids"
    and "ready_run (ra_path a) st (ra_run_id a) limit = Inr ts"
    and "mark_running (ra_path a) st (ra_run_id a) ts = Inr st'"
  shows "all_launched a st' (ids \<union> ts_id ` set ts)" and "distinct (map ts_id ts)"
    and "ids \<inter> ts_id ` set ts = {}" and "0 < limit \<Longrightarrow> int (length ts) \<le> limit"
proof -
  obtain c where c: "load_run (ra_path a) st (ra_run_id a) = Inr c" "\<forall>i \<in> ids. launched c i"
    and ok: "store_ok (ra_path a) st"
    using assms(2) by (auto simp: all_launched_def)
  have ts: "ts = ready_ck c limit" using assms(3) c(1) by (simp add: ready_run_def)
  have wf: "wf_graph c" using store_ok_load [OF ok c(1)] .
  then have "distinct (map fst (sort_key fst (c_nodes c)))"
    by (simp add: wf_graph_def node_ids_def distinct_map)
  then have "distinct (map ts_id (runnable_specs c))"
    by (simp add: runnable_specs_def spec_of_def case_prod_beta comp_def distinct_map_filter)
  then show d: "distinct (map ts_id ts)" by (simp add: ts ready_ck_take take_map [symmetric])
  have sub: "set ts \<subseteq> set (runnable_specs c)" by (auto simp: ts ready_ck_take dest: in_set_takeD)
  then have pending: "state_of c i = Some Pending" if "i \<in> ts_id ` set ts" for i
    using that mem_runnable_specs [OF wf] by (auto simp: is_ready_def)
  then show "ids \<inter> ts_id ` set ts = {}" using c(2) by (force simp: launched_def)
  show "0 < limit \<Longrightarrow> int (length ts) \<le> limit" by (simp add: ts ready_ck_take)
  obtain c' where c': "mark_running_ck ts c = Inr c'" "st' = save_run (ra_path a) c' st"
    using assms(4) c(1) by (auto simp: mark_running_def bind_r_Inr)
  show "all_launched a st' (ids \<union> ts_id ` set ts)"
  proof (rule all_launched_step [OF assms(1) ok c(1) ck_mark [OF c'(1)]])
    fix i assume "i \<in> ids \<union> ts_id ` set ts"
    then show "launched c' i"
      using c(2) pending state_of_mark_running [OF c'(1) d] by (auto simp: launched_def)
  qed (simp add: c'(2))
qed

lemma ready_mark_total:
  assumes "all_launched a st ids" and "ready_run (ra_path a) st (ra_run_id a) limit = Inr ts"
  shows "\<exists>st'. mark_running (ra_path a) st (ra_run_id a) ts = Inr st'"
proof -
  obtain c where c: "load_run (ra_path a) st (ra_run_id a) = Inr c" and ok: "store_ok (ra_path a) st"
    using assms(1) by (auto simp: all_launched_def)
  have "set ts \<subseteq> set (runnable_specs c)"
    using assms(2) c by (auto simp: ready_run_def ready_ck_take dest: in_set_takeD split: if_splits)
  then have "\<forall>t \<in> set ts. state_of c (ts_id t) \<noteq> None"
    using mem_runnable_specs [OF store_ok_load [OF ok c]] by (force simp: is_ready_def)
  then show ?thesis using mark_running_total [of ts c] c by (auto simp: mark_running_def)
qed

lemma outcome_launched:
  assumes "dag_checker (ra_is_dag a)" and "all_launched a st (insert nid ids)" and "nid \<notin> ids"
    and "record_outcome (ra_path a) st (ra_run_id a) nid b r = Inr (e, st')"
  shows "all_launched a st' ids"
proof -
  obtain c where c: "load_run (ra_path a) st (ra_run_id a) = Inr c" "\<forall>i \<in> ids. launched c i"
    and ok: "store_ok (ra_path a) st"
    using assms(2) by (auto simp: all_launched_def)
  obtain c' where c': "record_outcome_ck nid b r c = Inr (e, c')" "st' = save_run (ra_path a) c' st"
    using assms(4) c(1) by (auto simp: record_outcome_def bind_r_Inr)
  show ?thesis
    by (rule all_launched_step [OF assms(1) ok c(1) ck_outcome [OF c'(1)]])
      (use c(2) c'(2) launched_outcome [OF c'(1)] assms(3) in auto)
qed

lemma waiting_launched:
  assumes "dag_checker (ra_is_dag a)" and "all_launched a st (insert nid ids)" and "nid \<notin> ids"
    and "record_waiting (ra_path a) st (ra_run_id a) nid w = Inr (e, st')"
  shows "all_launched a st' ids"
proof -
  obtain c where c: "load_run (ra_path a) st (ra_run_id a) = Inr c" "\<forall>i \<in> ids. launched c i"
    and ok: "store_ok (ra_path a) st"
    using assms(2) by (auto simp: all_launched_def)
  obtain c' where c': "record_waiting_ck nid w c = Inr (e, c')"
    "gs_disk st' = gs_disk (save_run (ra_path a) c' st)"
    using assms(4) c(1) by (auto simp: record_waiting_def bind_r_Inr)
  show ?thesis
    by (rule all_launched_step [OF assms(1) ok c(1) ck_wait [OF c'(1)] c'(2)])
      (use c(2) launched_waiting [OF c'(1)] assms(3) in auto)
qed

lemma plan_launched:
  assumes "dag_checker (ra_is_dag a)" and "all_launched a st ids"
    and "plan_event a (Some e) st = Inr st'"
  shows "all_launched a st' ids"
proof -
  obtain c where c: "load_run (ra_path a) st (ra_run_id a) = Inr c" "\<forall>i \<in> ids. launched c i"
    and ok: "store_ok (ra_path a) st"
    using assms(2) by (auto simp: all_launched_def)
  obtain p b where p: "apply_patch (ra_is_dag a) (ra_path a) st (ra_run_id a) p (ev_sequence e) = Inr (b, st')"
    using assms(3) by (auto simp: plan_event_def bind_r_Inr)
  then obtain c' where c': "apply_patch_ck (ra_is_dag a) p (ev_sequence e) c = Inr (b, c')"
    "st' = (if b then save_run (ra_path a) c' st else st)"
    using c(1) by (auto simp: apply_patch_def bind_r_Inr)
  show ?thesis
  proof (cases b)
    case True
    then have acc: "apply_patch_ck (ra_is_dag a) p (ev_sequence e) c = Inr (True, c')" using c'(1) by simp
    then have chk: "check_patch p c = None"
      "c' = record_patch p (ev_sequence e) (patch_moves p (grow p c))"
      using dag_checker.apply_patch_True [OF assms(1)] by blast+
    show ?thesis
    proof (rule all_launched_step [OF assms(1) ok c(1) ck_patch [OF acc]])
      show "gs_disk st' = gs_disk (save_run (ra_path a) c' st)" using c'(2) True by simp
      fix i assume "i \<in> ids"
      then show "launched c' i" unfolding chk(2) using launched_patch [OF chk(1)] c(2) by blast
    qed
  next
    case False
    then show ?thesis using c'(2) assms(2) by simp
  qed
qed

text \<open>A task in flight is in the graph, and its outcome is refused only after a cancellation.\<close>

lemma launched_node_state:
  assumes "all_launched a st ids" and "nid \<in> ids"
  shows "node_state_run (ra_path a) st (ra_run_id a) nid \<in> {Inr Running, Inr Cancelled}"
  using assms by (auto simp: all_launched_def launched_def node_state_run_def)

lemma running_outcome_total:
  assumes "node_state_run (ra_path a) st (ra_run_id a) nid = Inr Running"
  shows "\<exists>e st'. record_outcome (ra_path a) st (ra_run_id a) nid b r = Inr (e, st')"
    and "\<exists>e st'. record_waiting (ra_path a) st (ra_run_id a) nid w = Inr (e, st')"
proof -
  obtain c where "load_run (ra_path a) st (ra_run_id a) = Inr c" "state_of c nid = Some Running"
    using assms by (auto simp: node_state_run_def bind_r_Inr split: option.splits)
  then show "\<exists>e st'. record_outcome (ra_path a) st (ra_run_id a) nid b r = Inr (e, st')"
    "\<exists>e st'. record_waiting (ra_path a) st (ra_run_id a) nid w = Inr (e, st')"
    by (auto simp: record_outcome_def record_outcome_ck_def record_waiting_def record_waiting_ck_def
        case_prod_beta)
qed

section \<open>The invariant of the loop\<close>

definition exec_inv :: "run_args \<Rightarrow> executor \<Rightarrow> bool" where
  "exec_inv a x = (all_launched a (x_store x) (ts_id ` set (x_flight x)) \<and>
     distinct (map ts_id (x_flight x)) \<and>
     int (length (x_flight x)) \<le> ra_max_workers a \<and>
     (\<forall>m. ra_max_completed a = Some m \<longrightarrow> 0 \<le> m \<longrightarrow>
        int (length (x_executed x)) + int (length (x_flight x)) \<le> m))"

lemma exec_inv_fill:
  assumes "dag_checker (ra_is_dag a)" and "exec_inv a x" and "fill_slots a x = Inr y"
  shows "exec_inv a y"
proof -
  consider "y = x" | ts st where "capacity a x > 0" "ts \<noteq> []"
      "ready_run (ra_path a) (x_store x) (ra_run_id a) (capacity a x) = Inr ts"
      "mark_running (ra_path a) (x_store x) (ra_run_id a) ts = Inr st"
      "y = x\<lparr>x_store := st, x_flight := x_flight x @ ts\<rparr>"
    using assms(3) by (auto simp: fill_slots_def bind_r_Inr split: if_splits)
  then show ?thesis
  proof cases
    case 2
    note new = ready_launch [OF assms(1) _ 2(3,4), of "ts_id ` set (x_flight x)"]
    have inv: "all_launched a (x_store x) (ts_id ` set (x_flight x))" "distinct (map ts_id (x_flight x))"
      using assms(2) by (simp_all add: exec_inv_def)
    have "int (length ts) \<le> capacity a x" using new(4) [OF inv(1)] 2(1) by simp
    then have "int (length (x_flight x @ ts)) \<le> ra_max_workers a"
      "\<And>m. ra_max_completed a = Some m \<Longrightarrow>
         int (length (x_executed x)) + int (length (x_flight x @ ts)) \<le> m"
      by (auto simp: capacity_def Let_def split: option.splits)
    moreover have "distinct (map ts_id (x_flight x @ ts))"
      using inv(2) new(2,3) [OF inv(1)] by auto
    moreover have "all_launched a st (ts_id ` set (x_flight x @ ts))"
      using new(1) [OF inv(1)] by (simp add: image_Un)
    ultimately show ?thesis using 2(5) by (simp add: exec_inv_def)
  qed (use assms(2) in simp)
qed

lemma cancel_local_frame:
  assumes "cancel_local a b x = Inr y"
  shows "x_store y = x_store x \<and> x_flight y = x_flight x \<and> x_executed y = x_executed x"
  using assms unfolding cancel_local_def
  by (rule fold_r_invariant) (auto simp: cancel_one_local_def bind_r_Inr split: if_splits)

lemma exec_inv_frame:
  "x_store y = x_store x \<and> x_flight y = x_flight x \<and> x_executed y = x_executed x \<Longrightarrow>
   exec_inv a y \<longleftrightarrow> exec_inv a x"
  by (simp add: exec_inv_def)

lemma after_outcome_inv:
  assumes "dag_checker (ra_is_dag a)" and "exec_inv a x" and "after_outcome a e x = Inr (stop, y)"
  shows "exec_inv a y \<and> x_flight y = x_flight x \<and> x_executed y = x_executed x"
proof -
  consider "y = x" | st where "plan_event a (Some e) (x_store x) = Inr st"
      "cancel_local a False (x\<lparr>x_store := st\<rparr>) = Inr y"
    using assms(3) by (auto simp: after_outcome_def bind_r_Inr split: if_splits)
  then show ?thesis
  proof cases
    case 2
    have "all_launched a st (ts_id ` set (x_flight x))"
      using plan_launched [OF assms(1) _ 2(1)] assms(2) by (simp add: exec_inv_def)
    then have "exec_inv a (x\<lparr>x_store := st\<rparr>)" using assms(2) by (simp add: exec_inv_def)
    then show ?thesis
      using cancel_local_frame [OF 2(2)] exec_inv_frame [of y "x\<lparr>x_store := st\<rparr>" a] by simp
  qed (use assms(2) in simp)
qed

text \<open>The ways one finished task is settled.\<close>

lemma settle_cases:
  assumes "settle a (t, f) x = Inr (stop, y)"
  obtains (dropped) "y = x\<lparr>x_flight := remove1 t (x_flight x)\<rparr>" "\<not> stop"
  | (parked) d e st where "record_waiting (ra_path a) (x_store x) (ra_run_id a) (ts_id t) (as_wait d) = Inr (e, st)"
      "y = x\<lparr>x_flight := remove1 t (x_flight x), x_executed := x_executed x @ [ts_id t], x_store := st\<rparr>" "\<not> stop"
  | (outcome) b r e st where "record_outcome (ra_path a) (x_store x) (ra_run_id a) (ts_id t) b r = Inr (e, st)"
      "after_outcome a e (x\<lparr>x_flight := remove1 t (x_flight x), x_executed := x_executed x @ [ts_id t], x_store := st\<rparr>)
        = Inr (stop, y)"
proof (cases f)
  case Interrupted
  then show thesis using assms dropped by (simp add: settle_def)
next
  case (Completed b p)
  then obtain s where s: "node_state_run (ra_path a) (x_store x) (ra_run_id a) (ts_id t) = Inr s"
    using assms by (auto simp: settle_def Let_def bind_r_Inr)
  show thesis
  proof (cases "s = Cancelled")
    case True
    then show thesis using assms dropped Completed s by (simp add: settle_def Let_def)
  next
    case False
    show thesis
    proof (cases p)
      case (Inl r)
      then show thesis using assms outcome False Completed s by (auto simp: settle_def Let_def bind_r_Inr)
    next
      case (Inr d)
      then show thesis using assms parked False Completed s by (auto simp: settle_def Let_def bind_r_Inr)
    qed
  qed
qed

lemma ids_remove1:
  assumes "distinct (map ts_id ts)" and "t \<in> set ts"
  shows "ts_id ` set ts = insert (ts_id t) (ts_id ` set (remove1 t ts))"
    and "ts_id t \<notin> ts_id ` set (remove1 t ts)" and "distinct (map ts_id (remove1 t ts))"
    and "Suc (length (remove1 t ts)) = length ts" and "set (remove1 t ts) = set ts - {t}"
proof -
  have d: "distinct ts" using assms(1) by (simp add: distinct_map)
  then show s: "set (remove1 t ts) = set ts - {t}" by simp
  then show "ts_id ` set ts = insert (ts_id t) (ts_id ` set (remove1 t ts))" using assms(2) by auto
  show "ts_id t \<notin> ts_id ` set (remove1 t ts)"
    using assms s by (auto simp: distinct_map inj_on_def)
  show "distinct (map ts_id (remove1 t ts))" using assms(1) d
    by (auto simp: distinct_map inj_on_def)
  show "Suc (length (remove1 t ts)) = length ts" using assms(2)
    by (simp add: length_remove1) (metis Suc_pred length_pos_if_in_set)
qed

lemma settle_inv:
  assumes "dag_checker (ra_is_dag a)" and "exec_inv a x" and "t \<in> set (x_flight x)"
    and "settle a (t, f) x = Inr (stop, y)"
  shows "exec_inv a y \<and> set (x_flight y) = set (x_flight x) - {t}"
proof -
  let ?fl = "remove1 t (x_flight x)"
  have inv: "distinct (map ts_id (x_flight x))" using assms(2) by (simp add: exec_inv_def)
  note r = ids_remove1 [OF inv assms(3)]
  have all: "all_launched a (x_store x) (insert (ts_id t) (ts_id ` set ?fl))"
    using assms(2) r(1) by (simp add: exec_inv_def)
  have step: "exec_inv a (x\<lparr>x_flight := ?fl, x_executed := x_executed x @ [ts_id t], x_store := st\<rparr>)"
    if "all_launched a st (ts_id ` set ?fl)" for st
    using that assms(2) r by (auto simp: exec_inv_def)
  from assms(4) show ?thesis
  proof (cases rule: settle_cases)
    case dropped
    have "all_launched a (x_store x) (ts_id ` set ?fl)" using all by (rule all_launched_subset) blast
    then show ?thesis using dropped assms(2) r by (auto simp: exec_inv_def)
  next
    case (parked d e st)
    then show ?thesis using waiting_launched [OF assms(1) all r(2) parked(1)] step r(5) by simp
  next
    case (outcome b rs e st)
    have "exec_inv a (x\<lparr>x_flight := ?fl, x_executed := x_executed x @ [ts_id t], x_store := st\<rparr>)"
      using outcome_launched [OF assms(1) all r(2) outcome(1)] by (rule step)
    from after_outcome_inv [OF assms(1) this outcome(2)] show ?thesis using r(5) by simp
  qed
qed

lemma settle_all_inv:
  "dag_checker (ra_is_dag a) \<Longrightarrow> exec_inv a x \<Longrightarrow> distinct (map fst ds) \<Longrightarrow>
   set (map fst ds) \<subseteq> set (x_flight x) \<Longrightarrow> settle_all a ds x = Inr (stop, y) \<Longrightarrow> exec_inv a y"
proof (induction ds arbitrary: x)
  case (Cons d ds)
  obtain t f where d: "d = (t, f)" by force
  obtain b z where z: "settle a (t, f) x = Inr (b, z)"
    "(if b then Inr (True, z) else settle_all a ds z) = Inr (stop, y)"
    using Cons.prems(5) d by (auto simp: bind_r_Inr)
  have t: "t \<in> set (x_flight x)" using Cons.prems(4) d by simp
  note s = settle_inv [OF Cons.prems(1,2) t z(1)]
  show ?case
  proof (cases b)
    case False
    have "set (map fst ds) \<subseteq> set (x_flight z)" using s Cons.prems(3,4) d by auto
    then show ?thesis using Cons.IH [of z] Cons.prems(1,3) s z(2) False by simp
  qed (use s z(2) in simp)
qed simp

lemma finish_turn_inv:
  assumes "dag_checker (ra_is_dag a)" and "exec_inv a x" and "batch_ok a x batch"
    and "finish_turn a batch x = Inr (stop, y)"
  shows "exec_inv a y"
proof -
  let ?ds = "sort_key (\<lambda>d. ts_id (fst d)) batch"
  obtain b z where z: "settle_all a ?ds x = Inr (b, z)"
    "y = z \<or> cancel_local a True z = Inr y"
    using assms(4) by (auto simp: finish_turn_def bind_r_Inr split: if_splits)
  have "distinct (map fst ?ds)" "set (map fst ?ds) \<subseteq> set (x_flight x)"
    using assms(3) by (auto simp: batch_ok_def distinct_map)
  then have "exec_inv a z" using settle_all_inv [OF assms(1,2) _ _ z(1)] by simp
  then show ?thesis using z(2) cancel_local_frame exec_inv_frame by metis
qed

lemma exec_system: "dag_checker (ra_is_dag a) \<Longrightarrow> invariant_system (exec_step a) (exec_inv a)"
  by unfold_locales (blast elim: exec_stepE intro: exec_inv_fill finish_turn_inv)

interpretation runs: invariant_system "exec_step (a\<lparr>ra_is_dag := dag_check\<rparr>)" "exec_inv (a\<lparr>ra_is_dag := dag_check\<rparr>)" for a
  by (rule exec_system) (simp add: peeling.dag_checker_axioms)

section \<open>What a planner owes the executor\<close>

text \<open>
  The interface between planning and execution: a planner may raise, but a patch it returns for the
  snapshot of an unfinished run is one the store accepts.
\<close>

locale accepted_planner =
  fixes is_dag :: "edge list \<Rightarrow> bool" and planner :: planner
  assumes checker: "dag_checker is_dag"
    and accepted: "wf_graph c \<Longrightarrow> \<not> c_finished c \<Longrightarrow> planner (snapshot_ck c) e = Inr p \<Longrightarrow>
      check_patch p c = None \<and> acyclic (set (c_edges c) \<union> set (p_connect p))"
begin

definition planner_error :: "py_error \<Rightarrow> bool" where
  "planner_error err = (\<exists>g e. planner g e = Inl err)"

text \<open>Planning on a store where the run is loaded and unfinished fails only when the planner raises.\<close>

lemma plan_event_error:
  assumes "ra_is_dag a = is_dag" and "ra_planner a = planner" and "all_launched a st ids"
    and "is_finished (ra_path a) st (ra_run_id a) = Inr False"
    and "plan_event a (Some e) st = Inl err"
  shows "planner_error err"
proof -
  obtain c where c: "load_run (ra_path a) st (ra_run_id a) = Inr c" and ok: "store_ok (ra_path a) st"
    using assms(3) by (auto simp: all_launched_def)
  have nf: "\<not> c_finished c" using assms(4) c by (simp add: is_finished_def)
  show ?thesis
  proof (cases "planner (snapshot_ck c) e")
    case (Inl err')
    then show ?thesis using assms(2,5) c by (auto simp: plan_event_def snapshot_run_def planner_error_def)
  next
    case (Inr p)
    note acc = accepted [OF store_ok_load [OF ok c] nf Inr]
    have "is_dag (c_edges (grow p c))"
      using acc dag_checker.is_dag_iff [OF checker] by simp
    then have "apply_patch_ck is_dag p (ev_sequence e) c \<noteq> Inl err"
      using acc nf by (auto simp: apply_patch_ck_def)
    then have "apply_patch is_dag (ra_path a) st (ra_run_id a) p (ev_sequence e) \<noteq> Inl err"
      using c by (cases "apply_patch_ck is_dag p (ev_sequence e) c") (auto simp: apply_patch_def)
    then have "plan_event a (Some e) st \<noteq> Inl err"
      using assms(1,2) c Inr
      by (cases "apply_patch is_dag (ra_path a) st (ra_run_id a) p (ev_sequence e)")
        (auto simp: plan_event_def snapshot_run_def)
    then show ?thesis using assms(5) by simp
  qed
qed

lemma fill_slots_total:
  assumes "exec_inv a x"
  shows "\<exists>y. fill_slots a x = Inr y"
proof -
  have inv: "all_launched a (x_store x) (ts_id ` set (x_flight x))" using assms by (simp add: exec_inv_def)
  then obtain c where c: "load_run (ra_path a) (x_store x) (ra_run_id a) = Inr c"
    by (auto simp: all_launched_def)
  then have r: "ready_run (ra_path a) (x_store x) (ra_run_id a) (capacity a x) = Inr (ready_ck c (capacity a x))"
    "is_finished (ra_path a) (x_store x) (ra_run_id a) = Inr (c_finished c)"
    by (simp_all add: ready_run_def is_finished_def)
  obtain st where "mark_running (ra_path a) (x_store x) (ra_run_id a) (ready_ck c (capacity a x)) = Inr st"
    using ready_mark_total [OF inv r(1)] by blast
  with r show ?thesis by (simp add: fill_slots_def)
qed

lemma cancel_local_total:
  assumes "all_launched a (x_store x) (ts_id ` set ts)"
  shows "\<exists>y. fold_r (cancel_one_local a b) ts x = Inr y"
  using assms
proof (induction ts arbitrary: x)
  case (Cons t ts)
  have "node_state_run (ra_path a) (x_store x) (ra_run_id a) (ts_id t) \<in> {Inr Running, Inr Cancelled}"
    by (rule launched_node_state [OF Cons.prems]) simp
  then have "\<exists>y. cancel_one_local a b t x = Inr y \<and> x_store y = x_store x"
    by (auto simp: cancel_one_local_def)
  then obtain y where y: "cancel_one_local a b t x = Inr y" "x_store y = x_store x" by blast
  have "all_launched a (x_store y) (ts_id ` set ts)"
    unfolding y(2) by (rule all_launched_subset [OF Cons.prems]) auto
  from Cons.IH [OF this] y(1) show ?case by simp
qed simp

lemma after_outcome_error:
  assumes "ra_is_dag a = is_dag" and "ra_planner a = planner" and "exec_inv a x"
    and "after_outcome a e x = Inl err"
  shows "planner_error err"
proof -
  have inv: "all_launched a (x_store x) (ts_id ` set (x_flight x))" using assms(3) by (simp add: exec_inv_def)
  then obtain b where b: "is_finished (ra_path a) (x_store x) (ra_run_id a) = Inr b"
    by (auto simp: all_launched_def is_finished_def)
  show ?thesis
  proof (cases "plan_event a (Some e) (x_store x)")
    case (Inl err')
    with assms(4) b have "err' = err" "\<not> b" by (auto simp: after_outcome_def split: if_splits)
    then show ?thesis using plan_event_error [OF assms(1,2) inv] b Inl by simp
  next
    case (Inr st)
    have "all_launched a st (ts_id ` set (x_flight x))"
      using plan_launched [OF _ inv Inr] checker assms(1) by simp
    then obtain y where "cancel_local a False (x\<lparr>x_store := st\<rparr>) = Inr y"
      using cancel_local_total [of a "x\<lparr>x_store := st\<rparr>" "x_flight x" False] by (auto simp: cancel_local_def)
    then show ?thesis using assms(4) b Inr by (auto simp: after_outcome_def split: if_splits)
  qed
qed

lemma settle_error:
  assumes "ra_is_dag a = is_dag" and "ra_planner a = planner" and "exec_inv a x" and "t \<in> set (x_flight x)"
    and "settle a (t, f) x = Inl err"
  shows "planner_error err"
proof -
  let ?fl = "remove1 t (x_flight x)"
  have inv: "distinct (map ts_id (x_flight x))" using assms(3) by (simp add: exec_inv_def)
  note r = ids_remove1 [OF inv assms(4)]
  have all: "all_launched a (x_store x) (insert (ts_id t) (ts_id ` set ?fl))"
    using assms(3) r(1) by (simp add: exec_inv_def)
  obtain b p where f: "f = Completed b p" using assms(5) by (cases f) (auto simp: settle_def)
  have s: "node_state_run (ra_path a) (x_store x) (ra_run_id a) (ts_id t) = Inr Running"
    using launched_node_state [OF all, of "ts_id t"] assms(5) f by (auto simp: settle_def Let_def)
  show ?thesis
  proof (cases p)
    case (Inr d)
    then show ?thesis using running_outcome_total(2) [OF s, of "as_wait d"] assms(5) f s
      by (auto simp: settle_def Let_def)
  next
    case (Inl res)
    obtain e st where o: "record_outcome (ra_path a) (x_store x) (ra_run_id a) (ts_id t) b res = Inr (e, st)"
      using running_outcome_total(1) [OF s] by blast
    let ?y = "x\<lparr>x_flight := ?fl, x_executed := x_executed x @ [ts_id t], x_store := st\<rparr>"
    have "all_launched a st (ts_id ` set ?fl)"
      by (rule outcome_launched [OF _ all r(2) o]) (simp add: assms(1) checker)
    then have "exec_inv a ?y" using assms(3) r by (auto simp: exec_inv_def)
    moreover have "after_outcome a e ?y = Inl err" using assms(5) f s o Inl by (simp add: settle_def Let_def)
    ultimately show ?thesis by (rule after_outcome_error [OF assms(1,2)])
  qed
qed

lemma settle_all_error:
  "ra_is_dag a = is_dag \<Longrightarrow> ra_planner a = planner \<Longrightarrow> exec_inv a x \<Longrightarrow> distinct (map fst ds) \<Longrightarrow>
   set (map fst ds) \<subseteq> set (x_flight x) \<Longrightarrow> settle_all a ds x = Inl err \<Longrightarrow> planner_error err"
proof (induction ds arbitrary: x)
  case (Cons d ds)
  obtain t f where d: "d = (t, f)" by force
  have t: "t \<in> set (x_flight x)" using Cons.prems(5) d by simp
  show ?case
  proof (cases "settle a (t, f) x")
    case (Inl err')
    then show ?thesis using settle_error [OF Cons.prems(1-3) t] Cons.prems(6) d by simp
  next
    case (Inr bz)
    obtain b z where z: "bz = (b, z)" by force
    have chk: "dag_checker (ra_is_dag a)" using checker Cons.prems(1) by simp
    note s = settle_inv [OF chk Cons.prems(3) t Inr [unfolded z]]
    have "\<not> b" using Cons.prems(6) d Inr z by auto
    moreover have "set (map fst ds) \<subseteq> set (x_flight z)" using s Cons.prems(4,5) d by auto
    ultimately show ?thesis using Cons.IH [of z] Cons.prems d Inr z s by simp
  qed
qed simp

lemma finish_turn_error:
  assumes "ra_is_dag a = is_dag" and "ra_planner a = planner" and "exec_inv a x" and "batch_ok a x batch"
    and "finish_turn a batch x = Inl err"
  shows "planner_error err"
proof -
  let ?ds = "sort_key (\<lambda>d. ts_id (fst d)) batch"
  have ds: "distinct (map fst ?ds)" "set (map fst ?ds) \<subseteq> set (x_flight x)"
    using assms(4) by (auto simp: batch_ok_def distinct_map)
  show ?thesis
  proof (cases "settle_all a ?ds x")
    case (Inl err')
    then show ?thesis using settle_all_error [OF assms(1-3) ds] assms(5) by (simp add: finish_turn_def)
  next
    case (Inr bz)
    obtain b z where z: "bz = (b, z)" by force
    have chk: "dag_checker (ra_is_dag a)" using checker assms(1) by simp
    have inv: "all_launched a (x_store z) (ts_id ` set (x_flight z))"
      using settle_all_inv [OF chk assms(3) ds Inr [unfolded z]] by (simp add: exec_inv_def)
    then obtain fin where "is_finished (ra_path a) (x_store z) (ra_run_id a) = Inr fin"
      by (auto simp: all_launched_def is_finished_def)
    moreover obtain z' where "cancel_local a True z = Inr z'"
      using cancel_local_total [OF inv, of True] by (auto simp: cancel_local_def)
    ultimately show ?thesis using assms(5) Inr z by (auto simp: finish_turn_def split: if_splits)
  qed
qed

end

section \<open>Runs from the start\<close>

lemma replay_launched:
  assumes "dag_checker (ra_is_dag a)"
  shows "all_launched a st {} \<Longrightarrow> replay_events a es st = Inr st' \<Longrightarrow> all_launched a st' {}"
proof (induction es arbitrary: st)
  case (Cons e es)
  obtain fin where fin: "is_finished (ra_path a) st (ra_run_id a) = Inr fin"
    using Cons.prems by (auto simp: bind_r_Inr)
  show ?case
  proof (cases fin)
    case True
    with fin Cons.prems show ?thesis by simp
  next
    case False
    with fin Cons.prems obtain st1 where s: "plan_event a (Some e) st = Inr st1" "replay_events a es st1 = Inr st'"
      by (auto simp: bind_r_Inr)
    show ?thesis using Cons.IH [OF plan_launched [OF assms Cons.prems(1) s(1)] s(2)] .
  qed
qed simp

lemma begin_run_inv:
  assumes "dag_checker (ra_is_dag a)" and "(graph_step (ra_is_dag a) (ra_path a))\<^sup>*\<^sup>* empty_store st"
    and "0 \<le> ra_max_workers a" and "begin_run a resume st = Inr x"
  shows "exec_inv a x"
proof -
  have ok: "store_ok (ra_path a) st" using reachable_ok [OF assms(1,2)] .
  obtain st1 where st1: "(if resume then resume_run (ra_path a) st (ra_run_id a)
      else Inr (snd (start_run (ra_path a) st (ra_run_id a) []))) = Inr st1"
    and x: "bind_r (replay_pending a st1) (\<lambda>st2. Inr \<lparr>x_store = st2, x_flight = [], x_executed = [], x_cancelled = []\<rparr>) = Inr x"
    using assms(4) unfolding begin_run_def bind_r_Inr by blast
  have "graph_step (ra_is_dag a) (ra_path a) st st1"
  proof (cases resume)
    case True
    with st1 show ?thesis by (auto intro: gs_resume)
  next
    case False
    with st1 show ?thesis
      by (intro gs_start [of _ st "ra_run_id a" "[]" "fst (start_run (ra_path a) st (ra_run_id a) [])"]) auto
  qed
  then have ok1: "store_ok (ra_path a) st1" using graph_step_store_ok [OF assms(1) ok] by blast
  obtain st2 where st2: "replay_pending a st1 = Inr st2"
    "x = \<lparr>x_store = st2, x_flight = [], x_executed = [], x_cancelled = []\<rparr>"
    using x by (auto simp: bind_r_Inr)
  then obtain es where es: "replay_events a es st1 = Inr st2"
    "\<exists>c. load_run (ra_path a) st1 (ra_run_id a) = Inr c"
    by (auto simp: replay_pending_def pending_planner_events_def bind_r_Inr)
  have "all_launched a st1 {}" using ok1 es(2) by (simp add: all_launched_def)
  then show ?thesis using replay_launched [OF assms(1) _ es(1)] assms(3) st2(2) by (simp add: exec_inv_def)
qed

lemma exec_reachable_inv:
  assumes "dag_checker (ra_is_dag a)" and "(graph_step (ra_is_dag a) (ra_path a))\<^sup>*\<^sup>* empty_store st"
    and "0 \<le> ra_max_workers a" and "begin_run a resume st = Inr x" and "(exec_step a)\<^sup>*\<^sup>* x y"
  shows "exec_inv a y"
  using invariant_system.steps_inv [OF exec_system [OF assms(1)] assms(5)] begin_run_inv [OF assms(1-4)] by blast


definition demo_planner :: planner where
  "demo_planner g e = Inr (if ev_kind e = ''run_started'' then demo_patch
     else empty_patch\<lparr>p_finish := sn_nodes g = []\<rparr>)"

definition demo_args :: run_args where
  "demo_args = \<lparr>ra_is_dag = dag_check, ra_path = id, ra_planner = demo_planner, ra_skills = [''echo''],
     ra_max_workers = 2, ra_run_id = ''r'', ra_max_completed = None\<rparr>"




text \<open>A run stops waiting for work only when the graph is finished, the requested number of tasks
  is completed, or no task of the graph can be launched.\<close>

lemma executor_stops_only_when_idle:
  assumes "dag_checker (ra_is_dag a)" and "(graph_step (ra_is_dag a) (ra_path a))\<^sup>*\<^sup>* empty_store st"
    and "1 \<le> ra_max_workers a" and "begin_run a resume st = Inr x" and "(exec_step a)\<^sup>*\<^sup>* x y"
    and "fill_slots a y = Inr z" and "x_flight z = []"
  shows "is_finished (ra_path a) (x_store z) (ra_run_id a) = Inr True \<or>
    (\<exists>m. ra_max_completed a = Some m \<and> m \<le> int (length (x_executed z))) \<or>
    (\<exists>c. load_run (ra_path a) (x_store z) (ra_run_id a) = Inr c \<and>
      (\<forall>nid. state_of c nid = Some Pending \<longrightarrow>
         (\<exists>p. (p, nid) \<in> set (c_edges c) \<and> state_of c p \<noteq> Some Succeeded)))"
proof -
  have inv: "exec_inv a y" using exec_reachable_inv [OF assms(1,2) _ assms(4,5)] assms(3) by simp
  obtain fin where fin: "is_finished (ra_path a) (x_store y) (ra_run_id a) = Inr fin"
    using assms(6) by (auto simp: fill_slots_def bind_r_Inr)
  show ?thesis
  proof (cases fin)
    case True
    with assms(6) fin show ?thesis by (simp add: fill_slots_def)
  next
    case nf: False
    show ?thesis
    proof (cases "capacity a y > 0")
      case False
      with assms(6,7) fin nf have "z = y" "x_flight y = []" by (simp_all add: fill_slots_def)
      with False assms(3) show ?thesis by (auto simp: capacity_def Let_def split: option.splits)
    next
      case True
      with assms(6) fin nf obtain ts where ts: "ready_run (ra_path a) (x_store y) (ra_run_id a) (capacity a y) = Inr ts"
        by (auto simp: fill_slots_def bind_r_Inr)
      then obtain c where c: "load_run (ra_path a) (x_store y) (ra_run_id a) = Inr c"
        "ts = take (nat (capacity a y)) (runnable_specs c)"
        using True by (auto simp: ready_run_def bind_r_Inr ready_ck_take)
      have "ts = []" "z = y"
        using assms(6,7) fin nf True ts by (auto simp: fill_slots_def bind_r_Inr split: if_splits)
      with c(2) True have "runnable_specs c = []" by simp
      then have "\<not> is_ready c nid" for nid using ready_complete [of c nid] by auto
      then have "\<forall>nid. state_of c nid = Some Pending \<longrightarrow>
         (\<exists>p. (p, nid) \<in> set (c_edges c) \<and> state_of c p \<noteq> Some Succeeded)"
        unfolding is_ready_def by (metis mem_preds)
      with c(1) \<open>z = y\<close> show ?thesis by blast
    qed
  qed
qed

lemma executor_stops_only_when_idle_witness:
  "\<exists>z. fill_slots (demo_args\<lparr>ra_max_completed := Some 0\<rparr>)
     (projr (begin_run (demo_args\<lparr>ra_max_completed := Some 0\<rparr>) False empty_store)) = Inr z \<and>
   ra_max_completed (demo_args\<lparr>ra_max_completed := Some 0\<rparr>) = Some 0 \<and> x_executed z = []"
proof -
  let ?a = "demo_args\<lparr>ra_max_completed := Some 0\<rparr>"
  let ?x = "projr (begin_run ?a False empty_store)"
  have b: "begin_run ?a False empty_store = Inr ?x" by code_simp
  have f: "fill_slots ?a ?x = Inr ?x" "x_flight ?x = []" "x_executed ?x = []"
    "is_finished id (x_store ?x) ''r'' = Inr False" by code_simp+
  have "is_finished (ra_path ?a) (x_store ?x) (ra_run_id ?a) = Inr True \<or>
    (\<exists>m. ra_max_completed ?a = Some m \<and> m \<le> int (length (x_executed ?x))) \<or>
    (\<exists>c. load_run (ra_path ?a) (x_store ?x) (ra_run_id ?a) = Inr c \<and>
      (\<forall>nid. state_of c nid = Some Pending \<longrightarrow>
         (\<exists>p. (p, nid) \<in> set (c_edges c) \<and> state_of c p \<noteq> Some Succeeded)))"
    by (rule executor_stops_only_when_idle [OF _ _ _ b _ f(1,2)])
      (simp_all add: demo_args_def peeling.dag_checker_axioms)
  with f show ?thesis by auto
qed

end
