(* ===== verification/Econ_Policy.thy ===== *)
theory Econ_Policy
  imports Econ_Budget Graph_Executor_Props
begin

text \<open>
  \<open>BudgetPolicy.decide\<close> and \<open>BudgetAwarePlanner\<close> of \<open>economics/policy.py\<close>, with \<open>declare_tiers\<close>
  of \<open>tiers.py\<close>, and \<open>ceiling_for\<close> of \<open>config.py\<close>.
\<close>

record thresholds =
  th_downgrade_at :: rat
  th_refuse_at :: rat
  th_headroom :: rat
  th_calls_per_run :: int
  th_calls_per_node :: int
  th_reserve :: rat
  th_chars_per_token :: rat
  th_safety :: rat

record policy =
  po_ladder :: ladder
  po_pricing :: pricing
  po_thresholds :: thresholds

section \<open>Estimation\<close>

definition estimate_input_tokens :: "policy \<Rightarrow> string list \<Rightarrow> int" where
  "estimate_input_tokens po texts =
     (let characters = sum_list (map length texts);
          per_token = max (th_chars_per_token (po_thresholds po)) (1 / 10)
      in floor (of_nat characters / per_token * max (th_safety (po_thresholds po)) 1) + 1)"

definition project :: "policy \<Rightarrow> tier \<Rightarrow> int option \<Rightarrow> int option \<Rightarrow> rat result" where
  "project po t input_tokens output_tokens =
     bind_r (case output_tokens of None \<Rightarrow> max_output_tokens t | Some n \<Rightarrow> Inr n) (\<lambda>out.
       Inr (cost (po_pricing po) (tier_model t)
         (case input_tokens of None \<Rightarrow> t_projected_input t | Some n \<Rightarrow> n) out 0 0))"

section \<open>The decision\<close>

text \<open>The walk over the candidate rungs: the first that fits, with its cost.\<close>

fun first_fit ::
  "policy \<Rightarrow> budget \<Rightarrow> string \<Rightarrow> rat \<Rightarrow> int option \<Rightarrow> int option \<Rightarrow> tier list \<Rightarrow> (tier \<times> rat) option result" where
  "first_fit po b nid headroom it ot [] = Inr None"
| "first_fit po b nid headroom it ot (t # ts) =
     bind_r (project po t it ot) (\<lambda>c.
     bind_r (can_admit b nid c headroom) (\<lambda>fits.
       if fits then Inr (Some (t, c)) else first_fit po b nid headroom it ot ts))"

definition candidates :: "policy \<Rightarrow> budget \<Rightarrow> tier \<Rightarrow> tier list" where
  "candidates po b requested =
     (let l = po_ladder po;
          under_pressure = pressure b \<ge> th_downgrade_at (po_thresholds po);
          start = (if under_pressure
                   then (case downgrade l requested of None \<Rightarrow> cheapest l | Some t \<Rightarrow> t)
                   else requested)
      in start # cheaper_than l start)"

definition decide :: "policy \<Rightarrow> string \<Rightarrow> tier \<Rightarrow> budget \<Rightarrow> int option \<Rightarrow> int option \<Rightarrow> decision result" where
  "decide po nid requested b it ot =
     (let th = po_thresholds po; headroom = b_total b * th_headroom th; low = cheapest (po_ladder po) in
      bind_r (project po requested it ot) (\<lambda>projected.
        let make = (\<lambda>act t c why steps. \<lparr>d_action = act, d_node_id = nid, d_requested_tier = t_name requested,
              d_tier = t, d_projected = c, d_allowance = allowance b nid, d_remaining = remaining b,
              d_pressure = pressure b, d_reason = why, d_ladder_steps = steps\<rparr>)
        in if th_calls_per_run th \<noteq> 0 \<and> int (calls b) \<ge> th_calls_per_run th
           then Inr (make Refuse None projected (Run_call_ceiling (calls b)) 0)
           else if th_calls_per_node th \<noteq> 0 \<and> int (node_calls b nid) \<ge> th_calls_per_node th
           then Inr (make Refuse None projected (Node_call_ceiling (node_calls b nid)) 0)
           else if pressure b \<ge> th_refuse_at th
           then Inr (make Refuse None projected (Past_refuse_at (pressure b)) 0)
           else bind_r (first_fit po b nid headroom it ot (candidates po b requested)) (\<lambda>found.
             case found of
               Some (t, c) \<Rightarrow>
                 (let steps = int (t_rank requested) - int (t_rank t) in
                  if steps \<le> 0 then Inr (make Proceed (Some t) c Requested_fits 0)
                  else Inr (make Downgrade (Some t) c
                    (if pressure b \<ge> th_downgrade_at th then Past_downgrade_at (pressure b)
                     else Slice_too_small (t_name requested) (allowance b nid)) steps))
             | None \<Rightarrow>
                 bind_r (project po low it ot) (\<lambda>c.
                   if c \<le> remaining b - headroom
                   then Inr (make Branch (Some low) c
                     (Branch_to_cheapest (allowance b nid) (remaining b) (t_name low))
                     (int (t_rank requested) - int (t_rank low)))
                   else Inr (make Refuse None c
                     (Nothing_fits (t_name low) c (remaining b) headroom) 0)))))"

section \<open>Tiers and allocation around a planner\<close>

definition declare_tier :: "ladder \<Rightarrow> task_spec \<Rightarrow> task_spec" where
  "declare_tier l t =
     (if truthy (jget (ts_metadata t) tier_key) then t
      else let agent = jget (ts_metadata t) ''agent'';
               role = (if truthy agent then (case agent of JStr r \<Rightarrow> Some r | _ \<Rightarrow> None) else Some (ts_skill t))
           in t\<lparr>ts_metadata := dput tier_key (JStr (t_name (for_role l role))) (ts_metadata t)\<rparr>)"

definition declare_tiers :: "graph_patch \<Rightarrow> ladder \<Rightarrow> graph_patch" where
  "declare_tiers p l = (if p_add p = [] then p else p\<lparr>p_add := map (declare_tier l) (p_add p)\<rparr>)"

definition frontier :: "snapshot \<Rightarrow> graph_patch \<Rightarrow> string list" where
  "frontier g p =
     (if p_finish p then []
      else dedup (map fst (filter (\<lambda>(nid, n). n_state n \<in> {Pending, Waiting, Running} \<and>
                                  nid \<notin> set (p_cancel p)) (sn_nodes g))
                  @ map ts_id (p_add p)))"

record allocation_entry =
  al_trigger :: nat
  al_frontier :: "string list"
  al_per_node :: "(string \<times> rat) list"
  al_remaining :: rat
  al_tiers :: "(string \<times> json) list"

text \<open>\<open>plan\<close>: the patch, the re-allocated budget and the new entry of \<open>allocations\<close>.\<close>

definition budget_aware_plan ::
  "planner \<Rightarrow> ladder \<Rightarrow> rat \<Rightarrow> budget \<Rightarrow> snapshot \<Rightarrow> event \<Rightarrow> (graph_patch \<times> budget \<times> allocation_entry) result" where
  "budget_aware_plan inner l fraction b g e =
     bind_r (inner g e) (\<lambda>p0.
       let p = declare_tiers p0 l; fr = frontier g p; b' = allocate fr (Some fraction) b
       in Inr (p, b', \<lparr>al_trigger = ev_sequence e, al_frontier = fr, al_per_node = b_reservations b',
            al_remaining = remaining b',
            al_tiers = map (\<lambda>t. (ts_id t, jget (ts_metadata t) tier_key)) (p_add p)\<rparr>))"

definition ceiling_for :: "rat \<Rightarrow> (string \<times> rat) list \<Rightarrow> string \<Rightarrow> rat option \<Rightarrow> rat" where
  "ceiling_for default_budget limits owner requested =
     (let amount = (case requested of None \<Rightarrow> default_budget | Some r \<Rightarrow> r)
      in case dget limits owner of Some limit \<Rightarrow> min amount limit | None \<Rightarrow> amount)"

section \<open>What decide answers\<close>

definition policy_ok :: "policy \<Rightarrow> bool" where
  "policy_ok po = (ladder_ok (po_ladder po) \<and> pricing_ok (po_pricing po) \<and>
     list_all (\<lambda>(n, t). case jget (t_request t) ''max_tokens'' of JStr s \<Rightarrow> s = [] | JList x \<Rightarrow> x = [] | JObj d \<Rightarrow> d = [] | _ \<Rightarrow> True)
       (l_tiers (po_ladder po)))"

lemma max_output_total:
  assumes "policy_ok po" and "rung (po_ladder po) t"
  shows "\<exists>n. max_output_tokens t = Inr n"
proof -
  let ?l = "po_ladder po"
  have i: "t_rank t < length (l_order ?l)" "t = tier_at ?l (l_order ?l ! t_rank t)"
    using assms(2) by (simp_all add: rung_def)
  obtain t' where "dget (l_tiers ?l) (l_order ?l ! t_rank t) = Some t'"
    using assms(1) i(1) by (auto simp: policy_ok_def ladder_ok_def)
  then have "(l_order ?l ! t_rank t, t) \<in> set (l_tiers ?l)"
    using i(2) by (auto simp: tier_at_def dget_or_def dest: map_of_SomeD)
  then have "case jget (t_request t) ''max_tokens'' of JStr s \<Rightarrow> s = [] | JList x \<Rightarrow> x = [] | JObj d \<Rightarrow> d = [] | _ \<Rightarrow> True"
    using assms(1) by (auto simp: policy_ok_def list_all_iff)
  then show ?thesis
    by (cases "jget (t_request t) ''max_tokens''") (auto simp: max_output_tokens_def Let_def)
qed

lemma project_total: "policy_ok po \<Longrightarrow> rung (po_ladder po) t \<Longrightarrow> \<exists>c. project po t it ot = Inr c \<and> 0 \<le> c"
  using max_output_total [of po t] cost_nonneg [of "po_pricing po"]
  by (cases ot) (auto simp: project_def policy_ok_def)

definition fits :: "policy \<Rightarrow> budget \<Rightarrow> string \<Rightarrow> rat \<Rightarrow> int option \<Rightarrow> int option \<Rightarrow> tier \<Rightarrow> bool" where
  "fits po b nid headroom it ot t =
     (case project po t it ot of
        Inr c \<Rightarrow> c \<le> remaining b - headroom \<and> c \<le> allowance b nid | Inl e \<Rightarrow> False)"

lemma first_fit_find:
  assumes "policy_ok po" and "\<forall>t \<in> set ts. rung (po_ladder po) t"
  shows "first_fit po b nid h it ot ts =
    Inr (map_option (\<lambda>t. (t, projr (project po t it ot))) (find (fits po b nid h it ot) ts))"
  using assms(2)
proof (induction ts)
  case (Cons t ts)
  obtain c where c: "project po t it ot = Inr c" "0 \<le> c"
    using project_total [OF assms(1)] Cons.prems by (metis list.set_intros(1))
  then have "can_admit b nid c h = Inr (fits po b nid h it ot t)"
    by (simp add: can_admit_def fits_def)
  with c Cons show ?case by simp
qed simp

lemma candidate_rungs:
  assumes "policy_ok po" and "rung (po_ladder po) requested"
  shows "\<forall>t \<in> set (candidates po b requested). rung (po_ladder po) t"
    and "\<forall>t \<in> set (candidates po b requested). t_rank t \<le> t_rank requested"
    and "sorted (rev (map t_rank (candidates po b requested)))"
    and "\<forall>t. rung (po_ladder po) t \<and> t_rank t \<le> t_rank (hd (candidates po b requested))
       \<longrightarrow> t \<in> set (candidates po b requested)"
proof -
  let ?l = "po_ladder po"
  have l: "ladder_ok ?l" using assms(1) by (simp add: policy_ok_def)
  define start where "start = hd (candidates po b requested)"
  have c: "candidates po b requested = start # cheaper_than ?l start"
    by (simp add: start_def candidates_def Let_def)
  have s: "rung ?l start \<and> t_rank start \<le> t_rank requested"
    using assms(2) rung_cheapest [OF l] downgrade_rank [OF l assms(2)]
    by (auto simp: start_def candidates_def Let_def split: option.split dest!: Suc_leD intro: less_imp_le)
  show "\<forall>t \<in> set (candidates po b requested). rung ?l t"
    and "\<forall>t \<in> set (candidates po b requested). t_rank t \<le> t_rank requested"
    using s cheaper_than_rungs [OF l, of start] by (auto simp: c dest: less_imp_le intro: order_trans less_imp_le)
  show "sorted (rev (map t_rank (candidates po b requested)))"
    using cheaper_than_ranks [OF l, of start] s by (auto simp: c sorted_append)
  show "\<forall>t. rung ?l t \<and> t_rank t \<le> t_rank (hd (candidates po b requested))
       \<longrightarrow> t \<in> set (candidates po b requested)"
  proof (intro allI impI)
    fix t assume t: "rung ?l t \<and> t_rank t \<le> t_rank (hd (candidates po b requested))"
    then have "t_rank t \<le> t_rank start" by (simp add: start_def)
    show "t \<in> set (candidates po b requested)"
    proof (cases "t_rank t = t_rank start")
      case True
      with t s show ?thesis by (simp add: c rung_def)
    next
      case False
      with \<open>t_rank t \<le> t_rank start\<close> have "t_rank t < t_rank start" by simp
      then have "l_order ?l ! t_rank t \<in> set (take (t_rank start) (l_order ?l))"
        using t by (auto simp: rung_def in_set_conv_nth intro!: exI [of _ "t_rank t"])
      then show ?thesis using t by (auto simp: c cheaper_than_def rung_def)
    qed
  qed
qed

text \<open>The one decision, in closed form over the rungs that fit.\<close>

lemma decide_closed:
  assumes "policy_ok po" and "rung (po_ladder po) requested"
    and h: "h = b_total b * th_headroom (po_thresholds po)"
  shows "\<exists>d. decide po nid requested b it ot = Inr d \<and> d_node_id d = nid \<and>
    d_requested_tier d = t_name requested \<and> d_remaining d = remaining b \<and> d_allowance d = allowance b nid \<and>
    (let th = po_thresholds po; low = cheapest (po_ladder po);
         stopped = (th_calls_per_run th \<noteq> 0 \<and> int (calls b) \<ge> th_calls_per_run th) \<or>
           (th_calls_per_node th \<noteq> 0 \<and> int (node_calls b nid) \<ge> th_calls_per_node th) \<or>
           pressure b \<ge> th_refuse_at th
     in if stopped then d_action d = Refuse \<and> d_tier d = None
        else case find (fits po b nid h it ot) (candidates po b requested) of
            Some t \<Rightarrow> d_tier d = Some t \<and> project po t it ot = Inr (d_projected d) \<and>
              d_action d = (if t_rank t < t_rank requested then Downgrade else Proceed) \<and>
              d_ladder_steps d = int (t_rank requested) - int (t_rank t)
          | None \<Rightarrow> project po low it ot = Inr (d_projected d) \<and>
              (if d_projected d \<le> remaining b - h then d_action d = Branch \<and> d_tier d = Some low
               else d_action d = Refuse \<and> d_tier d = None))"
proof -
  note cand = candidate_rungs [OF assms(1,2), of b]
  obtain c where c: "project po requested it ot = Inr c" using project_total [OF assms(1,2)] by blast
  have low: "rung (po_ladder po) (cheapest (po_ladder po))"
    using assms(1) rung_cheapest by (simp add: policy_ok_def)
  obtain k where k: "project po (cheapest (po_ladder po)) it ot = Inr k"
    using project_total [OF assms(1) low] by blast
  show ?thesis
  proof (cases "find (fits po b nid h it ot) (candidates po b requested)")
    case None
    then show ?thesis
      by (simp add: decide_def Let_def c k first_fit_find [OF assms(1) cand(1)] h [symmetric])
  next
    case (Some t)
    then have t: "t \<in> set (candidates po b requested)" "fits po b nid h it ot t"
      by (auto simp: find_Some_iff)
    then have "t_rank t \<le> t_rank requested" using cand(2) by blast
    moreover obtain p where "project po t it ot = Inr p" using t(2) by (auto simp: fits_def split: sum.splits)
    ultimately show ?thesis using Some
      by (simp add: decide_def Let_def c first_fit_find [OF assms(1) cand(1)] h [symmetric])
  qed
qed

end
