(* ===== verification/Econ_Controller.thy ===== *)
theory Econ_Controller
  imports Econ_Policy
begin

text \<open>
  \<open>BudgetedGateway\<close> of \<open>economics/controller.py\<close>. A call is two steps, because \<open>complete\<close> awaits
  the transport between admission and charge: \<open>admit_call\<close> decides and journals, \<open>settle_call\<close>
  charges what the response reports. \<open>complete\<close> is the two in a row, for a caller that is alone.
\<close>

record call_site =
  cs_node_id :: string
  cs_role :: string
  cs_tier :: "string option"

definition unattributed :: string where
  "unattributed = ''unattributed''"

record gateway =
  gw_budget :: budget
  gw_decisions :: "decision list"
  gw_flight :: "(call_site \<times> decision) list"

definition decide_site :: "policy \<Rightarrow> call_site \<Rightarrow> int \<Rightarrow> budget \<Rightarrow> (decision \<times> budget) result" where
  "decide_site po site it b =
     (let requested = (case cs_tier site of
            Some (c # cs) \<Rightarrow> named_tier (po_ladder po) (Some (c # cs))
          | _ \<Rightarrow> for_role (po_ladder po) (Some (cs_role site)))
      in bind_r (decide po (cs_node_id site) requested b (Some it) None) (\<lambda>d.
           if d_action d \<noteq> Branch then Inr (d, b)
           else let b' = release (cs_node_id site) b
                in bind_r (decide po (cs_node_id site) requested b' (Some it) None) (\<lambda>rebased.
                     if d_action rebased = Refuse then Inr (rebased, b')
                     else Inr (rebased\<lparr>d_action := Branch, d_reason := d_reason d\<rparr>, b'))))"

text \<open>The first half of \<open>complete\<close>: a refused call leaves its journal entry and goes no further.\<close>

definition admit_call :: "policy \<Rightarrow> call_site option \<Rightarrow> string list \<Rightarrow> gateway \<Rightarrow> (decision \<times> gateway) result" where
  "admit_call po ctx texts gw =
     (let site = (case ctx of Some s \<Rightarrow> s
        | None \<Rightarrow> \<lparr>cs_node_id = unattributed, cs_role = unattributed, cs_tier = None\<rparr>)
      in bind_r (decide_site po site (estimate_input_tokens po texts) (gw_budget gw)) (\<lambda>(d, b).
           let gw1 = gw\<lparr>gw_budget := b, gw_decisions := gw_decisions gw @ [d]\<rparr>
           in if \<not> admitted d \<or> d_tier d = None
              then Inr (d, gw1\<lparr>gw_budget := record_refusal (cs_node_id site) (d_reason d) (Some d) b\<rparr>)
              else Inr (d, gw1\<lparr>gw_flight := gw_flight gw1 @ [(site, d)]\<rparr>)))"

definition billed :: "decision \<Rightarrow> usage \<Rightarrow> usage" where
  "billed d u = (case u_model u of
       Some (c # cs) \<Rightarrow> u
     | _ \<Rightarrow> u\<lparr>u_model := (case d_tier d of Some t \<Rightarrow> tier_model t | None \<Rightarrow> None)\<rparr>)"

definition settle_call :: "policy \<Rightarrow> call_site \<times> decision \<Rightarrow> usage \<Rightarrow> gateway \<Rightarrow> charge \<times> gateway" where
  "settle_call po call u gw =
     (let (site, d) = call;
          (ch, b) = charge_call (po_pricing po) (cs_node_id site) (cs_role site)
            (case d_tier d of Some t \<Rightarrow> t_name t | None \<Rightarrow> []) (billed d u) (d_projected d)
            (d_action d) (Some (d_requested_tier d)) (gw_budget gw)
      in (ch, gw\<lparr>gw_budget := b, gw_flight := remove1 call (gw_flight gw)\<rparr>))"

definition drop_call :: "call_site \<times> decision \<Rightarrow> gateway \<Rightarrow> gateway" where
  "drop_call call gw = gw\<lparr>gw_flight := remove1 call (gw_flight gw)\<rparr>"

record reply =
  ry_text :: string
  ry_provider :: "string option"
  ry_model :: "string option"
  ry_tier :: string
  ry_cost :: rat
  ry_input :: int
  ry_output :: int
  ry_decision :: action

text \<open>\<open>complete\<close> with no other call in between; the transport may raise.\<close>

definition complete :: "policy \<Rightarrow> call_site option \<Rightarrow> string list \<Rightarrow> (string \<times> usage) result \<Rightarrow> gateway \<Rightarrow>
   reply result \<times> gateway" where
  "complete po ctx texts response gw =
     (case admit_call po ctx texts gw of
        Inl e \<Rightarrow> (Inl e, gw)
      | Inr (d, gw1) \<Rightarrow>
          if \<not> admitted d \<or> d_tier d = None then (Inl BudgetRefused, gw1)
          else let call = last (gw_flight gw1)
               in case response of
                    Inl e \<Rightarrow> (Inl e, drop_call call gw1)
                  | Inr (txt, u) \<Rightarrow>
                      let (ch, gw2) = settle_call po call u gw1
                      in (Inr \<lparr>ry_text = txt, ry_provider = u_provider u, ry_model = u_model u,
                            ry_tier = ch_tier ch, ry_cost = ch_cost ch, ry_input = ch_input ch,
                            ry_output = ch_output ch, ry_decision = d_action d\<rparr>, gw2))"

section \<open>Counting transport\<close>

record metered =
  mt_calls :: nat
  mt_failures :: nat
  mt_requests :: "obj list"

definition metered_chat :: "obj option \<Rightarrow> 'r result \<Rightarrow> metered \<Rightarrow> 'r result \<times> metered" where
  "metered_chat request response m =
     (let m1 = m\<lparr>mt_requests := mt_requests m @ [case request of None \<Rightarrow> [] | Some r \<Rightarrow> r]\<rparr>
      in case response of
           Inl e \<Rightarrow> (Inl e, m1\<lparr>mt_failures := mt_failures m1 + 1\<rparr>)
         | Inr r \<Rightarrow> (Inr r, m1\<lparr>mt_calls := mt_calls m1 + 1\<rparr>))"

definition attempts :: "metered \<Rightarrow> nat" where
  "attempts m = mt_calls m + mt_failures m"

section \<open>Interleaved calls\<close>

text \<open>
  What may happen to a gateway that at most \<open>w\<close> tasks use at once. A settled call costs at most its
  projection: the provider honours \<open>max_tokens\<close> and the input estimate bounds the prompt.
\<close>

inductive gw_step :: "policy \<Rightarrow> nat \<Rightarrow> gateway \<Rightarrow> gateway \<Rightarrow> bool" for po w where
  gw_admit: "length (gw_flight gw) < w \<Longrightarrow> admit_call po ctx texts gw = Inr (d, gw') \<Longrightarrow> gw_step po w gw gw'"
| gw_settle: "(site, d) \<in> set (gw_flight gw) \<Longrightarrow> usage_cost (po_pricing po) (billed d u) \<le> d_projected d \<Longrightarrow>
    gw_step po w gw (snd (settle_call po (site, d) u gw))"
| gw_fail: "call \<in> set (gw_flight gw) \<Longrightarrow> gw_step po w gw (drop_call call gw)"
| gw_allocate: "gw_step po w gw (gw\<lparr>gw_budget := allocate fr f (gw_budget gw)\<rparr>)"

lemma decide_admits:
  assumes "policy_ok po" and "rung (po_ladder po) requested"
    and "decide po nid requested b it ot = Inr d" and "admitted d"
  shows "0 \<le> d_projected d \<and> d_projected d \<le> remaining b - b_total b * th_headroom (po_thresholds po) \<and>
    (\<exists>t. d_tier d = Some t \<and> rung (po_ladder po) t \<and> project po t it ot = Inr (d_projected d))"
proof -
  let ?h = "b_total b * th_headroom (po_thresholds po)"
  have low: "rung (po_ladder po) (cheapest (po_ladder po))"
    using assms(1) rung_cheapest by (simp add: policy_ok_def)
  note closed = decide_closed [OF assms(1,2) refl, of nid b it ot, unfolded assms(3)]
  note cand = candidate_rungs(1) [OF assms(1,2), of b]
  show ?thesis
  proof (cases "find (fits po b nid ?h it ot) (candidates po b requested)")
    case (Some t)
    then have t: "fits po b nid ?h it ot t" "t \<in> set (candidates po b requested)"
      by (auto simp: find_Some_iff)
    from closed Some assms(4) have d: "d_tier d = Some t" "project po t it ot = Inr (d_projected d)"
      by (auto simp: Let_def admitted_def split: if_splits)
    moreover have "rung (po_ladder po) t" using cand t(2) by blast
    moreover have "0 \<le> d_projected d" using project_total [OF assms(1) \<open>rung _ t\<close>, of it ot] d(2) by auto
    ultimately show ?thesis using t(1) by (auto simp: fits_def)
  next
    case None
    from closed None assms(4) have d: "d_tier d = Some (cheapest (po_ladder po))"
      "project po (cheapest (po_ladder po)) it ot = Inr (d_projected d)" "d_projected d \<le> remaining b - ?h"
      by (auto simp: Let_def admitted_def split: if_splits)
    then show ?thesis using project_total [OF assms(1) low, of it ot] low by auto
  qed
qed

lemma release_frame [simp]:
  "remaining (release n b) = remaining b" "b_total (release n b) = b_total b" "b_spent (release n b) = b_spent b"
  by (simp_all add: release_def remaining_def)

lemma record_refusal_frame [simp]:
  "b_total (record_refusal n r d b) = b_total b" "b_spent (record_refusal n r d b) = b_spent b"
  by (simp_all add: record_refusal_def)

lemma site_rung:
  assumes "policy_ok po"
  shows "rung (po_ladder po) (case cs_tier site of
            Some (c # cs) \<Rightarrow> named_tier (po_ladder po) (Some (c # cs))
          | _ \<Rightarrow> for_role (po_ladder po) (Some (cs_role site)))"
  using assms rung_named rung_for_role by (auto simp: policy_ok_def split: option.split list.split)

lemma decide_site_admits:
  assumes "policy_ok po" and "decide_site po site it b = Inr (d, b')" and "admitted d"
  shows "0 \<le> d_projected d \<and> d_projected d \<le> remaining b - b_total b * th_headroom (po_thresholds po)"
    and "\<exists>t. d_tier d = Some t \<and> rung (po_ladder po) t"
proof -
  let ?req = "case cs_tier site of
            Some (c # cs) \<Rightarrow> named_tier (po_ladder po) (Some (c # cs))
          | _ \<Rightarrow> for_role (po_ladder po) (Some (cs_role site))"
  note r = site_rung [OF assms(1), of site]
  obtain d0 where d0: "decide po (cs_node_id site) ?req b (Some it) None = Inr d0"
    and rest: "(if d_action d0 \<noteq> Branch then Inr (d0, b)
           else let b' = release (cs_node_id site) b
                in bind_r (decide po (cs_node_id site) ?req b' (Some it) None) (\<lambda>rebased.
                     if d_action rebased = Refuse then Inr (rebased, b')
                     else Inr (rebased\<lparr>d_action := Branch, d_reason := d_reason d0\<rparr>, b'))) = Inr (d, b')"
    using assms(2) unfolding decide_site_def Let_def bind_r_Inr by auto
  have "0 \<le> d_projected d \<and> d_projected d \<le> remaining b - b_total b * th_headroom (po_thresholds po) \<and>
    (\<exists>t. d_tier d = Some t \<and> rung (po_ladder po) t)"
  proof (cases "d_action d0 = Branch")
    case False
    with rest have "d0 = d" by simp
    then show ?thesis using decide_admits [OF assms(1) r d0] assms(3) by auto
  next
    case True
    then obtain d1 where d1: "decide po (cs_node_id site) ?req (release (cs_node_id site) b) (Some it) None = Inr d1"
      "d = d1 \<and> \<not> admitted d1 \<or> d = d1\<lparr>d_action := Branch, d_reason := d_reason d0\<rparr> \<and> admitted d1"
      using rest by (auto simp: Let_def bind_r_Inr admitted_def split: if_splits)
    with assms(3) have "admitted d1" "d = d1\<lparr>d_action := Branch, d_reason := d_reason d0\<rparr>" by auto
    then show ?thesis using decide_admits [OF assms(1) r d1(1)] by auto
  qed
  then show "0 \<le> d_projected d \<and> d_projected d \<le> remaining b - b_total b * th_headroom (po_thresholds po)"
    and "\<exists>t. d_tier d = Some t \<and> rung (po_ladder po) t" by auto
qed

lemma decide_site_budget:
  "decide_site po site it b = Inr (d, b') \<Longrightarrow> b' = b \<or> b' = release (cs_node_id site) b"
  unfolding decide_site_def Let_def bind_r_Inr
  by (auto simp: bind_r_Inr split: if_splits)

definition gw_ok :: "policy \<Rightarrow> nat \<Rightarrow> gateway \<Rightarrow> bool" where
  "gw_ok po w gw =
     (let b = gw_budget gw in ledger_ok b \<and> length (gw_flight gw) \<le> w \<and>
      (\<forall>(s, d) \<in> set (gw_flight gw). 0 \<le> d_projected d \<and> d_projected d \<le> b_total b) \<and>
      b_spent b + sum_list (map (\<lambda>(s, d). d_projected d) (gw_flight gw)) \<le> of_nat w * b_total b)"

text \<open>The admission cases, for the invariant and for the budget alone.\<close>

lemma admit_call_cases:
  assumes "admit_call po ctx texts gw = Inr (d, gw')"
  obtains (refused) site b' why where "b' = gw_budget gw \<or> b' = release site (gw_budget gw)"
      "\<not> admitted d \<or> d_tier d = None"
      "gw' = gw\<lparr>gw_budget := record_refusal site why (Some d) b', gw_decisions := gw_decisions gw @ [d]\<rparr>"
  | (taken) site b' it where "b' = gw_budget gw \<or> b' = release (cs_node_id site) (gw_budget gw)"
      "decide_site po site it (gw_budget gw) = Inr (d, b')" "admitted d" "d_tier d \<noteq> None"
      "gw' = gw\<lparr>gw_budget := b', gw_decisions := gw_decisions gw @ [d], gw_flight := gw_flight gw @ [(site, d)]\<rparr>"
proof -
  define site where "site = (case ctx of Some s \<Rightarrow> s
        | None \<Rightarrow> \<lparr>cs_node_id = unattributed, cs_role = unattributed, cs_tier = None\<rparr>)"
  obtain b' where b: "decide_site po site (estimate_input_tokens po texts) (gw_budget gw) = Inr (d, b')"
    and rest: "(if \<not> admitted d \<or> d_tier d = None
       then gw' = gw\<lparr>gw_budget := record_refusal (cs_node_id site) (d_reason d) (Some d) b', gw_decisions := gw_decisions gw @ [d]\<rparr>
       else gw' = gw\<lparr>gw_budget := b', gw_decisions := gw_decisions gw @ [d], gw_flight := gw_flight gw @ [(site, d)]\<rparr>)"
    using assms unfolding admit_call_def Let_def site_def [symmetric] bind_r_Inr
    by (auto split: if_splits)
  note bud = decide_site_budget [OF b]
  show thesis
  proof (cases "\<not> admitted d \<or> d_tier d = None")
    case True
    with bud rest show thesis using refused [of b' "cs_node_id site"] by simp
  next
    case False
    with bud rest b show thesis using taken [of b' site] by simp
  qed
qed

lemma gw_ok_step:
  assumes "policy_ok po" and "0 \<le> th_headroom (po_thresholds po)"
    and "gw_ok po w gw" and "gw_step po w gw gw'"
  shows "gw_ok po w gw'"
  using assms(4)
proof cases
  case (gw_admit ctx texts d)
  from gw_admit(2) show ?thesis
  proof (cases rule: admit_call_cases)
    case (refused site b' why)
    have "ledger_ok b'" "b_total b' = b_total (gw_budget gw)" "b_spent b' = b_spent (gw_budget gw)"
      using refused(1) assms(3) ledger_frame(2) by (auto simp: gw_ok_def Let_def)
    then show ?thesis using assms(3) refused(3)
      by (auto simp: gw_ok_def Let_def ledger_frame(3))
  next
    case (taken site b' it)
    let ?b = "gw_budget gw" and ?fl = "gw_flight gw"
    let ?sum = "sum_list (map (\<lambda>(s, d). d_projected d) ?fl)"
    have inv: "ledger_ok ?b" "\<forall>(s, d) \<in> set ?fl. 0 \<le> d_projected d \<and> d_projected d \<le> b_total ?b"
      "b_spent ?b + ?sum \<le> of_nat w * b_total ?b"
      using assms(3) by (simp_all add: gw_ok_def Let_def)
    have same: "ledger_ok b'" "b_total b' = b_total ?b" "b_spent b' = b_spent ?b"
      using taken(1) inv(1) ledger_frame(2) by auto
    have tot: "0 \<le> b_total ?b" using inv(1) by (simp add: ledger_ok_def)
    have "0 \<le> b_total ?b * th_headroom (po_thresholds po)" using tot assms(2) by simp
    then have p: "0 \<le> d_projected d" "d_projected d \<le> remaining ?b"
      using decide_site_admits(1) [OF assms(1) taken(2,3)] by auto
    have rem: "remaining ?b \<le> b_total ?b" using remaining_bounds [OF inv(1)] by simp
    have others: "?sum \<le> of_nat (length ?fl) * b_total ?b"
    proof -
      have "?sum \<le> sum_list (map (\<lambda>_. b_total ?b) ?fl)"
        using inv(2) by (intro sum_list_mono) auto
      then show ?thesis by (simp add: sum_list_triv)
    qed
    have "b_spent ?b + d_projected d + ?sum \<le> of_nat w * b_total ?b"
    proof (cases "b_spent ?b \<le> b_total ?b")
      case True
      then have "b_spent ?b + d_projected d \<le> b_total ?b" using p(2) by (simp add: remaining_def)
      moreover have "of_nat (length ?fl) * b_total ?b + b_total ?b \<le> of_nat w * b_total ?b"
      proof -
        have "(of_nat (Suc (length ?fl)) :: rat) \<le> of_nat w" using gw_admit(1) by (simp only: of_nat_le_iff)
        from mult_right_mono [OF this tot] show ?thesis by (simp add: algebra_simps)
      qed
      ultimately show ?thesis using others by linarith
    next
      case False
      then have "remaining ?b = 0" by (simp add: remaining_def)
      with p have "d_projected d = 0" by simp
      with inv(3) show ?thesis by simp
    qed
    then show ?thesis using gw_admit(1) inv(2) p rem same taken(5)
      by (auto simp: gw_ok_def Let_def algebra_simps)
  qed
next
  case (gw_settle site d u)
  let ?b = "gw_budget gw" and ?fl = "gw_flight gw"
  have l: "ledger_ok (snd (charge_call (po_pricing po) n r t u' p a q ?b))" for n r t u' p a q
    using ledger_charge assms(1,3) by (auto simp: gw_ok_def Let_def policy_ok_def)
  have sum: "sum_list (map (\<lambda>(s, d). d_projected d) ?fl) =
      d_projected d + sum_list (map (\<lambda>(s, d). d_projected d) (remove1 (site, d) ?fl))"
    using sum_list_map_remove1 [OF gw_settle(2), of "\<lambda>(s, d). d_projected d"] by simp
  have "length (remove1 (site, d) ?fl) \<le> length ?fl" by (simp add: length_remove1)
  then show ?thesis
    using assms(3) gw_settle(1,3) sum l set_remove1_subset [of "(site, d)" ?fl]
    by (force simp: gw_ok_def Let_def settle_call_def charge_call_def case_prod_beta algebra_simps
        simp del: set_remove1_subset)
next
  case (gw_fail call)
  let ?fl = "gw_flight gw"
  have sum: "sum_list (map (\<lambda>(s, d). d_projected d) ?fl) =
      d_projected (snd call) + sum_list (map (\<lambda>(s, d). d_projected d) (remove1 call ?fl))"
    using sum_list_map_remove1 [OF gw_fail(2), of "\<lambda>(s, d). d_projected d"] by (simp add: case_prod_beta)
  have "0 \<le> d_projected (snd call)" using assms(3) gw_fail(2) by (auto simp: gw_ok_def Let_def)
  moreover have "length (remove1 call ?fl) \<le> length ?fl" by (simp add: length_remove1)
  ultimately show ?thesis
    using assms(3) gw_fail(1) sum set_remove1_subset [of call ?fl]
    by (auto simp: gw_ok_def Let_def drop_call_def)
next
  case (gw_allocate fr f)
  then show ?thesis using assms(3) ledger_frame(1)
    by (auto simp: gw_ok_def Let_def allocate_def)
qed

end
