(* ===== verification/Econ_Claims.thy ===== *)
theory Econ_Claims
  imports Econ_Controller
begin

text \<open>
  The properties of the budget controller: how far a run can spend past its ceiling when its tasks
  call in parallel, that the ledger is the sum of its charges, which rung a decision takes, and that a
  call is metered exactly once.
\<close>

lemma gw_system:
  "policy_ok po \<Longrightarrow> 0 \<le> th_headroom (po_thresholds po) \<Longrightarrow> invariant_system (gw_step po w) (gw_ok po w)"
  by unfold_locales (rule gw_ok_step)

definition fresh_gateway :: "budget \<Rightarrow> gateway" where
  "fresh_gateway b = \<lparr>gw_budget = b, gw_decisions = [], gw_flight = []\<rparr>"

lemma fresh_ok:
  "new_budget t p c r f = Inr b \<Longrightarrow> 1 \<le> w \<Longrightarrow> gw_ok po w (fresh_gateway b)"
  using ledger_new [of t p c r f b]
  by (auto simp: gw_ok_def fresh_gateway_def Let_def ledger_ok_def new_budget_def split: if_splits)

lemma gw_step_total: "gw_step po w gw gw' \<Longrightarrow> b_total (gw_budget gw') = b_total (gw_budget gw)"
proof (induction rule: gw_step.induct)
  case (gw_admit gw ctx texts d gw')
  from gw_admit(2) show ?case by (cases rule: admit_call_cases) auto
qed (simp_all add: settle_call_def charge_call_def Let_def drop_call_def allocate_def)

lemma gw_steps_total: "(gw_step po w)\<^sup>*\<^sup>* gw gw' \<Longrightarrow> b_total (gw_budget gw') = b_total (gw_budget gw)"
  by (induction rule: rtranclp_induct) (auto dest: gw_step_total)

text \<open>A one-rung ladder whose calls may cost the whole budget, for the witnesses.\<close>

definition demo_tier :: tier where
  "demo_tier = \<lparr>t_name = ''small'', t_rank = 0, t_request = [(''max_tokens'', JInt 10)], t_price_model = Some ''m'',
     t_projected_input = 0, t_projected_output = 0\<rparr>"

definition demo_policy :: policy where
  "demo_policy = \<lparr>po_ladder = \<lparr>l_tiers = [(''small'', demo_tier)], l_order = [''small''], l_roles = [],
       l_default = ''small''\<rparr>,
     po_pricing = \<lparr>pr_currency = ''USD'', pr_unit_tokens = 1, pr_default = \<lparr>mp_input = 0, mp_output = 1\<rparr>,
       pr_models = [], pr_cache_read = 1, pr_cache_write = 1\<rparr>,
     po_thresholds = \<lparr>th_downgrade_at = 1/2, th_refuse_at = 9/10, th_headroom = 0, th_calls_per_run = 0,
       th_calls_per_node = 0, th_reserve = 0, th_chars_per_token = 4, th_safety = 5/4\<rparr>\<rparr>"

definition demo_budget :: budget where
  "demo_budget = projr (new_budget 10 ''u'' ''USD'' None 0)"

definition demo_site :: "string \<Rightarrow> call_site" where
  "demo_site nid = \<lparr>cs_node_id = nid, cs_role = ''worker'', cs_tier = None\<rparr>"

definition demo_usage :: usage where
  "demo_usage = \<lparr>u_provider = None, u_model = None, u_input = 0, u_output = 10, u_cache_read = 0,
     u_cache_write = 0, u_latency = None, u_started_at = 0\<rparr>"

definition demo_decision :: "string \<Rightarrow> decision" where
  "demo_decision nid = \<lparr>d_action = Proceed, d_node_id = nid, d_requested_tier = ''small'', d_tier = Some demo_tier,
     d_projected = 10, d_allowance = 10, d_remaining = 10, d_pressure = 0, d_reason = Requested_fits,
     d_ladder_steps = 0\<rparr>"

definition demo_admitted :: "string \<Rightarrow> gateway \<Rightarrow> gateway" where
  "demo_admitted nid gw = gw\<lparr>gw_decisions := gw_decisions gw @ [demo_decision nid],
     gw_flight := gw_flight gw @ [(demo_site nid, demo_decision nid)]\<rparr>"

lemma demo_new: "new_budget 10 ''u'' ''USD'' None 0 = Inr demo_budget"
  by (simp add: demo_budget_def new_budget_def)

lemma demo_budget_simps [simp]:
  "b_total demo_budget = 10" "b_spent demo_budget = 0" "b_reservations demo_budget = []"
  "b_charges demo_budget = []" "b_calls_by_node demo_budget = []"
  by (simp_all add: demo_budget_def new_budget_def)

lemma demo_policy_ok: "policy_ok demo_policy" "0 \<le> th_headroom (po_thresholds demo_policy)"
  by (simp_all add: policy_ok_def ladder_ok_def demo_policy_def demo_tier_def pricing_ok_def price_ok_def
      jget_def dget_or_def)

lemma demo_decides: "decide_site demo_policy (demo_site nid) it demo_budget = Inr (demo_decision nid, demo_budget)"
  by (simp add: decide_site_def demo_site_def decide_def Let_def project_def max_output_tokens_def
      demo_policy_def demo_tier_def for_role_def named_tier_def default_tier_def tier_at_def dget_or_def
      jget_def cost_def price_for_def price_row_def tier_model_def candidates_def cheaper_than_def
      can_admit_def allowance_def remaining_def pressure_def demo_decision_def cheapest_def)

lemma demo_admit:
  "gw_budget gw = demo_budget \<Longrightarrow>
   admit_call demo_policy (Some (demo_site nid)) [] gw = Inr (demo_decision nid, demo_admitted nid gw)"
  by (simp add: admit_call_def demo_decides Let_def demo_admitted_def admitted_def demo_decision_def)

text \<open>Two workers, each admitted against the same remainder before either is charged.\<close>

definition demo_overspent :: gateway where
  "demo_overspent =
     snd (settle_call demo_policy (demo_site ''b'', demo_decision ''b'') demo_usage
       (snd (settle_call demo_policy (demo_site ''a'', demo_decision ''a'') demo_usage
         (demo_admitted ''b'' (demo_admitted ''a'' (fresh_gateway demo_budget))))))"

lemma demo_projected [simp]: "d_projected (demo_decision nid) = 10"
  by (simp add: demo_decision_def)

lemma demo_usage_cost:
  "usage_cost (po_pricing demo_policy) (billed (demo_decision nid) demo_usage) = 10"
  by (simp add: usage_cost_def billed_def demo_usage_def demo_decision_def cost_def price_for_def
      price_row_def demo_policy_def tier_model_def demo_tier_def Let_def)

lemma demo_overspent_reachable: "(gw_step demo_policy 2)\<^sup>*\<^sup>* (fresh_gateway demo_budget) demo_overspent"
proof -
  let ?g0 = "fresh_gateway demo_budget"
  let ?g1 = "demo_admitted ''a'' ?g0" let ?g2 = "demo_admitted ''b'' ?g1"
  let ?g3 = "snd (settle_call demo_policy (demo_site ''a'', demo_decision ''a'') demo_usage ?g2)"
  have s1: "gw_step demo_policy 2 ?g0 ?g1"
    by (rule gw_admit [OF _ demo_admit]) (simp_all add: fresh_gateway_def)
  have s2: "gw_step demo_policy 2 ?g1 ?g2"
    by (rule gw_admit [OF _ demo_admit]) (simp_all add: fresh_gateway_def demo_admitted_def)
  have s3: "gw_step demo_policy 2 ?g2 ?g3"
    by (rule gw_settle) (simp_all add: demo_usage_cost fresh_gateway_def demo_admitted_def)
  have s4: "gw_step demo_policy 2 ?g3 demo_overspent"
    unfolding demo_overspent_def
    by (rule gw_settle) (simp_all add: demo_usage_cost settle_call_def fresh_gateway_def demo_admitted_def
        case_prod_beta)
  note s = converse_rtranclp_into_rtranclp [where r = "gw_step demo_policy 2"]
  show ?thesis by (rule s [OF s1], rule s [OF s2], rule s [OF s3], rule s [OF s4], rule rtranclp.rtrancl_refl)
qed

text \<open>C7: If every call costs at most its projection, a run whose tasks make at most \<open>w\<close> calls at once
  spends at most \<open>w\<close> times its ceiling; a run that calls one at a time never exceeds it. The bound is
  attained: admission reads the spend of settled calls only.\<close>

theorem run_spend_bounded:
  assumes "policy_ok po" and "0 \<le> th_headroom (po_thresholds po)" and "1 \<le> w"
    and "new_budget amount owner currency rid fraction = Inr b"
    and "(gw_step po w)\<^sup>*\<^sup>* (fresh_gateway b) gw"
  shows "b_spent (gw_budget gw) \<le> of_nat w * amount"
proof -
  have ok: "gw_ok po w gw"
    using invariant_system.steps_inv [OF gw_system [OF assms(1,2)] assms(5)] fresh_ok [OF assms(4,3)] by blast
  have "0 \<le> sum_list (map (\<lambda>(s, d). d_projected d) (gw_flight gw))"
    using ok by (intro sum_list_nonneg) (auto simp: gw_ok_def Let_def)
  moreover have "b_total (gw_budget gw) = amount"
    using gw_steps_total [OF assms(5)] assms(4) by (auto simp: fresh_gateway_def new_budget_def split: if_splits)
  ultimately show ?thesis using ok by (simp add: gw_ok_def Let_def)
qed

lemma run_spend_bounded_witness:
  "b_spent (gw_budget demo_overspent) \<le> 2 * 10 \<and> b_spent (gw_budget demo_overspent) = 2 * b_total demo_budget"
proof -
  have "b_spent (gw_budget demo_overspent) \<le> of_nat 2 * 10"
    by (rule run_spend_bounded [OF demo_policy_ok _ demo_new demo_overspent_reachable]) simp
  moreover have "b_spent (gw_budget demo_overspent) = 20"
    by (simp add: demo_overspent_def settle_call_def case_prod_beta charge_call_def Let_def demo_usage_cost
        demo_admitted_def fresh_gateway_def)
  ultimately show ?thesis by simp
qed



text \<open>Admission is a bound. Whatever a decision admits, branches included, names a tier of the
  ladder and a projected cost that the run's remainder less the headroom covers.\<close>

lemma admitted_call_fits_remainder:
  assumes "policy_ok po" and "decide_site po site it b = Inr (d, b')" and "admitted d"
  shows "0 \<le> d_projected d \<and> d_projected d \<le> remaining b - b_total b * th_headroom (po_thresholds po) \<and>
    (\<exists>t. d_tier d = Some t \<and> t_name t \<in> set (l_order (po_ladder po)))"
proof -
  obtain t where t: "d_tier d = Some t" "rung (po_ladder po) t"
    using decide_site_admits(2) [OF assms] by blast
  have "ladder_ok (po_ladder po)" using assms(1) by (simp add: policy_ok_def)
  then have "t_name t \<in> set (l_order (po_ladder po))" using t(2) by (rule rung_name)
  then show ?thesis using decide_site_admits(1) [OF assms] t(1) by simp
qed

lemma admitted_call_fits_remainder_witness:
  "d_projected (demo_decision ''a'') \<le> remaining demo_budget \<and> admitted (demo_decision ''a'')"
  using admitted_call_fits_remainder [OF demo_policy_ok(1) demo_decides [of "''a''" 0]]
  by (simp add: admitted_def demo_decision_def demo_policy_def)



lemma decide_site_total: "policy_ok po \<Longrightarrow> \<exists>d b'. decide_site po site it b = Inr (d, b')"
proof -
  assume po: "policy_ok po"
  have "\<exists>d. decide po (cs_node_id site) (case cs_tier site of
            Some (c # cs) \<Rightarrow> named_tier (po_ladder po) (Some (c # cs))
          | _ \<Rightarrow> for_role (po_ladder po) (Some (cs_role site))) b0 (Some it) None = Inr d" for b0
    using decide_closed [OF po site_rung [OF po] refl] by blast
  then obtain d0 d1 where
    d: "decide po (cs_node_id site) (case cs_tier site of
            Some (c # cs) \<Rightarrow> named_tier (po_ladder po) (Some (c # cs))
          | _ \<Rightarrow> for_role (po_ladder po) (Some (cs_role site))) b (Some it) None = Inr d0"
      "decide po (cs_node_id site) (case cs_tier site of
            Some (c # cs) \<Rightarrow> named_tier (po_ladder po) (Some (c # cs))
          | _ \<Rightarrow> for_role (po_ladder po) (Some (cs_role site))) (release (cs_node_id site) b) (Some it) None = Inr d1"
    by blast
  then show ?thesis by (simp add: decide_site_def Let_def)
qed

lemma admit_total: "policy_ok po \<Longrightarrow> \<exists>d gw'. admit_call po ctx texts gw = Inr (d, gw')"
proof -
  assume po: "policy_ok po"
  define site where "site = (case ctx of Some s \<Rightarrow> s
        | None \<Rightarrow> \<lparr>cs_node_id = unattributed, cs_role = unattributed, cs_tier = None\<rparr>)"
  obtain d b where "decide_site po site (estimate_input_tokens po texts) (gw_budget gw) = Inr (d, b)"
    using decide_site_total [OF po] by blast
  then show ?thesis by (simp add: admit_call_def Let_def site_def [symmetric])
qed

text \<open>A call made alone is metered exactly once or not at all: a call that fails, refused or by the
  transport, leaves no charge, a refusal is journalled, and an answered call leaves exactly one charge,
  whose cost is the increase of the run's spend and the cost the caller is told.\<close>

lemma complete_meters_once:
  assumes "policy_ok po" and "complete po ctx texts response gw = (res, gw')"
  shows "(\<forall>e. res = Inl e \<longrightarrow>
      b_charges (gw_budget gw') = b_charges (gw_budget gw) \<and> b_spent (gw_budget gw') = b_spent (gw_budget gw) \<and>
      (response \<noteq> Inl e \<longrightarrow> e = BudgetRefused \<and>
        length (b_refusals (gw_budget gw')) = length (b_refusals (gw_budget gw)) + 1)) \<and>
    (\<forall>ry. res = Inr ry \<longrightarrow>
      (\<exists>ch. b_charges (gw_budget gw') = b_charges (gw_budget gw) @ [ch] \<and> ch_cost ch = ry_cost ry \<and>
        b_spent (gw_budget gw') = b_spent (gw_budget gw) + ry_cost ry))"
proof -
  obtain d gw1 where ad: "admit_call po ctx texts gw = Inr (d, gw1)" using admit_total [OF assms(1)] by blast
  have rel: "b_charges (release n b) = b_charges b" "b_refusals (release n b) = b_refusals b" for n b
    by (simp_all add: release_def)
  from ad show ?thesis
  proof (cases rule: admit_call_cases)
    case (refused site b' why)
    then have "res = Inl BudgetRefused" "gw' = gw1" using assms(2) ad by (auto simp: complete_def)
    then show ?thesis using refused rel by (auto simp: record_refusal_def)
  next
    case (taken site b' it)
    have b': "b_charges b' = b_charges (gw_budget gw)" "b_spent b' = b_spent (gw_budget gw)"
      using taken(1) rel by auto
    have l: "last (gw_flight gw1) = (site, d)" using taken(5) by simp
    have bud: "gw_budget gw1 = b'" using taken(5) by simp
    show ?thesis
    proof (cases response)
      case (Inl e)
      then have "res = Inl e" "gw' = drop_call (site, d) gw1"
        using assms(2) ad taken(3,4) l by (auto simp: complete_def)
      then show ?thesis using Inl bud b' by (simp add: drop_call_def)
    next
      case (Inr tu)
      obtain out u where tu: "tu = (out, u)" by force
      obtain ch gw2 where st: "settle_call po (site, d) u gw1 = (ch, gw2)" by force
      have r: "res = Inr \<lparr>ry_text = out, ry_provider = u_provider u, ry_model = u_model u,
            ry_tier = ch_tier ch, ry_cost = ch_cost ch, ry_input = ch_input ch,
            ry_output = ch_output ch, ry_decision = d_action d\<rparr>" "gw' = gw2"
        using assms(2) ad taken(3,4) l Inr tu st by (auto simp: complete_def)
      have "b_charges (gw_budget gw2) = b_charges b' @ [ch]" "b_spent (gw_budget gw2) = b_spent b' + ch_cost ch"
        using st bud by (auto simp: settle_call_def charge_call_def Let_def)
      then show ?thesis using r b' by simp
    qed
  qed
qed

lemma complete_meters_once_witness:
  "\<exists>ch. b_charges (gw_budget (snd (complete demo_policy (Some (demo_site ''a'')) []
      (Inr (''ok'', demo_usage)) (fresh_gateway demo_budget)))) = [ch]"
proof -
  let ?r = "complete demo_policy (Some (demo_site ''a'')) [] (Inr (''ok'', demo_usage)) (fresh_gateway demo_budget)"
  obtain res gw' where r: "?r = (res, gw')" by force
  moreover have "\<exists>ry. fst ?r = Inr ry"
    by (simp add: complete_def demo_admit fresh_gateway_def demo_decision_def admitted_def case_prod_beta Let_def)
  ultimately show ?thesis
    using complete_meters_once [OF demo_policy_ok(1) r] by (auto simp: fresh_gateway_def)
qed

text \<open>Allocation never overcommits: every node of the frontier gets the same share, nodes that left
  the frontier keep no claim, and the shares add up to what remains of the budget less the reserve.\<close>

lemma allocation_never_overcommits:
  assumes "ledger_ok b" and "0 \<le> f" and "fr \<noteq> []"
  shows "(\<forall>nid. allowance (allocate fr (Some f) b) nid =
      (if nid \<in> set fr then max 0 (remaining b - b_total b * f) / of_nat (length (dedup fr)) else remaining b)) \<and>
    sum_list (map snd (b_reservations (allocate fr (Some f) b))) = max 0 (remaining b - b_total b * f) \<and>
    max 0 (remaining b - b_total b * f) \<le> remaining b"
proof -
  let ?s = "max 0 (remaining b - b_total b * f)"
  have rem: "remaining (allocate fr (Some f) b) = remaining b"
    by (simp add: remaining_def allocate_def Let_def)
  have "0 \<le> b_total b" using assms(1) by (simp add: ledger_ok_def)
  then have le: "?s \<le> remaining b" using remaining_bounds [OF assms(1)] assms(2) by simp
  have "1 \<le> length (dedup fr)" using assms(3) by (cases fr) simp_all
  then have "?s / of_nat (length (dedup fr)) \<le> ?s / 1" by (intro divide_left_mono) auto
  then have share: "0 \<le> ?s / of_nat (length (dedup fr))" "?s / of_nat (length (dedup fr)) \<le> remaining b"
    using le by auto
  have "allowance (allocate fr (Some f) b) nid =
      (if nid \<in> set fr then ?s / of_nat (length (dedup fr)) else remaining b)" for nid
    using share by (auto simp: allowance_def dget_allocation rem)
  then show ?thesis using assms(3) le allocation_total [of fr "Some f" b] by simp
qed

lemma allocation_never_overcommits_witness:
  "allowance (allocate [''a'', ''b''] (Some (1/5)) demo_budget) ''b'' = 4"
  using allocation_never_overcommits [of demo_budget "1/5" "[''a'', ''b'']"] ledger_new [OF demo_new]
  by (simp add: remaining_def)

end
