(* ===== verification/Event_Store.thy ===== *)
theory Event_Store
  imports Json
begin

text \<open>
  \<open>EventStore\<close> (\<open>events/store.py\<close>) with the envelopes and subscriptions of \<open>events/models.py\<close>: the
  bounded history, the index of identities that outlives it, the per-day windows, the refusals and
  the heartbeat. Instants are microseconds; the day of an instant is the string \<open>_day\<close> prints.
  Texts of reasons are left out: the control that refused is kept, and no code reads the text.
\<close>

record envelope =
  en_id :: string
  en_source :: string
  en_type :: string
  en_subject :: "string option"
  en_data :: obj
  en_actor :: "string option"

record subscription =
  su_id :: string
  su_instruction :: string
  su_event_types :: "string list"
  su_sources :: "string list"
  su_tenant_id :: string
  su_project_id :: "string option"
  su_user_id :: "string option"
  su_agent_id :: "string option"
  su_side_effects :: "string list"
  su_budget :: "rat option"
  su_daily_budget :: "rat option"
  su_max_runs :: "int option"
  su_daily_triage :: "rat option"
  su_ignore_actors :: "string list"
  su_enabled :: bool

text \<open>The fields of a decision dict; a field the dict lacks is \<open>None\<close>.\<close>

record ev_decision =
  dc_subscription :: string
  dc_relevant :: bool
  dc_reason :: string
  dc_goal :: string
  dc_refused_by :: "string option"
  dc_triage_cost :: "rat option"
  dc_acted :: "bool option"
  dc_run_id :: "string option"
  dc_run_status :: "string option"
  dc_failed :: bool
  dc_reply :: "obj option"

record event_record =
  er_sequence :: nat
  er_event :: envelope
  er_received :: int
  er_decisions :: "ev_decision list"

record store_refusal =
  sr_at :: int
  sr_control :: string
  sr_subscription :: "string option"
  sr_event :: "(string \<times> string \<times> string) option"
  sr_decision :: "ev_decision option"

record window =
  w_count :: int
  w_usd :: rat

record event_state =
  es_subscriptions :: "(string \<times> subscription) list"
  es_events :: "event_record list"
  es_next :: nat
  es_index :: "(string \<times> nat) list"
  es_windows :: "(string \<times> (string \<times> window) list) list"
  es_refusals :: "store_refusal list"
  es_compacted :: nat
  es_started :: "int option"
  es_last_beat :: "int option"
  es_beats :: nat
  es_note :: string

definition empty_events :: event_state where
  "empty_events = \<lparr>es_subscriptions = [], es_events = [], es_next = 1, es_index = [], es_windows = [],
     es_refusals = [], es_compacted = 0, es_started = None, es_last_beat = None, es_beats = 0, es_note = []\<rparr>"

text \<open>\<open>_key\<close>\<close>

definition event_key :: "string \<Rightarrow> string \<Rightarrow> string" where
  "event_key source event_id = source @ ''|'' @ event_id"

definition compact_history :: "int \<Rightarrow> event_state \<Rightarrow> event_state" where
  "compact_history cap st =
     (let overflow = int (length (es_events st)) - cap in
      if overflow \<le> 0 then st
      else st\<lparr>es_events := drop (nat overflow) (es_events st),
              es_compacted := er_sequence (last (take (nat overflow) (es_events st))) + 1\<rparr>)"

section \<open>Subscriptions and events\<close>

definition put_subscription :: "subscription \<Rightarrow> event_state \<Rightarrow> event_state" where
  "put_subscription s st = st\<lparr>es_subscriptions := dput (su_id s) s (es_subscriptions st)\<rparr>"

definition subscriptions :: "event_state \<Rightarrow> subscription list" where
  "subscriptions st = map snd (sort_key fst (es_subscriptions st))"

text \<open>The record, whether it stands for a compacted one, and whether the event is new.\<close>

definition ingest :: "int \<Rightarrow> int \<Rightarrow> envelope \<Rightarrow> event_state \<Rightarrow> (event_record \<times> bool) \<times> bool \<times> event_state" where
  "ingest cap now e st =
     (let key = event_key (en_source e) (en_id e) in
      case dget (es_index st) key of
        Some known \<Rightarrow>
          (case find (\<lambda>r. er_sequence r = known) (es_events st) of
             Some r \<Rightarrow> ((r, False), False, st)
           | None \<Rightarrow> ((\<lparr>er_sequence = known, er_event = e, er_received = now, er_decisions = []\<rparr>, True), False, st))
      | None \<Rightarrow>
          let r = \<lparr>er_sequence = es_next st, er_event = e, er_received = now, er_decisions = []\<rparr>
          in ((r, False), True, compact_history cap (st\<lparr>es_index := dput key (es_next st) (es_index st),
               es_next := es_next st + 1, es_events := es_events st @ [r]\<rparr>)))"

definition is_record :: "string \<Rightarrow> string \<Rightarrow> event_record \<Rightarrow> bool" where
  "is_record source event_id r = (en_source (er_event r) = source \<and> en_id (er_event r) = event_id)"

text \<open>Replace the first element a predicate holds of.\<close>

fun update_first :: "('a \<Rightarrow> bool) \<Rightarrow> ('a \<Rightarrow> 'a) \<Rightarrow> 'a list \<Rightarrow> 'a list" where
  "update_first p f [] = []"
| "update_first p f (x # xs) = (if p x then f x # xs else x # update_first p f xs)"

definition add_decision :: "int \<Rightarrow> string \<Rightarrow> string \<Rightarrow> ev_decision \<Rightarrow> event_state \<Rightarrow> event_state" where
  "add_decision now source event_id d st =
     (case find (is_record source event_id) (es_events st) of
        None \<Rightarrow> st\<lparr>es_refusals := es_refusals st @ [\<lparr>sr_at = now, sr_control = ''orphan_decision'',
                  sr_subscription = None, sr_event = Some (source, event_id, []), sr_decision = Some d\<rparr>]\<rparr>
      | Some r \<Rightarrow>
          if list_ex (\<lambda>x. dc_subscription x = dc_subscription d) (er_decisions r) then st
          else st\<lparr>es_events := update_first (is_record source event_id)
                   (\<lambda>r. r\<lparr>er_decisions := er_decisions r @ [d]\<rparr>) (es_events st)\<rparr>)"

definition events_after :: "nat \<Rightarrow> int option \<Rightarrow> event_state \<Rightarrow> event_record list" where
  "events_after after limit st =
     (let found = filter (\<lambda>r. er_sequence r > after) (es_events st)
      in case limit of
           None \<Rightarrow> found
         | Some n \<Rightarrow> if n = 0 then found
                     else if n > 0 then take (nat n) found
                     else take (nat (int (length found) + n)) found)"

definition count_recent :: "string \<Rightarrow> int \<Rightarrow> event_state \<Rightarrow> nat" where
  "count_recent source since st =
     length (takeWhile (\<lambda>r. \<not> er_received r < since)
       (filter (\<lambda>r. en_source (er_event r) = source) (rev (es_events st))))"

section \<open>Windows\<close>

definition window_key :: "string \<Rightarrow> string \<Rightarrow> string" where
  "window_key sub day = sub @ ''|'' @ day"

definition window_entry :: "string \<Rightarrow> string \<Rightarrow> string \<Rightarrow> event_state \<Rightarrow> window" where
  "window_entry sub day kind st =
     dget_or (dget_or (es_windows st) (window_key sub day) []) kind \<lparr>w_count = 0, w_usd = 0\<rparr>"

definition put_window :: "string \<Rightarrow> string \<Rightarrow> string \<Rightarrow> window \<Rightarrow> event_state \<Rightarrow> event_state" where
  "put_window sub day kind w st =
     st\<lparr>es_windows := dput (window_key sub day)
          (dput kind w (dget_or (es_windows st) (window_key sub day) [])) (es_windows st)\<rparr>"

definition window_record :: "string \<Rightarrow> string \<Rightarrow> string \<Rightarrow> rat \<Rightarrow> int \<Rightarrow> event_state \<Rightarrow> event_state" where
  "window_record sub day kind usd n st =
     (let w = window_entry sub day kind st
      in put_window sub day kind \<lparr>w_count = w_count w + n, w_usd = py_round 12 (w_usd w + max 0 usd)\<rparr> st)"

definition window_reserve ::
  "string \<Rightarrow> string \<Rightarrow> string \<Rightarrow> int option \<Rightarrow> event_state \<Rightarrow> (bool \<times> int) \<times> event_state" where
  "window_reserve sub day kind limit st =
     (let w = window_entry sub day kind st; current = w_count w in
      if (case limit of None \<Rightarrow> False | Some l \<Rightarrow> current \<ge> l) then ((False, current), st)
      else ((True, current + 1), put_window sub day kind (w\<lparr>w_count := current + 1\<rparr>) st))"

definition window_count :: "string \<Rightarrow> string \<Rightarrow> string \<Rightarrow> event_state \<Rightarrow> int" where
  "window_count sub day kind st = w_count (window_entry sub day kind st)"

definition window_spend :: "string \<Rightarrow> string \<Rightarrow> string \<Rightarrow> event_state \<Rightarrow> rat" where
  "window_spend sub day kind st = w_usd (window_entry sub day kind st)"

section \<open>Refusals and liveness\<close>

text \<open>\<open>xs[-n:]\<close>\<close>

definition slice_last :: "int \<Rightarrow> 'a list \<Rightarrow> 'a list" where
  "slice_last n xs = (if n > 0 then drop (length xs - nat n) xs else if n = 0 then xs else drop (nat (- n)) xs)"

definition store_refuse :: "int \<Rightarrow> int \<Rightarrow> string \<Rightarrow> envelope option \<Rightarrow> string option \<Rightarrow> event_state \<Rightarrow> event_state" where
  "store_refuse cap now control event sub st =
     st\<lparr>es_refusals := slice_last cap (es_refusals st @ [\<lparr>sr_at = now, sr_control = control, sr_subscription = sub,
          sr_event = map_option (\<lambda>e. (en_source e, en_id e, en_type e)) event, sr_decision = None\<rparr>])\<rparr>"

definition refusals_since :: "int option \<Rightarrow> event_state \<Rightarrow> store_refusal list" where
  "refusals_since since st =
     (case since of None \<Rightarrow> es_refusals st | Some t \<Rightarrow> filter (\<lambda>r. sr_at r \<ge> t) (es_refusals st))"

definition beat :: "int \<Rightarrow> string \<Rightarrow> event_state \<Rightarrow> event_state" where
  "beat now note st =
     st\<lparr>es_started := (case es_started st of None \<Rightarrow> Some now | t \<Rightarrow> t), es_last_beat := Some now,
        es_beats := es_beats st + 1, es_note := (if note = [] then es_note st else take 500 note)\<rparr>"

text \<open>\<open>liveness_status\<close> of \<open>report.py\<close>: alive, and the seconds of silence.\<close>

definition liveness_status :: "event_state \<Rightarrow> int \<Rightarrow> rat \<Rightarrow> bool \<times> rat option" where
  "liveness_status st now stale_after =
     (case es_last_beat st of
        None \<Rightarrow> (False, None)
      | Some t \<Rightarrow>
          let silent = of_int (now - t) / 1000000
          in (silent \<le> stale_after, Some (py_round 3 silent)))"

section \<open>The window ledger as an interface\<close>

text \<open>
  What a governor needs of its store: a count that only an admitted reservation raises, by one, under
  its limit, in one step. The lemma is what the interface is for: however reservations interleave,
  the count never passes the limit.
\<close>

locale window_ledger =
  fixes count :: "'s \<Rightarrow> int"
    and reserve :: "int option \<Rightarrow> 's \<Rightarrow> (bool \<times> int) \<times> 's"
  assumes reserve_taken: "reserve limit s = ((True, n), t) \<Longrightarrow>
      (\<forall>l. limit = Some l \<longrightarrow> count s < l) \<and> n = count s + 1 \<and> count t = count s + 1"
    and reserve_refused: "reserve limit s = ((False, n), t) \<Longrightarrow>
      (\<exists>l. limit = Some l \<and> l \<le> count s) \<and> t = s \<and> n = count s"
begin

text \<open>A step that reserves under a limit of at most \<open>l\<close>, or leaves the count alone.\<close>

definition bounded_step :: "int \<Rightarrow> 's \<Rightarrow> 's \<Rightarrow> bool" where
  "bounded_step l s t = (count t = count s \<or> (\<exists>l' r. l' \<le> l \<and> reserve (Some l') s = (r, t)))"

lemma bounded_step_count: "bounded_step l s t \<Longrightarrow> count s \<le> l \<Longrightarrow> count t \<le> l"
proof -
  assume b: "bounded_step l s t" and c: "count s \<le> l"
  then consider "count t = count s" | l' ok n where "l' \<le> l" "reserve (Some l') s = ((ok, n), t)"
    by (auto simp: bounded_step_def)
  then show "count t \<le> l"
  proof cases
    case 2
    then show ?thesis using reserve_taken [of "Some l'" s n t] reserve_refused [of "Some l'" s n t] c
      by (cases ok) auto
  qed (use c in simp)
qed

lemma bounded_steps_count: "(bounded_step l)\<^sup>*\<^sup>* s t \<Longrightarrow> count s \<le> l \<Longrightarrow> count t \<le> l"
  by (induction rule: rtranclp_induct) (auto intro: bounded_step_count)

text \<open>The reservations taken in a run are exactly the rise of the count.\<close>

fun reserve_all :: "int option list \<Rightarrow> 's \<Rightarrow> nat \<times> 's" where
  "reserve_all [] s = (0, s)"
| "reserve_all (l # ls) s =
     (let ((ok, n), t) = reserve l s; (k, u) = reserve_all ls t in (if ok then k + 1 else k, u))"

lemma reserve_all_count: "reserve_all ls s = (k, t) \<Longrightarrow> count t = count s + int k"
proof (induction ls arbitrary: s k)
  case (Cons l ls)
  obtain ok n u where r: "reserve l s = ((ok, n), u)" by (metis surj_pair)
  obtain k' where k': "reserve_all ls u = (k', t)" "k = (if ok then k' + 1 else k')"
    using Cons.prems r by (cases "reserve_all ls u") auto
  have "count u = count s + (if ok then 1 else 0)"
    using reserve_taken [of l s n u] reserve_refused [of l s n u] r by (cases ok) auto
  with Cons.IH [OF k'(1)] k'(2) show ?case by auto
qed simp

end

lemma window_entry_put [simp]:
  "window_entry sub day kind (put_window sub day kind w st) = w"
  by (simp add: window_entry_def put_window_def dget_or_def)

interpretation windows: window_ledger "window_count sub day kind" "window_reserve sub day kind" for sub day kind
  by unfold_locales
    (auto simp: window_reserve_def window_count_def Let_def split: if_splits option.splits)

end
