(* ===== verification/Event_History.thy ===== *)
theory Event_History
  imports Event_Store
begin

text \<open>
  The event history as a sequence of store operations: identities outlive bodies, sequence numbers
  only grow, and no event carries two decisions of one subscription.
\<close>

datatype store_op =
    Put_subscription subscription
  | Ingest int envelope
  | Add_decision int string string ev_decision
  | Record_window string string string rat int
  | Reserve_window string string string "int option"
  | Refuse int string "envelope option" "string option"
  | Beat int string

definition apply_op :: "int \<Rightarrow> store_op \<Rightarrow> event_state \<Rightarrow> event_state" where
  "apply_op cap op st =
     (case op of
        Put_subscription s \<Rightarrow> put_subscription s st
      | Ingest now e \<Rightarrow> snd (snd (ingest cap now e st))
      | Add_decision now source event_id d \<Rightarrow> add_decision now source event_id d st
      | Record_window sub day kind usd n \<Rightarrow> window_record sub day kind usd n st
      | Reserve_window sub day kind limit \<Rightarrow> snd (window_reserve sub day kind limit st)
      | Refuse now control e sub \<Rightarrow> store_refuse cap now control e sub st
      | Beat now note \<Rightarrow> beat now note st)"

definition run_ops :: "int \<Rightarrow> store_op list \<Rightarrow> event_state \<Rightarrow> event_state" where
  "run_ops cap ops st = fold (apply_op cap) ops st"

definition record_key :: "event_record \<Rightarrow> string" where
  "record_key r = event_key (en_source (er_event r)) (en_id (er_event r))"

definition history_ok :: "int \<Rightarrow> event_state \<Rightarrow> bool" where
  "history_ok cap st =
     (sorted (map er_sequence (es_events st)) \<and> distinct (map er_sequence (es_events st)) \<and>
      distinct (map record_key (es_events st)) \<and> int (length (es_events st)) \<le> max 0 cap \<and>
      (\<forall>r \<in> set (es_events st). dget (es_index st) (record_key r) = Some (er_sequence r)) \<and>
      (\<forall>k n. dget (es_index st) k = Some n \<longrightarrow> n < es_next st) \<and>
      (\<forall>k k' n. dget (es_index st) k = Some n \<longrightarrow> dget (es_index st) k' = Some n \<longrightarrow> k = k') \<and>
      (\<forall>r \<in> set (es_events st). distinct (map dc_subscription (er_decisions r))))"

lemma history_ok_empty [simp]: "history_ok cap empty_events"
  by (simp add: history_ok_def empty_events_def)

lemma update_first_map:
  "(\<And>x. g (f x) = g x) \<Longrightarrow> map g (update_first p f xs) = map g xs"
  by (induction xs) auto

lemma update_first_mem:
  "y \<in> set (update_first p f xs) \<Longrightarrow> y \<in> set xs \<or> (\<exists>x \<in> set xs. p x \<and> find p xs = Some x \<and> y = f x)"
  by (induction xs) (auto split: if_splits)

lemma update_first_length [simp]: "length (update_first p f xs) = length xs"
  by (induction xs) auto

lemma history_ok_frame:
  "es_events st' = es_events st \<Longrightarrow> es_index st' = es_index st \<Longrightarrow> es_next st' = es_next st \<Longrightarrow>
   history_ok cap st' \<longleftrightarrow> history_ok cap st"
  by (simp add: history_ok_def)

lemma history_ok_compact:
  assumes "sorted (map er_sequence (es_events st))" and "distinct (map er_sequence (es_events st))"
    and "distinct (map record_key (es_events st))"
    and "\<forall>r \<in> set (es_events st). dget (es_index st) (record_key r) = Some (er_sequence r)"
    and "\<forall>k n. dget (es_index st) k = Some n \<longrightarrow> n < es_next st"
    and "\<forall>k k' n. dget (es_index st) k = Some n \<longrightarrow> dget (es_index st) k' = Some n \<longrightarrow> k = k'"
    and "\<forall>r \<in> set (es_events st). distinct (map dc_subscription (er_decisions r))"
  shows "history_ok cap (compact_history cap st)"
proof (cases "int (length (es_events st)) - cap \<le> 0")
  case True
  with assms show ?thesis by (simp add: compact_history_def history_ok_def)
next
  case False
  let ?n = "nat (int (length (es_events st)) - cap)"
  have "sorted (map er_sequence (drop ?n (es_events st)))" "distinct (map er_sequence (drop ?n (es_events st)))"
    "distinct (map record_key (drop ?n (es_events st)))"
    using assms(1-3) by (simp_all add: drop_map [symmetric] sorted_wrt_drop)
  with False assms(4-7) show ?thesis
    by (auto simp: compact_history_def history_ok_def Let_def dest: in_set_dropD)
qed

lemma index_compact [simp]:
  "es_index (compact_history cap st) = es_index st" "es_next (compact_history cap st) = es_next st"
  by (simp_all add: compact_history_def Let_def)

lemma ingest_known:
  "dget (es_index st) (event_key (en_source e) (en_id e)) \<noteq> None \<Longrightarrow> snd (ingest cap now e st) = (False, st)"
  by (auto simp: ingest_def Let_def split: option.split)

lemma history_ok_ingest:
  assumes "history_ok cap st"
  shows "history_ok cap (snd (snd (ingest cap now e st)))"
proof (cases "dget (es_index st) (event_key (en_source e) (en_id e))")
  case (Some n)
  then show ?thesis using assms ingest_known [of st e cap now] by simp
next
  case None
  let ?k = "event_key (en_source e) (en_id e)"
  let ?r = "\<lparr>er_sequence = es_next st, er_event = e, er_received = now, er_decisions = []\<rparr>"
  have new: "record_key ?r = ?k" by (simp add: record_key_def)
  have seq: "er_sequence r < es_next st" "record_key r \<noteq> ?k" if "r \<in> set (es_events st)" for r
    using assms that None by (auto simp: history_ok_def)
  let ?st = "st\<lparr>es_index := dput ?k (es_next st) (es_index st), es_next := es_next st + 1,
     es_events := es_events st @ [?r]\<rparr>"
  have old: "sorted (map er_sequence (es_events st))" "distinct (map er_sequence (es_events st))"
    "distinct (map record_key (es_events st))"
    "\<And>r. r \<in> set (es_events st) \<Longrightarrow> dget (es_index st) (record_key r) = Some (er_sequence r)"
    "\<And>k n. dget (es_index st) k = Some n \<Longrightarrow> n < es_next st"
    "\<And>k k' n. dget (es_index st) k = Some n \<Longrightarrow> dget (es_index st) k' = Some n \<Longrightarrow> k = k'"
    "\<And>r. r \<in> set (es_events st) \<Longrightarrow> distinct (map dc_subscription (er_decisions r))"
    using assms by (auto simp: history_ok_def)
  have "history_ok cap (compact_history cap ?st)"
  proof (rule history_ok_compact)
    show "sorted (map er_sequence (es_events ?st))"
      using old(1) seq(1) by (auto simp: sorted_append intro: less_imp_le)
    show "distinct (map er_sequence (es_events ?st))" using old(2) less_irrefl seq(1) by fastforce
    show "distinct (map record_key (es_events ?st))" using old(3) seq(2) new by fastforce
    show "\<forall>r \<in> set (es_events ?st). dget (es_index ?st) (record_key r) = Some (er_sequence r)"
      using old(4) seq(2) new by simp
    show "\<forall>k n. dget (es_index ?st) k = Some n \<longrightarrow> n < es_next ?st"
      using old(5) by (auto intro: less_SucI)
    show "\<forall>k k' n. dget (es_index ?st) k = Some n \<longrightarrow> dget (es_index ?st) k' = Some n \<longrightarrow> k = k'"
      using old(5) [of _ "es_next st"] old(6) by (simp split: if_splits) blast
    show "\<forall>r \<in> set (es_events ?st). distinct (map dc_subscription (er_decisions r))"
      using old(7) by simp
  qed
  then show ?thesis using None by (simp add: ingest_def Let_def)
qed

lemma history_ok_add_decision:
  assumes "history_ok cap st"
  shows "history_ok cap (add_decision now source event_id d st)"
proof (cases "find (is_record source event_id) (es_events st)")
  case None
  then show ?thesis using assms by (simp add: add_decision_def history_ok_def)
next
  case (Some r)
  show ?thesis
  proof (cases "list_ex (\<lambda>x. dc_subscription x = dc_subscription d) (er_decisions r)")
    case True
    with Some assms show ?thesis by (simp add: add_decision_def)
  next
    case False
    let ?f = "\<lambda>r. r\<lparr>er_decisions := er_decisions r @ [d]\<rparr>"
    let ?es = "update_first (is_record source event_id) ?f (es_events st)"
    have m: "map er_sequence ?es = map er_sequence (es_events st)" "map record_key ?es = map record_key (es_events st)"
      by (auto intro!: update_first_map simp: record_key_def)
    have "dget (es_index st) (record_key y) = Some (er_sequence y) \<and> distinct (map dc_subscription (er_decisions y))"
      if "y \<in> set ?es" for y
    proof -
      from update_first_mem [OF that] consider "y \<in> set (es_events st)" | "y = ?f r" "r \<in> set (es_events st)"
        using Some by auto
      then show ?thesis
        using assms False by cases (auto simp: history_ok_def record_key_def list_ex_iff)
    qed
    then show ?thesis using Some False assms m by (simp add: add_decision_def history_ok_def)
  qed
qed

lemma history_ok_op: assumes "history_ok cap st" shows "history_ok cap (apply_op cap op st)"
proof (cases op)
  case (Ingest now e)
  then show ?thesis using history_ok_ingest [OF assms] by (simp add: apply_op_def)
next
  case (Add_decision now source event_id d)
  then show ?thesis using history_ok_add_decision [OF assms] by (simp add: apply_op_def)
next
  case (Reserve_window sub day kind limit)
  have "history_ok cap (snd (window_reserve sub day kind limit st))"
    using assms by (simp add: window_reserve_def Let_def put_window_def history_ok_def)
  then show ?thesis using Reserve_window by (simp add: apply_op_def)
qed (use assms in \<open>simp_all add: apply_op_def put_subscription_def window_record_def put_window_def
    store_refuse_def beat_def Let_def history_ok_def\<close>)

interpretation history: invariant_system "\<lambda>st st'. \<exists>op. st' = apply_op cap op st" "history_ok cap" for cap
  by unfold_locales (auto intro: history_ok_op)

lemma run_ops_steps: "(\<lambda>st st'. \<exists>op. st' = apply_op cap op st)\<^sup>*\<^sup>* st (run_ops cap ops st)"
proof (induction ops arbitrary: st)
  case (Cons op ops)
  have "(\<lambda>st st'. \<exists>op. st' = apply_op cap op st) st (apply_op cap op st)" by blast
  with Cons [of "apply_op cap op st"] show ?case
    unfolding run_ops_def by (simp add: converse_rtranclp_into_rtranclp)
qed (simp add: run_ops_def)

lemma run_ops_ok: "history_ok cap (run_ops cap ops empty_events)"
  using history.steps_inv [OF run_ops_steps] by simp

text \<open>The index holds exactly the identities that were ever delivered.\<close>

definition delivered :: "store_op list \<Rightarrow> (string \<times> string) list" where
  "delivered ops = concat (map (\<lambda>op. case op of Ingest now e \<Rightarrow> [(en_source e, en_id e)] | _ \<Rightarrow> []) ops)"

lemma index_op:
  "set (dkeys (es_index (apply_op cap op st))) =
     set (dkeys (es_index st)) \<union> (case op of Ingest now e \<Rightarrow> {event_key (en_source e) (en_id e)} | _ \<Rightarrow> {})"
proof (cases op)
  case (Ingest now e)
  then show ?thesis
    by (auto simp: apply_op_def ingest_def Let_def dest: dget_Some_key split: option.split)
next
  case (Add_decision now source event_id d)
  then show ?thesis by (simp add: apply_op_def add_decision_def split: option.split)
next
  case (Reserve_window sub day kind limit)
  then show ?thesis by (simp add: apply_op_def window_reserve_def put_window_def Let_def)
qed (simp_all add: apply_op_def put_subscription_def window_record_def put_window_def store_refuse_def
    beat_def Let_def)

lemma index_run_ops:
  "set (dkeys (es_index (run_ops cap ops st))) =
     set (dkeys (es_index st)) \<union> (\<lambda>(s, i). event_key s i) ` set (delivered ops)"
proof (induction ops arbitrary: st)
  case (Cons op ops)
  then show ?case
    by (cases op) (auto simp: run_ops_def delivered_def index_op [unfolded set_map] image_iff)
qed (simp add: run_ops_def delivered_def)

lemma event_key_inj:
  assumes "CHR ''|'' \<notin> set s" and "CHR ''|'' \<notin> set s'" and "event_key s i = event_key s' i'"
  shows "s = s' \<and> i = i'"
proof -
  have t: "takeWhile (\<lambda>c. c \<noteq> CHR ''|'') (event_key x y) = x" if "CHR ''|'' \<notin> set x" for x y
    using that by (induction x) (auto simp: event_key_def)
  have "s = s'" using t [OF assms(1), of i] t [OF assms(2), of i'] assms(3) by simp
  with assms(3) show ?thesis by (simp add: event_key_def)
qed

text \<open>The history keeps its invariant over every sequence of store operations: sequence numbers grow
  strictly, no identity is stored twice, at most \<open>history_limit\<close> bodies are kept, every kept body is
  found through the index, and an event has at most one decision per subscription.\<close>

lemma history_invariant:
  "let st = run_ops cap ops empty_events in
   sorted_wrt (<) (map er_sequence (es_events st)) \<and>
   distinct (map (\<lambda>r. (en_source (er_event r), en_id (er_event r))) (es_events st)) \<and>
   int (length (es_events st)) \<le> max 0 cap \<and>
   list_all (\<lambda>r. dget (es_index st) (event_key (en_source (er_event r)) (en_id (er_event r))) = Some (er_sequence r) \<and>
     distinct (map dc_subscription (er_decisions r))) (es_events st)"
proof -
  have ok: "history_ok cap (run_ops cap ops empty_events)" by (rule run_ops_ok)
  have inj: "distinct (map f xs)" if "distinct (map (h \<circ> f) xs)" for f :: "event_record \<Rightarrow> string \<times> string" and h :: "string \<times> string \<Rightarrow> string" and xs
    using that by (auto simp: distinct_map inj_on_def)
  have "distinct (map record_key (es_events (run_ops cap ops empty_events)))" using ok by (simp add: history_ok_def)
  then have "distinct (map ((\<lambda>(s, i). event_key s i) \<circ> (\<lambda>r. (en_source (er_event r), en_id (er_event r))))
      (es_events (run_ops cap ops empty_events)))"
    by (simp add: comp_def record_key_def [abs_def])
  from inj [OF this] ok show ?thesis
    by (simp add: history_ok_def Let_def list_all_iff record_key_def strict_sorted_iff)
qed

text \<open>C11: An event is accepted as new exactly when its identity was never delivered before, whatever
  happened in between and however much of the history was compacted away, provided that no source
  contains the separator of the key.\<close>

theorem ingest_is_exactly_once:
  assumes "\<forall>(s, i) \<in> set (delivered ops). CHR ''|'' \<notin> set s" and "CHR ''|'' \<notin> set (en_source e)"
  shows "fst (snd (ingest cap now e (run_ops cap ops empty_events))) \<longleftrightarrow>
    (en_source e, en_id e) \<notin> set (delivered ops)"
proof -
  let ?st = "run_ops cap ops empty_events" and ?k = "event_key (en_source e) (en_id e)"
  have "fst (snd (ingest cap now e ?st)) \<longleftrightarrow> ?k \<notin> set (dkeys (es_index ?st))"
    unfolding dget_None_iff [symmetric] by (auto simp: ingest_def Let_def split: option.split)
  also have "\<dots> \<longleftrightarrow> ?k \<notin> (\<lambda>(s, i). event_key s i) ` set (delivered ops)"
    by (simp add: index_run_ops [of cap ops empty_events, unfolded set_map]) (simp add: empty_events_def)
  also have "\<dots> \<longleftrightarrow> (en_source e, en_id e) \<notin> set (delivered ops)"
  proof -
    have "(en_source e, en_id e) \<in> set (delivered ops)" if "?k \<in> (\<lambda>(s, i). event_key s i) ` set (delivered ops)"
    proof -
      obtain s i where m: "(s, i) \<in> set (delivered ops)" "?k = event_key s i" using \<open>?k \<in> _\<close> by auto
      then have "CHR ''|'' \<notin> set s" using assms(1) by auto
      with m event_key_inj [OF assms(2) this m(2)] show ?thesis by simp
    qed
    then show ?thesis by force
  qed
  finally show ?thesis .
qed

definition demo_event :: "string \<Rightarrow> string \<Rightarrow> envelope" where
  "demo_event source event_id = \<lparr>en_id = event_id, en_source = source, en_type = ''t'', en_subject = None,
     en_data = [], en_actor = None\<rparr>"

lemma ingest_is_exactly_once_witness:
  "\<not> fst (snd (ingest 1 9 (demo_event ''a'' ''1'')
     (run_ops 1 [Ingest 1 (demo_event ''a'' ''1''), Ingest 2 (demo_event ''b'' ''1'')] empty_events)))"
  using ingest_is_exactly_once [of "[Ingest 1 (demo_event ''a'' ''1''), Ingest 2 (demo_event ''b'' ''1'')]"
      "demo_event ''a'' ''1''" 1 9]
  by (simp add: delivered_def demo_event_def)

text \<open>The key does not separate its two parts: an event that was never delivered is dropped as a
  duplicate when the separator moves between source and id.\<close>

lemma ingest_confuses_identities:
  "fst (snd (ingest 10 2 (demo_event ''a|b'' ''c'')
     (run_ops 10 [Ingest 1 (demo_event ''a'' ''b|c'')] empty_events))) = False"
  by code_simp

end
