(* ===== verification/Fnmatch.thy ===== *)
theory Fnmatch
  imports Json
begin

text \<open>
  \<open>fnmatch.fnmatchcase\<close>: the shell patterns that subscriptions and protected paths are matched with.
  A star matches any run of characters, a question mark any one, a bracket a set of characters with
  ranges, \<open>!\<close> negating it; a bracket that is never closed stands for itself.
\<close>

text \<open>The text of a bracket up to its end: a bracket right after the opening is a member.\<close>

definition split_class :: "string \<Rightarrow> (bool \<times> string \<times> string) option" where
  "split_class p =
     (let (neg, q) = (case p of c # cs \<Rightarrow> if c = CHR ''!'' then (True, cs) else (False, p) | [] \<Rightarrow> (False, []));
          (lead, r) = (case q of c # cs \<Rightarrow> if c = CHR '']'' then ([c], cs) else ([], q) | [] \<Rightarrow> ([], []));
          body = takeWhile (\<lambda>c. c \<noteq> CHR '']'') r;
          rest = dropWhile (\<lambda>c. c \<noteq> CHR '']'') r
      in case rest of [] \<Rightarrow> None | c # cs \<Rightarrow> Some (neg, lead @ body, cs))"

fun class_mem :: "char \<Rightarrow> string \<Rightarrow> bool" where
  "class_mem c (a # b # d # rest) =
     (if b = CHR ''-'' then ((of_char a :: nat) \<le> of_char c \<and> (of_char c :: nat) \<le> of_char d) \<or> class_mem c rest
      else c = a \<or> class_mem c (b # d # rest))"
| "class_mem c (a # rest) = (c = a \<or> class_mem c rest)"
| "class_mem c [] = False"

lemma split_class_shorter: "split_class p = Some (neg, body, rest) \<Longrightarrow> length rest < length p"
proof -
  assume a: "split_class p = Some (neg, body, rest)"
  have d: "length cs < length r" if "dropWhile P r = c # cs" for P :: "char \<Rightarrow> bool" and r c cs
    using that length_dropWhile_le [of P r] by simp
  show ?thesis using a
    by (auto simp: split_class_def Let_def split: list.splits if_splits dest!: d)
qed

function (sequential) fnmatch :: "string \<Rightarrow> string \<Rightarrow> bool" where
  "fnmatch [] s = (s = [])"
| "fnmatch (p # ps) s =
     (if p = CHR ''*'' then fnmatch ps s \<or> (case s of [] \<Rightarrow> False | c # cs \<Rightarrow> fnmatch (p # ps) cs)
      else case s of
          [] \<Rightarrow> False
        | c # cs \<Rightarrow>
            if p = CHR ''?'' then fnmatch ps cs
            else if p = CHR ''['' then
              (case split_class ps of
                 None \<Rightarrow> c = p \<and> fnmatch ps cs
               | Some (neg, body, rest) \<Rightarrow> class_mem c body \<noteq> neg \<and> fnmatch rest cs)
            else c = p \<and> fnmatch ps cs)"
  by pat_completeness auto
termination
  by (relation "measure (\<lambda>(p, s). length p + length s)") (auto dest: split_class_shorter)

declare fnmatch.simps [simp del]

definition is_plain :: "char \<Rightarrow> bool" where
  "is_plain c = (c \<notin> {CHR ''*'', CHR ''?'', CHR ''[''})"

lemma fnmatch_star: "fnmatch ''*'' s"
  by (induction s) (simp_all add: fnmatch.simps)

lemma fnmatch_plain: "list_all is_plain p \<Longrightarrow> fnmatch p s \<longleftrightarrow> s = p"
proof (induction p arbitrary: s)
  case (Cons c p)
  then show ?case by (cases s) (auto simp: fnmatch.simps is_plain_def)
qed (simp add: fnmatch.simps)

lemma fnmatch_plain_star:
  "list_all is_plain p \<Longrightarrow> fnmatch (p @ ''*'') s \<longleftrightarrow> startswith s p"
proof (induction p arbitrary: s)
  case Nil
  then show ?case using fnmatch_star by simp
next
  case (Cons c p)
  then show ?case by (cases s) (auto simp: fnmatch.simps(2) is_plain_def startswith_def)
qed

end
