(* ===== verification/Json_Parse.thy ===== *)
theory Json_Parse
  imports Json
begin

text \<open>
  \<open>json.loads\<close> on ASCII text, as the program uses it on model replies: white space, literals,
  numbers, strings with escapes, arrays, objects whose repeated keys keep the last value. A malformed
  text is \<open>None\<close>, the \<open>JSONDecodeError\<close> of the library. The words \<open>NaN\<close> and \<open>Infinity\<close>, which the
  library also reads, and escapes beyond Latin-1 are outside the model and are \<open>None\<close> too.
\<close>

definition is_digit :: "char \<Rightarrow> bool" where
  "is_digit c = (let n = of_char c :: nat in 48 \<le> n \<and> n \<le> 57)"

definition digit_value :: "char \<Rightarrow> nat" where
  "digit_value c = of_char c - 48"

definition nat_of_digits :: "string \<Rightarrow> nat" where
  "nat_of_digits ds = fold (\<lambda>c n. 10 * n + digit_value c) ds 0"

definition json_space :: "char \<Rightarrow> bool" where
  "json_space c = (let n = of_char c :: nat in n = 32 \<or> n = 9 \<or> n = 10 \<or> n = 13)"

definition skip_ws :: "string \<Rightarrow> string" where
  "skip_ws s = dropWhile json_space s"

lemma length_skip_ws: "length (skip_ws s) \<le> length s"
  by (simp add: skip_ws_def length_dropWhile_le)

section \<open>Strings\<close>

definition hex_value :: "char \<Rightarrow> nat option" where
  "hex_value c =
     (let n = of_char c :: nat in
      if 48 \<le> n \<and> n \<le> 57 then Some (n - 48)
      else if 97 \<le> n \<and> n \<le> 102 then Some (n - 87)
      else if 65 \<le> n \<and> n \<le> 70 then Some (n - 55) else None)"

definition hex4 :: "char \<Rightarrow> char \<Rightarrow> char \<Rightarrow> char \<Rightarrow> char option" where
  "hex4 a b c d =
     (case (hex_value a, hex_value b, hex_value c, hex_value d) of
        (Some w, Some x, Some y, Some z) \<Rightarrow>
          let n = 4096 * w + 256 * x + 16 * y + z in if n < 256 then Some (char_of n) else None
      | _ \<Rightarrow> None)"

definition escape_char :: "char \<Rightarrow> char option" where
  "escape_char c =
     (let n = of_char c :: nat in
      if n = 34 \<or> n = 92 \<or> n = 47 then Some c
      else if n = 98 then Some (char_of (8 :: nat)) else if n = 102 then Some (char_of (12 :: nat))
      else if n = 110 then Some (char_of (10 :: nat)) else if n = 114 then Some (char_of (13 :: nat))
      else if n = 116 then Some (char_of (9 :: nat)) else None)"

text \<open>The text after the opening quote; the accumulator is reversed.\<close>

fun parse_chars :: "string \<Rightarrow> string \<Rightarrow> (string \<times> string) option" where
  "parse_chars acc [] = None"
| "parse_chars acc (c # cs) =
     (let n = of_char c :: nat in
      if n = 34 then Some (rev acc, cs)
      else if n = 92 then
        (case cs of
           [] \<Rightarrow> None
         | e # es \<Rightarrow>
             if (of_char e :: nat) = 117 then
               (case es of
                  h1 # h2 # h3 # h4 # rest \<Rightarrow>
                    (case hex4 h1 h2 h3 h4 of None \<Rightarrow> None | Some x \<Rightarrow> parse_chars (x # acc) rest)
                | _ \<Rightarrow> None)
             else (case escape_char e of None \<Rightarrow> None | Some x \<Rightarrow> parse_chars (x # acc) es))
      else if n < 32 then None
      else parse_chars (c # acc) cs)"

section \<open>Numbers\<close>

definition digits_prefix :: "string \<Rightarrow> string \<times> string" where
  "digits_prefix s = (takeWhile is_digit s, dropWhile is_digit s)"

text \<open>An exponent is taken only when a digit follows it, as the library's pattern does.\<close>

definition parse_exponent :: "string \<Rightarrow> int option \<times> string" where
  "parse_exponent s =
     (case s of
        e # r \<Rightarrow>
          if (of_char e :: nat) = 101 \<or> (of_char e :: nat) = 69 then
            (let (neg, r') = (case r of
                 c # cs \<Rightarrow> if (of_char c :: nat) = 45 then (True, cs)
                           else if (of_char c :: nat) = 43 then (False, cs) else (False, r)
               | [] \<Rightarrow> (False, []));
                 (ds, rest) = digits_prefix r'
             in if ds = [] then (None, s)
                else (Some (if neg then - int (nat_of_digits ds) else int (nat_of_digits ds)), rest))
          else (None, s)
      | [] \<Rightarrow> (None, []))"

definition scale10 :: "rat \<Rightarrow> int \<Rightarrow> rat" where
  "scale10 q e = (if 0 \<le> e then q * 10 ^ nat e else q / 10 ^ nat (- e))"

definition parse_number :: "string \<Rightarrow> (json \<times> string) option" where
  "parse_number s =
     (let (neg, r) = (case s of c # cs \<Rightarrow> if (of_char c :: nat) = 45 then (True, cs) else (False, s)
                      | [] \<Rightarrow> (False, []));
          sign = (if neg then -1 else 1 :: int);
          (all_digits, _) = digits_prefix r;
          int_digits = (case all_digits of [] \<Rightarrow> [] | d # ds \<Rightarrow> if digit_value d = 0 then [d] else d # ds);
          r1 = drop (length int_digits) r
      in if int_digits = [] then None
         else
           let (frac, r2) = (case r1 of
                  c # cs \<Rightarrow> if (of_char c :: nat) = 46 \<and> fst (digits_prefix cs) \<noteq> []
                            then (Some (fst (digits_prefix cs)), snd (digits_prefix cs)) else (None, r1)
                | [] \<Rightarrow> (None, []));
               (ex, r3) = parse_exponent r2;
               whole = sign * int (nat_of_digits int_digits)
           in if frac = None \<and> ex = None then Some (JInt whole, r3)
              else
                let fds = (case frac of None \<Rightarrow> [] | Some f \<Rightarrow> f);
                    mantissa = of_int (sign * int (nat_of_digits (int_digits @ fds))) / 10 ^ length fds
                in Some (JFloat (scale10 mantissa (case ex of None \<Rightarrow> 0 | Some e \<Rightarrow> e)), r3))"

section \<open>Values\<close>

text \<open>
  The three parsers expect their input with leading white space skipped. The comparisons of lengths
  only say what always holds, that a parser consumes its input; they give the recursion its measure.
\<close>

function (sequential) parse_value :: "string \<Rightarrow> (json \<times> string) option"
  and parse_items :: "string \<Rightarrow> (json list \<times> string) option"
  and parse_pairs :: "string \<Rightarrow> (obj \<times> string) option" where
  "parse_value [] = None"
| "parse_value (c # cs) =
     (let n = of_char c :: nat in
      if n = 34 then (case parse_chars [] cs of None \<Rightarrow> None | Some (x, r) \<Rightarrow> Some (JStr x, r))
      else if n = 91 then
        (let r = skip_ws cs in
         if r \<noteq> [] \<and> (of_char (hd r) :: nat) = 93 then Some (JList [], tl r)
         else if length r \<le> length cs then
           (case parse_items r of None \<Rightarrow> None | Some (xs, r') \<Rightarrow> Some (JList xs, r'))
         else None)
      else if n = 123 then
        (let r = skip_ws cs in
         if r \<noteq> [] \<and> (of_char (hd r) :: nat) = 125 then Some (JObj [], tl r)
         else if length r \<le> length cs then
           (case parse_pairs r of
              None \<Rightarrow> None
            | Some (d, r') \<Rightarrow> Some (JObj (fold (\<lambda>(k, v). dput k v) d []), r'))
         else None)
      else if startswith (c # cs) ''null'' then Some (JNull, drop 3 cs)
      else if startswith (c # cs) ''true'' then Some (JBool True, drop 3 cs)
      else if startswith (c # cs) ''false'' then Some (JBool False, drop 4 cs)
      else parse_number (c # cs))"
| "parse_items s =
     (case parse_value s of
        None \<Rightarrow> None
      | Some (v, r0) \<Rightarrow>
          let r = skip_ws r0 in
          (case r of
             [] \<Rightarrow> None
           | d # ds \<Rightarrow>
               if (of_char d :: nat) = 93 then Some ([v], ds)
               else if (of_char d :: nat) = 44 \<and> length (skip_ws ds) < length s then
                 (case parse_items (skip_ws ds) of None \<Rightarrow> None | Some (vs, r') \<Rightarrow> Some (v # vs, r'))
               else None))"
| "parse_pairs s =
     (case s of
        [] \<Rightarrow> None
      | q # qs \<Rightarrow>
          if (of_char q :: nat) \<noteq> 34 then None
          else case parse_chars [] qs of
              None \<Rightarrow> None
            | Some (k, r0) \<Rightarrow>
                let r = skip_ws r0 in
                (case r of
                   [] \<Rightarrow> None
                 | col # r1 \<Rightarrow>
                     if (of_char col :: nat) \<noteq> 58 \<or> \<not> length (skip_ws r1) < length s then None
                     else case parse_value (skip_ws r1) of
                         None \<Rightarrow> None
                       | Some (v, r2) \<Rightarrow>
                           let r3 = skip_ws r2 in
                           (case r3 of
                              [] \<Rightarrow> None
                            | d # ds \<Rightarrow>
                                if (of_char d :: nat) = 125 then Some ([(k, v)], ds)
                                else if (of_char d :: nat) = 44 \<and> length (skip_ws ds) < length s then
                                  (case parse_pairs (skip_ws ds) of
                                     None \<Rightarrow> None
                                   | Some (kvs, r') \<Rightarrow> Some ((k, v) # kvs, r'))
                                else None)))"
  by pat_completeness auto
termination
  by (relation "measure (\<lambda>x. case x of Inl s \<Rightarrow> 2 * length s
                                     | Inr (Inl s) \<Rightarrow> 2 * length s + 1
                                     | Inr (Inr s) \<Rightarrow> 2 * length s + 1)") auto

declare parse_value.simps [simp del] parse_items.simps [simp del] parse_pairs.simps [simp del]

definition loads :: "string \<Rightarrow> json option" where
  "loads s =
     (case parse_value (skip_ws s) of
        None \<Rightarrow> None
      | Some (v, r) \<Rightarrow> if skip_ws r = [] then Some v else None)"

text \<open>What the decoder returns has no dict with a repeated key.\<close>

lemma wf_obj_dput: "wf_obj d \<Longrightarrow> wf_json v \<Longrightarrow> wf_obj (dput k v d)"
  by (induction d) auto

lemma wf_obj_fold:
  "wf_obj d \<Longrightarrow> wf_obj acc \<Longrightarrow> distinct (dkeys acc) \<Longrightarrow>
   wf_obj (fold (\<lambda>(k, v). dput k v) d acc) \<and> distinct (dkeys (fold (\<lambda>(k, v). dput k v) d acc))"
  by (induction d arbitrary: acc) (auto simp: wf_obj_dput distinct_update)

lemma parse_wf:
  "parse_value s = Some (v, r) \<Longrightarrow> wf_json v"
  "parse_items s = Some (vs, r) \<Longrightarrow> wf_jsons vs"
  "parse_pairs s = Some (d, r) \<Longrightarrow> wf_obj d"
proof (induction s and s and s arbitrary: v r and vs r and d r rule: parse_value_parse_items_parse_pairs.induct)
  case (2 c cs)
  then show ?case
    by (auto simp: parse_value.simps Let_def parse_number_def case_prod_beta wf_obj_fold
        split: if_splits option.splits prod.splits)
next
  case (3 s)
  then show ?case
    by (auto simp: parse_items.simps [of s] Let_def split: if_splits option.splits list.splits prod.splits)
next
  case (4 s)
  show ?case
  proof (cases s)
    case (Cons q qs)
    have IH: "parse_value (skip_ws r1) = Some (v, r2) \<Longrightarrow> wf_json v"
      "parse_pairs (skip_ws ds) = Some (kvs, r') \<Longrightarrow> wf_obj kvs"
      if "(of_char q :: nat) = 34" "parse_chars [] qs = Some (k, r0)" "skip_ws r0 = col # r1"
        "(of_char col :: nat) = 58" "length (skip_ws r1) < Suc (length qs)"
        "parse_value (skip_ws r1) = Some (v0, r20)" "skip_ws r20 = d # ds"
        "(of_char d :: nat) = 44" "length (skip_ws ds) < Suc (length qs)"
      for k r0 col r1 v r2 v0 r20 d ds kvs r'
      using "4.IH" that Cons by auto
    have IH0: "parse_value (skip_ws r1) = Some (v, r2) \<Longrightarrow> wf_json v"
      if "(of_char q :: nat) = 34" "parse_chars [] qs = Some (k, r0)" "skip_ws r0 = col # r1"
        "(of_char col :: nat) = 58" "length (skip_ws r1) < Suc (length qs)"
      for k r0 col r1 v r2
      using "4.IH" that Cons by auto
    show ?thesis using "4.prems" Cons
      by (auto simp: parse_pairs.simps [of "q # qs"] Let_def intro: IH0 IH
          split: if_splits option.splits list.splits prod.splits)
  qed (use "4.prems" in \<open>simp add: parse_pairs.simps\<close>)
qed (simp_all add: parse_value.simps)

lemma loads_wf: "loads s = Some v \<Longrightarrow> wf_json v"
  using parse_wf(1) by (auto simp: loads_def split: option.splits if_splits)

end
