(* ===== verification/Event_Governor.thy ===== *)
theory Event_Governor
  imports Event_History Fnmatch Json_Parse
begin

text \<open>
  \<open>AutonomyGovernor\<close> (\<open>events/governor.py\<close>): what may be answered, triaged and run. A moment is an
  instant in microseconds with the UTC day it falls on, as \<open>_day\<close> prints it.
\<close>

record moment =
  mo_micros :: int
  mo_day :: string

record verdict =
  vd_admitted :: bool
  vd_control :: string
  vd_budget :: "rat option"

definition admitted_verdict :: verdict where
  "admitted_verdict = \<lparr>vd_admitted = True, vd_control = [], vd_budget = None\<rparr>"

definition refused_by :: "string \<Rightarrow> verdict" where
  "refused_by control = \<lparr>vd_admitted = False, vd_control = control, vd_budget = None\<rparr>"

record governor =
  go_self_actors :: "string list"
  go_events_per_minute :: int

definition actor_of :: "envelope \<Rightarrow> string" where
  "actor_of e = strip (case en_actor e of None \<Rightarrow> [] | Some a \<Rightarrow> a)"

definition admit_event :: "governor \<Rightarrow> envelope \<Rightarrow> moment \<Rightarrow> event_state \<Rightarrow> verdict" where
  "admit_event go e mo st =
     (if actor_of e \<noteq> [] \<and> actor_of e \<in> set (go_self_actors go) then refused_by ''self_trigger''
      else if go_events_per_minute go > 0 \<and>
              int (count_recent (en_source e) (mo_micros mo - 60000000) st) \<ge> go_events_per_minute go
      then refused_by ''source_rate_limit''
      else admitted_verdict)"

definition admit_triage :: "subscription \<Rightarrow> moment \<Rightarrow> event_state \<Rightarrow> verdict" where
  "admit_triage s mo st =
     (case su_daily_triage s of
        None \<Rightarrow> admitted_verdict
      | Some limit \<Rightarrow>
          if window_spend (su_id s) (mo_day mo) ''triage'' st \<ge> limit then refused_by ''daily_triage_budget''
          else admitted_verdict)"

definition admit_run :: "subscription \<Rightarrow> moment \<Rightarrow> event_state \<Rightarrow> verdict \<times> event_state" where
  "admit_run s mo st =
     (let spent = window_spend (su_id s) (mo_day mo) ''run'' st;
          remaining = (case su_daily_budget s of None \<Rightarrow> None | Some limit \<Rightarrow> Some (limit - spent))
      in if (case su_daily_budget s of None \<Rightarrow> False | Some limit \<Rightarrow> spent \<ge> limit)
         then (refused_by ''daily_budget'', st)
         else
           (case window_reserve (su_id s) (mo_day mo) ''run'' (su_max_runs s) st of
              ((False, _), st') \<Rightarrow> (refused_by ''max_runs_per_day'', st')
            | ((True, _), st') \<Rightarrow>
                (case remaining of
                   None \<Rightarrow> (admitted_verdict, st')
                 | Some left \<Rightarrow>
                     (admitted_verdict\<lparr>vd_budget :=
                        Some (min (case su_budget s of None \<Rightarrow> left | Some b \<Rightarrow> b) left)\<rparr>, st'))))"

definition governor_record :: "string \<Rightarrow> string \<Rightarrow> rat \<Rightarrow> moment \<Rightarrow> int \<Rightarrow> event_state \<Rightarrow> event_state" where
  "governor_record sub kind usd mo n st = window_record sub (mo_day mo) kind usd n st"

record governor_snapshot =
  gs_runs :: int
  gs_run_spend :: rat
  gs_triage_decisions :: int
  gs_triage_spend :: rat

definition governor_snapshot_of :: "subscription \<Rightarrow> moment \<Rightarrow> event_state \<Rightarrow> governor_snapshot" where
  "governor_snapshot_of s mo st =
     \<lparr>gs_runs = window_count (su_id s) (mo_day mo) ''run'' st,
      gs_run_spend = window_spend (su_id s) (mo_day mo) ''run'' st,
      gs_triage_decisions = window_count (su_id s) (mo_day mo) ''triage'' st,
      gs_triage_spend = window_spend (su_id s) (mo_day mo) ''triage'' st\<rparr>"

section \<open>Matching and reading the gate's reply\<close>

definition event_matches :: "subscription \<Rightarrow> envelope \<Rightarrow> bool" where
  "event_matches s e = (su_enabled s \<and> list_ex (\<lambda>p. fnmatch p (en_type e)) (su_event_types s) \<and>
     list_ex (\<lambda>p. fnmatch p (en_source e)) (su_sources s))"

definition self_caused :: "subscription \<Rightarrow> envelope \<Rightarrow> bool" where
  "self_caused s e = (actor_of e \<noteq> [] \<and> actor_of e \<in> set (su_ignore_actors s))"

text \<open>\<open>text.split("\n", 1)[-1]\<close> and \<open>text.rsplit(sep, 1)[0]\<close>.\<close>

definition after_newline :: "string \<Rightarrow> string" where
  "after_newline s = (case dropWhile (\<lambda>c. (of_char c :: nat) \<noteq> 10) s of [] \<Rightarrow> s | c # cs \<Rightarrow> cs)"

fun find_last :: "string \<Rightarrow> string \<Rightarrow> string option" where
  "find_last sep [] = None"
| "find_last sep (c # cs) =
     (case find_last sep cs of
        Some r \<Rightarrow> Some (c # r)
      | None \<Rightarrow> if startswith (c # cs) sep then Some [] else None)"

definition before_last :: "string \<Rightarrow> string \<Rightarrow> string" where
  "before_last sep s = (case find_last sep s of None \<Rightarrow> s | Some r \<Rightarrow> r)"

definition unfence :: "string \<Rightarrow> string" where
  "unfence s = (let c = strip s in
     if startswith c ''```'' then before_last ''```'' (after_newline c) else c)"

definition json_object :: "string \<Rightarrow> obj result" where
  "json_object s =
     (case loads (unfence s) of
        None \<Rightarrow> Inl ValueError
      | Some (JObj d) \<Rightarrow> Inr d
      | Some _ \<Rightarrow> Inl ValueError)"

text \<open>\<open>_spend_of\<close>; a price given as a string is outside the model and counts as nothing.\<close>

definition num_or_zero :: "json \<Rightarrow> rat" where
  "num_or_zero v = (case num_of v of None \<Rightarrow> 0 | Some q \<Rightarrow> q)"

definition spend_of :: "obj \<Rightarrow> rat" where
  "spend_of reply =
     (case jget reply ''metered_calls'' of
        JList calls \<Rightarrow>
          sum_list (map (\<lambda>c. case c of
              JObj d \<Rightarrow> num_or_zero (or_else (jget d ''cost_usd'') (jget d ''usd''))
            | _ \<Rightarrow> 0) calls)
      | _ \<Rightarrow> 0)"

text \<open>The fields of the gate's answer, or the \<open>ValueError\<close> of a malformed one.\<close>

definition gate_fields :: "obj \<Rightarrow> (bool \<times> string \<times> string) result" where
  "gate_fields reply =
     bind_r (json_object (case jget reply ''text'' of JStr t \<Rightarrow> t | _ \<Rightarrow> [])) (\<lambda>raw.
       case (jget raw ''relevant'', jget raw ''reason'', jget raw ''goal'') of
         (JBool relevant, JStr why, JStr goal) \<Rightarrow>
           Inr (relevant, take 2000 why, if relevant then take 20000 goal else [])
       | _ \<Rightarrow> Inl ValueError)"

section \<open>Facts\<close>

lemma admit_run_cases:
  assumes "admit_run s mo st = (v, st')"
  obtains (no) "\<not> vd_admitted v" "st' = st"
  | (yes) n where "vd_admitted v" "window_reserve (su_id s) (mo_day mo) ''run'' (su_max_runs s) st = ((True, n), st')"
      "\<forall>b. su_daily_budget s = Some b \<longrightarrow> window_spend (su_id s) (mo_day mo) ''run'' st < b \<and>
         (\<exists>x. vd_budget v = Some x \<and> x \<le> b - window_spend (su_id s) (mo_day mo) ''run'' st \<and>
           (\<forall>p. su_budget s = Some p \<longrightarrow> x \<le> p))"
proof -
  obtain ok n u where r: "window_reserve (su_id s) (mo_day mo) ''run'' (su_max_runs s) st = ((ok, n), u)"
    by (metis surj_pair)
  show thesis
  proof (cases "(case su_daily_budget s of None \<Rightarrow> False | Some limit \<Rightarrow> window_spend (su_id s) (mo_day mo) ''run'' st \<ge> limit)")
    case True
    then show thesis using assms no by (auto simp: admit_run_def Let_def refused_by_def)
  next
    case False
    show thesis
    proof (cases ok)
      case True
      with False r assms show thesis
        by (intro yes [of n]) (auto simp: admit_run_def Let_def admitted_verdict_def split: option.splits)
    next
      case notok: False
      then have "u = st" using r by (auto simp: window_reserve_def Let_def split: if_splits option.splits)
      with False notok r assms show thesis by (intro no) (auto simp: admit_run_def Let_def refused_by_def)
    qed
  qed
qed

end
