(* ===== verification/Event_Engine.thy ===== *)
theory Event_Engine
  imports Event_Governor
begin

text \<open>
  \<open>AutonomousEventEngine.process\<close> (\<open>events/engine.py\<close>). An arriving event is admitted, stored, and
  fanned out into one decision task per matching subscription. A task awaits twice, on the gate's
  model call and on the run, so it has three steps, and any tasks of any events interleave between
  them. The log records every run that was dispatched.
\<close>

datatype stage = Queued | Asked moment | Running_since moment

record gate_task =
  gt_event :: envelope
  gt_subscription :: subscription
  gt_stage :: stage
  gt_triage_cost :: rat
  gt_reason :: string
  gt_goal :: string
  gt_budget :: "rat option"

record engine =
  eg_store :: event_state
  eg_tasks :: "gate_task list"
  eg_dispatched :: "(string \<times> string \<times> rat option) list"

record engine_args =
  ea_governor :: governor
  ea_history_limit :: int
  ea_max_concurrent :: nat

datatype arrival = Refused_event verdict | Duplicate_event "event_record \<times> bool" | Accepted_event event_record "subscription list"

text \<open>\<open>f"event {source}/{id}"\<close>\<close>

definition beat_note :: "envelope \<Rightarrow> string" where
  "beat_note e = ''event '' @ en_source e @ ''/'' @ en_id e"

definition new_gate_task :: "envelope \<Rightarrow> subscription \<Rightarrow> gate_task" where
  "new_gate_task e s = \<lparr>gt_event = e, gt_subscription = s, gt_stage = Queued, gt_triage_cost = 0,
     gt_reason = [], gt_goal = [], gt_budget = None\<rparr>"

text \<open>\<open>process\<close> up to the fan-out.\<close>

definition arrive :: "engine_args \<Rightarrow> envelope \<Rightarrow> moment \<Rightarrow> engine \<Rightarrow> arrival \<times> engine" where
  "arrive a e mo eg =
     (let st = beat (mo_micros mo) (beat_note e) (eg_store eg);
          v = admit_event (ea_governor a) e mo st
      in if \<not> vd_admitted v
         then (Refused_event v, eg\<lparr>eg_store :=
                 store_refuse (ea_history_limit a) (mo_micros mo) (vd_control v) (Some e) None st\<rparr>)
         else
           let (r, fresh, st') = ingest (ea_history_limit a) (mo_micros mo) e st
           in if \<not> fresh then (Duplicate_event r, eg\<lparr>eg_store := st'\<rparr>)
              else
                let matching = filter (\<lambda>s. event_matches s e \<and> \<not> self_caused s e) (subscriptions st')
                in (Accepted_event (fst r) matching,
                    eg\<lparr>eg_store := st', eg_tasks := eg_tasks eg @ map (new_gate_task e) matching\<rparr>))"

definition decision_of :: "gate_task \<Rightarrow> ev_decision" where
  "decision_of t = \<lparr>dc_subscription = su_id (gt_subscription t), dc_relevant = True, dc_reason = gt_reason t,
     dc_goal = gt_goal t, dc_refused_by = None, dc_triage_cost = Some (gt_triage_cost t), dc_acted = None,
     dc_run_id = None, dc_run_status = None, dc_failed = False, dc_reply = None\<rparr>"

definition refusal_decision :: "gate_task \<Rightarrow> string \<Rightarrow> ev_decision" where
  "refusal_decision t control = (decision_of t)\<lparr>dc_relevant := False, dc_reason := [], dc_goal := [],
     dc_refused_by := Some control, dc_triage_cost := None\<rparr>"

definition failed_decision :: "gate_task \<Rightarrow> ev_decision" where
  "failed_decision t = (decision_of t)\<lparr>dc_relevant := False, dc_reason := [], dc_goal := [],
     dc_triage_cost := None, dc_failed := True\<rparr>"

definition put_decision :: "moment \<Rightarrow> gate_task \<Rightarrow> ev_decision \<Rightarrow> event_state \<Rightarrow> event_state" where
  "put_decision mo t d st =
     add_decision (mo_micros mo) (en_source (gt_event t)) (en_id (gt_event t)) d st"

definition refuse_task :: "engine_args \<Rightarrow> moment \<Rightarrow> gate_task \<Rightarrow> string \<Rightarrow> event_state \<Rightarrow> event_state" where
  "refuse_task a mo t control st =
     store_refuse (ea_history_limit a) (mo_micros mo) control (Some (gt_event t))
       (Some (su_id (gt_subscription t))) st"

text \<open>\<open>decide\<close> up to the gate's model call: \<open>None\<close> when the task is over.\<close>

definition ask_gate :: "engine_args \<Rightarrow> moment \<Rightarrow> gate_task \<Rightarrow> event_state \<Rightarrow> gate_task option \<times> event_state" where
  "ask_gate a mo t st =
     (let v = admit_triage (gt_subscription t) mo st
      in if vd_admitted v then (Some (t\<lparr>gt_stage := Asked mo\<rparr>), st)
         else (None, put_decision mo t (refusal_decision t (vd_control v)) (refuse_task a mo t (vd_control v) st)))"

text \<open>From the reply to the run: the task's error, or the next stage and the run it dispatches.\<close>

definition hear_gate :: "engine_args \<Rightarrow> moment \<Rightarrow> obj \<Rightarrow> gate_task \<Rightarrow> event_state \<Rightarrow>
   gate_task option result \<times> event_state" where
  "hear_gate a mo reply t st =
     (let sub = gt_subscription t; price = spend_of reply;
          st1 = governor_record (su_id sub) ''triage'' price mo 1 st
      in case gate_fields reply of
           Inl e \<Rightarrow> (Inl e, st1)
         | Inr (relevant, why, goal) \<Rightarrow>
             let t1 = t\<lparr>gt_triage_cost := price, gt_reason := why, gt_goal := goal\<rparr>
             in if \<not> relevant
                then (Inr None, put_decision mo t1 ((decision_of t1)\<lparr>dc_relevant := False\<rparr>) st1)
                else
                  let (v, st2) = admit_run sub mo st1
                  in if \<not> vd_admitted v
                     then (Inr None, put_decision mo t1
                            ((decision_of t1)\<lparr>dc_acted := Some False, dc_refused_by := Some (vd_control v)\<rparr>)
                            (refuse_task a mo t1 (vd_control v) st2))
                     else (Inr (Some (t1\<lparr>gt_stage := Running_since mo,
                             gt_budget := (case vd_budget v of None \<Rightarrow> su_budget sub | Some b \<Rightarrow> Some b)\<rparr>)), st2))"

text \<open>After the run: its spend, then the decision.\<close>

definition finish_task :: "moment \<Rightarrow> obj \<Rightarrow> gate_task \<Rightarrow> event_state \<Rightarrow> event_state" where
  "finish_task mo res t st =
     (let st1 = governor_record (su_id (gt_subscription t)) ''run'' (num_or_zero (or_else (jget res ''spend_usd'') (JFloat 0))) mo 0 st
      in put_decision mo t
           ((decision_of t)\<lparr>dc_acted := Some True,
              dc_run_id := (case jget res ''run_id'' of JStr r \<Rightarrow> Some r | _ \<Rightarrow> None),
              dc_run_status := (case jget res ''status'' of JStr r \<Rightarrow> Some r | _ \<Rightarrow> None)\<rparr>) st1)"

definition fail_task :: "engine_args \<Rightarrow> moment \<Rightarrow> gate_task \<Rightarrow> event_state \<Rightarrow> event_state" where
  "fail_task a mo t st = put_decision mo t (failed_decision t) (refuse_task a mo t ''triage_failed'' st)"

definition active_tasks :: "engine \<Rightarrow> gate_task list" where
  "active_tasks eg = filter (\<lambda>t. gt_stage t \<noteq> Queued) (eg_tasks eg)"

definition replace_task :: "nat \<Rightarrow> gate_task option \<Rightarrow> gate_task list \<Rightarrow> gate_task list" where
  "replace_task i t ts = (case t of None \<Rightarrow> take i ts @ drop (Suc i) ts | Some x \<Rightarrow> ts[i := x])"

text \<open>\<open>P\<close> says which subscriptions are ever put.\<close>

inductive engine_step :: "engine_args \<Rightarrow> (subscription \<Rightarrow> bool) \<Rightarrow> engine \<Rightarrow> engine \<Rightarrow> bool" for a P where
  es_arrive: "engine_step a P eg (snd (arrive a e mo eg))"
| es_subscribe: "P s \<Longrightarrow> engine_step a P eg (eg\<lparr>eg_store := put_subscription s (eg_store eg)\<rparr>)"
| es_ask: "i < length (eg_tasks eg) \<Longrightarrow> gt_stage (eg_tasks eg ! i) = Queued \<Longrightarrow>
    length (active_tasks eg) < ea_max_concurrent a \<Longrightarrow>
    ask_gate a mo (eg_tasks eg ! i) (eg_store eg) = (t, st) \<Longrightarrow>
    engine_step a P eg (eg\<lparr>eg_store := st, eg_tasks := replace_task i t (eg_tasks eg)\<rparr>)"
| es_hear: "i < length (eg_tasks eg) \<Longrightarrow> gt_stage (eg_tasks eg ! i) = Asked mo \<Longrightarrow>
    hear_gate a mo reply (eg_tasks eg ! i) (eg_store eg) = (Inr t, st) \<Longrightarrow>
    engine_step a P eg (eg\<lparr>eg_store := st, eg_tasks := replace_task i t (eg_tasks eg),
      eg_dispatched := eg_dispatched eg @ (case t of None \<Rightarrow> []
        | Some x \<Rightarrow> [(su_id (gt_subscription x), mo_day mo, gt_budget x)])\<rparr>)"
| es_hear_fail: "i < length (eg_tasks eg) \<Longrightarrow> gt_stage (eg_tasks eg ! i) = Asked mo \<Longrightarrow>
    hear_gate a mo reply (eg_tasks eg ! i) (eg_store eg) = (Inl err, st) \<Longrightarrow>
    engine_step a P eg (eg\<lparr>eg_store := fail_task a mo' (eg_tasks eg ! i) st, eg_tasks := replace_task i None (eg_tasks eg)\<rparr>)"
| es_ask_fail: "i < length (eg_tasks eg) \<Longrightarrow> gt_stage (eg_tasks eg ! i) = Asked mo \<Longrightarrow>
    engine_step a P eg (eg\<lparr>eg_store := fail_task a mo' (eg_tasks eg ! i) (eg_store eg), eg_tasks := replace_task i None (eg_tasks eg)\<rparr>)"
| es_finish: "i < length (eg_tasks eg) \<Longrightarrow> gt_stage (eg_tasks eg ! i) = Running_since mo \<Longrightarrow>
    engine_step a P eg (eg\<lparr>eg_store := finish_task mo res (eg_tasks eg ! i) (eg_store eg), eg_tasks := replace_task i None (eg_tasks eg)\<rparr>)"
| es_run_fail: "i < length (eg_tasks eg) \<Longrightarrow> gt_stage (eg_tasks eg ! i) = Running_since mo \<Longrightarrow>
    engine_step a P eg (eg\<lparr>eg_store := fail_task a mo' (eg_tasks eg ! i) (eg_store eg), eg_tasks := replace_task i None (eg_tasks eg)\<rparr>)"

end
