(* ===== verification/Event_Engine_Props.thy ===== *)
theory Event_Engine_Props
  imports Event_Engine
begin

text \<open>
  The bounds on unattended operation: however decision tasks interleave, the runs dispatched for a
  subscription in a day never pass its ceiling, and no more tasks are past the gate than the engine
  has slots.
\<close>

section \<open>What touches the windows\<close>

lemma windows_frame [simp]:
  "es_windows (beat now note st) = es_windows st"
  "es_windows (store_refuse cap now c oe s st) = es_windows st"
  "es_windows (add_decision now so i d st) = es_windows st"
  "es_windows (compact_history cap st) = es_windows st"
  "es_windows (snd (snd (ingest cap now e st))) = es_windows st"
  "es_windows (put_subscription su st) = es_windows st"
  "es_windows (refuse_task a mo t c st) = es_windows st"
  "es_windows (put_decision mo t d st) = es_windows st"
proof -
  show c: "es_windows (compact_history cap st) = es_windows st" for st
    by (simp add: compact_history_def Let_def)
  show "es_windows (snd (snd (ingest cap now e st))) = es_windows st"
    by (simp add: ingest_def Let_def c split: option.split)
  show a: "es_windows (add_decision now so i d st) = es_windows st" for now so i d st
    by (simp add: add_decision_def split: option.split)
  show "es_windows (put_decision mo t d st) = es_windows st" by (simp add: put_decision_def a)
qed (simp_all add: beat_def store_refuse_def put_subscription_def refuse_task_def)

lemma subscriptions_frame [simp]:
  "es_subscriptions (beat now note st) = es_subscriptions st"
  "es_subscriptions (store_refuse cap now c oe s st) = es_subscriptions st"
  "es_subscriptions (add_decision now so i d st) = es_subscriptions st"
  "es_subscriptions (compact_history cap st) = es_subscriptions st"
  "es_subscriptions (snd (snd (ingest cap now e st))) = es_subscriptions st"
  "es_subscriptions (refuse_task a mo t c st) = es_subscriptions st"
  "es_subscriptions (put_decision mo t d st) = es_subscriptions st"
  "es_subscriptions (put_window sub day kind w st) = es_subscriptions st"
  "es_subscriptions (governor_record sub kind usd mo n st) = es_subscriptions st"
proof -
  show c: "es_subscriptions (compact_history cap st) = es_subscriptions st" for st
    by (simp add: compact_history_def Let_def)
  show "es_subscriptions (snd (snd (ingest cap now e st))) = es_subscriptions st"
    by (simp add: ingest_def Let_def c split: option.split)
  show a: "es_subscriptions (add_decision now so i d st) = es_subscriptions st" for now so i d st
    by (simp add: add_decision_def split: option.split)
  show "es_subscriptions (put_decision mo t d st) = es_subscriptions st" by (simp add: put_decision_def a)
qed (simp_all add: beat_def store_refuse_def refuse_task_def put_window_def governor_record_def
    window_record_def Let_def)

lemma window_entry_cong: "es_windows st' = es_windows st \<Longrightarrow> window_entry sub day kind st' = window_entry sub day kind st"
  by (simp add: window_entry_def)

lemma window_count_cong: "es_windows st' = es_windows st \<Longrightarrow> window_count sub day kind st' = window_count sub day kind st"
  by (simp add: window_count_def window_entry_def)

lemma window_entry_put_other:
  "window_entry sub day kind (put_window sub' day' kind' w st) =
     (if window_key sub day = window_key sub' day' \<and> kind = kind' then w else window_entry sub day kind st)"
  by (auto simp: window_entry_def put_window_def dget_or_def split: option.split)

lemma window_key_inj:
  "CHR ''|'' \<notin> set s \<Longrightarrow> CHR ''|'' \<notin> set s' \<Longrightarrow> window_key s d = window_key s' d' \<Longrightarrow> s = s' \<and> d = d'"
  using event_key_inj [of s s' d d'] by (simp add: window_key_def event_key_def)

lemma window_entry_key:
  "window_key sub day = window_key sub' day' \<Longrightarrow> window_entry sub day kind st = window_entry sub' day' kind st"
  by (simp add: window_entry_def)

lemma count_governor_record:
  "window_count sub day kind (governor_record sub' kind' usd mo n st) =
     window_count sub day kind st +
       (if window_key sub day = window_key sub' (mo_day mo) \<and> kind = kind' then n else 0)"
  using window_entry_key [of sub day sub' "mo_day mo" kind' st]
  by (auto simp: governor_record_def window_record_def window_count_def Let_def window_entry_put_other)

lemma count_reserve:
  assumes "window_reserve sub' day' kind' limit st = ((True, n), st')"
  shows "window_count sub day kind st' = window_count sub day kind st +
    (if window_key sub day = window_key sub' day' \<and> kind = kind' then 1 else 0)"
proof -
  have "st' = put_window sub' day' kind' ((window_entry sub' day' kind' st)\<lparr>w_count := w_count (window_entry sub' day' kind' st) + 1\<rparr>) st"
    using assms by (auto simp: window_reserve_def Let_def split: if_splits)
  then show ?thesis using window_entry_key [of sub day sub' day' kind' st]
    by (auto simp: window_count_def window_entry_put_other)
qed

lemma reserve_subscriptions:
  "window_reserve sub' day' kind' limit st = (r, st') \<Longrightarrow> es_subscriptions st' = es_subscriptions st"
  by (auto simp: window_reserve_def Let_def split: if_splits)

section \<open>One task's step, seen from the run window\<close>

definition runs_on :: "string \<Rightarrow> string \<Rightarrow> (string \<times> string \<times> rat option) list \<Rightarrow> nat" where
  "runs_on sid day ds = length (filter (\<lambda>(i, d, b). i = sid \<and> d = day) ds)"

lemma hear_gate_runs:
  assumes "hear_gate a mo reply t st = (res, st')" and "CHR ''|'' \<notin> set (su_id (gt_subscription t))"
    and "CHR ''|'' \<notin> set sid"
  shows "es_subscriptions st' = es_subscriptions st \<and>
    (window_count sid day ''run'' st' = window_count sid day ''run'' st \<or>
       sid = su_id (gt_subscription t) \<and> day = mo_day mo \<and>
       window_count sid day ''run'' st' = window_count sid day ''run'' st + 1) \<and>
    (\<forall>x. res = Inr (Some x) \<longrightarrow> gt_subscription x = gt_subscription t \<and>
       window_count sid day ''run'' st' = window_count sid day ''run'' st +
         (if sid = su_id (gt_subscription t) \<and> day = mo_day mo then 1 else 0) \<and>
       (\<forall>l. su_max_runs (gt_subscription t) = Some l \<longrightarrow>
          window_count (su_id (gt_subscription t)) (mo_day mo) ''run'' st' \<le> l)) \<and>
    ((\<forall>x. res \<noteq> Inr (Some x)) \<longrightarrow> window_count sid day ''run'' st' = window_count sid day ''run'' st)"
proof -
  let ?s = "gt_subscription t"
  let ?st1 = "governor_record (su_id ?s) ''triage'' (spend_of reply) mo 1 st"
  have st1: "window_count i d ''run'' ?st1 = window_count i d ''run'' st" for i d
    by (simp add: count_governor_record)
  have sub1: "es_subscriptions ?st1 = es_subscriptions st" by simp
  show ?thesis
  proof (cases "gate_fields reply")
    case (Inl e)
    then have "res = Inl e" "st' = ?st1" using assms(1) by (auto simp: hear_gate_def Let_def)
    then show ?thesis using st1 sub1 by simp
  next
    case (Inr rwg)
    obtain relevant why goal where f: "rwg = (relevant, why, goal)" by (metis prod_cases3)
    show ?thesis
    proof (cases relevant)
      case False
      then have "\<exists>d t1. res = Inr None \<and> st' = put_decision mo t1 d ?st1"
        using assms(1) Inr f by (auto simp: hear_gate_def Let_def)
      then show ?thesis using st1 sub1 by (auto simp: window_count_cong [OF windows_frame(8)])
    next
      case True
      obtain v st2 where v: "admit_run ?s mo ?st1 = (v, st2)" by (meson surj_pair)
      from v show ?thesis
      proof (cases rule: admit_run_cases)
        case no
        have "\<exists>d t1 c. res = Inr None \<and> st' = put_decision mo t1 d (refuse_task a mo t1 c ?st1)"
          using assms(1) Inr f True v no by (auto simp: hear_gate_def Let_def)
        then show ?thesis using st1 sub1
          by (auto simp: window_count_cong [OF windows_frame(8)] window_count_cong [OF windows_frame(7)])
      next
        case (yes n)
        have r: "\<exists>x. res = Inr (Some x) \<and> gt_subscription x = ?s" "st' = st2"
          using assms(1) Inr f True v yes(1) by (auto simp: hear_gate_def Let_def)
        have k: "window_key sid day = window_key (su_id ?s) (mo_day mo) \<longleftrightarrow> sid = su_id ?s \<and> day = mo_day mo"
          using window_key_inj [OF assms(3,2)] by auto
        have c: "window_count sid day ''run'' st' = window_count sid day ''run'' st +
            (if sid = su_id ?s \<and> day = mo_day mo then 1 else 0)"
          using count_reserve [OF yes(2), of sid day "''run''"] st1 r(2) k by simp
        have "window_count (su_id ?s) (mo_day mo) ''run'' st2 \<le> l" if "su_max_runs ?s = Some l" for l
          using windows.reserve_taken [OF yes(2)] that by auto
        moreover have "es_subscriptions st' = es_subscriptions st"
          using reserve_subscriptions [OF yes(2)] r(2) sub1 by simp
        ultimately show ?thesis using r c by auto
      qed
    qed
  qed
qed

lemma ask_gate_runs:
  "ask_gate a mo t st = (t', st') \<Longrightarrow>
   es_subscriptions st' = es_subscriptions st \<and> window_count sid day k st' = window_count sid day k st \<and>
   (\<forall>x. t' = Some x \<longrightarrow> gt_subscription x = gt_subscription t)"
  by (auto simp: ask_gate_def Let_def window_count_cong [OF windows_frame(8)] window_count_cong [OF windows_frame(7)]
      split: if_splits)

lemma finish_task_runs:
  "es_subscriptions (finish_task mo res t st) = es_subscriptions st"
  "window_count sid day k (finish_task mo res t st) = window_count sid day k st"
  by (simp_all add: finish_task_def Let_def window_count_cong [OF windows_frame(8)] count_governor_record)

lemma fail_task_runs:
  "es_subscriptions (fail_task a mo t st) = es_subscriptions st"
  "window_count sid day k (fail_task a mo t st) = window_count sid day k st"
  by (simp_all add: fail_task_def window_count_cong [OF windows_frame(8)] window_count_cong [OF windows_frame(7)])

lemma arrive_runs:
  "es_subscriptions (eg_store (snd (arrive a e mo eg))) = es_subscriptions (eg_store eg) \<and>
   window_count sid day k (eg_store (snd (arrive a e mo eg))) = window_count sid day k (eg_store eg) \<and>
   eg_dispatched (snd (arrive a e mo eg)) = eg_dispatched eg \<and>
   (\<forall>t \<in> set (eg_tasks (snd (arrive a e mo eg))).
      t \<in> set (eg_tasks eg) \<or> gt_stage t = Queued \<and> gt_subscription t \<in> snd ` set (es_subscriptions (eg_store eg)))"
proof -
  let ?st = "beat (mo_micros mo) (beat_note e) (eg_store eg)"
  obtain r fresh st' where i: "ingest (ea_history_limit a) (mo_micros mo) e ?st = (r, fresh, st')"
    by (metis surj_pair)
  have w: "es_windows st' = es_windows ?st" "es_subscriptions st' = es_subscriptions ?st"
    using windows_frame(5) [of "ea_history_limit a" "mo_micros mo" e ?st]
      subscriptions_frame(5) [of "ea_history_limit a" "mo_micros mo" e ?st] i by simp_all
  have "window_count sid day k st' = window_count sid day k (eg_store eg)"
    using w by (intro window_count_cong) simp
  moreover have "window_count sid day k (store_refuse c n d f g ?st) = window_count sid day k (eg_store eg)" for c n d f g
    by (intro window_count_cong) simp
  ultimately show ?thesis using w i
    by (auto simp: arrive_def Let_def new_gate_task_def subscriptions_def intro: image_eqI [rotated])
qed

section \<open>The invariant of the interleaved engine\<close>

text \<open>
  For one watched subscription id and its ceiling: every copy of a subscription, in the store or
  carried by a task, has an id without \<open>|\<close> and, if it is the watched one, the ceiling; the runs
  dispatched on a day are the count of its run window, which is within the ceiling; the tasks past
  the gate fit the slots.
\<close>

definition watched :: "string \<Rightarrow> int \<Rightarrow> subscription \<Rightarrow> bool" where
  "watched sid cap s = (CHR ''|'' \<notin> set (su_id s) \<and>
     (su_id s = sid \<longrightarrow> (\<exists>l. su_max_runs s = Some l \<and> l \<le> cap)))"

definition engine_ok :: "engine_args \<Rightarrow> string \<Rightarrow> int \<Rightarrow> engine \<Rightarrow> bool" where
  "engine_ok a sid cap eg =
     ((\<forall>s \<in> snd ` set (es_subscriptions (eg_store eg)). watched sid cap s) \<and>
      (\<forall>t \<in> set (eg_tasks eg). watched sid cap (gt_subscription t)) \<and>
      (\<forall>day. window_count sid day ''run'' (eg_store eg) = int (runs_on sid day (eg_dispatched eg)) \<and>
         int (runs_on sid day (eg_dispatched eg)) \<le> max 0 cap) \<and>
      length (active_tasks eg) \<le> ea_max_concurrent a)"

lemma runs_on_simps [simp]:
  "runs_on sid day [] = 0"
  "runs_on sid day (xs @ ys) = runs_on sid day xs + runs_on sid day ys"
  "runs_on sid day [(i, d, b)] = (if i = sid \<and> d = day then 1 else 0)"
  by (simp_all add: runs_on_def)

lemma set_replace_task: "x \<in> set (replace_task i t ts) \<Longrightarrow> x \<in> set ts \<or> t = Some x"
  by (auto simp: replace_task_def split: option.splits dest: in_set_takeD in_set_dropD set_update_subset_insert [THEN subsetD])

lemma length_filter_replace:
  assumes "i < length ts"
  shows "length (filter p (replace_task i t ts)) + (if p (ts ! i) then 1 else 0) =
    length (filter p ts) + (case t of Some x \<Rightarrow> if p x then 1 else 0 | None \<Rightarrow> 0)"
proof -
  have "filter p ts = filter p (take i ts @ ts ! i # drop (Suc i) ts)" using id_take_nth_drop [OF assms] by simp
  then show ?thesis using assms
    by (simp add: replace_task_def upd_conv_take_nth_drop split: option.split)
qed

lemma engine_ok_replace:
  assumes eng: "engine_ok a sid cap eg" and i: "i < length (eg_tasks eg)"
    and subs: "es_subscriptions (eg_store eg') = es_subscriptions (eg_store eg)"
    and tasks: "eg_tasks eg' = replace_task i t (eg_tasks eg)"
    and same: "\<And>x. t = Some x \<Longrightarrow> gt_subscription x = gt_subscription (eg_tasks eg ! i)"
    and room: "t = None \<or> gt_stage (eg_tasks eg ! i) \<noteq> Queued \<or> length (active_tasks eg) < ea_max_concurrent a"
    and runs: "\<And>day. window_count sid day ''run'' (eg_store eg') = int (runs_on sid day (eg_dispatched eg')) \<and>
       int (runs_on sid day (eg_dispatched eg')) \<le> max 0 cap"
  shows "engine_ok a sid cap eg'"
proof -
  have w: "watched sid cap (gt_subscription (eg_tasks eg ! i))" using eng i by (simp add: engine_ok_def)
  have t: "watched sid cap (gt_subscription x)" if x: "x \<in> set (eg_tasks eg')" for x
    using set_replace_task [of x i t "eg_tasks eg"] x tasks same w eng by (auto simp: engine_ok_def)
  have n: "length (active_tasks eg) \<le> ea_max_concurrent a" using eng by (simp add: engine_ok_def)
  have "length (active_tasks eg') \<le> ea_max_concurrent a"
    using length_filter_replace [OF i, of "\<lambda>t. gt_stage t \<noteq> Queued" t] room n tasks
    by (auto simp: active_tasks_def split: option.splits if_splits)
  with t subs runs eng show ?thesis by (simp add: engine_ok_def)
qed

lemma engine_ok_frame:
  assumes "engine_ok a sid cap eg" and "i < length (eg_tasks eg)"
    and "es_subscriptions (eg_store eg') = es_subscriptions (eg_store eg)"
    and "\<And>day. window_count sid day ''run'' (eg_store eg') = window_count sid day ''run'' (eg_store eg)"
    and "eg_tasks eg' = replace_task i t (eg_tasks eg)" and "eg_dispatched eg' = eg_dispatched eg"
    and "\<And>x. t = Some x \<Longrightarrow> gt_subscription x = gt_subscription (eg_tasks eg ! i)"
    and "t = None \<or> gt_stage (eg_tasks eg ! i) \<noteq> Queued \<or> length (active_tasks eg) < ea_max_concurrent a"
  shows "engine_ok a sid cap eg'"
  using assms by (intro engine_ok_replace [OF assms(1,2,3,5)]) (auto simp: engine_ok_def)

lemma hear_gate_ok:
  assumes eng: "engine_ok a sid cap eg" and i: "i < length (eg_tasks eg)" and bar: "CHR ''|'' \<notin> set sid"
    and st: "gt_stage (eg_tasks eg ! i) = Asked mo"
    and h: "hear_gate a mo rep (eg_tasks eg ! i) (eg_store eg) = (Inr t, s')"
  shows "engine_ok a sid cap (eg\<lparr>eg_store := s', eg_tasks := replace_task i t (eg_tasks eg),
      eg_dispatched := eg_dispatched eg @ (case t of None \<Rightarrow> []
        | Some x \<Rightarrow> [(su_id (gt_subscription x), mo_day mo, gt_budget x)])\<rparr>)"
proof -
  let ?s = "gt_subscription (eg_tasks eg ! i)"
  have w: "watched sid cap ?s" using eng i by (simp add: engine_ok_def)
  then have b: "CHR ''|'' \<notin> set (su_id ?s)" by (simp add: watched_def)
  have c: "window_count sid d ''run'' (eg_store eg) = int (runs_on sid d (eg_dispatched eg))"
    "int (runs_on sid d (eg_dispatched eg)) \<le> max 0 cap" for d
    using eng by (simp_all add: engine_ok_def)
  note f = hear_gate_runs [OF h b bar]
  show ?thesis
  proof (cases t)
    case None
    then show ?thesis using f st by (intro engine_ok_frame [OF eng i]) auto
  next
    case (Some x)
    then have x: "gt_subscription x = ?s" using f by auto
    have n: "window_count sid d ''run'' s' = int (runs_on sid d (eg_dispatched eg @ [(su_id ?s, mo_day mo, gt_budget x)]))" for d
      using f [of d] Some c(1) [of d] by auto
    have le: "window_count sid d ''run'' s' \<le> max 0 cap" for d
    proof (cases "sid = su_id ?s \<and> d = mo_day mo")
      case True
      then obtain l where "su_max_runs ?s = Some l" "l \<le> cap" using w by (auto simp: watched_def)
      then show ?thesis using f [of d] Some True by auto
    next
      case False
      then show ?thesis using n [of d] c(2) [of d] by auto
    qed
    show ?thesis using Some x n le f st
      by (intro engine_ok_replace [OF eng i]) (auto simp flip: n)
  qed
qed

lemma engine_step_ok:
  assumes "engine_ok a sid cap eg" and "engine_step a (watched sid cap) eg eg'" and bar: "CHR ''|'' \<notin> set sid"
  shows "engine_ok a sid cap eg'"
  using assms(2)
proof cases
  case (es_arrive e mo)
  have r: "es_subscriptions (eg_store eg') = es_subscriptions (eg_store eg)"
      "window_count sid day ''run'' (eg_store eg') = window_count sid day ''run'' (eg_store eg)"
      "eg_dispatched eg' = eg_dispatched eg" for day
    using arrive_runs [of a e mo eg sid day "''run''"] by (simp_all add: es_arrive)
  have t: "\<forall>t \<in> set (eg_tasks eg'). t \<in> set (eg_tasks eg) \<or> gt_subscription t \<in> snd ` set (es_subscriptions (eg_store eg))"
    using arrive_runs [of a e mo eg] unfolding es_arrive by blast
  have act: "active_tasks eg' = active_tasks eg"
    by (simp add: es_arrive arrive_def Let_def active_tasks_def new_gate_task_def comp_def split: prod.splits)
  have "\<forall>t \<in> set (eg_tasks eg'). watched sid cap (gt_subscription t)"
    using t assms(1) unfolding engine_ok_def by blast
  with assms(1) r act show ?thesis unfolding engine_ok_def by simp
next
  case (es_subscribe s)
  have "window_count sid d ''run'' (put_subscription s (eg_store eg)) = window_count sid d ''run'' (eg_store eg)" for d
    by (intro window_count_cong) simp
  with assms(1) es_subscribe show ?thesis
    by (auto simp: engine_ok_def put_subscription_def active_tasks_def dest: set_dput)
next
  case (es_ask i mo t st)
  show ?thesis using ask_gate_runs [OF es_ask(5)] es_ask
    by (intro engine_ok_frame [OF assms(1) es_ask(2), where t = t]) auto
next
  case (es_hear i mo rep t st)
  show ?thesis unfolding es_hear(1) by (rule hear_gate_ok [OF assms(1) es_hear(2) bar es_hear(3,4)])
next
  case (es_hear_fail i mo rep err st mo')
  have b: "CHR ''|'' \<notin> set (su_id (gt_subscription (eg_tasks eg ! i)))"
    using assms(1) es_hear_fail(2) by (simp add: engine_ok_def watched_def)
  show ?thesis using hear_gate_runs [OF es_hear_fail(4) b bar]
    by (intro engine_ok_frame [OF assms(1) es_hear_fail(2), where t = None])
      (auto simp: es_hear_fail(1) fail_task_runs)
next
  case (es_ask_fail i mo mo')
  show ?thesis
    by (intro engine_ok_frame [OF assms(1) es_ask_fail(2), where t = None]) (auto simp: es_ask_fail(1) fail_task_runs)
next
  case (es_finish i mo res)
  show ?thesis
    by (intro engine_ok_frame [OF assms(1) es_finish(2), where t = None]) (auto simp: es_finish(1) finish_task_runs)
next
  case (es_run_fail i mo mo')
  show ?thesis
    by (intro engine_ok_frame [OF assms(1) es_run_fail(2), where t = None]) (auto simp: es_run_fail(1) fail_task_runs)
qed

end
