(* ===== verification/Event_Claims.thy ===== *)
theory Event_Claims
  imports Event_Engine_Props
begin

text \<open>
  The properties of unattended operation, over the interleaved engine of \<open>Event_Engine\<close>.
\<close>

definition idle_engine :: engine where
  "idle_engine = \<lparr>eg_store = empty_events, eg_tasks = [], eg_dispatched = []\<rparr>"

lemma idle_engine_ok: "engine_ok a sid cap idle_engine"
  by (simp add: engine_ok_def idle_engine_def empty_events_def active_tasks_def window_count_def
      window_entry_def dget_or_def)

text \<open>The engine's steps keep the invariant of any watched subscription whose id has no bar.\<close>

definition watched_step :: "engine_args \<Rightarrow> string \<Rightarrow> int \<Rightarrow> engine \<Rightarrow> engine \<Rightarrow> bool" where
  "watched_step a sid cap eg eg' = (CHR ''|'' \<notin> set sid \<and> engine_step a (watched sid cap) eg eg')"

interpretation unattended: invariant_system "watched_step a sid cap" "engine_ok a sid cap" for a sid cap
  by unfold_locales (auto simp: watched_step_def intro: engine_step_ok)

lemma watched_steps:
  "CHR ''|'' \<notin> set sid \<Longrightarrow> watched_step a sid cap = engine_step a (watched sid cap)"
  by (intro ext) (simp add: watched_step_def)

section \<open>Facts about one arrival and one dispatch\<close>

lemma dispatch_cases:
  assumes "hear_gate a mo reply t st = (Inr (Some x), st')"
  obtains v st1 where "admit_run (gt_subscription t) mo st1 = (v, st')" and "vd_admitted v"
    and "st1 = governor_record (su_id (gt_subscription t)) ''triage'' (spend_of reply) mo 1 st"
    and "gt_budget x = (case vd_budget v of None \<Rightarrow> su_budget (gt_subscription t) | Some b \<Rightarrow> Some b)"
    and "\<exists>goal. gate_fields reply = Inr (True, gt_reason x, goal) \<and> gt_goal x = goal"
proof -
  obtain relevant why goal where g: "gate_fields reply = Inr (relevant, why, goal)"
    using assms by (cases "gate_fields reply") (auto simp: hear_gate_def Let_def)
  let ?st1 = "governor_record (su_id (gt_subscription t)) ''triage'' (spend_of reply) mo 1 st"
  obtain v st2 where v: "admit_run (gt_subscription t) mo ?st1 = (v, st2)" by (metis surj_pair)
  from assms g v have "relevant" "vd_admitted v" "st2 = st'"
      "x = t\<lparr>gt_triage_cost := spend_of reply, gt_reason := why, gt_goal := goal, gt_stage := Running_since mo,
         gt_budget := (case vd_budget v of None \<Rightarrow> su_budget (gt_subscription t) | Some b \<Rightarrow> Some b)\<rparr>"
    by (auto simp: hear_gate_def Let_def split: if_splits)
  with that [of ?st1 v] v g show thesis by auto
qed

lemma window_spend_triage_run [simp]:
  "window_spend i d ''run'' (governor_record j ''triage'' usd mo n st) = window_spend i d ''run'' st"
  by (simp add: window_spend_def governor_record_def window_record_def Let_def window_entry_put_other)

lemma admit_run_unlimited:
  "admit_run s mo st = (v, st') \<Longrightarrow> su_daily_budget s = None \<Longrightarrow> vd_admitted v \<Longrightarrow> vd_budget v = None"
  by (auto simp: admit_run_def Let_def refused_by_def admitted_verdict_def split: prod.splits bool.splits)

lemma arrive_accepted:
  assumes "arrive a e mo eg = (Accepted_event r subs, eg')"
  obtains st where "vd_admitted (admit_event (ea_governor a) e mo st)"
    and "es_index st = es_index (eg_store eg)"
    and "dget (es_index (eg_store eg)) (event_key (en_source e) (en_id e)) = None"
    and "eg_tasks eg' = eg_tasks eg @ map (new_gate_task e) subs"
    and "set subs \<subseteq> snd ` set (es_subscriptions (eg_store eg))"
    and "\<forall>s \<in> set subs. event_matches s e \<and> \<not> self_caused s e"
    and "eg_dispatched eg' = eg_dispatched eg"
proof -
  let ?st = "beat (mo_micros mo) (beat_note e) (eg_store eg)"
  obtain p fresh st' where i: "ingest (ea_history_limit a) (mo_micros mo) e ?st = (p, fresh, st')"
    by (metis surj_pair)
  have adm: "vd_admitted (admit_event (ea_governor a) e mo ?st)"
    using assms by (auto simp: arrive_def Let_def split: if_splits)
  have fr: fresh "subs = filter (\<lambda>s. event_matches s e \<and> \<not> self_caused s e) (subscriptions st')"
      "eg_tasks eg' = eg_tasks eg @ map (new_gate_task e) subs" "eg_dispatched eg' = eg_dispatched eg"
    using assms i adm by (auto simp: arrive_def Let_def split: if_splits)
  have sub: "es_subscriptions st' = es_subscriptions (eg_store eg)"
    using subscriptions_frame(5) [of "ea_history_limit a" "mo_micros mo" e ?st] i by simp
  have none: "dget (es_index (eg_store eg)) (event_key (en_source e) (en_id e)) = None"
    using i fr(1) by (auto simp: ingest_def Let_def beat_def split: option.splits)
  have from_store: "set subs \<subseteq> snd ` set (es_subscriptions (eg_store eg))"
    using sub fr(2) by (auto simp: subscriptions_def intro: image_eqI [rotated])
  have chosen: "\<forall>s \<in> set subs. event_matches s e \<and> \<not> self_caused s e" using fr(2) by simp
  have "es_index ?st = es_index (eg_store eg)" by (simp add: beat_def)
  from that [OF adm this none fr(3) from_store chosen fr(4)] show thesis .
qed

section \<open>The properties\<close>

text \<open>C12: However decision tasks of any events interleave, with subscriptions rewritten in between, the
  runs dispatched on a day for a subscription whose every version has a ceiling of at most \<open>cap\<close> are
  at most \<open>cap\<close>, and the tasks past the gate are never more than the engine's slots.\<close>

theorem unattended_runs_bounded:
  assumes "(engine_step a (watched sid cap))\<^sup>*\<^sup>* idle_engine eg" and "CHR ''|'' \<notin> set sid"
  shows "int (runs_on sid day (eg_dispatched eg)) \<le> max 0 cap \<and>
    length (active_tasks eg) \<le> ea_max_concurrent a"
proof -
  have "engine_ok a sid cap eg"
    using unattended.steps_inv [of a sid cap idle_engine eg] assms idle_engine_ok
    by (simp add: watched_steps)
  then show ?thesis unfolding engine_ok_def by blast
qed

text \<open>An event becomes decision tasks only if no event of its identity was ever ingested and it was
  not caused by the agent itself; then there is one task per stored subscription that is enabled,
  matches it and does not ignore its actor. No arrival dispatches a run.\<close>

lemma arrival_is_admitted_once:
  assumes "arrive a e mo eg = (Accepted_event r subs, eg')"
  shows "dget (es_index (eg_store eg)) (event_key (en_source e) (en_id e)) = None \<and>
    \<not> (actor_of e \<noteq> [] \<and> actor_of e \<in> set (go_self_actors (ea_governor a))) \<and>
    eg_tasks eg' = eg_tasks eg @ map (new_gate_task e) subs \<and>
    set subs \<subseteq> snd ` set (es_subscriptions (eg_store eg)) \<and>
    (\<forall>s \<in> set subs. su_enabled s \<and> event_matches s e \<and> \<not> self_caused s e) \<and>
    eg_dispatched eg' = eg_dispatched eg"
  using assms
proof (cases rule: arrive_accepted)
  case (1 st)
  then have "\<not> (actor_of e \<noteq> [] \<and> actor_of e \<in> set (go_self_actors (ea_governor a)))"
    by (auto simp: admit_event_def refused_by_def split: if_splits)
  with 1 show ?thesis by (auto simp: event_matches_def)
qed

text \<open>A dispatched run was judged relevant by the gate, and its budget is at most what is left of
  the subscription's day and at most the subscription's own ceiling per run; without a daily
  budget it is the ceiling per run.\<close>

lemma dispatched_budget_within_day:
  assumes "hear_gate a mo reply t st = (Inr (Some x), st')"
  shows "(\<exists>goal. gate_fields reply = Inr (True, gt_reason x, goal) \<and> gt_goal x = goal) \<and>
    (case su_daily_budget (gt_subscription t) of
       None \<Rightarrow> gt_budget x = su_budget (gt_subscription t)
     | Some limit \<Rightarrow>
         window_spend (su_id (gt_subscription t)) (mo_day mo) ''run'' st < limit \<and>
         (\<exists>y. gt_budget x = Some y \<and>
            y \<le> limit - window_spend (su_id (gt_subscription t)) (mo_day mo) ''run'' st \<and>
            (case su_budget (gt_subscription t) of None \<Rightarrow> True | Some p \<Rightarrow> y \<le> p)))"
  using assms
proof (cases rule: dispatch_cases)
  case (1 v st1)
  have spend: "window_spend i d ''run'' st1 = window_spend i d ''run'' st" for i d using 1(3) by simp
  show ?thesis
  proof (cases "su_daily_budget (gt_subscription t)")
    case None
    then show ?thesis using 1 admit_run_unlimited [OF 1(1) None 1(2)] by simp
  next
    case (Some limit)
    from 1(1) show ?thesis
    proof (cases rule: admit_run_cases)
      case no
      then show ?thesis using 1(2) by simp
    next
      case (yes n)
      then obtain y where y: "vd_budget v = Some y"
          "y \<le> limit - window_spend (su_id (gt_subscription t)) (mo_day mo) ''run'' st"
          "\<forall>p. su_budget (gt_subscription t) = Some p \<longrightarrow> y \<le> p"
          "window_spend (su_id (gt_subscription t)) (mo_day mo) ''run'' st < limit"
        using Some spend by auto
      show ?thesis using Some y 1(4,5) by (auto split: option.split)
    qed
  qed
qed

section \<open>Witnesses\<close>

definition demo_subscription :: subscription where
  "demo_subscription = \<lparr>su_id = ''s'', su_instruction = ''watch'', su_event_types = [''build.*''], su_sources = [''*''],
     su_tenant_id = ''t'', su_project_id = None, su_user_id = None, su_agent_id = None, su_side_effects = [],
     su_budget = Some 2, su_daily_budget = Some 1, su_max_runs = Some 1, su_daily_triage = None,
     su_ignore_actors = [''bot''], su_enabled = True\<rparr>"

definition build_event :: "string \<Rightarrow> envelope" where
  "build_event i = (demo_event ''ci'' i)\<lparr>en_type := ''build.failed''\<rparr>"

definition demo_engine_args :: engine_args where
  "demo_engine_args = \<lparr>ea_governor = \<lparr>go_self_actors = [''s17code''], go_events_per_minute = 120\<rparr>,
     ea_history_limit = 10, ea_max_concurrent = 2\<rparr>"

definition demo_moment :: moment where "demo_moment = \<lparr>mo_micros = 5, mo_day = ''2026-01-01''\<rparr>"

definition relevant_reply :: obj where
  "relevant_reply = [(''text'', JStr ''{\"relevant\":true,\"reason\":\"r\",\"goal\":\"g\"}'')]"

definition demo_subscribed :: engine where
  "demo_subscribed = idle_engine\<lparr>eg_store := put_subscription demo_subscription (eg_store idle_engine)\<rparr>"

definition demo_arrived :: engine where
  "demo_arrived = snd (arrive demo_engine_args (build_event ''2'') demo_moment
     (snd (arrive demo_engine_args (build_event ''1'') demo_moment demo_subscribed)))"

definition ask_at :: "nat \<Rightarrow> engine \<Rightarrow> engine" where
  "ask_at i eg = (let (t, st) = ask_gate demo_engine_args demo_moment (eg_tasks eg ! i) (eg_store eg)
     in eg\<lparr>eg_store := st, eg_tasks := replace_task i t (eg_tasks eg)\<rparr>)"

definition hear_at :: "nat \<Rightarrow> engine \<Rightarrow> engine" where
  "hear_at i eg = (case hear_gate demo_engine_args demo_moment relevant_reply (eg_tasks eg ! i) (eg_store eg) of
     (Inl _, st) \<Rightarrow> eg
   | (Inr t, st) \<Rightarrow> eg\<lparr>eg_store := st, eg_tasks := replace_task i t (eg_tasks eg),
        eg_dispatched := eg_dispatched eg @ (case t of None \<Rightarrow> []
          | Some x \<Rightarrow> [(su_id (gt_subscription x), mo_day demo_moment, gt_budget x)])\<rparr>)"

lemma ask_at_step:
  "i < length (eg_tasks eg) \<Longrightarrow> gt_stage (eg_tasks eg ! i) = Queued \<Longrightarrow> length (active_tasks eg) < 2 \<Longrightarrow>
   engine_step demo_engine_args P eg (ask_at i eg)"
  by (auto simp: ask_at_def demo_engine_args_def split: prod.split intro!: es_ask)

lemma hear_at_step:
  assumes "i < length (eg_tasks eg)" and "gt_stage (eg_tasks eg ! i) = Asked demo_moment"
    and "(case hear_gate demo_engine_args demo_moment relevant_reply (eg_tasks eg ! i) (eg_store eg) of (Inl _, _) \<Rightarrow> False | _ \<Rightarrow> True)"
  shows "engine_step demo_engine_args P eg (hear_at i eg)"
proof -
  obtain t st where h: "hear_gate demo_engine_args demo_moment relevant_reply (eg_tasks eg ! i) (eg_store eg) = (Inr t, st)"
    using assms(3) by (auto split: prod.splits sum.splits)
  show ?thesis using es_hear [OF assms(1,2) h] h by (simp add: hear_at_def)
qed

lemma demo_run_steps:
  "(engine_step demo_engine_args (watched ''s'' 1))\<^sup>*\<^sup>* idle_engine
     (hear_at 0 (ask_at 1 (ask_at 0 demo_arrived)))"
proof -
  let ?step = "engine_step demo_engine_args (watched ''s'' 1)"
  have "watched ''s'' 1 demo_subscription" by (simp add: watched_def demo_subscription_def)
  then have s1: "?step idle_engine demo_subscribed" unfolding demo_subscribed_def by (rule es_subscribe)
  have s2: "?step\<^sup>*\<^sup>* demo_subscribed demo_arrived" unfolding demo_arrived_def
    by (meson converse_rtranclp_into_rtranclp es_arrive rtranclp.rtrancl_refl)
  have s3: "?step demo_arrived (ask_at 0 demo_arrived)" by (rule ask_at_step; code_simp)
  have s4: "?step (ask_at 0 demo_arrived) (ask_at 1 (ask_at 0 demo_arrived))" by (rule ask_at_step; code_simp)
  have s5: "?step (ask_at 1 (ask_at 0 demo_arrived)) (hear_at 0 (ask_at 1 (ask_at 0 demo_arrived)))"
    by (rule hear_at_step; code_simp)
  from s1 s2 s3 s4 s5 show ?thesis by (meson rtranclp.rtrancl_into_rtrancl rtranclp.rtrancl_refl rtranclp_trans)
qed

text \<open>Two events ask at once for a subscription of one run a day: both are past the gate's call before
  either reply, and the first reply takes the one run.\<close>

theorem unattended_runs_bounded_witness:
  "int (runs_on ''s'' ''2026-01-01'' (eg_dispatched (hear_at 0 (ask_at 1 (ask_at 0 demo_arrived))))) \<le> max 0 1 \<and>
   length (active_tasks (ask_at 1 (ask_at 0 demo_arrived))) = 2 \<and>
   runs_on ''s'' ''2026-01-01'' (eg_dispatched (hear_at 0 (ask_at 1 (ask_at 0 demo_arrived)))) = 1"
  by (intro conjI unattended_runs_bounded [OF demo_run_steps, THEN conjunct1]) (simp, code_simp, code_simp)

lemma arrival_is_admitted_once_witness:
  "eg_tasks (snd (arrive demo_engine_args (build_event ''1'') demo_moment demo_subscribed)) =
     [new_gate_task (build_event ''1'') demo_subscription]"
proof -
  obtain r eg' where a: "arrive demo_engine_args (build_event ''1'') demo_moment demo_subscribed =
      (Accepted_event r [demo_subscription], eg')"
  proof -
    have "(case fst (arrive demo_engine_args (build_event ''1'') demo_moment demo_subscribed) of
        Accepted_event r subs \<Rightarrow> subs = [demo_subscription] | _ \<Rightarrow> False)" by code_simp
    then show thesis using that by (cases "arrive demo_engine_args (build_event ''1'') demo_moment demo_subscribed")
      (auto split: arrival.splits)
  qed
  have "eg_tasks demo_subscribed = []" by (simp add: demo_subscribed_def idle_engine_def)
  then show ?thesis using arrival_is_admitted_once [OF a] a by simp
qed

definition demo_asked :: gate_task where
  "demo_asked = (new_gate_task (build_event ''1'') demo_subscription)\<lparr>gt_stage := Asked demo_moment\<rparr>"

lemma dispatched_budget_within_day_witness:
  "\<exists>x y. fst (hear_gate demo_engine_args demo_moment relevant_reply demo_asked (eg_store demo_arrived)) = Inr (Some x) \<and>
     gt_budget x = Some y \<and> y \<le> 1"
proof -
  have sub: "gt_subscription demo_asked = demo_subscription" by (simp add: demo_asked_def new_gate_task_def)
  have spend: "window_spend (su_id demo_subscription) (mo_day demo_moment) ''run'' (eg_store demo_arrived) = 0"
    by code_simp
  have "(case fst (hear_gate demo_engine_args demo_moment relevant_reply demo_asked (eg_store demo_arrived)) of
      Inr (Some _) \<Rightarrow> True | _ \<Rightarrow> False)" by code_simp
  then obtain x st' where
    "hear_gate demo_engine_args demo_moment relevant_reply demo_asked (eg_store demo_arrived) = (Inr (Some x), st')"
    by (cases "hear_gate demo_engine_args demo_moment relevant_reply demo_asked (eg_store demo_arrived)")
      (auto split: sum.splits option.splits)
  then show ?thesis using dispatched_budget_within_day [of demo_engine_args demo_moment relevant_reply demo_asked "eg_store demo_arrived" x st']
      spend sub by (auto simp: demo_subscription_def)
qed

end
