(* ===== verification/Event_Lease.thy ===== *)
theory Event_Lease
  imports Json_Parse
begin

text \<open>
  \<open>ScheduleLease\<close> (\<open>events/lease.py\<close>): one file per schedule, an expiring lease in it. A file
  whose content does not decode, or is empty, is \<open>None\<close>. Instants are microseconds; the token
  \<open>uuid4\<close> draws is an argument of \<open>acquire\<close>.
\<close>

record lease =
  le_token :: string
  le_holder :: string
  le_acquired :: int
  le_expires :: int
  le_stolen :: "(string \<times> int) option"

type_synonym lease_files = "(string \<times> lease option) list"

datatype lease_verdict = Granted string "string option" | Refused_lease string int

text \<open>\<open>_path\<close>, on ASCII text.\<close>

definition is_alnum :: "char \<Rightarrow> bool" where
  "is_alnum c = (let n = (of_char c :: nat) in
     48 \<le> n \<and> n \<le> 57 \<or> 65 \<le> n \<and> n \<le> 90 \<or> 97 \<le> n \<and> n \<le> 122)"

definition lease_path :: "string \<Rightarrow> string" where
  "lease_path sid = ''lease-'' @ map (\<lambda>c. if is_alnum c \<or> c \<in> set ''-_.'' then c else CHR ''_'') sid @ ''.json''"

definition fresh_lease :: "int \<Rightarrow> string \<Rightarrow> int \<Rightarrow> string \<Rightarrow> lease" where
  "fresh_lease ttl holder now token =
     \<lparr>le_token = token, le_holder = holder, le_acquired = now, le_expires = now + ttl * 1000000, le_stolen = None\<rparr>"

definition acquire :: "int \<Rightarrow> string \<Rightarrow> string \<Rightarrow> int \<Rightarrow> string \<Rightarrow> lease_files \<Rightarrow> lease_verdict \<times> lease_files" where
  "acquire ttl sid holder now token fs =
     (let new = fresh_lease ttl holder now token in
      case dget fs (lease_path sid) of
        Some (Some held) \<Rightarrow>
          if le_expires held > now then (Refused_lease (le_holder held) (le_expires held), fs)
          else (Granted token (Some (le_holder held)),
                dput (lease_path sid) (Some (new\<lparr>le_stolen := Some (le_holder held, le_expires held)\<rparr>)) fs)
      | _ \<Rightarrow> (Granted token None, dput (lease_path sid) (Some new) fs))"

definition release_lease :: "string \<Rightarrow> string \<Rightarrow> lease_files \<Rightarrow> bool \<times> lease_files" where
  "release_lease sid token fs =
     (case dget fs (lease_path sid) of
        Some (Some held) \<Rightarrow>
          if le_token held \<noteq> token then (False, fs) else (True, ddel (lease_path sid) fs)
      | _ \<Rightarrow> (False, fs))"

definition lease_state :: "string \<Rightarrow> lease_files \<Rightarrow> lease option" where
  "lease_state sid fs = (case dget fs (lease_path sid) of Some h \<Rightarrow> h | None \<Rightarrow> None)"

section \<open>Histories of ticks\<close>

text \<open>Each operation with what it answered.\<close>

datatype lease_op = Acquire string string int string | Release string string

datatype lease_answer = Answer lease_verdict | Released bool

fun lease_step :: "int \<Rightarrow> lease_op \<Rightarrow> lease_files \<Rightarrow> lease_answer \<times> lease_files" where
  "lease_step ttl (Acquire sid holder now token) fs =
     (let (v, fs') = acquire ttl sid holder now token fs in (Answer v, fs'))"
| "lease_step ttl (Release sid token) fs = (let (b, fs') = release_lease sid token fs in (Released b, fs'))"

fun lease_run :: "int \<Rightarrow> lease_op list \<Rightarrow> lease_files \<Rightarrow> (lease_op \<times> lease_answer) list \<times> lease_files" where
  "lease_run ttl [] fs = ([], fs)"
| "lease_run ttl (x # xs) fs =
     (let (r, fs1) = lease_step ttl x fs; (rs, fs2) = lease_run ttl xs fs1 in ((x, r) # rs, fs2))"

fun op_path :: "lease_op \<Rightarrow> string" where
  "op_path (Acquire sid holder now token) = lease_path sid"
| "op_path (Release sid token) = lease_path sid"

text \<open>An operation that could end the lease \<open>l\<close>: its holder's release, or a tick after it expired.\<close>

fun may_end :: "lease \<Rightarrow> lease_op \<Rightarrow> bool" where
  "may_end l (Acquire sid holder now token) = (le_expires l \<le> now)"
| "may_end l (Release sid token) = (le_token l = token)"

fun granted :: "lease_answer \<Rightarrow> bool" where
  "granted (Answer (Granted token from)) = True"
| "granted (Released b) = b"
| "granted a = False"

section \<open>Facts\<close>

lemma acquire_granted:
  "acquire ttl sid holder now token fs = (Granted tk from, fs') \<Longrightarrow>
   tk = token \<and> (\<exists>s. lease_state sid fs' = Some ((fresh_lease ttl holder now token)\<lparr>le_stolen := s\<rparr>)) \<and>
   (\<forall>h. lease_state sid fs = Some h \<longrightarrow> le_expires h \<le> now \<and> from = Some (le_holder h))"
  by (auto simp: acquire_def lease_state_def Let_def fresh_lease_def split: option.splits if_splits)

lemma lease_step_held:
  assumes "dget fs p = Some (Some l)" and "op_path x = p \<Longrightarrow> \<not> may_end l x" and "lease_step ttl x fs = (r, fs')"
  shows "dget fs' p = Some (Some l) \<and> (op_path x = p \<longrightarrow> \<not> granted r)"
proof (cases x)
  case (Acquire sid holder now token)
  with assms show ?thesis
    by (cases "dget fs (lease_path sid)")
      (auto simp: acquire_def Let_def split: option.splits if_splits)
next
  case (Release sid token)
  with assms show ?thesis
    by (cases "dget fs (lease_path sid)")
      (auto simp: release_lease_def split: option.splits if_splits)
qed

lemma lease_run_held:
  "dget fs p = Some (Some l) \<Longrightarrow> \<forall>x \<in> set xs. op_path x = p \<longrightarrow> \<not> may_end l x \<Longrightarrow>
   lease_run ttl xs fs = (rs, fs') \<Longrightarrow>
   dget fs' p = Some (Some l) \<and> (\<forall>(x, r) \<in> set rs. op_path x = p \<longrightarrow> \<not> granted r)"
proof (induction xs arbitrary: fs rs)
  case (Cons x xs)
  obtain r fs1 where s: "lease_step ttl x fs = (r, fs1)" by (metis surj_pair)
  obtain rs' where r: "lease_run ttl xs fs1 = (rs', fs')" "rs = (x, r) # rs'"
    using Cons.prems(3) s by (auto split: prod.splits)
  have h: "dget fs1 p = Some (Some l)" "op_path x = p \<longrightarrow> \<not> granted r"
    using lease_step_held [OF Cons.prems(1) _ s] Cons.prems(2) by auto
  show ?case using Cons.IH [OF h(1) _ r(1)] Cons.prems(2) h(2) r(2) by auto
qed simp

section \<open>The properties\<close>

text \<open>C13: A granted lease excludes every other tick of its schedule: until its holder releases it or
  a tick comes after its deadline, every acquisition of the schedule is refused, every release is
  answered \<open>False\<close>, and the lease stands.\<close>

theorem lease_excludes_other_ticks:
  assumes "acquire ttl sid holder now token fs = (Granted tk from, fs1)"
    and "lease_run ttl xs fs1 = (rs, fs2)"
    and "\<forall>x \<in> set xs. op_path x = lease_path sid \<longrightarrow>
      (case x of Acquire i h t k \<Rightarrow> t < now + ttl * 1000000 | Release i k \<Rightarrow> k \<noteq> token)"
  shows "(\<forall>(x, r) \<in> set rs. op_path x = lease_path sid \<longrightarrow> \<not> granted r) \<and>
    (\<exists>l. lease_state sid fs2 = Some l \<and> le_token l = token \<and> le_expires l = now + ttl * 1000000)"
proof -
  obtain s where s: "dget fs1 (lease_path sid) = Some (Some ((fresh_lease ttl holder now token)\<lparr>le_stolen := s\<rparr>))"
    using acquire_granted [OF assms(1)] by (auto simp: lease_state_def split: option.splits)
  have "\<forall>x \<in> set xs. op_path x = lease_path sid \<longrightarrow> \<not> may_end ((fresh_lease ttl holder now token)\<lparr>le_stolen := s\<rparr>) x"
  proof
    fix x assume "x \<in> set xs"
    with assms(3) show "op_path x = lease_path sid \<longrightarrow> \<not> may_end ((fresh_lease ttl holder now token)\<lparr>le_stolen := s\<rparr>) x"
      by (cases x) (auto simp: fresh_lease_def)
  qed
  from lease_run_held [OF s this assms(2)] show ?thesis
    by (simp add: lease_state_def fresh_lease_def)
qed

text \<open>A crashed holder does not lock the schedule: a tick at or after the deadline is granted the
  lease and records whom it took it from, and the old holder's token then releases nothing.\<close>

lemma expired_lease_is_taken_over:
  assumes "lease_state sid fs = Some h" and "le_expires h \<le> now" and "token \<noteq> le_token h"
  shows "\<exists>fs'. acquire ttl sid holder now token fs = (Granted token (Some (le_holder h)), fs') \<and>
    lease_state sid fs' = Some ((fresh_lease ttl holder now token)\<lparr>le_stolen := Some (le_holder h, le_expires h)\<rparr>) \<and>
    release_lease sid (le_token h) fs' = (False, fs') \<and>
    fst (release_lease sid token fs') \<and> lease_state sid (snd (release_lease sid token fs')) = None"
  using assms by (auto simp: acquire_def lease_state_def release_lease_def fresh_lease_def Let_def split: option.splits)

text \<open>The second tick overlaps, the wrong token does not release, the third tick comes after the deadline.\<close>

theorem lease_excludes_other_ticks_witness:
  "fst (lease_run 900 [Acquire ''nightly'' ''b'' 5 ''k2'', Release ''nightly'' ''k2'']
      (snd (acquire 900 ''nightly'' ''a'' 0 ''k1'' []))) =
    [(Acquire ''nightly'' ''b'' 5 ''k2'', Answer (Refused_lease ''a'' 900000000)), (Release ''nightly'' ''k2'', Released False)] \<and>
   \<not> granted (Answer (Refused_lease ''a'' 900000000))"
proof -
  let ?fs = "snd (acquire 900 ''nightly'' ''a'' 0 ''k1'' [])"
  let ?xs = "[Acquire ''nightly'' ''b'' 5 ''k2'', Release ''nightly'' ''k2'']"
  have a: "acquire 900 ''nightly'' ''a'' 0 ''k1'' [] = (Granted ''k1'' None, ?fs)" by code_simp
  have r: "lease_run 900 ?xs ?fs = ([(Acquire ''nightly'' ''b'' 5 ''k2'', Answer (Refused_lease ''a'' 900000000)),
      (Release ''nightly'' ''k2'', Released False)], ?fs)" by code_simp
  show ?thesis using lease_excludes_other_ticks [OF a r] r by simp
qed

lemma expired_lease_is_taken_over_witness:
  "fst (acquire 900 ''nightly'' ''b'' 900000000 ''k2'' (snd (acquire 900 ''nightly'' ''a'' 0 ''k1'' []))) =
     Granted ''k2'' (Some ''a'')"
proof -
  let ?fs = "snd (acquire 900 ''nightly'' ''a'' 0 ''k1'' [])"
  have "lease_state ''nightly'' ?fs = Some (fresh_lease 900 ''a'' 0 ''k1'')" by code_simp
  from expired_lease_is_taken_over [OF this, of 900000000 "''k2''" 900 "''b''"] show ?thesis
    by (auto simp: fresh_lease_def)
qed

end
