(* ===== verification/Event_Outbox.thy ===== *)
theory Event_Outbox
  imports Graph_Model
begin

text \<open>
  \<open>ActionOutbox\<close> (\<open>events/outbox.py\<close>): one record per key, written before the operation starts and
  after it ends. \<open>execute\<close> holds the lock up to the start and again for the receipt, and awaits the
  operation in between, so it is two steps: any executions interleave between them, and a crash
  forgets the ones in flight while the records stay.
\<close>

datatype receipt = Result_receipt json | Deferred_receipt obj

datatype outbox_record = Started | Completed receipt | Failed_with string

type_synonym outbox = "(string \<times> outbox_record) list"

text \<open>What an operation returns: a result or a deferral.\<close>

type_synonym action_result = "json + deferred"

definition encode_receipt :: "action_result \<Rightarrow> receipt" where
  "encode_receipt r = (case r of
      Inr d \<Rightarrow> Deferred_receipt [(''handle'', JStr (d_handle d)), (''event_type'', JStr (d_event_type d)),
        (''metadata'', JObj (d_metadata d))]
    | Inl v \<Rightarrow> Result_receipt v)"

definition str_or_empty :: "json \<Rightarrow> string" where
  "str_or_empty v = (case v of JStr s \<Rightarrow> s | _ \<Rightarrow> [])"

definition decode_receipt :: "receipt \<Rightarrow> action_result" where
  "decode_receipt r = (case r of
      Result_receipt v \<Rightarrow> Inl v
    | Deferred_receipt d \<Rightarrow> Inr \<lparr>d_handle = str_or_empty (jget d ''handle''),
        d_event_type = str_or_empty (jget d ''event_type''),
        d_metadata = (case jget d ''metadata'' of JObj m \<Rightarrow> m | _ \<Rightarrow> [])\<rparr>)"

definition reconcile :: "string \<Rightarrow> deferred" where
  "reconcile key = \<lparr>d_handle = key, d_event_type = ''outbox.reconcile'', d_metadata = [(''uncertain'', JBool True)]\<rparr>"

text \<open>\<open>execute\<close> up to the operation: \<open>None\<close> when the operation is to start.\<close>

definition execute_begin :: "string \<Rightarrow> outbox \<Rightarrow> action_result result option \<times> outbox" where
  "execute_begin key ob =
     (case dget ob key of
        Some (Completed r) \<Rightarrow> (Some (Inr (decode_receipt r)), ob)
      | Some Started \<Rightarrow> (Some (Inr (Inr (reconcile key))), ob)
      | Some (Failed_with msg) \<Rightarrow> (Some (Inl RuntimeError), ob)
      | None \<Rightarrow> (None, dput key Started ob))"

text \<open>The rest of \<open>execute\<close>: the operation returned or raised.\<close>

definition execute_end :: "string \<Rightarrow> string + action_result \<Rightarrow> outbox \<Rightarrow> outbox" where
  "execute_end key out ob =
     (case out of Inl msg \<Rightarrow> dput key (Failed_with msg) ob | Inr r \<Rightarrow> dput key (Completed (encode_receipt r)) ob)"

section \<open>Interleaved executions and crashes\<close>

text \<open>The operations started so far are logged; \<open>ox_flying\<close> are the ones awaited.\<close>

record outbox_system =
  ox_files :: outbox
  ox_flying :: "string list"
  ox_started :: "string list"
  ox_ended :: "(string \<times> (string + action_result)) list"

inductive outbox_step :: "outbox_system \<Rightarrow> outbox_system \<Rightarrow> bool" where
  ox_begin: "execute_begin key (ox_files x) = (None, ob) \<Longrightarrow>
    outbox_step x (x\<lparr>ox_files := ob, ox_flying := key # ox_flying x, ox_started := key # ox_started x\<rparr>)"
| ox_reuse: "execute_begin key (ox_files x) = (Some r, ob) \<Longrightarrow> outbox_step x (x\<lparr>ox_files := ob\<rparr>)"
| ox_end: "key \<in> set (ox_flying x) \<Longrightarrow>
    outbox_step x (x\<lparr>ox_files := execute_end key out (ox_files x), ox_flying := removeAll key (ox_flying x),
      ox_ended := (key, out) # ox_ended x\<rparr>)"
| ox_crash: "outbox_step x (x\<lparr>ox_flying := []\<rparr>)"

inductive_cases outbox_stepE: "outbox_step x y"


definition outbox_ok :: "outbox_system \<Rightarrow> bool" where
  "outbox_ok x = (set (ox_started x) = fst ` set (ox_files x) \<and> distinct (ox_started x) \<and>
     (\<forall>k \<in> set (ox_flying x). dget (ox_files x) k = Some Started) \<and>
     (\<forall>k out. (k, out) \<in> set (ox_ended x) \<longrightarrow> dget (ox_files x) k =
        Some (case out of Inl m \<Rightarrow> Failed_with m | Inr r \<Rightarrow> Completed (encode_receipt r))) \<and>
     distinct (map fst (ox_ended x)))"

section \<open>Facts\<close>

lemma decode_encode [simp]: "decode_receipt (encode_receipt r) = r"
  by (cases r) (simp_all add: encode_receipt_def decode_receipt_def str_or_empty_def jget_def dget_or_def)

lemma execute_begin_None: "execute_begin key ob = (None, ob') \<longleftrightarrow> dget ob key = None \<and> ob' = dput key Started ob"
  by (auto simp: execute_begin_def split: option.splits outbox_record.splits)

lemma execute_begin_Some: "execute_begin key ob = (Some r, ob') \<Longrightarrow> ob' = ob"
  by (auto simp: execute_begin_def split: option.splits outbox_record.splits)

lemma outbox_step_ok: "outbox_ok x \<Longrightarrow> outbox_step x y \<Longrightarrow> outbox_ok y"
proof (erule outbox_stepE)
  fix key ob
  assume eng: "outbox_ok x" and b: "execute_begin key (ox_files x) = (None, ob)"
    and y: "y = x\<lparr>ox_files := ob, ox_flying := key # ox_flying x, ox_started := key # ox_started x\<rparr>"
  from b have n: "dget (ox_files x) key = None" "ob = dput key Started (ox_files x)"
    by (simp_all add: execute_begin_None)
  then have "key \<notin> fst ` set (ox_files x)" by (simp add: dget_None_iff)
  with eng n y show "outbox_ok y" unfolding outbox_ok_def by simp (metis option.distinct(1))
next
  fix key out
  assume eng: "outbox_ok x" and f: "key \<in> set (ox_flying x)"
    and y: "y = x\<lparr>ox_files := execute_end key out (ox_files x), ox_flying := removeAll key (ox_flying x),
      ox_ended := (key, out) # ox_ended x\<rparr>"
  have st: "dget (ox_files x) key = Some Started" using eng f by (simp add: outbox_ok_def)
  then have k: "key \<in> fst ` set (ox_files x)" using dget_Some_key by force
  have e: "execute_end key out (ox_files x) =
      dput key (case out of Inl m \<Rightarrow> Failed_with m | Inr r \<Rightarrow> Completed (encode_receipt r)) (ox_files x)"
    by (simp add: execute_end_def split: sum.split)
  have "key \<notin> fst ` set (ox_ended x)"
    using eng st by (force simp: outbox_ok_def split: sum.splits)
  then have "(key, v) \<notin> set (ox_ended x)" for v by force
  with eng k e y show "outbox_ok y" by (auto simp: outbox_ok_def image_iff)
qed (auto simp: outbox_ok_def dest: execute_begin_Some)

interpretation outbox: invariant_system outbox_step outbox_ok
  by unfold_locales (rule outbox_step_ok)


section \<open>The property\<close>



end
