(* ===== verification/Event_Feed.thy ===== *)
theory Event_Feed
  imports Event_Governor Event_History Json Json_Parse
begin

text \<open>
  \<open>morning_report\<close> (\<open>events/report.py\<close>): the account of a window, its decisions split into acted,
  ignored and blocked, with the refusals of the ledger the decisions did not already carry.
\<close>

record report_entry =
  re_event :: string
  re_subscription :: "string option"
  re_control :: "string option"
  re_run :: "string option \<times> string option"

type_synonym block_key = "string \<times> string option \<times> string option"

record report =
  rp_considered :: "event_record list"
  rp_acted :: "report_entry list"
  rp_ignored :: "report_entry list"
  rp_blocked :: "report_entry list"
  rp_ledger_only :: "report_entry list"
  rp_watching :: rat
  rp_doing :: rat

definition event_label :: "envelope \<Rightarrow> string" where
  "event_label e = en_source e @ ''/'' @ en_id e"

datatype outcome = Blocked string | Acted | Ignored

definition outcome_of :: "ev_decision \<Rightarrow> outcome" where
  "outcome_of d = (case dc_refused_by d of
      Some c \<Rightarrow> if c \<noteq> [] then Blocked c else if dc_relevant d then Acted else Ignored
    | None \<Rightarrow> if dc_relevant d then Acted else Ignored)"

definition entry_of :: "event_record \<Rightarrow> ev_decision \<Rightarrow> report_entry" where
  "entry_of r d = \<lparr>re_event = event_label (er_event r), re_subscription = Some (dc_subscription d),
     re_control = (case outcome_of d of Blocked c \<Rightarrow> Some c | _ \<Rightarrow> None),
     re_run = (case outcome_of d of Acted \<Rightarrow> (dc_run_id d, dc_run_status d) | _ \<Rightarrow> (None, None))\<rparr>"

definition all_decisions :: "event_record list \<Rightarrow> (event_record \<times> ev_decision) list" where
  "all_decisions rs = concat (map (\<lambda>r. map (Pair r) (er_decisions r)) rs)"

definition entries_with :: "(outcome \<Rightarrow> bool) \<Rightarrow> event_record list \<Rightarrow> report_entry list" where
  "entries_with p rs = map (\<lambda>(r, d). entry_of r d) (filter (\<lambda>(r, d). p (outcome_of d)) (all_decisions rs))"

definition key_of :: "report_entry \<Rightarrow> block_key" where
  "key_of x = (re_event x, re_control x, re_subscription x)"

definition refusal_label :: "store_refusal \<Rightarrow> string" where
  "refusal_label f = (case sr_event f of Some (source, i, ty) \<Rightarrow> source @ ''/'' @ i | None \<Rightarrow> ''None/None'')"

definition refusal_entry :: "store_refusal \<Rightarrow> report_entry" where
  "refusal_entry f = \<lparr>re_event = refusal_label f, re_subscription = sr_subscription f,
     re_control = Some (sr_control f), re_run = (None, None)\<rparr>"

fun ledger_only :: "block_key list \<Rightarrow> store_refusal list \<Rightarrow> report_entry list" where
  "ledger_only seen [] = []"
| "ledger_only seen (f # fs) =
     (let x = refusal_entry f in
      if key_of x \<in> set seen then ledger_only seen fs else x # ledger_only (key_of x # seen) fs)"

definition is_blocked :: "outcome \<Rightarrow> bool" where
  "is_blocked out = (case out of Blocked c \<Rightarrow> True | _ \<Rightarrow> False)"

definition morning_report :: "int option \<Rightarrow> moment \<Rightarrow> event_state \<Rightarrow> report" where
  "morning_report since mo st =
     (let start = (case since of Some t \<Rightarrow> t | None \<Rightarrow> mo_micros mo - 24 * 3600 * 1000000);
          considered = filter (\<lambda>r. \<not> er_received r < start) (es_events st);
          blocked = entries_with is_blocked considered
      in \<lparr>rp_considered = considered,
          rp_acted = entries_with (\<lambda>out. out = Acted) considered,
          rp_ignored = entries_with (\<lambda>out. out = Ignored) considered,
          rp_blocked = blocked,
          rp_ledger_only = ledger_only (map key_of blocked) (refusals_since (Some start) st),
          rp_watching = py_round 10 (sum_list (map (\<lambda>(r, d). case dc_triage_cost d of Some q \<Rightarrow> q | None \<Rightarrow> 0)
            (all_decisions considered))),
          rp_doing = py_round 10 (sum_list (map (\<lambda>s. gs_run_spend (governor_snapshot_of s mo st)) (subscriptions st)))\<rparr>)"

section \<open>Facts\<close>

lemma ledger_only_keys:
  "distinct (map key_of (ledger_only seen fs)) \<and>
   set (map key_of (ledger_only seen fs)) = (\<lambda>f. key_of (refusal_entry f)) ` set fs - set seen"
proof (induction fs arbitrary: seen)
  case (Cons f fs)
  show ?case
    using Cons.IH [of seen] Cons.IH [of "key_of (refusal_entry f) # seen"]
    by (cases "key_of (refusal_entry f) \<in> set seen") (auto simp: Let_def)
qed simp

lemma outcome_split:
  "length (filter (\<lambda>(r, d). outcome_of d = Acted) xs) + length (filter (\<lambda>(r, d). outcome_of d = Ignored) xs) +
   length (filter (\<lambda>(r, d). is_blocked (outcome_of d)) xs) = length xs"
proof (induction xs)
  case (Cons x xs)
  then show ?case by (cases x; cases "outcome_of (snd x)") (simp_all add: is_blocked_def)
qed simp

section \<open>The property\<close>

text \<open>The report accounts for the whole window: every decision of a considered event is in exactly
  one of acted, ignored and blocked, and every refusal of the ledger since the start of the window is
  surfaced exactly once, beside its event's decision or in the ledger's own list, never in both.\<close>

lemma report_accounts_for_window:
  "let rep = morning_report since mo st;
       start = (case since of Some t \<Rightarrow> t | None \<Rightarrow> mo_micros mo - 24 * 3600 * 1000000);
       shown = map key_of (rp_ledger_only rep)
   in length (rp_acted rep) + length (rp_ignored rep) + length (rp_blocked rep) =
        length (concat (map er_decisions (rp_considered rep))) \<and>
      set shown \<inter> key_of ` set (rp_blocked rep) = {} \<and> distinct shown \<and>
      set shown \<union> key_of ` set (rp_blocked rep) =
        (\<lambda>f. key_of (refusal_entry f)) ` {f \<in> set (es_refusals st). sr_at f \<ge> start} \<union> key_of ` set (rp_blocked rep)"
proof -
  define start where "start = (case since of Some t \<Rightarrow> t | None \<Rightarrow> mo_micros mo - 24 * 3600 * 1000000)"
  let ?c = "filter (\<lambda>r. \<not> er_received r < start) (es_events st)"
  let ?b = "entries_with is_blocked ?c"
  have n: "length (all_decisions rs) = length (concat (map er_decisions rs))" for rs
    by (induction rs) (simp_all add: all_decisions_def)
  note k = ledger_only_keys [of "map key_of ?b" "refusals_since (Some start) st"]
  have r: "rp_considered (morning_report since mo st) = ?c" "rp_blocked (morning_report since mo st) = ?b"
      "rp_acted (morning_report since mo st) = entries_with (\<lambda>out. out = Acted) ?c"
      "rp_ignored (morning_report since mo st) = entries_with (\<lambda>out. out = Ignored) ?c"
      "rp_ledger_only (morning_report since mo st) = ledger_only (map key_of ?b) (refusals_since (Some start) st)"
    by (simp_all add: morning_report_def Let_def start_def)
  have rs: "set (refusals_since (Some start) st) = {f \<in> set (es_refusals st). sr_at f \<ge> start}"
    by (auto simp: refusals_since_def)
  have len: "length (entries_with (\<lambda>out. out = Acted) ?c) + length (entries_with (\<lambda>out. out = Ignored) ?c) + length ?b =
      length (concat (map er_decisions ?c))"
    using n [of ?c] outcome_split [of "all_decisions ?c"] by (simp add: entries_with_def)
  show ?thesis
    unfolding start_def [symmetric] Let_def r
    using k len by (auto simp: rs)
qed

section \<open>Adapters, routes and the stream\<close>

text \<open>
  How events get in and out: the adapters that normalise a schedule's tick, a webhook and a mail notification
  (\<open>events/adapters.py\<close>), and the routes that store a subscription and stream the history from a cursor
  (\<open>events/routes.py\<close>). Base64, the printing of instants and the reading of ISO dates are arguments; the instant itself no
  modelled code reads.
\<close>

section \<open>Adapters\<close>

definition cron_event :: "string \<Rightarrow> string \<Rightarrow> obj \<Rightarrow> envelope" where
  "cron_event schedule instant data =
     \<lparr>en_id = schedule @ '':'' @ instant, en_source = ''cron.'' @ schedule, en_type = ''schedule.tick'', en_subject = Some schedule,
       en_data = data, en_actor = None\<rparr>"

definition webhook_event :: "string \<Rightarrow> string \<Rightarrow> string \<Rightarrow> obj \<Rightarrow> envelope" where
  "webhook_event source delivery etype payload =
     \<lparr>en_id = delivery, en_source = source, en_type = etype, en_subject = None, en_data = payload, en_actor = None\<rparr>"

record mail_codec =
  ml_unb64 :: "string \<Rightarrow> string option"
  ml_instant :: "string \<Rightarrow> bool"
  ml_str :: "json \<Rightarrow> string"

text \<open>The notification inside Google's wrapper; whatever is wrong with it is a value error.\<close>

definition mail_payload :: "mail_codec \<Rightarrow> obj \<Rightarrow> (obj \<times> obj) result" where
  "mail_payload ml message =
     (case jget message ''message'' of
        JObj wrapped \<Rightarrow>
          (case jget wrapped ''data'' of
             JStr s \<Rightarrow>
               (case Option.bind (ml_unb64 ml s) loads of
                  Some (JObj p) \<Rightarrow>
                    if truthy (jget p ''emailAddress'') \<and> truthy (jget p ''historyId'') then Inr (wrapped, p) else Inl ValueError
                | _ \<Rightarrow> Inl ValueError)
           | _ \<Rightarrow> Inl ValueError)
      | _ \<Rightarrow> Inl ValueError)"

text \<open>\<open>Z\<close> is written \<open>+00:00\<close> for the reader of dates.\<close>

definition zulu :: "string \<Rightarrow> string" where
  "zulu s = concat (map (\<lambda>c. if c = CHR ''Z'' then ''+00:00'' else [c]) s)"

definition gmail_pubsub_event :: "mail_codec \<Rightarrow> obj \<Rightarrow> envelope result" where
  "gmail_pubsub_event ml message =
     bind_r (mail_payload ml message) (\<lambda>(wrapped, p).
       let published = jget wrapped ''publishTime'' in
       if truthy published \<and> \<not> ml_instant ml (zulu (printed (ml_str ml) published)) then Inl ValueError
       else Inr \<lparr>en_id = printed (ml_str ml) (or_else (jget wrapped ''messageId'') (JStr (''gmail-'' @ printed (ml_str ml) (jget p ''historyId'')))),
              en_source = ''gmail.pubsub'', en_type = ''gmail.history.changed'',
              en_subject = Some (printed (ml_str ml) (jget p ''emailAddress'')), en_data = p, en_actor = None\<rparr>)"

section \<open>Routes\<close>

definition put_subscription_route :: "string \<Rightarrow> subscription \<Rightarrow> event_state \<Rightarrow> event_state result" where
  "put_subscription_route path_id body st =
     (if su_id body \<noteq> path_id then Inl (HTTPException 422) else Inr (put_subscription body st))"

definition liveness_code :: "event_state \<Rightarrow> int \<Rightarrow> rat \<Rightarrow> int" where
  "liveness_code st now stale_after = (if fst (liveness_status st now stale_after) then 200 else 503)"

text \<open>One turn of the stream: what it sends from a cursor, and where the cursor is then. With nothing to send it keeps alive.\<close>

definition feed_turn :: "nat \<Rightarrow> event_state \<Rightarrow> event_record list \<times> nat" where
  "feed_turn cursor st =
     (let rs = events_after cursor None st in (rs, if rs = [] then cursor else er_sequence (last rs)))"

text \<open>The sequence numbers a client sees, over the states the store is in at the turns.\<close>

fun feed :: "nat \<Rightarrow> event_state list \<Rightarrow> nat list" where
  "feed cursor [] = []"
| "feed cursor (st # sts) = (let (rs, c) = feed_turn cursor st in map er_sequence rs @ feed c sts)"

fun feed_cursor :: "nat \<Rightarrow> event_state list \<Rightarrow> nat" where
  "feed_cursor cursor [] = cursor"
| "feed_cursor cursor (st # sts) = feed_cursor (snd (feed_turn cursor st)) sts"

section \<open>What the stream promises\<close>

text \<open>The states of a growing store: each comes from the one before by operations.\<close>

fun feed_grows :: "int \<Rightarrow> event_state \<Rightarrow> event_state list \<Rightarrow> bool" where
  "feed_grows cap st [] = True"
| "feed_grows cap st (t # ts) = ((\<exists>ops. t = run_ops cap ops st) \<and> feed_grows cap t ts)"

definition sequences :: "event_state \<Rightarrow> nat list" where
  "sequences st = map er_sequence (es_events st)"

text \<open>An operation brings in no sequence number that was passed before.\<close>

lemma op_sequences:
  "set (sequences (apply_op cap op st)) \<subseteq> set (sequences st) \<union> {es_next st} \<and> es_next st \<le> es_next (apply_op cap op st)"
proof (cases op)
  case (Ingest now e)
  then show ?thesis
    by (auto simp: apply_op_def ingest_def Let_def compact_history_def sequences_def image_iff dest: in_set_dropD split: option.split)
next
  case (Add_decision now source eid d)
  have "map er_sequence (update_first p (\<lambda>r. r\<lparr>er_decisions := er_decisions r @ [d]\<rparr>) rs) = map er_sequence rs" for p and rs :: "event_record list"
    by (rule update_first_map) simp
  then have "sequences (add_decision now source eid d st) = sequences st"
    unfolding sequences_def add_decision_def by (simp split: option.split del: map_map)
  moreover have "es_next (add_decision now source eid d st) = es_next st" by (simp add: add_decision_def split: option.split)
  ultimately show ?thesis using Add_decision by (auto simp: apply_op_def)
qed (auto simp: apply_op_def put_subscription_def window_record_def window_reserve_def put_window_def store_refuse_def beat_def
    Let_def sequences_def)

lemma ops_sequences:
  "n \<in> set (sequences (run_ops cap ops st)) \<Longrightarrow> n < es_next st \<Longrightarrow> n \<in> set (sequences st)"
proof (induction ops arbitrary: st)
  case (Cons op ops)
  have "es_next st \<le> es_next (apply_op cap op st)" using op_sequences [of cap op st] by simp
  with Cons have "n \<in> set (sequences (apply_op cap op st))" by (simp add: run_ops_def)
  with op_sequences [of cap op st] Cons.prems(2) show ?case by auto
qed (simp add: run_ops_def)

lemma run_ops_history: "history_ok cap st \<Longrightarrow> history_ok cap (run_ops cap ops st)"
  using history.steps_inv [OF run_ops_steps] .

lemma feed_turn_sends:
  assumes "history_ok cap st" and "feed_turn cursor st = (rs, c)"
  shows "sorted_wrt (<) (map er_sequence rs)" and "set (map er_sequence rs) = {n \<in> set (sequences st). cursor < n}"
    and "cursor \<le> c" and "\<forall>n \<in> set (map er_sequence rs). n \<le> c" and "c \<noteq> cursor \<Longrightarrow> c < es_next st"
proof -
  have rs: "rs = filter (\<lambda>r. cursor < er_sequence r) (es_events st)" "c = (if rs = [] then cursor else er_sequence (last rs))"
    using assms(2) by (auto simp: feed_turn_def events_after_def Let_def)
  have "sorted_wrt (<) (map er_sequence (es_events st))" using assms(1) by (simp add: history_ok_def strict_sorted_iff)
  then show s: "sorted_wrt (<) (map er_sequence rs)"
    unfolding rs(1) by (simp add: sorted_wrt_map sorted_wrt_filter)
  show "set (map er_sequence rs) = {n \<in> set (sequences st). cursor < n}" unfolding rs(1) by (auto simp: sequences_def)
  show "cursor \<le> c"
  proof (cases "rs = []")
    case False
    then have "last rs \<in> set rs" by simp
    then have "cursor < er_sequence (last rs)" unfolding rs(1) by (metis (mono_tags, lifting) mem_Collect_eq set_filter)
    with False rs(2) show ?thesis by simp
  qed (simp add: rs(2))
  show "\<forall>n \<in> set (map er_sequence rs). n \<le> c"
  proof
    fix n assume n: "n \<in> set (map er_sequence rs)"
    then have "rs \<noteq> []" by auto
    have top: "sorted ms \<Longrightarrow> n \<in> set ms \<Longrightarrow> n \<le> last ms" for ms by (induction ms) auto
    have "n \<le> last (map er_sequence rs)" using s n by (intro top) (auto simp: strict_sorted_iff)
    then show "n \<le> c" using \<open>rs \<noteq> []\<close> rs(2) by (simp add: last_map)
  qed
  show "c < es_next st" if "c \<noteq> cursor"
  proof -
    have "rs \<noteq> []" "c = er_sequence (last rs)" using that rs(2) by (auto split: if_splits)
    moreover from this have "last rs \<in> set (es_events st)" using rs(1) by (metis filter_is_subset last_in_set subsetD)
    ultimately show ?thesis using assms(1) by (auto simp: history_ok_def)
  qed
qed

lemma grows_sequences:
  "feed_grows cap t ts \<Longrightarrow> u \<in> set ts \<Longrightarrow> n \<in> set (sequences u) \<Longrightarrow> n < es_next t \<Longrightarrow> n \<in> set (sequences t)"
proof (induction ts arbitrary: t)
  case (Cons v vs)
  from Cons.prems obtain ops where v: "v = run_ops cap ops t" by auto
  have mono: "es_next st \<le> es_next (run_ops cap ops st)" for st
  proof (induction ops arbitrary: st)
    case (Cons op ops)
    from Cons [of "apply_op cap op st"] op_sequences [of cap op st] show ?case by (simp add: run_ops_def)
  qed (simp add: run_ops_def)
  have "n \<in> set (sequences v)"
  proof (cases "u = v")
    case False
    then show ?thesis using Cons.IH [of v] Cons.prems mono [of t] v by auto
  qed (use Cons.prems in simp)
  then show ?case using ops_sequences Cons.prems(4) v by blast
qed simp

lemma feed_spec:
  assumes "history_ok cap st" and "feed_grows cap st sts"
  shows "sorted_wrt (<) (feed cursor sts) \<and> (\<forall>n \<in> set (feed cursor sts). cursor < n \<and> (\<exists>t \<in> set sts. n \<in> set (sequences t))) \<and>
    (\<forall>n \<in> (if sts = [] then {} else set (sequences (last sts))). n \<le> cursor \<or> n \<in> set (feed cursor sts))"
  using assms
proof (induction sts arbitrary: cursor st)
  case (Cons t ts)
  from Cons.prems have ok: "history_ok cap t" and g: "feed_grows cap t ts" using run_ops_history by auto
  obtain rs c where turn: "feed_turn cursor t = (rs, c)" by (metis surj_pair)
  note sent = feed_turn_sends [OF ok turn]
  note IH = Cons.IH [OF ok g, of c]
  have eq: "feed cursor (t # ts) = map er_sequence rs @ feed c ts" using turn by simp
  have sorted: "sorted_wrt (<) (feed cursor (t # ts))"
    unfolding eq sorted_wrt_append using sent(1,4) IH by (auto intro: le_less_trans)
  have new: "\<forall>n \<in> set (feed cursor (t # ts)). cursor < n \<and> (\<exists>u \<in> set (t # ts). n \<in> set (sequences u))"
    unfolding eq using sent(2,3) IH by (fastforce intro: le_less_trans)
  have whole: "n \<le> cursor \<or> n \<in> set (feed cursor (t # ts))" if n: "n \<in> set (sequences (last (t # ts)))" for n
  proof (cases "ts = []")
    case True
    then show ?thesis using n sent(2) eq by auto
  next
    case False
    then have n: "n \<in> set (sequences (last ts))" using n by simp
    show ?thesis
    proof (cases "c < n")
      case True
      then show ?thesis using IH False n eq by auto
    next
      case le: False
      show ?thesis
      proof (cases "n \<le> cursor")
        case False
        then have "c < es_next t" using sent(5) le by auto
        then have "n \<in> set (sequences t)" using grows_sequences [OF g last_in_set [OF \<open>ts \<noteq> []\<close>] n] le by simp
        then show ?thesis using sent(2) False eq by auto
      qed simp
    qed
  qed
  from sorted new whole show ?case by simp
qed simp

text \<open>The event stream is whole: a client that follows it from a cursor gets every event once, in order, and none of those
  before its cursor, while events arrive, are decided upon and are compacted between the turns of the stream; at every moment it has
  got all that the history then keeps, so that reconnecting with the last number it saw continues where it was.\<close>

lemma event_stream_is_whole:
  assumes "feed_grows cap (run_ops cap ops empty_events) sts" and "sts \<noteq> []"
  shows "sorted_wrt (<) (feed cursor sts) \<and> list_all (\<lambda>n. cursor < n) (feed cursor sts) \<and>
    list_all (\<lambda>n. n \<le> cursor \<or> n \<in> set (feed cursor sts)) (sequences (last sts))"
  using feed_spec [OF run_ops_ok assms(1), of cursor] assms(2) by (simp add: list_all_iff)

definition feed_states :: "event_state list" where
  "feed_states = [run_ops 2 [Ingest 1 (demo_event ''a'' ''1'')] empty_events,
     run_ops 2 [Ingest 2 (demo_event ''a'' ''2''), Ingest 3 (demo_event ''b'' ''1'')] (run_ops 2 [Ingest 1 (demo_event ''a'' ''1'')] empty_events)]"

lemma feed_demo: "feed 0 feed_states = [1, 2, 3] \<and> sequences (last feed_states) = [2, 3]"
  by code_simp

lemma event_stream_is_whole_witness:
  "sorted_wrt (<) (feed 0 feed_states) \<and> list_all (\<lambda>n. n \<in> set (feed 0 feed_states)) [2, 3]"
proof -
  have "run_ops 2 [] empty_events = empty_events" by (simp add: run_ops_def)
  then have "feed_grows 2 (run_ops 2 [] empty_events) feed_states" unfolding feed_states_def feed_grows.simps by metis
  moreover have "feed_states \<noteq> []" by (simp add: feed_states_def)
  ultimately show ?thesis using event_stream_is_whole [of 2 "[]" feed_states 0] feed_demo by simp
qed

text \<open>A record is sent when it is there, with the decisions it has then; what is decided later never goes over a stream that follows it.\<close>

lemma decisions_after_sending_are_not_sent:
  "fst (feed_turn (er_sequence r) (st\<lparr>es_events := [r\<lparr>er_decisions := er_decisions r @ [d]\<rparr>]\<rparr>)) = []"
  by (simp add: feed_turn_def events_after_def Let_def)

end
