(* ===== verification/Capability.thy ===== *)
theory Capability
  imports Json_Parse
begin

text \<open>
  The capability surface (\<open>capabilities.py\<close>): argument contracts, the registry, and the one
  validator every proposed task passes. Descriptions and role rules are prompt text and are left
  out. \<open>ip\<close> says which bracketed hosts the interpreter's \<open>urlsplit\<close> takes for an IPv6 address,
  which depends on its version.
\<close>

record argument =
  ag_kind :: string
  ag_required :: bool
  ag_default :: "json option"
  ag_minimum :: "int option"
  ag_maximum :: "int option"
  ag_choices :: "string list"
  ag_item_kind :: "string option"
  ag_format :: "string option"

record projection =
  ep_kind :: string
  ep_records :: "string option"
  ep_record :: "string option"
  ep_text :: "string option"
  ep_join :: "string option"
  ep_prefix :: string
  ep_sources :: "string list"
  ep_source_template :: "string option"
  ep_items :: "string option"
  ep_item_text :: "string list"
  ep_item_source :: "string option"
  ep_item_kind :: "string option"
  ep_summary :: "string option"
  ep_summary_kind :: "string option"
  ep_prepend :: bool
  ep_external_sources :: bool

record capability =
  cp_name :: string
  cp_arguments :: "(string \<times> argument) list"
  cp_role :: "string option"
  cp_side_effect :: bool
  cp_terminal_for :: "string list"
  cp_families :: "string list"
  cp_evidence :: "projection option"

type_synonym registry = "(string \<times> capability) list"

section \<open>Value formats\<close>

text \<open>\<open>urlparse(value)\<close>: the scheme and the network location, or the \<open>ValueError\<close> of a malformed host.\<close>

definition is_alpha :: "char \<Rightarrow> bool" where
  "is_alpha c = (let n = (of_char c :: nat) in 65 \<le> n \<and> n \<le> 90 \<or> 97 \<le> n \<and> n \<le> 122)"

definition scheme_char :: "char \<Rightarrow> bool" where
  "scheme_char c = (is_alpha c \<or> is_digit c \<or> c \<in> set ''+-.'')"

definition clean_url :: "string \<Rightarrow> string" where
  "clean_url s = filter (\<lambda>c. (of_char c :: nat) \<notin> {9, 10, 13}) (dropWhile (\<lambda>c. (of_char c :: nat) \<le> 32) s)"

definition split_scheme :: "string \<Rightarrow> string \<times> string" where
  "split_scheme s =
     (let pre = takeWhile (\<lambda>c. c \<noteq> CHR '':'') s; post = drop (length pre) s in
      if post \<noteq> [] \<and> pre \<noteq> [] \<and> is_alpha (hd pre) \<and> list_all scheme_char pre then (lower pre, tl post)
      else ([], s))"

definition netloc_of :: "string \<Rightarrow> string" where
  "netloc_of rest = (if startswith rest ''//'' then takeWhile (\<lambda>c. c \<notin> set ''/?#'') (drop 2 rest) else [])"

definition url_parts :: "(string \<Rightarrow> bool) \<Rightarrow> string \<Rightarrow> (string \<times> string) result" where
  "url_parts ip s =
     (let (scheme, rest) = split_scheme (clean_url s); host = netloc_of rest;
          opens = CHR ''['' \<in> set host; closes = CHR '']'' \<in> set host
      in if opens \<noteq> closes then Inl ValueError
         else if opens \<and> \<not> ip host then Inl ValueError
         else Inr (scheme, host))"

text \<open>\<open>date.fromisoformat\<close>: calendar dates and ISO weeks, with and without separators.\<close>

definition leap_year :: "nat \<Rightarrow> bool" where
  "leap_year y = (y mod 4 = 0 \<and> (y mod 100 \<noteq> 0 \<or> y mod 400 = 0))"

definition days_in_month :: "nat \<Rightarrow> nat \<Rightarrow> nat" where
  "days_in_month y m = (if m = 2 then (if leap_year y then 29 else 28)
     else if m \<in> {4, 6, 9, 11} then 30 else 31)"

definition date_ok :: "nat \<Rightarrow> nat \<Rightarrow> nat \<Rightarrow> bool" where
  "date_ok y m d = (1 \<le> y \<and> 1 \<le> m \<and> m \<le> 12 \<and> 1 \<le> d \<and> d \<le> days_in_month y m)"

text \<open>The weekday of 1 January, Monday being 0.\<close>

definition first_weekday :: "nat \<Rightarrow> nat" where
  "first_weekday y = (let p = y - 1 in (365 * p + p div 4 - p div 100 + p div 400) mod 7)"

definition week_ok :: "nat \<Rightarrow> nat \<Rightarrow> nat \<Rightarrow> bool" where
  "week_ok y w d = (1 \<le> y \<and> 1 \<le> w \<and> 1 \<le> d \<and> d \<le> 7 \<and>
     (w \<le> 52 \<or> w = 53 \<and> (first_weekday y = 3 \<or> first_weekday y = 2 \<and> leap_year y)) \<and>
     \<not> (y = 9999 \<and> w = 52 \<and> d > 5))"

definition slice :: "nat \<Rightarrow> nat \<Rightarrow> 'a list \<Rightarrow> 'a list" where
  "slice i j xs = take (j - i) (drop i xs)"

definition num_at :: "nat \<Rightarrow> nat \<Rightarrow> string \<Rightarrow> nat option" where
  "num_at i j s = (if list_all is_digit (slice i j s) \<and> length (slice i j s) = j - i
     then Some (nat_of_digits (slice i j s)) else None)"

definition three :: "(nat \<Rightarrow> nat \<Rightarrow> nat \<Rightarrow> bool) \<Rightarrow> nat option \<Rightarrow> nat option \<Rightarrow> nat option \<Rightarrow> bool" where
  "three p a b c = (case (a, b, c) of (Some x, Some y, Some z) \<Rightarrow> p x y z | _ \<Rightarrow> False)"

definition iso_date :: "string \<Rightarrow> bool" where
  "iso_date s =
     (let n = length s; sep = (\<lambda>i. slice i (i + 1) s = ''-''); wk = (\<lambda>i. slice i (i + 1) s = ''W'') in
      if n = 10 \<and> sep 4 \<and> wk 5 then sep 8 \<and> three week_ok (num_at 0 4 s) (num_at 6 8 s) (num_at 9 10 s)
      else if n = 10 then sep 4 \<and> sep 7 \<and> three date_ok (num_at 0 4 s) (num_at 5 7 s) (num_at 8 10 s)
      else if n = 8 \<and> sep 4 then wk 5 \<and> three week_ok (num_at 0 4 s) (num_at 6 8 s) (Some 1)
      else if n = 8 \<and> wk 4 then three week_ok (num_at 0 4 s) (num_at 5 7 s) (num_at 7 8 s)
      else if n = 8 then three date_ok (num_at 0 4 s) (num_at 4 6 s) (num_at 6 8 s)
      else n = 7 \<and> wk 4 \<and> three week_ok (num_at 0 4 s) (num_at 5 7 s) (Some 1))"

text \<open>\<open>_check_format\<close>: what it raises.\<close>

definition check_format :: "(string \<Rightarrow> bool) \<Rightarrow> string \<Rightarrow> json \<Rightarrow> py_error option" where
  "check_format ip fmt v =
     (if fmt = ''url'' then
        (case v of
           JStr s \<Rightarrow>
             (case url_parts ip s of
                Inl e \<Rightarrow> Some e
              | Inr (scheme, host) \<Rightarrow>
                  if scheme \<notin> {''http'', ''https''} \<or> host = [] then Some CapabilityError else None)
         | _ \<Rightarrow> Some (if truthy v then AttributeError else CapabilityError))
      else if fmt = ''iso_date'' then
        (case v of JStr s \<Rightarrow> if iso_date s then None else Some CapabilityError | _ \<Rightarrow> Some CapabilityError)
      else Some CapabilityError)"

section \<open>Arguments\<close>

definition below :: "int option \<Rightarrow> int \<Rightarrow> bool" where
  "below m n = (case m of None \<Rightarrow> False | Some l \<Rightarrow> n < l)"

definition exceeds :: "int option \<Rightarrow> int \<Rightarrow> bool" where
  "exceeds m n = (case m of None \<Rightarrow> False | Some l \<Rightarrow> n > l)"

definition nonblank :: "json \<Rightarrow> bool" where
  "nonblank v = (case v of JStr s \<Rightarrow> strip s \<noteq> [] | _ \<Rightarrow> False)"

definition strip_item :: "json \<Rightarrow> json" where
  "strip_item v = (case v of JStr s \<Rightarrow> JStr (strip s) | _ \<Rightarrow> v)"

text \<open>The branches of \<open>validate\<close> on \<open>spec.kind\<close>.\<close>

definition check_kind :: "argument \<Rightarrow> json \<Rightarrow> json result" where
  "check_kind ag v =
     (if ag_kind ag = ''string'' then
        (case v of
           JStr s \<Rightarrow> if strip s = [] then Inl CapabilityError
                     else if exceeds (ag_maximum ag) (int (length (strip s))) then Inl CapabilityError
                     else Inr (JStr (strip s))
         | _ \<Rightarrow> Inl CapabilityError)
      else if ag_kind ag = ''integer'' then
        (case v of
           JInt i \<Rightarrow> if below (ag_minimum ag) i \<or> exceeds (ag_maximum ag) i then Inl CapabilityError else Inr v
         | _ \<Rightarrow> Inl CapabilityError)
      else if ag_kind ag = ''array'' then
        (case v of
           JList xs \<Rightarrow>
             if below (ag_minimum ag) (int (length xs)) \<or> exceeds (ag_maximum ag) (int (length xs)) then Inl CapabilityError
             else if ag_item_kind ag = Some ''string'' \<and> \<not> list_all nonblank xs then Inl CapabilityError
             else Inr (JList (map strip_item xs))
         | _ \<Rightarrow> Inl CapabilityError)
      else if ag_kind ag = ''boolean'' then
        (case v of JBool b \<Rightarrow> Inr v | _ \<Rightarrow> Inl CapabilityError)
      else Inl CapabilityError)"

definition check_choice :: "argument \<Rightarrow> json \<Rightarrow> py_error option" where
  "check_choice ag v =
     (if ag_choices ag \<noteq> [] \<and> \<not> list_ex (\<lambda>c. v = JStr c) (ag_choices ag) then Some CapabilityError else None)"

definition check_value :: "(string \<Rightarrow> bool) \<Rightarrow> argument \<Rightarrow> json \<Rightarrow> json result" where
  "check_value ip ag v =
     bind_r (check_kind ag v) (\<lambda>w.
       guard_r (check_choice ag w)
         (guard_r (case ag_format ag of None \<Rightarrow> None | Some f \<Rightarrow> if f = [] then None else check_format ip f w) (Inr w)))"

text \<open>One argument: the value it gets, if any.\<close>

definition clean_one :: "(string \<Rightarrow> bool) \<Rightarrow> argument \<Rightarrow> json option \<Rightarrow> json option result" where
  "clean_one ip ag v =
     (case v of
        None \<Rightarrow> if ag_required ag then Inl CapabilityError else Inr (ag_default ag)
      | Some w \<Rightarrow> bind_r (check_value ip ag w) (\<lambda>x. Inr (Some x)))"

fun clean_args :: "(string \<Rightarrow> bool) \<Rightarrow> (string \<times> argument) list \<Rightarrow> obj \<Rightarrow> obj result" where
  "clean_args ip [] vs = Inr []"
| "clean_args ip ((k, ag) # ags) vs =
     bind_r (clean_one ip ag (dget vs k)) (\<lambda>r. bind_r (clean_args ip ags vs) (\<lambda>rest.
       Inr (case r of None \<Rightarrow> rest | Some x \<Rightarrow> (k, x) # rest)))"

section \<open>The registry\<close>

definition make_registry :: "capability list \<Rightarrow> registry result" where
  "make_registry cs =
     (let items = fold (\<lambda>c. dput (cp_name c) c) cs [] in
      if length items \<noteq> length cs then Inl ValueError else Inr items)"

definition get_capability :: "registry \<Rightarrow> string \<Rightarrow> capability result" where
  "get_capability rg name = (case dget rg name of None \<Rightarrow> Inl CapabilityError | Some c \<Rightarrow> Inr c)"

definition terminal_skills :: "registry \<Rightarrow> string \<Rightarrow> string list" where
  "terminal_skills rg respond_as = map cp_name (filter (\<lambda>c. respond_as \<in> set (cp_terminal_for c)) (map snd rg))"

definition family :: "registry \<Rightarrow> string \<Rightarrow> string list" where
  "family rg name = map cp_name (filter (\<lambda>c. name \<in> set (cp_families c)) (map snd rg))"

definition plain_projection :: projection where
  "plain_projection = \<lparr>ep_kind = ''capability'', ep_records = None, ep_record = None, ep_text = None, ep_join = None,
     ep_prefix = [], ep_sources = [], ep_source_template = None, ep_items = None, ep_item_text = [],
     ep_item_source = None, ep_item_kind = None, ep_summary = None, ep_summary_kind = None,
     ep_prepend = False, ep_external_sources = False\<rparr>"

definition projection_of :: "registry \<Rightarrow> string \<Rightarrow> projection" where
  "projection_of rg name =
     (case dget rg name of
        None \<Rightarrow> plain_projection\<lparr>ep_kind := ''capability:'' @ name\<rparr>
      | Some c \<Rightarrow> (case cp_evidence c of None \<Rightarrow> plain_projection\<lparr>ep_kind := ''capability:'' @ name\<rparr> | Some p \<Rightarrow> p))"

definition validate :: "(string \<Rightarrow> bool) \<Rightarrow> registry \<Rightarrow> string \<Rightarrow> json \<Rightarrow> obj result" where
  "validate ip rg name v =
     bind_r (get_capability rg name) (\<lambda>c.
       case v of
         JObj vs \<Rightarrow>
           if \<not> set (dkeys vs) \<subseteq> set (dkeys (cp_arguments c)) then Inl CapabilityError
           else clean_args ip (cp_arguments c) vs
       | _ \<Rightarrow> Inl CapabilityError)"

section \<open>The default registry\<close>

definition plain_argument :: "string \<Rightarrow> argument" where
  "plain_argument kind = \<lparr>ag_kind = kind, ag_required = True, ag_default = None, ag_minimum = None,
     ag_maximum = None, ag_choices = [], ag_item_kind = None, ag_format = None\<rparr>"

definition str_arg :: argument where "str_arg = plain_argument ''string''"
definition int_arg :: argument where "int_arg = plain_argument ''integer''"
definition bool_arg :: argument where "bool_arg = plain_argument ''boolean''"
definition arr_arg :: argument where "arr_arg = plain_argument ''array''"

definition plain_capability :: "string \<Rightarrow> (string \<times> argument) list \<Rightarrow> capability" where
  "plain_capability name args = \<lparr>cp_name = name, cp_arguments = args, cp_role = None, cp_side_effect = False,
     cp_terminal_for = [], cp_families = [], cp_evidence = None\<rparr>"

definition role_output :: projection where
  "role_output = plain_projection\<lparr>ep_kind := ''role_output'', ep_text := Some ''text'', ep_external_sources := True\<rparr>"

definition default_capabilities :: "capability list" where
  "default_capabilities = [
     (plain_capability ''load_skill'' [(''name'', str_arg\<lparr>ag_maximum := Some 64\<rparr>),
        (''reference'', str_arg\<lparr>ag_required := False, ag_maximum := Some 128\<rparr>)]),
     (plain_capability ''memory_recall'' [(''query'', str_arg\<lparr>ag_maximum := Some 20000\<rparr>)])\<lparr>cp_families := [''evidence''], cp_evidence := Some (plain_projection\<lparr>ep_records := Some ''hits''\<rparr>)\<rparr>,
     (plain_capability ''remember_explicit_fact'' [(''text'', str_arg\<lparr>ag_maximum := Some 20000\<rparr>)])\<lparr>cp_side_effect := True, cp_evidence := Some (plain_projection\<lparr>ep_record := Some ''fact'', ep_prepend := True\<rparr>)\<rparr>,
     (plain_capability ''web_search'' [(''query'', str_arg\<lparr>ag_maximum := Some 2000\<rparr>),
        (''max_results'', int_arg\<lparr>ag_required := False, ag_default := Some (JInt 3), ag_minimum := Some 1,
        ag_maximum := Some 5\<rparr>)])\<lparr>cp_families := [''evidence''],
        cp_evidence := Some (plain_projection\<lparr>ep_items := Some ''hits'',
        ep_item_text := [''title'', ''snippet''], ep_item_source := Some ''url'',
        ep_item_kind := Some ''search_result''\<rparr>)\<rparr>,
     (plain_capability ''fetch_url'' [(''url'', str_arg\<lparr>ag_maximum := Some 4000,
        ag_format := Some ''url''\<rparr>)])\<lparr>cp_families := [''evidence''],
        cp_evidence := Some (plain_projection\<lparr>ep_kind := ''web_page'', ep_text := Some ''text'',
        ep_sources := [''url'']\<rparr>)\<rparr>,
     (plain_capability ''researcher'' [(''query'', str_arg\<lparr>ag_maximum := Some 4000\<rparr>),
        (''max_results'', int_arg\<lparr>ag_required := False, ag_default := Some (JInt 3), ag_minimum := Some 1,
        ag_maximum := Some 5\<rparr>), (''subject'', str_arg\<lparr>ag_required := False,
        ag_maximum := Some 200\<rparr>)])\<lparr>cp_role := Some ''researcher'', cp_families := [''evidence''],
        cp_evidence := Some (plain_projection\<lparr>ep_kind := ''role_output'', ep_text := Some ''text'',
        ep_external_sources := True, ep_items := Some ''hits'', ep_item_text := [''title'', ''snippet''],
        ep_item_source := Some ''url'', ep_item_kind := Some ''research''\<rparr>)\<rparr>,
     (plain_capability ''read_file'' [(''path'', str_arg\<lparr>ag_maximum := Some 2000\<rparr>)])\<lparr>cp_families := [''evidence''], cp_evidence := Some (plain_projection\<lparr>ep_kind := ''local_file'', ep_text := Some ''text'', ep_source_template := Some ''file://{path}''\<rparr>)\<rparr>,
     (plain_capability ''write_file'' [(''path'', str_arg\<lparr>ag_maximum := Some 2000\<rparr>),
        (''content'', str_arg\<lparr>ag_maximum := Some 60000\<rparr>),
        (''overwrite'', bool_arg\<lparr>ag_required := False,
        ag_default := Some (JBool False)\<rparr>)])\<lparr>cp_side_effect := True\<rparr>,
     (plain_capability ''copy_code_file'' [(''source'', str_arg\<lparr>ag_maximum := Some 2000\<rparr>),
        (''destination'', str_arg\<lparr>ag_maximum := Some 2000\<rparr>),
        (''overwrite'', bool_arg\<lparr>ag_required := False,
        ag_default := Some (JBool False)\<rparr>)])\<lparr>cp_side_effect := True,
        cp_families := [''coding'']\<rparr>,
     (plain_capability ''copy_file'' [(''source'', str_arg\<lparr>ag_maximum := Some 2000\<rparr>),
        (''destination'', str_arg\<lparr>ag_maximum := Some 2000\<rparr>),
        (''overwrite'', bool_arg\<lparr>ag_required := False,
        ag_default := Some (JBool False)\<rparr>)])\<lparr>cp_side_effect := True\<rparr>,
     (plain_capability ''file_sha256'' [(''path'', str_arg\<lparr>ag_maximum := Some 2000\<rparr>)]),
     (plain_capability ''verify_artifact'' [(''uri'', str_arg\<lparr>ag_maximum := Some 4000\<rparr>)]),
     (plain_capability ''calculate'' [(''expression'', str_arg\<lparr>ag_maximum := Some 2000\<rparr>)]),
     (plain_capability ''query_csv'' [(''files'', arr_arg\<lparr>ag_minimum := Some 1, ag_maximum := Some 10,
        ag_item_kind := Some ''string''\<rparr>), (''sql'', str_arg\<lparr>ag_maximum := Some 10000\<rparr>)]),
     (plain_capability ''current_datetime'' [(''timezone'', str_arg\<lparr>ag_required := False,
        ag_default := Some (JStr ''UTC''), ag_maximum := Some 100\<rparr>)]),
     (plain_capability ''date_shift'' [(''date'', str_arg\<lparr>ag_maximum := Some 10\<rparr>),
        (''days'', int_arg\<lparr>ag_minimum := Some (-10000), ag_maximum := Some 10000\<rparr>)]),
     (plain_capability ''list_directory'' [(''path'', str_arg\<lparr>ag_maximum := Some 2000\<rparr>),
        (''suffix'', str_arg\<lparr>ag_required := False, ag_default := Some (JStr ''.md''),
        ag_maximum := Some 32\<rparr>)]),
     (plain_capability ''index_file'' [(''path'', str_arg\<lparr>ag_maximum := Some 2000\<rparr>)])\<lparr>cp_side_effect := True, cp_families := [''evidence''], cp_evidence := Some (plain_projection\<lparr>ep_kind := ''indexed_chunk'', ep_items := Some ''manifest'', ep_item_text := [''text''], ep_sources := [''source_uri''], ep_summary_kind := Some ''index_report'', ep_summary := Some ''Indexed {chunks} semantic chunks from this document.''\<rparr>)\<rparr>,
     (plain_capability ''create_calendar_events'' [(''title'', str_arg\<lparr>ag_maximum := Some 300\<rparr>),
        (''dates'', arr_arg\<lparr>ag_minimum := Some 1, ag_maximum := Some 20,
        ag_item_kind := Some ''string''\<rparr>)])\<lparr>cp_side_effect := True,
        cp_evidence := Some (plain_projection\<lparr>ep_kind := ''calendar_artifact'',
        ep_join := Some ''artifacts'', ep_prefix := ''Calendar events created: '',
        ep_sources := [''artifacts'']\<rparr>)\<rparr>,
     (plain_capability ''list_channels'' []),
     (plain_capability ''send_channel_message'' [(''channel'', str_arg\<lparr>ag_maximum := Some 100\<rparr>),
        (''recipient_id'', str_arg\<lparr>ag_maximum := Some 2000\<rparr>),
        (''text'', str_arg\<lparr>ag_maximum := Some 20000\<rparr>),
        (''thread_id'', str_arg\<lparr>ag_required := False, ag_maximum := Some 2000\<rparr>),
        (''voice_audio_ref'', str_arg\<lparr>ag_required := False,
        ag_maximum := Some 4000\<rparr>)])\<lparr>cp_side_effect := True\<rparr>,
     (plain_capability ''a2a_delegate'' [(''agent_url'', str_arg\<lparr>ag_maximum := Some 4000,
        ag_format := Some ''url''\<rparr>),
        (''message'', str_arg\<lparr>ag_maximum := Some 20000\<rparr>)])\<lparr>cp_role := Some ''delegate'',
        cp_evidence := Some (role_output)\<rparr>,
     (plain_capability ''launch_job'' [(''endpoint'', str_arg\<lparr>ag_maximum := Some 4000,
        ag_format := Some ''url''\<rparr>),
        (''task'', str_arg\<lparr>ag_maximum := Some 20000\<rparr>)])\<lparr>cp_role := Some ''delegate'',
        cp_side_effect := True\<rparr>,
     (plain_capability ''request_approval'' [(''question'', str_arg\<lparr>ag_maximum := Some 4000\<rparr>),
        (''choices'', arr_arg\<lparr>ag_required := False, ag_maximum := Some 10,
        ag_item_kind := Some ''string''\<rparr>)])\<lparr>cp_role := Some ''approval'', cp_side_effect := True,
        cp_families := [''human_gate'']\<rparr>,
     (plain_capability ''retriever'' [(''query'', str_arg\<lparr>ag_maximum := Some 20000\<rparr>)])\<lparr>cp_role := Some ''retriever'', cp_evidence := Some (role_output)\<rparr>,
     (plain_capability ''distiller'' [(''query'', str_arg\<lparr>ag_maximum := Some 20000\<rparr>)])\<lparr>cp_role := Some ''distiller'', cp_families := [''synthesis'', ''generic_role''], cp_evidence := Some (role_output)\<rparr>,
     (plain_capability ''summariser'' [(''query'', str_arg\<lparr>ag_maximum := Some 20000\<rparr>)])\<lparr>cp_role := Some ''summariser'', cp_families := [''generic_role''], cp_evidence := Some (role_output)\<rparr>,
     (plain_capability ''coder_validator'' [(''query'', str_arg\<lparr>ag_maximum := Some 20000\<rparr>)])\<lparr>cp_role := Some ''coder_validator'', cp_families := [''generic_role''], cp_evidence := Some (role_output)\<rparr>,
     (plain_capability ''content'' [(''query'', str_arg\<lparr>ag_maximum := Some 20000\<rparr>)])\<lparr>cp_role := Some ''content'', cp_families := [''synthesis'']\<rparr>,
     (plain_capability ''compose_surface'' [(''query'', str_arg\<lparr>ag_maximum := Some 20000\<rparr>)])\<lparr>cp_role := Some ''ui_composer'', cp_terminal_for := [''ui'']\<rparr>,
     (plain_capability ''read_code'' [(''path'', str_arg\<lparr>ag_maximum := Some 2000\<rparr>),
        (''offset'', int_arg\<lparr>ag_required := False, ag_default := Some (JInt 1), ag_minimum := Some 1,
        ag_maximum := Some 1000000\<rparr>), (''limit'', int_arg\<lparr>ag_required := False,
        ag_default := Some (JInt 200), ag_minimum := Some 1,
        ag_maximum := Some 2000\<rparr>)])\<lparr>cp_families := [''evidence'', ''coding'', ''rerunnable''],
        cp_evidence := Some (plain_projection\<lparr>ep_kind := ''source_code'', ep_text := Some ''text'',
        ep_source_template := Some ''file://{path}''\<rparr>)\<rparr>,
     (plain_capability ''edit_code'' [(''path'', str_arg\<lparr>ag_maximum := Some 2000\<rparr>),
        (''old_string'', str_arg\<lparr>ag_maximum := Some 20000\<rparr>),
        (''new_string'', str_arg\<lparr>ag_maximum := Some 20000\<rparr>),
        (''replace_all'', bool_arg\<lparr>ag_required := False,
        ag_default := Some (JBool False)\<rparr>)])\<lparr>cp_side_effect := True, cp_families := [''coding''],
        cp_evidence := Some (plain_projection\<lparr>ep_kind := ''code_edit'', ep_text := Some ''summary'',
        ep_source_template := Some ''file://{path}''\<rparr>)\<rparr>,
     (plain_capability ''create_file'' [(''path'', str_arg\<lparr>ag_maximum := Some 2000\<rparr>),
        (''content'', str_arg\<lparr>ag_maximum := Some 60000\<rparr>),
        (''overwrite'', bool_arg\<lparr>ag_required := False,
        ag_default := Some (JBool False)\<rparr>)])\<lparr>cp_side_effect := True,
        cp_families := [''coding'']\<rparr>,
     (plain_capability ''glob_files'' [(''pattern'', str_arg\<lparr>ag_maximum := Some 500\<rparr>)])\<lparr>cp_families := [''coding'', ''rerunnable'']\<rparr>,
     (plain_capability ''grep_code'' [(''pattern'', str_arg\<lparr>ag_maximum := Some 1000\<rparr>),
        (''path_glob'', str_arg\<lparr>ag_required := False, ag_default := Some (JStr ''*''),
        ag_maximum := Some 500\<rparr>), (''ignore_case'', bool_arg\<lparr>ag_required := False,
        ag_default := Some (JBool False)\<rparr>)])\<lparr>cp_families := [''evidence'', ''coding'', ''rerunnable'']\<rparr>,
     (plain_capability ''run_command'' [(''command'', str_arg\<lparr>ag_maximum := Some 2000\<rparr>),
        (''timeout'', int_arg\<lparr>ag_required := False, ag_default := Some (JInt 120), ag_minimum := Some 1,
        ag_maximum := Some 600\<rparr>)])\<lparr>cp_side_effect := True,
        cp_families := [''coding'', ''verify'', ''rerunnable'']\<rparr>,
     (plain_capability ''git_diff'' [])\<lparr>cp_families := [''coding'', ''rerunnable''],
        cp_evidence := Some (plain_projection\<lparr>ep_kind := ''patch'', ep_text := Some ''diff''\<rparr>)\<rparr>,
     (plain_capability ''git_reset'' [])\<lparr>cp_side_effect := True, cp_families := [''coding'']\<rparr>,
     (plain_capability ''validate_work'' [(''requirement'', str_arg\<lparr>ag_maximum := Some 8000\<rparr>),
        (''paths'', arr_arg\<lparr>ag_required := False, ag_maximum := Some 20,
        ag_item_kind := Some ''string''\<rparr>)])\<lparr>cp_side_effect := True,
        cp_families := [''coding'', ''verify'', ''rerunnable''],
        cp_evidence := Some (plain_projection\<lparr>ep_kind := ''validation'',
        ep_text := Some ''summary''\<rparr>)\<rparr>,
     (plain_capability ''answer_with_evidence'' [(''query'', str_arg\<lparr>ag_maximum := Some 20000\<rparr>)])\<lparr>cp_role := Some ''answer'', cp_terminal_for := [''text'']\<rparr>]"

definition default_registry :: registry where
  "default_registry = (case make_registry default_capabilities of Inl e \<Rightarrow> [] | Inr rg \<Rightarrow> rg)"

text \<open>The names are distinct, so building the registry keeps the list; evaluation uses that form.\<close>

lemma default_registry_accepted: "make_registry default_capabilities = Inr (map (\<lambda>c. (cp_name c, c)) default_capabilities)"
  by code_simp

lemma default_registry_code [code]: "default_registry = map (\<lambda>c. (cp_name c, c)) default_capabilities"
  by (simp add: default_registry_def default_registry_accepted)

end
