(* ===== verification/Planner_Parse.thy ===== *)
theory Planner_Parse
  imports Capability Graph_Model
begin

text \<open>
  From a model's text to a patch: \<open>_json_object\<close> and \<open>GeneralAgentPlanner._parse\<close> of \<open>planner.py\<close>.
  Nothing here trusts the model: every field, id, capability, argument and dependency is checked
  against the registry and the graph.
\<close>

record planner_settings =
  gp_registry :: registry
  gp_ip :: "string \<Rightarrow> bool"
  gp_respond_as :: string
  gp_max_nodes :: int
  gp_max_new :: int
  gp_repair :: int
  gp_review :: bool
  gp_allowed :: "string list"
  gp_max_repeat :: int

section \<open>Reading the reply\<close>

text \<open>The two substitutions that take a code fence off a stripped text.\<close>

definition strip_fence :: "string \<Rightarrow> string" where
  "strip_fence s =
     (if startswith s ''```'' then
        let a = drop 3 s; b = (if lower (take 4 a) = ''json'' then drop 4 a else a); c = lstrip b
        in if endswith c ''```'' then rstrip (take (length c - 3) c) else c
      else s)"

text \<open>From the first brace to the last.\<close>

definition brace_span :: "string \<Rightarrow> string option" where
  "brace_span s =
     (let i = length (takeWhile (\<lambda>c. c \<noteq> CHR ''{'') s); k = length (takeWhile (\<lambda>c. c \<noteq> CHR ''}'') (rev s))
      in if CHR ''{'' \<notin> set s \<or> CHR ''}'' \<notin> set s \<or> length s - 1 - k \<le> i then None
         else Some (slice i (length s - k) s))"

definition planner_json :: "string \<Rightarrow> obj result" where
  "planner_json s =
     (let t = strip_fence (strip s);
          v = (case loads t of Some v \<Rightarrow> Some v
               | None \<Rightarrow> (case brace_span t of None \<Rightarrow> None | Some u \<Rightarrow> loads u))
      in case v of Some (JObj d) \<Rightarrow> Inr d | _ \<Rightarrow> Inl PlannerOutputError)"

text \<open>\<open>_ID\<close>\<close>

definition id_ok :: "string \<Rightarrow> bool" where
  "id_ok s = (s \<noteq> [] \<and> is_alpha (hd s) \<and>
     list_all (\<lambda>c. is_alpha c \<or> is_digit c \<or> c \<in> set ''_-'') (tl s) \<and> length s \<le> 64)"

section \<open>The accepted wire variations\<close>

definition task_object :: "string \<Rightarrow> string \<Rightarrow> json \<Rightarrow> json \<Rightarrow> json" where
  "task_object nid skill args deps =
     JObj [(''id'', JStr nid), (''capability'', JStr skill), (''arguments'', args), (''depends_on'', deps)]"

text \<open>\<open>{"capability": {arguments}}\<close>\<close>

definition shorthand :: "registry \<Rightarrow> nat \<Rightarrow> obj \<Rightarrow> obj" where
  "shorthand rg n data =
     (case data of
        [(name, JObj raw)] \<Rightarrow>
          if name \<notin> set (dkeys rg) then data
          else let rest = ddel ''depends_on'' raw;
                   args = dget_or rest ''arguments'' (JObj rest)
               in [(''add'', JList [task_object (name @ ''_'' @ str_int (int n + 1)) name args
                     (dget_or raw ''depends_on'' (JList []))]),
                   (''cancel'', JList []), (''finish'', JBool False),
                   (''reason'', JStr ''normalized capability decision'')]
      | _ \<Rightarrow> data)"

definition patch_fields :: "string list" where
  "patch_fields = [''add'', ''cancel'', ''finish'', ''reason'']"

text \<open>One entry of an object keyed by task id, or \<open>None\<close> where the loop breaks.\<close>

definition keyed_task :: "registry \<Rightarrow> string \<Rightarrow> json \<Rightarrow> json option" where
  "keyed_task rg nid v =
     (case v of
        JObj d \<Rightarrow>
          if \<not> id_ok nid then None
          else
            let cap0 = jget d ''capability''; deps = dget_or d ''depends_on'' (JList []); args0 = jget d ''arguments'';
                task0 = ddel ''arguments'' (ddel ''depends_on'' (ddel ''capability'' d));
                (cap1, args1, task1) = (case (cap0, task0) of
                    (JNull, [(cand, JObj a)]) \<Rightarrow> if cand \<in> set (dkeys rg) then (JStr cand, JObj a, []) else (cap0, args0, task0)
                  | _ \<Rightarrow> (cap0, args0, task0));
                (cap2, args2, task2) = (case (cap1, filter (\<lambda>name. nid = name \<or> startswith nid (name @ ''_'')) (dkeys rg)) of
                    (JNull, [cand]) \<Rightarrow> (JStr cand, if args1 = JNull then JObj task1 else args1, [])
                  | _ \<Rightarrow> (cap1, args1, task1))
            in (case cap2 of
                  JStr c \<Rightarrow> if c \<in> set (dkeys rg) \<and> task2 = []
                    then Some (task_object nid c (if truthy args2 then args2 else JObj []) deps) else None
                | _ \<Rightarrow> None)
      | _ \<Rightarrow> None)"

definition keyed_tasks :: "registry \<Rightarrow> obj \<Rightarrow> obj" where
  "keyed_tasks rg data =
     (let unknown = filter (\<lambda>k. k \<notin> set patch_fields) (dkeys data) in
      if unknown = [] then data
      else case those (map (\<lambda>k. keyed_task rg k (jget data k)) (sort unknown)) of
             None \<Rightarrow> data
           | Some ts \<Rightarrow>
               [(''add'', JList ((case jget data ''add'' of JList xs \<Rightarrow> xs | _ \<Rightarrow> []) @ ts)),
                (''cancel'', dget_or data ''cancel'' (JList [])),
                (''finish'', dget_or data ''finish'' (JBool False)),
                (''reason'', dget_or data ''reason'' (JStr ''normalized task-keyed decision''))])"

section \<open>The fields of the patch\<close>

record proposal =
  pr_add :: "json list"
  pr_cancel :: "string list"
  pr_finish :: bool
  pr_reason :: string

definition strings_of :: "json list \<Rightarrow> string list option" where
  "strings_of xs = those (map (\<lambda>x. case x of JStr s \<Rightarrow> Some s | _ \<Rightarrow> None) xs)"

definition stock_reason :: string where
  "stock_reason = ''model proposed the next useful frontier''"

definition check_cancel_id :: "snapshot \<Rightarrow> string \<Rightarrow> py_error option" where
  "check_cancel_id g nid =
     (case dget (sn_nodes g) nid of
        None \<Rightarrow> Some PlannerOutputError
      | Some n \<Rightarrow> if \<not> active (n_state n) \<or> n_state n = Running then Some PlannerOutputError else None)"

definition read_proposal :: "planner_settings \<Rightarrow> snapshot \<Rightarrow> obj \<Rightarrow> proposal result" where
  "read_proposal gp g data =
     (if \<not> set (dkeys data) \<subseteq> set patch_fields then Inl PlannerOutputError
      else
        case (dget_or data ''add'' (JList []), dget_or data ''cancel'' (JList []), dget_or data ''finish'' (JBool False),
              dget_or data ''reason'' (JStr stock_reason)) of
          (JList adds, JList cancels, JBool finish, JStr why) \<Rightarrow>
            let explicit = (case jget data ''reason'' of JStr s \<Rightarrow> strip s \<noteq> [] | _ \<Rightarrow> False) in
            if int (length adds) > gp_max_new gp then Inl PlannerOutputError
            else if int (length (sn_nodes g)) + int (length adds) > gp_max_nodes gp then Inl PlannerOutputError
            else (case strings_of cancels of
                None \<Rightarrow> Inl PlannerOutputError
              | Some cs \<Rightarrow>
                  if cs \<noteq> [] \<and> \<not> explicit then Inl PlannerOutputError
                  else guard_r (first_err (check_cancel_id g) cs)
                    (Inr \<lparr>pr_add = adds, pr_cancel = cs, pr_finish = finish,
                       pr_reason = (if strip why = [] then stock_reason else strip why)\<rparr>))
        | _ \<Rightarrow> Inl PlannerOutputError)"

section \<open>The proposed tasks\<close>

record frontier_acc =
  fa_tasks :: "task_spec list"
  fa_edges :: "edge list"
  fa_seen :: "string list"
  fa_held :: "string list"

definition same_call :: "string \<Rightarrow> obj \<Rightarrow> gnode \<Rightarrow> bool" where
  "same_call skill args n = (n_skill n = skill \<and> py_eq (JObj (n_input n)) (JObj args))"

definition is_terminal_skill :: "planner_settings \<Rightarrow> string \<Rightarrow> bool" where
  "is_terminal_skill gp skill = (skill \<in> set (terminal_skills (gp_registry gp) (gp_respond_as gp)))"

text \<open>The parents of a task: those it names, or for a terminal task that names none, the succeeded leaves.\<close>

definition parents_of :: "planner_settings \<Rightarrow> snapshot \<Rightarrow> string \<Rightarrow> string list \<Rightarrow> string list" where
  "parents_of gp g skill deps =
     (if deps = [] \<and> is_terminal_skill gp skill
      then map fst (filter (\<lambda>(nid, n). n_state n = Succeeded \<and> nid \<notin> fst ` set (sn_edges g)) (sn_nodes g))
      else deps)"

definition check_parent :: "snapshot \<Rightarrow> string list \<Rightarrow> string \<Rightarrow> py_error option" where
  "check_parent g cancel parent =
     (case dget (sn_nodes g) parent of
        None \<Rightarrow> Some KeyError
      | Some n \<Rightarrow> if parent \<in> set cancel \<or> n_state n \<in> {Failed, Cancelled} then Some PlannerOutputError else None)"

definition task_metadata :: "capability \<Rightarrow> string \<Rightarrow> obj" where
  "task_metadata c skill =
     [(''agent'', JStr (case cp_role c of None \<Rightarrow> skill | Some r \<Rightarrow> if r = [] then skill else r)),
      (''planned_by'', JStr ''general_agent''), (''side_effect'', JBool (cp_side_effect c))]"

text \<open>The task once its id, capability, arguments and dependencies are known to be well formed.\<close>

definition place_task ::
  "planner_settings \<Rightarrow> snapshot \<Rightarrow> string list \<Rightarrow> string list \<Rightarrow> string \<Rightarrow> string \<Rightarrow> obj \<Rightarrow> string list \<Rightarrow> frontier_acc \<Rightarrow> frontier_acc result" where
  "place_task gp g cancel proposed nid skill args deps fa =
     (let future = filter (\<lambda>p. p \<notin> set (dkeys (sn_nodes g))) deps in
      if \<not> set future \<subseteq> set proposed then Inl PlannerOutputError
      else if future \<noteq> [] then Inr (fa\<lparr>fa_held := fa_held fa @ [nid]\<rparr>)
      else if is_terminal_skill gp skill \<and>
              list_ex (\<lambda>(i, n). is_terminal_skill gp (n_skill n) \<and> active (n_state n)) (sn_nodes g) then Inr fa
      else
        let parents = parents_of gp g skill deps in
        guard_r (first_err (check_parent g cancel) parents)
          (bind_r (get_capability (gp_registry gp) skill) (\<lambda>c.
             if cp_side_effect c \<and> skill \<notin> set (gp_allowed gp) then Inl PlannerOutputError
             else Inr (fa\<lparr>fa_tasks := fa_tasks fa @ [\<lparr>ts_id = nid, ts_skill = skill, ts_input = args,
                        ts_metadata = task_metadata c skill\<rparr>],
                      fa_edges := fa_edges fa @ map (\<lambda>p. (p, nid)) parents,
                      fa_seen := fa_seen fa @ [nid]\<rparr>))))"

definition task_keys :: "string list" where
  "task_keys = [''id'', ''capability'', ''arguments'', ''depends_on'']"

definition add_task ::
  "planner_settings \<Rightarrow> snapshot \<Rightarrow> string list \<Rightarrow> string list \<Rightarrow> json \<Rightarrow> frontier_acc \<Rightarrow> frontier_acc result" where
  "add_task gp g cancel proposed raw fa =
     (case raw of
        JObj d \<Rightarrow>
          if \<not> set (dkeys d) \<subseteq> set task_keys then Inl PlannerOutputError
          else (case (jget d ''id'', jget d ''capability'') of
              (JStr nid, cap) \<Rightarrow>
                if \<not> id_ok nid then Inl PlannerOutputError
                else (case cap of
                    JStr skill \<Rightarrow>
                      bind_r (validate (gp_ip gp) (gp_registry gp) skill (dget_or d ''arguments'' (JObj []))) (\<lambda>args.
                        if list_ex (\<lambda>(i, n). active (n_state n) \<and> i \<notin> set cancel \<and> same_call skill args n) (sn_nodes g)
                        then Inr fa
                        else if skill \<notin> set (family (gp_registry gp) ''rerunnable'') \<and>
                                list_ex (\<lambda>(i, n). n_state n = Succeeded \<and> same_call skill args n) (sn_nodes g)
                        then Inr fa
                        else if nid \<in> set (fa_seen fa) then Inl PlannerOutputError
                        else (case dget_or d ''depends_on'' (JList []) of
                            JList ds \<Rightarrow>
                              (case strings_of ds of
                                 None \<Rightarrow> Inl PlannerOutputError
                               | Some deps \<Rightarrow> place_task gp g cancel proposed nid skill args deps fa)
                          | _ \<Rightarrow> Inl PlannerOutputError))
                  | _ \<Rightarrow> Inl PlannerOutputError)
            | _ \<Rightarrow> Inl PlannerOutputError)
      | _ \<Rightarrow> Inl PlannerOutputError)"

definition proposed_ids :: "json list \<Rightarrow> string list" where
  "proposed_ids adds = concat (map (\<lambda>x. case x of
     JObj d \<Rightarrow> (case jget d ''id'' of JStr s \<Rightarrow> [s] | _ \<Rightarrow> []) | _ \<Rightarrow> []) adds)"

section \<open>The patch\<close>

definition conclude :: "planner_settings \<Rightarrow> snapshot \<Rightarrow> proposal \<Rightarrow> frontier_acc \<Rightarrow> graph_patch result" where
  "conclude gp g pr fa =
     (let won = list_ex (\<lambda>(i, n). is_terminal_skill gp (n_skill n) \<and> n_state n = Succeeded) (sn_nodes g);
          finish = (pr_finish pr \<and> fa_tasks fa = []);
          busy = list_ex (\<lambda>(i, n). active (n_state n)) (sn_nodes g)
      in if finish \<and> \<not> won then Inl PlannerOutputError
         else if \<not> finish \<and> fa_tasks fa = [] \<and> pr_cancel pr = [] \<and> \<not> busy then Inl PlannerOutputError
         else Inr (empty_patch\<lparr>p_add := fa_tasks fa, p_connect := fa_edges fa, p_cancel := pr_cancel pr,
                p_finish := finish,
                p_reason := (if fa_held fa \<noteq> []
                   then ''launched runnable frontier; held future tasks '' @ join '', '' (fa_held fa) @ '' until outcomes land''
                   else pr_reason pr)\<rparr>))"

definition parse :: "planner_settings \<Rightarrow> string \<Rightarrow> snapshot \<Rightarrow> graph_patch result" where
  "parse gp s g =
     bind_r (planner_json s) (\<lambda>data0.
       let data = keyed_tasks (gp_registry gp) (shorthand (gp_registry gp) (length (sn_nodes g)) data0)
       in bind_r (read_proposal gp g data) (\<lambda>pr.
         bind_r (fold_r (add_task gp g (pr_cancel pr) (proposed_ids (pr_add pr))) (pr_add pr)
             \<lparr>fa_tasks = [], fa_edges = [], fa_seen = dkeys (sn_nodes g), fa_held = []\<rparr>)
           (conclude gp g pr)))"

end
