(* ===== verification/Planner.thy ===== *)
theory Planner
  imports Planner_Parse Graph_Executor
begin

text \<open>
  \<open>GeneralAgentPlanner.plan\<close> (\<open>planner.py\<close>). The model is an argument: its answers to the planning
  call and to the evidence review, by graph, event and attempt. A call that raised carries its
  exception; the prompts it was asked with, and the diagnostics kept of it, are not modelled.
\<close>

record llm_reply =
  lr_text :: string
  lr_calls :: "json list"
  lr_decisions :: "json list"

datatype llm_call = Call_raised py_error "json list" "json list" | Replied llm_reply

type_synonym llm = "snapshot \<Rightarrow> event \<Rightarrow> nat \<Rightarrow> llm_call"

section \<open>A verification that keeps failing\<close>

definition command_of :: "gnode \<Rightarrow> string" where
  "command_of n = (case jget (n_input n) ''command'' of JStr s \<Rightarrow> s | _ \<Rightarrow> [])"

definition exit_code_of :: "gnode \<Rightarrow> json" where
  "exit_code_of n = (case n_result n of None \<Rightarrow> JNull | Some r \<Rightarrow> jget r ''exit_code'')"

text \<open>\<open>exit_code in (0, None)\<close>\<close>

definition passed :: "gnode \<Rightarrow> bool" where
  "passed n = (exit_code_of n = JNull \<or> py_eq (JInt 0) (exit_code_of n))"

definition tally_one :: "registry \<Rightarrow> gnode \<Rightarrow> (string \<times> nat) list \<Rightarrow> (string \<times> nat) list" where
  "tally_one rg n t =
     (if n_state n \<noteq> Succeeded \<or> n_skill n \<notin> set (family rg ''verify'') then t
      else if passed n then ddel (command_of n) t
      else dput (command_of n) (dget_or t (command_of n) 0 + 1) t)"

text \<open>\<open>max(tally.items(), key=...)\<close>: the first of the greatest.\<close>

fun first_max :: "('a \<times> nat) list \<Rightarrow> ('a \<times> nat) option" where
  "first_max [] = None"
| "first_max (x # xs) =
     (case first_max xs of None \<Rightarrow> Some x | Some y \<Rightarrow> if snd y > snd x then Some y else Some x)"

definition stuck_verification :: "planner_settings \<Rightarrow> snapshot \<Rightarrow> (string \<times> nat) option" where
  "stuck_verification gp g =
     (if gp_max_repeat gp \<le> 0 then None
      else case first_max (fold (\<lambda>(i, n). tally_one (gp_registry gp) n) (sn_nodes g) []) of
             None \<Rightarrow> None
           | Some w \<Rightarrow> if int (snd w) \<ge> gp_max_repeat gp then Some w else None)"

section \<open>One planning round\<close>

definition busy :: "snapshot \<Rightarrow> bool" where
  "busy g = list_ex (\<lambda>(i, n). active (n_state n)) (sn_nodes g)"

definition meter_fields :: "json list \<Rightarrow> json list \<Rightarrow> obj" where
  "meter_fields calls decisions = [(''metered_calls'', JList calls), (''budget_decisions'', JList decisions)]"

definition finish_patch :: "bool \<Rightarrow> string \<Rightarrow> obj \<Rightarrow> graph_patch" where
  "finish_patch fin why meta = empty_patch\<lparr>p_finish := fin, p_reason := why, p_metadata := meta\<rparr>"

text \<open>The review's verdict on a terminal proposal.\<close>

definition review_verdict :: "string \<Rightarrow> bool result" where
  "review_verdict s = bind_r (planner_json s) (\<lambda>d.
     case (jget d ''ready'', dget_or d ''missing'' (JList [])) of
       (JBool r, JList m) \<Rightarrow> Inr r
     | _ \<Rightarrow> Inl PlannerOutputError)"

definition needs_review :: "planner_settings \<Rightarrow> graph_patch \<Rightarrow> bool" where
  "needs_review gp p = (gp_review gp \<and> list_ex (\<lambda>t. is_terminal_skill gp (ts_skill t)) (p_add p))"

definition repairable :: "py_error \<Rightarrow> bool" where
  "repairable e = (e = PlannerOutputError \<or> e = CapabilityError)"

text \<open>What one attempt decides: an error to repair, an error that escapes, or the patch; with the
  model calls it metered.\<close>

definition attempt_patch ::
  "planner_settings \<Rightarrow> llm \<Rightarrow> snapshot \<Rightarrow> event \<Rightarrow> nat \<Rightarrow> string \<Rightarrow> graph_patch result \<times> json list \<times> json list" where
  "attempt_patch gp review g e k raw =
     (case parse gp raw g of
        Inl err \<Rightarrow> (Inl err, [], [])
      | Inr p \<Rightarrow>
          if \<not> needs_review gp p then (Inr p, [], [])
          else (case review g e k of
              Call_raised err calls decisions \<Rightarrow> (Inl err, [], [])
            | Replied r \<Rightarrow>
                (bind_r (review_verdict (lr_text r)) (\<lambda>ready. if ready then Inr p else Inl PlannerOutputError),
                 lr_calls r, lr_decisions r)))"

text \<open>An exception of the review call escapes unless it is of a class the loop repairs.\<close>

fun try_plan ::
  "planner_settings \<Rightarrow> llm \<Rightarrow> llm \<Rightarrow> snapshot \<Rightarrow> event \<Rightarrow> nat \<Rightarrow> nat \<Rightarrow> json list \<Rightarrow> json list \<Rightarrow> graph_patch result" where
  "try_plan gp model review g e k 0 calls decisions =
     Inr (finish_patch (\<not> busy g) ''planner failed validation after repair'' (meter_fields calls decisions))"
| "try_plan gp model review g e k (Suc n) calls decisions =
     (case model g e k of
        Call_raised err c d \<Rightarrow>
          Inr (finish_patch (\<not> busy g) ''planner call failed visibly'' (meter_fields (calls @ c) (decisions @ d)))
      | Replied r \<Rightarrow>
          (case attempt_patch gp review g e k (lr_text r) of
             (Inl err, c, d) \<Rightarrow>
               if repairable err
               then try_plan gp model review g e (k + 1) n (calls @ lr_calls r @ c) (decisions @ lr_decisions r @ d)
               else Inl err
           | (Inr p, c, d) \<Rightarrow>
               Inr (p\<lparr>p_metadata := meter_fields (calls @ lr_calls r @ c) (decisions @ lr_decisions r @ d)\<rparr>)))"

definition event_settles :: "planner_settings \<Rightarrow> snapshot \<Rightarrow> event \<Rightarrow> bool" where
  "event_settles gp g e =
     (case ev_node e of
        None \<Rightarrow> False
      | Some nid \<Rightarrow> nid \<noteq> [] \<and>
          (case dget (sn_nodes g) nid of
             None \<Rightarrow> False
           | Some n \<Rightarrow> is_terminal_skill gp (n_skill n) \<and> n_state n \<in> {Succeeded, Failed, Cancelled}))"

definition plan :: "planner_settings \<Rightarrow> llm \<Rightarrow> llm \<Rightarrow> planner" where
  "plan gp model review g e =
     (if event_settles gp g e then Inr (finish_patch True ''terminal capability settled'' [])
      else if int (length (sn_nodes g)) \<ge> gp_max_nodes gp
      then Inr (finish_patch True ''planner node limit reached'' [])
      else case stuck_verification gp g of
             Some w \<Rightarrow> Inr (finish_patch True ''stopping: a verification keeps failing'' [])
           | None \<Rightarrow> try_plan gp model review g e 0 (nat (gp_repair gp + 1)) [] [])"

end
