(* ===== verification/Capability_Props.thy ===== *)
theory Capability_Props
  imports Capability
begin

text \<open>
  What the validation boundary promises: accepted arguments conform to the declared contract, and
  validation of accepted arguments changes nothing, which is what makes the planner's comparison
  of a proposal with the arguments of existing nodes meaningful.
\<close>

section \<open>The contract, stated apart from the validator\<close>

definition kind_ok :: "argument \<Rightarrow> json \<Rightarrow> bool" where
  "kind_ok ag v =
     (case v of
         JStr s \<Rightarrow> ag_kind ag = ''string'' \<and> s \<noteq> [] \<and> strip s = s \<and> \<not> exceeds (ag_maximum ag) (int (length s))
       | JInt i \<Rightarrow> ag_kind ag = ''integer'' \<and> \<not> below (ag_minimum ag) i \<and> \<not> exceeds (ag_maximum ag) i
       | JList xs \<Rightarrow> ag_kind ag = ''array'' \<and> \<not> below (ag_minimum ag) (int (length xs)) \<and>
           \<not> exceeds (ag_maximum ag) (int (length xs)) \<and> map strip_item xs = xs \<and>
           (ag_item_kind ag = Some ''string'' \<longrightarrow> list_all nonblank xs)
       | JBool b \<Rightarrow> ag_kind ag = ''boolean''
       | _ \<Rightarrow> False)"

definition format_ok :: "(string \<Rightarrow> bool) \<Rightarrow> argument \<Rightarrow> json \<Rightarrow> bool" where
  "format_ok ip ag v = (case ag_format ag of None \<Rightarrow> True | Some f \<Rightarrow> f = [] \<or> check_format ip f v = None)"

definition conforms :: "(string \<Rightarrow> bool) \<Rightarrow> argument \<Rightarrow> json \<Rightarrow> bool" where
  "conforms ip ag v = (kind_ok ag v \<and> check_choice ag v = None \<and> format_ok ip ag v)"

definition default_ok :: "(string \<Rightarrow> bool) \<Rightarrow> argument \<Rightarrow> bool" where
  "default_ok ip ag = (ag_required ag \<or> (case ag_default ag of None \<Rightarrow> True | Some d \<Rightarrow> conforms ip ag d))"

definition capability_ok :: "(string \<Rightarrow> bool) \<Rightarrow> capability \<Rightarrow> bool" where
  "capability_ok ip c = (distinct (dkeys (cp_arguments c)) \<and> list_all (default_ok ip \<circ> snd) (cp_arguments c))"

section \<open>One value\<close>

lemma strip_item_idem [simp]: "strip_item (strip_item v) = strip_item v"
  by (cases v) (simp_all add: strip_item_def)

lemma nonblank_strip_item [simp]: "nonblank (strip_item v) = nonblank v"
  by (cases v) (simp_all add: strip_item_def nonblank_def)

lemma check_kind_ok: "check_kind ag v = Inr w \<Longrightarrow> kind_ok ag w"
  by (cases v) (auto simp: check_kind_def kind_ok_def comp_def list_all_iff split: if_splits)

lemma kind_ok_check: "kind_ok ag w \<Longrightarrow> check_kind ag w = Inr w"
  by (cases w) (auto simp: check_kind_def kind_ok_def)

lemma check_value_Inr:
  "check_value ip ag v = Inr w \<longleftrightarrow> check_kind ag v = Inr w \<and> check_choice ag w = None \<and> format_ok ip ag w"
  by (cases "ag_format ag") (auto simp: check_value_def format_ok_def bind_r_Inr guard_r_Inr)

lemma check_value_conforms: "check_value ip ag v = Inr w \<Longrightarrow> conforms ip ag w"
  using check_kind_ok unfolding check_value_Inr conforms_def by blast

lemma conforms_check_value: "conforms ip ag w \<Longrightarrow> check_value ip ag w = Inr w"
  by (simp add: check_value_Inr conforms_def kind_ok_check)

section \<open>All arguments\<close>

lemma clean_args_keys: "clean_args ip ags vs = Inr r \<Longrightarrow> set (dkeys r) \<subseteq> set (dkeys ags)"
proof (induction ags arbitrary: r)
  case (Cons x ags)
  obtain k ag where x: "x = (k, ag)" by (cases x)
  obtain o' rest where c: "clean_args ip ags vs = Inr rest"
      "r = (case o' of None \<Rightarrow> rest | Some y \<Rightarrow> (k, y) # rest)"
    using Cons.prems x by (auto simp: bind_r_Inr)
  show ?case using Cons.IH [OF c(1)] c(2) x by (cases o') auto
qed simp

lemma clean_args_distinct: "clean_args ip ags vs = Inr r \<Longrightarrow> distinct (dkeys ags) \<Longrightarrow> distinct (dkeys r)"
proof (induction ags arbitrary: r)
  case (Cons x ags)
  obtain k ag where x: "x = (k, ag)" by (cases x)
  obtain o' rest where c: "clean_args ip ags vs = Inr rest"
      "r = (case o' of None \<Rightarrow> rest | Some y \<Rightarrow> (k, y) # rest)"
    using Cons.prems(1) x by (auto simp: bind_r_Inr)
  have "k \<notin> set (dkeys rest)" using clean_args_keys [OF c(1)] Cons.prems(2) x by auto
  then show ?case using Cons.IH [OF c(1)] Cons.prems(2) c(2) x by (auto split: option.split)
qed simp

text \<open>What each argument of the contract gets.\<close>

lemma clean_args_get:
  assumes "clean_args ip ags vs = Inr r" and "distinct (dkeys ags)" and "(k, ag) \<in> set ags"
  shows "clean_one ip ag (dget vs k) = Inr (dget r k)"
  using assms
proof (induction ags arbitrary: r)
  case (Cons x ags)
  obtain k' ag' where x: "x = (k', ag')" by (cases x)
  obtain o' rest where c: "clean_args ip ags vs = Inr rest" "clean_one ip ag' (dget vs k') = Inr o'"
      "r = (case o' of None \<Rightarrow> rest | Some y \<Rightarrow> (k', y) # rest)"
    using Cons.prems(1) x by (auto simp: bind_r_Inr)
  have n: "dget rest k' = None"
    using clean_args_keys [OF c(1)] Cons.prems(2) x unfolding dget_None_iff by auto
  show ?case
  proof (cases "k = k'")
    case True
    then have "ag = ag'" using Cons.prems(2,3) x by force
    with c n True show ?thesis by (cases o') auto
  next
    case False
    then have "(k, ag) \<in> set ags" using Cons.prems(3) x by auto
    with Cons.IH [OF c(1)] Cons.prems(2) x c(3) False show ?thesis by (cases o') auto
  qed
qed simp

text \<open>The converse: an object that gives every argument what \<open>clean_one\<close> gives cleans to the same result.\<close>

lemma clean_args_cong:
  "clean_args ip ags vs = Inr r \<Longrightarrow>
   \<forall>(k, ag) \<in> set ags. clean_one ip ag (dget ws k) = clean_one ip ag (dget vs k) \<Longrightarrow>
   clean_args ip ags ws = Inr r"
proof (induction ags arbitrary: r)
  case (Cons x ags)
  obtain k ag where x: "x = (k, ag)" by (cases x)
  obtain o' rest where c: "clean_one ip ag (dget vs k) = Inr o'" "clean_args ip ags vs = Inr rest"
      "r = (case o' of None \<Rightarrow> rest | Some y \<Rightarrow> (k, y) # rest)"
    using Cons.prems(1) x by (auto simp: bind_r_Inr)
  have "clean_one ip ag (dget ws k) = Inr o'" "clean_args ip ags ws = Inr rest"
    using Cons.prems(2) x c Cons.IH [OF c(2)] by auto
  then show ?case using x c(3) by (simp add: bind_r_def)
qed simp

lemma clean_one_conforms:
  "clean_one ip ag v = Inr (Some w) \<Longrightarrow> default_ok ip ag \<Longrightarrow> conforms ip ag w"
  by (auto simp: clean_one_def default_ok_def bind_r_Inr check_value_conforms split: option.splits if_splits)

lemma clean_one_idem:
  assumes "clean_one ip ag v = Inr r" and "default_ok ip ag"
  shows "clean_one ip ag r = Inr r"
proof (cases r)
  case None
  then show ?thesis using assms(1) by (auto simp: clean_one_def bind_r_Inr split: option.splits if_splits)
next
  case (Some w)
  then show ?thesis using clean_one_conforms [of ip ag v w] assms conforms_check_value [of ip ag w]
    by (simp add: clean_one_def)
qed

lemma validate_Inr:
  "validate ip rg name v = Inr r \<longleftrightarrow>
   (\<exists>c vs. dget rg name = Some c \<and> v = JObj vs \<and> set (dkeys vs) \<subseteq> set (dkeys (cp_arguments c)) \<and>
      clean_args ip (cp_arguments c) vs = Inr r)"
  by (cases v) (auto simp: validate_def get_capability_def bind_r_Inr split: option.splits)

lemma validate_errors_of:
  assumes "clean_args ip ags vs = Inl e"
  shows "e = CapabilityError \<or> (\<exists>(k, ag) \<in> set ags. \<exists>w. dget vs k = Some w \<and>
    (\<exists>f x. ag_format ag = Some f \<and> check_kind ag w = Inr x \<and> check_format ip f x = Some e))"
  using assms
proof (induction ags)
  case (Cons x ags)
  obtain k ag where x: "x = (k, ag)" by (cases x)
  have one: "e' = CapabilityError \<or> (\<exists>w. dget vs k = Some w \<and> (\<exists>f x. ag_format ag = Some f \<and> check_kind ag w = Inr x \<and> check_format ip f x = Some e'))"
    if "clean_one ip ag (dget vs k) = Inl e'" for e'
  proof (cases "dget vs k")
    case None
    then show ?thesis using that by (auto simp: clean_one_def split: if_splits)
  next
    case (Some w)
    have kind: "check_kind ag w = Inl a \<Longrightarrow> a = CapabilityError" for a
      by (cases w) (auto simp: check_kind_def split: if_splits)
    show ?thesis
    proof (cases "check_kind ag w")
      case (Inl a)
      then show ?thesis using that Some kind by (auto simp: clean_one_def check_value_def)
    next
      case (Inr y)
      then show ?thesis using that Some
        by (auto simp: clean_one_def check_value_def check_choice_def guard_r_def split: option.splits if_splits)
    qed
  qed
  show ?case
  proof (cases "clean_one ip ag (dget vs k)")
    case (Inl e')
    then show ?thesis using one [OF Inl] Cons.prems x by auto
  next
    case (Inr o')
    then have "clean_args ip ags vs = Inl e" using Cons.prems x by (cases "clean_args ip ags vs") auto
    then show ?thesis using Cons.IH x by auto
  qed
qed simp

section \<open>The default registry\<close>

lemma default_registry_ok: "list_all (\<lambda>(n, c). n = cp_name c \<and> capability_ok ip c) default_registry"
  by code_simp

lemma default_names_distinct: "distinct (dkeys default_registry)"
  by code_simp

lemma default_formats:
  "list_all (\<lambda>(n, c). list_all (\<lambda>(k, ag). ag_format ag \<in> {None, Some ''url''} \<and>
     (ag_format ag = Some ''url'' \<longrightarrow> ag_kind ag = ''string'')) (cp_arguments c)) default_registry"
  by code_simp

text \<open>The two errors validation against the default registry ends in.\<close>

lemma check_format_url_errors: "check_format ip ''url'' (JStr s) = Some e \<Longrightarrow> e \<in> {CapabilityError, ValueError}"
  by (auto simp: check_format_def url_parts_def Let_def split: prod.splits if_splits sum.splits)

lemma check_kind_string: "check_kind ag w = Inr x \<Longrightarrow> ag_kind ag = ''string'' \<Longrightarrow> \<exists>s. x = JStr s"
  by (cases w) (auto simp: check_kind_def split: if_splits)

lemma default_validate_errors:
  assumes "validate ip default_registry name v = Inl e"
  shows "e \<in> {CapabilityError, ValueError}"
proof (cases "\<exists>c vs. dget default_registry name = Some c \<and> v = JObj vs \<and> set (dkeys vs) \<subseteq> set (dkeys (cp_arguments c))")
  case False
  then show ?thesis using assms
    by (cases v) (auto simp: validate_def get_capability_def split: option.splits if_splits)
next
  case True
  then obtain c vs where c: "dget default_registry name = Some c" "clean_args ip (cp_arguments c) vs = Inl e"
    using assms by (auto simp: validate_def get_capability_def)
  from validate_errors_of [OF c(2)] show ?thesis
  proof
    assume "\<exists>(k, ag) \<in> set (cp_arguments c). \<exists>w. dget vs k = Some w \<and>
      (\<exists>f x. ag_format ag = Some f \<and> check_kind ag w = Inr x \<and> check_format ip f x = Some e)"
    then obtain k ag w f x where a: "(k, ag) \<in> set (cp_arguments c)" "ag_format ag = Some f"
        "check_kind ag w = Inr x" "check_format ip f x = Some e" by blast
    have "(name, c) \<in> set default_registry" using c(1) by (rule map_of_SomeD)
    then have "f = ''url''" "ag_kind ag = ''string''"
      using default_formats a(1,2) by (force simp: list_all_iff)+
    then show ?thesis using check_kind_string [OF a(3)] check_format_url_errors a(4) by auto
  qed simp
qed

end
