(* ===== verification/Planner_Props.thy ===== *)
theory Planner_Props
  imports Planner Capability_Props Graph_Executor_Props
begin

text \<open>
  What a patch of the planner is, whatever the model answered: every task validated and authorised,
  no identical work launched twice, every edge from an existing node to a new one. A well-formed
  graph therefore takes every such patch, which interprets \<open>accepted_planner\<close> on the real planner.
\<close>

section \<open>The invariant of the loop over proposed tasks\<close>

definition task_ok :: "planner_settings \<Rightarrow> snapshot \<Rightarrow> string list \<Rightarrow> task_spec \<Rightarrow> bool" where
  "task_ok gp g cancel t =
     (id_ok (ts_id t) \<and> ts_id t \<notin> set (dkeys (sn_nodes g)) \<and>
      (\<exists>c v. dget (gp_registry gp) (ts_skill t) = Some c \<and>
         validate (gp_ip gp) (gp_registry gp) (ts_skill t) v = Inr (ts_input t) \<and>
         (cp_side_effect c \<longrightarrow> ts_skill t \<in> set (gp_allowed gp)) \<and> ts_metadata t = task_metadata c (ts_skill t)) \<and>
      (\<forall>(i, n) \<in> set (sn_nodes g). same_call (ts_skill t) (ts_input t) n \<longrightarrow>
         (active (n_state n) \<longrightarrow> i \<in> set cancel) \<and>
         (n_state n = Succeeded \<longrightarrow> ts_skill t \<in> set (family (gp_registry gp) ''rerunnable''))) \<and>
      (is_terminal_skill gp (ts_skill t) \<longrightarrow>
         (\<forall>(i, n) \<in> set (sn_nodes g). is_terminal_skill gp (n_skill n) \<longrightarrow> \<not> active (n_state n))))"

definition edge_ok :: "snapshot \<Rightarrow> string list \<Rightarrow> task_spec list \<Rightarrow> edge \<Rightarrow> bool" where
  "edge_ok g cancel ts e =
     (snd e \<in> ts_id ` set ts \<and> fst e \<notin> set cancel \<and>
      (\<exists>n. dget (sn_nodes g) (fst e) = Some n \<and> n_state n \<notin> {Failed, Cancelled}))"

definition frontier_ok :: "planner_settings \<Rightarrow> snapshot \<Rightarrow> string list \<Rightarrow> frontier_acc \<Rightarrow> bool" where
  "frontier_ok gp g cancel fa =
     (fa_seen fa = dkeys (sn_nodes g) @ map ts_id (fa_tasks fa) \<and> distinct (map ts_id (fa_tasks fa)) \<and>
      (\<forall>t \<in> set (fa_tasks fa). task_ok gp g cancel t) \<and> (\<forall>e \<in> set (fa_edges fa). edge_ok g cancel (fa_tasks fa) e))"

lemma edge_ok_mono: "edge_ok g cancel ts e \<Longrightarrow> edge_ok g cancel (ts @ us) e"
  by (auto simp: edge_ok_def)

lemma place_task_cases:
  assumes "place_task gp g cancel proposed nid skill args deps fa = Inr fa'"
  obtains (held) "fa' = fa\<lparr>fa_held := fa_held fa @ [nid]\<rparr>"
  | (skipped) "fa' = fa"
  | (placed) c parents where "dget (gp_registry gp) skill = Some c"
      "cp_side_effect c \<Longrightarrow> skill \<in> set (gp_allowed gp)"
      "\<forall>p \<in> set parents. check_parent g cancel p = None"
      "is_terminal_skill gp skill \<Longrightarrow> \<forall>(i, n) \<in> set (sn_nodes g). is_terminal_skill gp (n_skill n) \<longrightarrow> \<not> active (n_state n)"
      "fa' = fa\<lparr>fa_tasks := fa_tasks fa @ [\<lparr>ts_id = nid, ts_skill = skill, ts_input = args,
                  ts_metadata = task_metadata c skill\<rparr>],
                fa_edges := fa_edges fa @ map (\<lambda>p. (p, nid)) parents, fa_seen := fa_seen fa @ [nid]\<rparr>"
proof -
  define future where "future = filter (\<lambda>p. p \<notin> set (dkeys (sn_nodes g))) deps"
  define won where "won = (is_terminal_skill gp skill \<and>
        list_ex (\<lambda>(i, n). is_terminal_skill gp (n_skill n) \<and> active (n_state n)) (sn_nodes g))"
  define parents where "parents = parents_of gp g skill deps"
  define put where "put c = fa\<lparr>fa_tasks := fa_tasks fa @ [\<lparr>ts_id = nid, ts_skill = skill, ts_input = args,
                        ts_metadata = task_metadata c skill\<rparr>],
                      fa_edges := fa_edges fa @ map (\<lambda>p. (p, nid)) parents,
                      fa_seen := fa_seen fa @ [nid]\<rparr>" for c
  have r: "(if \<not> set future \<subseteq> set proposed then Inl PlannerOutputError
      else if future \<noteq> [] then Inr (fa\<lparr>fa_held := fa_held fa @ [nid]\<rparr>)
      else if won then Inr fa
      else guard_r (first_err (check_parent g cancel) parents)
          (bind_r (get_capability (gp_registry gp) skill) (\<lambda>c.
             if cp_side_effect c \<and> skill \<notin> set (gp_allowed gp) then Inl PlannerOutputError else Inr (put c)))) = Inr fa'"
    using assms unfolding place_task_def Let_def future_def won_def parents_def put_def .
  consider "future \<noteq> []" | "future = []" won | "future = []" "\<not> won" by blast
  then show thesis
  proof cases
    case 1
    then show thesis using r held by (auto split: if_splits)
  next
    case 2
    then show thesis using r skipped by simp
  next
    case 3
    then obtain c where "\<forall>p \<in> set parents. check_parent g cancel p = None"
        "dget (gp_registry gp) skill = Some c" "cp_side_effect c \<Longrightarrow> skill \<in> set (gp_allowed gp)" "fa' = put c"
      using r by (auto simp: guard_r_Inr bind_r_Inr first_err_None get_capability_def split: option.splits if_splits)
    with 3 show thesis by (intro placed) (auto simp: list_ex_iff won_def put_def)
  qed
qed

lemma add_task_Inr:
  assumes "add_task gp g cancel proposed raw fa = Inr fa'"
  obtains (same) "fa' = fa"
  | (place) nid skill args deps v where "id_ok nid" "validate (gp_ip gp) (gp_registry gp) skill v = Inr args"
      "nid \<notin> set (fa_seen fa)"
      "\<forall>(i, n) \<in> set (sn_nodes g). same_call skill args n \<longrightarrow>
         (active (n_state n) \<longrightarrow> i \<in> set cancel) \<and>
         (n_state n = Succeeded \<longrightarrow> skill \<in> set (family (gp_registry gp) ''rerunnable''))"
      "place_task gp g cancel proposed nid skill args deps fa = Inr fa'"
proof -
  obtain d where d: "raw = JObj d" using assms by (cases raw) (auto simp: add_task_def)
  obtain nid where nid: "jget d ''id'' = JStr nid" using assms d
    by (cases "jget d ''id''") (auto simp: add_task_def split: if_splits)
  obtain skill where sk: "jget d ''capability'' = JStr skill" using assms d nid
    by (cases "jget d ''capability''") (auto simp: add_task_def split: if_splits)
  have ids: "id_ok nid" using assms d nid sk by (auto simp: add_task_def split: if_splits)
  have keys: "set (dkeys d) \<subseteq> set task_keys" using assms d by (auto simp: add_task_def split: if_splits)
  define v where "v = dget_or d ''arguments'' (JObj [])"
  obtain args where args: "validate (gp_ip gp) (gp_registry gp) skill v = Inr args"
    using assms d nid sk ids by (cases "validate (gp_ip gp) (gp_registry gp) skill v") (auto simp: add_task_def v_def split: if_splits)
  define act where "act = list_ex (\<lambda>(i, n). active (n_state n) \<and> i \<notin> set cancel \<and> same_call skill args n) (sn_nodes g)"
  define again where "again = (skill \<notin> set (family (gp_registry gp) ''rerunnable'') \<and>
      list_ex (\<lambda>(i, n). n_state n = Succeeded \<and> same_call skill args n) (sn_nodes g))"
  have r: "(if act then Inr fa else if again then Inr fa
      else if nid \<in> set (fa_seen fa) then Inl PlannerOutputError
      else (case dget_or d ''depends_on'' (JList []) of
          JList ds \<Rightarrow> (case strings_of ds of
             None \<Rightarrow> Inl PlannerOutputError
           | Some deps \<Rightarrow> place_task gp g cancel proposed nid skill args deps fa)
        | _ \<Rightarrow> Inl PlannerOutputError)) = Inr fa'"
    using assms keys ids args [unfolded v_def] unfolding add_task_def act_def again_def d
    by (simp add: nid sk)
  show thesis
  proof (cases "act \<or> again")
    case True
    then show thesis using r same by (auto split: if_splits)
  next
    case False
    then have seen: "nid \<notin> set (fa_seen fa)" using r by auto
    then obtain ds deps where "dget_or d ''depends_on'' (JList []) = JList ds" "strings_of ds = Some deps"
        "place_task gp g cancel proposed nid skill args deps fa = Inr fa'"
      using r False by (auto split: json.splits option.splits)
    moreover have "\<forall>(i, n) \<in> set (sn_nodes g). same_call skill args n \<longrightarrow>
         (active (n_state n) \<longrightarrow> i \<in> set cancel) \<and>
         (n_state n = Succeeded \<longrightarrow> skill \<in> set (family (gp_registry gp) ''rerunnable''))"
      using False by (auto simp: act_def again_def list_ex_iff)
    ultimately show thesis using place ids args seen by blast
  qed
qed

lemma add_task_ok:
  assumes ok: "frontier_ok gp g cancel fa" and add: "add_task gp g cancel proposed raw fa = Inr fa'"
  shows "frontier_ok gp g cancel fa' \<and> length (fa_tasks fa') \<le> length (fa_tasks fa) + 1"
  using add
proof (cases rule: add_task_Inr)
  case same
  then show ?thesis using ok by simp
next
  case (place nid skill args deps v)
  from place(5) show ?thesis
  proof (cases rule: place_task_cases)
    case (placed c parents)
    let ?t = "\<lparr>ts_id = nid, ts_skill = skill, ts_input = args, ts_metadata = task_metadata c skill\<rparr>"
    have "task_ok gp g cancel ?t"
      using place placed(1,2,4) ok by (auto simp: task_ok_def frontier_ok_def)
    moreover have "edge_ok g cancel (fa_tasks fa @ [?t]) (p, nid)" if "p \<in> set parents" for p
      using placed(3) that by (auto simp: edge_ok_def check_parent_def split: option.splits if_splits)
    moreover have "nid \<notin> ts_id ` set (fa_tasks fa)" using place(3) ok by (auto simp: frontier_ok_def)
    ultimately show ?thesis using ok placed(5) by (auto simp: frontier_ok_def intro: edge_ok_mono)
  qed (use ok in \<open>simp_all add: frontier_ok_def\<close>)
qed

lemma add_tasks_ok:
  "frontier_ok gp g cancel fa \<Longrightarrow> fold_r (add_task gp g cancel proposed) raws fa = Inr fa' \<Longrightarrow>
   frontier_ok gp g cancel fa' \<and> length (fa_tasks fa') \<le> length (fa_tasks fa) + length raws"
proof (induction raws arbitrary: fa)
  case (Cons r raws)
  then obtain fa1 where f: "add_task gp g cancel proposed r fa = Inr fa1"
      "fold_r (add_task gp g cancel proposed) raws fa1 = Inr fa'"
    by (auto simp: bind_r_Inr)
  from Cons.IH [OF _ f(2)] add_task_ok [OF Cons.prems(1) f(1)] show ?case by auto
qed simp

section \<open>A parsed patch\<close>

definition patch_ok :: "planner_settings \<Rightarrow> snapshot \<Rightarrow> graph_patch \<Rightarrow> bool" where
  "patch_ok gp g p =
     ((\<forall>t \<in> set (p_add p). task_ok gp g (p_cancel p) t) \<and> distinct (map ts_id (p_add p)) \<and>
      (\<forall>e \<in> set (p_connect p). edge_ok g (p_cancel p) (p_add p) e) \<and>
      (\<forall>nid \<in> set (p_cancel p). \<exists>n. dget (sn_nodes g) nid = Some n \<and> n_state n \<in> {Pending, Waiting}) \<and>
      p_wait p = [] \<and> p_resume p = [] \<and>
      (p_add p \<noteq> [] \<longrightarrow> int (length (p_add p)) \<le> gp_max_new gp \<and>
         int (length (sn_nodes g)) + int (length (p_add p)) \<le> gp_max_nodes gp))"

lemma read_proposal_Inr:
  assumes "read_proposal gp g data = Inr pr"
  shows "int (length (pr_add pr)) \<le> gp_max_new gp \<and>
    int (length (sn_nodes g)) + int (length (pr_add pr)) \<le> gp_max_nodes gp \<and>
    (\<forall>nid \<in> set (pr_cancel pr). \<exists>n. dget (sn_nodes g) nid = Some n \<and> n_state n \<in> {Pending, Waiting})"
proof -
  have c: "check_cancel_id g nid = None \<Longrightarrow> \<exists>n. dget (sn_nodes g) nid = Some n \<and> n_state n \<in> {Pending, Waiting}" for nid
    by (auto simp: check_cancel_id_def active_def split: option.splits if_splits)
  show ?thesis using assms c
    by (auto simp: read_proposal_def Let_def guard_r_Inr first_err_None split: if_splits json.splits option.splits)
qed

lemma parse_ok:
  assumes "parse gp s g = Inr p"
  shows "patch_ok gp g p"
proof -
  let ?fa0 = "\<lparr>fa_tasks = [], fa_edges = [], fa_seen = dkeys (sn_nodes g), fa_held = []\<rparr>"
  obtain data pr fa where r: "read_proposal gp g data = Inr pr"
      "fold_r (add_task gp g (pr_cancel pr) (proposed_ids (pr_add pr))) (pr_add pr) ?fa0 = Inr fa"
      "conclude gp g pr fa = Inr p"
    using assms by (auto simp: parse_def Let_def bind_r_Inr)
  have "frontier_ok gp g (pr_cancel pr) ?fa0" by (simp add: frontier_ok_def)
  from add_tasks_ok [OF this r(2)]
  have fa: "frontier_ok gp g (pr_cancel pr) fa" "length (fa_tasks fa) \<le> length (pr_add pr)" by simp_all
  have p: "p_add p = fa_tasks fa" "p_connect p = fa_edges fa" "p_cancel p = pr_cancel pr" "p_wait p = []" "p_resume p = []"
    using r(3) by (auto simp: conclude_def Let_def empty_patch_def split: if_splits)
  show ?thesis using fa read_proposal_Inr [OF r(1)] p by (auto simp: patch_ok_def frontier_ok_def)
qed

section \<open>A planned patch\<close>

lemma patch_ok_finish [simp]: "patch_ok gp g (finish_patch fin why meta)"
  by (simp add: patch_ok_def finish_patch_def empty_patch_def)

lemma patch_ok_metadata [simp]: "patch_ok gp g (p\<lparr>p_metadata := m\<rparr>) = patch_ok gp g p"
  by (simp add: patch_ok_def)

lemma attempt_patch_Inr: "attempt_patch gp review g e k raw = (Inr p, c, d) \<Longrightarrow> parse gp raw g = Inr p"
  by (auto simp: attempt_patch_def bind_r_Inr split: sum.splits if_splits llm_call.splits)

lemma try_plan_ok: "try_plan gp model review g e k n c d = Inr p \<Longrightarrow> patch_ok gp g p"
proof (induction n arbitrary: k c d)
  case (Suc n)
  show ?case
  proof (cases "model g e k")
    case (Replied r)
    obtain out c' d' where a: "attempt_patch gp review g e k (lr_text r) = (out, c', d')" by (metis surj_pair)
    show ?thesis
    proof (cases out)
      case (Inl err)
      then show ?thesis using Suc Replied a by (auto split: if_splits)
    next
      case (Inr q)
      then show ?thesis using Suc.prems Replied a parse_ok [OF attempt_patch_Inr [of gp review g e k "lr_text r" q c' d']] by auto
    qed
  qed (use Suc.prems in auto)
qed auto

lemma plan_ok: "plan gp model review g e = Inr p \<Longrightarrow> patch_ok gp g p"
  by (auto simp: plan_def split: if_splits option.splits dest: try_plan_ok)

section \<open>A well-formed graph takes it\<close>

lemma snapshot_node: "wf_graph c \<Longrightarrow> dget (sn_nodes (snapshot_ck c)) nid = dget (c_nodes c) nid"
  by (simp add: snapshot_ck_def wf_graph_def node_ids_def dget_sort_key)

lemma acyclic_new_children:
  assumes "acyclic r" and "r \<subseteq> A \<times> A" and "\<forall>(p, n) \<in> s. p \<in> A \<and> n \<notin> A"
  shows "acyclic (r \<union> s)"
proof -
  have out: "n \<notin> Domain (r \<union> s)" if "n \<notin> A" for n using assms(2,3) that by blast
  have step: "(x, y) \<in> (r \<union> s)\<^sup>+ \<Longrightarrow> (x, y) \<in> r\<^sup>+ \<or> y \<notin> A" for x y
  proof (induction rule: trancl_induct)
    case (base y)
    then show ?case using assms(3) by auto
  next
    case (step y z)
    then have y: "y \<in> A" using out [of y] by blast
    then have "(x, y) \<in> r\<^sup>+" using step by blast
    then show ?case using step(2) assms(3) by (auto intro: trancl_into_trancl)
  qed
  show ?thesis
  proof (rule acyclicI, rule allI, rule notI)
    fix x assume x: "(x, x) \<in> (r \<union> s)\<^sup>+"
    then have "x \<in> A" using out [of x] tranclD by (metis DomainI)
    then show False using step [OF x] assms(1) by (simp add: acyclic_def)
  qed
qed

lemma patch_ok_checks:
  assumes wf: "wf_graph c" and ok: "patch_ok gp (snapshot_ck c) p"
  shows "check_patch p c = None"
proof -
  have node: "\<exists>n. dget (c_nodes c) nid = Some n \<and> q n" if "\<exists>n. dget (sn_nodes (snapshot_ck c)) nid = Some n \<and> q n" for nid q
    using that snapshot_node [OF wf] by simp
  have keys: "set (dkeys (sn_nodes (snapshot_ck c))) = set (node_ids c)"
    by (simp add: snapshot_ck_def node_ids_def)
  have new: "set (node_ids c) \<inter> ts_id ` set (p_add p) = {}"
    using ok keys by (auto simp: patch_ok_def task_ok_def)
  have par: "fst e \<in> set (node_ids c) \<and> snd e \<in> ts_id ` set (p_add p)" if e: "e \<in> set (p_connect p)" for e
  proof -
    have "edge_ok (snapshot_ck c) (p_cancel p) (p_add p) e" using ok e by (simp add: patch_ok_def)
    then show ?thesis using snapshot_node [OF wf, of "fst e"] by (auto simp: edge_ok_def node_ids_def dest: dget_Some_key)
  qed
  have can: "\<exists>n. dget (c_nodes c) nid = Some n \<and> n_state n \<in> {Pending, Waiting}" if "nid \<in> set (p_cancel p)" for nid
    using ok that by (intro node) (simp add: patch_ok_def)
  have known: "nid \<in> set (node_ids c)" if "nid \<in> set (p_cancel p)" for nid
    using can [OF that] by (auto simp: node_ids_def dest: dget_Some_key)
  have 1: "first_err (check_connect (node_ids c @ map ts_id (p_add p))) (p_connect p) = None"
    unfolding first_err_None using par new by (fastforce simp: check_connect_def split: prod.split)
  have 2: "first_err (check_known (node_ids c @ map ts_id (p_add p))) (p_cancel p @ p_wait p @ p_resume p) = None"
    unfolding first_err_None using known ok by (simp add: check_known_def patch_ok_def)
  have 3: "first_err (check_cancel c) (p_cancel p) = None"
    unfolding first_err_None using can by (force simp: check_cancel_def state_of_def)
  show ?thesis using 1 2 3 ok new by (simp add: check_patch_def Let_def patch_ok_def)
qed

lemma patch_ok_acyclic:
  assumes wf: "wf_graph c" and ok: "patch_ok gp (snapshot_ck c) p"
  shows "acyclic (set (c_edges c) \<union> set (p_connect p))"
proof (rule acyclic_new_children [of _ "set (node_ids c)"])
  show "acyclic (set (c_edges c))" using wf by (simp add: wf_graph_def)
  show "set (c_edges c) \<subseteq> set (node_ids c) \<times> set (node_ids c)" using wf by (auto simp: wf_graph_def edges_ok_def)
  show "\<forall>(a, n) \<in> set (p_connect p). a \<in> set (node_ids c) \<and> n \<notin> set (node_ids c)"
  proof clarify
    fix a n assume e: "(a, n) \<in> set (p_connect p)"
    then have "edge_ok (snapshot_ck c) (p_cancel p) (p_add p) (a, n)" using ok by (auto simp: patch_ok_def)
    then have "a \<in> set (dkeys (c_nodes c))" "n \<in> ts_id ` set (p_add p)"
      using snapshot_node [OF wf, of a] by (auto simp: edge_ok_def dest: dget_Some_key)
    then show "a \<in> set (node_ids c) \<and> n \<notin> set (node_ids c)"
      using ok by (auto simp: patch_ok_def task_ok_def node_ids_def snapshot_ck_def)
  qed
qed

lemma planner_accepted: "accepted_planner dag_check (plan gp model review)"
proof (rule accepted_planner.intro)
  show "dag_checker dag_check" by (rule peeling.dag_checker_axioms)
next
  fix c e p
  assume "wf_graph c" and "plan gp model review (snapshot_ck c) e = Inr p"
  then show "check_patch p c = None \<and> acyclic (set (c_edges c) \<union> set (p_connect p))"
    using plan_ok patch_ok_checks patch_ok_acyclic by blast
qed

interpretation general: accepted_planner dag_check "plan gp model review" for gp model review
  by (rule planner_accepted)

section \<open>How planning fails\<close>

lemma planner_json_error: "planner_json s = Inl e \<Longrightarrow> e = PlannerOutputError"
  by (auto simp: planner_json_def Let_def split: option.splits json.splits)

lemma read_proposal_error: "read_proposal gp g d = Inl e \<Longrightarrow> e = PlannerOutputError"
proof -
  have c: "first_err (check_cancel_id g) cs = Some e \<Longrightarrow> e = PlannerOutputError" for cs
    by (auto dest!: first_err_Some simp: check_cancel_id_def split: option.splits if_splits)
  assume "read_proposal gp g d = Inl e"
  then show ?thesis using c
    by (auto simp: read_proposal_def Let_def guard_r_def split: if_splits json.splits option.splits)
qed

lemma place_task_error:
  assumes "place_task gp g cancel proposed nid skill args deps fa = Inl e"
  shows "repairable e"
proof -
  define parents where "parents = parents_of gp g skill deps"
  have par: "first_err (check_parent g cancel) parents = Some e' \<Longrightarrow> e' = PlannerOutputError"
    if "filter (\<lambda>p. p \<notin> set (dkeys (sn_nodes g))) deps = []" for e'
  proof -
    have "set parents \<subseteq> set (dkeys (sn_nodes g))"
      using that by (auto simp: parents_def parents_of_def filter_empty_conv)
    moreover assume "first_err (check_parent g cancel) parents = Some e'"
    ultimately obtain p where "check_parent g cancel p = Some e'" "dget (sn_nodes g) p \<noteq> None"
      unfolding dget_None_iff by (blast dest: first_err_Some)
    then show ?thesis by (auto simp: check_parent_def split: if_splits)
  qed
  show ?thesis
  proof (cases "filter (\<lambda>p. p \<notin> set (dkeys (sn_nodes g))) deps = []")
    case True
    show ?thesis using assms par [OF True] unfolding place_task_def Let_def parents_def [symmetric]
      by (auto simp: repairable_def guard_r_def get_capability_def bind_r_def split: if_splits option.splits sum.splits)
  next
    case False
    then show ?thesis using assms unfolding place_task_def Let_def
      by (auto simp: repairable_def split: if_splits)
  qed
qed

lemma add_task_error:
  assumes "gp_registry gp = default_registry" and "add_task gp g cancel proposed raw fa = Inl e"
  shows "repairable e \<or> e = ValueError"
proof -
  have v: "validate (gp_ip gp) (gp_registry gp) skill x = Inl e' \<Longrightarrow> repairable e' \<or> e' = ValueError" for skill x e'
    using default_validate_errors assms(1) by (auto simp: repairable_def)
  show ?thesis
  proof (cases raw)
    case (JObj d)
    show ?thesis
    proof (cases "\<exists>nid skill. jget d ''id'' = JStr nid \<and> id_ok nid \<and> jget d ''capability'' = JStr skill \<and> set (dkeys d) \<subseteq> set task_keys")
      case False
      then show ?thesis using assms(2) JObj
        by (auto simp: add_task_def repairable_def split: if_splits json.splits)
    next
      case True
      then obtain nid skill where k: "jget d ''id'' = JStr nid" "id_ok nid" "jget d ''capability'' = JStr skill"
          "set (dkeys d) \<subseteq> set task_keys" by blast
      show ?thesis
      proof (cases "validate (gp_ip gp) (gp_registry gp) skill (dget_or d ''arguments'' (JObj []))")
        case (Inl e')
        then show ?thesis using assms(2) JObj k v by (auto simp: add_task_def)
      next
        case (Inr args)
        have "repairable e" using assms(2) k unfolding add_task_def JObj
          by (auto simp: Inr split: if_splits json.splits option.splits dest: place_task_error)
            (auto simp: repairable_def)
        then show ?thesis ..
      qed
    qed
  qed (use assms(2) in \<open>auto simp: add_task_def repairable_def\<close>)
qed

lemma add_tasks_error:
  "gp_registry gp = default_registry \<Longrightarrow> fold_r (add_task gp g cancel proposed) raws fa = Inl e \<Longrightarrow>
   repairable e \<or> e = ValueError"
proof (induction raws arbitrary: fa)
  case (Cons r raws)
  show ?case
  proof (cases "add_task gp g cancel proposed r fa")
    case (Inl e')
    then show ?thesis using Cons.prems add_task_error [OF Cons.prems(1) Inl] by simp
  qed (use Cons in auto)
qed simp

lemma parse_error:
  assumes "gp_registry gp = default_registry" and "parse gp s g = Inl e"
  shows "repairable e \<or> e = ValueError"
proof (cases "planner_json s")
  case (Inl e')
  then show ?thesis using assms(2) planner_json_error [OF Inl] by (simp add: parse_def repairable_def)
next
  case (Inr d)
  let ?d = "keyed_tasks (gp_registry gp) (shorthand (gp_registry gp) (length (sn_nodes g)) d)"
  show ?thesis
  proof (cases "read_proposal gp g ?d")
    case (Inl e')
    then show ?thesis using assms(2) read_proposal_error [OF Inl] Inr by (simp add: parse_def Let_def repairable_def)
  next
    case pr: (Inr pr)
    let ?f = "fold_r (add_task gp g (pr_cancel pr) (proposed_ids (pr_add pr))) (pr_add pr)
      \<lparr>fa_tasks = [], fa_edges = [], fa_seen = dkeys (sn_nodes g), fa_held = []\<rparr>"
    show ?thesis
    proof (cases ?f)
      case (Inl e')
      then show ?thesis using assms(2) add_tasks_error [OF assms(1) Inl] Inr pr by (simp add: parse_def Let_def)
    next
      case fa: (Inr fa)
      then have "conclude gp g pr fa = Inl e" using assms(2) Inr pr by (simp add: parse_def Let_def)
      then show ?thesis by (auto simp: conclude_def Let_def repairable_def split: if_splits)
    qed
  qed
qed

lemma try_plan_error:
  assumes "gp_registry gp = default_registry"
  shows "try_plan gp model review g e k n c d = Inl err \<Longrightarrow>
    err = ValueError \<or> (\<exists>k c d. review g e k = Call_raised err c d)"
proof (induction n arbitrary: k c d)
  case (Suc n)
  show ?case
  proof (cases "model g e k")
    case (Replied r)
    obtain out c' d' where a: "attempt_patch gp review g e k (lr_text r) = (out, c', d')" by (metis surj_pair)
    show ?thesis
    proof (cases out)
      case (Inl err')
      show ?thesis
      proof (cases "repairable err'")
        case True
        then have "try_plan gp model review g e (k + 1) n (c @ lr_calls r @ c') (d @ lr_decisions r @ d') = Inl err"
          using Suc.prems Replied a Inl by simp
        then show ?thesis by (rule Suc.IH)
      next
        case False
        then have err: "err' = err" using Suc.prems Replied a Inl by auto
        show ?thesis
        proof (cases "parse gp (lr_text r) g")
          case (Inl x)
          then show ?thesis using a \<open>out = Inl err'\<close> False err parse_error [OF assms Inl] by (auto simp: attempt_patch_def)
        next
          case (Inr p)
          have rv: "review_verdict s = Inl x \<Longrightarrow> x = PlannerOutputError" for s x
            using planner_json_error [of s] by (auto simp: review_verdict_def bind_r_def split: sum.splits json.splits)
          show ?thesis using a \<open>out = Inl err'\<close> False err Inr rv
            by (auto simp: attempt_patch_def repairable_def bind_r_def split: if_splits llm_call.splits sum.splits)
        qed
      qed
    qed (use Suc.prems Replied a in auto)
  qed (use Suc.prems in auto)
qed simp

lemma plan_error:
  assumes "gp_registry gp = default_registry" and "plan gp model review g e = Inl err"
  shows "err = ValueError \<or> (\<exists>k c d. review g e k = Call_raised err c d)"
  using assms(2) try_plan_error [OF assms(1)] by (auto simp: plan_def split: if_splits option.splits)

end
