(* ===== verification/Evidence.thy ===== *)
theory Evidence
  imports Capability
begin

text \<open>
  How a result becomes evidence (\<open>project_evidence\<close>, \<open>generic_evidence\<close> of \<open>capabilities.py\<close>), and
  how the answer worker bounds it (\<open>AgentRuntime.run\<close>). \<open>str_of\<close> is \<open>str\<close> on a JSON value and \<open>dumps\<close>
  is \<open>json.dumps\<close>: how a value prints plays no part in what is proved.
\<close>

section \<open>Templates\<close>

text \<open>\<open>template.format(**result)\<close> for templates whose fields are plain keys, as all declared ones are;
  \<open>None\<close> is the \<open>KeyError\<close> of a missing key.\<close>

fun format_fields :: "(json \<Rightarrow> string) \<Rightarrow> obj \<Rightarrow> string \<Rightarrow> string \<Rightarrow> bool \<Rightarrow> string option" where
  "format_fields str_of d [] key inside = (if inside then None else Some [])"
| "format_fields str_of d (c # cs) key True =
     (if c = CHR ''}''
      then (case dget d key of
              None \<Rightarrow> None
            | Some v \<Rightarrow> map_option ((@) (str_of v)) (format_fields str_of d cs [] False))
      else format_fields str_of d cs (key @ [c]) True)"
| "format_fields str_of d (c # cs) key False =
     (if c = CHR ''{'' then format_fields str_of d cs [] True
      else map_option ((#) c) (format_fields str_of d cs [] False))"

definition format_template :: "(json \<Rightarrow> string) \<Rightarrow> string \<Rightarrow> obj \<Rightarrow> string option" where
  "format_template str_of t d = format_fields str_of d t [] False"

section \<open>Projection\<close>

definition some_text :: "string option \<Rightarrow> bool" where
  "some_text s = (case s of None \<Rightarrow> False | Some x \<Rightarrow> x \<noteq> [])"

definition source_strings :: "json \<Rightarrow> string list" where
  "source_strings v = (case v of
      JStr s \<Rightarrow> if s \<noteq> [] then [s] else []
    | JList xs \<Rightarrow> concat (map (\<lambda>x. case x of JStr s \<Rightarrow> if s \<noteq> [] then [s] else [] | _ \<Rightarrow> []) xs)
    | _ \<Rightarrow> [])"

definition resolve_sources ::
  "(json \<Rightarrow> string) \<Rightarrow> projection \<Rightarrow> obj \<Rightarrow> string \<Rightarrow> string list \<Rightarrow> string list" where
  "resolve_sources str_of pj result fallback external =
     (let found = concat (map (\<lambda>k. source_strings (jget result k)) (ep_sources pj));
          found2 = (if found = [] \<and> some_text (ep_source_template pj)
                    then (case format_template str_of (the (ep_source_template pj)) result of
                            None \<Rightarrow> [] | Some s \<Rightarrow> [s]) else found);
          found3 = (if found2 = [] \<and> ep_external_sources pj then external else found2)
      in if found3 = [] then [fallback] else found3)"

definition evidence_record :: "string \<Rightarrow> string list \<Rightarrow> string \<Rightarrow> obj" where
  "evidence_record t sources kind =
     [(''text'', JStr t), (''sources'', JList (map JStr sources)), (''kind'', JStr kind)]"

definition or_kind :: "string option \<Rightarrow> string \<Rightarrow> string" where
  "or_kind k d = (if some_text k then the k else d)"

definition dict_items :: "json \<Rightarrow> obj list" where
  "dict_items v = (case v of JList xs \<Rightarrow> concat (map (\<lambda>x. case x of JObj d \<Rightarrow> [d] | _ \<Rightarrow> []) xs) | _ \<Rightarrow> [])"

text \<open>The ready-made records of the result.\<close>

definition passed_records :: "projection \<Rightarrow> obj \<Rightarrow> obj list" where
  "passed_records pj result =
     (if some_text (ep_records pj) then dict_items (jget result (the (ep_records pj))) else []) @
     (if some_text (ep_record pj)
      then (case jget result (the (ep_record pj)) of JObj d \<Rightarrow> [d] | _ \<Rightarrow> []) else [])"

definition strip_colons :: "string \<Rightarrow> string" where
  "strip_colons s = (let p = (\<lambda>c. c \<in> set '': '') in rev (dropWhile p (rev (dropWhile p s))))"

definition item_text_of :: "(json \<Rightarrow> string) \<Rightarrow> projection \<Rightarrow> obj \<Rightarrow> string" where
  "item_text_of str_of pj item =
     strip (strip_colons (join '': '' (map (\<lambda>k. str_of (dget_or item k (JStr []))) (ep_item_text pj))))"

definition item_sources :: "projection \<Rightarrow> string list \<Rightarrow> obj \<Rightarrow> string list" where
  "item_sources pj shared item =
     (case (if some_text (ep_item_source pj) then jget item (the (ep_item_source pj)) else JNull) of
        JStr s \<Rightarrow> if s \<noteq> [] then [s] else shared
      | _ \<Rightarrow> shared)"

definition item_records ::
  "(json \<Rightarrow> string) \<Rightarrow> projection \<Rightarrow> string list \<Rightarrow> obj list \<Rightarrow> obj list" where
  "item_records str_of pj shared items =
     concat (map (\<lambda>item.
       let t = item_text_of str_of pj item in
       if t = [] then []
       else [evidence_record (take 12000 t) (item_sources pj shared item) (or_kind (ep_item_kind pj) (ep_kind pj))]) items)"

definition expanded_records ::
  "(json \<Rightarrow> string) \<Rightarrow> projection \<Rightarrow> obj \<Rightarrow> string \<Rightarrow> string list \<Rightarrow> obj list" where
  "expanded_records str_of pj result fallback external =
     (if some_text (ep_items pj)
      then let rs = item_records str_of pj (resolve_sources str_of pj result fallback external)
                 (dict_items (jget result (the (ep_items pj))))
           in if rs = [] \<and> some_text (ep_summary pj)
              then [evidence_record
                 (case format_template str_of (the (ep_summary pj)) result of
                    None \<Rightarrow> the (ep_summary pj) | Some s \<Rightarrow> s)
                 (resolve_sources str_of pj result fallback external)
                 (or_kind (ep_summary_kind pj) (ep_kind pj))]
              else rs
      else [])"

definition body_of :: "(json \<Rightarrow> string) \<Rightarrow> projection \<Rightarrow> obj \<Rightarrow> string" where
  "body_of str_of pj result =
     (if some_text (ep_join pj)
      then (case jget result (the (ep_join pj)) of
              JList (x # xs) \<Rightarrow> ep_prefix pj @ join '', '' (map str_of (x # xs)) | _ \<Rightarrow> [])
      else if some_text (ep_text pj)
      then (case jget result (the (ep_text pj)) of
              JStr s \<Rightarrow> if strip s \<noteq> [] then ep_prefix pj @ s else [] | _ \<Rightarrow> [])
      else [])"

definition project_evidence ::
  "(json \<Rightarrow> string) \<Rightarrow> projection \<Rightarrow> obj \<Rightarrow> string \<Rightarrow> string list \<Rightarrow> obj list" where
  "project_evidence str_of pj result fallback external =
     passed_records pj result @ expanded_records str_of pj result fallback external @
     (let body = body_of str_of pj result in
      if body = [] then []
      else [evidence_record (take 12000 body) (resolve_sources str_of pj result fallback external) (ep_kind pj)])"

definition generic_evidence :: "(obj \<Rightarrow> string) \<Rightarrow> obj \<Rightarrow> string \<Rightarrow> string \<Rightarrow> string list \<Rightarrow> obj" where
  "generic_evidence dumps result skill fallback drops =
     (let public = filter (\<lambda>(k, v). k \<notin> set drops) result;
          sources = concat (map (\<lambda>(k, v). case v of
             JStr s \<Rightarrow> if k \<in> {''uri'', ''url'', ''endpoint'', ''source_uri'', ''path''} then [s] else [] | _ \<Rightarrow> []) public)
      in evidence_record (take 12000 (dumps public)) (if sources = [] then [fallback] else sources) (''capability:'' @ skill))"

section \<open>The answer worker's bound\<close>

text \<open>The loop that clips the evidence to 28,000 characters; an item is its text and the rest.\<close>

fun bound_evidence :: "nat \<Rightarrow> (string \<times> 'a) list \<Rightarrow> (string \<times> 'a) list" where
  "bound_evidence used [] = []"
| "bound_evidence used ((t, x) # items) =
     (if used \<ge> 28000 then []
      else let clipped = take (28000 - used) t in (clipped, x) # bound_evidence (used + length clipped) items)"

section \<open>Facts\<close>

lemma resolve_sources_nonempty: "resolve_sources str_of pj result fallback external \<noteq> []"
  by (simp add: resolve_sources_def Let_def)

lemma bound_evidence_total:
  "used \<le> 28000 \<Longrightarrow> used + sum_list (map (length \<circ> fst) (bound_evidence used items)) \<le> 28000"
proof (induction used items rule: bound_evidence.induct)
  case (2 used t x items)
  show ?case
  proof (cases "used \<ge> 28000")
    case False
    then have "used + length (take (28000 - used) t) \<le> 28000" by simp
    from 2(1) [OF False refl this] False show ?thesis by (simp add: Let_def add.assoc)
  qed (use 2 in simp)
qed simp

text \<open>A record with at least one source, each a string.\<close>

definition attributed :: "obj \<Rightarrow> bool" where
  "attributed r = (case jget r ''sources'' of JList (x # xs) \<Rightarrow> list_all is_str (x # xs) | _ \<Rightarrow> False)"

lemma attributed_record: "sources \<noteq> [] \<Longrightarrow> attributed (evidence_record t sources kind)"
  by (cases sources) (auto simp: attributed_def evidence_record_def jget_def dget_or_def list_all_iff)

lemma item_sources_nonempty: "shared \<noteq> [] \<Longrightarrow> item_sources pj shared item \<noteq> []"
  by (simp add: item_sources_def split: json.split)

lemma item_records_attributed: "shared \<noteq> [] \<Longrightarrow> r \<in> set (item_records str_of pj shared items) \<Longrightarrow> attributed r"
  by (auto simp: item_records_def Let_def intro!: attributed_record item_sources_nonempty split: if_splits)

lemma expanded_attributed: "r \<in> set (expanded_records str_of pj result fallback external) \<Longrightarrow> attributed r"
  using item_records_attributed [OF resolve_sources_nonempty]
  by (auto simp: expanded_records_def Let_def intro!: attributed_record resolve_sources_nonempty split: if_splits)

end
