(* ===== verification/Planner_Claims.thy ===== *)
theory Planner_Claims
  imports Planner_Props Evidence
begin

text \<open>
  The properties of the capability boundary and of the planner, the runs of the executor with this
  planner among them.
\<close>

section \<open>The validation boundary\<close>

lemma validate_capability:
  assumes "validate ip rg name v = Inr r" and "dget rg name = Some c" and "capability_ok ip c"
  shows "set (dkeys r) \<subseteq> set (dkeys (cp_arguments c))" and "distinct (dkeys r)"
    and "(k, ag) \<in> set (cp_arguments c) \<Longrightarrow> clean_one ip ag (dget r k) = Inr (dget r k)"
proof -
  obtain vs where vs: "clean_args ip (cp_arguments c) vs = Inr r" using assms(1,2) by (auto simp: validate_Inr)
  have d: "distinct (dkeys (cp_arguments c))" using assms(3) by (simp add: capability_ok_def)
  show "set (dkeys r) \<subseteq> set (dkeys (cp_arguments c))" by (rule clean_args_keys [OF vs])
  show "distinct (dkeys r)" by (rule clean_args_distinct [OF vs d])
  assume k: "(k, ag) \<in> set (cp_arguments c)"
  then have "default_ok ip ag" using assms(3) by (auto simp: capability_ok_def list_all_iff)
  with clean_one_idem [OF clean_args_get [OF vs d k]] show "clean_one ip ag (dget r k) = Inr (dget r k)" .
qed

text \<open>C15: Accepted arguments honour the capability's contract: no unknown argument, no argument twice,
  every required one there, and every value of its declared kind, stripped, within its bounds, among
  its choices and of its format.\<close>

theorem validated_arguments_conform:
  assumes "validate ip rg name v = Inr r" and "dget rg name = Some c" and "capability_ok ip c"
  shows "set (dkeys r) \<subseteq> set (dkeys (cp_arguments c)) \<and> distinct (dkeys r) \<and>
    (\<forall>(k, ag) \<in> set (cp_arguments c).
       (case dget r k of None \<Rightarrow> \<not> ag_required ag \<and> ag_default ag = None | Some w \<Rightarrow> conforms ip ag w))"
proof -
  have "case dget r k of None \<Rightarrow> \<not> ag_required ag \<and> ag_default ag = None | Some w \<Rightarrow> conforms ip ag w"
    if k: "(k, ag) \<in> set (cp_arguments c)" for k ag
  proof -
    have i: "clean_one ip ag (dget r k) = Inr (dget r k)" by (rule validate_capability(3) [OF assms k])
    have "default_ok ip ag" using assms(3) k by (auto simp: capability_ok_def list_all_iff)
    with i clean_one_conforms [of ip ag "dget r k"] show ?thesis
      by (auto simp: clean_one_def split: option.splits if_splits)
  qed
  with validate_capability(1,2) [OF assms] show ?thesis by blast
qed

text \<open>Validation is a normal form: validating accepted arguments again accepts them unchanged. So the
  planner's comparison of a proposal with the arguments of existing nodes compares what would run.\<close>

lemma validation_is_idempotent:
  assumes "validate ip rg name v = Inr r" and "dget rg name = Some c" and "capability_ok ip c"
  shows "validate ip rg name (JObj r) = Inr r"
proof -
  obtain vs where vs: "clean_args ip (cp_arguments c) vs = Inr r" using assms(1,2) by (auto simp: validate_Inr)
  have d: "distinct (dkeys (cp_arguments c))" using assms(3) by (simp add: capability_ok_def)
  have "\<forall>(k, ag) \<in> set (cp_arguments c). clean_one ip ag (dget r k) = clean_one ip ag (dget vs k)"
    using validate_capability(3) [OF assms] clean_args_get [OF vs d] by auto
  from clean_args_cong [OF vs this] validate_capability(1) [OF assms] assms(2) show ?thesis
    by (auto simp: validate_Inr)
qed

text \<open>The arguments of \<open>edit_code\<close> are not exact text: indentation and trailing newlines of
  \<open>old_string\<close>, \<open>new_string\<close> and \<open>content\<close> are stripped before the worker sees them, and an edit
  whose replacement is empty or blank is refused.\<close>

lemma edit_arguments_lose_indentation:
  "validate ip default_registry ''edit_code'' (JObj [(''path'', JStr ''a.py''),
       (''old_string'', JStr ''    x = 1''), (''new_string'', JStr ''        x = 1'')]) =
     Inr [(''path'', JStr ''a.py''), (''old_string'', JStr ''x = 1''), (''new_string'', JStr ''x = 1''),
          (''replace_all'', JBool False)] \<and>
   validate ip default_registry ''edit_code'' (JObj [(''path'', JStr ''a.py''),
       (''old_string'', JStr ''x = 1''), (''new_string'', JStr '''')]) = Inl CapabilityError"
  by code_simp

section \<open>Evidence\<close>

text \<open>Every record that projection builds, and the generic one, names at least one source; only records
  the capability itself returned pass as they are.\<close>

lemma evidence_is_attributed:
  "(\<forall>r \<in> set (project_evidence str_of pj result fallback external). attributed r \<or> r \<in> set (passed_records pj result)) \<and>
   attributed (generic_evidence dumps result skill fallback drops)"
  by (auto simp: project_evidence_def generic_evidence_def Let_def
      intro!: attributed_record resolve_sources_nonempty dest: expanded_attributed)

text \<open>A fetched page is one record, attributed to its URL.\<close>

lemma evidence_is_attributed_witness:
  "project_evidence (\<lambda>v. []) (projection_of default_registry ''fetch_url'')
       [(''text'', JStr ''page''), (''url'', JStr ''http://h'')] ''graph://r/n'' [] =
     [evidence_record ''page'' [''http://h''] ''web_page''] \<and>
   attributed (evidence_record ''page'' [''http://h''] ''web_page'')"
proof -
  let ?p = "projection_of default_registry ''fetch_url''"
  let ?d = "[(''text'', JStr ''page''), (''url'', JStr ''http://h'')]"
  have e: "project_evidence (\<lambda>v. []) ?p ?d ''graph://r/n'' [] = [evidence_record ''page'' [''http://h''] ''web_page'']"
    by code_simp
  have n: "passed_records ?p ?d = []" by code_simp
  from evidence_is_attributed [of "\<lambda>v. []" ?p ?d "''graph://r/n''" "[]" "\<lambda>d. []" "[]" "[]"] e n
  show ?thesis by simp
qed

section \<open>What a plan may contain\<close>

text \<open>C16: Whatever the model answers, a planned task names a registered capability, has a fresh
  well-formed id and validated arguments, and a side effect only with the run's explicit authority;
  cancellations reach only parked or pending nodes, and a patch that adds tasks keeps the limits.\<close>

theorem plan_respects_authority:
  assumes "plan gp model review g e = Inr p"
  shows "(\<forall>t \<in> set (p_add p). id_ok (ts_id t) \<and> ts_id t \<notin> set (dkeys (sn_nodes g)) \<and>
      (\<exists>c v. dget (gp_registry gp) (ts_skill t) = Some c \<and>
         validate (gp_ip gp) (gp_registry gp) (ts_skill t) v = Inr (ts_input t) \<and>
         (\<not> cp_side_effect c \<or> ts_skill t \<in> set (gp_allowed gp)))) \<and>
    (\<forall>nid \<in> set (p_cancel p). \<exists>n. dget (sn_nodes g) nid = Some n \<and> n_state n \<in> {Pending, Waiting}) \<and>
    (p_add p = [] \<or> int (length (p_add p)) \<le> gp_max_new gp \<and>
       int (length (sn_nodes g)) + int (length (p_add p)) \<le> gp_max_nodes gp)"
proof -
  have ok: "patch_ok gp g p" by (rule plan_ok [OF assms])
  then have "\<forall>t \<in> set (p_add p). task_ok gp g (p_cancel p) t" by (simp add: patch_ok_def)
  then show ?thesis using ok by (fastforce simp: patch_ok_def task_ok_def)
qed

text \<open>No identical call is launched twice: a planned task repeats no call still in flight, and no
  call that already succeeded unless its capability is declared rerunnable; a second answer is never
  planned beside one in progress.\<close>

lemma plan_repeats_no_work:
  assumes "plan gp model review g e = Inr p" and "t \<in> set (p_add p)" and "(i, n) \<in> set (sn_nodes g)"
  shows "(same_call (ts_skill t) (ts_input t) n \<longrightarrow>
      (active (n_state n) \<longrightarrow> i \<in> set (p_cancel p)) \<and>
      (n_state n = Succeeded \<longrightarrow> ts_skill t \<in> set (family (gp_registry gp) ''rerunnable''))) \<and>
    (is_terminal_skill gp (ts_skill t) \<and> is_terminal_skill gp (n_skill n) \<longrightarrow> \<not> active (n_state n))"
proof -
  have "task_ok gp g (p_cancel p) t" using plan_ok [OF assms(1)] assms(2) by (simp add: patch_ok_def)
  then show ?thesis using assms(3) unfolding task_ok_def by blast
qed

text \<open>C17: The store takes every patch the planner returns: no patch of it is rejected by a well-formed
  unfinished graph, and the graph stays well formed.\<close>

theorem planned_patch_is_applied:
  assumes "wf_graph c" and "\<not> c_finished c" and "dget (c_applied c) (ev_sequence e) = None"
    and "plan gp model review (snapshot_ck c) e = Inr p"
  shows "\<exists>c'. apply_patch_ck dag_check p (ev_sequence e) c = Inr (True, c') \<and> wf_graph c'"
proof -
  note acc = general.accepted [OF assms(1,2,4)]
  then have "dag_check (c_edges (grow p c))" using peeling.is_dag_iff by simp
  then have a: "apply_patch_ck dag_check p (ev_sequence e) c = Inr (True, record_patch p (ev_sequence e) (patch_moves p (grow p c)))"
    using acc assms(2,3) by (simp add: apply_patch_ck_def)
  then show ?thesis using peeling.wf_apply_patch [OF assms(1) a] by blast
qed

section \<open>Verifications that keep failing\<close>

text \<open>The failures of a command since it last passed, over the settled verification nodes in order.\<close>

definition verifications :: "registry \<Rightarrow> string \<Rightarrow> gnode list \<Rightarrow> gnode list" where
  "verifications rg cmd ns = filter (\<lambda>n. n_state n = Succeeded \<and> n_skill n \<in> set (family rg ''verify'') \<and> command_of n = cmd) ns"

definition failures_since_pass :: "registry \<Rightarrow> string \<Rightarrow> gnode list \<Rightarrow> nat" where
  "failures_since_pass rg cmd ns = length (takeWhile (\<lambda>n. \<not> passed n) (rev (verifications rg cmd ns)))"

definition tally :: "registry \<Rightarrow> (string \<times> gnode) list \<Rightarrow> (string \<times> nat) list" where
  "tally rg nodes = fold (\<lambda>(i, n). tally_one rg n) nodes []"

lemma tally_counts:
  "dget (tally rg nodes) cmd =
     (let k = failures_since_pass rg cmd (map snd nodes) in if k = 0 then None else Some k)"
proof (induction nodes rule: rev_induct)
  case Nil
  then show ?case by (simp add: tally_def failures_since_pass_def verifications_def)
next
  case (snoc x nodes)
  obtain i n where x: "x = (i, n)" by (cases x)
  have t: "tally rg (nodes @ [x]) = tally_one rg n (tally rg nodes)" using x by (simp add: tally_def)
  show ?case
  proof (cases "n_state n = Succeeded \<and> n_skill n \<in> set (family rg ''verify'')")
    case False
    then have "verifications rg cmd (map snd (nodes @ [x])) = verifications rg cmd (map snd nodes)"
      using x by (auto simp: verifications_def)
    then show ?thesis using snoc t False by (simp add: tally_one_def failures_since_pass_def)
  next
    case True
    then have v: "verifications rg cmd (map snd (nodes @ [x])) =
        verifications rg cmd (map snd nodes) @ (if command_of n = cmd then [n] else [])"
      using x by (simp add: verifications_def)
    show ?thesis using snoc t True v
      by (auto simp: tally_one_def failures_since_pass_def Let_def dget_or_def)
  qed
qed

lemma tally_one_distinct: "distinct (dkeys t) \<Longrightarrow> distinct (dkeys (tally_one rg n t))"
  by (simp add: tally_one_def distinct_dkeys_dput distinct_delete)

lemma tally_distinct: "distinct (dkeys (tally rg nodes))"
proof -
  have "distinct (dkeys t) \<Longrightarrow> distinct (dkeys (fold (\<lambda>(i, n). tally_one rg n) nodes t))" for t
    by (induction nodes arbitrary: t) (simp_all add: tally_one_distinct split: prod.split)
  then show ?thesis by (simp add: tally_def)
qed

lemma first_max_None [simp]: "first_max xs = None \<longleftrightarrow> xs = []"
  by (cases xs) (auto split: option.split)

lemma first_max_Some: "first_max xs = Some x \<Longrightarrow> x \<in> set xs \<and> (\<forall>y \<in> set xs. snd y \<le> snd x)"
proof (induction xs arbitrary: x)
  case (Cons a xs)
  show ?case
  proof (cases "first_max xs")
    case None
    then show ?thesis using Cons.prems by auto
  next
    case (Some y)
    then show ?thesis using Cons.prems Cons.IH [OF Some] by (auto split: if_splits)
  qed
qed simp

text \<open>Thrashing is recognised exactly and stopped: the planner finds a run stuck if and only if some
  verification command has failed at least the configured number of times since it last passed, and
  then it plans nothing more than the finish.\<close>

lemma thrashing_is_stopped:
  "(stuck_verification gp g \<noteq> None) = (0 < gp_max_repeat gp \<and>
     (\<exists>cmd. int (failures_since_pass (gp_registry gp) cmd (map snd (sn_nodes g))) \<ge> gp_max_repeat gp)) \<and>
   (stuck_verification gp g = None \<or>
     (\<exists>p. plan gp model review g e = Inr p \<and> p_finish p \<and> p_add p = [] \<and> p_cancel p = []))"
proof -
  let ?rg = "gp_registry gp" and ?t = "tally (gp_registry gp) (sn_nodes g)"
  let ?k = "\<lambda>cmd. failures_since_pass ?rg cmd (map snd (sn_nodes g))"
  have st: "stuck_verification gp g = (if gp_max_repeat gp \<le> 0 then None
      else case first_max ?t of None \<Rightarrow> None | Some w \<Rightarrow> if int (snd w) \<ge> gp_max_repeat gp then Some w else None)"
    by (simp add: stuck_verification_def tally_def)
  have get: "dget ?t cmd = (if ?k cmd = 0 then None else Some (?k cmd))" for cmd
    by (simp add: tally_counts Let_def)
  have iff: "(stuck_verification gp g \<noteq> None) = (0 < gp_max_repeat gp \<and> (\<exists>cmd. int (?k cmd) \<ge> gp_max_repeat gp))"
  proof (cases "gp_max_repeat gp > 0")
    case True
    show ?thesis
    proof (cases "first_max ?t")
      case None
      then have "dget ?t cmd = None" for cmd by simp
      then have "?k cmd = 0" for cmd using get [of cmd] by (metis option.distinct(1))
      then show ?thesis using True None by (simp add: st)
    next
      case (Some w)
      note m = first_max_Some [OF Some]
      have w: "?k (fst w) = snd w"
        using m get [of "fst w"] map_of_is_SomeI [OF tally_distinct, of "fst w" "snd w" ?rg "sn_nodes g"]
        by (auto split: if_splits)
      have "?k cmd \<le> snd w" for cmd
      proof (cases "?k cmd = 0")
        case False
        then have "(cmd, ?k cmd) \<in> set ?t" using get [of cmd] by (simp add: map_of_SomeD)
        then show ?thesis using m by fastforce
      qed simp
      then have "(\<exists>cmd. int (?k cmd) \<ge> gp_max_repeat gp) = (int (snd w) \<ge> gp_max_repeat gp)"
        using w by (metis of_nat_le_iff order_trans)
      then show ?thesis using True Some by (simp add: st)
    qed
  qed (simp add: st)
  have "\<exists>p. plan gp model review g e = Inr p \<and> p_finish p \<and> p_add p = [] \<and> p_cancel p = []"
    if "stuck_verification gp g = Some w" for w
    using that by (simp add: plan_def finish_patch_def empty_patch_def)
  with iff show ?thesis by (cases "stuck_verification gp g") auto
qed

section \<open>The executor with this planner\<close>


section \<open>Concrete runs\<close>

definition demo_settings :: planner_settings where
  "demo_settings = \<lparr>gp_registry = default_registry, gp_ip = (\<lambda>h. False), gp_respond_as = ''text'', gp_max_nodes = 32,
     gp_max_new = 4, gp_repair = 3, gp_review = True, gp_allowed = [''run_command''], gp_max_repeat = 2\<rparr>"

definition reply_text :: "string \<Rightarrow> llm_call" where
  "reply_text s = Replied \<lparr>lr_text = s, lr_calls = [], lr_decisions = []\<rparr>"

definition no_review :: llm where "no_review g e k = reply_text []"

text \<open>A model that first runs the tests, fenced and with a trailing blank, and then asks for a bad URL.\<close>

definition demo_model :: llm where
  "demo_model g e k = reply_text
     (if ev_kind e = ''run_started''
      then ''```json {\"add\":[{\"id\":\"t1\",\"capability\":\"run_command\",\"arguments\":{\"command\":\"pytest -q \"}}],\"reason\":\"test\"}```''
      else ''{\"add\":[{\"id\":\"u1\",\"capability\":\"fetch_url\",\"arguments\":{\"url\":\"http://[x\"}}],\"reason\":\"read\"}'')"

definition demo_graph :: snapshot where
  "demo_graph = \<lparr>sn_run_id = ''r'', sn_finished = False, sn_nodes = [], sn_edges = []\<rparr>"

definition demo_start :: event where
  "demo_start = \<lparr>ev_sequence = 1, ev_kind = ''run_started'', ev_node = None, ev_payload = []\<rparr>"

definition demo_test_task :: task_spec where
  "demo_test_task = \<lparr>ts_id = ''t1'', ts_skill = ''run_command'',
     ts_input = [(''command'', JStr ''pytest -q''), (''timeout'', JInt 120)],
     ts_metadata = [(''agent'', JStr ''run_command''), (''planned_by'', JStr ''general_agent''), (''side_effect'', JBool True)]\<rparr>"

lemma demo_plan:
  "plan demo_settings demo_model no_review demo_graph demo_start =
     Inr (empty_patch\<lparr>p_add := [demo_test_task], p_reason := ''test'', p_metadata := meter_fields [] []\<rparr>)"
  by code_simp

text \<open>A proposal with a malformed bracketed host is not repaired: \<open>urlsplit\<close>'s \<open>ValueError\<close> is not a
  \<open>CapabilityError\<close>, so it leaves the planner, whatever attempts remain, and with it the run.\<close>

lemma malformed_url_escapes_repair:
  "plan demo_settings demo_model no_review demo_graph (demo_start\<lparr>ev_kind := ''task_succeeded''\<rparr>) = Inl ValueError"
  by code_simp






lemma demo_validated:
  "validate ip default_registry ''run_command'' (JObj [(''timeout'', JInt 5), (''command'', JStr '' pytest'')]) =
     Inr [(''command'', JStr ''pytest''), (''timeout'', JInt 5)]"
  by code_simp

lemma default_capability:
  "dget default_registry name = Some c \<Longrightarrow> capability_ok ip c"
  using default_registry_ok [of ip] by (auto simp: list_all_iff dest!: map_of_SomeD)

theorem validated_arguments_conform_witness:
  "\<exists>c. dget default_registry ''run_command'' = Some c \<and>
     (\<forall>(k, ag) \<in> set (cp_arguments c).
       (case dget [(''command'', JStr ''pytest''), (''timeout'', JInt 5)] k of
          None \<Rightarrow> \<not> ag_required ag \<and> ag_default ag = None | Some w \<Rightarrow> conforms (\<lambda>h. False) ag w))"
proof -
  obtain c where c: "dget default_registry ''run_command'' = Some c"
    using demo_validated [of "\<lambda>h. False"] by (auto simp: validate_Inr)
  from validated_arguments_conform [OF demo_validated c default_capability [OF c]] c show ?thesis by blast
qed

lemma validation_is_idempotent_witness:
  "validate (\<lambda>h. False) default_registry ''run_command'' (JObj [(''command'', JStr ''pytest''), (''timeout'', JInt 5)]) =
     Inr [(''command'', JStr ''pytest''), (''timeout'', JInt 5)]"
proof -
  obtain c where c: "dget default_registry ''run_command'' = Some c"
    using demo_validated [of "\<lambda>h. False"] by (auto simp: validate_Inr)
  show ?thesis by (rule validation_is_idempotent [OF demo_validated c default_capability [OF c]])
qed

theorem plan_respects_authority_witness:
  "id_ok ''t1'' \<and> (\<exists>c v. dget default_registry ''run_command'' = Some c \<and>
     (\<not> cp_side_effect c \<or> ''run_command'' \<in> set [''run_command'']))"
  using plan_respects_authority [OF demo_plan]
  by (auto simp: demo_settings_def demo_test_task_def empty_patch_def)

text \<open>The tests ran and failed once; the same command is planned again, being rerunnable.\<close>

definition demo_failed_node :: gnode where
  "demo_failed_node = \<lparr>n_skill = ''run_command'', n_input = [(''command'', JStr ''pytest -q''), (''timeout'', JInt 120)],
     n_metadata = [], n_state = Succeeded, n_result = Some [(''exit_code'', JInt 1)], n_wait = None\<rparr>"

definition demo_rerun_graph :: snapshot where
  "demo_rerun_graph = demo_graph\<lparr>sn_nodes := [(''t0'', demo_failed_node)]\<rparr>"

lemma demo_replan:
  "plan demo_settings demo_model no_review demo_rerun_graph demo_start =
     Inr (empty_patch\<lparr>p_add := [demo_test_task], p_reason := ''test'', p_metadata := meter_fields [] []\<rparr>)"
  by code_simp

lemma plan_repeats_no_work_witness:
  "same_call ''run_command'' (ts_input demo_test_task) demo_failed_node \<and>
   ''run_command'' \<in> set (family default_registry ''rerunnable'')"
proof -
  have s: "same_call ''run_command'' (ts_input demo_test_task) demo_failed_node" by code_simp
  have t: "ts_skill demo_test_task = ''run_command''" "n_state demo_failed_node = Succeeded"
    by (simp_all add: demo_test_task_def demo_failed_node_def)
  have "demo_test_task \<in> set (p_add (empty_patch\<lparr>p_add := [demo_test_task], p_reason := ''test'', p_metadata := meter_fields [] []\<rparr>))"
    by simp
  from plan_repeats_no_work [OF demo_replan this, of "''t0''" demo_failed_node] s t
  show ?thesis by (simp add: demo_rerun_graph_def demo_settings_def)
qed

definition demo_checkpoint :: checkpoint where
  "demo_checkpoint = log_event ''run_started'' None [] (new_checkpoint ''r'' [])"

theorem planned_patch_is_applied_witness:
  "\<exists>c'. apply_patch_ck dag_check (empty_patch\<lparr>p_add := [demo_test_task], p_reason := ''test'',
       p_metadata := meter_fields [] []\<rparr>) (ev_sequence demo_start) demo_checkpoint = Inr (True, c') \<and> wf_graph c'"
proof (rule planned_patch_is_applied)
  show "wf_graph demo_checkpoint" unfolding demo_checkpoint_def by (rule wf_new_checkpoint)
  show "\<not> c_finished demo_checkpoint" "dget (c_applied demo_checkpoint) (ev_sequence demo_start) = None" by code_simp+
  show "plan demo_settings demo_model no_review (snapshot_ck demo_checkpoint) demo_start =
      Inr (empty_patch\<lparr>p_add := [demo_test_task], p_reason := ''test'', p_metadata := meter_fields [] []\<rparr>)" by code_simp
qed

end
