(* ===== verification/Coding_Guard.thy ===== *)
theory Coding_Guard
  imports Fnmatch
begin

text \<open>
  What the coding agent may touch and run: the protected paths (\<open>coding/guard.py\<close>), the workspace
  boundary (\<open>coding/workspace.py\<close>) and the command allowlist (\<open>coding/exec.py\<close>). A resolved path is its
  list of components. \<open>canon\<close> is the file system's \<open>resolve\<close>: it follows links, which the program does
  not control. The environment variables that replace the default lists are arguments.
\<close>

type_synonym fpath = "string list"

section \<open>Splitting texts\<close>

fun split_on :: "char \<Rightarrow> string \<Rightarrow> string list" where
  "split_on c [] = [[]]"
| "split_on c (x # xs) =
     (if x = c then [] # split_on c xs
      else case split_on c xs of p # ps \<Rightarrow> (x # p) # ps | [] \<Rightarrow> [[x]])"

definition base_name :: "string \<Rightarrow> string" where
  "base_name s = last (split_on (CHR ''/'') s)"

section \<open>Protected paths\<close>

definition default_protected :: "string list" where
  "default_protected = [''tests/**'', ''test/**'', ''**/tests/**'', ''**/test_*.py'', ''**/*_test.py'',
     ''conftest.py'', ''**/conftest.py'', ''pytest.ini'', ''tox.ini'', ''setup.cfg'', ''pyproject.toml'', ''.github/**'']"

fun drop_dots :: "string \<Rightarrow> string" where
  "drop_dots (a # b # s) = (if a = CHR ''.'' \<and> b = CHR ''/'' then drop_dots s else a # b # s)"
| "drop_dots s = s"

definition guard_form :: "string \<Rightarrow> string" where
  "guard_form rel = dropWhile (\<lambda>c. c = CHR ''/'') (drop_dots rel)"

definition protects :: "string \<Rightarrow> string \<Rightarrow> bool" where
  "protects rel pattern =
     (fnmatch pattern rel \<or> fnmatch (''/'' @ pattern) (''/'' @ rel) \<or>
      (startswith pattern ''**/'' \<and> fnmatch (drop 3 pattern) (base_name rel)) \<or>
      (endswith pattern ''/**'' \<and>
        (let dir = take (length pattern - 3) pattern in rel = dir \<or> startswith rel (dir @ ''/''))))"

definition is_protected :: "string list \<Rightarrow> string \<Rightarrow> string option" where
  "is_protected patterns rel = find (protects (guard_form rel)) patterns"

definition guard_path :: "string list \<Rightarrow> string \<Rightarrow> py_error option" where
  "guard_path patterns rel = (case is_protected patterns rel of Some p \<Rightarrow> Some GuardError | None \<Rightarrow> None)"

section \<open>The workspace boundary\<close>

definition path_parts :: "string \<Rightarrow> fpath" where
  "path_parts s = filter (\<lambda>p. p \<noteq> [] \<and> p \<noteq> ''.'') (split_on (CHR ''/'') s)"

definition inside :: "fpath \<Rightarrow> fpath \<Rightarrow> bool" where
  "inside base p = (take (length base) p = base)"

definition resolve :: "(fpath \<Rightarrow> fpath) \<Rightarrow> fpath \<Rightarrow> string \<Rightarrow> fpath result" where
  "resolve canon base rel =
     (if startswith rel ''/'' then Inl WorkspaceError
      else let candidate = canon (base @ path_parts rel) in
        if inside base candidate then Inr candidate else Inl WorkspaceError)"

text \<open>\<open>canon\<close> of a file system without links: a parent reference removes the component before it.\<close>

definition lexical :: "fpath \<Rightarrow> fpath" where
  "lexical p = fold (\<lambda>c acc. if c = ''..'' then butlast acc else acc @ [c]) p []"

section \<open>The command runner\<close>

definition default_allowlist :: "string list" where
  "default_allowlist = [''pytest'', ''python'', ''python3'', ''uv'', ''ruff'', ''mypy'', ''git'', ''node'', ''npm'']"

definition shell_metacharacters :: "string list" where
  "shell_metacharacters = ['';'', ''&&'', ''||'', ''|'', ''`'', ''$('', ''>'', ''<'', [CHR 0x0A]]"

definition forbidden_args :: "string list" where
  "forbidden_args = [''--user'', ''--system'', ''-c'']"

definition git_subcommands :: "string list" where
  "git_subcommands = [''status'', ''diff'', ''log'', ''show'', ''add'', ''commit'', ''checkout'',
     ''restore'', ''branch'', ''rev-parse'', ''stash'', ''clean'']"

definition bad_argument :: "string \<Rightarrow> string \<Rightarrow> bool" where
  "bad_argument program a =
     (startswith program ''python'' \<and> a = ''-c'' \<or> a \<in> set forbidden_args \<and> program \<in> {''pip'', ''uv''})"

definition bad_git :: "string list \<Rightarrow> bool" where
  "bad_git args =
     ((case find (\<lambda>a. \<not> startswith a ''-'') args of None \<Rightarrow> [] | Some a \<Rightarrow> a) \<notin> set git_subcommands \<or>
      list_ex (\<lambda>a. startswith a ''-c'' \<or> contains ''upload-pack'' a \<or> contains ''receive-pack'' a) args)"

definition check_command :: "string list \<Rightarrow> string list \<Rightarrow> py_error option" where
  "check_command allowed argv =
     (case argv of
        [] \<Rightarrow> Some CommandError
      | prog # args \<Rightarrow>
          if list_ex (\<lambda>t. list_ex (\<lambda>m. contains m t) shell_metacharacters) argv then Some CommandError
          else let program = base_name prog in
            if program \<notin> set allowed then Some CommandError
            else if list_ex (bad_argument program) args then Some CommandError
            else if program = ''git'' \<and> bad_git args then Some CommandError
            else None)"

definition bounded_timeout :: "int \<Rightarrow> int" where
  "bounded_timeout t = max 1 (min t 600)"

text \<open>\<open>text[-MAX_OUTPUT_CHARS:]\<close>\<close>

definition capped_output :: "string \<Rightarrow> string" where
  "capped_output s = drop (length s - 20000) s"

text \<open>What the program leaves behind: its streams and exit code, or the timeout it was killed at.\<close>

datatype process_end = Exited int string string | Timed_out string | Not_found

record command_result =
  cr_command :: "string list"
  cr_exit_code :: int
  cr_stdout :: string
  cr_stderr :: string
  cr_timed_out :: bool

definition container_argv :: "string \<Rightarrow> string \<Rightarrow> string list \<Rightarrow> string list" where
  "container_argv base img argv =
     [''docker'', ''run'', ''--rm'', ''--network=none'', ''--memory=1g'', ''--cpus=1'', ''--pids-limit=256'',
      ''-v'', base @ '':/workspace'', ''-w'', ''/workspace'', img] @ argv"

text \<open>\<open>run_command\<close> on a list of arguments; \<open>img\<close> is the container's image, when runs are contained.\<close>

definition run_command ::
  "string list \<Rightarrow> string option \<Rightarrow> string \<Rightarrow> string list \<Rightarrow> int \<Rightarrow> process_end \<Rightarrow> command_result result" where
  "run_command allowed img base argv timeout pe =
     guard_r (check_command allowed argv)
       (let t = bounded_timeout timeout;
            argv' = (case img of None \<Rightarrow> argv | Some i \<Rightarrow> container_argv base i argv)
        in case pe of
             Exited code out err \<Rightarrow> Inr \<lparr>cr_command = argv', cr_exit_code = code, cr_stdout = capped_output out,
               cr_stderr = capped_output err, cr_timed_out = False\<rparr>
           | Timed_out out \<Rightarrow> Inr \<lparr>cr_command = argv', cr_exit_code = 124, cr_stdout = capped_output out,
               cr_stderr = ''timed out after '' @ str_int t @ ''s'', cr_timed_out = True\<rparr>
           | Not_found \<Rightarrow> Inl CommandError)"

definition command_ok :: "command_result \<Rightarrow> bool" where
  "command_ok r = (cr_exit_code r = 0 \<and> \<not> cr_timed_out r)"

section \<open>Facts\<close>

lemma resolve_inside: "resolve canon base rel = Inr p \<Longrightarrow> inside base p"
  by (auto simp: resolve_def Let_def split: if_splits)

lemma run_command_bounded:
  "run_command allowed img base argv timeout pe = Inr r \<Longrightarrow>
   check_command allowed argv = None \<and> length (cr_stdout r) \<le> 20000"
  by (auto simp: run_command_def guard_r_Inr Let_def capped_output_def split: process_end.splits)

text \<open>An interpreter flag joined to another is not the flag the runner looks for.\<close>

lemma joined_flag_is_run: "check_command default_allowlist [''python'', ''-Bc'', ''print(1)''] = None"
  by code_simp

end
