(* ===== verification/Coding_Edit.thy ===== *)
theory Coding_Edit
  imports Coding_Guard
begin

text \<open>
  The coding agent's hands (\<open>coding/edit.py\<close>, \<open>coding/search.py\<close>): reading a file, editing it by
  anchor, creating, copying and searching. The state is the part of the file system the workspace
  reaches, the contents of a file as characters (Latin-1), and the run's ledger of the paths it has
  read, by the spelling they were named with. A failing operation leaves the state alone: every check comes
  before the first write, and a directory is only made where nothing stands in its way.
\<close>

section \<open>State\<close>

text \<open>A file that decodes as UTF-8, or one that does not and is read with replacements.\<close>

datatype stored = Decodes string | Undecodable string

record coding =
  cd_files :: "(fpath \<times> stored) list"
  cd_dirs :: "fpath list"
  cd_read :: "string list"

fun raw_text :: "stored \<Rightarrow> string" where
  "raw_text (Decodes s) = s"
| "raw_text (Undecodable s) = s"

definition is_file :: "coding \<Rightarrow> fpath \<Rightarrow> bool" where
  "is_file s p = (dget (cd_files s) p \<noteq> None)"

definition path_exists :: "coding \<Rightarrow> fpath \<Rightarrow> bool" where
  "path_exists s p = (is_file s p \<or> p \<in> set (cd_dirs s))"

definition record_read :: "string \<Rightarrow> coding \<Rightarrow> coding" where
  "record_read rel s = s\<lparr>cd_read := List.insert rel (cd_read s)\<rparr>"

definition require_read :: "coding \<Rightarrow> string \<Rightarrow> py_error option" where
  "require_read s rel = (if rel \<in> set (cd_read s) then None else Some EditError)"

text \<open>\<open>mkdir(parents=True, exist_ok=True)\<close>: every prefix is made; a file in the way is an error.\<close>

definition prefixes_of :: "fpath \<Rightarrow> fpath list" where
  "prefixes_of p = map (\<lambda>n. take n p) [1..<Suc (length p)]"

definition make_dirs :: "fpath \<Rightarrow> coding \<Rightarrow> coding result" where
  "make_dirs d s =
     (if list_ex (is_file s) (prefixes_of d) then Inl OSError
      else Inr (s\<lparr>cd_dirs := fold List.insert (prefixes_of d) (cd_dirs s)\<rparr>))"

definition write_file :: "fpath \<Rightarrow> stored \<Rightarrow> coding \<Rightarrow> coding result" where
  "write_file p f s =
     (if p \<in> set (cd_dirs s) then Inl OSError else Inr (s\<lparr>cd_files := dput p f (cd_files s)\<rparr>))"

section \<open>Text\<close>

text \<open>Text mode reading: a carriage return, alone or before a line feed, becomes a line feed.\<close>

fun universal :: "string \<Rightarrow> string" where
  "universal (a # b # s) =
     (if a = CHR 0x0D then CHR 0x0A # (if b = CHR 0x0A then universal s else universal (b # s))
      else a # universal (b # s))"
| "universal [a] = [if a = CHR 0x0D then CHR 0x0A else a]"
| "universal [] = []"

text \<open>\<open>str.count\<close>: occurrences that do not overlap, from the left; \<open>str.replace\<close> replaces those.\<close>

function (sequential) count_sub :: "string \<Rightarrow> string \<Rightarrow> nat" where
  "count_sub old [] = 0"
| "count_sub old (c # cs) =
     (if old \<noteq> [] \<and> startswith (c # cs) old then Suc (count_sub old (drop (length old) (c # cs)))
      else count_sub old cs)"
  by pat_completeness auto
termination by (relation "measure (\<lambda>(old, s). length s)") auto

function (sequential) replace_sub :: "string \<Rightarrow> string \<Rightarrow> bool \<Rightarrow> string \<Rightarrow> string" where
  "replace_sub old new every [] = []"
| "replace_sub old new every (c # cs) =
     (if old \<noteq> [] \<and> startswith (c # cs) old then
        new @ (let rest = drop (length old) (c # cs) in if every then replace_sub old new every rest else rest)
      else c # replace_sub old new every cs)"
  by pat_completeness auto
termination by (relation "measure (\<lambda>(old, new, every, s). length s)") auto

text \<open>\<open>str.splitlines\<close>\<close>

definition is_break :: "char \<Rightarrow> bool" where
  "is_break c = (c \<in> {CHR 0x0A, CHR 0x0B, CHR 0x0C, CHR 0x0D, CHR 0x1C, CHR 0x1D, CHR 0x1E, CHR 0x85})"

function (sequential) split_lines :: "string \<Rightarrow> string list" where
  "split_lines [] = []"
| "split_lines (c # cs) =
     (let line = takeWhile (\<lambda>x. \<not> is_break x) (c # cs); rest = dropWhile (\<lambda>x. \<not> is_break x) (c # cs)
      in case rest of
           [] \<Rightarrow> [line]
         | x # xs \<Rightarrow> line # split_lines
             (case xs of y # ys \<Rightarrow> if x = CHR 0x0D \<and> y = CHR 0x0A then ys else xs | [] \<Rightarrow> xs))"
  by pat_completeness auto
termination
proof (relation "measure length")
  fix c :: char and cs line rest x xs
  assume r: "rest = dropWhile (\<lambda>x. \<not> is_break x) (c # cs)" and x: "rest = x # xs"
  have "length rest \<le> length (c # cs)"
    unfolding r by (rule length_dropWhile_le)
  then have "length xs \<le> length cs"
    unfolding x by simp
  then show "(case xs of y # ys \<Rightarrow> if x = CHR 0x0D \<and> y = CHR 0x0A then ys else xs | [] \<Rightarrow> xs, c # cs) \<in> measure length"
    by (auto split: list.splits)
qed simp

section \<open>Reading\<close>

text \<open>\<open>f"{n:>6}  {line}"\<close>\<close>

definition numbered :: "int \<Rightarrow> string \<Rightarrow> string" where
  "numbered n line = (let d = str_int n in replicate (6 - length d) CHR '' '' @ d @ ''  '' @ line)"

text \<open>
  \<open>lines[start - 1:end]\<close>: a negative end counts from the back, which a limit below one makes reachable.
\<close>

definition py_slice :: "int \<Rightarrow> int \<Rightarrow> 'a list \<Rightarrow> 'a list" where
  "py_slice a b xs =
     (let n = int (length xs); fit = (\<lambda>i. if i < 0 then max 0 (n + i) else min i n)
      in drop (nat (fit a)) (take (nat (fit b)) xs))"

definition read_window :: "int \<Rightarrow> int option \<Rightarrow> string list \<Rightarrow> obj" where
  "read_window offset limit lines =
     (let start = max 1 offset;
          stop = (case limit of None \<Rightarrow> int (length lines) | Some l \<Rightarrow> min (int (length lines)) (start + l - 1));
          window = py_slice (start - 1) stop lines
      in [(''start_line'', JInt start), (''end_line'', JInt stop), (''total_lines'', JInt (int (length lines))),
          (''truncated'', JBool (stop < int (length lines))),
          (''text'', JStr (join [CHR 0x0A] (map (\<lambda>(i, l). numbered (start + int i) l) (enumerate 0 window))))])"

definition read_code ::
  "(fpath \<Rightarrow> fpath) \<Rightarrow> fpath \<Rightarrow> string \<Rightarrow> int \<Rightarrow> int option \<Rightarrow> coding \<Rightarrow> (obj \<times> coding) result" where
  "read_code canon base rel offset limit s =
     bind_r (resolve canon base rel) (\<lambda>p.
       case dget (cd_files s) p of
         None \<Rightarrow> Inl EditError
       | Some f \<Rightarrow> Inr ((''path'', JStr rel) # read_window offset limit (split_lines (universal (raw_text f))),
                      record_read rel s))"

section \<open>Writing\<close>

definition edit_text :: "string \<Rightarrow> string \<Rightarrow> bool \<Rightarrow> string \<Rightarrow> string result" where
  "edit_text old new every original =
     (let n = count_sub old original in
      if n = 0 then Inl EditError
      else if n > 1 \<and> \<not> every then Inl EditError
      else Inr (replace_sub old new every original))"

definition edit_receipt :: "string \<Rightarrow> string \<Rightarrow> bool \<Rightarrow> string \<Rightarrow> string \<Rightarrow> obj" where
  "edit_receipt rel old every original updated =
     (let n = int (count_sub old original) in
      [(''path'', JStr rel), (''replaced'', JInt (if every then n else 1)), (''occurrences_found'', JInt n),
       (''bytes_before'', JInt (int (length original))), (''bytes_after'', JInt (int (length updated)))])"

definition apply_edit ::
  "string list \<Rightarrow> (fpath \<Rightarrow> fpath) \<Rightarrow> fpath \<Rightarrow> string \<Rightarrow> string \<Rightarrow> string \<Rightarrow> bool \<Rightarrow> coding \<Rightarrow> (obj \<times> coding) result" where
  "apply_edit patterns canon base rel old new every s =
     guard_r (guard_path patterns rel) (guard_r (require_read s rel)
       (bind_r (resolve canon base rel) (\<lambda>p.
         case dget (cd_files s) p of
           None \<Rightarrow> Inl EditError
         | Some f \<Rightarrow>
             if old = new then Inl EditError
             else if old = [] then Inl EditError
             else case f of
                 Undecodable _ \<Rightarrow> Inl ValueError
               | Decodes raw \<Rightarrow>
                   bind_r (edit_text old new every (universal raw)) (\<lambda>updated.
                   bind_r (write_file p (Decodes updated) s) (\<lambda>t.
                     Inr (edit_receipt rel old every (universal raw) updated, t))))))"

definition create_file ::
  "string list \<Rightarrow> (fpath \<Rightarrow> fpath) \<Rightarrow> fpath \<Rightarrow> string \<Rightarrow> string \<Rightarrow> bool \<Rightarrow> coding \<Rightarrow> (obj \<times> coding) result" where
  "create_file patterns canon base rel content overwrite s =
     guard_r (guard_path patterns rel)
       (bind_r (resolve canon base rel) (\<lambda>p.
         if path_exists s p \<and> \<not> overwrite then Inl EditError
         else guard_r (if path_exists s p then require_read s rel else None)
           (bind_r (make_dirs (butlast p) s) (\<lambda>t.
            bind_r (write_file p (Decodes content) t) (\<lambda>u.
              Inr ([(''path'', JStr rel), (''bytes'', JInt (int (length content))), (''created'', JBool True)],
                   record_read rel u))))))"

text \<open>\<open>shutil.copyfile\<close> copies the bytes. There is no \<open>guard_path\<close> here.\<close>

definition copy_within_workspace ::
  "(fpath \<Rightarrow> fpath) \<Rightarrow> fpath \<Rightarrow> string \<Rightarrow> string \<Rightarrow> bool \<Rightarrow> coding \<Rightarrow> (obj \<times> coding) result" where
  "copy_within_workspace canon base source destination overwrite s =
     bind_r (resolve canon base source) (\<lambda>src.
     bind_r (resolve canon base destination) (\<lambda>dst.
       case dget (cd_files s) src of
         None \<Rightarrow> Inl EditError
       | Some f \<Rightarrow>
           if path_exists s dst \<and> \<not> overwrite then Inl EditError
           else if src = dst then Inl EditError
           else bind_r (make_dirs (butlast dst) s) (\<lambda>t.
                bind_r (write_file dst f t) (\<lambda>u.
                  Inr ([(''copied'', JBool True), (''source'', JStr source), (''destination'', JStr destination),
                        (''bytes'', JInt (int (length (raw_text f))))],
                       record_read destination u)))))"

section \<open>Searching\<close>

text \<open>
  A file of the walk: its path below the workspace, as components, its modification time, size, and
  its text if it decodes. \<open>os.walk\<close> gives them in an order of its own; the code prunes directories.
\<close>

record walked =
  wk_path :: fpath
  wk_mtime :: int
  wk_size :: nat
  wk_text :: "string option"

definition skip_dirs :: "string list" where
  "skip_dirs = [''.git'', ''.venv'', ''venv'', ''node_modules'', ''__pycache__'', ''.pytest_cache'',
     ''.ruff_cache'', ''dist'', ''build'', ''.mypy_cache'', ''.tox'']"

definition walk :: "walked list \<Rightarrow> walked list" where
  "walk fs = filter (\<lambda>w. list_all (\<lambda>d. d \<notin> set skip_dirs \<and> \<not> startswith d ''.'') (butlast (wk_path w))) fs"

definition rel_of :: "walked \<Rightarrow> string" where
  "rel_of w = join ''/'' (wk_path w)"

definition glob_hit :: "string \<Rightarrow> walked \<Rightarrow> bool" where
  "glob_hit pattern w = (fnmatch pattern (rel_of w) \<or> fnmatch pattern (base_name (rel_of w)))"

text \<open>\<open>hits.sort(reverse=True)\<close> on pairs, newest first; \<open>hits[:limit]\<close>.\<close>

definition glob_files :: "string \<Rightarrow> int \<Rightarrow> walked list \<Rightarrow> string list \<times> bool" where
  "glob_files pattern limit fs =
     (let hits = rev (sort (map (\<lambda>w. (wk_mtime w, rel_of w)) (filter (glob_hit pattern) (walk fs))))
      in (map snd (py_slice 0 limit hits), limit < int (length hits)))"

record code_match =
  cm_path :: string
  cm_line :: nat
  cm_text :: string

definition line_matches :: "(string \<Rightarrow> bool) \<Rightarrow> string \<Rightarrow> string \<Rightarrow> code_match list" where
  "line_matches matcher rel txt =
     map (\<lambda>(i, l). \<lparr>cm_path = rel, cm_line = i, cm_text = take 240 (strip l)\<rparr>)
       (filter (\<lambda>(i, l). matcher l) (enumerate 1 (split_lines txt)))"

text \<open>
  One file after another, matches so far and files scanned; the loop returns as soon as it holds
  \<open>limit\<close> matches, which it only asks after adding one.
\<close>

fun grep_loop ::
  "(string \<Rightarrow> bool) \<Rightarrow> string \<Rightarrow> nat \<Rightarrow> walked list \<Rightarrow> code_match list \<Rightarrow> nat \<Rightarrow> code_match list \<times> nat \<times> bool" where
  "grep_loop matcher path_glob limit [] acc n = (acc, n, False)"
| "grep_loop matcher path_glob limit (w # ws) acc n =
     (if path_glob \<noteq> ''*'' \<and> \<not> glob_hit path_glob w then grep_loop matcher path_glob limit ws acc n
      else if 2000000 < wk_size w then grep_loop matcher path_glob limit ws acc n
      else case wk_text w of
          None \<Rightarrow> grep_loop matcher path_glob limit ws acc n
        | Some txt \<Rightarrow>
            (let found = line_matches matcher (rel_of w) (universal txt) in
             if found \<noteq> [] \<and> limit \<le> length acc + length found
             then (acc @ take (max 1 (limit - length acc)) found, Suc n, True)
             else grep_loop matcher path_glob limit ws (acc @ found) (Suc n)))"

text \<open>\<open>compiled\<close> is what \<open>re.compile\<close> makes of the pattern: a test of a line, or an error.\<close>

definition grep_code ::
  "(string \<Rightarrow> bool) option \<Rightarrow> string \<Rightarrow> nat \<Rightarrow> walked list \<Rightarrow> (code_match list \<times> nat \<times> bool) result" where
  "grep_code compiled path_glob limit fs =
     (case compiled of None \<Rightarrow> Inl ValueError | Some matcher \<Rightarrow> Inr (grep_loop matcher path_glob limit (walk fs) [] 0))"

section \<open>What a validator found\<close>

text \<open>\<open>summarise\<close>: a blocker, or no claim to have passed, is not a pass. A finding must be a dict.\<close>

definition findings_of :: "obj \<Rightarrow> json list result" where
  "findings_of result =
     (let v = dget_or result ''findings'' JNull in
      if \<not> truthy v then Inr []
      else case v of
          JList xs \<Rightarrow> Inr xs
        | JObj d \<Rightarrow> Inr (map (\<lambda>(k, x). JStr k) d)
        | JStr s \<Rightarrow> Inr (map (\<lambda>c. JStr [c]) s)
        | _ \<Rightarrow> Inl TypeError)"

definition summarise :: "obj \<Rightarrow> obj result" where
  "summarise result =
     bind_r (findings_of result) (\<lambda>fs.
       guard_r (first_err (\<lambda>f. if is_dict f then None else Some AttributeError) fs)
         (let field = (\<lambda>k f. case f of JObj d \<Rightarrow> dget_or d k JNull | _ \<Rightarrow> JNull);
              blockers = filter (\<lambda>f. field ''severity'' f = JStr ''blocker'') fs
          in Inr [(''passed'', JBool (truthy (dget_or result ''passed'' JNull) \<and> blockers = [])),
                  (''blockers'', JInt (int (length blockers))),
                  (''findings'', if truthy (dget_or result ''findings'' JNull)
                                 then dget_or result ''findings'' JNull else JList []),
                  (''summary'', dget_or result ''summary'' (JStr [])),
                  (''reproduced_any'', JBool (list_ex (\<lambda>f. truthy (field ''reproduced'' f)) fs))]))"

end
