(* ===== verification/Coding_Claims.thy ===== *)
theory Coding_Claims
  imports Coding_Edit
begin

text \<open>
  What the coding agent's hands promise: an edit by anchor replaces one place and nothing else; over
  any sequence of operations a file that changed lies in the workspace and was named by an operation
  that was licensed to write it; and the two ways in which the licence falls short of its aim.
\<close>

section \<open>Occurrences\<close>

lemma count_sub_zero:
  assumes "old \<noteq> []"
  shows "count_sub old s = 0 \<longleftrightarrow> (\<forall>pre suf. s \<noteq> pre @ old @ suf)"
  using assms
proof (induction old s rule: count_sub.induct)
  case (2 old c cs)
  show ?case
  proof (cases "startswith (c # cs) old")
    case True
    with 2 show ?thesis by (auto simp: startswith_append intro: exI [of _ "[]"])
  next
    case False
    then have "(\<exists>pre suf. c # cs = pre @ old @ suf) \<longleftrightarrow> (\<exists>pre suf. cs = pre @ old @ suf)"
      by (auto simp: startswith_append Cons_eq_append_conv)
    with False 2 show ?thesis by auto
  qed
qed simp

text \<open>A prefix that stops short of the first occurrence is skipped by all later ones.\<close>

lemma replace_first:
  assumes "old \<noteq> []" and "count_sub old s \<noteq> 0"
  shows "\<exists>pre suf. s = pre @ old @ suf \<and> replace_sub old new False s = pre @ new @ suf \<and>
           count_sub old s = Suc (count_sub old suf) \<and>
           (\<forall>pre' suf'. s = pre' @ old @ suf' \<longrightarrow> length pre \<le> length pre')"
  using assms
proof (induction old s rule: count_sub.induct)
  case (2 old c cs)
  show ?case
  proof (cases "startswith (c # cs) old")
    case True
    then obtain suf where s: "c # cs = old @ suf" by (auto simp: startswith_append)
    then have d: "drop (length old) (c # cs) = suf" by simp
    then have "replace_sub old new False (c # cs) = new @ suf" "count_sub old (c # cs) = Suc (count_sub old suf)"
      using True 2(3) by (simp_all add: d del: drop_Cons')
    then show ?thesis using s by (intro exI [of _ "[]"] exI [of _ suf]) simp
  next
    case False
    have "count_sub old cs \<noteq> 0" using False 2(4) by simp
    with 2(2) [OF _ 2(3)] False obtain pre suf where *: "cs = pre @ old @ suf" "replace_sub old new False cs = pre @ new @ suf"
      "count_sub old cs = Suc (count_sub old suf)"
      "\<And>pre' suf'. cs = pre' @ old @ suf' \<Longrightarrow> length pre \<le> length pre'" by metis
    have later: "length (c # pre) \<le> length pre'" if "c # cs = pre' @ old @ suf'" for pre' suf'
    proof (cases pre')
      case Nil
      with that False show ?thesis by (metis append_Nil startswith_append)
    next
      case (Cons x xs)
      with that *(4) show ?thesis by simp
    qed
    have "replace_sub old new False (c # cs) = (c # pre) @ new @ suf"
      "count_sub old (c # cs) = Suc (count_sub old suf)"
      using False *(2,3) by simp_all
    moreover have "c # cs = (c # pre) @ old @ suf" using *(1) by simp
    ultimately show ?thesis using later by blast
  qed
qed simp

lemma replace_all_length:
  "old \<noteq> [] \<Longrightarrow>
   length (replace_sub old new True s) + count_sub old s * length old = length s + count_sub old s * length new"
proof (induction old s rule: count_sub.induct)
  case (2 old c cs)
  show ?case
  proof (cases "startswith (c # cs) old")
    case True
    then have "length old \<le> length (c # cs)" by (metis startswith_def length_take min.cobounded1)
    with True 2 show ?thesis by (simp add: Let_def)
  qed (use 2 in simp)
qed simp

section \<open>What each operation does when it succeeds\<close>

lemma guard_path_None [simp]: "guard_path patterns rel = None \<longleftrightarrow> is_protected patterns rel = None"
  by (simp add: guard_path_def split: option.split)

lemma require_read_None [simp]: "require_read s rel = None \<longleftrightarrow> rel \<in> set (cd_read s)"
  by (simp add: require_read_def)

lemma write_file_Inr:
  "write_file p f s = Inr t \<longleftrightarrow> p \<notin> set (cd_dirs s) \<and> t = s\<lparr>cd_files := dput p f (cd_files s)\<rparr>"
  by (auto simp: write_file_def)

lemma make_dirs_files: "make_dirs d s = Inr t \<Longrightarrow> cd_files t = cd_files s \<and> cd_read t = cd_read s"
  by (auto simp: make_dirs_def split: if_splits)

lemma read_code_Inr:
  "read_code canon base rel offset limit s = Inr (r, t) \<Longrightarrow> t = record_read rel s"
  by (auto simp: read_code_def bind_r_Inr split: option.splits)

lemma apply_edit_Inr:
  assumes "apply_edit patterns canon base rel old new every s = Inr (r, t)"
  obtains p raw updated where "is_protected patterns rel = None" "rel \<in> set (cd_read s)"
    "resolve canon base rel = Inr p" "dget (cd_files s) p = Some (Decodes raw)" "old \<noteq> new" "old \<noteq> []"
    "edit_text old new every (universal raw) = Inr updated"
    "t = s\<lparr>cd_files := dput p (Decodes updated) (cd_files s)\<rparr>"
    "r = edit_receipt rel old every (universal raw) updated"
proof -
  from assms obtain p where p: "is_protected patterns rel = None" "rel \<in> set (cd_read s)"
    "resolve canon base rel = Inr p" by (auto simp: apply_edit_def guard_r_Inr bind_r_Inr)
  with assms obtain f where f: "dget (cd_files s) p = Some f"
    by (cases "dget (cd_files s) p") (auto simp: apply_edit_def guard_r_Inr)
  with assms p obtain raw where "f = Decodes raw" "old \<noteq> new" "old \<noteq> []"
    by (cases f) (auto simp: apply_edit_def guard_r_Inr split: if_splits)
  with assms p f that show thesis
    by (auto simp: apply_edit_def guard_r_Inr bind_r_Inr write_file_Inr)
qed

lemma create_file_Inr:
  assumes "create_file patterns canon base rel content overwrite s = Inr (r, t)"
  obtains p where "is_protected patterns rel = None" "resolve canon base rel = Inr p"
    "path_exists s p \<longrightarrow> overwrite \<and> rel \<in> set (cd_read s)"
    "cd_files t = dput p (Decodes content) (cd_files s)" "cd_read t = List.insert rel (cd_read s)"
  using assms
  by (auto simp: create_file_def guard_r_Inr bind_r_Inr write_file_Inr record_read_def
      dest!: make_dirs_files split: option.splits if_splits)

lemma copy_Inr:
  assumes "copy_within_workspace canon base source destination overwrite s = Inr (r, t)"
  obtains src dst f where "resolve canon base source = Inr src" "resolve canon base destination = Inr dst"
    "dget (cd_files s) src = Some f" "path_exists s dst \<longrightarrow> overwrite" "src \<noteq> dst"
    "cd_files t = dput dst f (cd_files s)" "cd_read t = List.insert destination (cd_read s)"
  using assms
  by (auto simp: copy_within_workspace_def guard_r_Inr bind_r_Inr write_file_Inr record_read_def
      dest!: make_dirs_files split: option.splits if_splits)

section \<open>Histories\<close>

text \<open>The workers of \<open>workers/coding.py\<close> that read or write a file, in one run's workspace.\<close>

datatype coding_op =
    Read_op string int "int option"
  | Edit_op string string string bool
  | Create_op string string bool
  | Copy_op string string bool

definition run_op ::
  "string list \<Rightarrow> (fpath \<Rightarrow> fpath) \<Rightarrow> fpath \<Rightarrow> coding_op \<Rightarrow> coding \<Rightarrow> (obj \<times> coding) result" where
  "run_op patterns canon base op s =
     (case op of
        Read_op rel offset limit \<Rightarrow> read_code canon base rel offset limit s
      | Edit_op rel old new every \<Rightarrow> apply_edit patterns canon base rel old new every s
      | Create_op rel content overwrite \<Rightarrow> create_file patterns canon base rel content overwrite s
      | Copy_op source destination overwrite \<Rightarrow> copy_within_workspace canon base source destination overwrite s)"

definition after_op :: "string list \<Rightarrow> (fpath \<Rightarrow> fpath) \<Rightarrow> fpath \<Rightarrow> coding_op \<Rightarrow> coding \<Rightarrow> coding" where
  "after_op patterns canon base op s =
     (case run_op patterns canon base op s of Inl e \<Rightarrow> s | Inr (r, t) \<Rightarrow> t)"

fun registers :: "coding_op \<Rightarrow> string option" where
  "registers (Read_op rel _ _) = Some rel"
| "registers (Edit_op _ _ _ _) = None"
| "registers (Create_op rel _ _) = Some rel"
| "registers (Copy_op _ rel _) = Some rel"

definition seen :: "coding_op list \<Rightarrow> coding \<Rightarrow> string \<Rightarrow> bool" where
  "seen ops s rel = (rel \<in> set (cd_read s) \<or> Some rel \<in> registers ` set ops)"

text \<open>
  What allows an operation to have written a file: it named it by a path that no pattern protects and,
  where the file was there before, that the run had seen; only a copy asks for neither.
\<close>

definition licensed ::
  "string list \<Rightarrow> (fpath \<Rightarrow> fpath) \<Rightarrow> fpath \<Rightarrow> coding_op list \<Rightarrow> coding \<Rightarrow> fpath \<Rightarrow> coding_op \<Rightarrow> bool" where
  "licensed patterns canon base ops s p op =
     (case op of
        Read_op _ _ _ \<Rightarrow> False
      | Edit_op rel _ _ _ \<Rightarrow> resolve canon base rel = Inr p \<and> is_protected patterns rel = None \<and> seen ops s rel
      | Create_op rel _ overwrite \<Rightarrow> resolve canon base rel = Inr p \<and> is_protected patterns rel = None \<and>
          (is_file s p \<longrightarrow> overwrite \<and> seen ops s rel)
      | Copy_op _ rel overwrite \<Rightarrow> resolve canon base rel = Inr p \<and> (is_file s p \<longrightarrow> overwrite))"

text \<open>What one operation leaves: it only adds files, only registers its own path, and is licensed.\<close>

definition op_sound ::
  "string list \<Rightarrow> (fpath \<Rightarrow> fpath) \<Rightarrow> fpath \<Rightarrow> coding_op \<Rightarrow> coding \<Rightarrow> coding \<Rightarrow> bool" where
  "op_sound patterns canon base op s t =
     ((\<forall>p. is_file s p \<longrightarrow> is_file t p) \<and>
      (\<forall>rel \<in> set (cd_read t). rel \<in> set (cd_read s) \<or> registers op = Some rel) \<and>
      (\<forall>p. dget (cd_files t) p \<noteq> dget (cd_files s) p \<longrightarrow> licensed patterns canon base [] s p op))"

lemmas op_defs = op_sound_def after_op_def run_op_def licensed_def seen_def is_file_def path_exists_def

lemma after_op_sound: "op_sound patterns canon base op s (after_op patterns canon base op s)"
proof (cases "run_op patterns canon base op s")
  case (Inl e)
  then show ?thesis by (simp add: op_sound_def after_op_def)
next
  case (Inr rt)
  obtain r t where rt: "rt = (r, t)" by (cases rt)
  have "op_sound patterns canon base op s t"
  proof (cases op)
    case (Read_op rel offset limit)
    with Inr rt have "t = record_read rel s" by (simp add: run_op_def read_code_Inr)
    with Read_op show ?thesis by (simp add: op_sound_def record_read_def is_file_def)
  next
    case (Edit_op rel old new every)
    with Inr rt have "apply_edit patterns canon base rel old new every s = Inr (r, t)" by (simp add: run_op_def)
    then show ?thesis
      by (rule apply_edit_Inr) (auto simp: op_sound_def licensed_def seen_def is_file_def Edit_op split: if_splits)
  next
    case (Create_op rel content overwrite)
    with Inr rt have "create_file patterns canon base rel content overwrite s = Inr (r, t)" by (simp add: run_op_def)
    then show ?thesis
      by (rule create_file_Inr)
        (auto simp: op_sound_def licensed_def seen_def is_file_def path_exists_def Create_op split: if_splits)
  next
    case (Copy_op source rel overwrite)
    with Inr rt have "copy_within_workspace canon base source rel overwrite s = Inr (r, t)" by (simp add: run_op_def)
    then show ?thesis
      by (rule copy_Inr)
        (auto simp: op_sound_def licensed_def is_file_def path_exists_def Copy_op split: if_splits)
  qed
  with Inr rt show ?thesis by (simp add: after_op_def)
qed

lemma history_sound:
  "let t = fold (after_op patterns canon base) ops s in
     (\<forall>p. is_file s p \<longrightarrow> is_file t p) \<and> (\<forall>rel \<in> set (cd_read t). seen ops s rel) \<and>
     (\<forall>p. dget (cd_files t) p \<noteq> dget (cd_files s) p \<longrightarrow> (\<exists>op \<in> set ops. licensed patterns canon base ops s p op))"
proof (induction ops rule: rev_induct)
  case Nil
  then show ?case by (simp add: seen_def)
next
  case (snoc op ops)
  define t where "t = fold (after_op patterns canon base) ops s"
  define u where "u = after_op patterns canon base op t"
  have more: "seen ops s rel \<Longrightarrow> seen (ops @ [op]) s rel" for rel
    by (auto simp: seen_def)
  then have keep: "licensed patterns canon base ops s p x \<Longrightarrow> licensed patterns canon base (ops @ [op]) s p x" for p x
    by (auto simp: licensed_def split: coding_op.splits)
  have step: "op_sound patterns canon base op t u" unfolding u_def by (rule after_op_sound)
  note IH = snoc.IH [unfolded Let_def, folded t_def]
  have files: "is_file s p \<Longrightarrow> is_file t p" for p using IH by blast
  have reads: "rel \<in> set (cd_read t) \<Longrightarrow> seen ops s rel" for rel using IH by blast
  have "licensed patterns canon base [] t p op \<Longrightarrow> licensed patterns canon base (ops @ [op]) s p op" for p
    using files reads more by (auto simp: licensed_def seen_def [of "[]"] split: coding_op.splits)
  then have "\<exists>x \<in> set (ops @ [op]). licensed patterns canon base (ops @ [op]) s p x"
    if "dget (cd_files u) p \<noteq> dget (cd_files s) p" for p
    using that IH step keep unfolding op_sound_def by (metis UnCI list.set_intros(1) set_append)
  moreover have "\<forall>p. is_file s p \<longrightarrow> is_file u p" using files step unfolding op_sound_def by blast
  moreover have "\<forall>rel \<in> set (cd_read u). seen (ops @ [op]) s rel"
    using step reads more unfolding op_sound_def by (fastforce simp: seen_def)
  ultimately show ?case by (simp add: t_def [symmetric] u_def [symmetric])
qed

section \<open>Properties\<close>

text \<open>C20: An edit by anchor that is not told to replace every occurrence replaces one place and nothing
  else: the path is not protected and was read before, the file it resolves to held the anchor, the
  first occurrence in it becomes the new text, the text after it does not hold the anchor again, and no
  other file, directory or ledger entry changes. The text is the file's with its line ends made line
  feeds, which is also how it is written back.\<close>

theorem edit_replaces_one_place:
  assumes "apply_edit patterns canon base rel old new False s = Inr (r, t)"
  shows "\<exists>p raw pre suf. is_protected patterns rel = None \<and> rel \<in> set (cd_read s) \<and> inside base p \<and>
      resolve canon base rel = Inr p \<and> dget (cd_files s) p = Some (Decodes raw) \<and>
      universal raw = pre @ old @ suf \<and>
      t = s\<lparr>cd_files := dput p (Decodes (pre @ new @ suf)) (cd_files s)\<rparr> \<and>
      (\<forall>pre' suf'. universal raw = pre' @ old @ suf' \<longrightarrow> length pre \<le> length pre') \<and>
      (\<forall>a b. suf \<noteq> a @ old @ b)"
  using assms
proof (rule apply_edit_Inr)
  fix p raw updated
  assume *: "is_protected patterns rel = None" "rel \<in> set (cd_read s)" "resolve canon base rel = Inr p"
    "dget (cd_files s) p = Some (Decodes raw)" "old \<noteq> []"
    "edit_text old new False (universal raw) = Inr updated"
    "t = s\<lparr>cd_files := dput p (Decodes updated) (cd_files s)\<rparr>"
  then have one: "count_sub old (universal raw) = 1" "updated = replace_sub old new False (universal raw)"
    by (auto simp: edit_text_def Let_def split: if_splits)
  with replace_first [OF *(5), of "universal raw" new] obtain pre suf where
    "universal raw = pre @ old @ suf" "updated = pre @ new @ suf" "count_sub old suf = 0"
    "\<forall>pre' suf'. universal raw = pre' @ old @ suf' \<longrightarrow> length pre \<le> length pre'" by auto
  with * show ?thesis using count_sub_zero [OF *(5)] resolve_inside by blast
qed

definition sample_coding :: coding where
  "sample_coding = \<lparr>cd_files = [([''w'', ''a.py''], Decodes ''x = 1''), ([''w'', ''tests'', ''test_a.py''], Decodes ''assert x''),
      ([''w'', ''pyproject.toml''], Decodes ''strict'')],
     cd_dirs = [[''w''], [''w'', ''tests'']], cd_read = [''a.py'']\<rparr>"

theorem edit_replaces_one_place_witness:
  "\<exists>p raw pre suf. is_protected default_protected ''a.py'' = None \<and> ''a.py'' \<in> set (cd_read sample_coding) \<and>
      inside [''w''] p \<and>
      resolve lexical [''w''] ''a.py'' = Inr p \<and> dget (cd_files sample_coding) p = Some (Decodes raw) \<and>
      universal raw = pre @ ''1'' @ suf \<and>
      snd (projr (apply_edit default_protected lexical [''w''] ''a.py'' ''1'' ''2'' False sample_coding)) =
        sample_coding\<lparr>cd_files := dput p (Decodes (pre @ ''2'' @ suf)) (cd_files sample_coding)\<rparr> \<and>
      (\<forall>pre' suf'. universal raw = pre' @ ''1'' @ suf' \<longrightarrow> length pre \<le> length pre') \<and>
      (\<forall>a b. suf \<noteq> a @ ''1'' @ b)"
proof (rule edit_replaces_one_place)
  show "apply_edit default_protected lexical [''w''] ''a.py'' ''1'' ''2'' False sample_coding =
    Inr (fst (projr (apply_edit default_protected lexical [''w''] ''a.py'' ''1'' ''2'' False sample_coding)),
         snd (projr (apply_edit default_protected lexical [''w''] ''a.py'' ''1'' ''2'' False sample_coding)))"
    by code_simp
qed

text \<open>Over any sequence of reads, edits, creations and copies, whatever fails among them, a file
  whose content differs from the start lies inside the workspace, and some operation of the sequence was
  licensed to write it: it named it by a path no pattern protects and, where the file was there before,
  one the run had registered; or it was a copy onto that path, told to overwrite it where it was there.\<close>

lemma changed_files_were_allowed:
  assumes "dget (cd_files (fold (after_op patterns canon base) ops s)) p \<noteq> dget (cd_files s) p"
  shows "inside base p \<and> (\<exists>op \<in> set ops. licensed patterns canon base ops s p op)"
proof -
  from assms history_sound [of patterns canon base ops s] obtain op
    where "op \<in> set ops" "licensed patterns canon base ops s p op" by (auto simp: Let_def)
  moreover from this(2) have "inside base p"
    by (auto simp: licensed_def split: coding_op.splits intro: resolve_inside)
  ultimately show ?thesis by blast
qed

definition sample_ops :: "coding_op list" where
  "sample_ops = [Edit_op ''tests/test_a.py'' ''assert'' ''print'' False, Edit_op ''a.py'' ''1'' ''2'' False]"

lemma changed_files_were_allowed_witness:
  "dget (cd_files (fold (after_op default_protected lexical [''w'']) sample_ops sample_coding)) [''w'', ''a.py''] =
     Some (Decodes ''x = 2'') \<and>
   inside [''w''] [''w'', ''a.py''] \<and>
   (\<exists>op \<in> set sample_ops. licensed default_protected lexical [''w''] sample_ops sample_coding [''w'', ''a.py''] op)"
proof -
  have "dget (cd_files (fold (after_op default_protected lexical [''w'']) sample_ops sample_coding)) [''w'', ''a.py''] =
     Some (Decodes ''x = 2'') \<and>
     dget (cd_files (fold (after_op default_protected lexical [''w'']) sample_ops sample_coding)) [''w'', ''a.py''] \<noteq>
     dget (cd_files sample_coding) [''w'', ''a.py'']" by code_simp
  then show ?thesis using changed_files_were_allowed by blast
qed

text \<open>The suite that grades the work is not out of the agent's reach: a protected test is replaced by
  a copy, since copying asks no guard, and a protected configuration file is edited through a path with a
  parent reference in it, which the guard reads as another file and the workspace resolves to that one.\<close>

lemma judge_can_be_replaced:
  "is_protected default_protected ''tests/test_a.py'' \<noteq> None \<and>
   dget (cd_files (fold (after_op default_protected lexical [''w''])
     [Copy_op ''a.py'' ''tests/test_a.py'' True] sample_coding)) [''w'', ''tests'', ''test_a.py''] = Some (Decodes ''x = 1'') \<and>
   is_protected default_protected ''pyproject.toml'' \<noteq> None \<and>
   dget (cd_files (fold (after_op default_protected lexical [''w''])
     [Read_op ''src/../pyproject.toml'' 1 None, Edit_op ''src/../pyproject.toml'' ''strict'' ''lax'' False] sample_coding))
     [''w'', ''pyproject.toml''] = Some (Decodes ''lax'')"
  by code_simp

text \<open>
  Two smaller gaps, for the record: \<open>str.count\<close> does not see occurrences that overlap, so an anchor that
  occurs twice may pass as unique; and an edit of one line of a file with carriage returns rewrites
  every line end.
\<close>

lemma overlapping_anchor_is_unique: "edit_text ''aba'' ''x'' False ''ababa'' = Inr ''xba''"
  by code_simp

lemma edit_rewrites_line_ends:
  "edit_text ''b'' ''c'' False (universal [CHR ''a'', CHR 0x0D, CHR 0x0A, CHR ''b'']) = Inr [CHR ''a'', CHR 0x0A, CHR ''c'']"
  by code_simp

section \<open>Searching\<close>

lemma glob_files_sound:
  "f \<in> set (fst (glob_files pattern limit fs)) \<Longrightarrow> \<exists>w \<in> set (walk fs). f = rel_of w \<and> glob_hit pattern w"
  by (auto simp: glob_files_def py_slice_def Let_def dest!: in_set_dropD in_set_takeD)

text \<open>The cap of a search: never more matches than the limit, or one where the limit is zero.\<close>

lemma grep_loop_capped:
  "grep_loop matcher path_glob limit ws acc n = (ms, k, capped) \<Longrightarrow> length acc < max 1 limit \<Longrightarrow>
   length ms \<le> max 1 limit \<and> (capped \<longleftrightarrow> length ms = max 1 limit) \<and> n \<le> k \<and> k \<le> n + length ws"
proof (induction matcher path_glob limit ws acc n rule: grep_loop.induct)
  case (2 matcher path_glob limit w ws acc n)
  show ?case
  proof (cases "(path_glob \<noteq> ''*'' \<and> \<not> glob_hit path_glob w) \<or> 2000000 < wk_size w \<or> wk_text w = None")
    case True
    with 2(5) have "grep_loop matcher path_glob limit ws acc n = (ms, k, capped)"
      by (auto split: if_splits)
    with True 2(1-3) 2(6) show ?thesis by fastforce
  next
    case False
    then obtain tx where tx: "wk_text w = Some tx" by blast
    define found where "found = line_matches matcher (rel_of w) (universal tx)"
    note step = 2(5) [unfolded grep_loop.simps tx Let_def found_def [symmetric] option.case]
    show ?thesis
    proof (cases "found \<noteq> [] \<and> limit \<le> length acc + length found")
      case True
      with step False 2(6) show ?thesis by (auto simp: Suc_le_eq)
    next
      case small: False
      with False step have *: "grep_loop matcher path_glob limit ws (acc @ found) (Suc n) = (ms, k, capped)"
        by (simp only: if_False if_True de_Morgan_conj not_not simp_thms split: if_splits)
      have "length (acc @ found) < max 1 limit" using small 2(6) by (cases found) auto
      with 2(4) [OF _ _ tx found_def] False small * show ?thesis by fastforce
    qed
  qed
qed auto

end
