(* ===== verification/Ui_Surface.thy ===== *)
theory Ui_Surface
  imports Json Graph_Model
begin

text \<open>
  The wall between an agent's surface and the screen: the closed catalog of components (\<open>ui/catalog.py\<close>)
  and the validator that checks every component of a surface against it (\<open>ui/validator.py\<close>). A component is the
  JSON object the agent wrote; a rejection keeps the component's id, the field and the invariant it broke.
\<close>

section \<open>The catalog\<close>

record prop_spec =
  ps_kind :: string
  ps_values :: "string list"

record component_spec =
  cs_type :: string
  cs_props :: "(string \<times> prop_spec) list"
  cs_source :: string

definition kind :: "string \<Rightarrow> prop_spec" where
  "kind k = \<lparr>ps_kind = k, ps_values = []\<rparr>"

definition choice :: "string list \<Rightarrow> prop_spec" where
  "choice vs = \<lparr>ps_kind = ''enum'', ps_values = vs\<rparr>"

definition tone_spec :: prop_spec where
  "tone_spec = choice [''neutral'', ''good'', ''warn'', ''bad'']"

definition basic :: "string \<Rightarrow> (string \<times> prop_spec) list \<Rightarrow> string \<times> component_spec" where
  "basic t ps = (t, \<lparr>cs_type = t, cs_props = ps, cs_source = ''a2ui-basic''\<rparr>)"

definition extension :: "string \<Rightarrow> (string \<times> prop_spec) list \<Rightarrow> string \<times> component_spec" where
  "extension t ps = (t, \<lparr>cs_type = t, cs_props = ps, cs_source = ''custom''\<rparr>)"

definition catalog :: "(string \<times> component_spec) list" where
  "catalog =
    [basic ''Row'' [(''children'', kind ''ref''), (''align'', choice [''start'', ''center'', ''end'',
       ''stretch'', ''baseline'']), (''justify'', choice [''start'', ''center'', ''end'', ''spaceBetween'',
       ''spaceAround''])],
     basic ''Column'' [(''children'', kind ''ref'')],
     basic ''List'' [(''children'', kind ''ref'')],
     basic ''Card'' [(''title'', kind ''text''), (''children'', kind ''ref'')],
     basic ''Divider'' [],
     basic ''Text'' [(''text'', kind ''binding''), (''variant'', choice [''heading'', ''subtitle'', ''body'',
       ''caption''])],
     basic ''Image'' [(''src'', kind ''text''), (''alt'', kind ''text'')],
     basic ''TextField'' [(''label'', kind ''text''), (''value'', kind ''binding''), (''placeholder'', kind
       ''text'')],
     basic ''CheckBox'' [(''label'', kind ''text''), (''checked'', kind ''binding'')],
     basic ''Slider'' [(''label'', kind ''text''), (''value'', kind ''binding''), (''min'', kind ''number''),
       (''max'', kind ''number'')],
     basic ''InputChoice'' [(''label'', kind ''text''), (''options'', kind ''binding''), (''value'', kind
       ''binding'')],
     basic ''DateTime'' [(''label'', kind ''text''), (''value'', kind ''binding'')],
     basic ''Button'' [(''label'', kind ''text''), (''onPress'', kind ''action'')],
     basic ''Tabs'' [(''labels'', kind ''text''), (''children'', kind ''ref'')],
     basic ''Modal'' [(''title'', kind ''text''), (''children'', kind ''ref''), (''open'', kind ''binding'')],
     extension ''BarChart'' [(''title'', kind ''text''), (''data'', kind ''binding''), (''xKey'', kind
       ''text''), (''yKey'', kind ''text'')],
     extension ''Sparkline'' [(''data'', kind ''binding''), (''tone'', tone_spec)],
     extension ''StatTile'' [(''label'', kind ''text''), (''value'', kind ''binding''), (''unit'', kind
       ''text''), (''delta'', kind ''binding''), (''tone'', tone_spec)],
     extension ''ProgressBar'' [(''value'', kind ''binding''), (''max'', kind ''number''), (''tone'',
       tone_spec)],
     extension ''Timeline'' [(''title'', kind ''text''), (''events'', kind ''binding'')],
     extension ''DataTable'' [(''columns'', kind ''text''), (''rows'', kind ''binding''), (''sortable'', kind
       ''bool''), (''filterKey'', kind ''text'')],
     extension ''Notice'' [(''text'', kind ''binding''), (''tone'', tone_spec)],
     extension ''ApprovalCard'' [(''summary'', kind ''binding''), (''params'', kind ''binding''), (''confirm'',
       kind ''action''), (''reject'', kind ''action'')]]"

definition registered_actions :: "string list" where
  "registered_actions = [''approve'', ''reject'', ''rerun'', ''request_data'']"

text \<open>\<open>catalog_manifest\<close>: the catalog as JSON, for the client and for the composer's prompt.\<close>

definition prop_json :: "prop_spec \<Rightarrow> json" where
  "prop_json p = JObj ((''kind'', JStr (ps_kind p)) #
     (if ps_values p = [] then [] else [(''values'', JList (map JStr (ps_values p)))]))"

definition catalog_manifest :: obj where
  "catalog_manifest =
     [(''components'', JObj (map (\<lambda>(t, c). (t, JObj [(''source'', JStr (cs_source c)),
         (''props'', JObj (map (\<lambda>(n, p). (n, prop_json p)) (cs_props c)))])) catalog)),
      (''actions'', JList (map JStr (sort registered_actions)))]"

section \<open>What a value may not look like\<close>

definition is_alpha :: "char \<Rightarrow> bool" where
  "is_alpha c = (let n = of_char (lower_char c) :: nat in 97 \<le> n \<and> n \<le> 122)"

text \<open>\<open><[a-z!/][^>]*>\<close> anywhere, in any case; the pattern's other branch is an instance of this one.\<close>

fun has_markup :: "string \<Rightarrow> bool" where
  "has_markup (a # b # s) =
     (a = CHR ''<'' \<and> (is_alpha b \<or> b = CHR ''!'' \<or> b = CHR ''/'') \<and> CHR ''>'' \<in> set s \<or> has_markup (b # s))"
| "has_markup s = False"

definition looks_like_markup :: "json \<Rightarrow> bool" where
  "looks_like_markup v = (case v of JStr s \<Rightarrow> has_markup s | _ \<Rightarrow> False)"

definition looks_like_js_url :: "json \<Rightarrow> bool" where
  "looks_like_js_url v = (case v of
      JStr s \<Rightarrow> list_ex (startswith (lower (lstrip s))) [''javascript:'', ''data:'', ''vbscript:'']
    | _ \<Rightarrow> False)"

text \<open>\<open>^/[^\s]*$\<close>: the dollar also matches before one newline at the end.\<close>

definition pointer_ok :: "string \<Rightarrow> bool" where
  "pointer_ok s =
     (case s of
        [] \<Rightarrow> False
      | c # r \<Rightarrow> c = CHR ''/'' \<and>
          (list_all (\<lambda>x. \<not> is_space x) r \<or>
           (r \<noteq> [] \<and> last r = CHR 0x0A \<and> list_all (\<lambda>x. \<not> is_space x) (butlast r))))"

section \<open>The validator\<close>

record rejection =
  rj_component :: json
  rj_field :: string
  rj_invariant :: string

definition hashable :: "json \<Rightarrow> bool" where
  "hashable v = (\<not> is_list v \<and> \<not> is_dict v)"

text \<open>
  One property of a component: the invariant it breaks, if any. A lookup of a list or dict in a set or
  dict raises, and so does matching a pointer that is not a text.
\<close>

definition check_value_of :: "prop_spec \<Rightarrow> json \<Rightarrow> string option result" where
  "check_value_of p v =
     (if ps_kind p \<in> {''text'', ''binding''} \<and> looks_like_markup v then Inr (Some ''data-not-code'')
      else if looks_like_js_url v then Inr (Some ''data-not-code'')
      else if ps_kind p = ''binding'' then
        (case v of
           JObj d \<Rightarrow> (case dget d ''$bind'' of
               None \<Rightarrow> Inr (Some ''data-not-code'')
             | Some (JStr s) \<Rightarrow> Inr (if pointer_ok s then None else Some ''data-not-code'')
             | Some _ \<Rightarrow> Inl TypeError)
         | _ \<Rightarrow> Inr (Some ''data-not-code''))
      else if ps_kind p = ''enum'' \<and> v \<notin> JStr ` set (ps_values p) then Inr (Some ''data-not-code'')
      else if ps_kind p = ''action'' then
        (let name = (case v of JObj d \<Rightarrow> dget_or d ''action'' JNull | _ \<Rightarrow> JNull) in
         if \<not> hashable name then Inl TypeError
         else Inr (if name \<in> JStr ` set registered_actions then None else Some ''event''))
      else Inr None)"

definition check_field :: "component_spec \<Rightarrow> string \<Rightarrow> json \<Rightarrow> string option result" where
  "check_field spec name v =
     (if name \<in> {''id'', ''type'', ''children''} then Inr None
      else case dget (cs_props spec) name of
          None \<Rightarrow> Inr (Some ''data-not-code'')
        | Some p \<Rightarrow> check_value_of p v)"

fun check_fields :: "component_spec \<Rightarrow> json \<Rightarrow> obj \<Rightarrow> rejection option result" where
  "check_fields spec cid [] = Inr None"
| "check_fields spec cid ((k, v) # kvs) =
     bind_r (check_field spec k v) (\<lambda>broken. case broken of
         Some i \<Rightarrow> Inr (Some \<lparr>rj_component = cid, rj_field = k, rj_invariant = i\<rparr>)
       | None \<Rightarrow> check_fields spec cid kvs)"

definition check_component :: "obj \<Rightarrow> rejection option result" where
  "check_component entry =
     (let cid = dget_or entry ''id'' (JStr ''<no id>''); ctype = dget_or entry ''type'' JNull in
      if \<not> hashable ctype then Inl TypeError
      else case (case ctype of JStr t \<Rightarrow> dget catalog t | _ \<Rightarrow> None) of
          None \<Rightarrow> Inr (Some \<lparr>rj_component = cid, rj_field = ''type'', rj_invariant = ''catalog''\<rparr>)
        | Some spec \<Rightarrow> check_fields spec cid entry)"

definition check_next :: "json \<Rightarrow> obj list \<times> rejection list \<Rightarrow> (obj list \<times> rejection list) result" where
  "check_next c acc =
     (case c of
        JObj entry \<Rightarrow> bind_r (check_component entry) (\<lambda>rj. case rj of
            None \<Rightarrow> Inr (fst acc @ [entry], snd acc)
          | Some r \<Rightarrow> Inr (fst acc, snd acc @ [r]))
      | _ \<Rightarrow> Inl AttributeError)"

definition validate_surface :: "obj \<Rightarrow> (obj list \<times> rejection list) result" where
  "validate_surface surface =
     (case dget_or surface ''components'' (JList []) of
        JList cs \<Rightarrow> fold_r check_next cs ([], [])
      | JStr s \<Rightarrow> if s = [] then Inr ([], []) else Inl AttributeError
      | JObj d \<Rightarrow> if d = [] then Inr ([], []) else Inl AttributeError
      | _ \<Rightarrow> Inl TypeError)"

section \<open>The surfaces of the harness\<close>

text \<open>
  The surfaces the harness itself builds (\<open>ui/surface.py\<close>): a live view of a run from the graph's snapshot,
  and the approval card of a parked action. Structure and data travel apart: a component carries
  pointers, the data model the values.
\<close>

definition bind_to :: "string \<Rightarrow> json" where
  "bind_to key = JObj [(''$bind'', JStr (CHR ''/'' # key))]"

definition tone_for_state :: "string \<Rightarrow> string" where
  "tone_for_state s = dget_or [(''succeeded'', ''good''), (''running'', ''neutral''), (''pending'', ''neutral''),
     (''failed'', ''bad''), (''cancelled'', ''warn''), (''waiting'', ''warn'')] s ''neutral''"

definition indexed :: "string \<Rightarrow> nat \<Rightarrow> string" where
  "indexed p i = p @ digits i"

section \<open>The answer\<close>

definition answers :: "string \<times> gnode \<Rightarrow> bool" where
  "answers = (\<lambda>(nid, n). n_state n = Succeeded \<and>
     (contains ''answer'' nid \<or> n_skill n \<in> {''answer'', ''answerer''}))"

definition answer_text :: "obj \<Rightarrow> string option" where
  "answer_text r = (case List.map_filter (\<lambda>k. case dget r k of Some (JStr s) \<Rightarrow> Some s | _ \<Rightarrow> None)
      [''text'', ''answer'', ''output''] of [] \<Rightarrow> None | s # ss \<Rightarrow> Some s)"

definition node_result :: "gnode \<Rightarrow> obj" where
  "node_result n = (case n_result n of None \<Rightarrow> [] | Some r \<Rightarrow> r)"

definition find_answer :: "(string \<times> gnode) list \<Rightarrow> string option" where
  "find_answer nodes =
     (case List.map_filter (\<lambda>n. answer_text (node_result (snd n))) (filter answers nodes) of
        [] \<Rightarrow> None | s # ss \<Rightarrow> Some s)"

section \<open>The view of a run\<close>

text \<open>The three components of a node, and its two values.\<close>

definition node_components :: "nat \<Rightarrow> gnode \<Rightarrow> obj list" where
  "node_components i n =
     [[(''id'', JStr (indexed ''row_'' i)), (''type'', JStr ''Row''), (''align'', JStr ''center''),
       (''justify'', JStr ''spaceBetween''),
       (''children'', JList [JStr (indexed ''name_'' i), JStr (indexed ''state_'' i)])],
      [(''id'', JStr (indexed ''name_'' i)), (''type'', JStr ''Text''), (''variant'', JStr ''body''),
       (''text'', bind_to (indexed ''node_'' i @ ''_name''))],
      [(''id'', JStr (indexed ''state_'' i)), (''type'', JStr ''StatTile''), (''label'', JStr ''state''),
       (''value'', bind_to (indexed ''node_'' i @ ''_state'')),
       (''tone'', JStr (tone_for_state (state_str (n_state n))))]]"

definition node_values :: "nat \<Rightarrow> string \<times> gnode \<Rightarrow> obj" where
  "node_values i nn =
     [(indexed ''node_'' i @ ''_name'', JStr (fst nn @ ''  '' @ [CHR 0xB7] @ ''  '' @ n_skill (snd nn))),
      (indexed ''node_'' i @ ''_state'', JStr (state_str (n_state (snd nn))))]"

definition failed_ids :: "(string \<times> gnode) list \<Rightarrow> string list" where
  "failed_ids nodes = map fst (filter (\<lambda>(nid, n). n_state n = Failed) nodes)"

definition notice_text :: "string list \<Rightarrow> string" where
  "notice_text failed = digits (length failed) @ '' task(s) failed: '' @ join '', '' (sort failed) @
     ''. No result was invented.''"

definition run_components :: "snapshot \<Rightarrow> obj list" where
  "run_components s =
     (let nodes = enumerate 0 (sort_key fst (sn_nodes s));
          answer = find_answer (sn_nodes s);
          failed = failed_ids (sn_nodes s);
          children = [''h_title''] @ map (\<lambda>(i, n). indexed ''row_'' i) nodes @
            (if answer = None then [] else [''answer'']) @ (if failed = [] then [] else [''notice''])
      in [(''id'', JStr ''root''), (''type'', JStr ''Column''), (''children'', JList (map JStr children))] #
         [(''id'', JStr ''h_title''), (''type'', JStr ''Text''), (''variant'', JStr ''heading''),
          (''text'', bind_to ''title'')] #
         concat (map (\<lambda>(i, n). node_components i (snd n)) nodes) @
         (if answer = None then []
          else [[(''id'', JStr ''answer''), (''type'', JStr ''Text''), (''text'', bind_to ''answer'')]]) @
         (if failed = [] then []
          else [[(''id'', JStr ''notice''), (''type'', JStr ''Notice''), (''text'', bind_to ''notice''),
                 (''tone'', JStr ''bad'')]]))"

definition run_data :: "snapshot \<Rightarrow> obj" where
  "run_data s =
     (let nodes = enumerate 0 (sort_key fst (sn_nodes s));
          failed = failed_ids (sn_nodes s);
          d = [(''title'', JStr (''Run '' @ sn_run_id s)), (''rows'', JList []),
               (''answer'', JStr (case find_answer (sn_nodes s) of None \<Rightarrow> [] | Some a \<Rightarrow> a))] @
              concat (map (\<lambda>(i, n). node_values i n) nodes)
      in d @ (if failed = [] then [] else [(''notice'', JStr (notice_text failed))]))"

definition build_run_surface :: "snapshot \<Rightarrow> obj" where
  "build_run_surface s =
     [(''root'', JStr ''root''), (''components'', JList (map JObj (run_components s))), (''dataModel'', JObj (run_data s))]"

section \<open>The approval card\<close>

definition approval_components :: "string \<Rightarrow> string \<Rightarrow> obj list" where
  "approval_components run_id node_id =
     [[(''id'', JStr ''root''), (''type'', JStr ''Column''), (''children'', JList [JStr ''card''])],
      [(''id'', JStr ''card''), (''type'', JStr ''ApprovalCard''), (''summary'', bind_to ''summary''),
       (''params'', bind_to ''params''),
       (''confirm'', JObj [(''action'', JStr ''approve''), (''args'', bind_to ''params'')]),
       (''reject'', JObj [(''action'', JStr ''reject''),
          (''args'', JObj [(''run_id'', JStr run_id), (''node_id'', JStr node_id)])])]]"

definition build_approval_surface :: "string \<Rightarrow> string \<Rightarrow> string \<Rightarrow> obj \<Rightarrow> obj" where
  "build_approval_surface run_id node_id summary params =
     [(''root'', JStr ''root''), (''components'', JList (map JObj (approval_components run_id node_id))),
      (''dataModel'', JObj [(''summary'', JStr summary), (''params'', JObj params)])]"

end
