(* ===== verification/Ui_Claims.thy ===== *)
theory Ui_Claims
  imports Ui_Surface
begin

text \<open>
  What the surface layer promises: the wall lets through exactly the components the catalog allows, and the
  harness's own surfaces pass it whole and show nothing unbound.
\<close>

section \<open>The wall\<close>

text \<open>
  What the catalog allows, stated without the validator's order of checks: a known type, only declared
  properties, no script address, literal texts without markup, values bound by pointer, listed choices,
  registered actions.
\<close>

fun harmless :: "prop_spec \<Rightarrow> json \<Rightarrow> bool" where
  "harmless p v =
     (\<not> looks_like_js_url v \<and>
      (ps_kind p = ''text'' \<longrightarrow> \<not> looks_like_markup v) \<and>
      (ps_kind p = ''binding'' \<longrightarrow> (\<exists>d s. v = JObj d \<and> dget d ''$bind'' = Some (JStr s) \<and> pointer_ok s)) \<and>
      (ps_kind p = ''enum'' \<longrightarrow> (\<exists>a \<in> set (ps_values p). v = JStr a)) \<and>
      (ps_kind p = ''action'' \<longrightarrow> (\<exists>d a. v = JObj d \<and> dget d ''action'' = Some (JStr a) \<and> a \<in> set registered_actions)))"

declare harmless.simps [simp del]

definition allowed_field :: "component_spec \<Rightarrow> string \<times> json \<Rightarrow> bool" where
  "allowed_field spec kv = (fst kv \<in> {''id'', ''type'', ''children''} \<or>
     (\<exists>p. dget (cs_props spec) (fst kv) = Some p \<and> harmless p (snd kv)))"

definition renderable :: "obj \<Rightarrow> bool" where
  "renderable c = (\<exists>t spec. dget c ''type'' = Some (JStr t) \<and> dget catalog t = Some spec \<and> list_all (allowed_field spec) c)"

lemma markup_is_text: "looks_like_markup v \<or> looks_like_js_url v \<Longrightarrow> \<exists>s. v = JStr s"
  by (cases v) (auto simp: looks_like_markup_def looks_like_js_url_def)

lemma check_value_of_harmless:
  assumes "check_value_of p v = Inr b"
  shows "b = None \<longleftrightarrow> harmless p v"
proof (cases "ps_kind p \<in> {''text'', ''binding''} \<and> looks_like_markup v \<or> looks_like_js_url v")
  case True
  then have "b \<noteq> None" using assms by (auto simp: check_value_of_def split: if_splits)
  moreover have "\<not> harmless p v" using True markup_is_text by (fastforce simp: harmless.simps)
  ultimately show ?thesis by simp
next
  case False
  note rest = assms [unfolded check_value_of_def]
  show ?thesis
  proof (cases "ps_kind p = ''binding''")
    case True
    with False rest show ?thesis
      by (cases v) (auto simp: harmless.simps split: option.splits json.splits if_splits)
  next
    case nb: False
    show ?thesis
    proof (cases "ps_kind p = ''action''")
      case True
      with False nb rest show ?thesis
        by (cases v) (auto simp: harmless.simps Let_def dget_or_def hashable_def split: option.splits if_splits)
    next
      case na: False
      with False nb rest show ?thesis by (auto simp: harmless.simps image_iff split: if_splits)
    qed
  qed
qed

lemma check_fields_allowed:
  "check_fields spec cid kvs = Inr r \<Longrightarrow> (r = None \<longleftrightarrow> list_all (allowed_field spec) kvs) \<and> (\<forall>x. r = Some x \<longrightarrow> rj_component x = cid)"
proof (induction spec cid kvs rule: check_fields.induct)
  case (2 spec cid k v kvs)
  then obtain b where b: "check_field spec k v = Inr b" by (auto simp: bind_r_Inr)
  have "b = None \<longleftrightarrow> allowed_field spec (k, v)"
    using b check_value_of_harmless
    by (auto simp: check_field_def allowed_field_def split: option.splits if_splits)
  with 2 b show ?case by (cases b) auto
qed simp

lemma check_component_renderable:
  assumes "check_component c = Inr r"
  shows "(r = None \<longleftrightarrow> renderable c) \<and> (\<forall>x. r = Some x \<longrightarrow> rj_component x = dget_or c ''id'' (JStr ''<no id>''))"
proof (cases "\<exists>t spec. dget c ''type'' = Some (JStr t) \<and> dget catalog t = Some spec")
  case True
  then obtain t spec where ts: "dget c ''type'' = Some (JStr t)" "dget catalog t = Some spec" by blast
  then have "check_fields spec (dget_or c ''id'' (JStr ''<no id>'')) c = Inr r"
    using assms by (simp add: check_component_def dget_or_def hashable_def Let_def)
  with ts show ?thesis using check_fields_allowed by (auto simp: renderable_def)
next
  case False
  then have "\<not> renderable c" by (auto simp: renderable_def)
  moreover have "r = Some \<lparr>rj_component = dget_or c ''id'' (JStr ''<no id>''), rj_field = ''type'', rj_invariant = ''catalog''\<rparr>"
    using assms False
    by (cases "dget c ''type''") (auto simp: check_component_def dget_or_def hashable_def Let_def split: json.splits option.splits if_splits)
  ultimately show ?thesis by simp
qed

definition rejects :: "obj \<Rightarrow> rejection \<Rightarrow> bool" where
  "rejects c r = (rj_component r = dget_or c ''id'' (JStr ''<no id>''))"

text \<open>Over a list of components: what is accepted, and one rejection for each of the others, in order.\<close>

lemma check_next_fold:
  assumes "fold_r check_next cs acc = Inr (a, r)"
  shows "\<exists>os rs. cs = map JObj os \<and> a = fst acc @ filter renderable os \<and> r = snd acc @ rs \<and>
    list_all2 rejects (filter (\<lambda>c. \<not> renderable c) os) rs"
  using assms
proof (induction cs arbitrary: acc)
  case Nil
  then show ?case by simp
next
  case (Cons c cs)
  from Cons.prems obtain acc1 where step: "check_next c acc = Inr acc1" and rest: "fold_r check_next cs acc1 = Inr (a, r)"
    by (auto simp: bind_r_Inr)
  from step obtain d x where d: "c = JObj d" and x: "check_component d = Inr x"
    by (cases c) (auto simp: check_next_def bind_r_Inr)
  from Cons.IH [OF rest] obtain os rs where IH: "cs = map JObj os" "a = fst acc1 @ filter renderable os" "r = snd acc1 @ rs"
    "list_all2 rejects (filter (\<lambda>c. \<not> renderable c) os) rs" by blast
  show ?case
  proof (cases x)
    case None
    with step d x IH check_component_renderable [OF x] show ?thesis
      by (intro exI [of _ "d # os"] exI [of _ rs]) (auto simp: check_next_def)
  next
    case (Some y)
    with step d x IH check_component_renderable [OF x] show ?thesis
      by (intro exI [of _ "d # os"] exI [of _ "y # rs"]) (auto simp: check_next_def rejects_def [of d y])
  qed
qed

text \<open>C21: The wall is a filter. Where it answers, the accepted components are exactly the proposed ones the
  catalog allows, in their order: a known type, only declared properties, no script address, no markup in
  literal text, data only by pointer, choices from the list, registered actions only; and every other
  component has one rejection, under its own id, in order.\<close>

theorem wall_is_a_filter:
  assumes "validate_surface surface = Inr (accepted, rejections)"
    and "dget surface ''components'' = Some (JList cs)"
  shows "\<exists>os. cs = map JObj os \<and> accepted = filter renderable os \<and>
    list_all2 rejects (filter (\<lambda>c. \<not> renderable c) os) rejections"
  using assms check_next_fold [of cs "([], [])" accepted rejections]
  by (auto simp: validate_surface_def dget_or_def)

definition hostile_components :: "json list" where
  "hostile_components =
     [JObj [(''id'', JStr ''a''), (''type'', JStr ''Text''), (''text'', bind_to ''title'')],
      JObj [(''id'', JStr ''b''), (''type'', JStr ''Button''), (''onclick'', JStr ''steal()'')],
      JObj [(''id'', JStr ''c''), (''type'', JStr ''RawHtml'')],
      JObj [(''id'', JStr ''d''), (''type'', JStr ''Card''), (''title'', JStr ''<img src=x>'')]]"

definition hostile_surface :: obj where
  "hostile_surface = [(''root'', JStr ''a''), (''components'', JList hostile_components)]"

definition hostile_rejections :: "rejection list" where
  "hostile_rejections =
     [\<lparr>rj_component = JStr ''b'', rj_field = ''onclick'', rj_invariant = ''data-not-code''\<rparr>,
      \<lparr>rj_component = JStr ''c'', rj_field = ''type'', rj_invariant = ''catalog''\<rparr>,
      \<lparr>rj_component = JStr ''d'', rj_field = ''title'', rj_invariant = ''data-not-code''\<rparr>]"

theorem wall_is_a_filter_witness:
  "\<exists>os. hostile_components = map JObj os \<and>
     [[(''id'', JStr ''a''), (''type'', JStr ''Text''), (''text'', bind_to ''title'')]] = filter renderable os \<and>
     list_all2 rejects (filter (\<lambda>c. \<not> renderable c) os) hostile_rejections"
proof (rule wall_is_a_filter)
  show "validate_surface hostile_surface =
      Inr ([[(''id'', JStr ''a''), (''type'', JStr ''Text''), (''text'', bind_to ''title'')]], hostile_rejections)"
    by code_simp
  show "dget hostile_surface ''components'' = Some (JList hostile_components)"
    by (simp add: hostile_surface_def)
qed

text \<open>
  Gaps in the wall, for the record: a number or a bool is not checked to be one, and a text that is a list is
  not looked into, so markup passes in both; and a binding that is not a text stops the whole surface.
\<close>

lemma markup_passes_outside_text:
  "check_component [(''id'', JStr ''p''), (''type'', JStr ''ProgressBar''), (''max'', JStr ''<img src=x onerror=steal()>'')] = Inr None \<and>
   check_component [(''id'', JStr ''t''), (''type'', JStr ''Tabs''), (''labels'', JList [JStr ''<img src=x onerror=steal()>''])] = Inr None"
  by code_simp

lemma one_component_stops_the_surface:
  "validate_surface [(''components'', JList [JObj [(''id'', JStr ''a''), (''type'', JStr ''Divider'')],
      JObj [(''id'', JStr ''b''), (''type'', JStr ''Text''), (''text'', JObj [(''$bind'', JInt 5)])]])] = Inl TypeError"
  by code_simp

section \<open>The harness's own surfaces\<close>

text \<open>The pointers a component binds and the ids it names as children.\<close>

definition pointers_of :: "obj \<Rightarrow> string list" where
  "pointers_of c = List.map_filter (\<lambda>(k, v). case v of
     JObj d \<Rightarrow> (case dget d ''$bind'' of Some (JStr s) \<Rightarrow> Some s | _ \<Rightarrow> None) | _ \<Rightarrow> None) c"

definition children_of :: "obj \<Rightarrow> json list" where
  "children_of c = (case dget c ''children'' of Some (JList xs) \<Rightarrow> xs | _ \<Rightarrow> [])"

definition whole :: "obj list \<Rightarrow> obj \<Rightarrow> obj \<Rightarrow> bool" where
  "whole cs data c =
     (list_all (\<lambda>p. p \<in> (#) CHR ''/'' ` set (dkeys data)) (pointers_of c) \<and>
      list_all (\<lambda>i. \<exists>c' \<in> set cs. dget c' ''id'' = Some i) (children_of c))"

lemma fold_accepts:
  "\<forall>c \<in> set os. check_component c = Inr None \<Longrightarrow> fold_r check_next (map JObj os) (a, r) = Inr (a @ os, r)"
  by (induction os arbitrary: a) (simp_all add: check_next_def)

lemma digits_digit: "c \<in> set (digits n) \<Longrightarrow> \<exists>k < 10. c = char_of (48 + k :: nat)"
proof (induction n rule: digits.induct)
  case (1 n)
  show ?case
  proof (cases "n < 10")
    case True
    with 1(2) show ?thesis by (auto simp: digits.simps [of n])
  next
    case False
    with 1(2) consider "c \<in> set (digits (n div 10))" | "c = char_of (48 + n mod 10)"
      by (auto simp: digits.simps [of n])
    then show ?thesis
      by cases (use 1(1) False in \<open>auto intro: exI [of _ "n mod 10"]\<close>)
  qed
qed

lemma digits_no_space: "list_all (\<lambda>c. \<not> is_space c) (digits n)"
proof -
  have "\<not> is_space c" if c: "c \<in> set (digits n)" for c
  proof -
    from digits_digit [OF c] obtain k :: nat where k: "k < 10" "c = char_of (48 + k)" by blast
    from k(1) have "(48 + k) mod 256 = 48 + k" by simp
    then have "of_char c = 48 + k" by (simp only: k(2) of_char_of)
    with k(1) show ?thesis by (simp add: is_space_def)
  qed
  then show ?thesis by (simp add: list_all_iff)
qed

lemma tone_is_listed: "tone_for_state s \<in> {''neutral'', ''good'', ''warn'', ''bad''}"
  by (simp add: tone_for_state_def dget_or_def)


lemma pointer_ok_indexed:
  "list_all (\<lambda>c. \<not> is_space c) p \<Longrightarrow> list_all (\<lambda>c. \<not> is_space c) q \<Longrightarrow> pointer_ok (CHR ''/'' # indexed p i @ q)"
  by (simp add: pointer_ok_def indexed_def digits_no_space)

text \<open>The three components of a node pass the wall, whatever the node's name, skill or state.\<close>

lemma catalog_entries:
  "dget catalog ''Row'' = Some \<lparr>cs_type = ''Row'', cs_props = [(''children'', kind ''ref''),
     (''align'', choice [''start'', ''center'', ''end'', ''stretch'', ''baseline'']),
     (''justify'', choice [''start'', ''center'', ''end'', ''spaceBetween'', ''spaceAround''])], cs_source = ''a2ui-basic''\<rparr>"
  "dget catalog ''Text'' = Some \<lparr>cs_type = ''Text'', cs_props = [(''text'', kind ''binding''),
     (''variant'', choice [''heading'', ''subtitle'', ''body'', ''caption''])], cs_source = ''a2ui-basic''\<rparr>"
  "dget catalog ''StatTile'' = Some \<lparr>cs_type = ''StatTile'', cs_props = [(''label'', kind ''text''), (''value'', kind ''binding''),
     (''unit'', kind ''text''), (''delta'', kind ''binding''), (''tone'', tone_spec)], cs_source = ''custom''\<rparr>"
  by (simp_all add: catalog_def basic_def extension_def)

lemma bind_to_is_no_text: "looks_like_js_url (bind_to k) = False" "looks_like_markup (bind_to k) = False"
  by (simp_all add: looks_like_js_url_def looks_like_markup_def bind_to_def)

lemma tone_passes: "check_value_of tone_spec (JStr (tone_for_state s)) = Inr None"
proof -
  have "\<forall>t \<in> {''neutral'', ''good'', ''warn'', ''bad''}. check_value_of tone_spec (JStr t) = Inr None"
    by code_simp
  with tone_is_listed [of s] show ?thesis by blast
qed

lemma binding_passes: "pointer_ok (CHR ''/'' # k) \<Longrightarrow> check_value_of (kind ''binding'') (bind_to k) = Inr None"
  by (simp add: check_value_of_def kind_def bind_to_is_no_text, simp add: bind_to_def)

lemma fixed_passes:
  "check_value_of (choice [''start'', ''center'', ''end'', ''stretch'', ''baseline'']) (JStr ''center'') = Inr None"
  "check_value_of (choice [''start'', ''center'', ''end'', ''spaceBetween'', ''spaceAround'']) (JStr ''spaceBetween'') = Inr None"
  "check_value_of (choice [''heading'', ''subtitle'', ''body'', ''caption'']) (JStr ''body'') = Inr None"
  "check_value_of (kind ''text'') (JStr ''state'') = Inr None"
  by code_simp+

lemma node_components_pass: "c \<in> set (node_components i n) \<Longrightarrow> check_component c = Inr None"
proof -
  have p: "pointer_ok (CHR ''/'' # indexed ''node_'' i @ ''_name'')" "pointer_ok (CHR ''/'' # indexed ''node_'' i @ ''_state'')"
    by (rule pointer_ok_indexed; simp add: is_space_def)+
  note passes = binding_passes [OF p(1)] binding_passes [OF p(2)] tone_passes
  assume "c \<in> set (node_components i n)"
  then show ?thesis
    by (auto simp: node_components_def check_component_def dget_or_def hashable_def catalog_entries check_field_def passes
        fixed_passes Let_def)
qed


lemma fixed_components_pass:
  "check_component [(''id'', JStr ''root''), (''type'', JStr ''Column''), (''children'', xs)] = Inr None"
  "check_component [(''id'', JStr ''h_title''), (''type'', JStr ''Text''), (''variant'', JStr ''heading''),
     (''text'', bind_to ''title'')] = Inr None"
  "check_component [(''id'', JStr ''answer''), (''type'', JStr ''Text''), (''text'', bind_to ''answer'')] = Inr None"
  "check_component [(''id'', JStr ''notice''), (''type'', JStr ''Notice''), (''text'', bind_to ''notice''),
     (''tone'', JStr ''bad'')] = Inr None"
  by (simp add: check_component_def dget_or_def hashable_def catalog_def basic_def check_field_def) code_simp+

lemma mem_concat: "(i, n) \<in> set xs \<Longrightarrow> set (f i n) \<subseteq> set (concat (map (\<lambda>(i, n). f i n) xs))"
  by force

lemma set_five_cases:
  assumes "x \<in> set (a # b # xs @ (if p then [] else [y]) @ (if q then [] else [z]))"
  obtains "x = a" | "x = b" | "x \<in> set xs" | "\<not> p" "x = y" | "\<not> q" "x = z"
  using assms by (auto split: if_splits)

lemma middle: "set xs \<subseteq> set (a # b # xs @ ys)" "set xs \<subseteq> set (as @ xs @ ys)"
  by auto

lemma run_components_cases:
  assumes "c \<in> set (run_components s)"
  obtains (base) xs where "c = [(''id'', JStr ''root''), (''type'', JStr ''Column''), (''children'', JList xs)]"
      "\<And>x. x \<in> set xs \<Longrightarrow> \<exists>c' \<in> set (run_components s). dget c' ''id'' = Some x"
  | (title) "c = [(''id'', JStr ''h_title''), (''type'', JStr ''Text''), (''variant'', JStr ''heading''), (''text'', bind_to ''title'')]"
  | (node) i n where "c \<in> set (node_components i (snd n))" "set (node_components i (snd n)) \<subseteq> set (run_components s)"
      "set (dkeys (node_values i n)) \<subseteq> set (dkeys (run_data s))"
  | (answer) "c = [(''id'', JStr ''answer''), (''type'', JStr ''Text''), (''text'', bind_to ''answer'')]"
  | (notice) "c = [(''id'', JStr ''notice''), (''type'', JStr ''Notice''), (''text'', bind_to ''notice''), (''tone'', JStr ''bad'')]"
      "''notice'' \<in> set (dkeys (run_data s))"
proof -
  define nodes where "nodes = enumerate 0 (sort_key fst (sn_nodes s))"
  have rows: "\<exists>c' \<in> set (node_components i n). dget c' ''id'' = Some (JStr (indexed ''row_'' i))" for i n
    by (simp add: node_components_def)
  note parts = run_components_def [of s, folded nodes_def, unfolded Let_def]
  show thesis
  proof (cases "\<exists>i n. (i, n) \<in> set nodes \<and> c \<in> set (node_components i (snd n))")
    case True
    then obtain i n where inn: "(i, n) \<in> set nodes" "c \<in> set (node_components i (snd n))" by blast
    have "set (node_components i (snd n)) \<subseteq> set (run_components s)"
      unfolding parts
      by (rule order_trans [OF mem_concat [OF inn(1), of "\<lambda>i n. node_components i (snd n)"] middle(1)])
    moreover have "set (node_values i n) \<subseteq> set (run_data s)"
      unfolding run_data_def nodes_def [symmetric] Let_def append_assoc
      by (rule order_trans [OF mem_concat [OF inn(1), of node_values] middle(2)])
    ultimately show thesis using node [of i n] inn(2) by (simp add: image_mono)
  next
    case False
    show thesis
    proof (cases "c = hd (run_components s)")
      case True
      show thesis
      proof (rule base)
        show "c = [(''id'', JStr ''root''), (''type'', JStr ''Column''), (''children'', JList (map JStr ([''h_title''] @
            map (\<lambda>(i, n). indexed ''row_'' i) nodes @ (if find_answer (sn_nodes s) = None then [] else [''answer'']) @
            (if failed_ids (sn_nodes s) = [] then [] else [''notice'']))))]"
          using True by (simp add: parts)
        show "\<exists>c' \<in> set (run_components s). dget c' ''id'' = Some x"
          if "x \<in> set (map JStr ([''h_title''] @
            map (\<lambda>(i, n). indexed ''row_'' i) nodes @ (if find_answer (sn_nodes s) = None then [] else [''answer'']) @
            (if failed_ids (sn_nodes s) = [] then [] else [''notice''])))" for x
        proof -
          from that consider "x = JStr ''h_title''" | i n where "(i, n) \<in> set nodes" "x = JStr (indexed ''row_'' i)"
            | "find_answer (sn_nodes s) \<noteq> None" "x = JStr ''answer''" | "failed_ids (sn_nodes s) \<noteq> []" "x = JStr ''notice''"
            by (auto split: if_splits)
          then show ?thesis
          proof cases
            case (2 i n)
            have "set (node_components i (snd n)) \<subseteq> set (run_components s)"
              unfolding parts
              by (rule order_trans [OF mem_concat [OF 2(1), of "\<lambda>i n. node_components i (snd n)"] middle(1)])
            with rows [where i = i and n = "snd n"] 2(2) show ?thesis by blast
          qed (auto simp: parts)
        qed
      qed
    next
      case nothead: False
      have "c \<notin> set (concat (map (\<lambda>(i, n). node_components i (snd n)) nodes))"
        using False by (auto simp: case_prod_beta)
      with assms [unfolded parts] nothead [unfolded parts list.sel] show thesis
      proof (cases rule: set_five_cases)
        case 5
        then have "''notice'' \<in> set (dkeys (run_data s))" by (simp add: run_data_def Let_def)
        with 5(2) notice show thesis by blast
      qed (use title answer in blast)+
    qed
  qed
qed

lemma cons_image: "c # k \<in> (#) c ` A \<longleftrightarrow> k \<in> A"
  by auto

text \<open>The surface the harness builds of a run passes its own wall whole, whatever the nodes are named and
  whatever they returned: every component is accepted and none rejected; every pointer a component binds is
  a key of the data model, and every child a component names is a component.\<close>

lemma run_surface_is_whole:
  "validate_surface (build_run_surface s) = Inr (run_components s, []) \<and>
   list_all (whole (run_components s) (run_data s)) (run_components s)"
proof
  have "check_component c = Inr None" if "c \<in> set (run_components s)" for c
    using that by (cases rule: run_components_cases) (auto simp: fixed_components_pass dest: node_components_pass)
  then show "validate_surface (build_run_surface s) = Inr (run_components s, [])"
    using fold_accepts [of "run_components s" "[]" "[]"]
    by (simp add: validate_surface_def build_run_surface_def dget_or_def)
  have "whole (run_components s) (run_data s) c" if "c \<in> set (run_components s)" for c
    using that
  proof (cases rule: run_components_cases)
    case (base xs)
    then show ?thesis by (simp add: whole_def pointers_of_def children_of_def List.map_filter_def list_all_iff)
  next
    case title
    then show ?thesis
      by (simp add: whole_def pointers_of_def children_of_def List.map_filter_def bind_to_def run_data_def Let_def)
  next
    case (node i n)
    have kids: "\<exists>c' \<in> set (run_components s). dget c' ''id'' = Some x"
      if "x \<in> {JStr (indexed ''name_'' i), JStr (indexed ''state_'' i)}" for x
      using node(2) that by (force simp: node_components_def)
    obtain K where K: "K = fst ` set (run_data s)" by blast
    have "indexed ''node_'' i @ ''_name'' \<in> K" "indexed ''node_'' i @ ''_state'' \<in> K"
      using node(3) by (auto simp: node_values_def K)
    note keys = this
    have ids: "\<exists>c' \<in> set (run_components s). dget c' ''id'' = Some (JStr (indexed ''name_'' i))"
      "\<exists>c' \<in> set (run_components s). dget c' ''id'' = Some (JStr (indexed ''state_'' i))" using kids by blast+
    from node(1) consider
        (r) "c = [(''id'', JStr (indexed ''row_'' i)), (''type'', JStr ''Row''), (''align'', JStr ''center''),
          (''justify'', JStr ''spaceBetween''), (''children'', JList [JStr (indexed ''name_'' i), JStr (indexed ''state_'' i)])]"
      | (n) "c = node_components i (snd n) ! 1" | (s) "c = node_components i (snd n) ! 2"
      by (auto simp: node_components_def)
    then show ?thesis
      by cases (use keys ids in \<open>simp_all add: node_components_def whole_def pointers_of_def children_of_def
          List.map_filter_def bind_to_def cons_image K [symmetric]\<close>)
  next
    case answer
    then show ?thesis
      by (simp add: whole_def pointers_of_def children_of_def List.map_filter_def bind_to_def run_data_def Let_def)
  next
    case notice
    then show ?thesis by (simp add: whole_def pointers_of_def children_of_def List.map_filter_def bind_to_def)
  qed
  then show "list_all (whole (run_components s) (run_data s)) (run_components s)" by (simp add: list_all_iff)
qed

end
