(* ===== verification/Ui_Approval.thy ===== *)
theory Ui_Approval
  imports Ui_Surface Graph_Store
begin

text \<open>
  Human approval (\<open>ui/hitl.py\<close> and the \<open>/v1/action\<close> route of \<open>ui/routes.py\<close>): the arguments the client sends are
  compared with the parameters the node was parked with, and only a match completes the wait.
\<close>

record pending_action =
  pa_run_id :: string
  pa_node_id :: string
  pa_summary :: string
  pa_params :: obj

text \<open>
  \<open>_canonical\<close>: dicts become tuples of pairs sorted by key, lists become tuples; a tuple is a \<open>JList\<close>.
  The keys of a dict differ, so sorting the pairs never compares two values.
\<close>

fun canonical :: "json \<Rightarrow> json"
  and canonicals :: "json list \<Rightarrow> json list"
  and canonical_obj :: "obj \<Rightarrow> (string \<times> json) list" where
  "canonical (JList xs) = JList (canonicals xs)"
| "canonical (JObj d) = JList (map (\<lambda>(k, v). JList [JStr k, v]) (sort_key fst (canonical_obj d)))"
| "canonical v = v"
| "canonicals [] = []"
| "canonicals (x # xs) = canonical x # canonicals xs"
| "canonical_obj [] = []"
| "canonical_obj ((k, v) # d) = (k, canonical v) # canonical_obj d"

definition decide_resume :: "pending_action \<Rightarrow> string \<Rightarrow> obj \<Rightarrow> bool" where
  "decide_resume pending name args =
     (if name = ''reject'' then True
      else if name \<noteq> ''approve'' then False
      else py_eq (canonical (JObj args)) (canonical (JObj (pa_params pending))))"

text \<open>
  The route: the parameters are those of the durable node, never the client's; a node that is not
  waiting is a conflict. The answer says whether the wait was completed (or the callback was a duplicate);
  resuming the run afterwards is the executor's part. \<close>

definition bound_params :: "obj \<Rightarrow> obj" where
  "bound_params wait = (case dget wait ''params'' of Some (JObj d) \<Rightarrow> d | _ \<Rightarrow> [])"

definition take_action ::
  "(json \<Rightarrow> string) \<Rightarrow> (string \<Rightarrow> string) \<Rightarrow> graph_store \<Rightarrow> string \<Rightarrow> string \<Rightarrow> string \<Rightarrow> obj \<Rightarrow> bool result \<times> graph_store" where
  "take_action str_of path_of st run_id node_id name args =
     (case snapshot_run path_of st run_id of
        Inl e \<Rightarrow> (Inl (if e = KeyError \<or> e = TypeError then HTTPException 404 else e), st)
      | Inr s \<Rightarrow>
        (case dget (sn_nodes s) node_id of
          None \<Rightarrow> (Inl (HTTPException 404), st)
        | Some n \<Rightarrow>
          (case n_wait n of
            None \<Rightarrow> (Inl (HTTPException 409), st)
          | Some wait \<Rightarrow>
              if n_state n \<noteq> Waiting then (Inl (HTTPException 409), st)
              else if \<not> decide_resume \<lparr>pa_run_id = run_id, pa_node_id = node_id,
                  pa_summary = printed str_of (dget_or wait ''question'' (JStr [])), pa_params = bound_params wait\<rparr> name args
              then (Inl (HTTPException 409), st)
              else (case (dget wait ''handle'', dget wait ''event_type'') of
                  (Some h, Some e) \<Rightarrow>
                    (let (r, st') = complete_waiting path_of st (printed str_of h) (printed str_of e)
                           [(''action'', JStr name), (''args'', JObj args)] (name = ''approve'')
                     in (bind_r r (\<lambda>m. Inr (m \<noteq> None)), st'))
                | _ \<Rightarrow> (Inl KeyError, st)))))"

text \<open>
  The worker behind \<open>request_approval\<close> (\<open>workers/general.py\<close>): it parks the node on a digest of run and
  task. \<open>sha\<close> is the first half of SHA-256's hex digest.
\<close>

definition request_approval :: "(string \<Rightarrow> string) \<Rightarrow> string \<Rightarrow> task_spec \<Rightarrow> deferred result" where
  "request_approval sha run_id task =
     (case dget (ts_input task) ''question'' of
        None \<Rightarrow> Inl KeyError
      | Some q \<Rightarrow> Inr \<lparr>d_handle = sha (run_id @ '':'' @ ts_id task @ '':approval''), d_event_type = ''approval.received'',
          d_metadata = [(''question'', q), (''choices'', dget_or (ts_input task) ''choices'' (JList []))]\<rparr>)"

section \<open>What an approval is bound to\<close>

text \<open>Values in which canonical forms cannot meet by accident: no list anywhere and no empty dict inside.\<close>

fun list_free :: "json \<Rightarrow> bool"
  and list_free_obj :: "obj \<Rightarrow> bool" where
  "list_free (JList xs) = False"
| "list_free (JObj d) = list_free_obj d"
| "list_free v = True"
| "list_free_obj [] = True"
| "list_free_obj ((k, v) # d) = (list_free v \<and> list_free_obj d)"

lemma canonical_lists [simp]:
  "canonicals xs = map canonical xs" "canonical_obj d = map (\<lambda>(k, v). (k, canonical v)) d"
proof -
  show "canonicals xs = map canonical xs" by (induction xs) simp_all
  show "canonical_obj d = map (\<lambda>(k, v). (k, canonical v)) d" by (induction d) auto
qed

lemma list_free_obj_iff: "list_free_obj d \<longleftrightarrow> (\<forall>(k, v) \<in> set d. list_free v)"
  by (induction d) auto

lemma wf_obj_iff: "wf_obj d \<longleftrightarrow> (\<forall>(k, v) \<in> set d. wf_json v)"
  by (induction d) auto

lemma py_sub_iff: "py_sub d e \<longleftrightarrow> (\<forall>(k, v) \<in> set d. \<exists>w. dget e k = Some w \<and> py_eq v w)"
  by (induction d) (auto split: option.splits)

lemma py_eqs_iff: "py_eqs xs ys \<longleftrightarrow> list_all2 py_eq xs ys"
  by (induction xs arbitrary: ys) (auto split: list.split)

lemma sort_key_map_values:
  "sort_key fst (map (\<lambda>(k, v). (k, f v)) d) = map (\<lambda>(k, v). (k, f v)) (sort_key fst (d :: ('k :: linorder \<times> 'v) list))"
proof -
  have insort: "insort_key fst (k, f v) (map (\<lambda>(k, v). (k, f v)) xs) = map (\<lambda>(k, v). (k, f v)) (insort_key fst (k, v) xs)"
    for k :: 'k and v :: 'v and xs by (induction xs) auto
  show ?thesis by (induction d) (auto simp: insort)
qed

text \<open>Two dicts with the same entries up to a relation on values line up once sorted by key.\<close>

lemma sorted_dicts_line_up:
  fixes d e :: "(string \<times> 'v) list"
  assumes "distinct (dkeys d)" and "distinct (dkeys e)"
  shows "list_all2 (\<lambda>(k, v) (l, w). k = l \<and> r v w) (sort_key fst d) (sort_key fst e) \<longleftrightarrow>
    length d = length e \<and> (\<forall>(k, v) \<in> set d. \<exists>w. dget e k = Some w \<and> r v w)" (is "?l \<longleftrightarrow> ?r")
proof
  assume l: ?l
  have "\<exists>w. dget e k = Some w \<and> r v w" if "(k, v) \<in> set d" for k v
  proof -
    from that obtain i where i: "i < length (sort_key fst d)" "sort_key fst d ! i = (k, v)"
      by (metis in_set_conv_nth set_sort)
    with l obtain w where "sort_key fst e ! i = (k, w)" "r v w" "i < length (sort_key fst e)"
      by (cases "sort_key fst e ! i") (force simp: list_all2_conv_all_nth)
    then have "(k, w) \<in> set e" by (metis nth_mem set_sort)
    with assms(2) \<open>r v w\<close> show ?thesis by auto
  qed
  with l show ?r by (auto dest: list_all2_lengthD)
next
  assume r: ?r
  then have sub: "set (dkeys d) \<subseteq> set (dkeys e)" by (force dest: dget_Some_key)
  have "card (set (dkeys d)) = card (set (dkeys e))"
    using assms r by (metis distinct_card length_map)
  then have same: "set (dkeys d) = set (dkeys e)" using sub by (simp add: card_subset_eq)
  have keys: "dkeys (sort_key fst d) = dkeys (sort_key fst e)"
    by (rule sorted_distinct_set_unique) (use assms same in \<open>auto simp: distinct_map\<close>)
  show ?l
  proof (rule list_all2_all_nthI)
    fix i assume i: "i < length (sort_key fst d)"
    obtain k v where kv: "sort_key fst d ! i = (k, v)" by (cases "sort_key fst d ! i")
    obtain l w where lw: "sort_key fst e ! i = (l, w)" by (cases "sort_key fst e ! i")
    have len: "length (sort_key fst d) = length (sort_key fst e)" using r by simp
    have "k = l" using keys i kv lw len by (metis fst_conv nth_map)
    moreover have "(k, v) \<in> set d" "(l, w) \<in> set e" using i kv lw len by (metis nth_mem set_sort)+
    ultimately show "(case sort_key fst d ! i of (k, v) \<Rightarrow> \<lambda>(l, w). k = l \<and> r v w) (sort_key fst e ! i)"
      using r assms(2) kv lw by fastforce
  qed (use r in simp)
qed

text \<open>On list-free values the canonical forms are equal exactly where the values are.\<close>

lemma canonical_exact:
  assumes "list_free v" and "list_free w" and "wf_json v" and "wf_json w"
  shows "py_eq (canonical v) (canonical w) \<longleftrightarrow> py_eq v w"
  using assms
proof (induction v arbitrary: w)
  case (JObj d)
  show ?case
  proof (cases w)
    case w: (JObj e)
    have IH: "py_eq (canonical x) (canonical y) \<longleftrightarrow> py_eq x y" if "(k, x) \<in> set d" "(l, y) \<in> set e" for k l x y
      using JObj that w by (force simp: list_free_obj_iff wf_obj_iff)
    have "py_eq (canonical (JObj d)) (canonical w) \<longleftrightarrow>
        list_all2 (\<lambda>(k, x) (l, y). k = l \<and> py_eq (canonical x) (canonical y)) (sort_key fst d) (sort_key fst e)"
      by (auto simp: w py_eqs_iff sort_key_map_values list_all2_map1 list_all2_map2 case_prod_beta
          elim!: list_all2_mono)
    also have "\<dots> \<longleftrightarrow> length d = length e \<and>
        (\<forall>(k, x) \<in> set d. \<exists>y. dget e k = Some y \<and> py_eq (canonical x) (canonical y))"
      using JObj.prems w by (intro sorted_dicts_line_up) simp_all
    also have "\<dots> \<longleftrightarrow> length d = length e \<and> (\<forall>(k, x) \<in> set d. \<exists>y. dget e k = Some y \<and> py_eq x y)"
      using IH by (fastforce dest: map_of_SomeD)
    finally show ?thesis by (simp add: w py_sub_iff)
  qed (use JObj.prems in simp_all)
next
  case (JList xs)
  show ?case using JList.prems(1) by simp
next
  case JNull
  then show ?case by (cases w) simp_all
next
  case (JBool b)
  then show ?case by (cases w) simp_all
next
  case (JInt i)
  then show ?case by (cases w) simp_all
next
  case (JFloat q)
  then show ?case by (cases w) simp_all
next
  case (JStr s)
  then show ?case by (cases w) simp_all
qed

end
