(* ===== verification/Ui_Stream.thy ===== *)
theory Ui_Stream
  imports Graph_Model
begin

text \<open>
  The live stream of a run: journal events translated into AG-UI events (\<open>ui/agui.py\<close>), the reducer a client
  folds them with, and the server-sent-event loop with its snapshot on reconnect (\<open>ui/routes.py\<close>). An AG-UI
  event is the JSON object that is sent; keepalive comments carry no data and are left out.
\<close>

section \<open>Translation\<close>

definition agui_name :: "string \<Rightarrow> string" where
  "agui_name k = dget_or [(''run_started'', ''RUN_STARTED''), (''run_resumed'', ''CUSTOM''),
     (''graph_patched'', ''STATE_DELTA''), (''task_started'', ''STEP_STARTED''),
     (''task_succeeded'', ''STEP_FINISHED''), (''task_failed'', ''STEP_FINISHED''),
     (''task_cancelled'', ''CUSTOM'')] k ''CUSTOM''"

definition node_json :: "event \<Rightarrow> json" where
  "node_json e = (case ev_node e of None \<Rightarrow> JNull | Some n \<Rightarrow> JStr n)"

definition results_path :: "event \<Rightarrow> string" where
  "results_path e = ''/results/'' @ (case ev_node e of None \<Rightarrow> ''None'' | Some n \<Rightarrow> n)"

definition to_agui_event :: "event \<Rightarrow> obj" where
  "to_agui_event e =
     (let base = [(''type'', JStr (agui_name (ev_kind e))), (''seq'', JInt (int (ev_sequence e))),
                  (''source_kind'', JStr (ev_kind e))]
      in if ev_kind e = ''run_started'' then base
         else if ev_kind e = ''graph_patched'' then base @ [(''delta'', JObj [(''op'', JStr ''graph_patched''),
              (''reason'', dget_or (ev_payload e) ''reason'' (JStr [])),
              (''trigger'', dget_or (ev_payload e) ''trigger_event'' JNull)])]
         else if ev_kind e = ''task_started'' then base @ [(''stepName'', node_json e)]
         else if ev_kind e = ''task_succeeded'' then base @ [(''stepName'', node_json e),
              (''delta'', JObj [(''op'', JStr ''add''), (''path'', JStr (results_path e)), (''value'', JObj (ev_payload e))])]
         else if ev_kind e = ''task_failed'' then base @ [(''stepName'', node_json e),
              (''error'', dget_or (ev_payload e) ''error'' (JStr ''task failed''))]
         else if ev_kind e = ''task_cancelled'' then base @ [(''custom'', JStr ''step_cancelled''), (''stepName'', node_json e)]
         else if ev_kind e = ''run_resumed'' then base @ [(''custom'', JStr ''run_resumed'')]
         else base)"

section \<open>The reducer\<close>

record ui_state =
  us_results :: "(string \<times> json) list"
  us_patches :: "json list"

definition empty_state :: ui_state where
  "empty_state = \<lparr>us_results = [], us_patches = []\<rparr>"

definition fold_delta :: "obj \<Rightarrow> ui_state \<Rightarrow> ui_state" where
  "fold_delta d s =
     (let op = dget_or d ''op'' JNull in
      if op = JStr ''add'' \<and> (case dget_or d ''path'' JNull of JStr p \<Rightarrow> startswith p ''/results/'' | _ \<Rightarrow> False) then
        (case dget_or d ''path'' JNull of
           JStr p \<Rightarrow> s\<lparr>us_results := dput (drop (length ''/results/'') p) (dget_or d ''value'' JNull) (us_results s)\<rparr>
         | _ \<Rightarrow> s)
      else if op = JStr ''graph_patched'' then
        s\<lparr>us_patches := us_patches s @ [JObj [(''reason'', dget_or d ''reason'' (JStr [])),
                                               (''trigger'', dget_or d ''trigger'' JNull)]]\<rparr>
      else s)"

text \<open>A delta that is not a dict has no \<open>get\<close>.\<close>

definition apply_state_delta :: "obj \<Rightarrow> ui_state \<Rightarrow> ui_state result" where
  "apply_state_delta ev s =
     (let delta = dget_or ev ''delta'' JNull in
      if \<not> truthy delta then Inr s
      else case delta of JObj d \<Rightarrow> Inr (fold_delta d s) | _ \<Rightarrow> Inl AttributeError)"

definition replay_state :: "obj list \<Rightarrow> ui_state \<Rightarrow> ui_state result" where
  "replay_state evs s = fold_r apply_state_delta evs s"

definition state_json :: "ui_state \<Rightarrow> obj" where
  "state_json s = [(''results'', JObj (us_results s)), (''patches'', JList (us_patches s))]"

section \<open>Streams\<close>

definition run_finished :: "nat \<Rightarrow> obj" where
  "run_finished last_seq = [(''type'', JStr ''RUN_FINISHED''), (''seq'', JInt (int last_seq + 1)), (''source_kind'', JStr ''derived'')]"

text \<open>\<open>state_snapshot\<close> takes a data model, or a surface whose data model it takes.\<close>

definition state_snapshot :: "obj \<Rightarrow> int \<Rightarrow> obj" where
  "state_snapshot d seq =
     (let state = (case (dget d ''components'', dget d ''dataModel'') of (Some _, Some m) \<Rightarrow> m | _ \<Rightarrow> JObj d)
      in [(''type'', JStr ''STATE_SNAPSHOT''), (''seq'', JInt seq), (''source_kind'', JStr ''snapshot''), (''state'', state)])"

definition last_sequence :: "nat \<Rightarrow> event list \<Rightarrow> nat" where
  "last_sequence n es = (if es = [] then n else ev_sequence (last es))"

definition stream_agui :: "event list \<Rightarrow> bool \<Rightarrow> obj option \<Rightarrow> obj list" where
  "stream_agui es finished snap =
     (case snap of None \<Rightarrow> [] | Some d \<Rightarrow> [state_snapshot d 0]) @ map to_agui_event es @
     (if finished then [run_finished (last_sequence 0 es)] else [])"

definition run_data_model :: "event list \<Rightarrow> ui_state result" where
  "run_data_model es = replay_state (stream_agui es False None) empty_state"

text \<open>
  The loop behind \<open>/v1/runs/{id}/events\<close>: one entry of \<open>reads\<close> per pass, the run's finished flag and its journal then;
  the list ends where the client disconnects. The frame before the loop is the snapshot, stamped with the
  cursor the client sent.
\<close>

fun sse_loop :: "nat \<Rightarrow> (bool \<times> event list) list \<Rightarrow> obj list" where
  "sse_loop cursor [] = []"
| "sse_loop cursor ((finished, es) # reads) =
     (let fresh = filter (\<lambda>e. ev_sequence e > cursor) es; cursor' = last_sequence cursor fresh
      in map to_agui_event fresh @
         (if finished then [run_finished cursor'] else sse_loop cursor' reads))"

definition events_stream :: "bool \<Rightarrow> nat \<Rightarrow> event list \<Rightarrow> (bool \<times> event list) list \<Rightarrow> obj list result" where
  "events_stream reconnect after es reads =
     (if reconnect
      then bind_r (run_data_model es) (\<lambda>s. Inr (state_snapshot (state_json s) (int after) # sse_loop after reads))
      else Inr (sse_loop after reads))"

section \<open>What a stream folds to\<close>

text \<open>The results and patches a journal stands for.\<close>

definition result_puts :: "event list \<Rightarrow> (string \<times> json) list" where
  "result_puts es = map (\<lambda>e. (case ev_node e of None \<Rightarrow> ''None'' | Some n \<Rightarrow> n, JObj (ev_payload e)))
     (filter (\<lambda>e. ev_kind e = ''task_succeeded'') es)"

definition patch_log :: "event list \<Rightarrow> json list" where
  "patch_log es = map (\<lambda>e. JObj [(''reason'', dget_or (ev_payload e) ''reason'' (JStr [])),
       (''trigger'', dget_or (ev_payload e) ''trigger_event'' JNull)])
     (filter (\<lambda>e. ev_kind e = ''graph_patched'') es)"

definition puts :: "(string \<times> json) list \<Rightarrow> (string \<times> json) list \<Rightarrow> (string \<times> json) list" where
  "puts kvs d = fold (\<lambda>(k, v). dput k v) kvs d"

lemma result_puts_simps [simp]:
  "result_puts [] = []" "result_puts (es @ fs) = result_puts es @ result_puts fs"
  by (simp_all add: result_puts_def)

lemma patch_log_simps [simp]:
  "patch_log [] = []" "patch_log (es @ fs) = patch_log es @ patch_log fs"
  by (simp_all add: patch_log_def)

lemma puts_append [simp]: "puts (xs @ ys) d = puts ys (puts xs d)"
  by (simp add: puts_def)

lemma apply_translated:
  "apply_state_delta (to_agui_event e) s =
     Inr \<lparr>us_results = puts (result_puts [e]) (us_results s), us_patches = us_patches s @ patch_log [e]\<rparr>"
  by (simp add: apply_state_delta_def to_agui_event_def fold_delta_def Let_def puts_def result_puts_def
      patch_log_def dget_or_def results_path_def startswith_def)

lemma replay_append [simp]:
  "replay_state (xs @ ys) s = bind_r (replay_state xs s) (replay_state ys)"
  by (simp add: replay_state_def [abs_def])

lemma replay_translated:
  "replay_state (map to_agui_event es) s =
     Inr \<lparr>us_results = puts (result_puts es) (us_results s), us_patches = us_patches s @ patch_log es\<rparr>"
proof (induction es arbitrary: s)
  case Nil
  then show ?case by (simp add: replay_state_def puts_def)
next
  case (Cons e es)
  have "replay_state (map to_agui_event (e # es)) s =
      bind_r (apply_state_delta (to_agui_event e) s) (replay_state (map to_agui_event es))"
    by (simp add: replay_state_def [abs_def])
  also have "\<dots> = Inr \<lparr>us_results = puts (result_puts es) (puts (result_puts [e]) (us_results s)),
      us_patches = us_patches s @ patch_log [e] @ patch_log es\<rparr>"
    by (simp add: apply_translated Cons)
  finally show ?case
    using result_puts_simps(2) [of "[e]" es] patch_log_simps(2) [of "[e]" es] puts_append [of "result_puts [e]"] by simp
qed

lemma run_finished_is_neutral: "replay_state [run_finished n] s = Inr s"
  by (simp add: replay_state_def run_finished_def apply_state_delta_def dget_or_def)

text \<open>Putting the same entries again changes nothing, not even the order.\<close>

lemma alist_eqI: "dkeys d = dkeys e \<Longrightarrow> distinct (dkeys d) \<Longrightarrow> (\<And>k. dget d k = dget e k) \<Longrightarrow> d = e"
proof (induction d arbitrary: e)
  case (Cons kv d)
  obtain k v where kv: "kv = (k, v)" by (cases kv)
  with Cons.prems(1) obtain w e' where e: "e = (k, w) # e'" "dkeys d = dkeys e'"
    by (cases e) auto
  have "v = w" using Cons.prems(3) [of k] kv e by simp
  moreover have "dget d x = dget e' x" for x
    using Cons.prems(2) Cons.prems(3) [of x] kv e by (cases "x = k") (auto simp: dget_None_iff [THEN iffD2])
  ultimately show ?case using Cons.IH [of e'] Cons.prems(2) kv e by simp
qed simp

lemma dget_puts: "dget (puts kvs d) k = (case dget (rev kvs) k of Some v \<Rightarrow> Some v | None \<Rightarrow> dget d k)"
proof (induction kvs arbitrary: d)
  case (Cons kv kvs)
  then show ?case by (cases kv) (auto simp: puts_def map_add_def split: option.split)
qed (simp add: puts_def)

lemma dkeys_puts_old: "set (dkeys kvs) \<subseteq> set (dkeys d) \<Longrightarrow> dkeys (puts kvs d) = dkeys d"
proof (induction kvs arbitrary: d)
  case (Cons kv kvs)
  have "dkeys (dput (fst kv) (snd kv) d) = dkeys d"
    using Cons.prems by (simp add: update_keys)
  with Cons.IH [of "dput (fst kv) (snd kv) d"] Cons.prems show ?case
    by (simp add: puts_def case_prod_beta)
qed (simp add: puts_def)

lemma dkeys_puts: "set (dkeys kvs) \<subseteq> set (dkeys (puts kvs d))"
proof
  fix k assume "k \<in> set (dkeys kvs)"
  then have "dget (rev kvs) k \<noteq> None" by (simp add: dget_None_iff)
  then have "dget (puts kvs d) k \<noteq> None" by (auto simp: dget_puts)
  then show "k \<in> set (dkeys (puts kvs d))" by (simp add: dget_None_iff)
qed

lemma distinct_puts: "distinct (dkeys d) \<Longrightarrow> distinct (dkeys (puts kvs d))"
  by (induction kvs arbitrary: d) (auto simp: puts_def distinct_update)

lemma puts_again:
  assumes "distinct (dkeys d)"
  shows "puts kvs (puts kvs d) = puts kvs d"
proof (rule alist_eqI)
  show "dkeys (puts kvs (puts kvs d)) = dkeys (puts kvs d)" by (rule dkeys_puts_old) (rule dkeys_puts)
  show "distinct (dkeys (puts kvs (puts kvs d)))" by (intro distinct_puts assms)
  show "dget (puts kvs (puts kvs d)) k = dget (puts kvs d) k" for k
    by (simp add: dget_puts split: option.split)
qed

end
