(* ===== verification/Ui_Live_Claims.thy ===== *)
theory Ui_Live_Claims
  imports Ui_Approval Ui_Stream Graph_Promises
begin

text \<open>
  What the live surface promises: an action reaches a parked node only on the parameters the node was
  parked with, and a reconnecting client is whole again from its snapshot and the frames after it.
\<close>

section \<open>Actions\<close>

lemma disk_after_error:
  "complete_waiting path st h t r b = (Inl e, st') \<Longrightarrow> gs_disk st' = gs_disk st"
  by (erule complete_waiting_cases) auto

lemma decide_approve:
  "decide_resume p name args \<Longrightarrow>
   name = ''reject'' \<or> name = ''approve'' \<and> py_eq (canonical (JObj args)) (canonical (JObj (pa_params p)))"
  by (simp add: decide_resume_def split: if_splits)

text \<open>C23: An action through the route is bound to the parked node. Where it is refused, no run on disk has
  changed. Where it is carried out, the node it names was waiting, and it either rejects, or approves with
  arguments whose canonical form is that of the parameters the node was parked with; on values without
  lists that means the same parameters, key by key and value by value.\<close>

theorem action_is_bound_to_parked_parameters:
  "case take_action str_of path st rid nid name args of
     (Inl e, st') \<Rightarrow> gs_disk st' = gs_disk st
   | (Inr resumed, st') \<Rightarrow>
       \<exists>s n wait. snapshot_run path st rid = Inr s \<and> dget (sn_nodes s) nid = Some n \<and> n_state n = Waiting \<and>
         n_wait n = Some wait \<and>
         (name = ''reject'' \<or>
          name = ''approve'' \<and> py_eq (canonical (JObj args)) (canonical (JObj (bound_params wait))) \<and>
          (list_free (JObj args) \<and> list_free (JObj (bound_params wait)) \<and>
           wf_json (JObj args) \<and> wf_json (JObj (bound_params wait)) \<longrightarrow>
             py_eq (JObj args) (JObj (bound_params wait))))"
proof (cases "snapshot_run path st rid")
  case (Inl e)
  then show ?thesis by (simp add: take_action_def)
next
  case s: (Inr s)
  show ?thesis
  proof (cases "dget (sn_nodes s) nid")
    case None
    with s show ?thesis by (simp add: take_action_def)
  next
    case n: (Some n)
    show ?thesis
    proof (cases "n_wait n")
      case None
      with s n show ?thesis by (simp add: take_action_def)
    next
      case w: (Some wait)
      define p where "p = \<lparr>pa_run_id = rid, pa_node_id = nid,
        pa_summary = printed str_of (dget_or wait ''question'' (JStr [])), pa_params = bound_params wait\<rparr>"
      show ?thesis
      proof (cases "n_state n = Waiting \<and> decide_resume p name args")
        case False
        with s n w show ?thesis by (auto simp: take_action_def p_def [symmetric])
      next
        case True
        then have d: "name = ''reject'' \<or> name = ''approve'' \<and> py_eq (canonical (JObj args)) (canonical (JObj (bound_params wait)))"
          using decide_approve [of p name args] by (simp add: p_def)
        show ?thesis
        proof (cases "\<exists>h e. dget wait ''handle'' = Some h \<and> dget wait ''event_type'' = Some e")
          case False
          with s n w True show ?thesis by (auto simp: take_action_def p_def [symmetric] split: option.splits)
        next
          case he: True
          then obtain h e where he: "dget wait ''handle'' = Some h" "dget wait ''event_type'' = Some e" by blast
          obtain r st' where c: "complete_waiting path st (printed str_of h) (printed str_of e)
              [(''action'', JStr name), (''args'', JObj args)] (name = ''approve'') = (r, st')" by (meson surj_pair)
          have t: "take_action str_of path st rid nid name args = (bind_r r (\<lambda>m. Inr (m \<noteq> None)), st')"
            using s n w True he c by (simp add: take_action_def p_def [symmetric])
          show ?thesis
          proof (cases r)
            case (Inl x)
            with c disk_after_error t show ?thesis by auto
          next
            case (Inr x)
            then show ?thesis using t s n w True d canonical_exact [of "JObj args" "JObj (bound_params wait)"] by auto
          qed
        qed
      qed
    qed
  qed
qed

definition demo_asking :: graph_store where
  "demo_asking = snd (projr (record_waiting id demo_running ''r'' ''a''
     [(''handle'', JStr ''h''), (''event_type'', JStr ''push''), (''params'', JObj [(''amount'', JInt 5)])]))"

theorem action_is_bound_to_parked_parameters_witness:
  "fst (take_action (\<lambda>_. []) id demo_asking ''r'' ''a'' ''approve'' [(''amount'', JInt 5)]) = Inr True \<and>
   fst (take_action (\<lambda>_. []) id demo_asking ''r'' ''a'' ''approve'' [(''amount'', JInt 6)]) = Inl (HTTPException 409) \<and>
   gs_disk (snd (take_action (\<lambda>_. []) id demo_asking ''r'' ''a'' ''approve'' [(''amount'', JInt 6)])) = gs_disk demo_asking"
proof (intro conjI)
  show "fst (take_action (\<lambda>_. []) id demo_asking ''r'' ''a'' ''approve'' [(''amount'', JInt 5)]) = Inr True" by code_simp
  show r: "fst (take_action (\<lambda>_. []) id demo_asking ''r'' ''a'' ''approve'' [(''amount'', JInt 6)]) = Inl (HTTPException 409)"
    by code_simp
  show "gs_disk (snd (take_action (\<lambda>_. []) id demo_asking ''r'' ''a'' ''approve'' [(''amount'', JInt 6)])) = gs_disk demo_asking"
    using action_is_bound_to_parked_parameters [where str_of = "\<lambda>_. []" and path = id and st = demo_asking
      and rid = "''r''" and nid = "''a''" and name = "''approve''" and args = "[(''amount'', JInt 6)]"] r
    by (cases "take_action (\<lambda>_. []) id demo_asking ''r'' ''a'' ''approve'' [(''amount'', JInt 6)]") simp
qed

text \<open>
  The canonical form tells neither an empty dict from an empty list, nor a dict from the list of its pairs,
  nor \<open>True\<close> from 1.
\<close>

lemma canonical_confuses:
  "decide_resume \<lparr>pa_run_id = ''r'', pa_node_id = ''a'', pa_summary = [],
     pa_params = [(''to'', JObj [(''b'', JInt 1)]), (''dry_run'', JBool True)]\<rparr> ''approve''
     [(''dry_run'', JInt 1), (''to'', JList [JList [JStr ''b'', JInt 1]])]"
  by code_simp

text \<open>An approval the agent asks for through \<open>request_approval\<close> is bound to nothing: the worker parks the
  question and the choices and no parameters, so the parameters the route compares with are the empty
  dict, and the one approval it accepts for any such node is the one with empty arguments.\<close>

lemma asked_approval_binds_no_parameters:
  assumes "request_approval sha rid task = Inr d"
  shows "bound_params (as_wait d) = [] \<and>
    (decide_resume \<lparr>pa_run_id = rid, pa_node_id = ts_id task, pa_summary = q, pa_params = bound_params (as_wait d)\<rparr>
       ''approve'' args \<longleftrightarrow> args = [])"
proof -
  have none: "dget (as_wait d) ''params'' = None"
    using assms by (auto simp: request_approval_def as_wait_def dmerge_def split: option.splits)
  then have "bound_params (as_wait d) = []" by (simp add: bound_params_def)
  moreover have "sort_key fst (map (\<lambda>(k, v). (k, canonical v)) args) = [] \<longleftrightarrow> args = []"
    by (metis length_0_conv length_map length_sort)
  ultimately show ?thesis by (simp add: decide_resume_def py_eqs_iff)
qed

lemma asked_approval_binds_no_parameters_witness:
  "\<exists>d. request_approval (\<lambda>s. s) ''r'' \<lparr>ts_id = ''ask'', ts_skill = ''request_approval'',
      ts_input = [(''question'', JStr ''Pay 500?'')], ts_metadata = []\<rparr> = Inr d \<and>
    bound_params (as_wait d) = [] \<and>
    (decide_resume \<lparr>pa_run_id = ''r'', pa_node_id = ''ask'', pa_summary = ''Pay 500?'', pa_params = bound_params (as_wait d)\<rparr>
       ''approve'' [] \<longleftrightarrow> True)"
  using asked_approval_binds_no_parameters [of "\<lambda>s. s" "''r''" "\<lparr>ts_id = ''ask'', ts_skill = ''request_approval'',
      ts_input = [(''question'', JStr ''Pay 500?'')], ts_metadata = []\<rparr>" _ "''Pay 500?''" "[]"]
  by (fastforce simp: request_approval_def)

section \<open>Streams\<close>

text \<open>A journal only grows from one read to the next; the stream ends at a read that is finished, or where the
  client leaves.\<close>

fun grows :: "event list \<Rightarrow> (bool \<times> event list) list \<Rightarrow> bool" where
  "grows es [] = True"
| "grows es ((finished, es') # reads) = (take (length es) es' = es \<and> grows es' reads)"

fun seen_journal :: "event list \<Rightarrow> (bool \<times> event list) list \<Rightarrow> event list" where
  "seen_journal es [] = es"
| "seen_journal es ((finished, es') # reads) = (if finished then es' else seen_journal es' reads)"

lemma grows_prefix: "grows es reads \<Longrightarrow> \<exists>rest. seen_journal es reads = es @ rest"
proof (induction es reads rule: grows.induct)
  case (2 es finished es' reads)
  then obtain x where x: "es' = es @ x" by (metis append_take_drop_id grows.simps(2))
  with 2 show ?case by fastforce
qed simp

definition later_than :: "nat \<Rightarrow> event list \<Rightarrow> event list" where
  "later_than c es = filter (\<lambda>e. ev_sequence e > c) es"

definition in_order :: "event list \<Rightarrow> bool" where
  "in_order es = sorted_wrt (<) (map ev_sequence es)"

lemma later_than_all:
  "c \<le> d \<Longrightarrow> \<forall>e \<in> set es. d < ev_sequence e \<Longrightarrow> later_than d es = later_than c es"
  by (induction es) (auto simp: later_than_def)

text \<open>The cursor after a read: nothing of the read is later, and what comes after it is.\<close>

lemma later_than_step:
  assumes "in_order (es @ rest)"
  shows "later_than c (es @ rest) = later_than c es @ later_than (last_sequence c (later_than c es)) (es @ rest)"
proof (cases "later_than c es = []")
  case True
  then show ?thesis by (simp add: later_than_def last_sequence_def)
next
  case False
  let ?l = "last (later_than c es)"
  have l: "?l \<in> set es" "ev_sequence ?l > c"
    using last_in_set [OF False] by (auto simp: later_than_def)
  have "ev_sequence e \<le> ev_sequence ?l" if "e \<in> set es" for e
  proof (cases "ev_sequence e > c")
    case True
    with that have "e \<in> set (later_than c es)" by (simp add: later_than_def)
    then obtain xs ys where xs: "later_than c es = xs @ e # ys" by (meson split_list)
    have "in_order (later_than c es)"
      using assms by (simp add: in_order_def later_than_def sorted_wrt_append sorted_wrt_map sorted_wrt_filter)
    then show ?thesis
      by (cases ys rule: rev_cases) (auto simp: xs in_order_def sorted_wrt_append)
  qed (use l(2) in simp)
  then have "later_than (ev_sequence ?l) es = []" by (auto simp: later_than_def filter_empty_conv not_less)
  moreover have "later_than (ev_sequence ?l) rest = later_than c rest"
    using assms l by (intro later_than_all) (auto simp: in_order_def sorted_wrt_append)
  moreover have "later_than c (es @ rest) = later_than c es @ later_than c rest"
    "later_than (ev_sequence ?l) (es @ rest) = later_than (ev_sequence ?l) es @ later_than (ev_sequence ?l) rest"
    by (simp_all add: later_than_def)
  ultimately show ?thesis using False by (simp add: last_sequence_def)
qed

lemma later_than_suffix: "in_order es \<Longrightarrow> filter (\<lambda>e. \<not> ev_sequence e > c) es @ later_than c es = es"
proof (induction es)
  case (Cons e es)
  show ?case
  proof (cases "ev_sequence e > c")
    case True
    with Cons.prems have "\<forall>x \<in> set es. ev_sequence x > c" by (auto simp: in_order_def)
    with True show ?thesis by (simp add: later_than_def filter_empty_conv filter_id_conv)
  next
    case False
    with Cons show ?thesis by (simp add: later_than_def in_order_def)
  qed
qed (simp add: later_than_def)

lemma sse_loop_frames:
  assumes "grows es reads" and "reads \<noteq> []" and "in_order (seen_journal es reads)"
  shows "replay_state (sse_loop c reads) s = replay_state (map to_agui_event (later_than c (seen_journal es reads))) s"
  using assms
proof (induction c reads arbitrary: es s rule: sse_loop.induct)
  case (2 cursor finished es' reads)
  let ?fresh = "later_than cursor es'" and ?c = "last_sequence cursor (later_than cursor es')"
  show ?case
  proof (cases "finished \<or> reads = []")
    case True
    then show ?thesis
      by (cases finished)
        (auto simp: Let_def later_than_def [symmetric] run_finished_is_neutral replay_translated)
  next
    case False
    then have f: "\<not> finished" "reads \<noteq> []" by auto
    obtain rest where m: "seen_journal es' reads = es' @ rest" using grows_prefix 2(2) by fastforce
    have "replay_state (sse_loop ?c reads) s' =
        replay_state (map to_agui_event (later_than ?c (seen_journal es' reads))) s'" for s'
      using 2(1) [OF _ refl f(1), of ?fresh es' s'] 2(2,4) f by (simp add: later_than_def)
    moreover have "later_than cursor (es' @ rest) = ?fresh @ later_than ?c (es' @ rest)"
      using 2(4) f m by (intro later_than_step) simp
    ultimately show ?thesis using f m by (simp add: Let_def later_than_def [symmetric] replay_translated)
  qed
qed simp

lemma model_of_journal:
  "run_data_model es = Inr \<lparr>us_results = puts (result_puts es) [], us_patches = patch_log es\<rparr>"
  by (simp add: run_data_model_def stream_agui_def empty_state_def replay_translated)

text \<open>C24: A client that reconnects adopts the snapshot and folds the frames after it. It then holds the
  results of the whole run, and the patches the snapshot covered followed by those after the cursor it sent.
  With the cursor of the last event the snapshot covers this is the run's data model; with the default
  cursor 0 every patch the snapshot covered is there twice.\<close>

theorem reconnect_is_whole_from_its_cursor:
  assumes "grows es reads" and "reads \<noteq> []" and "in_order (seen_journal es reads)"
    and "after \<le> last_sequence 0 es" and "\<forall>e \<in> set (seen_journal es reads). ev_sequence e > 0"
  shows "\<exists>s frames full. run_data_model es = Inr s \<and> run_data_model (seen_journal es reads) = Inr full \<and>
    events_stream True after es reads = Inr (state_snapshot (state_json s) (int after) # frames) \<and>
    replay_state frames s =
      Inr (full\<lparr>us_patches := patch_log es @ patch_log (later_than after (seen_journal es reads))\<rparr>) \<and>
    (after = last_sequence 0 es \<longrightarrow> replay_state frames s = Inr full) \<and>
    (after = 0 \<longrightarrow> patch_log (later_than after (seen_journal es reads)) = us_patches full)"
proof -
  obtain rest where m: "seen_journal es reads = es @ rest" using grows_prefix [OF assms(1)] by blast
  define s where "s = \<lparr>us_results = puts (result_puts es) [], us_patches = patch_log es\<rparr>"
  define full where "full = \<lparr>us_results = puts (result_puts (es @ rest)) [], us_patches = patch_log (es @ rest)\<rparr>"
  have ord: "in_order (es @ rest)" using assms(3) m by simp
  have above: "later_than after rest = rest"
  proof (cases es rule: rev_cases)
    case Nil
    with assms(4,5) m show ?thesis by (simp add: later_than_def last_sequence_def filter_id_conv)
  next
    case (snoc pre e)
    with assms(4) ord have "after \<le> ev_sequence e" "\<forall>x \<in> set rest. ev_sequence e < ev_sequence x"
      by (auto simp: last_sequence_def in_order_def sorted_wrt_append)
    then show ?thesis by (fastforce simp: later_than_def filter_id_conv)
  qed
  have split: "later_than after (es @ rest) = later_than after es @ rest"
    using above by (simp add: later_than_def)
  define pre where "pre = filter (\<lambda>e. \<not> ev_sequence e > after) es"
  have pre: "pre @ later_than after es = es"
    unfolding pre_def by (rule later_than_suffix) (use ord in \<open>simp add: in_order_def sorted_wrt_append\<close>)
  have "puts (result_puts es) [] = puts (result_puts (later_than after es)) (puts (result_puts pre) [])"
    using arg_cong [OF pre, of "\<lambda>es. puts (result_puts es) []"] by simp
  then have again: "puts (result_puts (later_than after es)) (puts (result_puts es) []) = puts (result_puts es) []"
    by (simp add: puts_again distinct_puts)
  have "replay_state (sse_loop after reads) s =
      Inr (full\<lparr>us_patches := patch_log es @ patch_log (later_than after (es @ rest))\<rparr>)"
    using sse_loop_frames [OF assms(1-3), of after s]
    by (simp add: m split replay_translated s_def full_def again)
  moreover have "later_than after es = []" if "after = last_sequence 0 es"
  proof (cases es rule: rev_cases)
    case (snoc xs e)
    with that ord show ?thesis
      by (auto simp: later_than_def last_sequence_def filter_empty_conv in_order_def sorted_wrt_append)
  qed (simp add: later_than_def)
  moreover have "later_than after (es @ rest) = es @ rest" if "after = 0"
    using that assms(5) m by (auto simp: later_than_def filter_id_conv)
  moreover have "run_data_model es = Inr s" "run_data_model (es @ rest) = Inr full"
    by (simp_all add: model_of_journal s_def full_def)
  ultimately show ?thesis
    by (auto simp: m events_stream_def split full_def)
qed

definition demo_journal :: "event list" where
  "demo_journal =
     [\<lparr>ev_sequence = 1, ev_kind = ''run_started'', ev_node = None, ev_payload = []\<rparr>,
      \<lparr>ev_sequence = 2, ev_kind = ''graph_patched'', ev_node = None, ev_payload = [(''reason'', JStr ''plan'')]\<rparr>,
      \<lparr>ev_sequence = 3, ev_kind = ''task_succeeded'', ev_node = Some ''a'', ev_payload = [(''text'', JStr ''ok'')]\<rparr>]"

theorem reconnect_is_whole_from_its_cursor_witness:
  "\<exists>s frames full. run_data_model (take 2 demo_journal) = Inr s \<and> run_data_model demo_journal = Inr full \<and>
    events_stream True 0 (take 2 demo_journal) [(False, take 2 demo_journal), (True, demo_journal)] =
      Inr (state_snapshot (state_json s) 0 # frames) \<and>
    length (us_patches full) = 1 \<and>
    replay_state frames s = Inr (full\<lparr>us_patches := us_patches full @ us_patches full\<rparr>)"
proof -
  let ?reads = "[(False, take 2 demo_journal), (True, demo_journal)]"
  have "grows (take 2 demo_journal) ?reads" "?reads \<noteq> []" "in_order (seen_journal (take 2 demo_journal) ?reads)"
    "0 \<le> last_sequence 0 (take 2 demo_journal)" "\<forall>e \<in> set (seen_journal (take 2 demo_journal) ?reads). ev_sequence e > 0"
    by (simp_all add: demo_journal_def in_order_def)
  from reconnect_is_whole_from_its_cursor [OF this] obtain s frames full where
    *: "run_data_model (take 2 demo_journal) = Inr s" "run_data_model demo_journal = Inr full"
    "events_stream True 0 (take 2 demo_journal) ?reads = Inr (state_snapshot (state_json s) 0 # frames)"
    "replay_state frames s = Inr (full\<lparr>us_patches := patch_log (take 2 demo_journal) @ us_patches full\<rparr>)"
    by (auto simp: demo_journal_def)
  have "us_patches full = patch_log (take 2 demo_journal)" "length (us_patches full) = 1"
    using *(2) by (auto simp: model_of_journal demo_journal_def patch_log_def)
  with * show ?thesis by auto
qed

end
