(* ===== verification/Memory_Chunks.thy ===== *)
theory Memory_Chunks
  imports Json
begin

text \<open>
  Cutting a document into topics (\<open>core/memory/chunking.py\<close>): the loop that takes a block of words, asks a
  segmenter where its second topic begins, and rolls that suffix over into the next block. Positions are
  offsets into the document. The segmenter, a language model or a heading rule, is an argument: what the
  n-th call on a block answers, or the error it raises.
\<close>

section \<open>Words\<close>

definition part :: "nat \<Rightarrow> nat \<Rightarrow> string \<Rightarrow> string" where
  "part i j s = take (j - i) (drop i s)"

text \<open>The spans of \<open>\S+\<close>; \<open>since\<close> is where the word being read began.\<close>

fun spans_from :: "nat \<Rightarrow> nat option \<Rightarrow> string \<Rightarrow> (nat \<times> nat) list" where
  "spans_from i None [] = []"
| "spans_from i (Some b) [] = [(b, i)]"
| "spans_from i since (c # cs) =
     (if is_space c
      then (case since of None \<Rightarrow> spans_from (i + 1) None cs | Some b \<Rightarrow> (b, i) # spans_from (i + 1) None cs)
      else spans_from (i + 1) (Some (case since of None \<Rightarrow> i | Some b \<Rightarrow> b)) cs)"

definition word_spans :: "string \<Rightarrow> (nat \<times> nat) list" where
  "word_spans s = spans_from 0 None s"

definition word_count :: "string \<Rightarrow> nat" where
  "word_count s = length (word_spans s)"

text \<open>The start of the next word at or after a position, the end of the text where there is none.\<close>

definition next_word :: "string \<Rightarrow> nat \<Rightarrow> nat" where
  "next_word s i = i + length (takeWhile is_space (drop i s))"

section \<open>Structure\<close>

definition is_newline :: "char \<Rightarrow> bool" where
  "is_newline c = (c = CHR 0x0A)"

definition line_rest :: "string \<Rightarrow> string" where
  "line_rest s = takeWhile (\<lambda>c. \<not> is_newline c) s"

text \<open>
  \<open>#{1,6}\s+.+$\<close> at the start of a text: the length of the white space the greedy \<open>\s+\<close> takes and
  the text of \<open>.+\<close>. The white space may run over line ends; if nothing follows it, its last part that is no
  line end is given back.
\<close>

definition given_back :: "string \<Rightarrow> nat option" where
  "given_back ws = find (\<lambda>k. \<not> is_newline (ws ! k)) (rev [1..<length ws])"

definition heading_match :: "string \<Rightarrow> (nat \<times> string) option" where
  "heading_match s =
     (let n = length (takeWhile (\<lambda>c. c = CHR ''#'') s); ws = takeWhile is_space (drop n s);
          body = drop (n + length ws) s
      in if n = 0 \<or> 6 < n \<or> ws = [] then None
         else if body \<noteq> [] then Some (n + length ws, line_rest body)
         else map_option (\<lambda>k. (n + k, line_rest (drop k ws))) (given_back ws))"

text \<open>\<open>(?m)^\<close>: at the start of the text and after a line end. \<open>finditer\<close> goes on after each match.\<close>

fun headings_from :: "nat \<Rightarrow> nat \<Rightarrow> bool \<Rightarrow> string \<Rightarrow> (nat \<times> string) list" where
  "headings_from i skip start [] = []"
| "headings_from i (Suc k) start (c # cs) = headings_from (i + 1) k (is_newline c) cs"
| "headings_from i 0 start (c # cs) =
     (case (if start then heading_match (c # cs) else None) of
        None \<Rightarrow> headings_from (i + 1) 0 (is_newline c) cs
      | Some (n, t) \<Rightarrow> (i, t) # headings_from (i + 1) (n + length t - 1) (is_newline c) cs)"

definition headings :: "string \<Rightarrow> (nat \<times> string) list" where
  "headings s = headings_from 0 0 True s"

definition line_starts :: "string \<Rightarrow> nat list" where
  "line_starts s = filter (\<lambda>i. i = 0 \<or> is_newline (s ! (i - 1))) [0..<length s]"

definition fence_mark :: string where
  "fence_mark = replicate 3 (CHR 0x60)"

definition fences :: "string \<Rightarrow> nat list" where
  "fences s = filter (\<lambda>i. startswith (drop i s) fence_mark) (line_starts s)"

text \<open>\<open>rfind\<close> of a line end in a range, plus one: 0 where there is none.\<close>

definition line_after :: "string \<Rightarrow> nat \<Rightarrow> nat \<Rightarrow> nat" where
  "line_after s i j = (case find (\<lambda>k. is_newline (s ! k)) (rev [i..<j]) of None \<Rightarrow> 0 | Some k \<Rightarrow> k + 1)"

definition is_row :: "string \<Rightarrow> bool" where
  "is_row t = startswith (lstrip t) ''|''"

lemma find_mem: "find P xs = Some x \<Longrightarrow> x \<in> set xs \<and> P x"
  by (auto simp: find_Some_iff)

lemma line_after_le: "line_after s i j \<le> j"
  by (auto simp: line_after_def split: option.split dest!: find_mem)

text \<open>Back over the rows of a table, while they are rows.\<close>

function table_top :: "string \<Rightarrow> nat \<Rightarrow> nat \<Rightarrow> nat" where
  "table_top s start t =
     (if t \<le> start then t
      else let previous = line_after s start (t - 1)
           in if is_row (part previous t s) then table_top s start previous else t)"
  by pat_completeness auto
termination
  by (relation "measure (\<lambda>(s, start, t). t)") (auto intro: le_less_trans [OF line_after_le])

declare table_top.simps [simp del]

definition structural_end :: "string \<Rightarrow> nat \<Rightarrow> nat \<Rightarrow> nat" where
  "structural_end s start stop =
     (let candidate = part start stop s; hs = headings candidate; fs = fences candidate;
          line_start = line_after s start stop; t = table_top s start line_start
      in if hs \<noteq> [] \<and> fst (last hs) > 0 then start + fst (last hs)
         else if odd (length fs) \<and> last fs > 0 then start + last fs
         else if is_row (part line_start stop s) \<and> t > start then t
         else stop)"

section \<open>One pass of the loop\<close>

datatype boundary =
    Below_floor
  | One_topic
  | Segmenter_failed
  | Suffix_rollover nat nat
  | Suffix_at_start
  | Not_a_suffix

record piece =
  pc_text :: string
  pc_words :: nat
  pc_outcome :: boundary
  pc_start :: nat
  pc_end :: nat

record chunking =
  ck_max_words :: nat
  ck_floor :: nat
  ck_segmenter :: "nat \<Rightarrow> string \<Rightarrow> string result"

text \<open>\<open>matches[max_words - 1].end()\<close>; index -1 is the last match.\<close>

definition nominal_end :: "chunking \<Rightarrow> string \<Rightarrow> nat \<Rightarrow> nat" where
  "nominal_end ck md p =
     (let ms = word_spans (drop p md) in
      if length ms \<le> ck_max_words ck then length md
      else p + snd (if ck_max_words ck = 0 then last ms else ms ! (ck_max_words ck - 1)))"

definition block_end :: "chunking \<Rightarrow> string \<Rightarrow> nat \<Rightarrow> nat" where
  "block_end ck md p =
     (let stop = nominal_end ck md p; e = structural_end md p stop in if e \<le> p then stop else e)"

text \<open>\<open>find\<close> and \<open>rfind\<close> of a text.\<close>

definition occurs_at :: "string \<Rightarrow> string \<Rightarrow> nat list" where
  "occurs_at sub s = filter (\<lambda>i. startswith (drop i s) sub) [0..<length s + 1]"

definition find_text :: "string \<Rightarrow> string \<Rightarrow> nat option" where
  "find_text sub s = (case occurs_at sub s of [] \<Rightarrow> None | i # is \<Rightarrow> Some i)"

definition rfind_text :: "string \<Rightarrow> string \<Rightarrow> nat option" where
  "rfind_text sub s = (if occurs_at sub s = [] then None else Some (last (occurs_at sub s)))"

text \<open>What the segmenter says of a block, and the outcome when no cut follows from it.\<close>

definition second_topic :: "chunking \<Rightarrow> nat \<Rightarrow> string \<Rightarrow> string \<times> boundary" where
  "second_topic ck n block =
     (if word_count block < ck_floor ck then ([], Below_floor)
      else case ck_segmenter ck n block of
          Inl e \<Rightarrow> ([], Segmenter_failed)
        | Inr t \<Rightarrow> (strip t, One_topic))"

definition suffix_cut :: "string \<Rightarrow> string \<Rightarrow> nat option" where
  "suffix_cut block second =
     (if second \<noteq> [] \<and> endswith (rstrip block) (rstrip second) then rfind_text (rstrip second) (rstrip block) else None)"

definition kept_outcome :: "string \<Rightarrow> string \<Rightarrow> boundary \<Rightarrow> boundary" where
  "kept_outcome block second outcome =
     (if second = [] then outcome
      else if endswith (rstrip block) (rstrip second) then Suffix_at_start else Not_a_suffix)"

text \<open>One pass: the pieces it adds and the position it goes on from.\<close>

definition chunk_pass :: "chunking \<Rightarrow> string \<Rightarrow> nat \<Rightarrow> nat \<Rightarrow> piece list \<times> nat" where
  "chunk_pass ck md n p =
     (let e = block_end ck md p; block = strip (part p e md);
          start = p + (case find_text block (part p e md) of None \<Rightarrow> 0 | Some i \<Rightarrow> i);
          (second, outcome) = second_topic ck n block; words = word_count block
      in case suffix_cut block second of
           Some (Suc k) \<Rightarrow>
             (let first = strip (take (Suc k) block)
              in ((if first = [] then [] else [\<lparr>pc_text = first, pc_words = words,
                     pc_outcome = Suffix_rollover (Suc k) (word_count second), pc_start = start, pc_end = start + Suc k\<rparr>]),
                  start + Suc k))
         | _ \<Rightarrow>
             ([\<lparr>pc_text = block, pc_words = words, pc_outcome = kept_outcome block second outcome,
                pc_start = start, pc_end = start + length block\<rparr>], next_word md e))"

section \<open>Progress\<close>

lemma spans_from_range:
  "(b, e) \<in> set (spans_from i since s) \<Longrightarrow> (\<And>b'. since = Some b' \<Longrightarrow> b' < i) \<Longrightarrow>
   (case since of None \<Rightarrow> i | Some b' \<Rightarrow> b') \<le> b \<and> b < e \<and> i \<le> e \<and> e \<le> i + length s"
proof (induction i since s rule: spans_from.induct)
  case (3 i since c cs)
  show ?case
  proof (cases "is_space c")
    case True
    with 3 show ?thesis by (cases since) (force split: if_splits)+
  next
    case False
    with 3(4) have m: "(b, e) \<in> set (spans_from (i + 1) (Some (case since of None \<Rightarrow> i | Some b \<Rightarrow> b)) cs)" by simp
    from 3(3) [OF False m] 3(5) show ?thesis by (cases since) (force split: if_splits)+
  qed
qed auto

lemma word_spans_range: "(b, e) \<in> set (word_spans s) \<Longrightarrow> b < e \<and> e \<le> length s"
  using spans_from_range [of b e 0 None s] by (simp add: word_spans_def)

lemma nominal_end_range:
  assumes "p < length md" and "word_spans (drop p md) \<noteq> []"
  shows "p < nominal_end ck md p \<and> nominal_end ck md p \<le> length md"
proof -
  define ms where "ms = word_spans (drop p md)"
  define m where "m = (if ck_max_words ck = 0 then last ms else ms ! (ck_max_words ck - 1))"
  have "0 < snd m \<and> snd m \<le> length md - p" if "ck_max_words ck < length ms"
  proof -
    have "m \<in> set ms" using that assms(2) by (auto simp: m_def ms_def intro: nth_mem)
    then show ?thesis using word_spans_range [of "fst m" "snd m" "drop p md"] by (simp add: ms_def)
  qed
  with assms(1) show ?thesis by (auto simp: nominal_end_def Let_def ms_def [symmetric] m_def [symmetric])
qed

lemma headings_from_range: "(j, t) \<in> set (headings_from i k start s) \<Longrightarrow> i \<le> j \<and> j < i + length s"
proof (induction i k start s rule: headings_from.induct)
  case (3 i start c cs)
  then show ?case by (cases "if start then heading_match (c # cs) else None") (force split: prod.splits)+
qed fastforce+

lemma table_top_le: "table_top s start t \<le> t"
proof (induction s start t rule: table_top.induct)
  case (1 s start t)
  show ?case
  proof (cases "t \<le> start \<or> \<not> is_row (part (line_after s start (t - 1)) t s)")
    case True
    then show ?thesis by (auto simp: table_top.simps [of s start t] Let_def)
  next
    case False
    then have "table_top s start t = table_top s start (line_after s start (t - 1))" by (simp add: table_top.simps [of s start t])
    moreover have "table_top s start (line_after s start (t - 1)) \<le> line_after s start (t - 1)" using 1 False by simp
    moreover have "line_after s start (t - 1) \<le> t" by (rule le_trans [OF line_after_le]) simp
    ultimately show ?thesis by simp
  qed
qed

lemma length_part [simp]: "length (part i j s) = min (j - i) (length s - i)"
  by (simp add: part_def min.commute)

lemma structural_end_le:
  assumes "start < stop"
  shows "structural_end s start stop \<le> stop"
proof -
  define cand where "cand = part start stop s"
  have h: "start + fst (last (headings cand)) \<le> stop" if "headings cand \<noteq> []"
  proof -
    have "(fst (last (headings cand)), snd (last (headings cand))) \<in> set (headings_from 0 0 True cand)"
      using that by (simp add: headings_def)
    from headings_from_range [OF this] have "fst (last (headings cand)) < stop - start" by (simp add: cand_def)
    with assms show ?thesis by linarith
  qed
  have f: "start + last (fences cand) \<le> stop" if "odd (length (fences cand))"
  proof -
    from that have "fences cand \<noteq> []" by auto
    then have "last (fences cand) \<in> set (fences cand)" by (rule last_in_set)
    then have "last (fences cand) < stop - start" by (simp add: fences_def line_starts_def cand_def)
    with assms show ?thesis by linarith
  qed
  have "table_top s start (line_after s start stop) \<le> stop"
    using table_top_le line_after_le by (rule le_trans)
  with h f show ?thesis by (simp add: structural_end_def Let_def cand_def)
qed

lemma block_end_range:
  assumes "p < length md" and "word_spans (drop p md) \<noteq> []"
  shows "p < block_end ck md p \<and> block_end ck md p \<le> nominal_end ck md p"
  using nominal_end_range [OF assms] structural_end_le [of p "nominal_end ck md p" md] by (simp add: block_end_def Let_def)

lemma next_word_ge: "i \<le> next_word s i"
  by (simp add: next_word_def)

lemma chunk_pass_progress:
  assumes "p < length md" and "word_spans (drop p md) \<noteq> []"
  shows "p < snd (chunk_pass ck md n p)"
proof -
  have "p < next_word md (block_end ck md p)"
    using block_end_range [OF assms] next_word_ge [of "block_end ck md p" md] by (blast intro: less_le_trans)
  then show ?thesis by (auto simp: chunk_pass_def Let_def split: prod.split option.split nat.split)
qed

section \<open>The loop\<close>

function chunk_loop :: "chunking \<Rightarrow> string \<Rightarrow> nat \<Rightarrow> nat \<Rightarrow> piece list" where
  "chunk_loop ck md n p =
     (if p < length md \<and> word_spans (drop p md) \<noteq> []
      then fst (chunk_pass ck md n p) @ chunk_loop ck md (n + 1) (snd (chunk_pass ck md n p))
      else [])"
  by pat_completeness auto
termination
  using chunk_pass_progress by (relation "measure (\<lambda>(ck, md, n, p). length md - p)") (auto intro: diff_less_mono2)

declare chunk_loop.simps [simp del]

record document_chunk =
  dk_text :: string
  dk_heading :: "string option"
  dk_ordinal :: nat
  dk_previous :: "nat option"
  dk_next :: "nat option"
  dk_outcome :: boundary
  dk_words :: nat
  dk_start_char :: nat
  dk_end_char :: nat
  dk_start_word :: nat
  dk_end_word :: nat

definition chunk_heading :: "string \<Rightarrow> string option" where
  "chunk_heading s = (case headings s of [] \<Rightarrow> None | (i, t) # hs \<Rightarrow> Some (strip t))"

definition word_number :: "string \<Rightarrow> nat \<Rightarrow> nat" where
  "word_number s i = word_count (take i s)"

definition numbered_chunk :: "string \<Rightarrow> nat \<Rightarrow> nat \<times> piece \<Rightarrow> document_chunk" where
  "numbered_chunk md many ip =
     (let (i, q) = ip in
      \<lparr>dk_text = pc_text q, dk_heading = chunk_heading (pc_text q), dk_ordinal = i,
       dk_previous = (if i = 0 then None else Some (i - 1)), dk_next = (if i + 1 < many then Some (i + 1) else None),
       dk_outcome = pc_outcome q, dk_words = pc_words q, dk_start_char = pc_start q, dk_end_char = pc_end q,
       dk_start_word = word_number md (pc_start q), dk_end_word = word_number md (pc_end q)\<rparr>)"

text \<open>A saved abstract page is cut to its title and abstract; any other text passes through.\<close>

definition find_in :: "string \<Rightarrow> nat \<Rightarrow> nat \<Rightarrow> string \<Rightarrow> nat option" where
  "find_in sub i j s = map_option (\<lambda>k. i + k) (find_text sub (part i j s))"

definition title_match :: "string \<Rightarrow> bool" where
  "title_match s = (case s of [] \<Rightarrow> False
     | c # r \<Rightarrow> c = CHR ''#'' \<and> takeWhile is_space r \<noteq> [] \<and> startswith (dropWhile is_space r) ''Title:'')"

definition titles :: "string \<Rightarrow> nat list" where
  "titles s = filter (\<lambda>i. title_match (drop i s)) (line_starts s)"

definition least_found :: "nat \<Rightarrow> nat option list \<Rightarrow> nat" where
  "least_found stop xs = fold (\<lambda>x m. case x of None \<Rightarrow> m | Some i \<Rightarrow> min m i) xs stop"

definition prepare_markdown :: "string \<Rightarrow> string \<times> bool" where
  "prepare_markdown md =
     (case (find_text ''> Abstract:'' md, find_text ''## Submission history'' md) of
        (Some a, Some h) \<Rightarrow>
          if a < h \<and> titles (take a md) \<noteq> []
          then (strip (part (last (titles (take a md)))
                  (least_found h (map (\<lambda>m. find_in m a h md) [CHR 0x0A # ''| Comments:'', CHR 0x0A # ''| Subjects:''])) md), True)
          else (md, False)
      | _ \<Rightarrow> (md, False))"

definition semantic_chunks :: "chunking \<Rightarrow> bool \<Rightarrow> string \<Rightarrow> document_chunk list" where
  "semantic_chunks ck preprocess markdown =
     (let md = (if preprocess then fst (prepare_markdown markdown) else markdown) in
      if strip md = [] then []
      else let pieces = chunk_loop ck md 0 (next_word md 0) in map (numbered_chunk md (length pieces)) (enumerate 0 pieces))"

text \<open>The offline segmenter: a second heading is a topic shift. And the control of the proof of the chunker: words, \<open>n\<close> at a time.\<close>

definition heading_segmenter :: "nat \<Rightarrow> string \<Rightarrow> string result" where
  "heading_segmenter n block = Inr (case headings block of h # (i, t) # hs \<Rightarrow> strip (drop i block) | _ \<Rightarrow> [])"

definition split_words :: "string \<Rightarrow> string list" where
  "split_words s = map (\<lambda>(b, e). part b e s) (word_spans s)"

definition fixed_word_chunks :: "nat \<Rightarrow> string \<Rightarrow> string list result" where
  "fixed_word_chunks n s =
     (if n = 0 then Inl ValueError
      else Inr (map (\<lambda>k. join '' '' (take n (drop (k * n) (split_words s)))) [0..<(length (split_words s) + n - 1) div n]))"

end
