(* ===== verification/Memory_Store.thy ===== *)
theory Memory_Store
  imports Memory_Chunks
begin

text \<open>
  Scoped memory (\<open>core/memory/store.py\<close>, \<open>models.py\<close>): who may write what, which records a request may read, how a
  record is superseded and how a document gets a new version. The database is its two tables; \<open>me_saved\<close> is
  what has been committed and \<open>me_live\<close> what the connection sees, which differ after an error that leaves a
  transaction open. Times are numbers. The embedder is an argument, as the texts it can embed, and so are the scores of a search,
  the hash, and the identifiers, which the code draws afresh.
\<close>

section \<open>Records\<close>

record memory_scope =
  sc_tenant :: string
  sc_project :: "string option"
  sc_user :: "string option"
  sc_agent :: "string option"
  sc_run :: "string option"

datatype memory_kind = Working | Episode | Fact | Playbook | Policy | Audit | Chunk

datatype status = Current | Superseded

text \<open>\<open>mm_document\<close> and \<open>mm_place\<close> are the keys of the metadata the store reads: the document id, and a chunk's document
  version and ordinal.\<close>

record mem_record =
  mm_id :: string
  mm_kind :: memory_kind
  mm_scope :: memory_scope
  mm_text :: string
  mm_sources :: "(string \<times> string) list"
  mm_principal :: "string \<times> string"
  mm_metadata :: obj
  mm_document :: "string option"
  mm_place :: "(nat \<times> nat) option"
  mm_created :: int
  mm_valid_to :: "int option"
  mm_status :: status
  mm_supersedes :: "string option"

record document_row =
  dr_id :: string
  dr_version :: nat
  dr_active :: bool
  dr_scope :: memory_scope
  dr_uri :: string
  dr_source_hash :: string
  dr_prepared_hash :: string

record tables =
  tb_records :: "mem_record list"
  tb_documents :: "document_row list"

record memory =
  me_live :: tables
  me_saved :: tables

section \<open>Writing\<close>

definition write_refused :: "mem_record \<Rightarrow> py_error option" where
  "write_refused r =
     (if mm_sources r = [] \<and> mm_kind r \<notin> {Working, Audit} then Some ValueError
      else if mm_kind r = Policy \<and> snd (mm_principal r) \<notin> {''operator'', ''system''} then Some PermissionDenied
      else if mm_kind r = Audit \<and> snd (mm_principal r) \<noteq> ''gateway'' then Some PermissionDenied
      else None)"

definition get_record :: "tables \<Rightarrow> string \<Rightarrow> mem_record option" where
  "get_record tb i = find (\<lambda>r. mm_id r = i) (tb_records tb)"

text \<open>\<open>if record.supersedes_id\<close>\<close>

definition superseded_id :: "mem_record \<Rightarrow> string option" where
  "superseded_id r = (case mm_supersedes r of None \<Rightarrow> None | Some i \<Rightarrow> if i = [] then None else Some i)"

definition supersede_refused :: "tables \<Rightarrow> mem_record \<Rightarrow> py_error option" where
  "supersede_refused tb r =
     (case superseded_id r of None \<Rightarrow> None
      | Some i \<Rightarrow>
          (case get_record tb i of None \<Rightarrow> Some ValueError
           | Some old \<Rightarrow>
               if mm_scope old \<noteq> mm_scope r \<or> mm_kind old \<noteq> mm_kind r then Some ValueError
               else if mm_status old \<noteq> Current then Some ValueError
               else None))"

definition set_superseded :: "(mem_record \<Rightarrow> bool) \<Rightarrow> mem_record list \<Rightarrow> mem_record list" where
  "set_superseded p rs = map (\<lambda>r. if p r then r\<lparr>mm_status := Superseded\<rparr> else r) rs"

text \<open>\<open>_write\<close> without its audit: the error it ends in, and the tables it leaves.\<close>

definition insert_record :: "(string \<Rightarrow> bool) \<Rightarrow> mem_record \<Rightarrow> tables \<Rightarrow> py_error option \<times> tables" where
  "insert_record embeds r tb =
     (case write_refused r of Some e \<Rightarrow> (Some e, tb)
      | None \<Rightarrow>
          (case supersede_refused tb r of Some e \<Rightarrow> (Some e, tb)
           | None \<Rightarrow>
               if \<not> embeds (mm_text r) then (Some OSError, tb)
               else if get_record tb (mm_id r) \<noteq> None then (Some IntegrityError, tb)
               else (None, tb\<lparr>tb_records :=
                 (case superseded_id r of None \<Rightarrow> id | Some i \<Rightarrow> set_superseded (\<lambda>x. mm_id x = i)) (tb_records tb @ [r])\<rparr>)))"

definition kind_text :: "memory_kind \<Rightarrow> string" where
  "kind_text k = (case k of Working \<Rightarrow> ''working'' | Episode \<Rightarrow> ''episode'' | Fact \<Rightarrow> ''fact'' | Playbook \<Rightarrow> ''playbook''
     | Policy \<Rightarrow> ''policy'' | Audit \<Rightarrow> ''audit'' | Chunk \<Rightarrow> ''document_chunk'')"

text \<open>\<open>fresh\<close>: the identifier and the time the code draws for a record it makes itself.\<close>

definition audit_of :: "mem_record \<Rightarrow> string \<times> int \<Rightarrow> mem_record" where
  "audit_of r fresh =
     \<lparr>mm_id = fst fresh, mm_kind = Audit, mm_scope = mm_scope r,
      mm_text = ''write '' @ kind_text (mm_kind r) @ '' '' @ mm_id r, mm_sources = [],
      mm_principal = (''memory-gateway'', ''gateway''),
      mm_metadata = [(''record_id'', JStr (mm_id r)), (''actor'', JStr (fst (mm_principal r)))],
      mm_document = None, mm_place = None, mm_created = snd fresh, mm_valid_to = None, mm_status = Current, mm_supersedes = None\<rparr>"

definition write_audited :: "(string \<Rightarrow> bool) \<Rightarrow> string \<times> int \<Rightarrow> mem_record \<Rightarrow> tables \<Rightarrow> py_error option \<times> tables" where
  "write_audited embeds fresh r tb =
     (case insert_record embeds r tb of
        (Some e, tb') \<Rightarrow> (Some e, tb')
      | (None, tb') \<Rightarrow> if mm_kind r = Audit then (None, tb') else insert_record embeds (audit_of r fresh) tb')"

text \<open>\<open>write\<close> commits at its end only: an error leaves what was written in the open transaction.\<close>

definition write_memory :: "(string \<Rightarrow> bool) \<Rightarrow> string \<times> int \<Rightarrow> mem_record \<Rightarrow> memory \<Rightarrow> py_error option \<times> memory" where
  "write_memory embeds fresh r me =
     (case write_audited embeds fresh r (me_live me) of
        (Some e, tb) \<Rightarrow> (Some e, me\<lparr>me_live := tb\<rparr>)
      | (None, tb) \<Rightarrow> (None, \<lparr>me_live = tb, me_saved = tb\<rparr>))"

section \<open>Reading\<close>

text \<open>\<open>_scope_where\<close>: a level of the record is absent or the one asked for; \<open>column = NULL\<close> holds of nothing.\<close>

definition level_ok :: "string option \<Rightarrow> string option \<Rightarrow> bool" where
  "level_ok held asked = (held = None \<or> held = asked)"

definition scope_where :: "memory_scope \<Rightarrow> memory_scope \<Rightarrow> bool" where
  "scope_where asked held =
     (sc_tenant held = sc_tenant asked \<and> level_ok (sc_project held) (sc_project asked) \<and>
      level_ok (sc_user held) (sc_user asked) \<and> level_ok (sc_agent held) (sc_agent asked) \<and>
      level_ok (sc_run held) (sc_run asked))"

record search =
  se_scope :: memory_scope
  se_kinds :: "memory_kind list"
  se_limit :: nat
  se_history :: bool
  se_neighbors :: nat
  se_now :: int

definition readable :: "search \<Rightarrow> mem_record \<Rightarrow> bool" where
  "readable q r =
     (scope_where (se_scope q) (mm_scope r) \<and>
      (se_history q \<or> mm_status r = Current \<and> (case mm_valid_to r of None \<Rightarrow> True | Some t \<Rightarrow> se_now q < t)) \<and>
      (if se_kinds q \<noteq> [] then mm_kind r \<in> set (se_kinds q) else mm_kind r \<notin> {Audit, Policy}))"

text \<open>The chunks around a chunk, by the place its metadata gives.\<close>

definition place_ordinal :: "mem_record \<Rightarrow> nat" where
  "place_ordinal r = (case mm_place r of None \<Rightarrow> 0 | Some (v, n) \<Rightarrow> n)"

definition of_document :: "string \<Rightarrow> mem_record \<Rightarrow> bool" where
  "of_document d r = (mm_document r = Some d)"

definition near :: "nat \<Rightarrow> string \<Rightarrow> nat \<times> nat \<Rightarrow> mem_record \<Rightarrow> bool" where
  "near k d place r =
     (mm_status r = Current \<and> mm_kind r = Chunk \<and> of_document d r \<and>
      (case mm_place r of None \<Rightarrow> False
       | Some (v, m) \<Rightarrow> v = fst place \<and> int (snd place) - int k \<le> int m \<and> m \<le> snd place + k))"

definition neighbour_rows :: "tables \<Rightarrow> nat \<Rightarrow> mem_record \<Rightarrow> mem_record list" where
  "neighbour_rows tb k r =
     (case (mm_document r, mm_place r) of
        (Some d, Some place) \<Rightarrow> sort_key place_ordinal (filter (near k d place) (tb_records tb))
      | _ \<Rightarrow> [])"

definition add_unseen :: "mem_record list \<Rightarrow> mem_record list \<Rightarrow> mem_record list" where
  "add_unseen rows acc = fold (\<lambda>r acc. if mm_id r \<in> mm_id ` set acc then acc else acc @ [r]) rows acc"

definition expand_neighbors :: "tables \<Rightarrow> nat \<Rightarrow> mem_record list \<Rightarrow> mem_record list" where
  "expand_neighbors tb k selected =
     fold (\<lambda>r. add_unseen (neighbour_rows tb k r)) selected selected"

text \<open>Best score first, then oldest first; \<open>score\<close> stands for similarity, lexical boost and content quality.\<close>

definition recall :: "(mem_record \<Rightarrow> rat) \<Rightarrow> search \<Rightarrow> memory \<Rightarrow> mem_record list" where
  "recall score q me =
     (let rows = filter (readable q) (tb_records (me_live me));
          selected = take (se_limit q) (sort_key (\<lambda>r. (- score r, mm_created r)) rows)
      in if se_neighbors q = 0 then selected else expand_neighbors (me_live me) (se_neighbors q) selected)"

definition audit_events :: "(mem_record \<Rightarrow> rat) \<Rightarrow> memory_scope \<Rightarrow> int \<Rightarrow> memory \<Rightarrow> mem_record list" where
  "audit_events score sc now =
     recall score \<lparr>se_scope = sc, se_kinds = [Audit], se_limit = 100, se_history = True, se_neighbors = 0, se_now = now\<rparr>"

section \<open>Documents\<close>

definition owner_text :: "memory_scope \<Rightarrow> string \<Rightarrow> string" where
  "owner_text sc uri =
     join [CHR 0x1F] (map (\<lambda>v. case v of None \<Rightarrow> [] | Some s \<Rightarrow> s)
       [Some (sc_tenant sc), sc_project sc, sc_user sc, sc_agent sc, sc_run sc, Some uri])"

definition document_id :: "(string \<Rightarrow> string) \<Rightarrow> memory_scope \<Rightarrow> string \<Rightarrow> string" where
  "document_id sha sc uri = ''doc_'' @ take 24 (sha (owner_text sc uri))"

record ingestion =
  in_source :: string
  in_prepared :: string
  in_chunks :: "document_chunk list"
  in_uri :: string
  in_scope :: memory_scope
  in_author :: string
  in_fresh :: "nat \<Rightarrow> string \<times> int"

definition opt_int :: "nat option \<Rightarrow> json" where
  "opt_int x = (case x of None \<Rightarrow> JNull | Some n \<Rightarrow> JInt (int n))"

text \<open>The rest of a chunk's metadata; its boundary decision and hashes are left out.\<close>

definition chunk_metadata :: "document_chunk \<Rightarrow> obj" where
  "chunk_metadata c =
     [(''heading'', case dk_heading c of None \<Rightarrow> JNull | Some h \<Rightarrow> JStr h),
      (''previous'', opt_int (dk_previous c)), (''next'', opt_int (dk_next c)),
      (''source_start_char'', JInt (int (dk_start_char c))), (''source_end_char'', JInt (int (dk_end_char c))),
      (''source_start_word'', JInt (int (dk_start_word c))), (''source_end_word'', JInt (int (dk_end_word c)))]"

definition chunk_record :: "ingestion \<Rightarrow> document_row \<Rightarrow> nat \<times> document_chunk \<Rightarrow> mem_record" where
  "chunk_record g row ic =
     (let (i, c) = ic in
      \<lparr>mm_id = fst (in_fresh g i), mm_kind = Chunk, mm_scope = in_scope g, mm_text = dk_text c,
       mm_sources = [(in_uri g, in_author g)], mm_principal = (''gateway'', ''gateway''), mm_metadata = chunk_metadata c,
       mm_document = Some (dr_id row), mm_place = Some (dr_version row, dk_ordinal c), mm_created = snd (in_fresh g i),
       mm_valid_to = None, mm_status = Current, mm_supersedes = None\<rparr>)"

definition document_audit :: "ingestion \<Rightarrow> document_row \<Rightarrow> mem_record" where
  "document_audit g row =
     (let n = length (in_chunks g) in
      \<lparr>mm_id = fst (in_fresh g n), mm_kind = Audit, mm_scope = in_scope g,
       mm_text = ''index document '' @ dr_id row @ '' v'' @ digits (dr_version row), mm_sources = [],
       mm_principal = (''memory-gateway'', ''gateway''),
       mm_metadata = [(''version'', JInt (int (dr_version row))), (''chunks'', JInt (int n)),
         (''source_sha256'', JStr (dr_source_hash row))],
       mm_document = Some (dr_id row), mm_place = None, mm_created = snd (in_fresh g n), mm_valid_to = None,
       mm_status = Current, mm_supersedes = None\<rparr>)"

definition active_row :: "tables \<Rightarrow> string \<Rightarrow> document_row option" where
  "active_row tb d = find (\<lambda>x. dr_id x = d \<and> dr_active x) (tb_documents tb)"

text \<open>The statements of the transaction, one after another.\<close>

definition retire_document :: "string \<Rightarrow> tables \<Rightarrow> tables" where
  "retire_document d tb =
     \<lparr>tb_records = set_superseded (\<lambda>r. mm_status r = Current \<and> of_document d r) (tb_records tb),
      tb_documents = map (\<lambda>x. if dr_id x = d \<and> dr_active x then x\<lparr>dr_active := False\<rparr> else x) (tb_documents tb)\<rparr>"

definition insert_document :: "document_row \<Rightarrow> tables \<Rightarrow> tables result" where
  "insert_document x tb =
     (if \<exists>y \<in> set (tb_documents tb). dr_id y = dr_id x \<and> dr_version y = dr_version x then Inl IntegrityError
      else Inr (tb\<lparr>tb_documents := tb_documents tb @ [x]\<rparr>))"

definition insert_r :: "(string \<Rightarrow> bool) \<Rightarrow> mem_record \<Rightarrow> tables \<Rightarrow> tables result" where
  "insert_r embeds r tb = (case insert_record embeds r tb of (Some e, tb') \<Rightarrow> Inl e | (None, tb') \<Rightarrow> Inr tb')"

definition index_version :: "(string \<Rightarrow> bool) \<Rightarrow> document_row \<Rightarrow> ingestion \<Rightarrow> bool \<Rightarrow> tables \<Rightarrow> tables result" where
  "index_version embeds row g had tb =
     bind_r (insert_document row (if had then retire_document (dr_id row) tb else tb)) (\<lambda>tb1.
     bind_r (fold_r (insert_r embeds) (map (chunk_record g row) (enumerate 0 (in_chunks g))) tb1) (\<lambda>tb2.
       insert_r embeds (document_audit g row) tb2))"

record ingested =
  ig_document :: string
  ig_version :: nat
  ig_idempotent :: bool
  ig_records :: "string list"

text \<open>\<open>with self.db\<close>: commit at the end, roll back to what was committed on an error.\<close>

definition ingest_document :: "(string \<Rightarrow> string) \<Rightarrow> (string \<Rightarrow> bool) \<Rightarrow> ingestion \<Rightarrow> memory \<Rightarrow> ingested result \<times> memory" where
  "ingest_document sha embeds g me =
     (let tb = me_live me; d = document_id sha (in_scope g) (in_uri g); active = active_row tb d;
          hs = sha (in_source g); hp = sha (in_prepared g);
          v = (case active of None \<Rightarrow> 1 | Some x \<Rightarrow> dr_version x + 1);
          row = \<lparr>dr_id = d, dr_version = v, dr_active = True, dr_scope = in_scope g, dr_uri = in_uri g,
            dr_source_hash = hs, dr_prepared_hash = hp\<rparr>
      in case active of
           Some x \<Rightarrow>
             if dr_source_hash x = hs \<and> dr_prepared_hash x = hp
             then (Inr \<lparr>ig_document = d, ig_version = dr_version x, ig_idempotent = True,
                    ig_records = map mm_id (sort_key place_ordinal
                      (filter (\<lambda>r. mm_status r = Current \<and> mm_kind r = Chunk \<and> of_document d r) (tb_records tb)))\<rparr>, me)
             else (case index_version embeds row g True tb of
                 Inl e \<Rightarrow> (Inl e, me\<lparr>me_live := me_saved me\<rparr>)
               | Inr tb' \<Rightarrow> (Inr \<lparr>ig_document = d, ig_version = v, ig_idempotent = False,
                     ig_records = map (\<lambda>i. fst (in_fresh g i)) [0..<length (in_chunks g)]\<rparr>, \<lparr>me_live = tb', me_saved = tb'\<rparr>))
         | None \<Rightarrow>
             (case index_version embeds row g False tb of
                 Inl e \<Rightarrow> (Inl e, me\<lparr>me_live := me_saved me\<rparr>)
               | Inr tb' \<Rightarrow> (Inr \<lparr>ig_document = d, ig_version = v, ig_idempotent = False,
                     ig_records = map (\<lambda>i. fst (in_fresh g i)) [0..<length (in_chunks g)]\<rparr>, \<lparr>me_live = tb', me_saved = tb'\<rparr>)))"

section \<open>A store in use\<close>

definition empty_memory :: memory where
  "empty_memory = (let tb = \<lparr>tb_records = [], tb_documents = []\<rparr> in \<lparr>me_live = tb, me_saved = tb\<rparr>)"

text \<open>
  What may happen to it: a client writes a record of its own, which is no chunk; a document is ingested; a recall that finds a
  vector of an older embedder commits; the process starts again. The clients in the repository put none of the document
  keys into the metadata of their records.
\<close>

inductive memory_step :: "(string \<Rightarrow> string) \<Rightarrow> memory \<Rightarrow> memory \<Rightarrow> bool" for sha :: "string \<Rightarrow> string" where
  Write: "mm_kind r \<noteq> Chunk \<Longrightarrow> mm_document r = None \<Longrightarrow> mm_place r = None \<Longrightarrow> write_memory embeds fresh r me = (e, me') \<Longrightarrow>
    memory_step sha me me'"
| Ingest: "ingest_document sha embeds g me = (res, me') \<Longrightarrow> memory_step sha me me'"
| Commit: "memory_step sha me (me\<lparr>me_saved := me_live me\<rparr>)"
| Restart: "memory_step sha me (me\<lparr>me_live := me_saved me\<rparr>)"

inductive_cases memory_stepE: "memory_step sha me me'"

end
