(* ===== verification/Runtime.thy ===== *)
theory Runtime
  imports Graph_Executor Evidence Econ_Policy Event_Engine Memory_Store
begin

text \<open>
  The runtime around one run (\<open>runtime.py\<close>): what a run is started and resumed with, its budget seam, the
  capabilities it offers, the answer worker's evidence, and the result it returns. The durable context of a
  run is the graph store's; writing the inbound message to memory yields the id passed in here.
\<close>

section \<open>Who pays\<close>

definition principal_for :: "memory_scope \<Rightarrow> string" where
  "principal_for sc =
     (let parts = List.map_filter (\<lambda>p. case p of Some s \<Rightarrow> if s = [] then None else Some s | None \<Rightarrow> None)
            [Some (sc_tenant sc), sc_project sc, sc_user sc, sc_agent sc];
          owner = join ''/'' parts
      in if owner = [] then ''unattributed'' else owner)"

text \<open>What \<open>metered\<close> makes of a worker's result: the call site's fields win.\<close>

definition metered_result :: "obj \<Rightarrow> json list \<Rightarrow> json list \<Rightarrow> obj" where
  "metered_result result cs ds =
     dmerge result [(''metered_calls'', JList cs), (''budget_decisions'', JList ds)]"

section \<open>Starting and resuming\<close>

record run_request =
  rq_prompt :: "string option"
  rq_scope :: "memory_scope option"
  rq_source_uri :: "string option"
  rq_source_author :: "string option"
  rq_respond_as :: string
  rq_allowed :: "string list"
  rq_evidence :: obj
  rq_budget :: "rat option"
  rq_principal :: "string option"
  rq_transport :: bool
  rq_llm :: bool

record run_setup =
  rs_prompt :: string
  rs_scope :: memory_scope
  rs_source_uri :: string
  rs_source_author :: string
  rs_inbound :: json
  rs_respond_as :: string
  rs_allowed :: "string list"
  rs_evidence :: obj

definition opt_json :: "string option \<Rightarrow> json" where
  "opt_json s = (case s of None \<Rightarrow> JNull | Some x \<Rightarrow> JStr x)"

definition scope_json :: "memory_scope \<Rightarrow> obj" where
  "scope_json sc = [(''tenant_id'', JStr (sc_tenant sc)), (''project_id'', opt_json (sc_project sc)),
     (''user_id'', opt_json (sc_user sc)), (''agent_id'', opt_json (sc_agent sc)), (''run_id'', opt_json (sc_run sc))]"

text \<open>The context a new run is started with; the allowed side effects are a set, stored sorted.\<close>

definition run_context :: "run_setup \<Rightarrow> obj" where
  "run_context rs =
     [(''prompt'', JStr (rs_prompt rs)), (''scope'', JObj (scope_json (rs_scope rs))),
      (''source_uri'', JStr (rs_source_uri rs)), (''source_author'', JStr (rs_source_author rs)),
      (''inbound_id'', rs_inbound rs), (''respond_as'', JStr (rs_respond_as rs)),
      (''allowed_side_effects'', JList (map JStr (sort (remdups (rs_allowed rs))))),
      (''initial_evidence'', JObj (rs_evidence rs))]"

definition scope_field :: "obj \<Rightarrow> string \<Rightarrow> string option" where
  "scope_field d k = (case dget d k of Some (JStr s) \<Rightarrow> Some s | _ \<Rightarrow> None)"

text \<open>
  What a resumed run reads back, from a context that only \<open>run\<close> writes: its fields have the types they were
  written with, and one that is missing is a \<open>KeyError\<close>.
\<close>

definition read_setup :: "(json \<Rightarrow> string) \<Rightarrow> string \<Rightarrow> obj \<Rightarrow> run_setup result" where
  "read_setup str_of respond_as ctx =
     (case (dget ctx ''prompt'', dget ctx ''scope'') of
        (Some p, Some (JObj sc)) \<Rightarrow>
          (case dget sc ''tenant_id'' of
             Some (JStr tenant) \<Rightarrow>
               (case (dget ctx ''source_uri'', dget ctx ''source_author'') of
                  (Some (JStr u), Some (JStr a)) \<Rightarrow>
                    Inr \<lparr>rs_prompt = printed str_of p,
                      rs_scope = \<lparr>sc_tenant = tenant, sc_project = scope_field sc ''project_id'', sc_user = scope_field sc ''user_id'',
                        sc_agent = scope_field sc ''agent_id'', sc_run = scope_field sc ''run_id''\<rparr>,
                      rs_source_uri = u, rs_source_author = a, rs_inbound = dget_or ctx ''inbound_id'' JNull,
                      rs_respond_as = printed str_of (dget_or ctx ''respond_as'' (JStr respond_as)),
                      rs_allowed = (case dget ctx ''allowed_side_effects'' of
                          Some (JList xs) \<Rightarrow> List.map_filter (\<lambda>x. case x of JStr s \<Rightarrow> Some s | _ \<Rightarrow> None) xs | _ \<Rightarrow> []),
                      rs_evidence = (case dget ctx ''initial_evidence'' of Some (JObj d) \<Rightarrow> d | _ \<Rightarrow> [])\<rparr>
                | _ \<Rightarrow> Inl KeyError)
           | _ \<Rightarrow> Inl TypeError)
      | _ \<Rightarrow> Inl KeyError)"

definition new_setup :: "json \<Rightarrow> run_request \<Rightarrow> run_setup result" where
  "new_setup inbound rq =
     (case (rq_prompt rq, rq_scope rq, rq_source_uri rq, rq_source_author rq) of
        (Some p, Some sc, Some u, Some a) \<Rightarrow>
          Inr \<lparr>rs_prompt = p, rs_scope = sc, rs_source_uri = u, rs_source_author = a, rs_inbound = inbound,
            rs_respond_as = rq_respond_as rq, rs_allowed = rq_allowed rq, rs_evidence = rq_evidence rq\<rparr>
      | _ \<Rightarrow> Inl ValueError)"

definition open_run ::
  "(json \<Rightarrow> string) \<Rightarrow> (string \<Rightarrow> string) \<Rightarrow> string \<Rightarrow> bool \<Rightarrow> json \<Rightarrow> run_request \<Rightarrow> graph_store \<Rightarrow>
   (run_setup \<times> graph_store) result" where
  "open_run str_of path_of rid resume inbound rq gs =
     (if resume
      then bind_r (context_run path_of gs rid) (\<lambda>ctx.
           bind_r (read_setup str_of (rq_respond_as rq) ctx) (\<lambda>rs. Inr (rs, gs)))
      else bind_r (new_setup inbound rq) (\<lambda>rs. Inr (rs, snd (start_run path_of gs rid (run_context rs)))))"

text \<open>
  The budget seam, decided after the run was opened: the ceiling is the request's, capped by the principal's
  limit; without a budget there is none. Nothing of it is read from the run's context.
\<close>

definition open_budget ::
  "rat \<Rightarrow> (string \<times> rat) list \<Rightarrow> string \<Rightarrow> rat \<Rightarrow> string \<Rightarrow> run_request \<Rightarrow> run_setup \<Rightarrow> budget option result" where
  "open_budget default_budget limits currency fraction rid rq rs =
     (let who = (case rq_principal rq of Some p \<Rightarrow> if p = [] then principal_for (rs_scope rs) else p
                                       | None \<Rightarrow> principal_for (rs_scope rs))
      in case rq_budget rq of
           Some b \<Rightarrow>
             if \<not> rq_transport rq then Inl ValueError
             else bind_r (new_budget (ceiling_for default_budget limits who (Some b)) who currency (Some rid) fraction)
                    (\<lambda>x. Inr (Some x))
         | None \<Rightarrow> if \<not> rq_llm rq then Inl ValueError else Inr None)"

section \<open>What the run may use\<close>

text \<open>A capability with no configuration behind it is not offered: no sandbox, no workspace, no skills.\<close>

definition sandbox_capabilities :: "string list" where
  "sandbox_capabilities = [''read_file'', ''write_file'', ''copy_file'', ''file_sha256'', ''list_directory'',
     ''index_file'', ''query_csv'', ''create_calendar_events'', ''verify_artifact'']"

definition unavailable :: "registry \<Rightarrow> bool \<Rightarrow> bool \<Rightarrow> bool \<Rightarrow> string list" where
  "unavailable rg has_sandbox has_workspace has_skills =
     (if has_sandbox then [] else sandbox_capabilities) @
     (if has_workspace then [] else family rg ''coding'') @
     (if has_skills then [] else [''load_skill''])"

text \<open>Which workers are run through the outbox.\<close>

definition runs_once :: "registry \<Rightarrow> string \<Rightarrow> bool" where
  "runs_once rg name = (case dget rg name of None \<Rightarrow> False | Some c \<Rightarrow> cp_side_effect c)"

section \<open>The answer worker's evidence\<close>

definition result_or_empty :: "gnode \<Rightarrow> obj" where
  "result_or_empty n = (case n_result n of None \<Rightarrow> [] | Some r \<Rightarrow> r)"

text \<open>The external addresses of a node's result: of its hits, and of the fields its capability declares.\<close>

definition node_externals :: "registry \<Rightarrow> gnode \<Rightarrow> string list" where
  "node_externals rg n =
     (let r = result_or_empty n in
      List.map_filter (\<lambda>h. case jget h ''url'' of JStr s \<Rightarrow> if s = [] then None else Some s | _ \<Rightarrow> None)
        (dict_items (jget r ''hits'')) @
      List.map_filter (\<lambda>k. case jget r k of
          JStr s \<Rightarrow> if startswith s ''http://'' \<or> startswith s ''https://'' then Some s else None | _ \<Rightarrow> None)
        (ep_sources (projection_of rg (n_skill n))))"

text \<open>\<open>dict.fromkeys\<close>: the first occurrence of each stays.\<close>

definition external_sources :: "registry \<Rightarrow> (string \<times> gnode) list \<Rightarrow> string list" where
  "external_sources rg nodes = filter (\<lambda>s. s \<noteq> []) (rev (remdups (rev (concat (map (node_externals rg \<circ> snd) nodes)))))"

definition node_evidence ::
  "(json \<Rightarrow> string) \<Rightarrow> (obj \<Rightarrow> string) \<Rightarrow> registry \<Rightarrow> string \<Rightarrow> string list \<Rightarrow> string \<times> gnode \<Rightarrow> obj list \<Rightarrow> obj list" where
  "node_evidence str_of dumps rg rid external nn acc =
     (let (nid, n) = nn; result = result_or_empty n; fallback = ''graph://'' @ rid @ ''/'' @ nid in
      if n_state n = Failed
      then acc @ [[(''text'', dget_or result ''error'' (JStr ''task failed'')), (''sources'', JList [JStr fallback]),
                   (''kind'', JStr ''failure'')]]
      else if result = [] then acc
      else let pj = projection_of rg (n_skill n);
               produced = project_evidence str_of pj result fallback external;
               produced' = (if produced = []
                 then [generic_evidence dumps result (n_skill n) fallback [''metered_calls'', ''budget_decisions'', ''raw'']]
                 else produced)
           in if ep_prepend pj then produced' @ acc else acc @ produced')"

definition stimulus_evidence :: "(obj \<Rightarrow> string) \<Rightarrow> run_setup \<Rightarrow> obj list" where
  "stimulus_evidence dumps rs =
     (if rs_evidence rs = [] then []
      else [[(''text'', JStr (take 12000 (dumps (rs_evidence rs)))), (''sources'', JList [JStr (rs_source_uri rs)]),
             (''kind'', JStr ''initial_stimulus'')]])"

definition collect_evidence ::
  "(json \<Rightarrow> string) \<Rightarrow> (obj \<Rightarrow> string) \<Rightarrow> registry \<Rightarrow> string \<Rightarrow> run_setup \<Rightarrow> (string \<times> gnode) list \<Rightarrow> obj list" where
  "collect_evidence str_of dumps rg rid rs nodes =
     fold (node_evidence str_of dumps rg rid (external_sources rg nodes)) nodes (stimulus_evidence dumps rs)"

text \<open>The bound: a text is clipped to what is left of 28,000 characters. A text that is not one is not sliced.\<close>

definition with_text :: "string \<times> obj \<Rightarrow> obj" where
  "with_text tx = dput ''text'' (JStr (fst tx)) (snd tx)"

definition text_and_item :: "obj \<Rightarrow> (string \<times> obj) result" where
  "text_and_item d = (case dget_or d ''text'' (JStr []) of JStr s \<Rightarrow> Inr (s, d) | _ \<Rightarrow> Inl TypeError)"

definition answer_evidence ::
  "(json \<Rightarrow> string) \<Rightarrow> (obj \<Rightarrow> string) \<Rightarrow> registry \<Rightarrow> string \<Rightarrow> run_setup \<Rightarrow> (string \<times> gnode) list \<Rightarrow> obj list result" where
  "answer_evidence str_of dumps rg rid rs nodes =
     bind_r (map_r text_and_item (collect_evidence str_of dumps rg rid rs nodes)) (\<lambda>items.
       Inr (map with_text (bound_evidence 0 items)))"

section \<open>The result\<close>

definition has_terminal_skill :: "registry \<Rightarrow> string \<Rightarrow> string \<times> gnode \<Rightarrow> bool" where
  "has_terminal_skill rg respond_as nn = (n_skill (snd nn) \<in> set (terminal_skills rg respond_as))"

text \<open>The node the answer is read from: a succeeded one first, then a failed one, then the last.\<close>

definition terminal_node :: "registry \<Rightarrow> string \<Rightarrow> (string \<times> gnode) list \<Rightarrow> (string \<times> gnode) option" where
  "terminal_node rg respond_as nodes =
     (let ts = filter (has_terminal_skill rg respond_as) nodes in
      case find (\<lambda>(nid, n). n_state n = Succeeded) ts of
        Some x \<Rightarrow> Some x
      | None \<Rightarrow> (case find (\<lambda>(nid, n). n_state n = Failed) ts of
            Some x \<Rightarrow> Some x
          | None \<Rightarrow> if ts = [] then None else Some (last ts)))"

definition run_status :: "registry \<Rightarrow> string \<Rightarrow> run_report \<Rightarrow> (string \<times> gnode) list \<Rightarrow> string" where
  "run_status rg respond_as report nodes =
     (if rr_waiting report \<noteq> [] then ''waiting''
      else if map_option (n_state \<circ> snd) (terminal_node rg respond_as nodes) = Some Succeeded then ''completed''
      else ''failed'')"

definition terminal_result :: "registry \<Rightarrow> string \<Rightarrow> (string \<times> gnode) list \<Rightarrow> obj" where
  "terminal_result rg respond_as nodes =
     (case terminal_node rg respond_as nodes of None \<Rightarrow> [] | Some (nid, n) \<Rightarrow> result_or_empty n)"

definition node_as_json :: "string \<times> gnode \<Rightarrow> string \<times> json" where
  "node_as_json nn =
     (let (nid, n) = nn in
      (nid, JObj ([(''id'', JStr nid), (''skill'', JStr (n_skill n)), (''input'', JObj (n_input n)),
         (''metadata'', JObj (n_metadata n)), (''state'', JStr (state_str (n_state n))),
         (''result'', (case n_result n of None \<Rightarrow> JNull | Some r \<Rightarrow> JObj r))] @
        (case n_wait n of None \<Rightarrow> [] | Some w \<Rightarrow> [(''wait'', JObj w)]))))"

definition trace_entry :: "string \<times> gnode \<Rightarrow> string \<times> json" where
  "trace_entry nn =
     (let (nid, n) = nn; r = result_or_empty n in
      (nid, JObj [(''agent'', dget_or (n_metadata n) ''agent'' (JStr (n_skill n))), (''skill'', JStr (n_skill n)),
         (''state'', JStr (state_str (n_state n))), (''provider'', jget r ''provider''), (''model'', jget r ''model''),
         (''tier'', jget (n_metadata n) ''tier'')]))"

definition event_as_json :: "event \<Rightarrow> json" where
  "event_as_json e = JObj [(''sequence'', JInt (int (ev_sequence e))), (''kind'', JStr (ev_kind e)),
     (''node_id'', opt_json (ev_node e)), (''payload'', JObj (ev_payload e))]"

text \<open>The parts that other components describe: the planner's last selection, budget, economics, allocations.\<close>

record run_extras =
  rx_planner :: json
  rx_principal :: string
  rx_budget :: json
  rx_economics :: json
  rx_allocations :: "json list"

definition run_result ::
  "registry \<Rightarrow> string \<Rightarrow> string \<Rightarrow> run_report \<Rightarrow> snapshot \<Rightarrow> event list \<Rightarrow> run_extras \<Rightarrow> obj" where
  "run_result rg rid respond_as report s evs x =
     (let answer = terminal_result rg respond_as (sn_nodes s) in
      [(''run_id'', JStr rid), (''status'', JStr (run_status rg respond_as report (sn_nodes s))),
       (''answer'', dget_or answer ''answer'' (JStr [])), (''provider'', jget answer ''provider''),
       (''model'', jget answer ''model''),
       (''graph'', JObj [(''finished'', JBool (rr_finished report)), (''nodes'', JObj (map node_as_json (sn_nodes s))),
          (''edges'', JList (map (\<lambda>(a, b). JList [JStr a, JStr b]) (sn_edges s)))]),
       (''trace'', JObj [(''planner'', rx_planner x), (''agents'', JObj (map trace_entry (sn_nodes s)))]),
       (''events'', JList (map event_as_json evs)), (''principal'', JStr (rx_principal x)),
       (''budget'', rx_budget x), (''economics'', rx_economics x), (''allocations'', JList (rx_allocations x))])"

end
