(* ===== verification/Runtime_Claims.thy ===== *)
theory Runtime_Claims
  imports Runtime Graph_Promises Event_Engine_Props
begin

text \<open>
  What the runtime promises of a run: a resumed run is the one that was started, however far its graph has
  grown; the answer worker's evidence is bounded and nothing is dropped before the bound; a completed run
  has an answer. And what it does not report: the money a run has spent.
\<close>

section \<open>Resuming\<close>

lemma scope_round_trip [simp]:
  "scope_field (scope_json sc) ''project_id'' = sc_project sc" "scope_field (scope_json sc) ''user_id'' = sc_user sc"
  "scope_field (scope_json sc) ''agent_id'' = sc_agent sc" "scope_field (scope_json sc) ''run_id'' = sc_run sc"
  "dget (scope_json sc) ''tenant_id'' = Some (JStr (sc_tenant sc))"
  by (simp_all add: scope_field_def scope_json_def opt_json_def split: option.split)

lemma map_filter_strings: "List.map_filter (\<lambda>x. case x of JStr s \<Rightarrow> Some s | _ \<Rightarrow> None) (map JStr xs) = xs"
  by (induction xs) simp_all

text \<open>The authority a resumed run has: the same side effects, without repetitions and in order.\<close>

definition as_stored :: "run_setup \<Rightarrow> run_setup" where
  "as_stored rs = rs\<lparr>rs_allowed := sort (remdups (rs_allowed rs))\<rparr>"

lemma read_run_context: "read_setup str_of d (run_context rs) = Inr (as_stored rs)"
  by (simp add: read_setup_def run_context_def as_stored_def map_filter_strings printed_def dget_or_def)

lemma dget_or_simps: "dget_or ((k, v) # d) k' w = (if k = k' then v else dget_or d k' w)" "dget_or [] k' w = w"
  by (simp_all add: dget_or_def)

text \<open>The context a run was started with stays with it through every step of the store.\<close>

definition keeps :: "(string \<Rightarrow> string) \<Rightarrow> string \<Rightarrow> obj \<Rightarrow> graph_store \<Rightarrow> bool" where
  "keeps path rid ctx st = (context_run path st rid = Inr ctx)"

lemma keeps_step:
  assumes "store_ok path st" and "keeps path rid ctx st" and "graph_step dag_check path st st'"
  shows "keeps path rid ctx st'"
proof -
  from assms(2) obtain c where c: "load_run path st rid = Inr c" "c_context c = ctx"
    by (auto simp: keeps_def context_run_def bind_r_Inr)
  show ?thesis
    using assms(3,1)
  proof (cases rule: graph_step_effect)
    case same
    with c show ?thesis by (simp add: keeps_def context_run_def load_disk [OF same])
  next
    case (new r ctx')
    then have "path r \<noteq> path rid" using c by (auto simp: load_run_Inr)
    then have "load_run path st' rid = Inr c"
      using c load_disk [OF new(2)] load_save_other [of path "created r ctx'" rid st] by simp
    with c show ?thesis by (simp add: keeps_def context_run_def)
  next
    case (step r d d')
    note same = ck_step_same_run [OF step(2) peeling.dag_checker_axioms]
    show ?thesis
    proof (cases "path r = path rid")
      case True
      then have "d = c" "r = rid" using step(1) c(1) by (auto simp: load_run_Inr)
      then show ?thesis
        using load_after_save(1) [OF step(1) same step(3)] same c(2)
        by (simp add: keeps_def context_run_def same_run_def)
    next
      case False
      then show ?thesis using load_after_save(2) [OF step(1) same step(3)] c by (simp add: keeps_def context_run_def)
    qed
  qed
qed

text \<open>The request the resuming routes make (\<open>routes.py\<close>, \<open>ui/routes.py\<close>): a model, and no budget.\<close>

definition resume_request :: "bool \<Rightarrow> run_request" where
  "resume_request transport = \<lparr>rq_prompt = None, rq_scope = None, rq_source_uri = None, rq_source_author = None,
     rq_respond_as = ''text'', rq_allowed = [], rq_evidence = [], rq_budget = None, rq_principal = None,
     rq_transport = transport, rq_llm = True\<rparr>"

text \<open>So the context a run was opened with can be read back later.\<close>

lemma started_run_keeps:
  assumes "store_ok path gs0" and "dget (gs_disk gs0) (path rid) = None"
    and "open_run str_of path rid False inbound rq gs0 = Inr (rs, gs1)"
    and "(graph_step dag_check path)\<^sup>*\<^sup>* gs1 gs2"
  shows "keeps path rid (run_context rs) gs2"
proof -
  have "gs1 = snd (start_run path gs0 rid (run_context rs))"
    using assms(3) by (auto simp: open_run_def bind_r_Inr)
  then have saved: "gs1 = save_run path (created rid (run_context rs)) gs0"
    using assms(2) by (simp add: start_run_def created_def)
  have ok: "store_ok path gs1" unfolding saved using store_ok_save [OF assms(1)] by simp
  have "keeps path rid (run_context rs) gs1"
    unfolding saved keeps_def context_run_def by (simp add: created_def new_checkpoint_def)
  then show ?thesis
    using graph_runs.steps_stable [OF assms(4) ok, of "keeps path rid (run_context rs)"] keeps_step by blast
qed

text \<open>C25: A resumed run is the run that was started: after any steps of the graph store it reads back the prompt,
  the scope, the source, the way to answer, the evidence it began with and the side effects it was allowed,
  whatever the resuming request says. Its ceiling is not among them: the request the resuming routes make
  opens no budget, so a run started with one continues without.\<close>

theorem resumed_run_is_the_one_started:
  assumes "store_ok path gs0" and "dget (gs_disk gs0) (path rid) = None"
    and "open_run str_of path rid False inbound rq gs0 = Inr (rs, gs1)"
    and "(graph_step dag_check path)\<^sup>*\<^sup>* gs1 gs2"
  shows "open_run str_of path rid True inbound' rq' gs2 = Inr (as_stored rs, gs2) \<and>
    open_budget total_default limits currency fraction rid (resume_request transport) (as_stored rs) = Inr None"
proof
  have "keeps path rid (run_context rs) gs2" using started_run_keeps [OF assms] .
  then show "open_run str_of path rid True inbound' rq' gs2 = Inr (as_stored rs, gs2)"
    by (simp add: open_run_def keeps_def read_run_context)
  show "open_budget total_default limits currency fraction rid (resume_request transport) (as_stored rs) = Inr None"
    by (simp add: open_budget_def resume_request_def Let_def)
qed

definition demo_request :: run_request where
  "demo_request = (resume_request True)\<lparr>rq_prompt := Some ''hi'', rq_source_uri := Some ''api://agent/runs'',
     rq_source_author := Some ''u'', rq_allowed := [''write_file'', ''copy_file'', ''write_file''], rq_budget := Some 1,
     rq_scope := Some \<lparr>sc_tenant = ''t'', sc_project = None, sc_user = Some ''u'', sc_agent = None, sc_run = None\<rparr>\<rparr>"

theorem resumed_run_is_the_one_started_witness:
  "\<exists>rs gs1. open_run (\<lambda>_. []) id ''r'' False JNull demo_request empty_store = Inr (rs, gs1) \<and>
     open_run (\<lambda>_. []) id ''r'' True JNull (resume_request True) gs1 = Inr (as_stored rs, gs1) \<and>
     rs_allowed (as_stored rs) = [''copy_file'', ''write_file''] \<and>
     open_budget 5 [] ''USD'' 0 ''r'' (resume_request True) (as_stored rs) = Inr None"
proof -
  obtain rs gs1 where o: "open_run (\<lambda>_. []) id ''r'' False JNull demo_request empty_store = Inr (rs, gs1)"
    "rs_allowed rs = [''write_file'', ''copy_file'', ''write_file'']"
    by (auto simp: open_run_def new_setup_def demo_request_def resume_request_def)
  have "rs_allowed (as_stored rs) = [''copy_file'', ''write_file'']"
    unfolding as_stored_def by (simp add: o(2))
  moreover have "dget (gs_disk empty_store) (id ''r'') = None" by (simp add: empty_store_def)
  note resumed_run_is_the_one_started [OF store_ok_empty this o(1) rtranclp.rtrancl_refl]
  ultimately show ?thesis using o by blast
qed

section \<open>Evidence\<close>

text \<open>What the bound makes of a list of items: a prefix of it, of which only the last text may be clipped, and
  only where the bound is reached.\<close>

lemma bound_evidence_prefix:
  "\<exists>k. length (bound_evidence used items) = k \<and> k \<le> length items \<and>
     (\<forall>i < k. snd (bound_evidence used items ! i) = snd (items ! i) \<and>
        (\<exists>n. fst (bound_evidence used items ! i) = take n (fst (items ! i)))) \<and>
     (used \<le> 28000 \<and> (k < length items \<or> map fst (bound_evidence used items) \<noteq> map fst items) \<longrightarrow>
        used + sum_list (map (\<lambda>x. length (fst x)) (bound_evidence used items)) = 28000)"
proof (induction used items rule: bound_evidence.induct)
  case (2 used t x items)
  show ?case
  proof (cases "used \<ge> 28000")
    case False
    show ?thesis
    proof (cases "length t \<le> 28000 - used")
      case True
      let ?rest = "bound_evidence (used + length t) items"
      have b: "bound_evidence used ((t, x) # items) = (t, x) # ?rest" using False True by (simp add: Let_def)
      have "used + length t \<le> 28000" using False True by simp
      with 2 [OF False refl] True have IH: "length ?rest \<le> length items"
        "\<And>i. i < length ?rest \<Longrightarrow> snd (?rest ! i) = snd (items ! i) \<and> (\<exists>n. fst (?rest ! i) = take n (fst (items ! i)))"
        "length ?rest < length items \<or> map fst ?rest \<noteq> map fst items \<Longrightarrow>
           used + length t + sum_list (map (\<lambda>x. length (fst x)) ?rest) = 28000" by auto
      have all: "\<exists>n. t = take n t" by (rule exI [of _ "length t"]) simp
      show ?thesis unfolding b using IH all
        by (intro exI [of _ "Suc (length ?rest)"]) (auto simp: nth_Cons' less_Suc_eq_0_disj add.assoc)
    next
      case clip: False
      have "bound_evidence 28000 items = []" by (cases items) (auto simp: bound_evidence.simps)
      then have "bound_evidence used ((t, x) # items) = [(take (28000 - used) t, x)]"
        using False clip by (simp add: Let_def)
      then show ?thesis using False clip by (intro exI [of _ "1"]) auto
    qed
  qed (use 2 in simp)
qed simp


lemma node_evidence_keeps: "set acc \<subseteq> set (node_evidence str_of dumps rg rid ext nn acc)"
  by (cases nn) (auto simp: node_evidence_def Let_def)

lemma fold_evidence_keeps: "set acc \<subseteq> set (fold (node_evidence str_of dumps rg rid ext) nodes acc)"
proof (induction nodes arbitrary: acc)
  case (Cons nn nodes)
  then show ?case
    using Cons [of "node_evidence str_of dumps rg rid ext nn acc"] node_evidence_keeps [of acc str_of dumps rg rid ext nn]
    by auto
qed simp

text \<open>The record of a failed task.\<close>

definition failure_record :: "string \<Rightarrow> string \<times> gnode \<Rightarrow> obj" where
  "failure_record rid nn =
     [(''text'', dget_or (result_or_empty (snd nn)) ''error'' (JStr ''task failed'')),
      (''sources'', JList [JStr (''graph://'' @ rid @ ''/'' @ fst nn)]), (''kind'', JStr ''failure'')]"

lemma failures_collected:
  "nn \<in> set nodes \<Longrightarrow> n_state (snd nn) = Failed \<Longrightarrow>
   failure_record rid nn \<in> set (fold (node_evidence str_of dumps rg rid ext) nodes acc)"
proof (induction nodes arbitrary: acc)
  case (Cons mm nodes)
  show ?case
  proof (cases "nn = mm")
    case True
    then have "failure_record rid nn \<in> set (node_evidence str_of dumps rg rid ext mm acc)"
      using Cons.prems(2) by (simp add: node_evidence_def failure_record_def case_prod_beta Let_def)
    then show ?thesis by (simp add: subsetD [OF fold_evidence_keeps])
  qed (use Cons in simp)
qed simp

definition text_length :: "obj \<Rightarrow> nat" where
  "text_length r = (case dget r ''text'' of Some (JStr s) \<Rightarrow> length s | _ \<Rightarrow> 0)"

definition clipped_from :: "obj \<Rightarrow> obj \<Rightarrow> bool" where
  "clipped_from r r' = (\<exists>s n. dget_or r ''text'' (JStr []) = JStr s \<and> r' = dput ''text'' (JStr (take n s)) r)"

text \<open>The evidence the answer worker sees is bounded and honest: together its texts are at most 28,000
  characters; it is, in order, a prefix of what the run collected, each item with its sources and kind and at
  most its text clipped; an item is only missing where the bound is used up; and what is collected has a
  failure record for every task that failed.\<close>

lemma answer_evidence_is_bounded_and_honest:
  assumes "answer_evidence str_of dumps rg rid rs nodes = Inr items"
  shows "sum_list (map text_length items) \<le> 28000 \<and>
    list_all2 clipped_from (take (length items) (collect_evidence str_of dumps rg rid rs nodes)) items \<and>
    (length items < length (collect_evidence str_of dumps rg rid rs nodes) \<longrightarrow> sum_list (map text_length items) = 28000) \<and>
    (\<forall>nn \<in> set nodes. n_state (snd nn) = Failed \<longrightarrow>
       failure_record rid nn \<in> set (collect_evidence str_of dumps rg rid rs nodes))"
proof -
  let ?all = "collect_evidence str_of dumps rg rid rs nodes"
  obtain tis where tis: "map_r text_and_item ?all = Inr tis" "items = map with_text (bound_evidence 0 tis)"
    using assms by (auto simp: answer_evidence_def bind_r_Inr)
  have rel: "list_all2 (\<lambda>x y. text_and_item x = Inr y) ?all tis" using map_r_all2 [OF tis(1)] .
  have lens: "length ?all = length tis" using rel by (rule list_all2_lengthD)
  let ?b = "bound_evidence 0 tis"
  obtain k where k: "length ?b = k" "k \<le> length tis"
    "\<And>i. i < k \<Longrightarrow> snd (?b ! i) = snd (tis ! i) \<and> (\<exists>n. fst (?b ! i) = take n (fst (tis ! i)))"
    "k < length tis \<Longrightarrow> sum_list (map (\<lambda>x. length (fst x)) ?b) = 28000"
    using bound_evidence_prefix [of 0 tis] by auto
  have len: "map text_length items = map (\<lambda>x. length (fst x)) ?b"
    unfolding tis(2) by (auto simp: text_length_def with_text_def)
  have "list_all2 clipped_from (take (length items) ?all) items"
  proof (rule list_all2_all_nthI)
    show "length (take (length items) ?all) = length items" using tis(2) k(1,2) lens by simp
    fix i assume "i < length (take (length items) ?all)"
    then have i: "i < k" "i < length tis" using tis(2) k(1,2) lens by simp_all
    from list_all2_nthD2 [OF rel i(2)] have ti: "text_and_item (?all ! i) = Inr (tis ! i)" .
    then obtain s where s: "dget_or (?all ! i) ''text'' (JStr []) = JStr s" "tis ! i = (s, ?all ! i)"
      by (auto simp: text_and_item_def split: json.splits)
    from k(3) [OF i(1)] s(2) obtain n where "?b ! i = (take n s, ?all ! i)"
      by (metis fst_conv prod.collapse snd_conv)
    with s i k(1) show "clipped_from (take (length items) ?all ! i) (items ! i)"
      by (auto simp: tis(2) clipped_from_def with_text_def)
  qed
  moreover have "sum_list (map text_length items) \<le> 28000"
    unfolding len using bound_evidence_total [of 0 tis] by (simp add: o_def)
  moreover have "length items < length ?all \<longrightarrow> sum_list (map text_length items) = 28000"
    unfolding len using k(1,4) tis(2) lens by simp
  moreover have "\<forall>nn \<in> set nodes. n_state (snd nn) = Failed \<longrightarrow> failure_record rid nn \<in> set ?all"
    unfolding collect_evidence_def using failures_collected by blast
  ultimately show ?thesis by blast
qed

definition failed_node :: "string \<times> gnode" where
  "failed_node = (''t'', \<lparr>n_skill = ''web_search'', n_input = [], n_metadata = [], n_state = Failed,
     n_result = Some [(''error'', JStr ''no network'')], n_wait = None\<rparr>)"

definition demo_setup :: run_setup where
  "demo_setup = \<lparr>rs_prompt = ''hi'', rs_scope = \<lparr>sc_tenant = ''t'', sc_project = None, sc_user = None, sc_agent = None, sc_run = None\<rparr>,
     rs_source_uri = ''api://agent/runs'', rs_source_author = ''u'', rs_inbound = JNull, rs_respond_as = ''text'',
     rs_allowed = [], rs_evidence = []\<rparr>"

lemma answer_evidence_is_bounded_and_honest_witness:
  "\<exists>items. answer_evidence (\<lambda>_. []) (\<lambda>_. []) [] ''r'' demo_setup [failed_node] = Inr items \<and> length items = 1 \<and>
     sum_list (map text_length items) \<le> 28000 \<and>
     failure_record ''r'' failed_node \<in> set (collect_evidence (\<lambda>_. []) (\<lambda>_. []) [] ''r'' demo_setup [failed_node])"
proof -
  obtain items where i: "answer_evidence (\<lambda>_. []) (\<lambda>_. []) [] ''r'' demo_setup [failed_node] = Inr items" "length items = 1"
    by (auto simp: answer_evidence_def collect_evidence_def stimulus_evidence_def demo_setup_def failed_node_def
        node_evidence_def Let_def map_r_def text_and_item_def dget_or_def result_or_empty_def bound_evidence.simps)
  from answer_evidence_is_bounded_and_honest [OF i(1)] i show ?thesis by (auto simp: failed_node_def)
qed

section \<open>The result\<close>

text \<open>A run that is reported completed has nothing waiting and answers from a succeeded terminal node.\<close>

lemma find_member: "find P xs = Some x \<Longrightarrow> x \<in> set xs \<and> P x"
  by (auto simp: find_Some_iff)

lemma completed_run_has_answered:
  assumes "run_status rg respond_as report nodes = ''completed''"
  shows "rr_waiting report = [] \<and> (\<exists>nid n. (nid, n) \<in> set nodes \<and> n_state n = Succeeded \<and>
    n_skill n \<in> set (terminal_skills rg respond_as) \<and> terminal_result rg respond_as nodes = result_or_empty n)"
proof -
  from assms obtain nid n where n: "terminal_node rg respond_as nodes = Some (nid, n)" "n_state n = Succeeded"
    "rr_waiting report = []" by (auto simp: run_status_def split: if_splits)
  have last: "ts \<noteq> [] \<Longrightarrow> last ts = x \<Longrightarrow> x \<in> set ts" for ts :: "(string \<times> gnode) list" and x
    using last_in_set by blast
  from n(1) have "(nid, n) \<in> set (filter (has_terminal_skill rg respond_as) nodes)"
    by (auto simp: terminal_node_def Let_def simp del: set_filter split: option.splits if_splits
        dest: find_member intro: last)
  with n show ?thesis by (auto simp: terminal_result_def has_terminal_skill_def)
qed

lemma result_has_no_spend: "jget (run_result rg rid respond_as report s evs x) ''spend_usd'' = JNull"
  by (simp add: run_result_def Let_def jget_def dget_or_def)

lemma windows_add_decision: "es_windows (add_decision now src i d st) = es_windows st"
  by (auto simp: add_decision_def Let_def split: option.split)

lemma round_zero: "py_round n 0 = 0"
  using round_even_of_int [of 0] by (simp add: py_round_def)

lemma no_spend_recorded:
  assumes "window_spend sub day k st = 0"
  shows "window_spend sub day k (governor_record i kind 0 mo 0 st) = 0"
proof (cases "window_key sub day = window_key i (mo_day mo) \<and> k = kind")
  case True
  then have "w_usd (window_entry i (mo_day mo) kind st) = 0"
    using assms window_entry_key [of sub day i "mo_day mo" k st] by (simp add: window_spend_def)
  with True show ?thesis
    by (simp add: window_spend_def governor_record_def window_record_def Let_def window_entry_put_other round_zero)
next
  case False
  with assms show ?thesis
    by (auto simp: window_spend_def governor_record_def window_record_def Let_def window_entry_put_other)
qed

text \<open>A scheduled run's money never reaches the ledger: the engine reads \<open>spend_usd\<close> from the result of the run,
  and the runtime's result has no such field, whatever the run spent. Finishing tasks with the runtime's
  results leaves the recorded spend of every subscription, day and kind at the zero it starts from, so the
  daily budget that later runs are admitted against is never used up.\<close>

lemma finished_runs_record_no_spend:
  assumes "window_spend sub day k st = 0"
  shows "window_spend sub day k (fold (\<lambda>(mo, t, (rg, rid, respond_as, report, s, evs, x)).
      finish_task mo (run_result rg rid respond_as report s evs x) t) finished st) = 0"
  using assms
proof (induction finished arbitrary: st)
  case (Cons f finished)
  obtain mo t rg rid respond_as report s evs x where f: "f = (mo, t, (rg, rid, respond_as, report, s, evs, x))"
    by (metis prod_cases7)
  have "window_spend sub day k (finish_task mo (run_result rg rid respond_as report s evs x) t st) = 0"
    using no_spend_recorded [OF Cons.prems]
    by (simp add: finish_task_def put_decision_def result_has_no_spend or_else_def num_or_zero_def Let_def
        window_spend_def window_entry_cong [OF windows_add_decision])
  then show ?case using Cons.IH f by simp
qed simp

definition spending_result :: "registry \<times> string \<times> string \<times> run_report \<times> snapshot \<times> event list \<times> run_extras" where
  "spending_result = ([], ''r'', ''text'', \<lparr>rr_run_id = ''r'', rr_finished = True, rr_executed = [], rr_waiting = []\<rparr>,
     \<lparr>sn_run_id = ''r'', sn_finished = True, sn_nodes = [], sn_edges = []\<rparr>, [],
     \<lparr>rx_planner = JNull, rx_principal = ''t'', rx_budget = JObj [(''spent'', JFloat 3)], rx_economics = JNull, rx_allocations = []\<rparr>)"

lemma finished_runs_record_no_spend_witness:
  "window_spend ''s'' ''2025-01-01'' ''run'' empty_events = 0 \<and>
   (\<forall>mo t. window_spend ''s'' ''2025-01-01'' ''run'' (fold (\<lambda>(mo, t, (rg, rid, respond_as, report, s, evs, x)).
      finish_task mo (run_result rg rid respond_as report s evs x) t) [(mo, t, spending_result)] empty_events) = 0)"
proof -
  have "window_spend ''s'' ''2025-01-01'' ''run'' empty_events = 0"
    by (simp add: window_spend_def window_entry_def empty_events_def dget_or_def)
  then show ?thesis using finished_runs_record_no_spend by blast
qed

end
