(* ===== verification/Telemetry.thy ===== *)
theory Telemetry
  imports Graph_Model Json
begin

text \<open>
  From the durable journal to a trace (\<open>telemetry/spans.py\<close>): the span tree run, loop, plan, node, provider
  call, its times, and what an export counts. Times are integers of nanoseconds; the SDK that
  assigns trace ids is outside. The mutable spans the code keeps in \<open>loops\<close>, \<open>node_to_loop\<close> and \<open>open_nodes\<close> are
  addressed by their place: a loop by its index among the children of the root, a node by its index in its loop.
\<close>

section \<open>Spans\<close>

datatype tspan = TSpan
  (ts_name: string) (ts_kind: string) (ts_attrs: obj) (ts_children: "tspan list")
  (ts_start: "int option") (ts_end: "int option") (ts_events: "(string \<times> obj) list") (ts_error: "string option")

definition add_child :: "tspan \<Rightarrow> tspan \<Rightarrow> tspan" where
  "add_child c t = TSpan (ts_name t) (ts_kind t) (ts_attrs t) (ts_children t @ [c]) (ts_start t) (ts_end t) (ts_events t) (ts_error t)"

definition change_child :: "nat \<Rightarrow> (tspan \<Rightarrow> tspan) \<Rightarrow> tspan \<Rightarrow> tspan" where
  "change_child j f t = TSpan (ts_name t) (ts_kind t) (ts_attrs t) ((ts_children t)[j := f (ts_children t ! j)])
     (ts_start t) (ts_end t) (ts_events t) (ts_error t)"

text \<open>\<open>walk\<close>: parents before children, which is also the order in which spans are started; they end after
  their children, which is the order of the finished spans.\<close>

fun walk_spans :: "tspan \<Rightarrow> tspan list" where
  "walk_spans (TSpan n k a cs s e ev er) = TSpan n k a cs s e ev er # concat (map walk_spans cs)"

fun finished_spans :: "tspan \<Rightarrow> tspan list" where
  "finished_spans (TSpan n k a cs s e ev er) = concat (map finished_spans cs) @ [TSpan n k a cs s e ev er]"

declare walk_spans.simps [simp del] finished_spans.simps [simp del]

definition least :: "int list \<Rightarrow> int" where
  "least xs = fold min (tl xs) (hd xs)"

definition greatest :: "int list \<Rightarrow> int" where
  "greatest xs = fold max (tl xs) (hd xs)"

text \<open>\<open>resolve_times\<close>, bottom-up: a parent covers its children, leaves use their own or the fallback.
  \<open>start_ns or fallback\<close> takes the fallback for 0 too.\<close>

definition or_fallback :: "int option \<Rightarrow> int \<Rightarrow> int" where
  "or_fallback t fallback = (case t of None \<Rightarrow> fallback | Some n \<Rightarrow> if n = 0 then fallback else n)"

definition resolve_start :: "int option \<Rightarrow> int list \<Rightarrow> int \<Rightarrow> int" where
  "resolve_start own starts fallback =
     (case own of None \<Rightarrow> if starts = [] then fallback else least starts
      | Some n \<Rightarrow> if starts = [] then n else least (n # starts))"

definition resolve_end :: "int option \<Rightarrow> int list \<Rightarrow> int \<Rightarrow> int" where
  "resolve_end own ends fallback =
     (case own of None \<Rightarrow> if ends = [] then fallback else greatest ends
      | Some n \<Rightarrow> if ends = [] then n else greatest (n # ends))"

fun resolve_times :: "int \<Rightarrow> int \<Rightarrow> tspan \<Rightarrow> tspan" where
  "resolve_times fs fe (TSpan n k a cs s e ev er) =
     (let cs' = map (resolve_times (or_fallback s fs) (or_fallback e fe)) cs;
          s' = resolve_start s (List.map_filter ts_start cs') fs;
          e' = resolve_end e (List.map_filter ts_end cs') fe
      in TSpan n k a cs' (Some s') (Some (if e' < s' then s' else e')) ev er)"

declare resolve_times.simps [simp del]

section \<open>What a trace is built from\<close>

text \<open>The journal shape: \<open>{run_id, finished, nodes, edges, events}\<close>, and an agent's name where one is given.\<close>

record traced_run =
  tr_run_id :: string
  tr_finished :: bool
  tr_agent :: json
  tr_nodes :: "(string \<times> gnode) list"
  tr_events :: "event list"

definition capture_enabled :: "bool option \<Rightarrow> string option \<Rightarrow> bool" where
  "capture_enabled explicit env =
     (case explicit of Some b \<Rightarrow> b
      | None \<Rightarrow> lower (strip (case env of None \<Rightarrow> ''0'' | Some s \<Rightarrow> s)) \<in> {''1'', ''true'', ''yes'', ''on''})"

text \<open>The model calls of an event, whatever its kind.\<close>

definition metered_calls :: "event \<Rightarrow> obj list result" where
  "metered_calls e = records (jget (ev_payload e) ''metered_calls'')"

definition started_at :: "pytext \<Rightarrow> obj \<Rightarrow> rat" where
  "started_at px call = num_value px (jget call ''started_at'')"

definition cost_of :: "pytext \<Rightarrow> obj \<Rightarrow> rat" where
  "cost_of px call = num_value px (jget call ''cost'')"

definition clock_base :: "pytext \<Rightarrow> rat \<Rightarrow> event list \<Rightarrow> rat result" where
  "clock_base px now es =
     bind_r (map_r metered_calls es) (\<lambda>css.
       let starts = filter (\<lambda>t. t > 0) (map (started_at px) (concat css))
       in Inr (if starts = [] then now else fold min (tl starts) (hd starts)))"

text \<open>The synthetic clock: sequence numbers laid out around the first real call.\<close>

definition clock :: "rat \<Rightarrow> rat \<Rightarrow> nat \<Rightarrow> nat \<Rightarrow> int" where
  "clock base tick first sequence = int_of_rat ((base + (of_nat sequence - of_nat first) * tick) * 1000000000)"

section \<open>Spans of calls and decisions\<close>

record trace_args =
  ta_text :: pytext
  ta_clock :: "nat \<Rightarrow> int"
  ta_capture :: bool
  ta_budget :: obj
  ta_run :: traced_run

definition currency_of :: "trace_args \<Rightarrow> json" where
  "currency_of a = dget_or (ta_budget a) ''currency'' (JStr ''USD'')"

definition call_start :: "trace_args \<Rightarrow> nat \<Rightarrow> obj \<Rightarrow> int" where
  "call_start a sequence call =
     (let t = started_at (ta_text a) call in if t > 0 then int_of_rat (t * 1000000000) else ta_clock a sequence)"

definition planner_call_span :: "trace_args \<Rightarrow> nat \<Rightarrow> nat \<times> obj \<Rightarrow> tspan result" where
  "planner_call_span a sequence ic =
     (let (index, call) = ic; px = ta_text a; txt = \<lambda>k d. JStr (text_value px (jget call k) d);
          start = call_start a sequence call
      in bind_r (int_value px (jget call ''input_tokens'')) (\<lambda>i.
         bind_r (int_value px (jget call ''output_tokens'')) (\<lambda>out.
         Inr (TSpan (''planner chat '' @ text_value px (jget call ''model'') ''model'') ''provider_call''
           [(''s15.span.kind'', JStr ''provider_call''), (''gen_ai.operation.name'', JStr ''chat''),
            (''gen_ai.provider.name'', txt ''provider'' ''unknown''),
            (''gen_ai.request.model'', JStr (text_value px (or_else (jget call ''requested_model'') (jget call ''model'')) ''unknown'')),
            (''gen_ai.response.model'', txt ''model'' ''unknown''),
            (''gen_ai.usage.input_tokens'', JInt i), (''gen_ai.usage.output_tokens'', JInt out),
            (''s15.cost'', JFloat (cost_of px call)), (''s15.currency'', currency_of a),
            (''s15.tier'', txt ''tier'' []), (''s15.node.id'', txt ''node_id'' (''plan_'' @ digits index)),
            (''s15.budget.decision'', txt ''decision'' ''proceed''),
            (''s15.budget.remaining'', JFloat (num_value px (jget call ''budget_remaining'')))]
           [] (Some start) (Some (start + int_of_rat (num_value px (jget call ''latency_ms'') * 1000000))) [] None))))"

definition node_call_span :: "trace_args \<Rightarrow> nat \<Rightarrow> string \<Rightarrow> obj \<Rightarrow> tspan result" where
  "node_call_span a sequence nid call =
     (let px = ta_text a; txt = \<lambda>k d. JStr (text_value px (jget call k) d); start = call_start a sequence call
      in bind_r (int_value px (jget call ''input_tokens'')) (\<lambda>i.
         bind_r (int_value px (jget call ''output_tokens'')) (\<lambda>out.
         bind_r (if truthy (jget call ''cache_read_tokens'')
                 then bind_r (int_value px (jget call ''cache_read_tokens'')) (\<lambda>n.
                   Inr [(''gen_ai.usage.cache_read_input_tokens'', JInt n)])
                 else Inr []) (\<lambda>cached.
         Inr (TSpan (''chat '' @ text_value px (jget call ''model'') ''model'') ''provider_call''
           ([(''s15.span.kind'', JStr ''provider_call''), (''gen_ai.operation.name'', JStr ''chat''),
             (''gen_ai.provider.name'', txt ''provider'' ''unknown''),
             (''gen_ai.request.model'', JStr (text_value px (or_else (jget call ''requested_model'') (jget call ''model'')) ''unknown'')),
             (''gen_ai.response.model'', txt ''model'' ''unknown''),
             (''gen_ai.usage.input_tokens'', JInt i), (''gen_ai.usage.output_tokens'', JInt out),
             (''s15.cost'', JFloat (cost_of px call)), (''s15.currency'', currency_of a),
             (''s15.tier'', txt ''tier'' []), (''s15.node.id'', JStr nid),
             (''s15.budget.decision'', txt ''decision'' ''proceed''),
             (''s15.budget.remaining'', JFloat (num_value px (jget call ''budget_remaining''))),
             (''s15.cost.projected'', JFloat (num_value px (jget call ''projected_cost'')))] @
            (if truthy (jget call ''reasoning'')
             then [(''gen_ai.request.reasoning_effort'', JStr (printed (px_str px) (jget call ''reasoning'')))] else []) @
            cached @
            (if ta_capture a \<and> truthy (jget call ''prompt'')
             then [(''gen_ai.input.messages'', JStr (printed (px_str px) (jget call ''prompt'')))] else []) @
            (if ta_capture a \<and> truthy (jget call ''completion'')
             then [(''gen_ai.output.messages'', JStr (printed (px_str px) (jget call ''completion'')))] else []))
           [] (Some start)
           (Some (start + int_of_rat (max (num_value px (jget call ''latency_ms'')) 0 * 1000000))) [] None)))))"

definition plan_decision :: "pytext \<Rightarrow> obj \<Rightarrow> string \<times> obj" where
  "plan_decision px d = (''budget.decision'',
     [(''s15.budget.decision'', JStr (text_value px (jget d ''action'') [])),
      (''s15.budget.reason'', JStr (text_value px (jget d ''reason'') [])),
      (''s15.tier'', JStr (text_value px (jget d ''tier'') []))])"

definition node_decision :: "pytext \<Rightarrow> obj \<Rightarrow> string \<times> obj" where
  "node_decision px d = (''budget.decision'',
     snd (plan_decision px d) @
     [(''s15.tier.requested'', JStr (text_value px (jget d ''requested_tier'') [])),
      (''s15.budget.projected_cost'', JFloat (num_value px (jget d ''projected_cost'')))])"

section \<open>One event after another\<close>

record tracing =
  tc_loops :: "tspan list"
  tc_home :: "(string \<times> nat) list"
  tc_open :: "(string \<times> nat \<times> nat) list"
  tc_calls :: nat
  tc_cost :: rat

definition change_loop :: "nat \<Rightarrow> (tspan \<Rightarrow> tspan) \<Rightarrow> tracing \<Rightarrow> tracing" where
  "change_loop i f st = st\<lparr>tc_loops := (tc_loops st)[i := f (tc_loops st ! i)]\<rparr>"

definition loop_attrs :: "nat \<Rightarrow> obj" where
  "loop_attrs number = [(''s15.span.kind'', JStr ''agent_loop''), (''gen_ai.operation.name'', JStr ''invoke_agent''),
     (''s15.loop.round'', JInt (int number))]"

text \<open>\<open>node_to_loop.get(id) or current_loop(sequence)\<close>, the loop a node hangs under; a first loop is
  made where there is none.\<close>

definition loop_of :: "trace_args \<Rightarrow> nat \<Rightarrow> string \<Rightarrow> tracing \<Rightarrow> nat \<times> tracing" where
  "loop_of a sequence nid st =
     (case dget (tc_home st) nid of Some i \<Rightarrow> (i, st)
      | None \<Rightarrow>
          if tc_loops st = []
          then (0, st\<lparr>tc_loops := [TSpan ''agent loop 1'' ''agent_loop'' (loop_attrs 1) [] (Some (ta_clock a sequence)) None [] None]\<rparr>)
          else (length (tc_loops st) - 1, st))"

definition plan_attrs :: "trace_args \<Rightarrow> obj \<Rightarrow> string list \<Rightarrow> string list \<Rightarrow> obj" where
  "plan_attrs a payload added cancelled =
     [(''s15.span.kind'', JStr ''plan''), (''gen_ai.operation.name'', JStr ''invoke_agent''),
      (''s15.plan.reason'', JStr (text_value (ta_text a) (jget payload ''reason'') [])),
      (''s15.plan.added'', JStr (join '','' added)), (''s15.plan.added_count'', JInt (int (length added))),
      (''s15.plan.cancelled'', JStr (join '','' cancelled)), (''s15.plan.finish'', JBool (truthy (jget payload ''finish'')))]"

definition trace_patch :: "trace_args \<Rightarrow> event \<Rightarrow> tracing \<Rightarrow> tracing result" where
  "trace_patch a e st =
     (let payload = ev_payload e; px = ta_text a; t = ta_clock a (ev_sequence e);
          number = length (tc_loops st) + 1; shown = map (printed (px_str px))
      in bind_r (int_value px (jget payload ''trigger_event'')) (\<lambda>trigger.
         bind_r (iterated (jget payload ''add'')) (\<lambda>added.
         bind_r (iterated (jget payload ''cancel'')) (\<lambda>cancelled.
         bind_r (records (jget payload ''budget_decisions'')) (\<lambda>ds.
         bind_r (metered_calls e) (\<lambda>cs.
         bind_r (map_r (planner_call_span a (ev_sequence e)) (enumerate 1 cs)) (\<lambda>calls_spans.
         let plan = TSpan ''plan'' ''plan'' (plan_attrs a payload (shown added) (shown cancelled)) calls_spans
               (Some t) (Some t) (map (plan_decision px) ds) None;
             lp = TSpan (''agent loop '' @ digits number) ''agent_loop''
               (loop_attrs number @ [(''s15.loop.trigger_event'', JInt trigger)]) [plan] (Some t) None [] None
         in Inr (st\<lparr>tc_loops := tc_loops st @ [lp],
                 tc_home := fold (\<lambda>i. dput i (number - 1)) (shown added) (tc_home st),
                 tc_calls := tc_calls st + length cs, tc_cost := tc_cost st + sum_list (map (cost_of px) cs)\<rparr>))))))))"

definition node_base :: "trace_args \<Rightarrow> string \<Rightarrow> obj" where
  "node_base a nid = [(''s15.node.id'', JStr nid), (''s15.run.id'', JStr (tr_run_id (ta_run a)))]"

definition trace_start :: "trace_args \<Rightarrow> event \<Rightarrow> string \<Rightarrow> tracing \<Rightarrow> tracing" where
  "trace_start a e nid st =
     (let px = ta_text a; payload = ev_payload e; node = dget (tr_nodes (ta_run a)) nid;
          (i, st1) = loop_of a (ev_sequence e) nid st;
          skill = text_value px (or_else (jget payload ''skill'')
            (JStr (case node of Some n \<Rightarrow> if n_skill n = [] then nid else n_skill n | None \<Rightarrow> nid))) [];
          tier = (case node of Some n \<Rightarrow> jget (n_metadata n) ''tier'' | None \<Rightarrow> JNull);
          span = TSpan (''node '' @ nid) ''node''
            ([(''s15.span.kind'', JStr ''node''), (''gen_ai.operation.name'', JStr ''execute_tool''),
              (''gen_ai.tool.name'', JStr skill),
              (''gen_ai.agent.name'', JStr (text_value px (jget payload ''agent'') skill))] @ node_base a nid @
             (if truthy tier then [(''s15.tier'', JStr (printed (px_str px) tier))] else []))
            [] (Some (ta_clock a (ev_sequence e))) None [] None
      in (change_loop i (add_child span) st1)
           \<lparr>tc_open := dput nid (i, length (ts_children (tc_loops st1 ! i))) (tc_open st)\<rparr>)"

text \<open>The node's open span, or one made on the spot for a task that is settled without having run.\<close>

definition find_span :: "trace_args \<Rightarrow> event \<Rightarrow> string \<Rightarrow> tracing \<Rightarrow> nat \<times> nat \<times> tracing" where
  "find_span a e nid st =
     (case dget (tc_open st) nid of
        Some (i, j) \<Rightarrow> (i, j, st\<lparr>tc_open := ddel nid (tc_open st)\<rparr>)
      | None \<Rightarrow>
          (let (i, st1) = loop_of a (ev_sequence e) nid st;
               span = TSpan (''node '' @ nid) ''node''
                 ([(''s15.span.kind'', JStr ''node''), (''gen_ai.operation.name'', JStr ''execute_tool'')] @ node_base a nid)
                 [] (Some (ta_clock a (ev_sequence e))) None [] None
           in (i, length (ts_children (tc_loops st1 ! i)), change_loop i (add_child span) st1)))"

definition end_state :: "string \<Rightarrow> string" where
  "end_state k = (if k = ''task_succeeded'' then ''succeeded'' else if k = ''task_failed'' then ''failed'' else ''cancelled'')"

definition close_span :: "trace_args \<Rightarrow> event \<Rightarrow> obj list \<Rightarrow> tspan list \<Rightarrow> tspan \<Rightarrow> tspan" where
  "close_span a e ds calls_spans t =
     (let px = ta_text a; payload = ev_payload e; k = ev_kind e in
      TSpan (ts_name t) (ts_kind t)
        (let with_state = dput ''s15.node.state'' (JStr (end_state k)) (ts_attrs t) in
         if k = ''task_cancelled''
         then dput ''s15.node.cancel_reason'' (JStr (text_value px (jget payload ''reason'') [])) with_state
         else with_state)
        (ts_children t @ calls_spans) (ts_start t) (Some (ta_clock a (ev_sequence e)))
        (ts_events t @ map (node_decision px) ds)
        (if k = ''task_failed'' then Some (text_value px (jget payload ''error'') ''task failed'') else ts_error t))"

definition trace_end :: "trace_args \<Rightarrow> event \<Rightarrow> string \<Rightarrow> tracing \<Rightarrow> tracing result" where
  "trace_end a e nid st =
     (let (i, j, st1) = find_span a e nid st
      in bind_r (records (jget (ev_payload e) ''budget_decisions'')) (\<lambda>ds.
         bind_r (metered_calls e) (\<lambda>cs.
         bind_r (map_r (node_call_span a (ev_sequence e) nid) cs) (\<lambda>calls_spans.
         Inr ((change_loop i (change_child j (close_span a e ds calls_spans)) st1)
           \<lparr>tc_calls := tc_calls st1 + length cs,
            tc_cost := tc_cost st1 + sum_list (map (cost_of (ta_text a)) cs)\<rparr>)))))"

definition terminal_kinds :: "string list" where
  "terminal_kinds = [''task_succeeded'', ''task_failed'', ''task_cancelled'']"

definition trace_event :: "trace_args \<Rightarrow> event \<Rightarrow> tracing \<Rightarrow> tracing result" where
  "trace_event a e st =
     (if ev_kind e = ''graph_patched'' then trace_patch a e st else
      case ev_node e of
        Some (c # cs) \<Rightarrow>
          if ev_kind e = ''task_started'' then Inr (trace_start a e (c # cs) st)
          else if ev_kind e \<in> set terminal_kinds then trace_end a e (c # cs) st
          else Inr st
      | _ \<Rightarrow> Inr st)"

section \<open>The tree\<close>

definition refusal_event :: "pytext \<Rightarrow> obj \<Rightarrow> string \<times> obj" where
  "refusal_event px r = (''budget.refused'',
     [(''s15.node.id'', JStr (text_value px (jget r ''node_id'') [])),
      (''s15.budget.reason'', JStr (text_value px (jget r ''reason'') [])),
      (''s15.budget.spent'', JFloat (num_value px (jget r ''spent''))),
      (''s15.budget.remaining'', JFloat (num_value px (jget r ''remaining'')))])"

definition budget_attrs :: "pytext \<Rightarrow> obj \<Rightarrow> obj result" where
  "budget_attrs px b =
     (if b = [] then Inr [] else
      bind_r (int_value px (jget b ''refusals'')) (\<lambda>refused.
      bind_r (int_value px (jget b ''downgrades'')) (\<lambda>downs.
      Inr [(''s15.budget.total'', JFloat (num_value px (jget b ''total''))),
           (''s15.budget.spent'', JFloat (num_value px (jget b ''spent''))),
           (''s15.budget.remaining'', JFloat (num_value px (jget b ''remaining''))),
           (''s15.currency'', dget_or b ''currency'' (JStr ''USD'')),
           (''s15.budget.refusals'', JInt refused), (''s15.budget.downgrades'', JInt downs)])))"

definition run_attrs :: "pytext \<Rightarrow> json \<Rightarrow> traced_run \<Rightarrow> obj" where
  "run_attrs px who run =
     [(''s15.span.kind'', JStr ''run''), (''s15.run.id'', JStr (tr_run_id run)),
      (''gen_ai.operation.name'', JStr ''invoke_agent''),
      (''gen_ai.agent.name'', JStr (text_value px (tr_agent run) ''s17code'')),
      (''s15.run.finished'', JBool (tr_finished run)), (''s15.journal.events'', JInt (int (length (tr_events run))))] @
     (if truthy who then [(''s15.principal'', who)] else [])"

definition build_span_tree ::
  "pytext \<Rightarrow> rat \<Rightarrow> rat \<Rightarrow> bool \<Rightarrow> string option \<Rightarrow> obj \<Rightarrow> traced_run \<Rightarrow> tspan result" where
  "build_span_tree px now tick capture payer budget run0 =
     (let run = run0\<lparr>tr_run_id := (if tr_run_id run0 = [] then ''unknown-run'' else tr_run_id run0)\<rparr>;
          es = tr_events run; first = (if es = [] then 0 else ev_sequence (hd es));
          final = (if es = [] then first else ev_sequence (last es));
          who = or_else (case payer of None \<Rightarrow> JNull | Some p \<Rightarrow> JStr p) (jget budget ''principal'')
      in bind_r (clock_base px now es) (\<lambda>base.
         let a = \<lparr>ta_text = px, ta_clock = clock base tick first, ta_capture = capture, ta_budget = budget, ta_run = run\<rparr>
         in bind_r (budget_attrs px budget) (\<lambda>battrs.
            bind_r (if budget = [] then Inr [] else records (jget budget ''refusal_log'')) (\<lambda>refused.
            bind_r (fold_r (trace_event a) es \<lparr>tc_loops = [], tc_home = [], tc_open = [], tc_calls = 0, tc_cost = 0\<rparr>) (\<lambda>st.
            Inr (resolve_times (ta_clock a first) (ta_clock a final)
              (TSpan (''run '' @ tr_run_id run) ''run''
                (dmerge (dmerge (run_attrs px who run) battrs)
                  [(''s15.provider_calls'', JInt (int (tc_calls st))), (''s15.loops'', JInt (int (length (tc_loops st)))),
                   (''s15.cost'', JFloat (tc_cost st))])
                (tc_loops st) (Some (ta_clock a first)) None (map (refusal_event px) refused) None)))))))"

section \<open>What an export counts\<close>

definition kind_of :: "pytext \<Rightarrow> tspan \<Rightarrow> string" where
  "kind_of px t = printed (px_str px) (dget_or (ts_attrs t) ''s15.span.kind'' (JStr ''unknown''))"

definition by_kind :: "pytext \<Rightarrow> tspan list \<Rightarrow> (string \<times> nat) list" where
  "by_kind px spans = fold (\<lambda>t d. dput (kind_of px t) (dget_or d (kind_of px t) 0 + 1) d) spans []"

definition provider_call_spans :: "tspan list \<Rightarrow> tspan list" where
  "provider_call_spans spans = filter (\<lambda>t. dget (ts_attrs t) ''s15.span.kind'' = Some (JStr ''provider_call'')) spans"

record trace_totals =
  tt_spans :: nat
  tt_by_kind :: "(string \<times> nat) list"
  tt_calls :: nat
  tt_input :: int
  tt_output :: int
  tt_cost :: rat

text \<open>Attributes of a call span are numbers: they were made by \<open>int\<close> and \<open>float\<close>.\<close>

definition span_num :: "tspan \<Rightarrow> string \<Rightarrow> rat" where
  "span_num t k = (case num_of (dget_or (ts_attrs t) k (JInt 0)) of None \<Rightarrow> 0 | Some q \<Rightarrow> q)"

definition export_totals :: "pytext \<Rightarrow> tspan list \<Rightarrow> trace_totals" where
  "export_totals px spans =
     (let cs = provider_call_spans spans in
      \<lparr>tt_spans = length spans, tt_by_kind = by_kind px spans, tt_calls = length cs,
       tt_input = sum_list (map (\<lambda>t. int_of_rat (span_num t ''gen_ai.usage.input_tokens'')) cs),
       tt_output = sum_list (map (\<lambda>t. int_of_rat (span_num t ''gen_ai.usage.output_tokens'')) cs),
       tt_cost = sum_list (map (\<lambda>t. span_num t ''s15.cost'') cs)\<rparr>)"

definition export_run ::
  "pytext \<Rightarrow> rat \<Rightarrow> bool option \<Rightarrow> string option \<Rightarrow> string option \<Rightarrow> obj \<Rightarrow> traced_run \<Rightarrow> (tspan list \<times> trace_totals) result" where
  "export_run px now explicit env payer budget run =
     bind_r (build_span_tree px now (1 / 1000) (capture_enabled explicit env) payer budget run) (\<lambda>t.
       Inr (finished_spans t, export_totals px (finished_spans t)))"

end
