(* ===== verification/Telemetry_Claims.thy ===== *)
theory Telemetry_Claims
  imports Telemetry Graph_Executor "HOL-Library.Multiset"
begin

text \<open>
  What a trace promises: every span lies within its parent's time, the totals account for exactly the model
  calls the journal records, and no message content leaves the process unless it was asked for.
\<close>

section \<open>Times\<close>

definition covers :: "tspan \<Rightarrow> tspan \<Rightarrow> bool" where
  "covers u c = (\<exists>s e s' e'. ts_start u = Some s \<and> ts_end u = Some e \<and> ts_start c = Some s' \<and> ts_end c = Some e' \<and>
     s \<le> s' \<and> s' \<le> e' \<and> e' \<le> e)"

lemma fold_min_le: "fold min xs (a :: int) \<le> a \<and> (\<forall>x \<in> set xs. fold min xs a \<le> x)"
proof (induction xs arbitrary: a)
  case (Cons x xs)
  show ?case using Cons.IH [of "min x a"] by auto
qed simp

lemma fold_max_ge: "a \<le> fold max xs (a :: int) \<and> (\<forall>x \<in> set xs. x \<le> fold max xs a)"
proof (induction xs arbitrary: a)
  case (Cons x xs)
  show ?case using Cons.IH [of "max x a"] by (simp add: max.bounded_iff)
qed simp

lemma least_le: "x \<in> set xs \<Longrightarrow> least xs \<le> x"
  using fold_min_le [of "tl xs" "hd xs"] by (cases xs) (auto simp: least_def)

lemma greatest_ge: "x \<in> set xs \<Longrightarrow> x \<le> greatest xs"
  using fold_max_ge [of "hd xs" "tl xs"] by (cases xs) (auto simp: greatest_def)

lemma resolve_start_le: "x \<in> set starts \<Longrightarrow> resolve_start own starts fb \<le> x"
  by (auto simp: resolve_start_def least_le split: option.split)

lemma resolve_end_ge: "x \<in> set ends \<Longrightarrow> x \<le> resolve_end own ends fb"
  by (auto simp: resolve_end_def greatest_ge split: option.split)

lemma resolve_times_parts:
  "ts_name (resolve_times fs fe t) = ts_name t" "ts_kind (resolve_times fs fe t) = ts_kind t"
  "ts_attrs (resolve_times fs fe t) = ts_attrs t"
  "\<exists>s e. ts_start (resolve_times fs fe t) = Some s \<and> ts_end (resolve_times fs fe t) = Some e \<and> s \<le> e"
  by (cases t; simp add: resolve_times.simps Let_def)+

lemma resolve_times_covers: "c \<in> set (ts_children (resolve_times fs fe t)) \<Longrightarrow> covers (resolve_times fs fe t) c"
proof (cases t)
  case (TSpan n k a cs s e ev er)
  assume c: "c \<in> set (ts_children (resolve_times fs fe t))"
  define cs' where "cs' = map (resolve_times (or_fallback s fs) (or_fallback e fe)) cs"
  define s' where "s' = resolve_start s (List.map_filter ts_start cs') fs"
  define e' where "e' = resolve_end e (List.map_filter ts_end cs') fe"
  have r: "resolve_times fs fe t = TSpan n k a cs' (Some s') (Some (if e' < s' then s' else e')) ev er"
    by (simp add: TSpan resolve_times.simps cs'_def s'_def e'_def Let_def)
  from c have c': "c \<in> set cs'" by (simp add: r)
  then obtain d where d: "c = resolve_times (or_fallback s fs) (or_fallback e fe) d" by (auto simp: cs'_def)
  obtain x y where xy: "ts_start c = Some x" "ts_end c = Some y" "x \<le> y"
    using resolve_times_parts(4) [of "or_fallback s fs" "or_fallback e fe" d] d by blast
  have "x \<in> set (List.map_filter ts_start cs')" "y \<in> set (List.map_filter ts_end cs')"
    using c' xy by (force simp: List.map_filter_def)+
  then have "s' \<le> x" "y \<le> e'" by (simp_all add: s'_def e'_def resolve_start_le resolve_end_ge)
  with xy show ?thesis by (auto simp: covers_def r)
qed

text \<open>Every span of a resolved tree is a resolved tree.\<close>

lemma walk_resolved: "u \<in> set (walk_spans (resolve_times fs fe t)) \<Longrightarrow> \<exists>fs' fe' t'. u = resolve_times fs' fe' t'"
proof (induction fs fe t rule: resolve_times.induct)
  case (1 fs fe n k a cs s e ev er)
  show ?case
  proof (cases "u = resolve_times fs fe (TSpan n k a cs s e ev er)")
    case False
    with 1(2) obtain c where "c \<in> set cs" "u \<in> set (walk_spans (resolve_times (or_fallback s fs) (or_fallback e fe) c))"
      by (auto simp: resolve_times.simps walk_spans.simps Let_def)
    with 1(1) show ?thesis by blast
  qed blast
qed

lemma build_resolved: "build_span_tree px now tick capture payer budget run = Inr t \<Longrightarrow> \<exists>fs fe t'. t = resolve_times fs fe t'"
  by (auto simp: build_span_tree_def bind_r_Inr Let_def)

text \<open>In a trace every span starts before it ends and lies within the time of its parent, whatever times the
  journal and the meter recorded.\<close>

lemma trace_spans_nest:
  assumes "build_span_tree px now tick capture payer budget run = Inr t"
  shows "\<forall>u \<in> set (walk_spans t). covers u u \<and> (\<forall>c \<in> set (ts_children u). covers u c)"
proof
  fix u assume "u \<in> set (walk_spans t)"
  with build_resolved [OF assms] obtain fs fe t' where u: "u = resolve_times fs fe t'" using walk_resolved by blast
  then have "covers u u" using resolve_times_parts(4) [of fs fe t'] by (auto simp: covers_def)
  with u resolve_times_covers show "covers u u \<and> (\<forall>c \<in> set (ts_children u). covers u c)" by blast
qed

section \<open>Sums over a trace\<close>

text \<open>The sum of a weight of attributes over all spans of a tree.\<close>

definition weigh :: "(obj \<Rightarrow> rat) \<Rightarrow> tspan \<Rightarrow> rat" where
  "weigh f t = sum_list (map (f \<circ> ts_attrs) (walk_spans t))"

definition weigh_all :: "(obj \<Rightarrow> rat) \<Rightarrow> tspan list \<Rightarrow> rat" where
  "weigh_all f ts = sum_list (map (weigh f) ts)"

lemma walk_cases: "walk_spans t = t # concat (map walk_spans (ts_children t))"
  by (cases t) (simp add: walk_spans.simps)

lemma sum_list_concat: "sum_list (map g (concat xss)) = sum_list (map (\<lambda>xs. sum_list (map g xs)) xss)"
  for g :: "'a \<Rightarrow> rat"
  by (induction xss) simp_all

lemma weigh_span: "weigh f t = f (ts_attrs t) + weigh_all f (ts_children t)"
  unfolding weigh_def weigh_all_def by (subst walk_cases) (simp add: sum_list_concat o_def weigh_def)

lemma weigh_TSpan: "weigh f (TSpan n k a cs s e ev er) = f a + weigh_all f cs"
  by (simp add: weigh_span [of f "TSpan n k a cs s e ev er"])

lemma weigh_all_simps [simp]: "weigh_all f [] = 0" "weigh_all f (t # ts) = weigh f t + weigh_all f ts"
  "weigh_all f (ts @ us) = weigh_all f ts + weigh_all f us"
  by (simp_all add: weigh_all_def)

lemma weigh_all_update: "i < length ts \<Longrightarrow> weigh_all f (ts[i := u]) = weigh_all f ts - weigh f (ts ! i) + weigh f u"
  by (induction ts arbitrary: i) (auto split: nat.split)

lemma weigh_add_child: "weigh f (add_child c t) = weigh f t + weigh f c"
  by (cases t) (simp add: weigh_TSpan add_child_def)

lemma weigh_change_child:
  "j < length (ts_children t) \<Longrightarrow>
   weigh f (change_child j g t) = weigh f t - weigh f (ts_children t ! j) + weigh f (g (ts_children t ! j))"
  by (cases t) (simp add: weigh_TSpan change_child_def weigh_all_update)

lemma weigh_resolved: "weigh f (resolve_times fs fe t) = weigh f t"
proof (induction fs fe t rule: resolve_times.induct)
  case (1 fs fe n k a cs s e ev er)
  have "weigh_all f (map (resolve_times (or_fallback s fs) (or_fallback e fe)) cs) = weigh_all f cs"
    unfolding weigh_all_def using 1 by (induction cs) simp_all
  then show ?case by (simp add: weigh_TSpan resolve_times.simps Let_def)
qed

lemma mset_concat_map_cong: "(\<And>x. x \<in> set xs \<Longrightarrow> mset (f x) = mset (g x)) \<Longrightarrow> mset (concat (map f xs)) = mset (concat (map g xs))"
  by (induction xs) simp_all

lemma finished_is_walk: "mset (finished_spans t) = mset (walk_spans t)"
proof (induction t rule: walk_spans.induct)
  case (1 n k a cs s e ev er)
  then show ?case using mset_concat_map_cong [of cs finished_spans walk_spans]
    by (simp add: finished_spans.simps walk_spans.simps)
qed

section \<open>The calls of a journal\<close>

definition event_calls :: "event \<Rightarrow> obj list" where
  "event_calls e = (case metered_calls e of Inl x \<Rightarrow> [] | Inr cs \<Rightarrow> cs)"

definition settles :: "event \<Rightarrow> bool" where
  "settles e = (ev_kind e \<in> set terminal_kinds \<and> ev_node e \<notin> {None, Some []})"

definition patched_calls :: "event list \<Rightarrow> obj list" where
  "patched_calls es = concat (map event_calls (filter (\<lambda>e. ev_kind e = ''graph_patched'') es))"

definition settled_calls :: "event list \<Rightarrow> obj list" where
  "settled_calls es = concat (map event_calls (filter settles es))"

text \<open>Places that are remembered are places of the tree.\<close>

definition places_ok :: "tracing \<Rightarrow> bool" where
  "places_ok st = ((\<forall>nid i. dget (tc_home st) nid = Some i \<longrightarrow> i < length (tc_loops st)) \<and>
     (\<forall>nid i j. dget (tc_open st) nid = Some (i, j) \<longrightarrow> i < length (tc_loops st) \<and> j < length (ts_children (tc_loops st ! i))))"

lemma loop_of_frame:
  assumes "loop_of a sq nid st = (i, st1)" and "places_ok st"
  shows "places_ok st1 \<and> i < length (tc_loops st1) \<and> tc_open st1 = tc_open st \<and> tc_calls st1 = tc_calls st \<and> tc_cost st1 = tc_cost st"
  using assms by (auto simp: loop_of_def places_ok_def split: option.splits if_splits)

lemma change_loop_places:
  assumes "places_ok st" and "i < length (tc_loops st)"
    and "length (ts_children (tc_loops st ! i)) \<le> length (ts_children (f (tc_loops st ! i)))"
  shows "places_ok (change_loop i f st)"
  using assms by (fastforce simp: places_ok_def change_loop_def nth_list_update)

lemma find_span_frame:
  assumes "find_span a e nid st = (i, j, st1)" and "places_ok st"
  shows "places_ok st1 \<and> i < length (tc_loops st1) \<and> j < length (ts_children (tc_loops st1 ! i)) \<and>
    tc_calls st1 = tc_calls st \<and> tc_cost st1 = tc_cost st"
proof (cases "dget (tc_open st) nid")
  case None
  obtain i' st' where l: "loop_of a (ev_sequence e) nid st = (i', st')" by force
  from loop_of_frame [OF l assms(2)] have ok: "places_ok st'" "i' < length (tc_loops st')" by simp_all
  from None assms(1) l have r: "i = i'" "j = length (ts_children (tc_loops st' ! i'))"
    "\<exists>s. st1 = change_loop i' (add_child s) st'" by (auto simp: find_span_def Let_def)
  then obtain s where s: "st1 = change_loop i' (add_child s) st'" by blast
  have "places_ok st1" unfolding s using ok by (intro change_loop_places) (simp_all add: add_child_def)
  with r ok s loop_of_frame [OF l assms(2)] show ?thesis by (simp add: change_loop_def add_child_def)
next
  case (Some ij)
  with assms show ?thesis by (cases ij) (auto simp: find_span_def places_ok_def split: if_splits)
qed

lemma home_after_add: "dget (fold (\<lambda>i. dput i n) ids d) nid = (if nid \<in> set ids then Some n else dget d nid)"
  by (induction ids arbitrary: d) auto

text \<open>Attributes of spans that are not calls.\<close>

definition structural :: "obj \<Rightarrow> bool" where
  "structural d = (dget d ''s15.span.kind'' \<noteq> Some (JStr ''provider_call'') \<and>
     dget d ''gen_ai.input.messages'' = None \<and> dget d ''gen_ai.output.messages'' = None)"

text \<open>
  A weight that only calls have: nothing on structural spans, \<open>hp\<close> on the span of a planner's call and \<open>hn\<close> on the
  span of a node's call; the state and reason a settled node is marked with do not change it.
\<close>

locale call_weight =
  fixes a :: trace_args and f :: "obj \<Rightarrow> rat" and hp hn :: "obj \<Rightarrow> rat"
  assumes structural_zero: "structural d \<Longrightarrow> f d = 0"
    and marked: "f (dput ''s15.node.state'' v d) = f d" "f (dput ''s15.node.cancel_reason'' v d) = f d"
    and of_planner: "planner_call_span a sq (k, call) = Inr t \<Longrightarrow> weigh f t = hp call"
    and of_node: "node_call_span a sq nid call = Inr t \<Longrightarrow> weigh f t = hn call"
begin

lemma loop_of_weight: "loop_of a sq nid st = (i, st1) \<Longrightarrow> weigh_all f (tc_loops st1) = weigh_all f (tc_loops st)"
  by (auto simp: loop_of_def weigh_TSpan loop_attrs_def structural_zero structural_def split: option.splits if_splits)

lemma planner_calls_weight:
  "map_r (planner_call_span a sq) (enumerate n cs) = Inr ts \<Longrightarrow> weigh_all f ts = sum_list (map hp cs)"
proof -
  assume "map_r (planner_call_span a sq) (enumerate n cs) = Inr ts"
  then have "list_all2 (\<lambda>x t. planner_call_span a sq x = Inr t) (enumerate n cs) ts" by (rule map_r_all2)
  then show ?thesis
  proof (induction cs arbitrary: n ts)
    case (Cons c cs)
    then show ?case by (auto simp: list_all2_Cons1 of_planner)
  qed simp
qed

lemma node_calls_weight: "map_r (node_call_span a sq nid) cs = Inr ts \<Longrightarrow> weigh_all f ts = sum_list (map hn cs)"
proof -
  assume "map_r (node_call_span a sq nid) cs = Inr ts"
  then have "list_all2 (\<lambda>x t. node_call_span a sq nid x = Inr t) cs ts" by (rule map_r_all2)
  then show ?thesis by (induction rule: list_all2_induct) (simp_all add: of_node)
qed

lemma close_weight: "weigh f (close_span a e ds ts t) = weigh f t + weigh_all f ts"
  by (cases t) (simp add: weigh_TSpan close_span_def Let_def marked)


lemma find_span_weight:
  assumes "find_span a e nid st = (i, j, st1)" and "places_ok st"
  shows "weigh_all f (tc_loops st1) = weigh_all f (tc_loops st)"
proof (cases "dget (tc_open st) nid")
  case None
  obtain i' st' where l: "loop_of a (ev_sequence e) nid st = (i', st')" by force
  from loop_of_frame [OF l assms(2)] have "i' < length (tc_loops st')" by simp
  with None assms(1) l show ?thesis
    by (auto simp: find_span_def Let_def change_loop_def weigh_all_update weigh_add_child weigh_TSpan node_base_def
        structural_zero structural_def loop_of_weight [OF l])
next
  case (Some ij)
  with assms show ?thesis by (cases ij) (auto simp: find_span_def)
qed

lemma trace_start_weight:
  assumes "places_ok st"
  shows "weigh_all f (tc_loops (trace_start a e nid st)) = weigh_all f (tc_loops st) \<and> places_ok (trace_start a e nid st)"
proof -
  obtain i st1 where l: "loop_of a (ev_sequence e) nid st = (i, st1)" by force
  from loop_of_frame [OF l assms] have ok: "places_ok st1" "i < length (tc_loops st1)" "tc_open st1 = tc_open st" by simp_all
  obtain s where s: "trace_start a e nid st = (change_loop i (add_child s) st1)
      \<lparr>tc_open := dput nid (i, length (ts_children (tc_loops st1 ! i))) (tc_open st1)\<rparr>" "weigh f s = 0"
    using l ok(3) by (fastforce simp: trace_start_def Let_def weigh_TSpan node_base_def intro: structural_zero simp: structural_def)
  have "places_ok (change_loop i (add_child s) st1)" using ok by (intro change_loop_places) (simp_all add: add_child_def)
  then have "places_ok (trace_start a e nid st)" unfolding s using ok(2)
    by (auto simp: places_ok_def change_loop_def add_child_def)
  with s(2) ok(2) show ?thesis
    unfolding s(1) by (simp add: change_loop_def weigh_all_update weigh_add_child loop_of_weight [OF l])
qed

lemma trace_end_weight:
  assumes "trace_end a e nid st = Inr st'" and "places_ok st"
  shows "weigh_all f (tc_loops st') = weigh_all f (tc_loops st) + sum_list (map hn (event_calls e)) \<and> places_ok st'"
proof -
  obtain i j st1 where s: "find_span a e nid st = (i, j, st1)" by (cases "find_span a e nid st")
  from find_span_frame [OF s assms(2)] have ok: "places_ok st1" "i < length (tc_loops st1)"
    "j < length (ts_children (tc_loops st1 ! i))" by simp_all
  define close where "close = (\<lambda>ds ts n q. (change_loop i (change_child j (close_span a e ds ts)) st1)\<lparr>tc_calls := n, tc_cost := q\<rparr>)"
  from assms(1) s obtain ds cs ts n q where r: "metered_calls e = Inr cs" "map_r (node_call_span a (ev_sequence e) nid) cs = Inr ts"
    and st': "st' = close ds ts n q"
    by (auto simp: trace_end_def bind_r_Inr close_def)
  have "places_ok (change_loop i (change_child j (close_span a e ds ts)) st1)"
    using ok by (intro change_loop_places) (simp_all add: change_child_def)
  then have "places_ok st'" by (simp add: st' close_def places_ok_def)
  moreover have "weigh_all f (tc_loops st') = weigh_all f (tc_loops st) + sum_list (map hn cs)"
    using ok find_span_weight [OF s assms(2)] node_calls_weight [OF r(2)]
    by (simp add: st' close_def change_loop_def weigh_all_update weigh_change_child close_weight)
  ultimately show ?thesis using r(1) by (simp add: event_calls_def)
qed

lemma trace_patch_weight:
  assumes "trace_patch a e st = Inr st'" and "places_ok st"
  shows "weigh_all f (tc_loops st') = weigh_all f (tc_loops st) + sum_list (map hp (event_calls e)) \<and> places_ok st'"
proof -
  from assms(1) obtain cs ts plan lp ids n q where r: "metered_calls e = Inr cs"
    "map_r (planner_call_span a (ev_sequence e)) (enumerate 1 cs) = Inr ts"
    "st' = st\<lparr>tc_loops := tc_loops st @ [lp], tc_home := fold (\<lambda>i. dput i (length (tc_loops st))) ids (tc_home st),
       tc_calls := n, tc_cost := q\<rparr>" "ts_children lp = [plan]" "ts_children plan = ts" "f (ts_attrs lp) = 0" "f (ts_attrs plan) = 0"
    by (force simp: trace_patch_def bind_r_Inr Let_def loop_attrs_def plan_attrs_def intro: structural_zero simp: structural_def)
  then have "weigh_all f (tc_loops st') = weigh_all f (tc_loops st) + sum_list (map hp cs)"
    using planner_calls_weight [OF r(2)] by (simp add: weigh_span [of f lp] weigh_span [of f plan])
  moreover have "places_ok st'" using assms(2) by (auto simp: r(3) places_ok_def home_after_add nth_append less_SucI split: if_splits)
  ultimately show ?thesis using r(1) by (simp add: event_calls_def)
qed

text \<open>A trace weighs what the calls of its journal weigh.\<close>

lemma trace_events_weight:
  assumes "fold_r (trace_event a) es st = Inr st'" and "places_ok st"
  shows "weigh_all f (tc_loops st') = weigh_all f (tc_loops st) + sum_list (map hp (patched_calls es)) +
    sum_list (map hn (settled_calls es)) \<and> places_ok st'"
  using assms
proof (induction es arbitrary: st)
  case (Cons e es)
  then obtain t where t: "trace_event a e st = Inr t" "fold_r (trace_event a) es t = Inr st'" by (auto simp: bind_r_Inr)
  have terminal: "''graph_patched'' \<notin> set terminal_kinds" "''task_started'' \<notin> set terminal_kinds" by (simp_all add: terminal_kinds_def)
  consider "ev_kind e = ''graph_patched''" "trace_patch a e st = Inr t"
    | nid where "settles e" "ev_kind e \<noteq> ''graph_patched''" "trace_end a e nid st = Inr t"
    | nid where "\<not> settles e" "ev_kind e \<noteq> ''graph_patched''" "t = trace_start a e nid st"
    | "\<not> settles e" "ev_kind e \<noteq> ''graph_patched''" "t = st"
    using t(1) terminal by (auto simp: trace_event_def settles_def split: if_splits option.splits list.splits)
  then show ?case
  proof cases
    case 1
    with trace_patch_weight [OF 1(2) Cons.prems(2)] Cons.IH [OF t(2)] terminal show ?thesis
      by (simp add: patched_calls_def settled_calls_def settles_def)
  next
    case (2 nid)
    with trace_end_weight [OF 2(3) Cons.prems(2)] Cons.IH [OF t(2)] show ?thesis
      by (simp add: patched_calls_def settled_calls_def)
  next
    case (3 nid)
    with trace_start_weight [OF Cons.prems(2), of e nid] Cons.IH [OF t(2)] show ?thesis
      by (simp add: patched_calls_def settled_calls_def)
  next
    case 4
    with Cons.IH [OF t(2)] Cons.prems(2) show ?thesis by (simp add: patched_calls_def settled_calls_def)
  qed
qed (simp add: patched_calls_def settled_calls_def)

end

section \<open>Four weights\<close>

text \<open>The number of calls, their cost, their tokens, and the calls whose content is shown.\<close>

definition is_call :: "obj \<Rightarrow> bool" where
  "is_call d = (dget d ''s15.span.kind'' = Some (JStr ''provider_call''))"

definition call_sum :: "string \<Rightarrow> obj \<Rightarrow> rat" where
  "call_sum k d = (if is_call d then (case num_of (dget_or d k (JInt 0)) of None \<Rightarrow> 0 | Some q \<Rightarrow> q) else 0)"

definition call_int :: "string \<Rightarrow> obj \<Rightarrow> rat" where
  "call_int k d = of_int (int_of_rat (call_sum k d))"

lemma int_of_rat_int [simp]: "int_of_rat (of_int i) = i" "int_of_rat 0 = 0"
proof -
  have "floor (- of_int i :: rat) = - i" by (metis floor_of_int of_int_minus)
  then show "int_of_rat (of_int i) = i" by (simp add: int_of_rat_def)
qed (simp add: int_of_rat_def)

definition tokens_of :: "pytext \<Rightarrow> string \<Rightarrow> obj \<Rightarrow> int" where
  "tokens_of px k call = (case int_value px (jget call k) of Inl e \<Rightarrow> 0 | Inr i \<Rightarrow> i)"

definition shows_content :: "obj \<Rightarrow> bool" where
  "shows_content d = (dget d ''gen_ai.input.messages'' \<noteq> None \<or> dget d ''gen_ai.output.messages'' \<noteq> None)"

definition captured :: "trace_args \<Rightarrow> obj \<Rightarrow> bool" where
  "captured a call = (ta_capture a \<and> (truthy (jget call ''prompt'') \<or> truthy (jget call ''completion'')))"

lemmas span_defs = planner_call_span_def node_call_span_def Let_def bind_r_Inr weigh_TSpan call_sum_def is_call_def
  tokens_of_def dget_or_def

interpretation counted: call_weight a "\<lambda>d. of_bool (is_call d)" "\<lambda>c. 1" "\<lambda>c. 1" for a
  by unfold_locales (auto simp: structural_def span_defs)

interpretation costed: call_weight a "call_sum ''s15.cost''" "cost_of (ta_text a)" "cost_of (ta_text a)" for a
  by unfold_locales (auto simp: structural_def span_defs)

interpretation read_tokens: call_weight a "call_int ''gen_ai.usage.input_tokens''"
    "\<lambda>c. of_int (tokens_of (ta_text a) ''input_tokens'' c)" "\<lambda>c. of_int (tokens_of (ta_text a) ''input_tokens'' c)" for a
  by unfold_locales (auto simp: structural_def call_int_def span_defs)

interpretation written_tokens: call_weight a "call_int ''gen_ai.usage.output_tokens''"
    "\<lambda>c. of_int (tokens_of (ta_text a) ''output_tokens'' c)" "\<lambda>c. of_int (tokens_of (ta_text a) ''output_tokens'' c)" for a
  by unfold_locales (auto simp: structural_def call_int_def span_defs)

interpretation shown: call_weight a "\<lambda>d. of_bool (shows_content d)" "\<lambda>c. 0" "\<lambda>c. of_bool (captured a c)" for a
  by unfold_locales (auto simp: structural_def shows_content_def captured_def span_defs split: if_splits)

section \<open>Accounting\<close>

lemma loop_of_sums: "loop_of a sq nid st = (i, st1) \<Longrightarrow> tc_calls st1 = tc_calls st \<and> tc_cost st1 = tc_cost st"
  by (auto simp: loop_of_def split: option.splits if_splits)

lemma find_span_sums: "find_span a e nid st = (i, j, st1) \<Longrightarrow> tc_calls st1 = tc_calls st \<and> tc_cost st1 = tc_cost st"
  by (auto simp: find_span_def Let_def change_loop_def split: option.splits prod.splits dest: loop_of_sums)

lemma trace_event_sums:
  assumes "trace_event a e st = Inr t"
  shows "tc_calls t = tc_calls st + length (patched_calls [e] @ settled_calls [e]) \<and>
    tc_cost t = tc_cost st + sum_list (map (cost_of (ta_text a)) (patched_calls [e] @ settled_calls [e]))"
proof -
  have terminal: "''graph_patched'' \<notin> set terminal_kinds" "''task_started'' \<notin> set terminal_kinds" by (simp_all add: terminal_kinds_def)
  consider "ev_kind e = ''graph_patched''" "trace_patch a e st = Inr t"
    | nid where "settles e" "ev_kind e \<noteq> ''graph_patched''" "trace_end a e nid st = Inr t"
    | nid where "\<not> settles e" "ev_kind e \<noteq> ''graph_patched''" "t = trace_start a e nid st"
    | "\<not> settles e" "ev_kind e \<noteq> ''graph_patched''" "t = st"
    using assms terminal by (auto simp: trace_event_def settles_def split: if_splits option.splits list.splits)
  then show ?thesis
  proof cases
    case 1
    then show ?thesis using terminal
      by (auto simp: trace_patch_def bind_r_Inr Let_def patched_calls_def settled_calls_def settles_def event_calls_def)
  next
    case (2 nid)
    obtain i j st1 where s: "find_span a e nid st = (i, j, st1)" by (cases "find_span a e nid st")
    from 2 s find_span_sums [OF s] show ?thesis
      by (auto simp: trace_end_def bind_r_Inr patched_calls_def settled_calls_def event_calls_def change_loop_def)
  next
    case (3 nid)
    obtain i st1 where l: "loop_of a (ev_sequence e) nid st = (i, st1)" by force
    from 3 l loop_of_sums [OF l] show ?thesis
      by (simp add: trace_start_def Let_def patched_calls_def settled_calls_def change_loop_def)
  qed (simp add: patched_calls_def settled_calls_def)
qed

lemma trace_events_sums:
  "fold_r (trace_event a) es st = Inr t \<Longrightarrow>
   tc_calls t = tc_calls st + length (patched_calls es @ settled_calls es) \<and>
   tc_cost t = tc_cost st + sum_list (map (cost_of (ta_text a)) (patched_calls es @ settled_calls es))"
proof (induction es arbitrary: st)
  case (Cons e es)
  then obtain u where u: "trace_event a e st = Inr u" "fold_r (trace_event a) es u = Inr t" by (auto simp: bind_r_Inr)
  have "patched_calls (e # es) = patched_calls [e] @ patched_calls es" "settled_calls (e # es) = settled_calls [e] @ settled_calls es"
    by (simp_all add: patched_calls_def settled_calls_def)
  with trace_event_sums [OF u(1)] Cons.IH [OF u(2)] show ?case by simp
qed (simp add: patched_calls_def settled_calls_def)

definition run_calls :: "traced_run \<Rightarrow> obj list" where
  "run_calls run = patched_calls (tr_events run) @ settled_calls (tr_events run)"

lemma dget_dmerge_other: "k \<notin> set (dkeys e) \<Longrightarrow> dget (dmerge d e) k = dget d k"
  unfolding dmerge_def by (induction e arbitrary: d) auto

text \<open>The parts of a built trace.\<close>

lemma build_parts:
  assumes "build_span_tree px now tick capture payer budget run = Inr t"
  obtains a st fs fe root where "ta_text a = px" "ta_capture a = capture" "t = resolve_times fs fe root" "ts_children root = tc_loops st"
    "fold_r (trace_event a) (tr_events run) \<lparr>tc_loops = [], tc_home = [], tc_open = [], tc_calls = 0, tc_cost = 0\<rparr> = Inr st"
    "structural (ts_attrs root)" "dget (ts_attrs t) ''s15.cost'' = Some (JFloat (tc_cost st))"
    "dget (ts_attrs t) ''s15.provider_calls'' = Some (JInt (int (tc_calls st)))"
proof -
  have b: "structural (dmerge (dmerge (run_attrs px who r) battrs) [(''s15.provider_calls'', x), (''s15.loops'', y), (''s15.cost'', z)])"
    if "budget_attrs px budget = Inr battrs" for who r battrs x y z
    using that by (auto simp: structural_def dget_dmerge_other budget_attrs_def bind_r_Inr run_attrs_def split: if_splits)
  have c: "dget (dmerge d [(''s15.provider_calls'', x), (''s15.loops'', y), (''s15.cost'', z)]) ''s15.cost'' = Some z"
    "dget (dmerge d [(''s15.provider_calls'', x), (''s15.loops'', y), (''s15.cost'', z)]) ''s15.provider_calls'' = Some x" for d x y z
    by (simp_all add: dmerge_def)
  from assms show thesis
    by (auto simp: build_span_tree_def bind_r_Inr Let_def resolve_times_parts c intro!: that dest: b)
qed

lemma places_ok_start: "places_ok \<lparr>tc_loops = [], tc_home = [], tc_open = [], tc_calls = n, tc_cost = q\<rparr>"
  by (simp add: places_ok_def)

lemma sum_calls: "sum_list (map g (provider_call_spans (finished_spans t))) = weigh (\<lambda>d. if is_call d then f d else 0) t"
  if "\<And>u. g u = f (ts_attrs u)" for g :: "tspan \<Rightarrow> rat"
proof -
  let ?w = "\<lambda>u. if is_call (ts_attrs u) then f (ts_attrs u) else 0"
  have "provider_call_spans us = filter (\<lambda>u. is_call (ts_attrs u)) us" for us
    by (simp add: provider_call_spans_def is_call_def)
  then have "sum_list (map g (provider_call_spans us)) = sum_list (map ?w us)" for us
    by (induction us) (simp_all add: that)
  then have "sum_list (map g (provider_call_spans (finished_spans t))) = sum_list (map ?w (finished_spans t))" .
  also have "\<dots> = sum_list (map ?w (walk_spans t))"
    unfolding sum_mset_sum_list [symmetric] mset_map finished_is_walk ..
  finally show ?thesis by (simp add: weigh_def o_def)
qed

lemma sum_list_of_int: "sum_list (map (\<lambda>x. of_int (g x)) xs) = (of_int (sum_list (map g xs)) :: rat)"
  by (induction xs) simp_all

lemma trace_weighs:
  assumes "build_span_tree px now tick capture payer budget run = Inr t"
  obtains a where "ta_text a = px" "ta_capture a = capture"
    "\<And>f hp hn. call_weight a f hp hn \<Longrightarrow>
       weigh f t = sum_list (map hp (patched_calls (tr_events run))) + sum_list (map hn (settled_calls (tr_events run)))"
proof (rule build_parts [OF assms])
  fix a st fs fe root
  assume r: "ta_text a = px" "ta_capture a = capture" "t = resolve_times fs fe root" "ts_children root = tc_loops st"
    "fold_r (trace_event a) (tr_events run) \<lparr>tc_loops = [], tc_home = [], tc_open = [], tc_calls = 0, tc_cost = 0\<rparr> = Inr st"
    "structural (ts_attrs root)"
  have "weigh f t = sum_list (map hp (patched_calls (tr_events run))) + sum_list (map hn (settled_calls (tr_events run)))"
    if "call_weight a f hp hn" for f hp hn
    using call_weight.trace_events_weight [OF that r(5) places_ok_start] call_weight.structural_zero [OF that r(6)] r(4)
    by (simp add: r(3) weigh_resolved weigh_span [of f root])
  with r(1,2) show thesis by (rule that)
qed

lemma trace_accounts:
  assumes "build_span_tree px now tick capture payer budget run = Inr t"
  shows "tt_calls (export_totals px (finished_spans t)) = length (run_calls run)"
    and "tt_input (export_totals px (finished_spans t)) = sum_list (map (tokens_of px ''input_tokens'') (run_calls run))"
    and "tt_output (export_totals px (finished_spans t)) = sum_list (map (tokens_of px ''output_tokens'') (run_calls run))"
    and "tt_cost (export_totals px (finished_spans t)) = sum_list (map (cost_of px) (run_calls run))"
    and "dget (ts_attrs t) ''s15.cost'' = Some (JFloat (tt_cost (export_totals px (finished_spans t))))"
    and "dget (ts_attrs t) ''s15.provider_calls'' = Some (JInt (int (tt_calls (export_totals px (finished_spans t)))))"
proof -
  let ?T = "export_totals px (finished_spans t)" and ?cs = "run_calls run"
  obtain a where a: "ta_text a = px" and w: "\<And>f hp hn. call_weight a f hp hn \<Longrightarrow>
       weigh f t = sum_list (map hp (patched_calls (tr_events run))) + sum_list (map hn (settled_calls (tr_events run)))"
    using trace_weighs [OF assms] by blast
  have t: "dget (ts_attrs t) ''s15.cost'' = Some (JFloat (sum_list (map (cost_of px) ?cs)))"
    "dget (ts_attrs t) ''s15.provider_calls'' = Some (JInt (int (length ?cs)))"
    by (rule build_parts [OF assms]; drule trace_events_sums; simp add: run_calls_def)+
  have "weigh (\<lambda>d. of_bool (is_call d)) t = of_nat (length ?cs)"
    using w [OF counted.call_weight_axioms] by (simp add: run_calls_def sum_list_triv)
  then have "rat_of_nat (tt_calls ?T) = of_nat (length ?cs)"
    using sum_calls [of "\<lambda>u. 1" "\<lambda>d. 1" t] by (simp add: export_totals_def Let_def sum_list_triv of_bool_def)
  then show calls: "tt_calls ?T = length ?cs" by simp
  have "tt_cost ?T = weigh (call_sum ''s15.cost'') t"
    using sum_calls [of "\<lambda>u. span_num u ''s15.cost''" "\<lambda>d. case num_of (dget_or d ''s15.cost'' (JInt 0)) of None \<Rightarrow> 0 | Some q \<Rightarrow> q" t]
    by (simp add: export_totals_def Let_def span_num_def call_sum_def [abs_def])
  then show cost: "tt_cost ?T = sum_list (map (cost_of px) ?cs)" using w [OF costed.call_weight_axioms] by (simp add: a run_calls_def)
  have "rat_of_int (sum_list (map (\<lambda>u. int_of_rat (span_num u k)) (provider_call_spans (finished_spans t)))) = weigh (call_int k) t" for k
    using sum_calls [of "\<lambda>u. of_int (int_of_rat (span_num u k))" "\<lambda>d. of_int (int_of_rat (case num_of (dget_or d k (JInt 0)) of None \<Rightarrow> 0 | Some q \<Rightarrow> q))" t]
    by (simp add: sum_list_of_int [symmetric] span_num_def call_int_def [abs_def] call_sum_def if_distrib cong: if_cong)
  note tokens = this
  show "tt_input ?T = sum_list (map (tokens_of px ''input_tokens'') ?cs)"
    using tokens [of "''gen_ai.usage.input_tokens''"] w [OF read_tokens.call_weight_axioms]
    by (simp add: export_totals_def Let_def a run_calls_def sum_list_of_int flip: of_int_add)
  show "tt_output ?T = sum_list (map (tokens_of px ''output_tokens'') ?cs)"
    using tokens [of "''gen_ai.usage.output_tokens''"] w [OF written_tokens.call_weight_axioms]
    by (simp add: export_totals_def Let_def a run_calls_def sum_list_of_int flip: of_int_add)
  show "dget (ts_attrs t) ''s15.cost'' = Some (JFloat (tt_cost ?T))"
    "dget (ts_attrs t) ''s15.provider_calls'' = Some (JInt (int (tt_calls ?T)))" using t calls cost by simp_all
qed

text \<open>C28: A trace accounts for exactly the model calls of its journal: the export of its spans counts each call the
  patches and the settled tasks recorded once, with its tokens and its cost, and the numbers on the run's own
  span are the same.\<close>

theorem trace_accounts_for_calls:
  assumes "build_span_tree px now tick capture payer budget run = Inr t"
  shows "tt_calls (export_totals px (finished_spans t)) = length (run_calls run) \<and>
    tt_input (export_totals px (finished_spans t)) = sum_list (map (tokens_of px ''input_tokens'') (run_calls run)) \<and>
    tt_output (export_totals px (finished_spans t)) = sum_list (map (tokens_of px ''output_tokens'') (run_calls run)) \<and>
    tt_cost (export_totals px (finished_spans t)) = sum_list (map (cost_of px) (run_calls run)) \<and>
    dget (ts_attrs t) ''s15.cost'' = Some (JFloat (tt_cost (export_totals px (finished_spans t)))) \<and>
    dget (ts_attrs t) ''s15.provider_calls'' = Some (JInt (int (tt_calls (export_totals px (finished_spans t)))))"
  by (intro conjI trace_accounts [OF assms])

section \<open>Content\<close>

text \<open>No message content without the opt-in: with capture off, no span of the trace has the text of a prompt or of a
  completion; with capture on, the spans that have one are as many as the settled calls that recorded one, and a
  planner's call never shows its content.\<close>

lemma content_needs_opt_in:
  assumes "build_span_tree px now tick capture payer budget run = Inr t"
  shows "int (length (filter (shows_content \<circ> ts_attrs) (walk_spans t))) =
    (if capture then int (length (filter (\<lambda>c. truthy (jget c ''prompt'') \<or> truthy (jget c ''completion'')) (settled_calls (tr_events run))))
     else 0)"
proof -
  obtain a where a: "ta_capture a = capture" and w: "\<And>f hp hn. call_weight a f hp hn \<Longrightarrow>
       weigh f t = sum_list (map hp (patched_calls (tr_events run))) + sum_list (map hn (settled_calls (tr_events run)))"
    using trace_weighs [OF assms] by blast
  have count: "sum_list (map (\<lambda>x. of_bool (P x)) xs) = rat_of_nat (length (filter P xs))" for P :: "'x \<Rightarrow> bool" and xs
    by (induction xs) simp_all
  have "rat_of_nat (length (filter (shows_content \<circ> ts_attrs) (walk_spans t))) = weigh (\<lambda>d. of_bool (shows_content d)) t"
    by (simp add: weigh_def o_def count)
  also have "\<dots> = rat_of_nat (length (filter (captured a) (settled_calls (tr_events run))))"
    using w [OF shown.call_weight_axioms] by (simp add: count)
  finally have "length (filter (shows_content \<circ> ts_attrs) (walk_spans t)) = length (filter (captured a) (settled_calls (tr_events run)))"
    by simp
  moreover have "captured a = (\<lambda>c. capture \<and> (truthy (jget c ''prompt'') \<or> truthy (jget c ''completion'')))"
    by (simp add: captured_def [abs_def] a)
  ultimately show ?thesis by simp
qed

text \<open>What the trace cannot show: a task that fails journals its error alone, so the calls its worker made before it failed
  are in the ledger of the run and in no trace.\<close>

lemma failed_task_shows_no_calls:
  assumes "execute skills t w = (False, r)"
  shows "\<exists>d. r = Inl d \<and> event_calls \<lparr>ev_sequence = n, ev_kind = ''task_failed'', ev_node = Some (ts_id t), ev_payload = d\<rparr> = []"
proof -
  from assms obtain message where "r = Inl [(''error'', JStr message)]" by (auto simp: execute_def split: if_splits work.splits)
  then show ?thesis by (simp add: event_calls_def metered_calls_def records_def iterated_def map_r_def jget_def dget_or_def)
qed

section \<open>A run\<close>

definition plain_text :: pytext where
  "plain_text = \<lparr>px_str = (\<lambda>_. ''?''), px_float = (\<lambda>_. None), px_int = (\<lambda>_. None)\<rparr>"

definition metered_call :: "rat \<Rightarrow> rat \<Rightarrow> obj" where
  "metered_call begun cost = [(''model'', JStr ''m''), (''input_tokens'', JInt 10), (''output_tokens'', JInt 4), (''cost'', JFloat cost),
     (''started_at'', JFloat begun), (''latency_ms'', JFloat 2500), (''prompt'', JStr ''who?'')]"

definition small_run :: traced_run where
  "small_run = \<lparr>tr_run_id = ''r'', tr_finished = True, tr_agent = JNull, tr_nodes = [], tr_events =
     [\<lparr>ev_sequence = 1, ev_kind = ''graph_patched'', ev_node = None, ev_payload = [(''add'', JList [JStr ''a'']),
        (''metered_calls'', JList [JObj (metered_call 100 (1 / 4))])]\<rparr>,
      \<lparr>ev_sequence = 2, ev_kind = ''task_started'', ev_node = Some ''a'', ev_payload = []\<rparr>,
      \<lparr>ev_sequence = 3, ev_kind = ''task_failed'', ev_node = Some ''a'', ev_payload = [(''error'', JStr ''no''),
        (''metered_calls'', JList [JObj (metered_call 101 (1 / 2))])]\<rparr>]\<rparr>"

lemmas small_run_defs = plain_text_def metered_call_def small_run_def

lemma small_run_traced: "\<exists>t. build_span_tree plain_text 0 (1 / 1000) True None [] small_run = Inr t"
proof -
  have "\<not> isl (build_span_tree plain_text 0 (1 / 1000) True None [] small_run)" by code_simp
  then show ?thesis by (cases "build_span_tree plain_text 0 (1 / 1000) True None [] small_run") simp_all
qed

lemma small_run_calls: "run_calls small_run = [metered_call 100 (1 / 4), metered_call 101 (1 / 2)]"
  by (simp add: run_calls_def patched_calls_def settled_calls_def event_calls_def metered_calls_def records_def iterated_def map_r_def
      as_record_def jget_def dget_or_def settles_def terminal_kinds_def small_run_def)

lemma trace_spans_nest_witness:
  "\<exists>t. build_span_tree plain_text 0 (1 / 1000) True None [] small_run = Inr t \<and>
     (\<forall>u \<in> set (walk_spans t). covers u u \<and> (\<forall>c \<in> set (ts_children u). covers u c))"
  using small_run_traced trace_spans_nest by blast

theorem trace_accounts_for_calls_witness:
  "\<exists>t. build_span_tree plain_text 0 (1 / 1000) True None [] small_run = Inr t \<and>
     tt_cost (export_totals plain_text (finished_spans t)) = 3 / 4 \<and> tt_input (export_totals plain_text (finished_spans t)) = 20"
proof -
  obtain t where t: "build_span_tree plain_text 0 (1 / 1000) True None [] small_run = Inr t" using small_run_traced by blast
  from trace_accounts_for_calls [OF t] t show ?thesis
    by (simp add: small_run_calls cost_of_def tokens_of_def num_value_def int_value_def jget_def dget_or_def metered_call_def int_of_rat_def)
qed

lemma content_needs_opt_in_witness:
  "\<exists>t. build_span_tree plain_text 0 (1 / 1000) True None [] small_run = Inr t \<and>
     int (length (filter (shows_content \<circ> ts_attrs) (walk_spans t))) = 1"
proof -
  obtain t where t: "build_span_tree plain_text 0 (1 / 1000) True None [] small_run = Inr t" using small_run_traced by blast
  have "settled_calls (tr_events small_run) = [metered_call 101 (1 / 2)]"
    using small_run_calls by (simp add: settled_calls_def event_calls_def metered_calls_def records_def iterated_def map_r_def
      as_record_def jget_def dget_or_def settles_def terminal_kinds_def small_run_def)
  with content_needs_opt_in [OF t] t show ?thesis by (simp add: jget_def dget_or_def metered_call_def)
qed

end
