(* ===== verification/Eval_Rubric.thy ===== *)
theory Eval_Rubric
  imports Planner_Parse Econ_Budget
begin

text \<open>
  Judging an answer against a rubric (\<open>evals/config.py\<close>, \<open>evals/judge.py\<close>): the rubric and its arithmetic, the reading
  of a judge's reply, one panel member with its retries, and the verdict of the panel. The model calls are an argument:
  what each member's transport does on each attempt. Prompts, notes, warnings and texts of reasons are left out.
\<close>

section \<open>The rubric\<close>

record criterion =
  cr_name :: string
  cr_weight :: rat
  cr_requires_expectation :: bool

record judge_model =
  jm_name :: string
  jm_provider :: "string option"
  jm_model :: "string option"

record rubric =
  rb_criteria :: "criterion list"
  rb_panel :: "judge_model list"
  rb_scale_max :: rat
  rb_threshold :: rat
  rb_min_criterion :: rat
  rb_tie_break :: string
  rb_retries :: int

text \<open>\<open>__post_init__\<close>\<close>

definition check_rubric :: "rubric \<Rightarrow> py_error option" where
  "check_rubric rb =
     (if rb_criteria rb = [] then Some ValueError
      else if rb_panel rb = [] then Some ValueError
      else if rb_scale_max rb \<le> 0 then Some ValueError
      else if \<not> (0 \<le> rb_threshold rb \<and> rb_threshold rb \<le> 1) then Some ValueError
      else if \<not> (0 \<le> rb_min_criterion rb \<and> rb_min_criterion rb \<le> 1) then Some ValueError
      else if rb_tie_break rb \<notin> {''score'', ''unresolved''} then Some ValueError
      else if \<not> distinct (map cr_name (rb_criteria rb)) then Some ValueError
      else None)"

definition applicable :: "rubric \<Rightarrow> bool \<Rightarrow> criterion list result" where
  "applicable rb has_expectation =
     (if has_expectation then Inr (rb_criteria rb)
      else let cs = filter (\<lambda>c. \<not> cr_requires_expectation c) (rb_criteria rb)
           in if cs = [] then Inl ValueError else Inr cs)"

text \<open>The weight of each criterion in play: a dict, where a repeated name would keep the last.\<close>

definition weight_sum :: "criterion list \<Rightarrow> rat" where
  "weight_sum cs = sum_list (map (\<lambda>c. max 0 (cr_weight c)) cs)"

definition weights :: "criterion list \<Rightarrow> (string \<times> rat) list" where
  "weights cs =
     (if weight_sum cs \<le> 0 then fold (\<lambda>c. dput (cr_name c) (1 / of_nat (length cs))) cs []
      else fold (\<lambda>c. dput (cr_name c) (max 0 (cr_weight c) / weight_sum cs)) cs [])"

definition normalise :: "rubric \<Rightarrow> rat \<Rightarrow> rat" where
  "normalise rb score = min 1 (max 0 (score / rb_scale_max rb))"

definition overall_score :: "rubric \<Rightarrow> (string \<times> rat) list \<Rightarrow> criterion list \<Rightarrow> rat" where
  "overall_score rb scores cs =
     sum_list (map (\<lambda>c. normalise rb (dget_or scores (cr_name c) 0) * dget_or (weights cs) (cr_name c) 0) cs)"

definition meets_bar :: "rubric \<Rightarrow> rat \<Rightarrow> (string \<times> rat) list \<Rightarrow> criterion list \<Rightarrow> bool" where
  "meets_bar rb overall scores cs =
     (if \<exists>c \<in> set cs. normalise rb (dget_or scores (cr_name c) 0) < rb_min_criterion rb then False
      else rb_threshold rb \<le> overall)"

section \<open>Reading a judge's reply\<close>

definition is_word_char :: "char \<Rightarrow> bool" where
  "is_word_char c = (let n = of_char c :: nat in (48 \<le> n \<and> n \<le> 57) \<or> (65 \<le> n \<and> n \<le> 90) \<or> (97 \<le> n \<and> n \<le> 122) \<or> n = 95 \<or> n = 45)"

definition unfenced :: "string \<Rightarrow> string" where
  "unfenced s =
     (if startswith s ''```'' then
        let b = dropWhile is_word_char (drop 3 s);
            c = (if b \<noteq> [] \<and> hd b = CHR 10 then tl b else b)
        in if endswith c ''```''
           then let d = take (length c - 3) c in if d \<noteq> [] \<and> last d = CHR 10 then butlast d else d
           else c
      else s)"

definition judge_json :: "string \<Rightarrow> obj option" where
  "judge_json s =
     (let t = unfenced (strip s);
          v = (case loads t of Some v \<Rightarrow> Some v
               | None \<Rightarrow> (case brace_span t of None \<Rightarrow> None | Some u \<Rightarrow> loads u))
      in case v of Some (JObj d) \<Rightarrow> Some d | _ \<Rightarrow> None)"

text \<open>
  \<open>float(i)\<close> of an int: too large a one overflows. \<open>float_of\<close> is \<open>float(text)\<close>; the printed form of what is no number
  and no text is never a number.
\<close>

definition float_limit :: int where
  "float_limit = 2 ^ 1024 - 2 ^ 970"

definition float_of_int :: "int \<Rightarrow> rat result" where
  "float_of_int i = (if \<bar>i\<bar> < float_limit then Inr (of_int i) else Inl OverflowError)"

definition read_score :: "(string \<Rightarrow> rat option) \<Rightarrow> json \<Rightarrow> rat result" where
  "read_score float_of v =
     (case v of
        JInt i \<Rightarrow> float_of_int i
      | JFloat q \<Rightarrow> Inr q
      | JStr s \<Rightarrow> (case float_of (strip s) of None \<Rightarrow> Inl JudgeUnparseable | Some q \<Rightarrow> Inr q)
      | _ \<Rightarrow> Inl JudgeUnparseable)"

definition read_criterion :: "(string \<Rightarrow> rat option) \<Rightarrow> rat \<Rightarrow> obj \<Rightarrow> criterion \<Rightarrow> (string \<times> rat) list \<Rightarrow> (string \<times> rat) list result" where
  "read_criterion float_of scale raw c scores =
     (case dget raw (cr_name c) of
        None \<Rightarrow> Inl JudgeUnparseable
      | Some v \<Rightarrow> bind_r (read_score float_of v) (\<lambda>q. Inr (dput (cr_name c) (min (max q 0) scale) scores)))"

definition parse_scores :: "(string \<Rightarrow> rat option) \<Rightarrow> string \<Rightarrow> criterion list \<Rightarrow> rat \<Rightarrow> (string \<times> rat) list result" where
  "parse_scores float_of reply cs scale =
     (case judge_json reply of
        None \<Rightarrow> Inl JudgeUnparseable
      | Some payload \<Rightarrow>
          (case dget payload ''scores'' of
             Some (JObj raw) \<Rightarrow> fold_r (read_criterion float_of scale raw) cs []
           | _ \<Rightarrow> Inl JudgeUnparseable))"

section \<open>One panel member\<close>

record judge_sample =
  js_judge :: string
  js_ok :: bool
  js_called :: bool
  js_requested_provider :: "string option"
  js_requested_model :: "string option"
  js_provider :: "string option"
  js_model :: "string option"
  js_scores :: "(string \<times> rat) list"
  js_overall :: "rat option"
  js_resolved :: "bool option"
  js_input :: int
  js_output :: int
  js_cost :: rat

record judge_meter =
  jt_calls :: nat
  jt_failures :: nat
  jt_transport_failures :: nat
  jt_cost :: rat
  jt_input :: int
  jt_output :: int

text \<open>What the transport does on attempt 0, 1, \<dots>; the loop over \<open>range(retries + 1)\<close> stops at the first response.\<close>

type_synonym call_attempts = "nat \<Rightarrow> (string \<times> usage) result"

fun try_calls :: "nat \<Rightarrow> nat \<Rightarrow> call_attempts \<Rightarrow> nat \<times> (string \<times> usage) option" where
  "try_calls attempt 0 tp = (0, None)"
| "try_calls attempt (Suc left) tp =
     (case tp attempt of
        Inr r \<Rightarrow> (0, Some r)
      | Inl e \<Rightarrow> (let (failed, r) = try_calls (attempt + 1) left tp in (failed + 1, r)))"

definition blank_sample :: "judge_model \<Rightarrow> judge_sample" where
  "blank_sample m = \<lparr>js_judge = jm_name m, js_ok = False, js_called = False, js_requested_provider = jm_provider m,
     js_requested_model = jm_model m, js_provider = None, js_model = None, js_scores = [], js_overall = None,
     js_resolved = None, js_input = 0, js_output = 0, js_cost = 0\<rparr>"

definition str_or :: "string option \<Rightarrow> string option \<Rightarrow> string option" where
  "str_or a b = (case a of None \<Rightarrow> b | Some s \<Rightarrow> if s = [] then b else Some s)"

definition sample_cost :: "pricing option \<Rightarrow> judge_model \<Rightarrow> usage \<Rightarrow> rat" where
  "sample_cost pr m u = (case pr of None \<Rightarrow> 0 | Some p \<Rightarrow> usage_cost p (u\<lparr>u_model := str_or (u_model u) (jm_model m)\<rparr>))"

definition take_sample ::
  "rubric \<Rightarrow> pricing option \<Rightarrow> (string \<Rightarrow> rat option) \<Rightarrow> criterion list \<Rightarrow> judge_model \<times> call_attempts \<Rightarrow> judge_meter \<Rightarrow>
   (judge_sample \<times> judge_meter) result" where
  "take_sample rb pr float_of cs mt meter =
     (let (m, tp) = mt; (failed, response) = try_calls 0 (nat (rb_retries rb + 1)) tp;
          meter1 = meter\<lparr>jt_transport_failures := jt_transport_failures meter + failed\<rparr>
      in case response of
           None \<Rightarrow> Inr (blank_sample m, meter1\<lparr>jt_failures := jt_failures meter1 + 1\<rparr>)
         | Some (reply, u) \<Rightarrow>
             (let c = sample_cost pr m u;
                  meter2 = meter1\<lparr>jt_calls := jt_calls meter1 + 1, jt_cost := jt_cost meter1 + c,
                    jt_input := jt_input meter1 + u_input u, jt_output := jt_output meter1 + u_output u\<rparr>;
                  used = (blank_sample m)\<lparr>js_called := True, js_provider := u_provider u, js_model := u_model u,
                    js_input := u_input u, js_output := u_output u, js_cost := c\<rparr>
              in case parse_scores float_of reply cs (rb_scale_max rb) of
                   Inl JudgeUnparseable \<Rightarrow> Inr (used, meter2\<lparr>jt_failures := jt_failures meter2 + 1\<rparr>)
                 | Inl e \<Rightarrow> Inl e
                 | Inr scores \<Rightarrow>
                     (let overall = overall_score rb scores cs
                      in Inr (used\<lparr>js_ok := True, js_scores := scores, js_overall := Some overall,
                           js_resolved := Some (meets_bar rb overall scores cs)\<rparr>, meter2))))"

section \<open>The verdict\<close>

datatype verdict_status = Resolved | Unresolved | Judge_Failed

record judge_verdict =
  vd_status :: verdict_status
  vd_resolved :: "bool option"
  vd_overall :: "rat option"
  vd_criteria :: "(string \<times> rat \<times> rat \<times> rat) list"
  vd_samples :: "judge_sample list"
  vd_agreement :: "rat option"
  vd_disputed :: bool
  vd_calls :: nat
  vd_failures :: nat
  vd_cost :: rat
  vd_input :: int
  vd_output :: int
  vd_self_judged :: bool
  vd_expectation_used :: bool

text \<open>\<open>_same_model\<close>\<close>

definition same_model :: "string option \<Rightarrow> string option \<Rightarrow> bool" where
  "same_model l r =
     (case (l, r) of
        (Some x, Some y) \<Rightarrow>
          if x = [] \<or> y = [] then False
          else let a = lower (strip x); b = lower (strip y) in a = b \<or> startswith a b \<or> startswith b a
      | _ \<Rightarrow> False)"

definition usable :: "judge_sample \<Rightarrow> bool" where
  "usable s = (js_ok s \<and> js_overall s \<noteq> None)"

definition panel_mean :: "judge_sample list \<Rightarrow> criterion list \<Rightarrow> (string \<times> rat) list" where
  "panel_mean us cs =
     fold (\<lambda>c. dput (cr_name c) (sum_list (map (\<lambda>s. dget_or (js_scores s) (cr_name c) 0) us) / of_nat (length us))) cs []"

definition panel_overall :: "judge_sample list \<Rightarrow> rat" where
  "panel_overall us = sum_list (map (\<lambda>s. case js_overall s of None \<Rightarrow> 0 | Some q \<Rightarrow> q) us) / of_nat (length us)"

definition resolved_votes :: "judge_sample list \<Rightarrow> nat" where
  "resolved_votes us = length (filter (\<lambda>s. js_resolved s = Some True) us)"

definition panel_decision :: "rubric \<Rightarrow> criterion list \<Rightarrow> judge_sample list \<Rightarrow> bool" where
  "panel_decision rb cs us =
     (let for = resolved_votes us; against = length us - for in
      if for > against then True
      else if against > for then False
      else if rb_tie_break rb = ''unresolved'' then False
      else meets_bar rb (panel_overall us) (panel_mean us cs) cs)"

definition settle_verdict ::
  "rubric \<Rightarrow> criterion list \<Rightarrow> bool \<Rightarrow> string option \<Rightarrow> judge_sample list \<Rightarrow> judge_verdict" where
  "settle_verdict rb cs expected answer_model samples =
     (let us = filter usable samples;
          base = \<lparr>vd_status = Judge_Failed, vd_resolved = None, vd_overall = None, vd_criteria = [], vd_samples = samples,
            vd_agreement = None, vd_disputed = False, vd_calls = length (filter js_called samples),
            vd_failures = length (filter (\<lambda>s. \<not> js_ok s) samples), vd_cost = sum_list (map js_cost samples),
            vd_input = sum_list (map js_input samples), vd_output = sum_list (map js_output samples),
            vd_self_judged = list_ex (\<lambda>s. same_model (str_or (js_model s) (js_requested_model s)) answer_model) samples,
            vd_expectation_used = expected\<rparr>
      in if us = [] then base
         else let for = resolved_votes us; against = length us - for; mean = panel_mean us cs;
                  resolved = panel_decision rb cs us
              in base\<lparr>vd_status := (if resolved then Resolved else Unresolved), vd_resolved := Some resolved,
                   vd_overall := Some (panel_overall us),
                   vd_criteria := map (\<lambda>c. (cr_name c, dget_or mean (cr_name c) 0,
                     normalise rb (dget_or mean (cr_name c) 0), dget_or (weights cs) (cr_name c) 0)) cs,
                   vd_agreement := Some (of_nat (max for against) / of_nat (length us)),
                   vd_disputed := (for > 0 \<and> against > 0)\<rparr>)"

definition has_text :: "string option \<Rightarrow> bool" where
  "has_text s = (case s of None \<Rightarrow> False | Some t \<Rightarrow> strip t \<noteq> [])"

text \<open>An empty or errored answer resolves nothing, and needs no judge to say so.\<close>

definition no_answer :: "string option \<Rightarrow> string option \<Rightarrow> bool" where
  "no_answer answer failure = ((failure \<noteq> None \<and> failure \<noteq> Some []) \<or> \<not> has_text answer)"

definition unasked_verdict :: "criterion list \<Rightarrow> bool \<Rightarrow> judge_verdict" where
  "unasked_verdict cs expected =
     \<lparr>vd_status = Unresolved, vd_resolved = Some False, vd_overall = Some 0,
      vd_criteria = map (\<lambda>c. (cr_name c, 0, 0, dget_or (weights cs) (cr_name c) 0)) cs, vd_samples = [],
      vd_agreement = None, vd_disputed = False, vd_calls = 0, vd_failures = 0, vd_cost = 0, vd_input = 0,
      vd_output = 0, vd_self_judged = False, vd_expectation_used = expected\<rparr>"

text \<open>One member after another; \<open>panel\<close> pairs each with what its transport does.\<close>

definition take_samples ::
  "rubric \<Rightarrow> pricing option \<Rightarrow> (string \<Rightarrow> rat option) \<Rightarrow> criterion list \<Rightarrow> (judge_model \<times> call_attempts) list \<Rightarrow>
   judge_sample list \<times> judge_meter \<Rightarrow> (judge_sample list \<times> judge_meter) result" where
  "take_samples rb pr float_of cs panel acc =
     fold_r (\<lambda>mt (samples, t). bind_r (take_sample rb pr float_of cs mt t) (\<lambda>(s, t'). Inr (samples @ [s], t'))) panel acc"

definition judge ::
  "rubric \<Rightarrow> pricing option \<Rightarrow> (string \<Rightarrow> rat option) \<Rightarrow> (judge_model \<times> call_attempts) list \<Rightarrow> string option \<Rightarrow> string option \<Rightarrow>
   string option \<Rightarrow> string option \<Rightarrow> judge_meter \<Rightarrow> (judge_verdict \<times> judge_meter) result" where
  "judge rb pr float_of panel answer expectation answer_model failure meter =
     bind_r (applicable rb (has_text expectation)) (\<lambda>cs.
       if no_answer answer failure then Inr (unasked_verdict cs (has_text expectation), meter)
       else bind_r (take_samples rb pr float_of cs panel ([], meter)) (\<lambda>(samples, t).
            Inr (settle_verdict rb cs (has_text expectation) answer_model samples, t)))"

section \<open>What a strategy may do after a verdict\<close>

record strategy_policy =
  sp_max_attempts :: int
  sp_cheapest_retries :: int
  sp_escalate :: bool
  sp_start :: string

definition check_strategies :: "strategy_policy \<Rightarrow> py_error option" where
  "check_strategies sp =
     (if sp_max_attempts sp < 1 then Some ValueError else if sp_cheapest_retries sp < 0 then Some ValueError else None)"

definition cheapest_attempts :: "strategy_policy \<Rightarrow> int" where
  "cheapest_attempts sp = min (sp_max_attempts sp) (1 + sp_cheapest_retries sp)"

end
