(* ===== verification/Eval_Pairs.thy ===== *)
theory Eval_Pairs
  imports Json Json_Parse Coding_Edit
begin

text \<open>
  Labelled data and the threshold arithmetic over it (\<open>evals/tasks.py\<close>, \<open>evals/pairs.py\<close>): the records of a task set and
  of a set of labelled pairs, the confusion matrix of a threshold, and what is read off a sweep. YAML is outside: a file
  that is one document comes in as the value it was parsed to.
\<close>

section \<open>Records of a file\<close>

text \<open>The lines of a \<open>.jsonl\<close> file; blank ones and comments are skipped.\<close>

definition line_records :: "string \<Rightarrow> json list result" where
  "line_records body =
     map_r (\<lambda>l. case loads l of None \<Rightarrow> Inl ValueError | Some v \<Rightarrow> Inr v)
       (filter (\<lambda>l. l \<noteq> [] \<and> \<not> startswith l ''#'') (map strip (split_lines body)))"

text \<open>One document: a list, or a mapping that holds one under \<open>key\<close>.\<close>

definition document_records :: "string \<Rightarrow> json \<Rightarrow> json list result" where
  "document_records key v =
     (case (case v of JObj d \<Rightarrow> jget d key | _ \<Rightarrow> v) of JList xs \<Rightarrow> Inr xs | _ \<Rightarrow> Inl ValueError)"

text \<open>\<open>f"{n:03d}"\<close>\<close>

definition padded3 :: "nat \<Rightarrow> string" where
  "padded3 n = replicate (3 - length (digits n)) (CHR ''0'') @ digits n"

definition stripped_text :: "pytext \<Rightarrow> obj \<Rightarrow> string \<Rightarrow> string" where
  "stripped_text px d k = strip (text_value px (jget d k) [])"

definition opt_text :: "pytext \<Rightarrow> obj \<Rightarrow> string \<Rightarrow> string option" where
  "opt_text px d k = (case jget d k of JNull \<Rightarrow> None | v \<Rightarrow> Some (strip (printed (px_str px) v)))"

definition other_fields :: "string list \<Rightarrow> obj \<Rightarrow> obj" where
  "other_fields known d = filter (\<lambda>(k, v). k \<notin> set known) d"

section \<open>Tasks\<close>

record eval_task =
  et_id :: string
  et_task :: string
  et_expectation :: "string option"
  et_difficulty :: "string option"
  et_metadata :: obj

definition record_to_task :: "pytext \<Rightarrow> nat \<times> json \<Rightarrow> eval_task result" where
  "record_to_task px nr =
     (case snd nr of
        JObj d \<Rightarrow>
          if stripped_text px d ''task'' = [] then Inl ValueError
          else Inr \<lparr>et_id = text_value px (jget d ''id'') (''task_'' @ padded3 (fst nr)), et_task = stripped_text px d ''task'',
                 et_expectation = opt_text px d ''expectation'', et_difficulty = opt_text px d ''difficulty'',
                 et_metadata = other_fields [''id'', ''task'', ''expectation'', ''difficulty''] d\<rparr>
      | _ \<Rightarrow> Inl ValueError)"

definition load_tasks :: "pytext \<Rightarrow> json list result \<Rightarrow> eval_task list result" where
  "load_tasks px rs =
     bind_r rs (\<lambda>records. bind_r (map_r (record_to_task px) (enumerate 1 records)) (\<lambda>tasks.
       if tasks = [] then Inl ValueError
       else if \<not> distinct (map et_id tasks) then Inl ValueError
       else Inr tasks))"

section \<open>Labelled pairs\<close>

record labelled_pair =
  lp_id :: string
  lp_a :: string
  lp_b :: string
  lp_label :: string
  lp_family :: "string option"
  lp_note :: "string option"
  lp_metadata :: obj

definition pair_positive :: "labelled_pair \<Rightarrow> bool" where
  "pair_positive p = (lower (strip (lp_label p)) = ''same'')"

definition record_to_pair :: "pytext \<Rightarrow> nat \<times> json \<Rightarrow> labelled_pair result" where
  "record_to_pair px nr =
     (case snd nr of
        JObj d \<Rightarrow>
          if stripped_text px d ''a'' = [] \<or> stripped_text px d ''b'' = [] then Inl ValueError
          else if stripped_text px d ''label'' = [] then Inl ValueError
          else Inr \<lparr>lp_id = text_value px (jget d ''id'') (''pair_'' @ padded3 (fst nr)), lp_a = stripped_text px d ''a'',
                 lp_b = stripped_text px d ''b'', lp_label = stripped_text px d ''label'', lp_family = opt_text px d ''family'',
                 lp_note = opt_text px d ''note'',
                 lp_metadata = other_fields [''id'', ''a'', ''b'', ''label'', ''family'', ''note''] d\<rparr>
      | _ \<Rightarrow> Inl ValueError)"

definition load_pairs :: "pytext \<Rightarrow> json list result \<Rightarrow> labelled_pair list result" where
  "load_pairs px rs =
     bind_r rs (\<lambda>records. bind_r (map_r (record_to_pair px) (enumerate 1 records)) (\<lambda>pairs.
       if pairs = [] then Inl ValueError
       else if \<not> distinct (map lp_id pairs) then Inl ValueError
       else if \<not> list_ex pair_positive pairs then Inl ValueError
       else if list_all pair_positive pairs then Inl ValueError
       else Inr pairs))"

text \<open>\<open>by_family\<close>, and \<open>by_difficulty\<close> of the tasks: ids under their label, in order.\<close>

definition grouped :: "('a \<Rightarrow> string option) \<Rightarrow> ('a \<Rightarrow> string) \<Rightarrow> 'a list \<Rightarrow> (string \<times> string list) list" where
  "grouped label ident xs =
     fold (\<lambda>x d. let k = (case label x of None \<Rightarrow> ''unlabelled'' | Some s \<Rightarrow> if s = [] then ''unlabelled'' else s)
                 in dput k (dget_or d k [] @ [ident x]) d) xs []"

definition by_family :: "labelled_pair list \<Rightarrow> (string \<times> string list) list" where
  "by_family = grouped lp_family lp_id"

definition by_difficulty :: "eval_task list \<Rightarrow> (string \<times> string list) list" where
  "by_difficulty = grouped et_difficulty et_id"

section \<open>The sweep\<close>

record operating =
  op_threshold :: rat
  op_tp :: nat
  op_fn :: nat
  op_fp :: nat
  op_tn :: nat

definition tpr :: "operating \<Rightarrow> rat" where
  "tpr p = (if op_tp p + op_fn p = 0 then 0 else of_nat (op_tp p) / of_nat (op_tp p + op_fn p))"

definition fpr :: "operating \<Rightarrow> rat" where
  "fpr p = (if op_fp p + op_tn p = 0 then 0 else of_nat (op_fp p) / of_nat (op_fp p + op_tn p))"

text \<open>The grid, its values rounded to six places, its length floored with a tolerance.\<close>

definition thresholds_grid :: "rat \<Rightarrow> rat \<Rightarrow> rat \<Rightarrow> rat list result" where
  "thresholds_grid low high step =
     (if step \<le> 0 then Inl ValueError
      else if high < low then Inl ValueError
      else Inr (map (\<lambda>i. py_round 6 (low + of_nat i * step))
             [0..<nat (floor ((high - low) / step + 1 / 1000000000)) + 1]))"

fun tally_pair :: "rat \<Rightarrow> labelled_pair \<times> rat \<Rightarrow> operating \<Rightarrow> operating" where
  "tally_pair t (p, score) o' =
     (if pair_positive p
      then if score \<ge> t then o'\<lparr>op_tp := op_tp o' + 1\<rparr> else o'\<lparr>op_fn := op_fn o' + 1\<rparr>
      else if score \<ge> t then o'\<lparr>op_fp := op_fp o' + 1\<rparr> else o'\<lparr>op_tn := op_tn o' + 1\<rparr>)"

definition operate :: "(labelled_pair \<times> rat) list \<Rightarrow> rat \<Rightarrow> operating" where
  "operate scored t = fold (tally_pair t) scored \<lparr>op_threshold = t, op_tp = 0, op_fn = 0, op_fp = 0, op_tn = 0\<rparr>"

definition sweep :: "(labelled_pair \<times> rat) list \<Rightarrow> rat list \<Rightarrow> operating list" where
  "sweep scored grid = map (operate scored) grid"

record separation =
  se_separable :: bool
  se_lowest_positive :: rat
  se_highest_negative :: rat
  se_negative :: labelled_pair
  se_margin :: rat

text \<open>\<open>None\<close> where one kind of pair is missing, which the code also calls not separable.\<close>

definition separable :: "(labelled_pair \<times> rat) list \<Rightarrow> separation option" where
  "separable scored =
     (let ps = map snd (filter (pair_positive \<circ> fst) scored); ns = filter (\<lambda>x. \<not> pair_positive (fst x)) scored in
      if ps = [] \<or> ns = [] then None
      else let worst = fold min (tl ps) (hd ps); dearest = max_by snd ns
           in Some \<lparr>se_separable = (worst > snd dearest), se_lowest_positive = py_round 6 worst,
                se_highest_negative = py_round 6 (snd dearest), se_negative = fst dearest,
                se_margin = py_round 6 (worst - snd dearest)\<rparr>)"

record knee =
  kn_at :: rat
  kn_drop :: rat
  kn_below :: nat
  kn_above :: nat
  kn_flat :: bool

definition steepest_fpr_drop :: "operating list \<Rightarrow> knee option" where
  "steepest_fpr_drop ops =
     (let steps = map (\<lambda>(b, a). (b, a, fpr b - fpr a)) (zip ops (tl ops)) in
      if steps = [] then None
      else let (b, a, d) = max_by (\<lambda>(b, a, d). (d, - op_threshold b)) steps
           in Some \<lparr>kn_at = op_threshold a, kn_drop = py_round 4 d, kn_below = op_fp b, kn_above = op_fp a, kn_flat = (d \<le> 0)\<rparr>)"

definition best_operating :: "operating list \<Rightarrow> operating option" where
  "best_operating ops =
     (if ops = [] then None
      else let clean = filter (\<lambda>p. op_fp p = 0) ops
           in Some (max_by (\<lambda>p. (tpr p, - fpr p, op_threshold p)) (if clean = [] then ops else clean)))"

end
