(* ===== verification/Eval_Claims.thy ===== *)
theory Eval_Claims
  imports Eval_Rubric Eval_Pairs
begin

text \<open>
  What the judge promises: a resolved verdict rests on judges whose readable, in-range scores met the bar, a reply that
  cannot be read is never a task outcome, and the overall score is a weighted mean in the unit interval.
\<close>

section \<open>Weights\<close>

lemma dget_fold_put_other: "k \<notin> f ` set cs \<Longrightarrow> dget (fold (\<lambda>c. dput (f c) (g c)) cs d) k = dget d k"
  by (induction cs arbitrary: d) auto

lemma dget_fold_put:
  "distinct (map f cs) \<Longrightarrow> c \<in> set cs \<Longrightarrow> dget (fold (\<lambda>c. dput (f c) (g c)) cs d) (f c) = Some (g c)"
  by (induction cs arbitrary: d) (auto simp: dget_fold_put_other)

lemma weight_of:
  "distinct (map cr_name cs) \<Longrightarrow> c \<in> set cs \<Longrightarrow> dget_or (weights cs) (cr_name c) 0 =
     (if weight_sum cs \<le> 0 then 1 / of_nat (length cs) else max 0 (cr_weight c) / weight_sum cs)"
  using dget_fold_put [of cr_name cs c "\<lambda>c. 1 / rat_of_nat (length cs)" "[]"]
    dget_fold_put [of cr_name cs c "\<lambda>c. max 0 (cr_weight c) / weight_sum cs" "[]"]
  by (simp add: weights_def dget_or_def)

lemma weight_nonneg: "distinct (map cr_name cs) \<Longrightarrow> c \<in> set cs \<Longrightarrow> 0 \<le> dget_or (weights cs) (cr_name c) 0"
  by (simp add: weight_of)

lemma weights_sum_to_one:
  assumes "distinct (map cr_name cs)" and "cs \<noteq> []"
  shows "sum_list (map (\<lambda>c. dget_or (weights cs) (cr_name c) 0) cs) = 1"
proof -
  have eq: "map (\<lambda>c. dget_or (weights cs) (cr_name c) 0) cs =
      map (\<lambda>c. if weight_sum cs \<le> 0 then 1 / of_nat (length cs) else max 0 (cr_weight c) / weight_sum cs) cs"
    using weight_of [OF assms(1)] by (intro map_cong) auto
  have "sum_list (map (\<lambda>c. max 0 (cr_weight c) / weight_sum cs) xs) = weight_sum xs / weight_sum cs" for xs
    unfolding weight_sum_def by (induction xs) (simp_all add: add_divide_distrib)
  then show ?thesis using assms(2) unfolding eq by (cases "weight_sum cs \<le> 0") (simp_all add: sum_list_triv)
qed

lemma normalise_unit: "0 \<le> normalise rb q \<and> normalise rb q \<le> 1"
  by (simp add: normalise_def)

lemma overall_unit:
  assumes "distinct (map cr_name cs)" and "cs \<noteq> []"
  shows "0 \<le> overall_score rb scores cs \<and> overall_score rb scores cs \<le> 1"
proof
  show "0 \<le> overall_score rb scores cs"
    unfolding overall_score_def using weight_nonneg [OF assms(1)] normalise_unit
    by (intro sum_list_nonneg) auto
  have "overall_score rb scores cs \<le> sum_list (map (\<lambda>c. dget_or (weights cs) (cr_name c) 0) cs)"
    unfolding overall_score_def using weight_nonneg [OF assms(1)] normalise_unit
    by (intro sum_list_mono) (simp add: mult_left_le_one_le)
  with weights_sum_to_one [OF assms] show "overall_score rb scores cs \<le> 1" by simp
qed

section \<open>Scores that were read\<close>

definition in_range :: "rubric \<Rightarrow> criterion list \<Rightarrow> (string \<times> rat) list \<Rightarrow> bool" where
  "in_range rb cs scores = (\<forall>c \<in> set cs. \<exists>q. dget scores (cr_name c) = Some q \<and> 0 \<le> q \<and> q \<le> rb_scale_max rb)"

lemma read_criteria_in_range:
  assumes "fold_r (read_criterion float_of m raw) cs d = Inr scores" and "0 \<le> m"
  shows "(\<forall>c \<in> set cs. \<exists>q. dget scores (cr_name c) = Some q \<and> 0 \<le> q \<and> q \<le> m) \<and>
    (\<forall>k q. dget d k = Some q \<and> 0 \<le> q \<and> q \<le> m \<longrightarrow> (\<exists>q'. dget scores k = Some q' \<and> 0 \<le> q' \<and> q' \<le> m))"
  using assms
proof (induction cs arbitrary: d)
  case (Cons c cs)
  then obtain t where t: "read_criterion float_of m raw c d = Inr t" "fold_r (read_criterion float_of m raw) cs t = Inr scores"
    by (auto simp: bind_r_Inr)
  from t(1) obtain q where "t = dput (cr_name c) (min (max q 0) m) d"
    by (auto simp: read_criterion_def bind_r_Inr split: option.splits)
  with t(2) have q: "fold_r (read_criterion float_of m raw) cs (dput (cr_name c) (min (max q 0) m) d) = Inr scores" by simp
  from Cons.IH [OF q assms(2)] show ?case using assms(2) by auto
qed simp

lemma parse_scores_in_range:
  "parse_scores float_of reply cs (rb_scale_max rb) = Inr scores \<Longrightarrow> 0 \<le> rb_scale_max rb \<Longrightarrow> in_range rb cs scores"
  using read_criteria_in_range [of float_of "rb_scale_max rb" _ cs "[]" scores]
  by (auto simp: parse_scores_def in_range_def split: option.splits json.splits)

lemma read_criterion_errors:
  "read_criterion float_of m raw c d = Inl e \<Longrightarrow> e = JudgeUnparseable \<or>
     e = OverflowError \<and> (\<exists>i. dget raw (cr_name c) = Some (JInt i) \<and> \<bar>i\<bar> \<ge> float_limit)"
  by (auto simp: read_criterion_def read_score_def float_of_int_def bind_r_def split: option.splits json.splits sum.splits if_splits)

text \<open>What a sample is.\<close>

definition sound_sample :: "rubric \<Rightarrow> criterion list \<Rightarrow> judge_sample \<Rightarrow> bool" where
  "sound_sample rb cs s =
     (if js_ok s
      then js_called s \<and> in_range rb cs (js_scores s) \<and> js_overall s = Some (overall_score rb (js_scores s) cs) \<and>
        js_resolved s = Some (meets_bar rb (overall_score rb (js_scores s) cs) (js_scores s) cs)
      else js_overall s = None \<and> js_resolved s = None)"

lemma take_sample_sound:
  assumes "take_sample rb pr float_of cs mt meter = Inr (s, meter')" and "0 \<le> rb_scale_max rb"
  shows "sound_sample rb cs s"
  using assms
  by (auto simp: take_sample_def Let_def sound_sample_def blank_sample_def split: prod.splits option.splits sum.splits py_error.splits
      intro: parse_scores_in_range)

lemma take_samples_sound:
  assumes "take_samples rb pr float_of cs panel (ss, meter) = Inr (samples, meter')" and "0 \<le> rb_scale_max rb"
    and "list_all (sound_sample rb cs) ss"
  shows "list_all (sound_sample rb cs) samples \<and> length samples = length ss + length panel"
  using assms
proof (induction panel arbitrary: ss meter)
  case (Cons mt panel)
  then obtain s t where s: "take_sample rb pr float_of cs mt meter = Inr (s, t)"
    "take_samples rb pr float_of cs panel (ss @ [s], t) = Inr (samples, meter')"
    by (auto simp: bind_r_Inr take_samples_def)
  from Cons.IH [OF s(2) assms(2)] take_sample_sound [OF s(1) assms(2)] Cons.prems(3) show ?case by simp
qed (simp add: take_samples_def)

lemma applicable_ok:
  "applicable rb b = Inr cs \<Longrightarrow> check_rubric rb = None \<Longrightarrow> distinct (map cr_name cs) \<and> cs \<noteq> [] \<and> 0 \<le> rb_scale_max rb"
  by (auto simp: applicable_def check_rubric_def Let_def distinct_map_filter split: if_splits)

lemma judge_cases:
  assumes "judge rb pr float_of panel answer expectation answer_model failure meter = Inr (v, meter')" and "check_rubric rb = None"
  obtains cs where "applicable rb (has_text expectation) = Inr cs" "distinct (map cr_name cs)" "cs \<noteq> []"
      "no_answer answer failure" "v = unasked_verdict cs (has_text expectation)" "meter' = meter"
    | cs samples where "applicable rb (has_text expectation) = Inr cs" "distinct (map cr_name cs)" "cs \<noteq> []"
      "\<not> no_answer answer failure" "list_all (sound_sample rb cs) samples" "length samples = length panel"
      "v = settle_verdict rb cs (has_text expectation) answer_model samples"
proof -
  from assms obtain cs where cs: "applicable rb (has_text expectation) = Inr cs" by (auto simp: judge_def bind_r_Inr)
  note ok = applicable_ok [OF this assms(2)]
  show thesis
  proof (cases "no_answer answer failure")
    case True
    with assms(1) cs ok show ?thesis by (intro that(1)) (auto simp: judge_def)
  next
    case False
    with assms(1) cs obtain samples where s: "take_samples rb pr float_of cs panel ([], meter) = Inr (samples, meter')"
      "v = settle_verdict rb cs (has_text expectation) answer_model samples" by (auto simp: judge_def bind_r_Inr)
    from take_samples_sound [OF s(1)] ok cs False s(2) show ?thesis by (intro that(2)) simp_all
  qed
qed

section \<open>The verdict follows the panel\<close>

text \<open>A sample votes for the answer when every criterion reaches its floor and the overall score reaches the threshold.\<close>

definition votes_for :: "rubric \<Rightarrow> criterion list \<Rightarrow> judge_sample \<Rightarrow> bool" where
  "votes_for rb cs s = ((\<forall>c \<in> set cs. rb_min_criterion rb \<le> normalise rb (dget_or (js_scores s) (cr_name c) 0)) \<and>
     rb_threshold rb \<le> overall_score rb (js_scores s) cs)"

lemma meets_bar_iff:
  "meets_bar rb q scores cs \<longleftrightarrow> (\<forall>c \<in> set cs. rb_min_criterion rb \<le> normalise rb (dget_or scores (cr_name c) 0)) \<and> rb_threshold rb \<le> q"
  by (auto simp: meets_bar_def not_le)

lemma sound_votes: "list_all (sound_sample rb cs) samples \<Longrightarrow>
  filter usable samples = filter js_ok samples \<and>
  resolved_votes (filter js_ok samples) = length (filter (votes_for rb cs) (filter js_ok samples))"
  by (induction samples)
    (auto simp: usable_def sound_sample_def resolved_votes_def votes_for_def meets_bar_iff split: if_splits)




section \<open>Scores of a verdict\<close>

lemma mean_unit:
  assumes "xs \<noteq> []" and "\<forall>x \<in> set xs. 0 \<le> x \<and> x \<le> (1 :: rat)"
  shows "0 \<le> sum_list xs / of_nat (length xs) \<and> sum_list xs / of_nat (length xs) \<le> 1"
proof -
  have "sum_list xs \<le> of_nat (length xs) \<and> 0 \<le> sum_list xs" using assms(2) by (induction xs) auto
  with assms(1) show ?thesis by (simp add: divide_le_eq_1)
qed

lemma panel_overall_unit:
  assumes "list_all (sound_sample rb cs) us" and "us \<noteq> []" and "\<forall>s \<in> set us. js_ok s"
    and "distinct (map cr_name cs)" and "cs \<noteq> []"
  shows "0 \<le> panel_overall us \<and> panel_overall us \<le> 1"
proof -
  let ?q = "\<lambda>s. case js_overall s of None \<Rightarrow> 0 | Some q \<Rightarrow> q"
  have "\<forall>x \<in> set (map ?q us). 0 \<le> x \<and> x \<le> 1"
    using assms(1,3) overall_unit [OF assms(4,5)] by (auto simp: list_all_iff sound_sample_def)
  with mean_unit [of "map ?q us"] assms(2) show ?thesis by (simp add: panel_overall_def)
qed

text \<open>A verdict's overall score is a weighted mean: it lies between 0 and 1, the weights it reports for the criteria in play
  sum to 1, and the normalised scores lie between 0 and 1.\<close>

lemma verdict_scores_are_unit:
  assumes "judge rb pr float_of panel answer expectation answer_model failure meter = Inr (v, meter')" and "check_rubric rb = None"
  shows "(\<forall>q. vd_overall v = Some q \<longrightarrow> 0 \<le> q \<and> q \<le> 1) \<and>
    (\<forall>(name, score, normal, weight) \<in> set (vd_criteria v). 0 \<le> normal \<and> normal \<le> 1 \<and> 0 \<le> weight) \<and>
    (vd_criteria v \<noteq> [] \<longrightarrow> sum_list (map (\<lambda>(name, score, normal, weight). weight) (vd_criteria v)) = 1)"
proof -
  have w: "sum_list (map ((\<lambda>(name, score, normal, weight). weight) \<circ> (\<lambda>c. (cr_name c, g c, n c, dget_or (weights cs) (cr_name c) 0))) cs) = 1"
    if "distinct (map cr_name cs)" "cs \<noteq> []" for g n :: "criterion \<Rightarrow> rat" and cs using weights_sum_to_one [OF that] by (simp add: o_def)
  from assms show ?thesis
  proof (cases rule: judge_cases)
    case (1 cs)
    with w [of cs "\<lambda>_. 0" "\<lambda>_. 0"] weight_nonneg [OF 1(2)] show ?thesis by (auto simp: unasked_verdict_def)
  next
    case (2 cs samples)
    define us where "us = filter usable samples"
    have us: "us = filter js_ok samples" using sound_votes [OF 2(5)] by (simp add: us_def)
    have "list_all (sound_sample rb cs) us" "\<forall>s \<in> set us. js_ok s" using 2(5) by (auto simp: us list_all_iff)
    then have p: "us \<noteq> [] \<Longrightarrow> 0 \<le> panel_overall us \<and> panel_overall us \<le> 1"
      using panel_overall_unit [OF _ _ _ 2(2,3)] by blast
    define n where "n = (\<lambda>c :: criterion. dget_or (panel_mean us cs) (cr_name c) 0)"
    show ?thesis
    proof (cases "us = []")
      case True
      then show ?thesis by (simp add: 2(7) settle_verdict_def Let_def us_def [symmetric])
    next
      case False
      then have o: "vd_overall v = Some (panel_overall us)"
        "vd_criteria v = map (\<lambda>c. (cr_name c, n c, normalise rb (n c), dget_or (weights cs) (cr_name c) 0)) cs"
        by (simp_all add: 2(7) settle_verdict_def Let_def us_def [symmetric] n_def)
      show ?thesis unfolding o using p [OF False] w [OF 2(2,3), of n "\<lambda>c. normalise rb (n c)"] weight_nonneg [OF 2(2)] normalise_unit
        by auto
    qed
  qed
qed

section \<open>When judging raises\<close>

definition unfloatable :: "string \<Rightarrow> bool" where
  "unfloatable reply = (\<exists>d raw k i. judge_json reply = Some d \<and> dget d ''scores'' = Some (JObj raw) \<and>
     dget raw k = Some (JInt i) \<and> \<bar>i\<bar> \<ge> float_limit)"

lemma bind_r_total: "bind_r x (\<lambda>(s, t). Inr (f s t)) = Inl e \<Longrightarrow> x = Inl e"
  by (cases x) (auto split: prod.splits)

lemma fold_r_error: "fold_r f xs s = Inl e \<Longrightarrow> \<exists>x \<in> set xs. \<exists>t. f x t = Inl e"
proof (induction xs arbitrary: s)
  case (Cons x xs)
  then show ?case by (cases "f x s") auto
qed simp

lemma parse_scores_errors: "parse_scores float_of reply cs m = Inl e \<Longrightarrow> e \<noteq> JudgeUnparseable \<Longrightarrow> e = OverflowError \<and> unfloatable reply"
  by (fastforce simp: parse_scores_def unfloatable_def split: option.splits json.splits dest!: fold_r_error read_criterion_errors)

lemma try_calls_reply: "try_calls n left tp = (failed, Some r) \<Longrightarrow> \<exists>attempt. tp attempt = Inr r"
  by (induction n left tp arbitrary: failed rule: try_calls.induct) (auto split: sum.splits prod.splits)

lemma take_sample_errors:
  assumes "take_sample rb pr float_of cs (m, tp) meter = Inl e"
  shows "e = OverflowError \<and> (\<exists>attempt reply u. tp attempt = Inr (reply, u) \<and> unfloatable reply)"
proof -
  obtain failed response where c: "try_calls 0 (nat (rb_retries rb + 1)) tp = (failed, response)" by (cases "try_calls 0 (nat (rb_retries rb + 1)) tp")
  with assms obtain reply u where r: "response = Some (reply, u)" by (auto simp: take_sample_def Let_def split: option.splits)
  from assms c r have "parse_scores float_of reply cs (rb_scale_max rb) = Inl e \<and> e \<noteq> JudgeUnparseable"
    by (auto simp: take_sample_def Let_def split: sum.splits py_error.splits)
  with parse_scores_errors try_calls_reply [OF c [unfolded r]] show ?thesis by blast
qed

text \<open>Judging fails closed on its configuration and otherwise almost never: with a checked rubric an error is either a
  ValueError, because no criterion applies to a task without an expectation, or the one a judge can provoke: a score
  that is an integer too large for a float raises OverflowError out of \<open>judge\<close>, where a judge's bad reply is meant never
  to raise.\<close>

lemma judge_raises_only_on_overflow:
  assumes "judge rb pr float_of panel answer expectation answer_model failure meter = Inl e" and "check_rubric rb = None"
  shows "(e = ValueError \<and> \<not> has_text expectation \<and> (\<forall>c \<in> set (rb_criteria rb). cr_requires_expectation c)) \<or>
    (e = OverflowError \<and> \<not> no_answer answer failure \<and>
      (\<exists>(m, tp) \<in> set panel. \<exists>attempt reply u. tp attempt = Inr (reply, u) \<and> unfloatable reply))"
proof (cases "applicable rb (has_text expectation)")
  case (Inl x)
  with assms(1) show ?thesis by (auto simp: judge_def applicable_def Let_def filter_empty_conv split: if_splits)
next
  case (Inr cs)
  with assms(1) have s: "take_samples rb pr float_of cs panel ([], meter) = Inl e" "\<not> no_answer answer failure"
    by (auto simp: judge_def bind_r_def split: if_splits sum.splits)
  from fold_r_error [OF s(1) [unfolded take_samples_def]] obtain m tp t where
    "(m, tp) \<in> set panel" "take_sample rb pr float_of cs (m, tp) t = Inl e"
    by (auto dest: bind_r_total)
  with take_sample_errors [of rb pr float_of cs m tp t e] s(2) show ?thesis by blast
qed

section \<open>Thresholds\<close>

lemma pair_tally_counts:
  "op_tp (fold (tally_pair t) scored o0) = op_tp o0 + length (filter (\<lambda>(p, s). pair_positive p \<and> t \<le> s) scored)"
  "op_fn (fold (tally_pair t) scored o0) = op_fn o0 + length (filter (\<lambda>(p, s). pair_positive p \<and> s < t) scored)"
  "op_fp (fold (tally_pair t) scored o0) = op_fp o0 + length (filter (\<lambda>(p, s). \<not> pair_positive p \<and> t \<le> s) scored)"
  "op_tn (fold (tally_pair t) scored o0) = op_tn o0 + length (filter (\<lambda>(p, s). \<not> pair_positive p \<and> s < t) scored)"
  by (induction scored arbitrary: o0) (auto simp: not_le split: if_splits)

lemma operate_counts:
  "op_fn (operate scored t) = 0 \<longleftrightarrow> (\<forall>(p, s) \<in> set scored. pair_positive p \<longrightarrow> t \<le> s)"
  "op_fp (operate scored t) = 0 \<longleftrightarrow> (\<forall>(p, s) \<in> set scored. \<not> pair_positive p \<longrightarrow> s < t)"
  by (auto simp: operate_def pair_tally_counts filter_empty_conv not_le not_less split_beta)

text \<open>A stricter threshold catches no more, rightly or wrongly.\<close>

lemma sweep_antitone:
  assumes "t \<le> u"
  shows "op_tp (operate scored u) \<le> op_tp (operate scored t) \<and> op_fp (operate scored u) \<le> op_fp (operate scored t)"
  unfolding operate_def pair_tally_counts using assms by (induction scored) auto

lemma fold_min_rat: "xs \<noteq> [] \<Longrightarrow> fold min (tl xs) (hd xs) \<in> set xs \<and> (\<forall>x \<in> set xs. fold min (tl xs) (hd xs) \<le> (x :: rat))"
proof -
  have "fold min ys a \<in> set (a # ys) \<and> (\<forall>x \<in> set (a # ys). fold min ys a \<le> x)" for ys and a :: rat
  proof (induction ys arbitrary: a)
    case (Cons y ys)
    show ?case using Cons.IH [of "min y a"] by (auto simp: min_def split: if_splits intro: order_trans)
  qed simp
  then show "xs \<noteq> [] \<Longrightarrow> ?thesis" by (cases xs) auto
qed

text \<open>A labelled set is called separable exactly when it has pairs of both kinds and some threshold admits every pair that
  should hit and none that must not: at that threshold the sweep counts no false negative and no false positive.\<close>

lemma separable_iff_some_threshold:
  "(\<exists>s. separable scored = Some s \<and> se_separable s) \<longleftrightarrow>
   list_ex (\<lambda>(p, s). pair_positive p) scored \<and> list_ex (\<lambda>(p, s). \<not> pair_positive p) scored \<and>
   (\<exists>t. op_fn (operate scored t) = 0 \<and> op_fp (operate scored t) = 0)"
proof -
  define ps where "ps = map snd (filter (pair_positive \<circ> fst) scored)"
  define ns where "ns = filter (\<lambda>x. \<not> pair_positive (fst x)) scored"
  have mem: "x \<in> set ps \<longleftrightarrow> (\<exists>p. (p, x) \<in> set scored \<and> pair_positive p)"
    "(p, x) \<in> set ns \<longleftrightarrow> (p, x) \<in> set scored \<and> \<not> pair_positive p" for p x by (force simp: ps_def ns_def)+
  have ex: "list_ex (\<lambda>(p, s). pair_positive p) scored \<longleftrightarrow> ps \<noteq> []" "list_ex (\<lambda>(p, s). \<not> pair_positive p) scored \<longleftrightarrow> ns \<noteq> []"
    by (force simp: ps_def ns_def list_ex_iff filter_empty_conv)+
  have clean: "op_fn (operate scored t) = 0 \<and> op_fp (operate scored t) = 0 \<longleftrightarrow> (\<forall>x \<in> set ps. t \<le> x) \<and> (\<forall>(p, x) \<in> set ns. x < t)" for t
    by (auto simp: operate_counts mem)
  let ?w = "fold min (tl ps) (hd ps)" and ?d = "max_by snd ns"
  have sep: "(\<exists>s. separable scored = Some s \<and> se_separable s) \<longleftrightarrow> ps \<noteq> [] \<and> ns \<noteq> [] \<and> snd ?d < ?w"
    by (simp add: separable_def ps_def [symmetric] ns_def [symmetric] Let_def)
  have "(\<exists>t. (\<forall>x \<in> set ps. t \<le> x) \<and> (\<forall>(p, x) \<in> set ns. x < t)) \<longleftrightarrow> snd ?d < ?w" if "ps \<noteq> []" "ns \<noteq> []"
  proof
    assume "snd ?d < ?w"
    then show "\<exists>t. (\<forall>x \<in> set ps. t \<le> x) \<and> (\<forall>(p, x) \<in> set ns. x < t)"
      using fold_min_rat [OF that(1)] max_by_greatest [of _ ns snd]
      by (intro exI [of _ ?w]) (fastforce intro: le_less_trans)
  next
    assume "\<exists>t. (\<forall>x \<in> set ps. t \<le> x) \<and> (\<forall>(p, x) \<in> set ns. x < t)"
    then obtain t where t: "\<forall>x \<in> set ps. t \<le> x" "\<forall>y \<in> set ns. snd y < t" by (auto simp: split_beta)
    then show "snd ?d < ?w" using fold_min_rat [OF that(1)] max_by_mem [OF that(2), of snd] by (blast intro: less_le_trans)
  qed
  with sep show ?thesis unfolding ex clean by blast
qed

text \<open>The recommended point is free of collisions whenever one is, and among those it catches the most.\<close>

lemma best_operating_is_safest:
  assumes "best_operating ops = Some p"
  shows "p \<in> set ops \<and> (op_fp p = 0 \<longleftrightarrow> (\<exists>q \<in> set ops. op_fp q = 0)) \<and>
    (\<forall>q \<in> set ops. (op_fp q = 0 \<longleftrightarrow> op_fp p = 0) \<longrightarrow> tpr q \<le> tpr p)"
proof -
  define pool where "pool = (if filter (\<lambda>p. op_fp p = 0) ops = [] then ops else filter (\<lambda>p. op_fp p = 0) ops)"
  have p: "p = max_by (\<lambda>p. (tpr p, - fpr p, op_threshold p)) pool" "pool \<noteq> []" "set pool \<subseteq> set ops"
    using assms by (auto simp: best_operating_def pool_def Let_def split: if_splits)
  from max_by_mem [OF p(2)] p(1) have mem: "p \<in> set pool" by simp
  have "tpr q \<le> tpr p" if "q \<in> set pool" for q
    using max_by_greatest [OF that, of "\<lambda>p. (tpr p, - fpr p, op_threshold p)"] p(1) by (auto simp: less_eq_prod_def)
  with mem p(3) show ?thesis by (auto simp: pool_def filter_empty_conv split: if_splits)
qed

text \<open>A value of the grid can lie past the upper end, by the rounding.\<close>

lemma grid_passes_high: "\<exists>ts. thresholds_grid 0 (6 / 10000000) (6 / 10000000) = Inr ts \<and> (\<exists>t \<in> set ts. 6 / 10000000 < t)"
proof -
  have f: "\<lfloor>1 + 1 / 1000000000 :: rat\<rfloor> = 1" by (simp add: floor_eq_iff)
  have "thresholds_grid 0 (6 / 10000000) (6 / 10000000) = Inr [py_round 6 0, py_round 6 (6 / 10000000)]"
    by (simp add: thresholds_grid_def f upt_rec)
  moreover have "py_round 6 (6 / 10000000) = 1 / 1000000"
  proof -
    have "\<lfloor>3 / 5 :: rat\<rfloor> = 0" by (simp add: floor_eq_iff)
    then show ?thesis by (simp add: py_round_def round_even_def Let_def)
  qed
  ultimately show ?thesis by simp
qed

section \<open>Two judges\<close>

definition demo_rubric :: rubric where
  "demo_rubric = \<lparr>rb_criteria = [\<lparr>cr_name = ''ok'', cr_weight = 1, cr_requires_expectation = False\<rparr>],
     rb_panel = [\<lparr>jm_name = ''j'', jm_provider = None, jm_model = Some ''m''\<rparr>], rb_scale_max = 4, rb_threshold = 3 / 4,
     rb_min_criterion = 1 / 2, rb_tie_break = ''unresolved'', rb_retries = 0\<rparr>"

definition demo_usage :: usage where
  "demo_usage = \<lparr>u_provider = None, u_model = None, u_input = 0, u_output = 0, u_cache_read = 0, u_cache_write = 0, u_latency = None,
     u_started_at = 0\<rparr>"

definition replies :: "string list \<Rightarrow> (judge_model \<times> call_attempts) list" where
  "replies rs = map (\<lambda>r. (\<lparr>jm_name = ''j'', jm_provider = None, jm_model = Some ''m''\<rparr>, \<lambda>_. Inr (r, demo_usage))) rs"

definition no_meter :: judge_meter where
  "no_meter = \<lparr>jt_calls = 0, jt_failures = 0, jt_transport_failures = 0, jt_cost = 0, jt_input = 0, jt_output = 0\<rparr>"

definition one_good_reply :: "(judge_verdict \<times> judge_meter) result" where
  "one_good_reply = judge demo_rubric None (\<lambda>_. None) (replies [''{\"scores\": {\"ok\": 4}}'', ''it is fine''])
     (Some ''an answer'') None None None no_meter"

lemma one_good_reply: "\<exists>v t. one_good_reply = Inr (v, t) \<and> vd_status v = Resolved \<and> vd_overall v = Some 1 \<and> vd_failures v = 1"
proof -
  have "(case one_good_reply of Inl e \<Rightarrow> False | Inr (v, t) \<Rightarrow> vd_status v = Resolved \<and> vd_overall v = Some 1 \<and> vd_failures v = 1)"
    by code_simp
  then show ?thesis by (auto split: sum.splits prod.splits)
qed

lemma demo_rubric_ok: "check_rubric demo_rubric = None"
  by (simp add: check_rubric_def demo_rubric_def)


lemma verdict_scores_are_unit_witness:
  "\<exists>v t. one_good_reply = Inr (v, t) \<and> vd_overall v = Some 1 \<and>
     (vd_criteria v \<noteq> [] \<longrightarrow> sum_list (map (\<lambda>(name, score, normal, weight). weight) (vd_criteria v)) = 1)"
proof -
  obtain v t where v: "one_good_reply = Inr (v, t)" "vd_overall v = Some 1" using one_good_reply by blast
  from verdict_scores_are_unit [OF v(1) [unfolded one_good_reply_def] demo_rubric_ok] v show ?thesis by blast
qed

text \<open>A reply whose score is a one with 309 zeros, and what reading it does.\<close>

lemma digits_zeros: "digits_prefix (replicate n (CHR ''0'') @ CHR ''}'' # r) = (replicate n (CHR ''0''), CHR ''}'' # r)"
  by (induction n) (auto simp: digits_prefix_def is_digit_def)

lemma nat_of_zeros: "fold (\<lambda>c n. 10 * n + digit_value c) (replicate n (CHR ''0'')) k = k * 10 ^ n"
  by (induction n arbitrary: k) (auto simp: digit_value_def)

lemma parse_number_zeros:
  "parse_number (CHR ''1'' # replicate n (CHR ''0'') @ CHR ''}'' # r) = Some (JInt (10 ^ n), CHR ''}'' # r)"
proof -
  have d: "digits_prefix (CHR ''1'' # replicate n (CHR ''0'') @ CHR ''}'' # r) = (CHR ''1'' # replicate n (CHR ''0''), CHR ''}'' # r)"
    using digits_zeros [of n r] by (simp add: digits_prefix_def is_digit_def)
  have v: "nat_of_digits (CHR ''1'' # replicate n (CHR ''0'')) = 10 ^ n"
    using nat_of_zeros [of n 1] by (simp add: nat_of_digits_def digit_value_def)
  show ?thesis by (simp add: parse_number_def d v parse_exponent_def Let_def digit_value_def)
qed

lemma huge_json:
  "loads (''{\"scores\":{\"ok\":1'' @ replicate n (CHR ''0'') @ ''}}'') = Some (JObj [(''scores'', JObj [(''ok'', JInt (10 ^ n))])])"
  using parse_number_zeros [of n "''}''"]
  by (simp add: loads_def parse_value.simps parse_pairs.simps skip_ws_def json_space_def startswith_def Let_def)

definition huge_text :: string where
  "huge_text = ''{\"scores\":{\"ok\":1'' @ replicate 309 (CHR ''0'') @ ''}}''"

lemma huge_judge_json: "judge_json huge_text = Some [(''scores'', JObj [(''ok'', JInt (10 ^ 309))])]"
proof -
  have "strip huge_text = huge_text"
    by (simp add: huge_text_def strip_def lstrip_def rstrip_def is_space_def)
  moreover have "unfenced huge_text = huge_text" by (simp add: unfenced_def startswith_def huge_text_def)
  moreover have "loads huge_text = Some (JObj [(''scores'', JObj [(''ok'', JInt (10 ^ 309))])])"
    unfolding huge_text_def by (rule huge_json)
  ultimately show ?thesis by (simp add: judge_json_def Let_def del: power_numeral)
qed

definition huge_reply :: "(judge_verdict \<times> judge_meter) result" where
  "huge_reply = judge demo_rubric None (\<lambda>_. None) (replies [huge_text]) (Some ''an answer'') None None None no_meter"

lemma huge_reply: "huge_reply = Inl OverflowError"
proof -
  have big: "\<not> \<bar>10 ^ 309 :: int\<bar> < float_limit" by (simp add: float_limit_def)
  have parse: "parse_scores f huge_text (rb_criteria demo_rubric) m = Inl OverflowError" for f m
    using big by (simp add: parse_scores_def huge_judge_json demo_rubric_def read_criterion_def read_score_def float_of_int_def)
  have "applicable demo_rubric b = Inr (rb_criteria demo_rubric)" for b by (simp add: applicable_def demo_rubric_def Let_def)
  moreover have "\<not> no_answer (Some ''an answer'') None"
    by (simp add: no_answer_def has_text_def strip_def lstrip_def rstrip_def is_space_def)
  moreover have "nat (rb_retries demo_rubric + 1) = Suc 0" by (simp add: demo_rubric_def)
  ultimately show ?thesis
    by (simp add: huge_reply_def judge_def take_samples_def take_sample_def replies_def Let_def parse)
qed

lemma judge_raises_only_on_overflow_witness:
  "huge_reply = Inl OverflowError \<and> (\<exists>reply. unfloatable reply)"
  using judge_raises_only_on_overflow [OF huge_reply [unfolded huge_reply_def] demo_rubric_ok] huge_reply by auto

end
