(* ===== verification/Reasoning.thy ===== *)
theory Reasoning
  imports Json Planner_Parse
begin

text \<open>
  Reasoning without a test to run (\<open>reasoning/\<close>): the verifier that reads a grade, the loop that drafts, verifies and
  refines, and the optimizer that rewrites a request before anything plans against it. What the model answers is an argument;
  so is the pattern that finds the literals of a text.
\<close>

section \<open>The verifier\<close>

record graded =
  gd_score :: int
  gd_critique :: string
  gd_issues :: "string list"

text \<open>\<open>int(v)\<close>, as \<open>_parse\<close> calls it: what it raises for a wrong type or text is caught, what a float too large for an
  integer raises is not. JSON texts such as \<open>1e999\<close> are read as infinity.\<close>

definition read_int :: "pytext \<Rightarrow> json \<Rightarrow> int result" where
  "read_int px v =
     (case v of
        JBool b \<Rightarrow> Inr (if b then 1 else 0)
      | JInt i \<Rightarrow> Inr i
      | JFloat q \<Rightarrow> if \<bar>q\<bar> < 2 ^ 1024 then Inr (int_of_rat q) else Inl OverflowError
      | JStr s \<Rightarrow> (case px_int px s of None \<Rightarrow> Inl VerifierError | Some i \<Rightarrow> Inr i)
      | _ \<Rightarrow> Inl VerifierError)"

text \<open>The non-empty stripped texts of what \<open>value or []\<close> yields.\<close>

definition listed_texts :: "pytext \<Rightarrow> json \<Rightarrow> string list result" where
  "listed_texts px v =
     bind_r (iterated v) (\<lambda>xs. Inr (filter (\<lambda>s. s \<noteq> []) (map (strip \<circ> printed (px_str px)) xs)))"

definition braced_json :: "string \<Rightarrow> obj option" where
  "braced_json raw =
     (case brace_span raw of None \<Rightarrow> None
      | Some s \<Rightarrow> (case loads s of Some (JObj d) \<Rightarrow> Some d | _ \<Rightarrow> None))"

definition capped_note :: string where
  "capped_note = '' [score capped: issues were listed alongside a passing score]''"

definition parse_grade :: "pytext \<Rightarrow> int \<Rightarrow> string \<Rightarrow> graded result" where
  "parse_grade px fast_path raw =
     (case braced_json raw of
        None \<Rightarrow> Inl VerifierError
      | Some d \<Rightarrow>
          (case dget d ''score'' of
             None \<Rightarrow> Inl VerifierError
           | Some v \<Rightarrow>
               bind_r (read_int px v) (\<lambda>score.
                 if \<not> (0 \<le> score \<and> score \<le> 100) then Inl VerifierError
                 else
                   let critique = strip (text_value px (jget d ''critique'') [])
                   in bind_r (listed_texts px (jget d ''issues'')) (\<lambda>issues.
                        let capped = (score \<ge> fast_path \<and> issues \<noteq> []);
                            score' = (if capped then min score (fast_path - 1) else score);
                            critique' = (if capped then strip (critique @ capped_note) else critique)
                        in if critique' = [] \<and> score' < fast_path then Inl VerifierError
                           else Inr \<lparr>gd_score = score', gd_critique = critique', gd_issues = issues\<rparr>))))"

section \<open>Draft, verify, refine\<close>

record attempt =
  at_number :: nat
  at_text :: string
  at_verdict :: "graded option"

definition at_score :: "attempt \<Rightarrow> int" where
  "at_score a = (case at_verdict a of None \<Rightarrow> -1 | Some g \<Rightarrow> gd_score g)"

datatype stop_reason = Verifier_failed | Fast_path | Limit_reached

record reasoned =
  re_text :: string
  re_score :: int
  re_attempts :: nat
  re_stop :: stop_reason
  re_history :: "(nat \<times> int \<times> string \<times> string list \<times> nat) list"
  re_verified :: bool

definition history_of :: "attempt list \<Rightarrow> (nat \<times> int \<times> string \<times> string list \<times> nat) list" where
  "history_of as = map (\<lambda>a. (at_number a, at_score a, (case at_verdict a of None \<Rightarrow> [] | Some g \<Rightarrow> gd_critique g),
     (case at_verdict a of None \<Rightarrow> [] | Some g \<Rightarrow> gd_issues g), length (at_text a))) as"

definition best_attempt :: "attempt list \<Rightarrow> attempt" where
  "best_attempt as = max_by at_score as"

text \<open>The engine and its environment: \<open>eg_drafts n\<close> is what the n-th drafting call returns, \<open>eg_replies n\<close> what the
  verifier's model answers on attempt \<open>n\<close>. The verifier may have a threshold of its own.\<close>

record reasoning_engine =
  eg_text :: pytext
  eg_drafts :: "nat \<Rightarrow> string result"
  eg_replies :: "nat \<Rightarrow> string result"
  eg_verifier_path :: int
  eg_fast_path :: int

definition verify :: "reasoning_engine \<Rightarrow> nat \<Rightarrow> graded result" where
  "verify eg n = bind_r (eg_replies eg n) (parse_grade (eg_text eg) (eg_verifier_path eg))"

definition outcome_of_best :: "attempt list \<Rightarrow> stop_reason \<Rightarrow> bool \<Rightarrow> reasoned" where
  "outcome_of_best as why ok =
     (let best = best_attempt as in
      \<lparr>re_text = at_text best, re_score = (if ok then at_score best else max (at_score best) 0), re_attempts = length as,
       re_stop = why, re_history = history_of as, re_verified = ok\<rparr>)"

text \<open>One round of the loop on the attempts judged so far and the current one.\<close>

fun refine_loop :: "reasoning_engine \<Rightarrow> nat \<Rightarrow> attempt list \<Rightarrow> attempt \<Rightarrow> reasoned result" where
  "refine_loop eg left judged cur =
     (case verify eg (at_number cur) of
        Inl e \<Rightarrow> if e = VerifierError then Inr (outcome_of_best (judged @ [cur]) Verifier_failed False) else Inl e
      | Inr g \<Rightarrow>
          (let as = judged @ [cur\<lparr>at_verdict := Some g\<rparr>] in
           if gd_score g \<ge> eg_fast_path eg
           then Inr \<lparr>re_text = at_text cur, re_score = gd_score g, re_attempts = length as, re_stop = Fast_path,
                  re_history = history_of as, re_verified = True\<rparr>
           else case left of
               0 \<Rightarrow> Inr (outcome_of_best as Limit_reached True)
             | Suc n \<Rightarrow>
                 bind_r (eg_drafts eg (at_number cur)) (\<lambda>revised.
                   refine_loop eg n as \<lparr>at_number = at_number cur + 1, at_text = revised, at_verdict = None\<rparr>)))"

declare refine_loop.simps [simp del]

definition engine_run :: "reasoning_engine \<Rightarrow> nat \<Rightarrow> reasoned result" where
  "engine_run eg max_refinements =
     bind_r (eg_drafts eg 0) (\<lambda>first. refine_loop eg max_refinements [] \<lparr>at_number = 1, at_text = first, at_verdict = None\<rparr>)"

section \<open>The query optimizer\<close>

record optimized_query =
  oq_original :: string
  oq_query :: string
  oq_constraints :: "string list"
  oq_assumptions :: "string list"
  oq_rewritten :: bool

definition keep_original :: "string \<Rightarrow> optimized_query" where
  "keep_original original = \<lparr>oq_original = original, oq_query = original, oq_constraints = [], oq_assumptions = [], oq_rewritten = False\<rparr>"

definition bullets :: "string \<Rightarrow> string list \<Rightarrow> string list" where
  "bullets header xs = (if xs = [] then [] else [header @ [CHR 10] @ join [CHR 10] (map (\<lambda>x. ''- '' @ x) xs)])"

definition planning_goal :: "optimized_query \<Rightarrow> string" where
  "planning_goal q =
     (if \<not> oq_rewritten q then oq_original q
      else join [CHR 10, CHR 10]
        ([oq_query q] @ bullets ''Constraints:'' (oq_constraints q) @ bullets ''Assumed (say so if wrong):'' (oq_assumptions q) @
         [''Original request, verbatim:'' @ [CHR 10] @ oq_original q]))"

definition accept_rewrite :: "pytext \<Rightarrow> (string \<Rightarrow> string list) \<Rightarrow> nat \<Rightarrow> string \<Rightarrow> string \<Rightarrow> optimized_query result" where
  "accept_rewrite px literals min_length original raw =
     (case braced_json raw of
        None \<Rightarrow> Inr (keep_original original)
      | Some d \<Rightarrow>
          let query = strip (text_value px (jget d ''query'') []) in
          if query = [] then Inr (keep_original original)
          else
            bind_r (listed_texts px (jget d ''constraints'')) (\<lambda>constraints.
            bind_r (listed_texts px (jget d ''assumptions'')) (\<lambda>assumptions.
              let carried = literals (query @ '' '' @ join '' '' constraints) in
              if \<not> set (literals original) \<subseteq> set carried then Inr (keep_original original)
              else if length query > 12 * max (length original) min_length then Inr (keep_original original)
              else Inr \<lparr>oq_original = original, oq_query = query, oq_constraints = constraints, oq_assumptions = assumptions,
                     oq_rewritten = (lower query \<noteq> lower original)\<rparr>)))"

definition optimize :: "pytext \<Rightarrow> (string \<Rightarrow> string list) \<Rightarrow> nat \<Rightarrow> string \<Rightarrow> string result \<Rightarrow> optimized_query result" where
  "optimize px literals min_length request reply =
     (let original = strip request in
      if original = [] then Inr (keep_original original)
      else case reply of Inl e \<Rightarrow> Inr (keep_original original) | Inr raw \<Rightarrow> accept_rewrite px literals min_length original raw)"

end
