(* ===== verification/Reasoning_Claims.thy ===== *)
theory Reasoning_Claims
  imports Reasoning
begin

text \<open>
  What the reasoning package promises: the loop returns the best draft it saw with the evidence for stopping, and a
  rewrite of a request keeps what the user gave. And where its promise never to stand in the way fails.
\<close>

section \<open>Grades\<close>

lemma parse_grade_sound:
  assumes "parse_grade px fp raw = Inr g" and "0 < fp"
  shows "0 \<le> gd_score g \<and> gd_score g \<le> 100 \<and> (fp \<le> gd_score g \<longrightarrow> gd_issues g = []) \<and> (gd_score g < fp \<longrightarrow> gd_critique g \<noteq> [])"
  using assms by (auto simp: parse_grade_def bind_r_Inr Let_def split: option.splits if_splits)

definition escaping :: "py_error \<Rightarrow> bool" where
  "escaping e = (e = TypeError \<or> e = OverflowError)"

lemma listed_texts_error: "listed_texts px v = Inl e \<Longrightarrow> e = TypeError \<and> truthy v \<and> \<not> is_str v \<and> \<not> is_list v \<and> \<not> is_dict v"
  by (cases v) (auto simp: listed_texts_def iterated_def split: if_splits)

lemma parse_grade_error: "parse_grade px fp raw = Inl e \<Longrightarrow> e \<noteq> VerifierError \<Longrightarrow> escaping e"
  by (auto simp: parse_grade_def escaping_def Let_def bind_r_def read_int_def split: option.splits json.splits if_splits sum.splits
      dest: listed_texts_error)

section \<open>The loop\<close>

lemma best_attempt_max: "a \<in> set as \<Longrightarrow> at_score a \<le> at_score (best_attempt as)"
  by (simp add: best_attempt_def max_by_greatest)

lemma best_attempt_mem: "as \<noteq> [] \<Longrightarrow> best_attempt as \<in> set as"
  by (simp add: best_attempt_def max_by_mem)

text \<open>The first \<open>n\<close> attempts of a loop: the drafts the model wrote and the verdicts the verifier gave on them.\<close>

definition attempts_of :: "reasoning_engine \<Rightarrow> nat \<Rightarrow> attempt list" where
  "attempts_of eg n = map (\<lambda>i. \<lparr>at_number = i + 1, at_text = (case eg_drafts eg i of Inl e \<Rightarrow> [] | Inr t \<Rightarrow> t),
     at_verdict = (case verify eg (i + 1) of Inl e \<Rightarrow> None | Inr g \<Rightarrow> Some g)\<rparr>) [0..<n]"

lemma attempts_of_0 [simp]: "attempts_of eg 0 = []"
  by (simp add: attempts_of_def)

lemma attempts_of_Suc: "eg_drafts eg n = Inr t \<Longrightarrow> attempts_of eg (Suc n) = attempts_of eg n @
    [\<lparr>at_number = n + 1, at_text = t, at_verdict = (case verify eg (n + 1) of Inl e \<Rightarrow> None | Inr g \<Rightarrow> Some g)\<rparr>]"
  by (simp add: attempts_of_def)

lemma length_attempts_of [simp]: "length (attempts_of eg n) = n"
  by (simp add: attempts_of_def)

lemma attempts_of_not_Nil [simp]: "attempts_of eg (Suc n) \<noteq> []"
  by (simp add: attempts_of_def)

lemma outcome_fields [simp]:
  "re_attempts (outcome_of_best as why ok) = length as" "re_stop (outcome_of_best as why ok) = why"
  "re_verified (outcome_of_best as why ok) = ok" "re_score (outcome_of_best as why True) = at_score (best_attempt as)"
  by (simp_all add: outcome_of_best_def Let_def)

text \<open>A result is that of an attempt none outscores, with the score and the history to show it.\<close>

definition best_of :: "attempt list \<Rightarrow> reasoned \<Rightarrow> bool" where
  "best_of as r = (re_history r = history_of as \<and>
     (\<exists>a \<in> set as. re_text r = at_text a \<and> (\<forall>b \<in> set as. at_score b \<le> at_score a) \<and>
        (re_verified r \<longrightarrow> re_score r = at_score a)))"

lemma outcome_is_best: "as \<noteq> [] \<Longrightarrow> best_of as (outcome_of_best as why ok)"
  using best_attempt_max [of _ as] best_attempt_mem [of as] by (auto simp: best_of_def outcome_of_best_def Let_def)

definition graded_below :: "reasoning_engine \<Rightarrow> nat \<Rightarrow> bool" where
  "graded_below eg n = (\<forall>i \<in> {1..n}. \<exists>g. verify eg i = Inr g \<and> gd_score g < eg_fast_path eg)"

lemma graded_below_Suc: "graded_below eg (Suc n) = (graded_below eg n \<and> (\<exists>g. verify eg (Suc n) = Inr g \<and> gd_score g < eg_fast_path eg))"
  by (auto simp: graded_below_def atLeastAtMostSuc_conv)

lemma graded_below_score: "graded_below eg n \<Longrightarrow> a \<in> set (attempts_of eg n) \<Longrightarrow> at_score a < eg_fast_path eg"
proof -
  assume g: "graded_below eg n" and a: "a \<in> set (attempts_of eg n)"
  from a obtain i where i: "i < n" "at_verdict a = (case verify eg (i + 1) of Inl e \<Rightarrow> None | Inr g \<Rightarrow> Some g)"
    by (auto simp: attempts_of_def)
  from i(1) have "i + 1 \<in> {1..n}" by simp
  with g obtain h where "verify eg (i + 1) = Inr h" "gd_score h < eg_fast_path eg" unfolding graded_below_def by blast
  with i(2) show ?thesis by (simp add: at_score_def)
qed

text \<open>How a loop may end on its \<open>n\<close>th attempt.\<close>

definition ends_well :: "reasoning_engine \<Rightarrow> nat \<Rightarrow> reasoned \<Rightarrow> bool" where
  "ends_well eg limit r =
     (let n = re_attempts r in
      0 < n \<and> n \<le> limit \<and> graded_below eg (n - 1) \<and>
      (case re_stop r of
         Verifier_failed \<Rightarrow> \<not> re_verified r \<and> verify eg n = Inl VerifierError
       | Fast_path \<Rightarrow> re_verified r \<and> (\<exists>g. verify eg n = Inr g \<and> re_score r = gd_score g \<and> eg_fast_path eg \<le> gd_score g)
       | Limit_reached \<Rightarrow> re_verified r \<and> n = limit \<and> graded_below eg n))"

definition current :: "nat \<Rightarrow> string \<Rightarrow> attempt" where
  "current n t = \<lparr>at_number = n + 1, at_text = t, at_verdict = None\<rparr>"

lemma loop_round:
  assumes "eg_drafts eg n = Inr t"
  shows "refine_loop eg left (attempts_of eg n) (current n t) =
     (let as = attempts_of eg (Suc n) in
      case verify eg (Suc n) of
        Inl e \<Rightarrow> if e = VerifierError then Inr (outcome_of_best as Verifier_failed False) else Inl e
      | Inr g \<Rightarrow>
          if gd_score g \<ge> eg_fast_path eg
          then Inr \<lparr>re_text = t, re_score = gd_score g, re_attempts = Suc n, re_stop = Fast_path, re_history = history_of as, re_verified = True\<rparr>
          else case left of 0 \<Rightarrow> Inr (outcome_of_best as Limit_reached True)
             | Suc m \<Rightarrow> bind_r (eg_drafts eg (Suc n)) (\<lambda>u. refine_loop eg m as (current (Suc n) u)))"
  using assms by (auto simp: refine_loop.simps [of eg left] current_def attempts_of_Suc Let_def split: sum.split nat.split)

lemma verifier_failed_ends:
  assumes "graded_below eg n" and "verify eg (Suc n) = Inl VerifierError" and "n < limit"
    and "r = outcome_of_best (attempts_of eg (Suc n)) Verifier_failed False"
  shows "best_of (attempts_of eg (re_attempts r)) r \<and> ends_well eg limit r"
  using assms outcome_is_best [of "attempts_of eg (Suc n)"] by (simp add: ends_well_def)

lemma limit_reached_ends:
  assumes "graded_below eg (Suc n)" and "limit = Suc n" and "r = outcome_of_best (attempts_of eg (Suc n)) Limit_reached True"
  shows "best_of (attempts_of eg (re_attempts r)) r \<and> ends_well eg limit r"
  using assms outcome_is_best [of "attempts_of eg (Suc n)"] by (simp add: ends_well_def graded_below_Suc)

lemma fast_path_ends:
  assumes "graded_below eg n" and "eg_drafts eg n = Inr t" and "verify eg (Suc n) = Inr g" and "gd_score g \<ge> eg_fast_path eg"
    and "n < limit" and "r = \<lparr>re_text = t, re_score = gd_score g, re_attempts = Suc n, re_stop = Fast_path,
      re_history = history_of (attempts_of eg (Suc n)), re_verified = True\<rparr>"
  shows "best_of (attempts_of eg (re_attempts r)) r \<and> ends_well eg limit r"
proof -
  have "\<forall>a \<in> set (attempts_of eg n). at_score a \<le> gd_score g"
    using graded_below_score [OF assms(1)] assms(4) by (meson less_le_trans less_imp_le)
  with assms have "best_of (attempts_of eg (Suc n)) r"
    by (auto simp: best_of_def attempts_of_Suc at_score_def intro!: bexI [of _ "\<lparr>at_number = Suc n, at_text = t, at_verdict = Some g\<rparr>"])
  with assms show ?thesis by (simp add: ends_well_def)
qed

lemma refine_loop_best:
  assumes "refine_loop eg left (attempts_of eg n) (current n t) = Inr r"
    and "eg_drafts eg n = Inr t" and "graded_below eg n"
  shows "best_of (attempts_of eg (re_attempts r)) r \<and> ends_well eg (n + 1 + left) r"
  using assms
proof (induction left arbitrary: n t)
  case (0 n t)
  then show ?case using verifier_failed_ends [OF 0(3), of "Suc n" r] fast_path_ends [OF 0(3,2), of _ "Suc n" r]
      limit_reached_ends [of eg n "Suc n" r]
    by (auto simp: loop_round Let_def graded_below_Suc not_le split: sum.splits if_splits)
next
  case (Suc left n t)
  consider "verify eg (Suc n) = Inl VerifierError" "r = outcome_of_best (attempts_of eg (Suc n)) Verifier_failed False"
    | g where "verify eg (Suc n) = Inr g" "gd_score g \<ge> eg_fast_path eg" "r = \<lparr>re_text = t, re_score = gd_score g,
        re_attempts = Suc n, re_stop = Fast_path, re_history = history_of (attempts_of eg (Suc n)), re_verified = True\<rparr>"
    | g u where "verify eg (Suc n) = Inr g" "gd_score g < eg_fast_path eg" "eg_drafts eg (Suc n) = Inr u"
        "refine_loop eg left (attempts_of eg (Suc n)) (current (Suc n) u) = Inr r"
    using Suc(2) by (auto simp: loop_round [OF Suc(3)] Let_def bind_r_Inr split: sum.splits if_splits)
  then show ?case
  proof cases
    case 1
    then show ?thesis using verifier_failed_ends [OF Suc(4) 1(1), of "n + 1 + Suc left" r] by simp
  next
    case 2
    then show ?thesis using fast_path_ends [OF Suc(4,3) 2(1,2), of "n + 1 + Suc left" r] by simp
  next
    case 3
    with Suc(4) Suc(1) [OF 3(4,3)] show ?thesis by (simp add: graded_below_Suc)
  qed
qed

text \<open>The reasoning loop returns the best draft it saw, not the last: there are at most \<open>max_refinements + 1\<close> attempts,
  each a draft of the model, and the text returned is one no other attempt outscores, with its score and the whole history. It
  ends in one of three ways: on a verdict at or above the threshold, none before it, and with the verifier's own threshold
  that verdict lists no issue; after the last attempt, all graded below the threshold; or unverified, and exactly then, when
  the verifier gave no usable verdict.\<close>

lemma reasoned_is_the_best_draft:
  assumes "engine_run eg max_refinements = Inr r"
  shows "best_of (attempts_of eg (re_attempts r)) r \<and> ends_well eg (max_refinements + 1) r \<and>
    (eg_verifier_path eg = eg_fast_path eg \<and> 0 < eg_fast_path eg \<and> re_stop r = Fast_path \<longrightarrow>
       (\<exists>g. verify eg (re_attempts r) = Inr g \<and> gd_issues g = []))"
proof -
  from assms obtain t where t: "eg_drafts eg 0 = Inr t" "refine_loop eg max_refinements (attempts_of eg 0) (current 0 t) = Inr r"
    by (auto simp: engine_run_def bind_r_Inr current_def)
  from refine_loop_best [OF t(2,1)] have e: "best_of (attempts_of eg (re_attempts r)) r" "ends_well eg (max_refinements + 1) r"
    by (simp_all add: graded_below_def)
  have "gd_issues g = []" if "eg_verifier_path eg = eg_fast_path eg" "0 < eg_fast_path eg" "verify eg n = Inr g" "eg_fast_path eg \<le> gd_score g" for n g
    using that parse_grade_sound [of "eg_text eg" "eg_fast_path eg" _ g] by (auto simp: verify_def bind_r_Inr)
  with e show ?thesis by (auto simp: ends_well_def Let_def)
qed

text \<open>The loop gives a result unless a model call fails, or the verifier's reply holds a list of issues that is a number or
  true, or an infinite score: those errors are not verifier errors and leave it.\<close>

lemma verify_error: "verify eg k = Inl e \<Longrightarrow> e \<noteq> VerifierError \<Longrightarrow> escaping e \<or> (\<exists>k. eg_replies eg k = Inl e)"
  using parse_grade_error by (auto simp: verify_def bind_r_def split: sum.splits)

lemma refine_loop_error:
  assumes "refine_loop eg left (attempts_of eg n) (current n t) = Inl e" and "eg_drafts eg n = Inr t"
  shows "(\<exists>k. n < k \<and> k \<le> n + 1 + left \<and> verify eg k = Inl e \<and> e \<noteq> VerifierError) \<or> (\<exists>k. n < k \<and> k \<le> n + left \<and> eg_drafts eg k = Inl e)"
  using assms
proof (induction left arbitrary: n t)
  case 0
  then show ?case by (auto simp: loop_round Let_def split: sum.splits if_splits)
next
  case (Suc left n t)
  consider u where "eg_drafts eg (Suc n) = Inr u" "refine_loop eg left (attempts_of eg (Suc n)) (current (Suc n) u) = Inl e"
    | "verify eg (Suc n) = Inl e" "e \<noteq> VerifierError" | "eg_drafts eg (Suc n) = Inl e"
    using Suc(2) by (auto simp: loop_round [OF Suc(3)] Let_def bind_r_def split: sum.splits if_splits)
  then show ?case
  proof cases
    case 1
    have w: "n < k \<and> k \<le> n + 1 + Suc left" if "Suc n < k" "k \<le> Suc n + 1 + left" for k using that by simp
    have v: "n < k \<and> k \<le> n + Suc left" if "Suc n < k" "k \<le> Suc n + left" for k using that by simp
    from Suc(1) [OF 1(2,1)] show ?thesis
    proof
      assume "\<exists>k. Suc n < k \<and> k \<le> Suc n + 1 + left \<and> verify eg k = Inl e \<and> e \<noteq> VerifierError"
      then show ?thesis using w by blast
    next
      assume "\<exists>k. Suc n < k \<and> k \<le> Suc n + left \<and> eg_drafts eg k = Inl e"
      then show ?thesis using v by blast
    qed
  qed auto
qed

text \<open>C30: The loop always ends, and with a result: it asks for at most \<open>max_refinements + 1\<close> drafts and as many verdicts, and if
  each of those drafts is written and each of those verdicts is given or is a verifier error, it returns one.\<close>

theorem reasoning_always_returns:
  assumes "\<forall>k \<le> max_refinements. \<exists>t. eg_drafts eg k = Inr t"
    and "\<forall>k \<le> max_refinements + 1. \<forall>e. verify eg k = Inl e \<longrightarrow> e = VerifierError"
  shows "\<exists>r. engine_run eg max_refinements = Inr r \<and> 1 \<le> re_attempts r \<and> re_attempts r \<le> max_refinements + 1"
proof -
  from assms(1) obtain t where t: "eg_drafts eg 0 = Inr t" by blast
  then have run: "engine_run eg max_refinements = refine_loop eg max_refinements (attempts_of eg 0) (current 0 t)"
    by (simp add: engine_run_def current_def)
  obtain r where r: "engine_run eg max_refinements = Inr r"
  proof (cases "engine_run eg max_refinements")
    case (Inl e)
    with run have "refine_loop eg max_refinements (attempts_of eg 0) (current 0 t) = Inl e" by simp
    from refine_loop_error [OF this t] assms have False by auto
    then show ?thesis ..
  qed (use that in blast)
  with run refine_loop_best [of eg max_refinements 0 t r] t have "ends_well eg (max_refinements + 1) r" by (simp add: graded_below_def)
  with r show ?thesis by (auto simp: ends_well_def Let_def Suc_le_eq)
qed

text \<open>What leaves the loop, then, is the error of a failing model call, or an error that is not the verifier's: a list of issues
  that is a number or true, or an infinite score.\<close>

lemma engine_fails_only_on_calls:
  assumes "engine_run eg n = Inl e"
  shows "escaping e \<or> (\<exists>k. eg_drafts eg k = Inl e) \<or> (\<exists>k. eg_replies eg k = Inl e)"
proof (cases "eg_drafts eg 0")
  case (Inr t)
  with assms have "refine_loop eg n (attempts_of eg 0) (current 0 t) = Inl e" by (simp add: engine_run_def current_def)
  from refine_loop_error [OF this Inr] show ?thesis using verify_error by blast
qed (use assms in \<open>auto simp: engine_run_def\<close>)

text \<open>A verifier that lists its issues as a number stops the loop with an error of another kind.\<close>

lemma numbered_issues_escape:
  "parse_grade px fp ''{\"score\": 90, \"critique\": \"good\", \"issues\": 3}'' = Inl TypeError"
proof -
  have "braced_json ''{\"score\": 90, \"critique\": \"good\", \"issues\": 3}'' =
      Some [(''score'', JInt 90), (''critique'', JStr ''good''), (''issues'', JInt 3)]" by code_simp
  then show ?thesis by (simp add: parse_grade_def read_int_def listed_texts_def iterated_def jget_def dget_or_def Let_def)
qed

section \<open>Rewrites\<close>

lemma join_last: "\<exists>p. join sep (xs @ [x]) = p @ x"
proof (induction xs)
  case (Cons y ys)
  then obtain p where "join sep (ys @ [x]) = p @ x" by blast
  then have "join sep ((y # ys) @ [x]) = (y @ sep @ p) @ x" by (cases ys) auto
  then show ?case by blast
qed simp

lemma planning_goal_ends: "\<exists>p. planning_goal q = p @ oq_original q"
proof (cases "oq_rewritten q")
  case True
  obtain p where "planning_goal q = p @ ''Original request, verbatim:'' @ [CHR 10] @ oq_original q"
    using True join_last [of "[CHR 10, CHR 10]" "[oq_query q] @ bullets ''Constraints:'' (oq_constraints q) @
      bullets ''Assumed (say so if wrong):'' (oq_assumptions q)" "''Original request, verbatim:'' @ [CHR 10] @ oq_original q"]
    by (auto simp: planning_goal_def)
  then show ?thesis by (metis append_assoc)
qed (auto simp: planning_goal_def)

lemma accept_cases:
  assumes "accept_rewrite px literals m original raw = Inr q"
  shows "q = keep_original original \<or>
    (oq_original q = original \<and> oq_query q \<noteq> [] \<and> length (oq_query q) \<le> 12 * max (length original) m \<and>
     set (literals original) \<subseteq> set (literals (oq_query q @ '' '' @ join '' '' (oq_constraints q))))"
  using assms by (auto simp: accept_rewrite_def Let_def bind_r_Inr split: option.splits if_splits)

text \<open>A rewritten request loses nothing: whatever the model answered, the goal handed to the planner ends with the user's request,
  stripped but otherwise verbatim; unless it is exactly that request, the rewrite or its constraints carry every literal of it,
  and the rewrite is at most twelve times as long. A model call that fails leaves the request as it was.\<close>

lemma rewrite_keeps_the_request:
  assumes "optimize px literals m request reply = Inr q"
  shows "(\<exists>p. planning_goal q = p @ strip request) \<and>
    (planning_goal q = strip request \<or>
     set (literals (strip request)) \<subseteq> set (literals (oq_query q @ '' '' @ join '' '' (oq_constraints q))) \<and>
     length (oq_query q) \<le> 12 * max (length (strip request)) m) \<and>
    (\<forall>e. reply = Inl e \<longrightarrow> planning_goal q = strip request)"
proof -
  have k: "planning_goal (keep_original r) = r" "oq_original (keep_original r) = r" for r
    by (simp_all add: keep_original_def planning_goal_def)
  have c: "q = keep_original (strip request) \<or> (\<exists>raw. reply = Inr raw \<and> accept_rewrite px literals m (strip request) raw = Inr q)"
    using assms by (auto simp: optimize_def Let_def split: if_splits sum.splits)
  then show ?thesis
  proof
    assume "q = keep_original (strip request)"
    then show ?thesis by (auto simp: k intro: exI [of _ "[]"])
  next
    assume "\<exists>raw. reply = Inr raw \<and> accept_rewrite px literals m (strip request) raw = Inr q"
    then obtain raw where r: "reply = Inr raw" "accept_rewrite px literals m (strip request) raw = Inr q" by blast
    from accept_cases [OF r(2)] r(1) planning_goal_ends [of q] show ?thesis by (auto simp: k intro: exI [of _ "[]"])
  qed
qed

text \<open>The optimizer is an optimisation that can still stop a run: whatever the model answers, rewriting raises exactly one error, a
  TypeError, and only for a reply whose constraints or assumptions are a number or true. The runtime awaits it unguarded.\<close>

lemma optimizer_raises_only_type_errors:
  assumes "optimize px literals m request reply = Inl e"
  shows "e = TypeError \<and> (\<exists>raw d k. reply = Inr raw \<and> braced_json raw = Some d \<and> k \<in> {''constraints'', ''assumptions''} \<and>
    truthy (jget d k) \<and> \<not> is_str (jget d k) \<and> \<not> is_list (jget d k) \<and> \<not> is_dict (jget d k))"
proof -
  from assms obtain raw where r: "reply = Inr raw" "accept_rewrite px literals m (strip request) raw = Inl e"
    by (auto simp: optimize_def Let_def split: if_splits sum.splits)
  from r(2) obtain d where d: "braced_json raw = Some d" "listed_texts px (jget d ''constraints'') = Inl e \<or> listed_texts px (jget d ''assumptions'') = Inl e"
    by (auto simp: accept_rewrite_def Let_def bind_r_def split: option.splits if_splits sum.splits)
  with r(1) show ?thesis by (blast dest: listed_texts_error)
qed

section \<open>Runs\<close>

definition ascii_text :: pytext where
  "ascii_text = \<lparr>px_str = (\<lambda>_. ''?''), px_float = (\<lambda>_. None), px_int = (\<lambda>_. None)\<rparr>"

text \<open>The second draft scores best, the third worst, and there is no fourth.\<close>

definition three_drafts :: reasoning_engine where
  "three_drafts = \<lparr>eg_text = ascii_text, eg_drafts = (\<lambda>n. Inr (''draft '' @ digits n)),
     eg_replies = (\<lambda>n. Inr (if n = 1 then ''{\"score\": 40, \"critique\": \"short\"}''
        else if n = 2 then ''{\"score\": 70, \"critique\": \"better\"}'' else ''{\"score\": 60, \"critique\": \"worse\"}'')),
     eg_verifier_path = 85, eg_fast_path = 85\<rparr>"

lemma three_drafts_run:
  "\<exists>r. engine_run three_drafts 2 = Inr r \<and> re_text r = ''draft 1'' \<and> re_score r = 70 \<and> re_attempts r = 3 \<and> re_verified r"
proof -
  have "(case engine_run three_drafts 2 of Inl e \<Rightarrow> False
      | Inr r \<Rightarrow> re_text r = ''draft 1'' \<and> re_score r = 70 \<and> re_attempts r = 3 \<and> re_verified r)" by code_simp
  then show ?thesis by (auto split: sum.splits)
qed

lemma reasoned_is_the_best_draft_witness:
  "\<exists>r. engine_run three_drafts 2 = Inr r \<and> re_text r = ''draft 1'' \<and> re_score r = 70 \<and> best_of (attempts_of three_drafts 3) r \<and>
     ends_well three_drafts 3 r"
proof -
  obtain r where r: "engine_run three_drafts 2 = Inr r" "re_text r = ''draft 1''" "re_score r = 70" "re_attempts r = 3"
    using three_drafts_run by blast
  from reasoned_is_the_best_draft [OF r(1)] r show ?thesis by (simp add: numeral_3_eq_3)
qed

theorem reasoning_always_returns_witness:
  "\<exists>r. engine_run three_drafts 2 = Inr r \<and> 1 \<le> re_attempts r \<and> re_attempts r \<le> 3"
proof -
  have d: "\<forall>k \<le> 2. \<exists>t. eg_drafts three_drafts k = Inr t" by (simp add: three_drafts_def)
  have "list_all (\<lambda>k. case verify three_drafts k of Inl e \<Rightarrow> e = VerifierError | Inr g \<Rightarrow> True) [0, 1, 2, 3]" by code_simp
  then have v: "\<forall>k \<le> 2 + 1. \<forall>e. verify three_drafts k = Inl e \<longrightarrow> e = VerifierError"
    by (auto simp: le_Suc_eq numeral_3_eq_3 numeral_2_eq_2 split: sum.splits)
  from reasoning_always_returns [OF d v] show ?thesis by simp
qed

definition quoted_words :: "string \<Rightarrow> string list" where
  "quoted_words s = (if contains ''app.py'' s then [''app.py''] else [])"

lemma rewrite_keeps_the_request_witness:
  "\<exists>q. optimize ascii_text quoted_words 12 '' fix app.py '' (Inr ''{\"query\": \"Repair the login in app.py\"}'') = Inr q \<and>
     oq_rewritten q \<and> (\<exists>p. planning_goal q = p @ ''fix app.py'')"
proof -
  let ?o = "optimize ascii_text quoted_words 12 '' fix app.py '' (Inr ''{\"query\": \"Repair the login in app.py\"}'')"
  have "case ?o of Inl e \<Rightarrow> False | Inr q \<Rightarrow> oq_rewritten q" by code_simp
  then obtain q where q: "?o = Inr q" "oq_rewritten q" by (auto split: sum.splits)
  have "strip '' fix app.py '' = ''fix app.py''" by code_simp
  with rewrite_keeps_the_request [OF q(1)] q show ?thesis by auto
qed

lemma optimizer_raises_only_type_errors_witness:
  "optimize ascii_text quoted_words 12 ''fix app.py'' (Inr ''{\"query\": \"fix app.py\", \"constraints\": 5}'') = Inl TypeError \<and>
   (\<exists>d. braced_json ''{\"query\": \"fix app.py\", \"constraints\": 5}'' = Some d \<and>
      (\<exists>k \<in> {''constraints'', ''assumptions''}. truthy (jget d k) \<and> \<not> is_list (jget d k)))"
proof -
  have o: "optimize ascii_text quoted_words 12 ''fix app.py'' (Inr ''{\"query\": \"fix app.py\", \"constraints\": 5}'') = Inl TypeError"
    by code_simp
  from optimizer_raises_only_type_errors [OF o] o show ?thesis by auto
qed

end
