(* ===== verification/Memory_Chunk_Claims.thy ===== *)
theory Memory_Chunk_Claims
  imports Memory_Chunks
begin

text \<open>
  What the chunker promises, whatever the segmenter answers: the chunks are the document in order, nothing lost,
  nothing twice and nothing made up; each fits the word budget; and there are finitely many of them.
\<close>

section \<open>Marks: the characters that are not white space\<close>

definition marks :: "string \<Rightarrow> string" where
  "marks s = filter (\<lambda>c. \<not> is_space c) s"

lemma marks_simps [simp]: "marks [] = []" "marks (a @ b) = marks a @ marks b"
  by (simp_all add: marks_def)

lemma marks_Nil_iff: "marks s = [] \<longleftrightarrow> list_all is_space s"
  by (simp add: marks_def filter_empty_conv list_all_iff)

lemma lstrip_parts: "\<exists>a. s = a @ lstrip s \<and> list_all is_space a"
  by (intro exI [of _ "takeWhile is_space s"]) (auto simp: lstrip_def list_all_iff dest: set_takeWhileD)

lemma rstrip_parts: "\<exists>b. s = rstrip s @ b \<and> list_all is_space b"
proof -
  obtain a where a: "rev s = a @ lstrip (rev s)" "list_all is_space a" using lstrip_parts by blast
  then have "s = rev (lstrip (rev s)) @ rev a" by (metis rev_append rev_rev_ident)
  with a(2) show ?thesis by (intro exI [of _ "rev a"]) (simp add: rstrip_def lstrip_def list_all_iff)
qed

lemma strip_parts: "\<exists>a b. s = a @ strip s @ b \<and> list_all is_space a \<and> list_all is_space b"
  using lstrip_parts [of s] rstrip_parts [of "lstrip s"] by (metis strip_def)

lemma marks_strip [simp]: "marks (strip s) = marks s"
proof -
  obtain a b where "s = a @ strip s @ b" "list_all is_space a" "list_all is_space b" using strip_parts by blast
  then show ?thesis by (metis append_Nil append_Nil2 marks_Nil_iff marks_simps(2))
qed

lemma strip_Nil_iff: "strip s = [] \<longleftrightarrow> marks s = []"
proof
  assume "strip s = []"
  then show "marks s = []" using marks_strip [of s] by simp
next
  assume m: "marks s = []"
  show "strip s = []"
  proof (rule ccontr)
    assume n: "strip s \<noteq> []"
    have "lstrip (strip s) = strip s" by (simp add: strip_def rstrip_lstrip_fixed)
    then have "\<not> is_space (hd (strip s))" using n by (simp add: lstrip_fixed_iff)
    moreover have "list_all is_space (strip s)" using m by (simp flip: marks_Nil_iff)
    ultimately show False using n by (cases "strip s") simp_all
  qed
qed

section \<open>Finding texts\<close>

lemma upt_around: "k < n \<Longrightarrow> [0..<n] = [0..<k] @ k # [Suc k..<n]"
  using upt_add_eq_append [of 0 k "n - k"] by (simp add: upt_conv_Cons)

lemma filter_upt_first:
  assumes "k < n" and "P k" and "\<And>i. i < k \<Longrightarrow> \<not> P i"
  shows "\<exists>is. filter P [0..<n] = k # is"
proof -
  note upt_around [OF assms(1)]
  moreover have "filter P [0..<k] = []" using assms(3) by (simp add: filter_empty_conv)
  ultimately show ?thesis using assms(2) by simp
qed

lemma filter_upt_last:
  assumes "k < n" and "P k" and "\<And>i. k < i \<Longrightarrow> i < n \<Longrightarrow> \<not> P i"
  shows "\<exists>is. filter P [0..<n] = is @ [k]"
proof -
  note upt_around [OF assms(1)]
  moreover have "filter P [Suc k..<n] = []" using assms(3) by (auto simp: filter_empty_conv)
  ultimately show ?thesis using assms(2) by simp
qed

lemma find_text_prefix: "find_text t (t @ b) = Some 0"
  using filter_upt_first [of 0 "length (t @ b) + 1" "\<lambda>i. startswith (drop i (t @ b)) t"]
  by (auto simp: find_text_def occurs_at_def startswith_def)

lemma rfind_text_suffix: "t \<noteq> [] \<Longrightarrow> rfind_text t (u @ t) = Some (length u)"
proof -
  assume t: "t \<noteq> []"
  have "\<not> startswith (drop i (u @ t)) t" if "length u < i" for i
  proof
    assume "startswith (drop i (u @ t)) t"
    then have "length t \<le> length (drop i (u @ t))" unfolding startswith_append by (metis le_add1 length_append)
    with that t show False by (cases t) auto
  qed
  then obtain "is" where "filter (\<lambda>i. startswith (drop i (u @ t)) t) [0..<length (u @ t) + 1] = is @ [length u]"
    using filter_upt_last [of "length u" "length (u @ t) + 1" "\<lambda>i. startswith (drop i (u @ t)) t"] by (auto simp: startswith_def)
  then show ?thesis by (simp add: rfind_text_def occurs_at_def)
qed

lemma endswith_append: "endswith s t \<longleftrightarrow> (\<exists>u. s = u @ t)"
proof -
  have "endswith s t \<longleftrightarrow> (\<exists>u. rev s = rev t @ u)" by (simp add: endswith_def startswith_append)
  also have "\<dots> \<longleftrightarrow> (\<exists>u. s = u @ t)" by (metis rev_append rev_rev_ident)
  finally show ?thesis .
qed

section \<open>Counting words\<close>

fun words_after :: "bool \<Rightarrow> string \<Rightarrow> nat" where
  "words_after inside_word [] = 0"
| "words_after inside_word (c # cs) =
     (if is_space c then words_after False cs else (if inside_word then 0 else 1) + words_after True cs)"

lemma length_spans_from: "length (spans_from i since s) = (if since = None then 0 else 1) + words_after (since \<noteq> None) s"
  by (induction i since s rule: spans_from.induct) (auto split: option.splits)

lemma word_count_after: "word_count s = words_after False s"
  by (simp add: word_count_def word_spans_def length_spans_from)

lemma words_after_take: "words_after w (take m s) \<le> words_after w s"
proof (induction s arbitrary: w m)
  case (Cons c cs)
  then show ?case by (cases m) simp_all
qed simp

lemma words_after_append: "words_after w a \<le> words_after w (a @ b)"
  using words_after_take [of w "length a" "a @ b"] by simp

lemma words_after_spaces: "list_all is_space a \<Longrightarrow> words_after False (a @ s) = words_after False s"
  by (induction a) simp_all

lemma word_count_strip: "word_count (strip s) \<le> word_count s"
proof -
  obtain a b where s: "s = a @ strip s @ b" "list_all is_space a" using strip_parts by blast
  have "word_count (strip s) \<le> words_after False (strip s @ b)" by (simp add: word_count_after words_after_append)
  also have "\<dots> = word_count s" using s by (metis word_count_after words_after_spaces)
  finally show ?thesis .
qed

text \<open>Up to the end of its k-th word a text has k words.\<close>

lemma words_upto_span:
  "k < length (spans_from i since s) \<Longrightarrow> (\<And>b. since = Some b \<Longrightarrow> b < i) \<Longrightarrow>
   (if since = None then 0 else 1) + words_after (since \<noteq> None) (take (snd (spans_from i since s ! k) - i) s) \<le> k + 1"
proof (induction i since s arbitrary: k rule: spans_from.induct)
  case (3 i since c cs)
  have later: "i < snd x" if "x \<in> set (spans_from (i + 1) o' cs)" "\<And>b. o' = Some b \<Longrightarrow> b < i + 1" for o' x
    using spans_from_range [of "fst x" "snd x" "i + 1" o' cs] that by (cases o') auto
  show ?case
  proof (cases "is_space c")
    case sp: True
    show ?thesis
    proof (cases since)
      case None
      with 3(4) sp have k: "k < length (spans_from (i + 1) None cs)" by simp
      from 3(1) [OF sp None k] later [of "spans_from (i + 1) None cs ! k" None] k sp None
      show ?thesis by (simp add: take_Cons')
    next
      case (Some b)
      show ?thesis
      proof (cases k)
        case 0
        with sp Some show ?thesis by simp
      next
        case (Suc j)
        with 3(4) sp Some have j: "j < length (spans_from (i + 1) None cs)" by simp
        from 3(2) [OF sp Some j] later [of "spans_from (i + 1) None cs ! j" None] j sp Some Suc
        show ?thesis by (simp add: take_Cons')
      qed
    qed
  next
    case False
    define o' where "o' = Some (case since of None \<Rightarrow> i | Some b \<Rightarrow> b)"
    from False 3(4) have k: "k < length (spans_from (i + 1) o' cs)" by (simp add: o'_def)
    have b: "b < i + 1" if "o' = Some b" for b using that 3(5) by (auto simp: o'_def split: option.splits)
    obtain b' where "o' = Some b'" by (simp add: o'_def)
    with 3(3) [OF False, of k] k b later [of "spans_from (i + 1) o' cs ! k" o'] False
    show ?thesis by (simp add: take_Cons' o'_def [symmetric] split: if_splits)
  qed
qed auto

lemma nominal_words:
  assumes "1 \<le> ck_max_words ck"
  shows "word_count (part p (nominal_end ck md p) md) \<le> ck_max_words ck"
proof (cases "word_count (drop p md) \<le> ck_max_words ck")
  case True
  have "word_count (part p (nominal_end ck md p) md) \<le> word_count (drop p md)"
    by (simp add: part_def word_count_after words_after_take)
  with True show ?thesis by simp
next
  case False
  define k where "k = ck_max_words ck - 1"
  have k: "k < length (word_spans (drop p md))" "ck_max_words ck = k + 1" using False assms by (simp_all add: k_def word_count_def)
  have "nominal_end ck md p = p + snd (word_spans (drop p md) ! k)" using False assms
    by (simp add: nominal_end_def Let_def k_def word_count_def)
  then show ?thesis using words_upto_span [of k 0 None "drop p md"] k
    by (simp add: part_def word_count_after word_spans_def)
qed

lemma word_count_part: "e \<le> f \<Longrightarrow> word_count (part p e s) \<le> word_count (part p f s)"
proof -
  assume "e \<le> f"
  then have "part p e s = take (e - p) (part p f s)" by (simp add: part_def min_def)
  then show ?thesis by (simp add: word_count_after words_after_take)
qed


section \<open>One pass\<close>

text \<open>What a pass from a word start \<open>p\<close> adds: one piece, cut out of the document, and what it leaves is what follows.\<close>

definition sound_pass :: "chunking \<Rightarrow> string \<Rightarrow> nat \<Rightarrow> piece \<Rightarrow> nat \<Rightarrow> bool" where
  "sound_pass ck md p q p' =
     (p = pc_start q \<and> p < pc_end q \<and> pc_end q \<le> p' \<and> pc_end q \<le> length md \<and>
      pc_text q = strip (part (pc_start q) (pc_end q) md) \<and> pc_text q \<noteq> [] \<and>
      marks (drop p md) = marks (pc_text q) @ marks (drop p' md) \<and>
      (p' < length md \<longrightarrow> \<not> is_space (md ! p')) \<and>
      (1 \<le> ck_max_words ck \<longrightarrow> word_count (pc_text q) \<le> ck_max_words ck))"

lemma spans_of_word: "p < length md \<Longrightarrow> \<not> is_space (md ! p) \<Longrightarrow> word_spans (drop p md) \<noteq> []"
proof -
  assume p: "p < length md" "\<not> is_space (md ! p)"
  then have "0 < words_after False (drop p md)" by (simp add: Cons_nth_drop_Suc [symmetric])
  then show ?thesis by (metis length_greater_0_conv word_count_after word_count_def)
qed

lemma marks_next_word: "marks (drop (next_word md e) md) = marks (drop e md)"
proof -
  have "drop (next_word md e) md = dropWhile is_space (drop e md)"
    by (simp add: next_word_def dropWhile_eq_drop add.commute)
  then show ?thesis using lstrip_parts [of "drop e md"] by (metis append_Nil lstrip_def marks_Nil_iff marks_simps(2))
qed

lemma next_word_at: "next_word md e < length md \<Longrightarrow> \<not> is_space (md ! next_word md e)"
proof -
  assume l: "next_word md e < length md"
  define ws where "ws = takeWhile is_space (drop e md)"
  have "length ws < length (drop e md)" using l by (auto simp: next_word_def ws_def)
  then have "\<not> is_space (drop e md ! length ws)" unfolding ws_def by (rule nth_length_takeWhile)
  then show ?thesis using l by (simp add: next_word_def ws_def)
qed

lemma next_word_le: "e \<le> length md \<Longrightarrow> next_word md e \<le> length md"
  using length_takeWhile_le [of is_space "drop e md"] by (simp add: next_word_def)

lemma suffix_cut_Some:
  assumes "suffix_cut block (strip t) = Some k" and "strip block = block"
  shows "\<exists>u. block = u @ strip t \<and> strip t \<noteq> [] \<and> k = length u"
proof -
  have r: "rstrip (strip x) = strip x" for x by (simp add: strip_def)
  have b: "rstrip block = block" using r [of block] assms(2) by simp
  from assms(1) obtain u where u: "strip t \<noteq> []" "block = u @ strip t"
    by (auto simp: suffix_cut_def r b endswith_append split: if_splits)
  from u(2) have "endswith block (strip t)" by (auto simp: endswith_append)
  then have "suffix_cut block (strip t) = rfind_text (strip t) block" by (simp add: suffix_cut_def r b u(1))
  with assms(1) u rfind_text_suffix [OF u(1), of u] have "k = length u" by simp
  with u show ?thesis by blast
qed

lemma second_topic_stripped: "second_topic ck n block = (second, outcome) \<Longrightarrow> \<exists>t. second = strip t"
  by (auto simp: second_topic_def strip_def rstrip_def lstrip_def split: if_splits sum.splits intro: exI [of _ "[]"])

lemma hd_strip: "strip s \<noteq> [] \<Longrightarrow> \<not> is_space (hd (strip s))"
  using rstrip_lstrip_fixed [of "lstrip s"] by (simp add: strip_def lstrip_fixed_iff)

lemma chunk_pass_sound:
  assumes "p < length md" and "\<not> is_space (md ! p)"
  shows "\<exists>q. fst (chunk_pass ck md n p) = [q] \<and> sound_pass ck md p q (snd (chunk_pass ck md n p))"
proof -
  define e where "e = block_end ck md p"
  define w where "w = part p e md"
  define block where "block = strip w"
  obtain second outcome where st: "second_topic ck n block = (second, outcome)" by fastforce
  note spans = spans_of_word [OF assms]
  have e: "p < e" "e \<le> nominal_end ck md p" "e \<le> length md"
    using block_end_range [OF assms(1) spans, of ck] nominal_end_range [OF assms(1) spans, of ck] by (simp_all add: e_def)
  have w: "w \<noteq> []" "hd w = md ! p"
    using e(1) assms(1) by (simp_all add: w_def part_def hd_drop_conv_nth)
  then have "lstrip w = w" using assms(2) by (simp add: lstrip_fixed_iff)
  then obtain b where b: "w = block @ b" "list_all is_space b" using rstrip_parts [of w] by (auto simp: block_def strip_def)
  have md: "drop p md = block @ b @ drop e md"
    using b(1) e(1) by (simp add: w_def part_def) (metis append_assoc append_take_drop_id drop_drop le_add_diff_inverse2 less_imp_le)
  have ne: "block \<noteq> []"
  proof
    assume "block = []"
    with b have "list_all is_space w" by simp
    with w assms(2) show False by (cases w) auto
  qed
  have sb: "strip block = block" by (simp add: block_def)
  have start: "find_text block w = Some 0" unfolding b(1) by (rule find_text_prefix)
  have cut: "part p (p + k) md = take k block" if "k \<le> length block" for k using that by (simp add: part_def md)
  have words: "word_count (strip (take k block)) \<le> ck_max_words ck" if "1 \<le> ck_max_words ck" for k
  proof -
    have "word_count (strip (take k block)) \<le> word_count (take k block)" by (rule word_count_strip)
    also have "\<dots> \<le> word_count block" by (simp add: word_count_after words_after_take)
    also have "\<dots> \<le> word_count (part p (nominal_end ck md p) md)"
      using word_count_strip [of w] word_count_part [OF e(2), of p md] by (simp add: block_def w_def)
    also have "\<dots> \<le> ck_max_words ck" by (rule nominal_words [OF that])
    finally show ?thesis .
  qed
  show ?thesis
  proof (cases "\<exists>k. suffix_cut block second = Some (Suc k)")
    case True
    then obtain k where k: "suffix_cut block second = Some (Suc k)" by blast
    with second_topic_stripped [OF st] suffix_cut_Some [OF _ sb] obtain t u where
      u: "block = u @ strip t" "strip t \<noteq> []" "Suc k = length u" "second = strip t" by metis
    define first where "first = strip (take (Suc k) block)"
    have "hd block = md ! p" using w(2) b(1) ne by (simp add: hd_append)
    then have f: "first \<noteq> []" using ne assms(2) by (cases block) (auto simp: first_def strip_Nil_iff marks_Nil_iff)
    have out: "fst (chunk_pass ck md n p) = [\<lparr>pc_text = first, pc_words = word_count block,
        pc_outcome = Suffix_rollover (Suc k) (word_count second), pc_start = p, pc_end = p + Suc k\<rparr>]"
      "snd (chunk_pass ck md n p) = p + Suc k"
      using k st start f by (simp_all add: chunk_pass_def Let_def e_def [symmetric] w_def [symmetric] block_def [symmetric] first_def)
    have d: "drop (p + Suc k) md = strip t @ b @ drop e md"
      using md u by (metis add.commute append_assoc append_eq_conv_conj drop_drop)
    have le: "Suc k \<le> length block" "p + Suc k < length md"
      using u md e by (simp_all) (metis d drop_eq_Nil linorder_not_le append_is_Nil_conv)
    have "md ! (p + Suc k) = hd (strip t)" using d le u(2) by (metis hd_append2 hd_drop_conv_nth)
    moreover have "marks (drop p md) = marks first @ marks (drop (p + Suc k) md)"
    proof -
      have "marks first = marks u" unfolding first_def u(1) u(3) by simp
      then show ?thesis unfolding d by (simp add: md u(1))
    qed
    ultimately show ?thesis using f le cut [of "Suc k"] words [of "Suc k"] hd_strip [OF u(2)]
      by (simp add: out sound_pass_def first_def)
  next
    case False
    have out: "fst (chunk_pass ck md n p) = [\<lparr>pc_text = block, pc_words = word_count block,
        pc_outcome = kept_outcome block second outcome, pc_start = p, pc_end = p + length block\<rparr>]"
      "snd (chunk_pass ck md n p) = next_word md e"
      using False st start by (auto simp: chunk_pass_def Let_def e_def [symmetric] w_def [symmetric] block_def [symmetric]
          split: option.split nat.split)
    have le: "p + length block \<le> e" using b(1) e by (metis add_le_cancel_left le_add1 le_add_diff_inverse length_append length_part less_imp_le min.boundedE w_def)
    have "marks (drop p md) = marks block @ marks (drop (next_word md e) md)" using b(2) by (simp add: md marks_next_word marks_Nil_iff)
    with out le e ne sb cut [of "length block"] words [of "length block"] next_word_ge [of e md] next_word_at [of md e]
    show ?thesis by (simp add: sound_pass_def)
  qed
qed


section \<open>All passes\<close>

definition sound_piece :: "chunking \<Rightarrow> string \<Rightarrow> nat \<Rightarrow> piece \<Rightarrow> bool" where
  "sound_piece ck md p q =
     (p \<le> pc_start q \<and> pc_start q < pc_end q \<and> pc_end q \<le> length md \<and> pc_text q \<noteq> [] \<and>
      pc_text q = strip (part (pc_start q) (pc_end q) md) \<and>
      (1 \<le> ck_max_words ck \<longrightarrow> word_count (pc_text q) \<le> ck_max_words ck))"

lemma sound_piece_mono: "sound_piece ck md p' q \<Longrightarrow> p \<le> p' \<Longrightarrow> sound_piece ck md p q"
  unfolding sound_piece_def by (elim conjE, intro conjI) (blast intro: le_trans)+

lemma chunk_loop_sound:
  assumes "p < length md \<longrightarrow> \<not> is_space (md ! p)"
  shows "marks (drop p md) = concat (map (\<lambda>q. marks (pc_text q)) (chunk_loop ck md n p)) \<and>
    list_all (sound_piece ck md p) (chunk_loop ck md n p) \<and>
    sorted_wrt (\<lambda>a b. pc_end a \<le> pc_start b) (chunk_loop ck md n p)"
  using assms
proof (induction ck md n p rule: chunk_loop.induct)
  case (1 ck md n p)
  show ?case
  proof (cases "p < length md")
    case True
    with 1(2) have p: "\<not> is_space (md ! p)" by simp
    define p' where "p' = snd (chunk_pass ck md n p)"
    obtain q where q: "fst (chunk_pass ck md n p) = [q]" "sound_pass ck md p q p'"
      using chunk_pass_sound [OF True p, of ck n] by (auto simp: p'_def)
    define qs where "qs = chunk_loop ck md (n + 1) p'"
    have step: "chunk_loop ck md n p = q # qs"
      using True spans_of_word [OF True p] by (subst chunk_loop.simps) (simp add: q(1) p'_def qs_def)
    have w: "p' < length md \<longrightarrow> \<not> is_space (md ! p')" using q(2) by (simp add: sound_pass_def)
    have ih: "marks (drop p' md) = concat (map (\<lambda>q. marks (pc_text q)) qs)" "list_all (sound_piece ck md p') qs"
      "sorted_wrt (\<lambda>a b. pc_end a \<le> pc_start b) qs"
      using 1(1) [OF conjI [OF True spans_of_word [OF True p]] w [unfolded p'_def]] by (simp_all add: qs_def p'_def)
    have le: "p \<le> p'" "pc_end q \<le> p'" using q(2) by (simp_all add: sound_pass_def)
    have "list_all (sound_piece ck md p) qs" using ih(2) le(1) by (auto simp: list_all_iff intro: sound_piece_mono)
    moreover have "sound_piece ck md p q" using q(2) unfolding sound_pass_def sound_piece_def by (elim conjE, intro conjI) simp_all
    moreover have "\<forall>r \<in> set qs. pc_end q \<le> pc_start r" using ih(2) le(2) by (auto simp: list_all_iff sound_piece_def)
    moreover have "marks (drop p md) = marks (pc_text q) @ marks (drop p' md)" using q(2) unfolding sound_pass_def by blast
    ultimately show ?thesis using ih by (simp add: step)
  qed (simp add: chunk_loop.simps)
qed

section \<open>The chunks of a document\<close>

definition prepared :: "bool \<Rightarrow> string \<Rightarrow> string" where
  "prepared preprocess markdown = (if preprocess then fst (prepare_markdown markdown) else markdown)"

text \<open>A chunk is cut out of the document where it says it is.\<close>

definition cut_from :: "string \<Rightarrow> document_chunk \<Rightarrow> bool" where
  "cut_from md c =
     (dk_text c \<noteq> [] \<and> dk_start_char c < dk_end_char c \<and> dk_end_char c \<le> length md \<and>
      dk_text c = strip (part (dk_start_char c) (dk_end_char c) md))"

lemma chunks_are_pieces:
  assumes "semantic_chunks ck preprocess markdown = cs" and "md = prepared preprocess markdown" and "marks md \<noteq> []"
  obtains qs where "qs = chunk_loop ck md 0 (next_word md 0)"
    "map (\<lambda>c. (dk_text c, dk_start_char c, dk_end_char c)) cs = map (\<lambda>q. (pc_text q, pc_start q, pc_end q)) qs"
    "map dk_ordinal cs = [0..<length cs]"
proof
  define qs where "qs = chunk_loop ck md 0 (next_word md 0)"
  then have cs: "cs = map (numbered_chunk md (length qs)) (enumerate 0 qs)"
    using assms by (simp add: semantic_chunks_def Let_def prepared_def [symmetric] strip_Nil_iff)
  show "qs = chunk_loop ck md 0 (next_word md 0)" by (rule qs_def)
  show "map (\<lambda>c. (dk_text c, dk_start_char c, dk_end_char c)) cs = map (\<lambda>q. (pc_text q, pc_start q, pc_end q)) qs"
    by (rule nth_equalityI) (simp_all add: cs nth_enumerate_eq numbered_chunk_def)
  show "map dk_ordinal cs = [0..<length cs]"
    by (rule nth_equalityI) (simp_all add: cs nth_enumerate_eq numbered_chunk_def)
qed

text \<open>C31: Chunking loses nothing and makes nothing up, whatever the segmenter answers or raises: the chunks are cut out of the
  document where they say they are, in order and without overlap, each is what its span holds, stripped, and not empty, and
  together they hold every character of the document that is not white space, once.\<close>

theorem chunks_are_the_document:
  assumes "semantic_chunks ck preprocess markdown = cs"
  shows "concat (map (\<lambda>c. marks (dk_text c)) cs) = marks (prepared preprocess markdown) \<and>
    list_all (cut_from (prepared preprocess markdown)) cs \<and>
    sorted_wrt (\<lambda>a b. dk_end_char a \<le> dk_start_char b) cs \<and> map dk_ordinal cs = [0..<length cs]"
proof (cases "marks (prepared preprocess markdown) = []")
  case True
  then have "cs = []" using assms by (simp add: semantic_chunks_def Let_def prepared_def [symmetric] strip_Nil_iff)
  with True show ?thesis by simp
next
  case False
  define md where "md = prepared preprocess markdown"
  from chunks_are_pieces [OF assms md_def] False obtain qs where qs: "qs = chunk_loop ck md 0 (next_word md 0)"
    "map (\<lambda>c. (dk_text c, dk_start_char c, dk_end_char c)) cs = map (\<lambda>q. (pc_text q, pc_start q, pc_end q)) qs"
    "map dk_ordinal cs = [0..<length cs]" by (auto simp: md_def)
  note loop = chunk_loop_sound [of "next_word md 0" md ck 0, folded qs(1)] next_word_at [of md 0]
  have t: "map (\<lambda>c. marks (dk_text c)) cs = map (\<lambda>q. marks (pc_text q)) qs"
    using arg_cong [OF qs(2), of "map (\<lambda>(t, s, e). marks t)"] by (simp add: o_def)
  have "list_all (\<lambda>(t, s, e). t \<noteq> [] \<and> s < e \<and> e \<le> length md \<and> t = strip (part s e md)) (map (\<lambda>c. (dk_text c, dk_start_char c, dk_end_char c)) cs)"
    unfolding qs(2) using loop by (auto simp: list_all_iff sound_piece_def)
  then have "list_all (cut_from md) cs" unfolding list_all_iff cut_from_def by auto
  moreover have "sorted_wrt (\<lambda>(t, s, e) (t', s', e'). e \<le> s') (map (\<lambda>c. (dk_text c, dk_start_char c, dk_end_char c)) cs)"
    unfolding qs(2) using loop by (simp add: sorted_wrt_map)
  then have "sorted_wrt (\<lambda>a b. dk_end_char a \<le> dk_start_char b) cs" by (simp add: sorted_wrt_map)
  moreover have "concat (map (\<lambda>q. marks (pc_text q)) qs) = marks md" using loop marks_next_word [of md 0] by simp
  ultimately show ?thesis using t qs(3) by (simp add: md_def)
qed

text \<open>Chunking ends, whatever the segmenter answers, and within its budget: every pass of the loop adds a chunk, there are no
  more chunks than the document has characters that are not white space, and with a positive word budget no chunk has more
  words than that.\<close>

lemma chunking_is_bounded:
  assumes "semantic_chunks ck preprocess markdown = cs" and "1 \<le> ck_max_words ck"
  shows "length cs \<le> length (marks (prepared preprocess markdown)) \<and>
    list_all (\<lambda>c. word_count (dk_text c) \<le> ck_max_words ck) cs"
proof (cases "marks (prepared preprocess markdown) = []")
  case True
  then have "cs = []" using assms by (simp add: semantic_chunks_def Let_def prepared_def [symmetric] strip_Nil_iff)
  then show ?thesis by simp
next
  case False
  define md where "md = prepared preprocess markdown"
  from chunks_are_pieces [OF assms(1) md_def] False obtain qs where qs: "qs = chunk_loop ck md 0 (next_word md 0)"
    "map (\<lambda>c. (dk_text c, dk_start_char c, dk_end_char c)) cs = map (\<lambda>q. (pc_text q, pc_start q, pc_end q)) qs"
    by (auto simp: md_def)
  note loop = chunk_loop_sound [of "next_word md 0" md ck 0, folded qs(1)] next_word_at [of md 0]
  have "list_all (\<lambda>(t, s, e). word_count t \<le> ck_max_words ck) (map (\<lambda>c. (dk_text c, dk_start_char c, dk_end_char c)) cs)"
    unfolding qs(2) using loop assms(2) by (auto simp: list_all_iff sound_piece_def)
  then have "list_all (\<lambda>c. word_count (dk_text c) \<le> ck_max_words ck) cs" by (simp add: list_all_iff)
  moreover
  have "length xs \<le> length (concat (map (\<lambda>q. marks (pc_text q)) xs))" if "list_all (sound_piece ck md p) xs" for p xs
    using that
  proof (induction xs)
    case (Cons x xs)
    then have "marks (pc_text x) \<noteq> []" by (auto simp: sound_piece_def strip_Nil_iff)
    with Cons show ?case by (cases "marks (pc_text x)") simp_all
  qed simp
  from this [of "next_word md 0" qs] have "length qs \<le> length (marks md)" using loop marks_next_word [of md 0] by simp
  moreover have "length cs = length qs" using arg_cong [OF qs(2), of length] by simp
  ultimately show ?thesis by (simp add: md_def)
qed


section \<open>Runs\<close>

text \<open>A segmenter that hears a second topic start in the middle of a word: the suffix is verbatim, so the word is cut.\<close>

definition mid_word :: chunking where
  "mid_word = \<lparr>ck_max_words = 512, ck_floor = 0,
     ck_segmenter = (\<lambda>n block. if n = 0 then Inr ''ond topic'' else Inl RuntimeError)\<rparr>"

lemma suffix_may_cut_a_word:
  "map (\<lambda>c. (dk_text c, dk_start_char c, dk_end_char c)) (semantic_chunks mid_word True ''first part second topic'') =
     [(''first part sec'', 0, 14), (''ond topic'', 14, 23)]"
  by code_simp

text \<open>A table at the end of a document becomes a chunk per row, however short it is: where no line end is found in the block, the
  search for the top of the table goes on from the start of the document, which is no row, and not from the start of the block.\<close>

definition one_topic :: chunking where
  "one_topic = \<lparr>ck_max_words = 512, ck_floor = 40, ck_segmenter = (\<lambda>n block. Inr [])\<rparr>"

definition ends_with_table :: string where
  "ends_with_table = join [CHR 0x0A] [''intro text'', ''| h |'', ''| a |'', ''| b |'']"

lemma table_becomes_a_chunk_per_row:
  "map dk_text (semantic_chunks one_topic True ends_with_table) = [''intro text'', ''| h |'', ''| a |'', ''| b |'']"
  by code_simp

lemma leading_table_stays_whole:
  "map dk_text (semantic_chunks one_topic True (drop 11 ends_with_table)) = [join [CHR 0x0A] [''| h |'', ''| a |'', ''| b |'']]"
  by code_simp

theorem chunks_are_the_document_witness:
  "concat (map (\<lambda>c. marks (dk_text c)) (semantic_chunks mid_word True ''first part second topic'')) = ''firstpartsecondtopic'' \<and>
   list_all (cut_from ''first part second topic'') (semantic_chunks mid_word True ''first part second topic'')"
proof -
  have p: "prepared True ''first part second topic'' = ''first part second topic''" by code_simp
  have "marks ''first part second topic'' = ''firstpartsecondtopic''" by code_simp
  with chunks_are_the_document [of mid_word True "''first part second topic''"] show ?thesis by (simp add: p)
qed

lemma chunking_is_bounded_witness:
  "length (semantic_chunks one_topic True ends_with_table) \<le> 18 \<and>
   list_all (\<lambda>c. word_count (dk_text c) \<le> 512)
     (semantic_chunks one_topic True ends_with_table)"
proof -
  have "length (marks (prepared True ends_with_table)) = 18" by code_simp
  with chunking_is_bounded [of one_topic True ends_with_table]
  show ?thesis by (simp add: one_topic_def)
qed

end
