(* ===== verification/Memory_Claims.thy ===== *)
theory Memory_Claims
  imports Memory_Store
begin

text \<open>
  What scoped memory promises: no search returns a record of another scope, a document has one version that counts, and
  indexing the same text twice changes nothing. And where its promises fail.
\<close>

section \<open>The invariant\<close>

definition documents_ok :: "document_row list \<Rightarrow> bool" where
  "documents_ok docs =
     (distinct (map (\<lambda>x. (dr_id x, dr_version x)) docs) \<and>
      (\<forall>x \<in> set docs. \<exists>y \<in> set docs. dr_id y = dr_id x \<and> dr_active y \<and> dr_version x \<le> dr_version y) \<and>
      (\<forall>x \<in> set docs. \<forall>y \<in> set docs. dr_id y = dr_id x \<longrightarrow> dr_active y \<longrightarrow> dr_version x \<le> dr_version y))"

definition placed :: "document_row list \<Rightarrow> mem_record \<Rightarrow> bool" where
  "placed docs r =
     (if mm_kind r = Chunk
      then \<exists>x \<in> set docs. mm_document r = Some (dr_id x) \<and> (\<exists>n. mm_place r = Some (dr_version x, n)) \<and>
        dr_scope x = mm_scope r \<and> (mm_status r = Current \<longrightarrow> dr_active x)
      else mm_place r = None)"

definition tables_ok :: "tables \<Rightarrow> bool" where
  "tables_ok tb =
     (distinct (map mm_id (tb_records tb)) \<and> list_all (\<lambda>r. write_refused r = None) (tb_records tb) \<and>
      documents_ok (tb_documents tb) \<and> list_all (placed (tb_documents tb)) (tb_records tb))"

definition memory_ok :: "memory \<Rightarrow> bool" where
  "memory_ok me = (tables_ok (me_live me) \<and> tables_ok (me_saved me))"

lemma empty_memory_ok [simp]: "memory_ok empty_memory"
  by (simp add: memory_ok_def empty_memory_def tables_ok_def documents_ok_def Let_def)

lemma row_unique: "documents_ok docs \<Longrightarrow> x \<in> set docs \<Longrightarrow> y \<in> set docs \<Longrightarrow> dr_id x = dr_id y \<Longrightarrow> dr_version x = dr_version y \<Longrightarrow> x = y"
  by (auto simp: documents_ok_def distinct_map dest: inj_onD)

lemma active_unique:
  assumes "documents_ok docs" and "x \<in> set docs" and "y \<in> set docs" and "dr_id x = dr_id y" and "dr_active x" and "dr_active y"
  shows "x = y"
proof -
  have "dr_version x \<le> dr_version y" "dr_version y \<le> dr_version x" using assms by (auto simp: documents_ok_def)
  with assms show ?thesis by (auto intro: row_unique)
qed

lemma active_row_iff:
  assumes "documents_ok (tb_documents tb)"
  shows "active_row tb d = Some x \<longleftrightarrow> x \<in> set (tb_documents tb) \<and> dr_id x = d \<and> dr_active x"
proof
  assume "active_row tb d = Some x"
  then show "x \<in> set (tb_documents tb) \<and> dr_id x = d \<and> dr_active x" by (auto simp: active_row_def dest: find_mem)
next
  assume x: "x \<in> set (tb_documents tb) \<and> dr_id x = d \<and> dr_active x"
  then obtain y where y: "active_row tb d = Some y" by (cases "active_row tb d") (auto simp: active_row_def find_None_iff)
  then have "y \<in> set (tb_documents tb) \<and> dr_id y = d \<and> dr_active y" by (auto simp: active_row_def dest: find_mem)
  with x y active_unique [OF assms] show "active_row tb d = Some x" by auto
qed

lemma no_active_row: "documents_ok (tb_documents tb) \<Longrightarrow> active_row tb d = None \<Longrightarrow> x \<in> set (tb_documents tb) \<Longrightarrow> dr_id x \<noteq> d"
  by (auto simp: documents_ok_def active_row_def find_None_iff)

section \<open>Writes keep it\<close>

lemma set_superseded_fields [simp]: "map mm_id (set_superseded p rs) = map mm_id rs"
  by (simp add: set_superseded_def o_def)

lemma superseded_refused [simp]: "write_refused (r\<lparr>mm_status := s\<rparr>) = write_refused r"
  by (simp add: write_refused_def)

lemma placed_superseded: "placed docs r \<Longrightarrow> placed docs (r\<lparr>mm_status := Superseded\<rparr>)"
  by (auto simp: placed_def split: if_splits)

lemma list_all_superseded:
  "list_all P rs \<Longrightarrow> (\<And>r. P r \<Longrightarrow> P (r\<lparr>mm_status := Superseded\<rparr>)) \<Longrightarrow> list_all P (set_superseded p rs)"
  by (auto simp: set_superseded_def list_all_iff)

lemma insert_record_ok:
  assumes "insert_record embeds r tb = (e, tb')" and "tables_ok tb" and "placed (tb_documents tb) r"
  shows "tables_ok tb' \<and> tb_documents tb' = tb_documents tb"
proof (cases "e = None")
  case True
  with assms(1) have ok: "write_refused r = None" "get_record tb (mm_id r) = None" "tb' = tb\<lparr>tb_records :=
      (case superseded_id r of None \<Rightarrow> id | Some i \<Rightarrow> set_superseded (\<lambda>x. mm_id x = i)) (tb_records tb @ [r])\<rparr>"
    by (auto simp: insert_record_def split: option.splits if_splits)
  have "list_all (\<lambda>r. write_refused r = None) (tb_records tb @ [r])" "list_all (placed (tb_documents tb)) (tb_records tb @ [r])"
    "distinct (map mm_id (tb_records tb @ [r]))"
    using assms(2,3) ok(1,2) by (auto simp: tables_ok_def get_record_def find_None_iff)
  then show ?thesis using assms(2)
    by (auto simp: tables_ok_def ok(3) intro: list_all_superseded placed_superseded split: option.split)
next
  case False
  with assms show ?thesis by (auto simp: insert_record_def split: option.splits if_splits)
qed

lemma write_audited_ok:
  assumes "write_audited embeds fresh r tb = (e, tb')" and "tables_ok tb" and "mm_kind r \<noteq> Chunk" and "mm_place r = None"
  shows "tables_ok tb'"
proof -
  have p: "placed docs r" "placed docs (audit_of r fresh)" for docs using assms(3,4) by (simp_all add: placed_def audit_of_def)
  obtain e1 tb1 where i: "insert_record embeds r tb = (e1, tb1)" by fastforce
  from insert_record_ok [OF i assms(2) p(1)] have ok: "tables_ok tb1" ..
  obtain e2 tb2 where j: "insert_record embeds (audit_of r fresh) tb1 = (e2, tb2)" by fastforce
  from insert_record_ok [OF j ok p(2)] ok assms(1) i j show ?thesis
    by (auto simp: write_audited_def split: option.splits if_splits)
qed

section \<open>Ingesting keeps it\<close>

lemma insert_r_ok:
  "insert_r embeds r tb = Inr tb' \<Longrightarrow> tables_ok tb \<and> tb_documents tb = docs \<Longrightarrow> placed docs r \<Longrightarrow>
   tables_ok tb' \<and> tb_documents tb' = docs"
  using insert_record_ok [of embeds r tb None tb'] by (auto simp: insert_r_def split: prod.splits option.splits)

lemma retire_ok:
  assumes "tables_ok tb" and "active_row tb (dr_id row) = Some x" and "dr_version row = dr_version x + 1" and "dr_active row"
    and "insert_document row (retire_document (dr_id row) tb) = Inr tb'"
  shows "tables_ok tb' \<and> row \<in> set (tb_documents tb')"
proof -
  have docs: "documents_ok (tb_documents tb)" using assms(1) by (simp add: tables_ok_def)
  define off where "off = (\<lambda>y :: document_row. if dr_id y = dr_id row \<and> dr_active y then y\<lparr>dr_active := False\<rparr> else y)"
  have off: "dr_id (off y) = dr_id y" "dr_version (off y) = dr_version y" "dr_scope (off y) = dr_scope y"
    "dr_active (off y) \<longleftrightarrow> dr_active y \<and> dr_id y \<noteq> dr_id row" for y by (auto simp: off_def)
  have x: "x \<in> set (tb_documents tb)" "dr_id x = dr_id row" "dr_active x" using assms(2) active_row_iff [OF docs] by auto
  have tb': "tb' = \<lparr>tb_records = set_superseded (\<lambda>r. mm_status r = Current \<and> of_document (dr_id row) r) (tb_records tb),
      tb_documents = map off (tb_documents tb) @ [row]\<rparr>"
    using assms(5) by (auto simp: insert_document_def retire_document_def off_def split: if_splits)
  have new: "dr_version y < dr_version row" if "y \<in> set (tb_documents tb)" "dr_id y = dr_id row" for y
    using docs that x assms(3) by (auto simp: documents_ok_def less_Suc_eq_le)
  have "documents_ok (map off (tb_documents tb) @ [row])"
    unfolding documents_ok_def
  proof (intro conjI ballI impI)
    show "distinct (map (\<lambda>x. (dr_id x, dr_version x)) (map off (tb_documents tb) @ [row]))"
      using docs new by (auto simp: documents_ok_def o_def off) (metis less_irrefl)
  next
    fix y assume "y \<in> set (map off (tb_documents tb) @ [row])"
    then consider "y = row" | z where "z \<in> set (tb_documents tb)" "y = off z" by auto
    then show "\<exists>w \<in> set (map off (tb_documents tb) @ [row]). dr_id w = dr_id y \<and> dr_active w \<and> dr_version y \<le> dr_version w"
    proof cases
      case 1
      then show ?thesis using assms(4) by auto
    next
      case (2 z)
      show ?thesis
      proof (cases "dr_id z = dr_id row")
        case True
        with 2 new [OF 2(1)] assms(4) show ?thesis by (auto simp: off)
      next
        case False
        from docs 2(1) obtain w where "w \<in> set (tb_documents tb)" "dr_id w = dr_id z" "dr_active w" "dr_version z \<le> dr_version w"
          by (auto simp: documents_ok_def)
        with False 2 show ?thesis by (intro bexI [of _ "off w"]) (auto simp: off)
      qed
    qed
  next
    fix y w assume a: "y \<in> set (map off (tb_documents tb) @ [row])" "w \<in> set (map off (tb_documents tb) @ [row])"
      "dr_id w = dr_id y" "dr_active w"
    then show "dr_version y \<le> dr_version w"
      using docs new by (auto simp: documents_ok_def off less_imp_le)
  qed
  moreover have "placed (map off (tb_documents tb) @ [row]) r'"
    if r: "r \<in> set (tb_records tb)" "r' = (if mm_status r = Current \<and> of_document (dr_id row) r then r\<lparr>mm_status := Superseded\<rparr> else r)" for r r'
  proof (cases "mm_kind r = Chunk")
    case True
    with r(1) assms(1) obtain y n where y: "y \<in> set (tb_documents tb)" "mm_document r = Some (dr_id y)" "mm_place r = Some (dr_version y, n)"
      "dr_scope y = mm_scope r" "mm_status r = Current \<longrightarrow> dr_active y"
      unfolding tables_ok_def list_all_iff placed_def by (metis (no_types))
    have r': "mm_kind r' = Chunk" "mm_document r' = mm_document r" "mm_place r' = mm_place r" "mm_scope r' = mm_scope r"
      "mm_status r' = Current \<Longrightarrow> mm_status r = Current \<and> mm_document r \<noteq> Some (dr_id row)"
      using r(2) True by (auto simp: of_document_def split: if_splits)
    have "\<exists>x \<in> set (map off (tb_documents tb) @ [row]). mm_document r' = Some (dr_id x) \<and> (\<exists>n. mm_place r' = Some (dr_version x, n)) \<and>
        dr_scope x = mm_scope r' \<and> (mm_status r' = Current \<longrightarrow> dr_active x)"
      by (rule bexI [of _ "off y"]) (use y r' in \<open>auto simp: off\<close>)
    with r'(1) show ?thesis by (simp add: placed_def)
  next
    case False
    with r assms(1) show ?thesis by (auto simp: tables_ok_def list_all_iff placed_def)
  qed
  then have "\<forall>r \<in> set (tb_records tb). placed (map off (tb_documents tb) @ [row])
      (if mm_status r = Current \<and> of_document (dr_id row) r then r\<lparr>mm_status := Superseded\<rparr> else r)" by blast
  then have "list_all (placed (map off (tb_documents tb) @ [row])) (tb_records tb')"
    by (simp add: tb' set_superseded_def list.pred_map o_def del: if_split) (auto simp: list_all_iff split: if_splits)
  moreover have "list_all (\<lambda>r. write_refused r = None) (tb_records tb')"
    using assms(1) by (auto simp: tb' tables_ok_def intro: list_all_superseded)
  ultimately show ?thesis using assms(1) by (simp add: tables_ok_def tb')
qed


lemma first_version_ok:
  assumes "tables_ok tb" and "active_row tb (dr_id row) = None" and "dr_active row" and "insert_document row tb = Inr tb'"
  shows "tables_ok tb' \<and> row \<in> set (tb_documents tb')"
proof -
  have docs: "documents_ok (tb_documents tb)" using assms(1) by (simp add: tables_ok_def)
  have tb': "tb' = tb\<lparr>tb_documents := tb_documents tb @ [row]\<rparr>" using assms(4) by (auto simp: insert_document_def split: if_splits)
  have new: "dr_id y \<noteq> dr_id row" if "y \<in> set (tb_documents tb)" for y using no_active_row [OF docs assms(2) that] .
  have "documents_ok (tb_documents tb @ [row])"
    using docs new assms(3) by (auto simp: documents_ok_def)
  moreover have "placed (tb_documents tb @ [row]) r" if "r \<in> set (tb_records tb)" for r
    using assms(1) that unfolding tables_ok_def list_all_iff placed_def by fastforce
  ultimately show ?thesis using assms(1) by (simp add: tables_ok_def tb' list_all_iff)
qed

lemma index_version_ok:
  assumes "index_version embeds row g had tb = Inr tb'" and "tables_ok tb" and "dr_active row" and "dr_scope row = in_scope g"
    and "if had then \<exists>x. active_row tb (dr_id row) = Some x \<and> dr_version row = dr_version x + 1 else active_row tb (dr_id row) = None"
  shows "tables_ok tb' \<and> row \<in> set (tb_documents tb')"
proof -
  from assms(1) obtain tb1 tb2 where i: "insert_document row (if had then retire_document (dr_id row) tb else tb) = Inr tb1"
    "fold_r (insert_r embeds) (map (chunk_record g row) (enumerate 0 (in_chunks g))) tb1 = Inr tb2"
    "insert_r embeds (document_audit g row) tb2 = Inr tb'"
    by (auto simp: index_version_def bind_r_Inr)
  have one: "tables_ok tb1 \<and> row \<in> set (tb_documents tb1)"
  proof (cases had)
    case True
    with i(1) assms(5) retire_ok [OF assms(2) _ _ assms(3)] show ?thesis by auto
  next
    case False
    with i(1) assms(5) first_version_ok [OF assms(2) _ assms(3)] show ?thesis by auto
  qed
  then have p: "placed (tb_documents tb1) (chunk_record g row ic)" "placed (tb_documents tb1) (document_audit g row)" for ic
    using assms(3,4) by (auto simp: placed_def chunk_record_def document_audit_def Let_def split: prod.split)
  have "tables_ok tb2 \<and> tb_documents tb2 = tb_documents tb1"
  proof (rule fold_r_invariant [OF i(2), where P = "\<lambda>tb. tables_ok tb \<and> tb_documents tb = tb_documents tb1"])
    fix r s t assume "r \<in> set (map (chunk_record g row) (enumerate 0 (in_chunks g)))"
      "tables_ok s \<and> tb_documents s = tb_documents tb1" "insert_r embeds r s = Inr t"
    with insert_r_ok p(1) show "tables_ok t \<and> tb_documents t = tb_documents tb1" by (metis (no_types, lifting) imageE list.set_map)
  qed (use one in simp)
  with insert_r_ok [OF i(3) _ p(2)] one show ?thesis by auto
qed

lemma ingest_ok:
  assumes "ingest_document sha embeds g me = (res, me')" and "memory_ok me"
  shows "memory_ok me'"
proof -
  define d where "d = document_id sha (in_scope g) (in_uri g)"
  define v where "v = (case active_row (me_live me) d of None \<Rightarrow> 1 | Some x \<Rightarrow> dr_version x + 1)"
  define row where "row = \<lparr>dr_id = d, dr_version = v, dr_active = True, dr_scope = in_scope g, dr_uri = in_uri g,
            dr_source_hash = sha (in_source g), dr_prepared_hash = sha (in_prepared g)\<rparr>"
  have ok: "tables_ok tb'" if "index_version embeds row g (active_row (me_live me) d \<noteq> None) (me_live me) = Inr tb'" for tb'
    using index_version_ok [OF that] assms(2) by (auto simp: memory_ok_def row_def v_def split: option.splits)
  show ?thesis
    using assms ok by (auto simp: ingest_document_def Let_def memory_ok_def d_def [symmetric] row_def v_def split: option.splits if_splits sum.splits)
qed

interpretation memory_store: invariant_system "memory_step sha" memory_ok
proof
  fix me me' assume ok: "memory_ok me" and step: "memory_step sha me me'"
  from step show "memory_ok me'"
  proof (cases rule: memory_step.cases)
    case (Write r embeds fresh e)
    with ok write_audited_ok [of embeds fresh r "me_live me"] show ?thesis
      by (auto simp: memory_ok_def write_memory_def split: prod.splits option.splits)
  next
    case (Ingest embeds g res)
    with ok show ?thesis by (blast intro: ingest_ok)
  qed (use ok in \<open>simp_all add: memory_ok_def\<close>)
qed

section \<open>No search leaves its scope\<close>

lemma add_unseen_sub: "set (add_unseen rows acc) \<subseteq> set acc \<union> set rows"
proof (induction rows arbitrary: acc)
  case (Cons r rows)
  have "add_unseen (r # rows) acc = add_unseen rows (if mm_id r \<in> mm_id ` set acc then acc else acc @ [r])"
    by (simp add: add_unseen_def)
  with Cons [of "if mm_id r \<in> mm_id ` set acc then acc else acc @ [r]"] show ?case by (auto split: if_splits)
qed (simp add: add_unseen_def)

lemma expand_sub:
  "r \<in> set (expand_neighbors tb k selected) \<Longrightarrow> r \<in> set selected \<or> (\<exists>r0 \<in> set selected. r \<in> set (neighbour_rows tb k r0))"
proof -
  have "r \<in> set acc \<or> (\<exists>r0 \<in> set xs. r \<in> set (neighbour_rows tb k r0))"
    if "r \<in> set (fold (\<lambda>r. add_unseen (neighbour_rows tb k r)) xs acc)" for xs acc
    using that by (induction xs arbitrary: acc) (use add_unseen_sub in fastforce)+
  then show "r \<in> set (expand_neighbors tb k selected) \<Longrightarrow> ?thesis" by (auto simp: expand_neighbors_def)
qed

lemma neighbour_same_scope:
  assumes "tables_ok tb" and "r0 \<in> set (tb_records tb)" and "r \<in> set (neighbour_rows tb k r0)"
  shows "mm_scope r = mm_scope r0 \<and> mm_kind r = Chunk \<and> mm_status r = Current \<and> r \<in> set (tb_records tb)"
proof -
  obtain d v n where d: "mm_document r0 = Some d" "mm_place r0 = Some (v, n)"
    using assms(3) by (cases "mm_document r0"; cases "mm_place r0") (auto simp: neighbour_rows_def)
  with assms(3) obtain m where n: "mm_document r0 = Some d" "mm_place r0 = Some (v, n)"
    "r \<in> set (tb_records tb)" "mm_status r = Current" "mm_kind r = Chunk" "mm_document r = Some d" "mm_place r = Some (v, m)"
    by (auto simp: neighbour_rows_def near_def of_document_def split: option.splits)
  from assms(1,2) n obtain x where x: "x \<in> set (tb_documents tb)" "dr_id x = d" "dr_version x = v" "dr_scope x = mm_scope r0"
    by (auto simp: tables_ok_def list_all_iff placed_def split: if_splits dest!: bspec)
  from assms(1) n(3-7) obtain y where y: "y \<in> set (tb_documents tb)" "dr_id y = d" "dr_version y = v" "dr_scope y = mm_scope r"
    by (auto simp: tables_ok_def list_all_iff placed_def split: if_splits dest!: bspec)
  have "x = y" using x y assms(1) by (intro row_unique) (auto simp: tables_ok_def)
  with x y n show ?thesis by simp
qed

text \<open>C32: Memory never leaks across scopes: in a store in use, whatever was written, ingested, left half done or restarted, every record a
  search returns, the chunks it adds around a hit included, lies in the scope asked for: the same tenant, and at every level
  below the same owner or none. Without history it is current, and without asking for them no audit or policy record is
  returned.\<close>

theorem recall_never_leaks:
  assumes "(memory_step sha)\<^sup>*\<^sup>* empty_memory me" and "r \<in> set (recall score q me)"
  shows "scope_where (se_scope q) (mm_scope r) \<and> r \<in> set (tb_records (me_live me)) \<and>
    (\<not> se_history q \<longrightarrow> mm_status r = Current) \<and> (se_kinds q = [] \<longrightarrow> mm_kind r \<notin> {Audit, Policy})"
proof -
  have ok: "tables_ok (me_live me)" using memory_store.steps_inv [OF assms(1) empty_memory_ok] by (simp add: memory_ok_def)
  define selected where "selected = take (se_limit q) (sort_key (\<lambda>r. (- score r, mm_created r)) (filter (readable q) (tb_records (me_live me))))"
  have sel: "x \<in> set (tb_records (me_live me)) \<and> readable q x" if "x \<in> set selected" for x
    using that in_set_takeD [of x "se_limit q"] by (fastforce simp: selected_def)
  have "r \<in> set selected \<or> (\<exists>r0 \<in> set selected. r \<in> set (neighbour_rows (me_live me) (se_neighbors q) r0))"
    using assms(2) expand_sub [of r "me_live me" "se_neighbors q" selected]
    by (simp add: recall_def Let_def selected_def [symmetric] split: if_splits)
  then consider "r \<in> set selected" | r0 where "r0 \<in> set selected" "r \<in> set (neighbour_rows (me_live me) (se_neighbors q) r0)"
    by blast
  then show ?thesis
  proof cases
    case 1
    with sel show ?thesis by (auto simp: readable_def split: if_splits)
  next
    case (2 r0)
    with neighbour_same_scope [OF ok] sel have "mm_scope r = mm_scope r0" "mm_kind r = Chunk" "mm_status r = Current" "r \<in> set (tb_records (me_live me))" by blast+
    with sel [OF 2(1)] show ?thesis by (auto simp: readable_def)
  qed
qed


section \<open>One version counts\<close>

text \<open>C33: Every current chunk of a store in use belongs to the one version of its document that is active, in the scope of that
  version, and no version of the document is newer.\<close>

theorem one_version_counts:
  assumes "(memory_step sha)\<^sup>*\<^sup>* empty_memory me" and "r \<in> set (tb_records (me_live me))" and "mm_kind r = Chunk" and "mm_status r = Current"
  shows "\<exists>x n. mm_document r = Some (dr_id x) \<and> mm_place r = Some (dr_version x, n) \<and> mm_scope r = dr_scope x \<and>
    active_row (me_live me) (dr_id x) = Some x \<and>
    (\<forall>y \<in> set (tb_documents (me_live me)). dr_id y = dr_id x \<longrightarrow> dr_version y \<le> dr_version x \<and> (dr_active y \<longrightarrow> y = x))"
proof -
  have ok: "tables_ok (me_live me)" using memory_store.steps_inv [OF assms(1) empty_memory_ok] by (simp add: memory_ok_def)
  then have docs: "documents_ok (tb_documents (me_live me))" by (simp add: tables_ok_def)
  from ok assms(2-4) obtain x n where x: "x \<in> set (tb_documents (me_live me))" "mm_document r = Some (dr_id x)"
    "mm_place r = Some (dr_version x, n)" "mm_scope r = dr_scope x" "dr_active x"
    unfolding tables_ok_def list_all_iff placed_def by (metis (no_types))
  with docs have "dr_version y \<le> dr_version x" if "y \<in> set (tb_documents (me_live me))" "dr_id y = dr_id x" for y
    using that by (auto simp: documents_ok_def)
  with x active_row_iff [OF docs] active_unique [OF docs] show ?thesis by metis
qed

section \<open>Indexing twice\<close>

lemma insert_r_appends: "mm_supersedes r = None \<Longrightarrow> insert_r embeds r tb = Inr tb' \<Longrightarrow> tb' = tb\<lparr>tb_records := tb_records tb @ [r]\<rparr>"
  by (auto simp: insert_r_def insert_record_def superseded_id_def supersede_refused_def split: option.splits if_splits prod.splits)

lemma fold_insert_appends:
  "list_all (\<lambda>r. mm_supersedes r = None) rs \<Longrightarrow> fold_r (insert_r embeds) rs tb = Inr tb' \<Longrightarrow> tb' = tb\<lparr>tb_records := tb_records tb @ rs\<rparr>"
proof (induction rs arbitrary: tb)
  case (Cons r rs)
  from Cons(3) obtain tb1 where "insert_r embeds r tb = Inr tb1" "fold_r (insert_r embeds) rs tb1 = Inr tb'" by (auto simp: bind_r_Inr)
  with Cons(1) [of tb1] insert_r_appends [of r embeds tb tb1] Cons(2) show ?case by simp
qed simp

definition chunks_of :: "string \<Rightarrow> tables \<Rightarrow> mem_record list" where
  "chunks_of d tb = filter (\<lambda>r. mm_status r = Current \<and> mm_kind r = Chunk \<and> of_document d r) (tb_records tb)"

lemma chunk_record_fields [simp]:
  "mm_supersedes (chunk_record g row ic) = None" "mm_status (chunk_record g row ic) = Current" "mm_kind (chunk_record g row ic) = Chunk"
  "of_document d (chunk_record g row ic) = (dr_id row = d)" "mm_id (chunk_record g row ic) = fst (in_fresh g (fst ic))"
  "place_ordinal (chunk_record g row ic) = dk_ordinal (snd ic)"
  by (simp_all add: chunk_record_def of_document_def place_ordinal_def split: prod.split)

lemma index_version_chunks:
  assumes "index_version embeds row g had tb = Inr tb'" and "tables_ok tb" and "had = (active_row tb (dr_id row) \<noteq> None)"
  shows "chunks_of (dr_id row) tb' = map (chunk_record g row) (enumerate 0 (in_chunks g))"
proof -
  define base where "base = (if had then retire_document (dr_id row) tb else tb)"
  from assms(1) obtain tb1 tb2 where i: "insert_document row base = Inr tb1"
    "fold_r (insert_r embeds) (map (chunk_record g row) (enumerate 0 (in_chunks g))) tb1 = Inr tb2"
    "insert_r embeds (document_audit g row) tb2 = Inr tb'"
    by (auto simp: index_version_def bind_r_Inr base_def)
  have "tb_records tb1 = tb_records base" using i(1) by (auto simp: insert_document_def split: if_splits)
  moreover have "tb2 = tb1\<lparr>tb_records := tb_records tb1 @ map (chunk_record g row) (enumerate 0 (in_chunks g))\<rparr>"
    using fold_insert_appends [OF _ i(2)] by (simp add: list_all_iff)
  moreover have "tb' = tb2\<lparr>tb_records := tb_records tb2 @ [document_audit g row]\<rparr>"
    using insert_r_appends [OF _ i(3)] by (simp add: document_audit_def Let_def)
  ultimately have recs: "tb_records tb' = tb_records base @ map (chunk_record g row) (enumerate 0 (in_chunks g)) @ [document_audit g row]"
    by simp
  have "chunks_of (dr_id row) base = []"
  proof (cases had)
    case True
    then show ?thesis by (auto simp: chunks_of_def base_def retire_document_def set_superseded_def filter_empty_conv)
  next
    case False
    have docs: "documents_ok (tb_documents tb)" using assms(2) by (simp add: tables_ok_def)
    have "mm_document r \<noteq> Some (dr_id row)" if "r \<in> set (tb_records tb)" "mm_kind r = Chunk" for r
    proof
      assume "mm_document r = Some (dr_id row)"
      with assms(2) that obtain x where "x \<in> set (tb_documents tb)" "dr_id x = dr_id row"
        unfolding tables_ok_def list_all_iff placed_def by (metis option.inject)
      with no_active_row [OF docs] False assms(3) show False by auto
    qed
    then show ?thesis using False by (auto simp: chunks_of_def base_def of_document_def filter_empty_conv)
  qed
  then show ?thesis unfolding chunks_of_def recs by (simp add: document_audit_def Let_def filter_id_conv)
qed

text \<open>Indexing a text again changes nothing: after a successful ingestion, ingesting the same text from the same source in the
  same scope, with whatever identifiers and whatever the embedder does, gives the same document, version and records, says that it
  was idempotent, and leaves the store as it was.\<close>

lemma reindexing_changes_nothing:
  assumes "(memory_step sha)\<^sup>*\<^sup>* empty_memory me" and "ingest_document sha embeds g me = (Inr res, me')"
    and "map dk_ordinal (in_chunks g) = [0..<length (in_chunks g)]"
    and "in_source g' = in_source g" and "in_prepared g' = in_prepared g" and "in_uri g' = in_uri g" and "in_scope g' = in_scope g"
  shows "ingest_document sha embeds' g' me' = (Inr (res\<lparr>ig_idempotent := True\<rparr>), me')"
proof -
  define d where "d = document_id sha (in_scope g) (in_uri g)"
  define active where "active = active_row (me_live me) d"
  define row where "row = \<lparr>dr_id = d, dr_version = (case active of None \<Rightarrow> 1 | Some x \<Rightarrow> dr_version x + 1), dr_active = True,
    dr_scope = in_scope g, dr_uri = in_uri g, dr_source_hash = sha (in_source g), dr_prepared_hash = sha (in_prepared g)\<rparr>"
  have ok: "tables_ok (me_live me)" using memory_store.steps_inv [OF assms(1) empty_memory_ok] by (simp add: memory_ok_def)
  show ?thesis
  proof (cases "\<exists>x. active = Some x \<and> dr_source_hash x = sha (in_source g) \<and> dr_prepared_hash x = sha (in_prepared g)")
    case True
    with assms show ?thesis by (auto simp: ingest_document_def Let_def d_def active_def split: option.splits)
  next
    case False
    with assms(2) obtain tb' where tb': "index_version embeds row g (active \<noteq> None) (me_live me) = Inr tb'" "me' = \<lparr>me_live = tb', me_saved = tb'\<rparr>"
      "res = \<lparr>ig_document = d, ig_version = dr_version row, ig_idempotent = False, ig_records = map (\<lambda>i. fst (in_fresh g i)) [0..<length (in_chunks g)]\<rparr>"
      by (auto simp: ingest_document_def Let_def d_def [symmetric] active_def [symmetric] row_def split: option.splits if_splits sum.splits)
    have row: "dr_id row = d" "dr_active row" by (simp_all add: row_def)
    have i: "tables_ok tb'" "row \<in> set (tb_documents tb')"
      using index_version_ok [OF tb'(1) ok] by (auto simp: row_def active_def split: option.splits)
    then have "active_row tb' d = Some row" using active_row_iff [of tb' d row] row by (simp add: tables_ok_def)
    moreover have chunks: "chunks_of d tb' = map (chunk_record g row) (enumerate 0 (in_chunks g))"
      using index_version_chunks [OF tb'(1) ok] row(1) by (simp add: active_def)
    have "map place_ordinal (chunks_of d tb') = map dk_ordinal (in_chunks g)"
      by (rule nth_equalityI) (simp_all add: chunks nth_enumerate_eq)
    then have "sort_key place_ordinal (chunks_of d tb') = chunks_of d tb'"
      using assms(3) by (intro sort_key_id_if_sorted) simp
    moreover have "map mm_id (chunks_of d tb') = map (\<lambda>i. fst (in_fresh g i)) [0..<length (in_chunks g)]"
      by (rule nth_equalityI) (simp_all add: chunks nth_enumerate_eq)
    ultimately show ?thesis using assms(4-7) tb'(2,3)
      by (simp add: ingest_document_def Let_def d_def [symmetric] row_def chunks_of_def [symmetric])
  qed
qed


section \<open>Runs\<close>

definition team :: memory_scope where
  "team = \<lparr>sc_tenant = ''t'', sc_project = None, sc_user = None, sc_agent = None, sc_run = None\<rparr>"

definition two_topics :: chunking where
  "two_topics = \<lparr>ck_max_words = 512, ck_floor = 0, ck_segmenter = heading_segmenter\<rparr>"

definition guide :: "string \<Rightarrow> ingestion" where
  "guide text = \<lparr>in_source = text, in_prepared = text, in_chunks = semantic_chunks two_topics False text, in_uri = ''guide.md'',
     in_scope = team, in_author = ''me'', in_fresh = (\<lambda>n. (text @ digits n, int n))\<rparr>"

definition indexed :: "memory \<times> string \<Rightarrow> memory" where
  "indexed mt = snd (ingest_document id (\<lambda>t. True) (guide (snd mt)) (fst mt))"

definition wide :: search where
  "wide = \<lparr>se_scope = team\<lparr>sc_project := Some ''p''\<rparr>, se_kinds = [], se_limit = 1, se_history = False, se_neighbors = 1, se_now = 0\<rparr>"

definition one_guide :: memory where
  "one_guide = indexed (empty_memory, ''one'')"

lemma one_guide_reached: "(memory_step id)\<^sup>*\<^sup>* empty_memory one_guide"
proof -
  let ?i = "ingest_document id (\<lambda>t. True) (guide ''one'') empty_memory"
  have "memory_step id empty_memory (snd ?i)" by (rule memory_step.Ingest [of id _ _ _ "fst ?i"]) (rule prod.collapse [symmetric])
  then show ?thesis by (simp add: one_guide_def indexed_def)
qed

lemma one_guide_found: "\<exists>r. recall (\<lambda>r. 0) wide one_guide = [r] \<and> mm_text r = ''one'' \<and> mm_kind r = Chunk \<and> mm_status r = Current"
proof -
  have "case recall (\<lambda>r. 0) wide one_guide of [r] \<Rightarrow> mm_text r = ''one'' \<and> mm_kind r = Chunk \<and> mm_status r = Current | _ \<Rightarrow> False"
    by code_simp
  then show ?thesis by (auto split: list.splits)
qed

theorem recall_never_leaks_witness:
  "\<exists>r. r \<in> set (recall (\<lambda>r. 0) wide one_guide) \<and> mm_text r = ''one'' \<and> scope_where (se_scope wide) (mm_scope r)"
proof -
  obtain r where "r \<in> set (recall (\<lambda>r. 0) wide one_guide)" "mm_text r = ''one''" using one_guide_found by force
  with recall_never_leaks [OF one_guide_reached this(1)] show ?thesis by blast
qed

theorem one_version_counts_witness:
  "\<exists>r x. r \<in> set (tb_records (me_live one_guide)) \<and> mm_text r = ''one'' \<and> active_row (me_live one_guide) (dr_id x) = Some x \<and>
     mm_scope r = dr_scope x"
proof -
  have "list_ex (\<lambda>r. mm_text r = ''one'' \<and> mm_kind r = Chunk \<and> mm_status r = Current) (tb_records (me_live one_guide))" by code_simp
  then obtain r where "r \<in> set (tb_records (me_live one_guide))" "mm_text r = ''one''" "mm_kind r = Chunk" "mm_status r = Current"
    by (auto simp: list_ex_iff)
  with one_version_counts [OF one_guide_reached this(1,3,4)] show ?thesis by blast
qed

lemma reindexing_changes_nothing_witness:
  "\<exists>res. ingest_document id (\<lambda>t. False) (guide ''one'') one_guide = (Inr res, one_guide) \<and> ig_idempotent res \<and> ig_version res = 1"
proof -
  let ?i = "ingest_document id (\<lambda>t. True) (guide ''one'') empty_memory"
  have "case ?i of (Inr res, me) \<Rightarrow> ig_version res = 1 | _ \<Rightarrow> False" by code_simp
  then obtain res me where i: "?i = (Inr res, me)" "ig_version res = 1" by (auto split: prod.splits sum.splits)
  have me: "me = one_guide" using i(1) by (simp add: one_guide_def indexed_def)
  have "map dk_ordinal (in_chunks (guide ''one'')) = [0..<length (in_chunks (guide ''one''))]" by code_simp
  from reindexing_changes_nothing [OF rtranclp.rtrancl_refl i(1) this refl refl refl refl] i(2) show ?thesis by (auto simp: me)
qed

section \<open>Where the promises fail\<close>

definition note_record :: "string \<Rightarrow> mem_record" where
  "note_record i = \<lparr>mm_id = i, mm_kind = Fact, mm_scope = team, mm_text = ''note'', mm_sources = [(''u'', ''me'')],
     mm_principal = (''a'', ''agent''), mm_metadata = [], mm_document = None, mm_place = None, mm_created = 0, mm_valid_to = None,
     mm_status = Current, mm_supersedes = None\<rparr>"

text \<open>A write whose audit record cannot be embedded raises, but what it wrote stays in the open transaction, can be read, and is
  committed by the next write: a record without an audit event, of a write that failed.\<close>

definition failed_write :: "py_error option \<times> memory" where
  "failed_write = write_memory (\<lambda>t. t = ''note'') (''a1'', 0) (note_record ''m1'') empty_memory"

definition next_write :: "py_error option \<times> memory" where
  "next_write = write_memory (\<lambda>t. True) (''a2'', 0) (note_record ''m2'') (snd failed_write)"

lemma failed_write_is_kept:
  "fst failed_write = Some OSError \<and> map mm_id (recall (\<lambda>r. 0) (wide\<lparr>se_limit := 8\<rparr>) (snd failed_write)) = [''m1''] \<and>
   fst next_write = None \<and> map mm_id (tb_records (me_saved (snd next_write))) = [''m1'', ''m2'', ''a2'']"
  by code_simp

text \<open>A new version of a document supersedes the audit event of the version before, as its metadata names the document too:
  the audit trail is not append-only.\<close>

lemma new_version_supersedes_an_audit_event:
  "map mm_status (filter (\<lambda>r. mm_kind r = Audit) (tb_records (me_live one_guide))) = [Current] \<and>
   map mm_status (filter (\<lambda>r. mm_kind r = Audit) (tb_records (me_live (indexed (one_guide, ''two''))))) = [Superseded, Current]"
  by code_simp

text \<open>A level that is absent and one that is the empty text are two scopes, but one owner: indexing in the one retires the document
  of the other.\<close>

lemma empty_level_is_another_owner:
  "document_id sha (team\<lparr>sc_project := Some []\<rparr>) uri = document_id sha team uri \<and>
   \<not> scope_where team (team\<lparr>sc_project := Some []\<rparr>)"
  by (simp add: document_id_def owner_text_def team_def scope_where_def level_ok_def)

end
