(* ===== verification/Sandbox.thy ===== *)
theory Sandbox
  imports Coding_Edit
begin

text \<open>
  The local file tools (\<open>tools.py\<close>, and the workers of \<open>workers/general.py\<close> around them): every path is resolved against one
  configured root and refused outside it. The state is the file system of the coding theories; \<open>canon\<close> follows links,
  \<open>sha\<close> is the hash of a file's bytes. \<open>box\<close> is the resolved \<open>S17_SANDBOX_ROOT\<close>, absent where the variable is unset or empty.
\<close>

section \<open>Paths\<close>

text \<open>\<open>base / name\<close>: an absolute name replaces the base.\<close>

definition joined :: "fpath \<Rightarrow> string \<Rightarrow> fpath" where
  "joined base name = (if startswith name ''/'' then path_parts name else base @ path_parts name)"

definition sandbox_locate :: "(fpath \<Rightarrow> fpath) \<Rightarrow> fpath option \<Rightarrow> string \<Rightarrow> fpath result" where
  "sandbox_locate canon box path =
     (case box of None \<Rightarrow> Inl PermissionError
      | Some base \<Rightarrow> (let p = canon (joined base path) in if inside base p then Inr p else Inl PermissionError))"

definition sandbox_path :: "(fpath \<Rightarrow> fpath) \<Rightarrow> fpath option \<Rightarrow> coding \<Rightarrow> string \<Rightarrow> fpath result" where
  "sandbox_path canon box s path =
     bind_r (sandbox_locate canon box path) (\<lambda>p. if is_file s p then Inr p else Inl FileNotFoundError)"

definition sandbox_folder :: "(fpath \<Rightarrow> fpath) \<Rightarrow> fpath option \<Rightarrow> coding \<Rightarrow> string \<Rightarrow> fpath result" where
  "sandbox_folder canon box s path =
     bind_r (sandbox_locate canon box path) (\<lambda>p. if p \<in> set (cd_dirs s) then Inr p else Inl NotADirectoryError)"

text \<open>\<open>Path.suffix\<close>: from the last dot, unless it is the first or the last character of the name.\<close>

definition path_suffix :: "string \<Rightarrow> string" where
  "path_suffix name =
     (let ext = takeWhile (\<lambda>c. c \<noteq> CHR ''.'') (rev name); stem = drop (length ext + 1) (rev name)
      in if CHR ''.'' \<in> set name \<and> ext \<noteq> [] \<and> stem \<noteq> [] then CHR ''.'' # rev ext else [])"

definition sandbox_files :: "(fpath \<Rightarrow> fpath) \<Rightarrow> fpath option \<Rightarrow> coding \<Rightarrow> string \<Rightarrow> string \<Rightarrow> fpath list result" where
  "sandbox_files canon box s path suffix =
     bind_r (sandbox_folder canon box s path) (\<lambda>d.
       Inr (sort (filter (\<lambda>p. p \<noteq> [] \<and> butlast p = d \<and> lower (path_suffix (last p)) = lower suffix) (dkeys (cd_files s)))))"

definition sandbox_directories :: "(fpath \<Rightarrow> fpath) \<Rightarrow> fpath option \<Rightarrow> coding \<Rightarrow> string \<Rightarrow> fpath list result" where
  "sandbox_directories canon box s path =
     bind_r (sandbox_folder canon box s path) (\<lambda>d.
       Inr (sort (filter (\<lambda>p. p \<noteq> [] \<and> butlast p = d) (cd_dirs s))))"

definition sandbox_output_path :: "(fpath \<Rightarrow> fpath) \<Rightarrow> fpath option \<Rightarrow> string \<Rightarrow> fpath result" where
  "sandbox_output_path canon box path =
     bind_r (sandbox_locate canon box path) (\<lambda>p. if box = Some p then Inl PermissionError else Inr p)"

section \<open>Reading and writing\<close>






section \<open>The workers\<close>


text \<open>\<open>list_directory\<close>: the names below the root; both lists are of one folder.\<close>

definition relative_text :: "fpath \<Rightarrow> fpath \<Rightarrow> string" where
  "relative_text base p = (if p = base then ''.'' else join ''/'' (drop (length base) p))"

definition list_directory ::
  "(fpath \<Rightarrow> fpath) \<Rightarrow> fpath option \<Rightarrow> string \<Rightarrow> string \<Rightarrow> coding \<Rightarrow> (string list \<times> string list) result" where
  "list_directory canon box path suffix s =
     (case box of None \<Rightarrow> Inl KeyError
      | Some base \<Rightarrow>
          bind_r (sandbox_files canon box s path suffix) (\<lambda>fs.
          bind_r (sandbox_directories canon box s path) (\<lambda>ds.
            Inr (map (relative_text base) fs, map (relative_text base) ds))))"

text \<open>\<open>run_verify_artifact\<close>: a file strictly below the run's own folder; \<open>named\<close> is the path a \<open>file\<close> URI names, if it is one.\<close>

definition verify_artifact ::
  "(stored \<Rightarrow> string) \<Rightarrow> (fpath \<Rightarrow> fpath) \<Rightarrow> fpath \<Rightarrow> string \<Rightarrow> fpath option \<Rightarrow> coding \<Rightarrow> (fpath \<times> string \<times> string) result" where
  "verify_artifact sha canon box run named s =
     (case named of None \<Rightarrow> Inl ValueError
      | Some u \<Rightarrow>
          (let p = canon u; owned = canon (box @ [''artifacts'', run])
           in if p = owned \<or> \<not> inside owned p \<or> \<not> is_file s p then Inl PermissionError
              else let f = dget_or (cd_files s) p (Decodes []) in Inr (p, sha f, take 60000 (raw_text f))))"



section \<open>What the sandbox promises\<close>

text \<open>
  The file tools stay under their root. What a lookup of a name under a folder promises is a locale, which the
  sandbox and the coding workspace both provide.
\<close>

section \<open>Confined lookups\<close>

lemma inside_append: "inside (a @ b) p \<Longrightarrow> inside a p"
proof -
  assume "inside (a @ b) p"
  then have "take (length a) (take (length (a @ b)) p) = a" by (simp add: inside_def)
  then show ?thesis by (simp add: inside_def min_def)
qed

lemma inside_iff: "inside base p \<longleftrightarrow> (\<exists>rest. p = base @ rest)"
  unfolding inside_def by (metis append_eq_conv_conj append_take_drop_id)

locale confined =
  fixes locate :: "fpath \<Rightarrow> string \<Rightarrow> fpath result"
  assumes located: "locate base name = Inr p \<Longrightarrow> inside base p"
begin

lemma within: "locate base name = Inr p \<Longrightarrow> inside outer base \<Longrightarrow> inside outer p"
  using located [of base name p] unfolding inside_iff by auto

text \<open>Two folders reach a common file only if one holds the other.\<close>

lemma apart: "locate a name = Inr p \<Longrightarrow> locate b name' = Inr p \<Longrightarrow> inside a b \<or> inside b a"
proof -
  assume "locate a name = Inr p" "locate b name' = Inr p"
  then have "\<exists>x. p = a @ x" "\<exists>y. p = b @ y" using located inside_iff by auto
  then obtain x y where "a @ x = b @ y" by auto
  then show ?thesis unfolding inside_iff append_eq_append_conv2 by auto
qed

end


interpretation workspace_lookup: confined "resolve canon" for canon
  by unfold_locales (auto simp: resolve_def Let_def split: if_splits)

section \<open>Changes\<close>











section \<open>Runs\<close>

definition one_note :: coding where
  "one_note = \<lparr>cd_files = [([''srv'', ''a.md''], Decodes ''one''), ([''etc'', ''key''], Decodes ''k'')],
     cd_dirs = [[''srv''], [''etc'']], cd_read = []\<rparr>"



text \<open>Links out of the root are refused, and so is the root itself as a target.\<close>

lemma escapes_are_refused:
  "sandbox_path lexical (Some [''srv'']) one_note ''../etc/key'' = Inl PermissionError \<and>
   sandbox_path lexical (Some [''srv'']) one_note ''/etc/key'' = Inl PermissionError \<and>
   sandbox_path (\<lambda>p. if p = [''srv'', ''link''] then [''etc'', ''key''] else p) (Some [''srv'']) one_note ''link'' = Inl PermissionError \<and>
   sandbox_output_path lexical (Some [''srv'']) ''x/..'' = Inl PermissionError \<and> sandbox_path lexical None one_note ''a.md'' = Inl PermissionError"
  by code_simp

end
