(* ===== verification/Skill_Claims.thy ===== *)
theory Skill_Claims
  imports Skills Sandbox "HOL-Library.Multiset"
begin

text \<open>
  What holds of skills: discovery accounts for every file, a prompt holds every skill that was asked for and no more than its budget of
  others, a reference is read from the skill's folder.
\<close>

section \<open>The manager\<close>

definition manager_ok :: "manager \<Rightarrow> bool" where
  "manager_ok m = (distinct (dkeys (sm_skills m)) \<and> length (sm_skills m) \<le> max_skills \<and>
     (\<forall>(n, k) \<in> set (sm_skills m). sk_name k = n))"

lemma dput_new: "k \<notin> set (dkeys d) \<Longrightarrow> dput k v d = d @ [(k, v)]"
  by (induction d) auto

lemma register_Inr:
  "register k m = Inr m' \<longleftrightarrow> sk_name k \<notin> set (dkeys (sm_skills m)) \<and> length (sm_skills m) < max_skills \<and>
     m' = m\<lparr>sm_skills := sm_skills m @ [(sk_name k, k)]\<rparr>"
proof (cases "dget (sm_skills m) (sk_name k)")
  case None
  then have "sk_name k \<notin> set (dkeys (sm_skills m))" by (simp only: dget_None_iff not_False_eq_True)
  with None show ?thesis by (auto simp: register_def dput_new)
next
  case (Some old)
  then show ?thesis using dget_Some_key [OF Some] by (simp add: register_def)
qed

lemma register_Inl:
  "register k m = Inl e \<Longrightarrow> e = Too_many \<or> (\<exists>q. e = Same_name (sk_name k) q (sk_path k))"
  by (auto simp: register_def split: option.splits if_splits)

lemma register_ok: "manager_ok m \<Longrightarrow> register k m = Inr m' \<Longrightarrow> manager_ok m'"
  by (auto simp: manager_ok_def register_Inr)

lemma note_error_ok [simp]: "manager_ok (note_error e m) = manager_ok m"
  by (simp add: manager_ok_def note_error_def)

lemma set_enabled_Inr:
  "set_enabled name b m = Inr (k', m') \<longleftrightarrow> (\<exists>k. dget (sm_skills m) name = Some k \<and> k' = k\<lparr>sk_enabled := b\<rparr> \<and>
     m' = m\<lparr>sm_skills := dput name k' (sm_skills m)\<rparr>)"
  by (auto simp: set_enabled_def Let_def split: option.splits)

lemma length_dput: "k \<in> set (dkeys d) \<Longrightarrow> length (dput k v d) = length d"
  by (induction d) auto

lemma set_enabled_ok:
  assumes "manager_ok m" and "set_enabled name b m = Inr (k', m')"
  shows "manager_ok m'"
proof -
  from assms(2) obtain k where k: "dget (sm_skills m) name = Some k" and k': "k' = k\<lparr>sk_enabled := b\<rparr>"
    and m': "sm_skills m' = dput name k' (sm_skills m)" by (auto simp: set_enabled_Inr)
  have "length (sm_skills m') = length (sm_skills m)" unfolding m' by (rule length_dput [OF dget_Some_key [OF k]])
  moreover have "(name, k) \<in> set (sm_skills m)" using k by (rule map_of_SomeD)
  then have "sk_name k' = name" using assms(1) by (auto simp: manager_ok_def k')
  then have "\<forall>(n, x) \<in> set (sm_skills m'). sk_name x = n"
    using assms(1) unfolding m' by (auto simp: manager_ok_def dest!: set_dput)
  ultimately show ?thesis using assms(1) unfolding manager_ok_def m' by (simp only: distinct_dkeys_dput simp_thms)
qed

lemma empty_manager_ok [simp]: "manager_ok empty_manager"
  by (simp add: manager_ok_def empty_manager_def max_skills_def)

interpretation skill_manager: invariant_system manager_step manager_ok
  by unfold_locales (auto elim!: manager_stepE intro: register_ok set_enabled_ok)

section \<open>Discovery\<close>

lemma from_file_Inr:
  assumes "from_file h str_of p = Inr k"
  shows "sk_path k = p \<and> name_ok (sk_name k) \<and> sk_instructions k \<noteq> [] \<and> length (sk_instructions k) \<le> max_instruction_chars"
  using assms
  by (auto simp: from_file_def bind_k_def skill_of_def Let_def split: sum.splits if_splits)

text \<open>What a manager says of a file: its skill is registered, or the refusal is recorded.\<close>

definition settled :: "skill_host \<Rightarrow> (json \<Rightarrow> string) \<Rightarrow> manager \<Rightarrow> fpath \<Rightarrow> bool" where
  "settled h str_of m p =
     (case from_file h str_of p of
        Inl (Raised e) \<Rightarrow> False
      | Inl (Refused e) \<Rightarrow> e \<in> set (sm_errors m)
      | Inr k \<Rightarrow> (sk_name k, k) \<in> set (sm_skills m) \<or> Too_many \<in> set (sm_errors m) \<or>
          (\<exists>q. Same_name (sk_name k) q p \<in> set (sm_errors m)))"

definition grown :: "manager \<Rightarrow> manager \<Rightarrow> bool" where
  "grown m m' = (set (sm_skills m) \<subseteq> set (sm_skills m') \<and> set (sm_errors m) \<subseteq> set (sm_errors m'))"

lemma settled_grown: "settled h str_of m p \<Longrightarrow> grown m m' \<Longrightarrow> settled h str_of m' p"
  by (auto simp: settled_def grown_def split: sum.splits skill_failure.splits)

lemma load_all_accounts:
  "load_all h str_of ps m = Inr m' \<Longrightarrow>
     grown m m' \<and> list_all (settled h str_of m') ps \<and>
     length (sm_skills m') + length (sm_errors m') = length (sm_skills m) + length (sm_errors m) + length ps \<and>
     (\<forall>(n, k) \<in> set (sm_skills m'). (n, k) \<in> set (sm_skills m) \<or> sk_path k \<in> set ps \<and> from_file h str_of (sk_path k) = Inr k) \<and>
     manager_step\<^sup>*\<^sup>* m m'"
proof (induction ps arbitrary: m)
  case (Cons p ps)
  let ?ff = "from_file h str_of p"
  from Cons.prems obtain m1 where m1: "load_all h str_of ps m1 = Inr m'" and step: "manager_step m m1" and here: "settled h str_of m1 p"
    and grow: "grown m m1"
    and len: "length (sm_skills m1) + length (sm_errors m1) = length (sm_skills m) + length (sm_errors m) + 1"
    and new: "\<forall>(n, k) \<in> set (sm_skills m1). (n, k) \<in> set (sm_skills m) \<or> sk_path k = p \<and> ?ff = Inr k"
  proof (cases ?ff)
    case (Inl f)
    with Cons.prems obtain e where e: "f = Refused e" by (cases f) auto
    show ?thesis
    proof (rule that)
      show "load_all h str_of ps (note_error e m) = Inr m'" using Cons.prems Inl e by simp
      show "manager_step m (note_error e m)" by (rule manager_step.Noted)
    qed (use Inl e in \<open>auto simp: settled_def grown_def note_error_def\<close>)
  next
    case (Inr k)
    show ?thesis
    proof (cases "register k m")
      case (Inl e)
      have "e = Too_many \<or> (\<exists>q. e = Same_name (sk_name k) q p)"
        using register_Inl [OF Inl] from_file_Inr [OF Inr] by auto
      then have "settled h str_of (note_error e m) p" using Inr by (auto simp: settled_def note_error_def)
      moreover have "load_all h str_of ps (note_error e m) = Inr m'" using Cons.prems Inl Inr by simp
      ultimately show ?thesis using manager_step.Noted by (intro that) (auto simp: grown_def note_error_def)
    next
      fix m1
      assume r: "register k m = Inr m1"
      then have "load_all h str_of ps m1 = Inr m'" using Cons.prems Inr by simp
      moreover have "settled h str_of m1 p" using Inr r by (auto simp: settled_def register_Inr)
      ultimately show ?thesis using manager_step.Registered [OF r] r Inr from_file_Inr [OF Inr]
        by (intro that) (auto simp: grown_def register_Inr)
    qed
  qed
  note IH = Cons.IH [OF m1]
  have "settled h str_of m' p" using settled_grown [OF here] IH by blast
  moreover have "grown m m'" using IH grow by (auto simp: grown_def)
  moreover have "manager_step\<^sup>*\<^sup>* m m'" using IH step by (meson converse_rtranclp_into_rtranclp)
  moreover have "(n, k) \<in> set (sm_skills m) \<or> sk_path k \<in> set (p # ps) \<and> from_file h str_of (sk_path k) = Inr k"
    if "(n, k) \<in> set (sm_skills m')" for n k using IH new that by auto
  ultimately show ?case using IH len by auto
qed (simp add: grown_def)

lemma skill_walk_inside:
  assumes "p \<in> set (skill_walk h base depth)"
  shows "inside base p \<and> length p \<le> length base + depth + 1"
proof -
  from assms obtain c where "admitted_file h base depth c = Some p" by (auto simp: skill_walk_def map_filter_def)
  then show ?thesis by (auto simp: admitted_file_def inside_def split: option.splits if_splits)
qed

text \<open>Discovery accounts for every file: of the \<open>SKILL.md\<close> files that resolve inside the folder, deep enough or less, each is
  registered or has its refusal recorded, one entry for each; every registered skill is what its file says, lies inside
  the folder, has a name of its own and a body of at most 8,000 characters, and there are at most 64.\<close>

lemma discovery_accounts_for_every_file:
  assumes "discover h str_of start depth = Inr m" and "sh_resolve h start = Some base" and "base \<in> set (sh_folders h)"
  shows "list_all (settled h str_of m) (skill_walk h base depth) \<and>
    length (sm_skills m) + length (sm_errors m) = length (skill_walk h base depth) \<and>
    distinct (dkeys (sm_skills m)) \<and> length (sm_skills m) \<le> 64 \<and>
    (\<forall>(n, k) \<in> set (sm_skills m). from_file h str_of (sk_path k) = Inr k \<and> sk_name k = n \<and> inside base (sk_path k) \<and>
       length (sk_path k) \<le> length base + depth + 1 \<and> sk_instructions k \<noteq> [] \<and> length (sk_instructions k) \<le> 8000)"
proof -
  have "load_all h str_of (sort (skill_walk h base depth)) empty_manager = Inr m"
    using assms by (simp add: discover_def is_folder_def)
  note l = load_all_accounts [OF this]
  then have ok: "manager_ok m" using skill_manager.steps_inv empty_manager_ok by blast
  have "from_file h str_of (sk_path k) = Inr k \<and> sk_name k = n \<and> inside base (sk_path k) \<and>
       length (sk_path k) \<le> length base + depth + 1 \<and> sk_instructions k \<noteq> [] \<and> length (sk_instructions k) \<le> 8000"
    if "(n, k) \<in> set (sm_skills m)" for n k
  proof -
    have k: "sk_path k \<in> set (skill_walk h base depth)" "from_file h str_of (sk_path k) = Inr k"
      using l that by (auto simp: empty_manager_def)
    moreover have "sk_name k = n" using ok that by (auto simp: manager_ok_def)
    ultimately show ?thesis using skill_walk_inside [OF k(1)] from_file_Inr [OF k(2)] by (simp add: max_instruction_chars_def)
  qed
  with l ok show ?thesis by (auto simp: manager_ok_def max_skills_def list_all_iff empty_manager_def)
qed

section \<open>Injection\<close>

lemma all_skills_eq: "all_skills m = map (\<lambda>n. the (dget (sm_skills m) n)) (sort (dkeys (sm_skills m)))"
proof -
  have "filter (\<lambda>n. \<exists>k. dget (sm_skills m) n = Some k) (sort (dkeys (sm_skills m))) = sort (dkeys (sm_skills m))"
    by (rule filter_True) (metis dget_None_iff not_None_eq set_sort)
  then show ?thesis by (simp add: all_skills_def map_filter_def)
qed

lemma all_skills_set:
  assumes "manager_ok m"
  shows "k \<in> set (all_skills m) \<longleftrightarrow> dget (sm_skills m) (sk_name k) = Some k"
proof
  assume "k \<in> set (all_skills m)"
  then obtain n where n: "n \<in> set (dkeys (sm_skills m))" "k = the (dget (sm_skills m) n)" by (auto simp only: all_skills_eq set_map set_sort)
  then obtain x where x: "dget (sm_skills m) n = Some x" by (metis dget_None_iff not_None_eq)
  then have "(n, x) \<in> set (sm_skills m)" by (rule map_of_SomeD)
  then have "sk_name x = n" using assms by (auto simp: manager_ok_def)
  with n x show "dget (sm_skills m) (sk_name k) = Some k" by simp
next
  assume k: "dget (sm_skills m) (sk_name k) = Some k"
  then have "sk_name k \<in> set (dkeys (sm_skills m))" by (rule dget_Some_key)
  then show "k \<in> set (all_skills m)" unfolding all_skills_eq set_map set_sort by (rule rev_image_eqI) (simp add: k)
qed

lemma all_skills_distinct:
  assumes "manager_ok m"
  shows "distinct (all_skills m)"
proof -
  let ?ns = "sort (dkeys (sm_skills m))"
  have "inj_on (\<lambda>n. the (dget (sm_skills m) n)) (set ?ns)"
  proof (rule inj_onI)
    fix a b
    assume "a \<in> set ?ns" "b \<in> set ?ns" and e: "the (dget (sm_skills m) a) = the (dget (sm_skills m) b)"
    then obtain x y where xy: "dget (sm_skills m) a = Some x" "dget (sm_skills m) b = Some y"
      by (metis dget_None_iff option.exhaust set_sort)
    then have "(a, x) \<in> set (sm_skills m)" "(b, y) \<in> set (sm_skills m)" by (simp_all add: map_of_SomeD)
    then have "sk_name x = a" "sk_name y = b" using assms by (auto simp: manager_ok_def)
    with xy e show "a = b" by simp
  qed
  then show ?thesis using assms by (simp add: all_skills_eq distinct_map manager_ok_def)
qed

lemma enabled_set:
  "manager_ok m \<Longrightarrow> k \<in> set (enabled_skills m) \<longleftrightarrow> dget (sm_skills m) (sk_name k) = Some k \<and> sk_enabled k"
  by (auto simp: enabled_skills_def all_skills_set)

lemma enabled_named_Some:
  assumes "manager_ok m" and "enabled_named m n = Some k"
  shows "k \<in> set (enabled_skills m) \<and> sk_name k = n"
proof -
  from assms(2) have k: "dget (sm_skills m) n = Some k" "sk_enabled k" by (auto simp: enabled_named_def split: option.splits if_splits)
  then have "(n, k) \<in> set (sm_skills m)" by (simp add: map_of_SomeD)
  then have "sk_name k = n" using assms(1) by (auto simp: manager_ok_def)
  with k show ?thesis by (simp add: enabled_set [OF assms(1)])
qed

lemma enabled_named_own: "manager_ok m \<Longrightarrow> k \<in> set (enabled_skills m) \<Longrightarrow> enabled_named m (sk_name k) = Some k"
  by (simp add: enabled_set enabled_named_def)

lemma ask_for_set:
  assumes "manager_ok m"
  shows "set (ask_for m n acc) = set acc \<union> {k \<in> set (enabled_skills m). sk_name k = n}"
proof (cases "enabled_named m n")
  case None
  then have e: "{k \<in> set (enabled_skills m). sk_name k = n} = {}" using enabled_named_own [OF assms] by force
  show ?thesis unfolding ask_for_def e using None by simp
next
  case (Some k)
  have "{k \<in> set (enabled_skills m). sk_name k = n} = {k}"
  proof (intro set_eqI iffI)
    fix x
    assume "x \<in> {k \<in> set (enabled_skills m). sk_name k = n}"
    then have "enabled_named m n = Some x" using enabled_named_own [OF assms, of x] by simp
    with Some show "x \<in> {k}" by simp
  qed (use enabled_named_Some [OF assms Some] in simp)
  with Some show ?thesis unfolding ask_for_def by auto
qed

lemma ask_for_distinct: "distinct acc \<Longrightarrow> distinct (ask_for m n acc)"
  by (auto simp: ask_for_def split: option.splits)

lemma asked_set:
  "manager_ok m \<Longrightarrow> set (fold (ask_for m) ns acc) = set acc \<union> {k \<in> set (enabled_skills m). sk_name k \<in> set ns}"
  by (induction ns arbitrary: acc) (auto simp: ask_for_set)

lemma asked_distinct: "distinct acc \<Longrightarrow> distinct (fold (ask_for m) ns acc)"
  by (induction ns arbitrary: acc) (auto simp: ask_for_distinct)

lemma fill_perm:
  "fill used ks = (kept, dropped) \<Longrightarrow> mset kept + mset dropped = mset ks"
proof (induction used ks arbitrary: kept dropped rule: fill.induct)
  case (2 used k ks)
  show ?case
  proof (cases "used + length (skill_block k) > max_injected_chars")
    case True
    with 2(3) obtain d where f: "fill used ks = (kept, d)" "dropped = k # d" by (auto split: prod.splits)
    with 2(1) [OF True f(1)] show ?thesis by simp
  next
    case False
    with 2(3) obtain a where f: "fill (used + length (skill_block k)) ks = (a, dropped)" "kept = k # a" by (auto split: prod.splits)
    with 2(2) [OF False f(1)] show ?thesis by simp
  qed
qed simp

text \<open>The room is used up to the budget, and what is dropped would not have fitted.\<close>

lemma fill_room:
  "fill used ks = (kept, dropped) \<Longrightarrow>
     used + blocks_length kept \<le> max max_injected_chars used \<and>
     (\<forall>k \<in> set dropped. max_injected_chars < used + blocks_length kept + length (skill_block k))"
proof (induction used ks arbitrary: kept dropped rule: fill.induct)
  case (2 used k ks)
  show ?case
  proof (cases "used + length (skill_block k) > max_injected_chars")
    case True
    with 2(3) obtain d where f: "fill used ks = (kept, d)" "dropped = k # d" by (auto split: prod.splits)
    with 2(1) [OF True f(1)] True show ?thesis by auto
  next
    case False
    with 2(3) obtain a where f: "fill (used + length (skill_block k)) ks = (a, dropped)" "kept = k # a" by (auto split: prod.splits)
    with 2(2) [OF False f(1)] False show ?thesis by (auto simp: blocks_length_def)
  qed
qed (simp add: blocks_length_def)

lemma contains_prefix: "contains b (b @ v)"
proof (cases "b @ v")
  case (Cons c cs)
  then have "startswith (c # cs) b" unfolding startswith_append by (metis)
  then show ?thesis unfolding Cons by simp
qed simp

lemma contains_suffix: "contains b v \<Longrightarrow> contains b (u @ v)"
  by (induction u) auto

lemma contains_within: "contains b u \<Longrightarrow> contains b (u @ v)"
proof (induction u)
  case (Cons c u)
  show ?case
  proof (cases "startswith (c # u) b")
    case True
    then obtain t where "c # u = b @ t" unfolding startswith_append by blast
    then show ?thesis using contains_prefix [of b "t @ v"] by simp
  next
    case False
    with Cons show ?thesis by simp
  qed
qed (use contains_prefix [of "[]"] in simp)

lemma contains_join: "b \<in> set bs \<Longrightarrow> contains b (join sep bs)"
proof (induction sep bs rule: join.induct)
  case (2 sep x)
  then show ?case using contains_prefix [of x "[]"] by simp
next
  case (3 sep x y zs)
  show ?case
  proof (cases "b = x")
    case True
    then show ?thesis by (simp add: contains_prefix)
  next
    case False
    with 3 have "contains b (join sep (y # zs))" by simp
    then show ?thesis using contains_suffix [of b _ "x @ sep"] by simp
  qed
qed simp

text \<open>A rendered prompt holds every skill that was asked for. The guaranteed skills are exactly the enabled ones that are always on
  or were requested by name; all of their blocks are in the text, whatever their length. The other enabled skills whose
  keywords the goal mentions are kept or dropped, each once: together with the guaranteed ones the kept stay within 12,000
  characters, unless the guaranteed alone exceed it, and one is dropped only if it would not have fitted.\<close>

lemma prompt_keeps_what_was_asked:
  assumes "manager_step\<^sup>*\<^sup>* empty_manager m" and "injection_for goal requested m = nj"
  shows "set (nj_guaranteed nj) = {k \<in> set (enabled_skills m). sk_always k \<or> sk_name k \<in> set requested} \<and>
    set (nj_kept nj) \<union> set (nj_dropped nj) = {k \<in> set (enabled_skills m). skill_matches goal k} - set (nj_guaranteed nj) \<and>
    distinct (nj_guaranteed nj @ nj_kept nj @ nj_dropped nj) \<and>
    list_all (\<lambda>k. contains (skill_block k) (render_skills goal requested m)) (nj_guaranteed nj @ nj_kept nj) \<and>
    blocks_length (nj_guaranteed nj @ nj_kept nj) \<le> max 12000 (blocks_length (nj_guaranteed nj)) \<and>
    list_all (\<lambda>k. 12000 < blocks_length (nj_guaranteed nj @ nj_kept nj) + length (skill_block k)) (nj_dropped nj)"
proof -
  have ok: "manager_ok m" using skill_manager.steps_inv [OF assms(1)] by simp
  define g where "g = guaranteed m requested"
  define kept where "kept = nj_kept nj"
  define dropped where "dropped = nj_dropped nj"
  have g: "nj_guaranteed nj = g" and f: "fill (blocks_length g) (filter (\<lambda>k. k \<notin> set g) (select goal m)) = (kept, dropped)"
    using assms(2) by (auto simp: injection_for_def Let_def g_def kept_def dropped_def split: prod.splits)
  have en: "distinct (enabled_skills m)" using all_skills_distinct [OF ok] by (simp add: enabled_skills_def)
  have sg: "set g = {k \<in> set (enabled_skills m). sk_always k \<or> sk_name k \<in> set requested}"
    unfolding g_def guaranteed_def asked_set [OF ok] by (auto simp: always_on_def)
  have dg: "distinct g" unfolding g_def guaranteed_def by (rule asked_distinct) (simp add: always_on_def en)
  have ms: "mset (kept @ dropped) = mset (filter (\<lambda>k. k \<notin> set g) (select goal m))" using fill_perm [OF f] by simp
  have sk: "set (kept @ dropped) = {k \<in> set (enabled_skills m). skill_matches goal k} - set g"
    unfolding mset_eq_setD [OF ms] by (auto simp: select_def)
  have dk: "distinct (kept @ dropped)"
    unfolding mset_eq_imp_distinct_iff [OF ms] using en by (simp add: select_def)
  have shown: "contains (skill_block k) (render_skills goal requested m)" if "k \<in> set (g @ kept)" for k
  proof -
    have "contains (skill_block k) (join (newline @ newline) (map skill_block (g @ kept)))"
      using that by (intro contains_join) (simp only: set_map imageI)
    moreover have "render_skills goal requested m = preamble @ newline @ newline @ join (newline @ newline) (map skill_block (g @ kept))"
      using that assms(2) by (auto simp: render_skills_def Let_def g kept_def)
    ultimately show ?thesis by (simp only: contains_suffix)
  qed
  have len: "blocks_length (g @ kept) = blocks_length g + blocks_length kept" by (simp add: blocks_length_def)
  from sg sk dg dk shown fill_room [OF f] show ?thesis
    unfolding g kept_def [symmetric] dropped_def [symmetric] len by (auto simp: list_all_iff max_injected_chars_def)
qed

section \<open>References\<close>

text \<open>A reference that is returned is the text of a file inside the resolved references folder of an enabled skill, whatever
  the name it was asked for, absolute or with parent references, and is at most 24,000 characters long; and where that
  folder is no link, the file lies in the folder of the skill.\<close>

lemma reference_stays_in_its_folder:
  assumes "reference h m name filename = Inr text"
  shows "\<exists>k folder target. enabled_named m name = Some k \<and> sh_resolve h (references_folder k) = Some folder \<and>
    sh_resolve h (joined folder filename) = Some target \<and> inside folder target \<and> read_source h target = Inr text \<and>
    length text \<le> 24000 \<and> (folder = references_folder k \<longrightarrow> inside (butlast (sk_path k)) target)"
proof -
  from assms obtain k folder target where w: "enabled_named m name = Some k" "sh_resolve h (references_folder k) = Some folder"
    "sh_resolve h (joined folder filename) = Some target" and i: "inside folder target"
    and t: "read_source h target = Inr text" "length text \<le> 24000"
    by (auto simp: reference_def bind_k_def max_reference_chars_def split: option.splits if_splits sum.splits)
  moreover have "inside (butlast (sk_path k)) target" if "folder = references_folder k"
    using i that by (auto simp: references_folder_def dest: inside_append)
  ultimately show ?thesis by blast
qed

section \<open>Runs\<close>

text \<open>A folder without links but those listed: three skills, one of them broken, and a file outside.\<close>

definition lines :: "string list \<Rightarrow> string" where
  "lines ls = join newline ls"

definition skill_text :: "string \<Rightarrow> string list \<Rightarrow> string" where
  "skill_text name extra = lines ([''---'', ''name: '' @ name, ''description: about '' @ name] @ extra @ [''---'', ''do '' @ name])"

definition disk :: "(string \<times> string) list \<Rightarrow> (fpath \<times> fpath) list \<Rightarrow> skill_host" where
  "disk texts links =
     \<lparr>sh_files = ([''etc'', ''key''], Decodes ''secret'') #
        map (\<lambda>(d, t). ([''sk'', d, ''SKILL.md''], if t = [] then Undecodable [] else Decodes t)) texts,
      sh_folders = [[''sk''], [''etc'']] @ map (\<lambda>(d, t). [''sk'', d]) texts,
      sh_names = (\<lambda>p. []), sh_found = (\<lambda>p. map (\<lambda>(d, t). [''sk'', d, ''SKILL.md'']) texts),
      sh_resolve = (\<lambda>p. Some (case find (\<lambda>(a, b). inside a p) links of None \<Rightarrow> lexical p
        | Some (a, b) \<Rightarrow> lexical (b @ drop (length a) p)))\<rparr>"

definition two_and_a_broken :: skill_host where
  "two_and_a_broken = disk [(''a'', skill_text ''charts'' [''keywords: [chart, plot]'']), (''b'', ''no frontmatter''),
     (''c'', skill_text ''style'' [''always: yes''])] []"

definition printed_as :: "json \<Rightarrow> string" where
  "printed_as v = ''x''"

definition loaded :: manager where
  "loaded = (case discover two_and_a_broken printed_as [''sk''] 3 of Inr m \<Rightarrow> m | _ \<Rightarrow> empty_manager)"

lemma loaded_found: "discover two_and_a_broken printed_as [''sk''] 3 = Inr loaded"
proof -
  have "case discover two_and_a_broken printed_as [''sk''] 3 of Inl e \<Rightarrow> False | Inr m \<Rightarrow> True" by code_simp
  then show ?thesis by (simp add: loaded_def split: sum.splits)
qed

lemma discovery_accounts_for_every_file_witness:
  "list_all (settled two_and_a_broken printed_as loaded) (skill_walk two_and_a_broken [''sk''] 3) \<and>
   map fst (sm_skills loaded) = [''charts'', ''style''] \<and> sm_errors loaded = [No_frontmatter] \<and>
   length (sm_skills loaded) + length (sm_errors loaded) = 3"
proof -
  have "sh_resolve two_and_a_broken [''sk''] = Some [''sk'']" "[''sk''] \<in> set (sh_folders two_and_a_broken)" by code_simp+
  from discovery_accounts_for_every_file [OF loaded_found this]
  have "list_all (settled two_and_a_broken printed_as loaded) (skill_walk two_and_a_broken [''sk''] 3)" by simp
  moreover have "map fst (sm_skills loaded) = [''charts'', ''style''] \<and> sm_errors loaded = [No_frontmatter]" by code_simp
  moreover have "length (sm_skills loaded) + length (sm_errors loaded) = 3" by code_simp
  ultimately show ?thesis by simp
qed

lemma loaded_reached: "manager_step\<^sup>*\<^sup>* empty_manager loaded"
proof -
  have "is_folder two_and_a_broken [''sk''] \<and> sh_resolve two_and_a_broken [''sk''] = Some [''sk'']" by code_simp
  then have "load_all two_and_a_broken printed_as (sort (skill_walk two_and_a_broken [''sk''] 3)) empty_manager = Inr loaded"
    using loaded_found by (simp add: discover_def)
  then show ?thesis using load_all_accounts by blast
qed

lemma prompt_keeps_what_was_asked_witness:
  "let nj = injection_for ''Plot this'' [''charts''] loaded
   in map sk_name (nj_guaranteed nj) = [''style'', ''charts''] \<and>
      list_all (\<lambda>k. contains (skill_block k) (render_skills ''Plot this'' [''charts''] loaded)) (nj_guaranteed nj)"
proof -
  have "map sk_name (nj_guaranteed (injection_for ''Plot this'' [''charts''] loaded)) = [''style'', ''charts'']" by code_simp
  with prompt_keeps_what_was_asked [OF loaded_reached refl, of "''Plot this''" "[''charts'']"] show ?thesis
    by (simp add: Let_def)
qed

text \<open>A skill with a reference, in a folder of its own or behind a link.\<close>

definition with_reference :: "(fpath \<times> fpath) list \<Rightarrow> skill_host" where
  "with_reference links =
     (let h = disk [(''a'', skill_text ''charts'' [])] links
      in h\<lparr>sh_files := ([''sk'', ''a'', ''references'', ''r.md''], Decodes ''read me'') # sh_files h,
           sh_folders := [''sk'', ''a'', ''references''] # sh_folders h\<rparr>)"

definition charts_only :: "(fpath \<times> fpath) list \<Rightarrow> manager" where
  "charts_only links = (case discover (with_reference links) printed_as [''sk''] 3 of Inr m \<Rightarrow> m | _ \<Rightarrow> empty_manager)"

lemma reference_stays_in_its_folder_witness:
  "reference (with_reference []) (charts_only []) ''charts'' ''../references/r.md'' = Inr ''read me'' \<and>
   (\<exists>(k :: skill) target. inside (butlast (sk_path k)) target \<and> read_source (with_reference []) target = Inr ''read me'')"
proof -
  have r: "reference (with_reference []) (charts_only []) ''charts'' ''../references/r.md'' = Inr ''read me''" by code_simp
  have own: "case enabled_named (charts_only []) ''charts'' of None \<Rightarrow> False
    | Some k \<Rightarrow> sh_resolve (with_reference []) (references_folder k) = Some (references_folder k)" by code_simp
  from reference_stays_in_its_folder [OF r] obtain k folder target where "enabled_named (charts_only []) ''charts'' = Some k"
    "sh_resolve (with_reference []) (references_folder k) = Some folder" "read_source (with_reference []) target = Inr ''read me''"
    and i: "folder = references_folder k \<longrightarrow> inside (butlast (sk_path k)) target" by blast
  then have "folder = references_folder k" using own by simp
  with i have "inside (butlast (sk_path k)) target" by simp
  with r \<open>read_source (with_reference []) target = Inr ''read me''\<close> show ?thesis by blast
qed

section \<open>Where the promises fail\<close>

text \<open>A references folder that is a link leads out of the skills folder: discovery refuses such a link, reading a reference does not.\<close>

lemma linked_references_escape:
  "let links = [([''sk'', ''a'', ''references''], [''etc''])]
   in reference (with_reference links) (charts_only links) ''charts'' ''key'' = Inr ''secret''"
  by code_simp

text \<open>A skill file that is not UTF-8, or whose keywords are \<open>true\<close>, stops discovery with an exception of another class, though a broken
  file is to be recorded and skipped.\<close>

lemma broken_file_stops_discovery:
  "discover (disk [(''a'', skill_text ''charts'' [''keywords: true''])] []) printed_as [''sk''] 3 = Inl TypeError \<and>
   discover (disk [(''a'', []), (''b'', skill_text ''charts'' [])] []) printed_as [''sk''] 3 = Inl ValueError"
  by code_simp

text \<open>An empty keyword in a list is kept, and every goal contains it; and only \<open>false\<close>, \<open>no\<close> and \<open>off\<close> switch a skill off.\<close>

definition first_skill :: "string list \<Rightarrow> skill option" where
  "first_skill extra = (case from_file (disk [(''a'', skill_text ''charts'' extra)] []) printed_as [''sk'', ''a'', ''SKILL.md''] of
     Inr k \<Rightarrow> Some k | _ \<Rightarrow> None)"

lemma empty_keyword_matches_all:
  "map_option (skill_matches ''anything'') (first_skill [''keywords: ['' @ [CHR 0x22, CHR 0x22] @ '', chart]'']) = Some True"
  by code_simp

lemma zero_is_enabled: "map_option sk_enabled (first_skill [''enabled: 0'']) = Some True \<and> map_option sk_enabled (first_skill [''enabled: off'']) = Some False"
  by code_simp

end
