(* ===== verification/A2a_Server.thy ===== *)
theory A2a_Server
  imports Json
begin

text \<open>
  The agent-to-agent task server (\<open>core/a2a/server.py\<close>). Its state is the tasks in memory, the rows of the database, the push
  delivery ledger and the coroutines that are suspended at an \<open>await\<close>, each with the task it works on; a definition
  is what runs between two awaits. The task handler, the webhook's answers, fresh identifiers and the clock are
  arguments; \<open>sha\<close> is the hash, \<open>str_of\<close> prints a value that is no text. Cancelling a job ends it at its await, as asyncio
  does for a handler that does not suppress the cancellation.
\<close>

section \<open>Tasks\<close>

datatype task_state = Submitted | Working | Completed | Failed | Canceled

definition state_text :: "task_state \<Rightarrow> string" where
  "state_text s = (case s of Submitted \<Rightarrow> ''submitted'' | Working \<Rightarrow> ''working'' | Completed \<Rightarrow> ''completed''
     | Failed \<Rightarrow> ''failed'' | Canceled \<Rightarrow> ''canceled'')"

definition terminal :: "task_state \<Rightarrow> bool" where
  "terminal s = (s \<in> {Completed, Failed, Canceled})"

text \<open>An artifact is its identifier and its text. Nothing writes the history of a task.\<close>

record a2a_task =
  tk_id :: string
  tk_context :: string
  tk_text :: string
  tk_state :: task_state
  tk_artifacts :: "(string \<times> string) list"
  tk_url :: json
  tk_token :: json
  tk_updated :: string

definition artifact_json :: "string \<times> string \<Rightarrow> json" where
  "artifact_json a = JObj [(''artifactId'', JStr (fst a)),
     (''parts'', JList [JObj [(''kind'', JStr ''text''), (''text'', JStr (snd a))]])]"

definition wire :: "a2a_task \<Rightarrow> obj" where
  "wire t = [(''kind'', JStr ''task''), (''id'', JStr (tk_id t)), (''contextId'', JStr (tk_context t)),
     (''status'', JObj [(''state'', JStr (state_text (tk_state t))), (''timestamp'', JStr (tk_updated t))])] @
     (if tk_artifacts t = [] then [] else [(''artifacts'', JList (map artifact_json (tk_artifacts t)))])"

section \<open>The server\<close>

text \<open>Which coroutine runs the handler: a background job, a \<open>message/send\<close> or a stream.\<close>

datatype origin = In_job | In_send | In_stream

datatype notice = Called | Posting string nat

text \<open>Where a coroutine is suspended: a job before its delay is over, a stream between two updates, the handler, or a notification,
  after which a job starts or not.\<close>

datatype phase = Job_waiting | Streaming | Handling origin | Notifying notice bool

record a2a_config =
  ac_tokens :: "string list"
  ac_keys :: "string list"
  ac_callback :: bool
  ac_http :: bool
  ac_handler :: bool
  ac_attempts :: nat

record a2a =
  sv_tasks :: "(string \<times> a2a_task) list"
  sv_saved :: "(string \<times> a2a_task) list"
  sv_ledger :: "(string \<times> bool \<times> nat) list"
  sv_active :: "(string \<times> phase) list"

definition empty_server :: a2a where
  "empty_server = \<lparr>sv_tasks = [], sv_saved = [], sv_ledger = [], sv_active = []\<rparr>"

text \<open>\<open>DurableTaskStore.save\<close>; the task in memory is the object that was changed.\<close>

definition save_task :: "a2a_task \<Rightarrow> a2a \<Rightarrow> a2a" where
  "save_task t sv = sv\<lparr>sv_tasks := dput (tk_id t) t (sv_tasks sv), sv_saved := dput (tk_id t) t (sv_saved sv)\<rparr>"

definition suspend :: "string \<Rightarrow> phase \<Rightarrow> a2a \<Rightarrow> a2a" where
  "suspend i ph sv = sv\<lparr>sv_active := sv_active sv @ [(i, ph)]\<rparr>"

definition resumed :: "string \<Rightarrow> phase \<Rightarrow> a2a \<Rightarrow> a2a" where
  "resumed i ph sv = sv\<lparr>sv_active := remove1 (i, ph) (sv_active sv)\<rparr>"

section \<open>Notifications\<close>

definition event_id :: "(string \<Rightarrow> string) \<Rightarrow> a2a_task \<Rightarrow> string" where
  "event_id sha t = sha (tk_id t @ '':'' @ state_text (tk_state t) @ '':'' @ tk_updated t)"

definition delivery :: "a2a \<Rightarrow> string \<Rightarrow> bool \<times> nat" where
  "delivery sv e = dget_or (sv_ledger sv) e (False, 0)"

definition record_delivery :: "string \<Rightarrow> bool \<Rightarrow> nat \<Rightarrow> a2a \<Rightarrow> a2a" where
  "record_delivery e delivered n sv = sv\<lparr>sv_ledger := dput e (delivered, n) (sv_ledger sv)\<rparr>"

text \<open>\<open>_notify\<close> up to its first await: what it waits for, if anything.\<close>

definition notice_for :: "a2a_config \<Rightarrow> (string \<Rightarrow> string) \<Rightarrow> a2a \<Rightarrow> a2a_task \<Rightarrow> notice option" where
  "notice_for cfg sha sv t =
     (if \<not> truthy (tk_url t) then None
      else if ac_callback cfg then Some Called
      else if \<not> ac_http cfg then None
      else case delivery sv (event_id sha t) of
          (True, n) \<Rightarrow> None
        | (False, n) \<Rightarrow> if n + 1 \<le> ac_attempts cfg then Some (Posting (event_id sha t) (n + 1)) else None)"

definition go_on :: "string \<Rightarrow> bool \<Rightarrow> a2a \<Rightarrow> a2a" where
  "go_on i job sv = (if job then suspend i Job_waiting sv else sv)"

definition announce :: "a2a_config \<Rightarrow> (string \<Rightarrow> string) \<Rightarrow> bool \<Rightarrow> a2a_task \<Rightarrow> a2a \<Rightarrow> a2a" where
  "announce cfg sha job t sv =
     (case notice_for cfg sha sv t of
        None \<Rightarrow> go_on (tk_id t) job sv
      | Some n \<Rightarrow> suspend (tk_id t) (Notifying n job) sv)"

text \<open>One round of the delivery loop: the webhook has answered, or failed.\<close>

definition post_answered :: "a2a_config \<Rightarrow> string \<Rightarrow> string \<Rightarrow> nat \<Rightarrow> bool \<Rightarrow> bool \<Rightarrow> a2a \<Rightarrow> a2a" where
  "post_answered cfg i e n job delivered sv =
     (let sv' = record_delivery e delivered n (resumed i (Notifying (Posting e n) job) sv)
      in if \<not> delivered \<and> n < ac_attempts cfg then suspend i (Notifying (Posting e (n + 1)) job) sv' else go_on i job sv')"

section \<open>Running a task\<close>

text \<open>\<open>_complete\<close> after the handler: \<open>Inr\<close> its result, \<open>Inl\<close> the text of its exception. The state is not looked at again.\<close>

definition settled_as :: "string + string \<Rightarrow> string \<Rightarrow> a2a_task \<Rightarrow> a2a_task" where
  "settled_as outcome now t =
     (case outcome of
        Inr r \<Rightarrow> t\<lparr>tk_state := Completed, tk_updated := now, tk_artifacts := [(''result-'' @ tk_id t, r)]\<rparr>
      | Inl e \<Rightarrow> t\<lparr>tk_state := Failed, tk_updated := now, tk_artifacts := [(''error-'' @ tk_id t, e)]\<rparr>)"

definition settle_task :: "a2a_config \<Rightarrow> (string \<Rightarrow> string) \<Rightarrow> string + string \<Rightarrow> string \<Rightarrow> a2a_task \<Rightarrow> a2a \<Rightarrow> a2a" where
  "settle_task cfg sha outcome now t sv =
     (let t' = settled_as outcome now t in announce cfg sha False t' (save_task t' sv))"

definition run_task :: "a2a_config \<Rightarrow> (string \<Rightarrow> string) \<Rightarrow> origin \<Rightarrow> string \<Rightarrow> a2a_task \<Rightarrow> a2a \<Rightarrow> a2a" where
  "run_task cfg sha from now t sv =
     (if ac_handler cfg then suspend (tk_id t) (Handling from) sv
      else settle_task cfg sha (Inr (''done: '' @ tk_text t)) now t sv)"

definition is_slow :: "string \<Rightarrow> bool" where
  "is_slow s = (contains ''async'' (lower s) \<or> contains ''slow'' (lower s))"

definition set_working :: "string \<Rightarrow> a2a_task \<Rightarrow> a2a_task" where
  "set_working now t = t\<lparr>tk_state := Working, tk_updated := now\<rparr>"

text \<open>\<open>send\<close> with the task \<open>_new_task\<close> has made.\<close>

definition send_task :: "a2a_config \<Rightarrow> (string \<Rightarrow> string) \<Rightarrow> string \<Rightarrow> a2a_task \<Rightarrow> a2a \<Rightarrow> a2a" where
  "send_task cfg sha now t sv =
     (if is_slow (tk_text t) then let t' = set_working now t in announce cfg sha True t' (save_task t' (save_task t sv))
      else run_task cfg sha In_send now t (save_task t sv))"

definition open_stream :: "string \<Rightarrow> a2a_task \<Rightarrow> a2a \<Rightarrow> a2a" where
  "open_stream now t sv = suspend (tk_id t) Streaming (save_task (set_working now t) (save_task t sv))"

text \<open>A stream after its first update, and a job after its delay: both look whether the task is still open.\<close>

definition wake :: "a2a_config \<Rightarrow> (string \<Rightarrow> string) \<Rightarrow> phase \<Rightarrow> origin \<Rightarrow> string \<Rightarrow> a2a_task \<Rightarrow> a2a \<Rightarrow> a2a" where
  "wake cfg sha ph from now t sv =
     (let sv' = resumed (tk_id t) ph sv
      in if terminal (tk_state t) then sv' else run_task cfg sha from now t sv')"

definition cancel_job :: "string \<Rightarrow> a2a \<Rightarrow> a2a" where
  "cancel_job i sv = sv\<lparr>sv_active := filter (\<lambda>a. a \<noteq> (i, Job_waiting) \<and> a \<noteq> (i, Handling In_job)) (sv_active sv)\<rparr>"

definition cancel_task :: "a2a_config \<Rightarrow> (string \<Rightarrow> string) \<Rightarrow> string \<Rightarrow> string \<Rightarrow> a2a \<Rightarrow> (obj \<times> a2a) result" where
  "cancel_task cfg sha now i sv =
     (case dget (sv_tasks sv) i of
        None \<Rightarrow> Inl ValueError
      | Some t \<Rightarrow>
          if terminal (tk_state t) then Inr (wire t, sv)
          else let t' = t\<lparr>tk_state := Canceled, tk_updated := now\<rparr>
               in Inr (wire t', announce cfg sha False t' (cancel_job i (save_task t' sv))))"

definition get_task :: "string \<Rightarrow> a2a \<Rightarrow> obj result" where
  "get_task i sv = (case dget (sv_tasks sv) i of None \<Rightarrow> Inl ValueError | Some t \<Rightarrow> Inr (wire t))"

text \<open>The process starts again: the tasks are those of the database, and every open one gets a job.\<close>

definition recovered :: "string \<Rightarrow> a2a_task \<Rightarrow> a2a_task" where
  "recovered now t = (if terminal (tk_state t) then t else set_working now t)"

definition restart :: "string \<Rightarrow> a2a \<Rightarrow> a2a" where
  "restart now sv =
     (let rows = map (\<lambda>(i, t). (i, recovered now t)) (sv_saved sv)
      in sv\<lparr>sv_tasks := rows, sv_saved := rows,
            sv_active := map (\<lambda>(i, t). (i, Job_waiting)) (filter (\<lambda>(i, t). \<not> terminal (tk_state t)) rows)\<rparr>)"

section \<open>Requests\<close>

text \<open>\<open>for x in v\<close>\<close>

definition each_of :: "json \<Rightarrow> json list result" where
  "each_of v = (case v of JList xs \<Rightarrow> Inr xs | JStr s \<Rightarrow> Inr (map (\<lambda>c. JStr [c]) s) | JObj d \<Rightarrow> Inr (map (JStr \<circ> fst) d)
     | _ \<Rightarrow> Inl TypeError)"

definition part_text :: "(json \<Rightarrow> string) \<Rightarrow> obj \<Rightarrow> string list" where
  "part_text str_of part =
     (if py_eq (jget part ''kind'') (JStr ''text'') then [printed str_of (dget_or part ''text'' (JStr []))] else [])"

definition push_token :: "obj \<Rightarrow> json result" where
  "push_token push =
     (if truthy (jget push ''token'') then Inr (jget push ''token'')
      else bind_r (as_record (dget_or push ''authentication'' (JObj []))) (\<lambda>a. Inr (jget a ''credentials'')))"

text \<open>\<open>_new_task\<close>; \<open>fresh\<close> are the two identifiers it may draw.\<close>

definition new_task :: "(json \<Rightarrow> string) \<Rightarrow> string \<times> string \<Rightarrow> string \<Rightarrow> json \<Rightarrow> a2a_task result" where
  "new_task str_of fresh now params =
     bind_r (as_record params) (\<lambda>p.
     bind_r (as_record (dget_or p ''message'' (JObj []))) (\<lambda>message.
     bind_r (bind_r (each_of (dget_or message ''parts'' (JList []))) (map_r as_record)) (\<lambda>parts.
     bind_r (as_record (dget_or p ''configuration'' (JObj []))) (\<lambda>config.
     bind_r (as_record (dget_or config ''pushNotificationConfig'' (JObj []))) (\<lambda>push.
     bind_r (push_token push) (\<lambda>token.
       Inr \<lparr>tk_id = fst fresh, tk_context = printed str_of (or_else (jget message ''contextId'') (JStr (snd fresh))),
            tk_text = join '' '' (concat (map (part_text str_of) parts)), tk_state = Submitted, tk_artifacts = [],
            tk_url = jget push ''url'', tk_token = token, tk_updated = now\<rparr>))))))"

definition bearer_of :: "string \<Rightarrow> string" where
  "bearer_of authorization = (if startswith (lower authorization) ''bearer '' then drop 7 authorization else [])"

definition rpc_allowed :: "a2a_config \<Rightarrow> string \<Rightarrow> string \<Rightarrow> bool" where
  "rpc_allowed cfg authorization api_key =
     (if ac_tokens cfg = [] \<and> ac_keys cfg = [] then True
      else (bearer_of authorization \<noteq> [] \<and> bearer_of authorization \<in> set (ac_tokens cfg)) \<or>
           (api_key \<noteq> [] \<and> api_key \<in> set (ac_keys cfg)))"

text \<open>What a request comes to in its first segment: an answer, an error reply with its code and status, an exception, or a task that
  is being worked on.\<close>

datatype rpc_reply = Answer obj | Error_reply int int | Escaped py_error | Accepted string

definition reply_or_missing :: "obj result \<Rightarrow> rpc_reply" where
  "reply_or_missing r = (case r of Inr w \<Rightarrow> Answer w | Inl ValueError \<Rightarrow> Error_reply (- 32001) 404 | Inl e \<Rightarrow> Escaped e)"

definition named_task :: "(json \<Rightarrow> string) \<Rightarrow> json \<Rightarrow> string result" where
  "named_task str_of params = bind_r (as_record params) (\<lambda>p. Inr (printed str_of (jget p ''id'')))"

definition rpc :: "a2a_config \<Rightarrow> (string \<Rightarrow> string) \<Rightarrow> (json \<Rightarrow> string) \<Rightarrow> string \<times> string \<Rightarrow> string \<Rightarrow>
    string \<times> string \<Rightarrow> json \<Rightarrow> a2a \<Rightarrow> rpc_reply \<times> a2a" where
  "rpc cfg sha str_of fresh now headers request sv =
     (if \<not> rpc_allowed cfg (fst headers) (snd headers) then (Error_reply (- 32003) 401, sv)
      else case as_record request of Inl e \<Rightarrow> (Escaped e, sv)
      | Inr b \<Rightarrow>
          (let method = jget b ''method''; params = dget_or b ''params'' (JObj [])
           in if method = JStr ''message/send'' then
                (case new_task str_of fresh now params of Inl e \<Rightarrow> (Escaped e, sv)
                 | Inr t \<Rightarrow> (Accepted (tk_id t), send_task cfg sha now t sv))
              else if method = JStr ''message/stream'' then
                (case new_task str_of fresh now params of Inl e \<Rightarrow> (Escaped e, sv)
                 | Inr t \<Rightarrow> (Accepted (tk_id t), open_stream now t sv))
              else if method = JStr ''tasks/get'' then
                (reply_or_missing (bind_r (named_task str_of params) (\<lambda>i. get_task i sv)), sv)
              else if method = JStr ''tasks/cancel'' then
                (case bind_r (named_task str_of params) (\<lambda>i. cancel_task cfg sha now i sv) of
                   Inl e \<Rightarrow> (reply_or_missing (Inl e), sv)
                 | Inr (w, sv') \<Rightarrow> (Answer w, sv'))
              else (Error_reply (- 32601) 400, sv)))"

section \<open>Interleaving\<close>

text \<open>
  A request arrives with an identifier not drawn before, or a suspended coroutine goes on. \<open>lossy\<close> admits what loses
  one: a client that leaves its stream, and a push callback that raises.
\<close>

inductive a2a_step :: "a2a_config \<Rightarrow> (string \<Rightarrow> string) \<Rightarrow> bool \<Rightarrow> a2a \<Rightarrow> a2a \<Rightarrow> bool" for cfg sha lossy where
  Request: "fst fresh \<notin> set (dkeys (sv_tasks sv)) \<Longrightarrow> rpc cfg sha str_of fresh now headers request sv = (reply, sv') \<Longrightarrow>
    a2a_step cfg sha lossy sv sv'"
| Stream_goes_on: "(i, Streaming) \<in> set (sv_active sv) \<Longrightarrow> dget (sv_tasks sv) i = Some t \<Longrightarrow>
    a2a_step cfg sha lossy sv (wake cfg sha Streaming In_stream now t sv)"
| Job_wakes: "(i, Job_waiting) \<in> set (sv_active sv) \<Longrightarrow> dget (sv_tasks sv) i = Some t \<Longrightarrow>
    a2a_step cfg sha lossy sv (wake cfg sha Job_waiting In_job now t sv)"
| Handler_returns: "(i, Handling from) \<in> set (sv_active sv) \<Longrightarrow> dget (sv_tasks sv) i = Some t \<Longrightarrow>
    a2a_step cfg sha lossy sv (settle_task cfg sha outcome now t (resumed i (Handling from) sv))"
| Post_answered: "(i, Notifying (Posting e n) job) \<in> set (sv_active sv) \<Longrightarrow>
    a2a_step cfg sha lossy sv (post_answered cfg i e n job delivered sv)"
| Callback_returns: "(i, Notifying Called job) \<in> set (sv_active sv) \<Longrightarrow>
    a2a_step cfg sha lossy sv (go_on i job (resumed i (Notifying Called job) sv))"
| Restarted: "a2a_step cfg sha lossy sv (restart now sv)"
| Lost: "lossy \<Longrightarrow> (i, ph) \<in> set (sv_active sv) \<Longrightarrow> ph \<in> {Streaming, Handling In_stream, Notifying Called job} \<Longrightarrow>
    a2a_step cfg sha lossy sv (resumed i ph sv)"

inductive_cases a2a_stepE: "a2a_step cfg sha lossy sv sv'"

end
