(* ===== verification/A2a_Claims.thy ===== *)
theory A2a_Claims
  imports A2a_Server
begin

text \<open>
  What holds of the task server under every interleaving of its coroutines: what is in the database, who works on
  an open task, that a settled task stays as it is, and where it does not.
\<close>

section \<open>Who works on a task\<close>

definition works :: "phase \<Rightarrow> bool" where
  "works ph = (case ph of Notifying n job \<Rightarrow> job | _ \<Rightarrow> True)"

definition workers :: "string \<Rightarrow> a2a \<Rightarrow> phase list" where
  "workers i sv = map snd (filter (\<lambda>(j, ph). j = i \<and> works ph) (sv_active sv))"

lemma workers_suspend [simp]:
  "workers i (suspend j ph sv) = workers i sv @ (if i = j \<and> works ph then [ph] else [])"
  by (auto simp: workers_def suspend_def)

lemma filter_remove1: "map snd (filter (\<lambda>(j, ph). j = i \<and> p ph) (remove1 (j, x) xs)) =
  (if i = j \<and> p x then remove1 x (map snd (filter (\<lambda>(j, ph). j = i \<and> p ph) xs)) else map snd (filter (\<lambda>(j, ph). j = i \<and> p ph) xs))"
  by (induction xs) auto

lemma workers_resumed [simp]:
  "workers i (resumed j ph sv) = (if i = j \<and> works ph then remove1 ph (workers i sv) else workers i sv)"
  unfolding workers_def resumed_def by (simp add: filter_remove1)

lemma workers_save [simp]: "workers i (save_task t sv) = workers i sv"
  by (simp add: workers_def save_task_def)

lemma workers_record [simp]: "workers i (record_delivery e d n sv) = workers i sv"
  by (simp add: workers_def record_delivery_def)

lemma workers_go_on [simp]: "workers i (go_on j job sv) = workers i sv @ (if i = j \<and> job then [Job_waiting] else [])"
  by (simp add: go_on_def works_def)

lemma workers_cancel [simp]:
  "workers i (cancel_job j sv) = (if i = j then filter (\<lambda>ph. ph \<noteq> Job_waiting \<and> ph \<noteq> Handling In_job) (workers i sv) else workers i sv)"
  unfolding workers_def cancel_job_def by (induction "sv_active sv" arbitrary: sv) (auto simp: filter_map comp_def intro!: arg_cong [where f = "map snd"] filter_cong)

text \<open>A notification is waited for by its job or by nobody.\<close>

lemma workers_announce:
  "workers i (announce cfg sha job t sv) = workers i sv @ (if i = tk_id t \<and> job
     then [case notice_for cfg sha sv t of None \<Rightarrow> Job_waiting | Some n \<Rightarrow> Notifying n True] else [])"
  by (auto simp: announce_def works_def split: option.splits)

lemma worker_mem: "works ph \<Longrightarrow> (i, ph) \<in> set (sv_active sv) \<Longrightarrow> ph \<in> set (workers i sv)"
  by (force simp: workers_def)


lemma worker_active: "ph \<in> set (workers i sv) \<Longrightarrow> (i, ph) \<in> set (sv_active sv)"
  by (auto simp: workers_def)

lemma tasks_kept [simp]:
  "sv_tasks (suspend j ph sv) = sv_tasks sv" "sv_saved (suspend j ph sv) = sv_saved sv"
  "sv_tasks (resumed j ph sv) = sv_tasks sv" "sv_saved (resumed j ph sv) = sv_saved sv"
  "sv_tasks (record_delivery e d n sv) = sv_tasks sv" "sv_saved (record_delivery e d n sv) = sv_saved sv"
  "sv_tasks (go_on j job sv) = sv_tasks sv" "sv_saved (go_on j job sv) = sv_saved sv"
  "sv_tasks (cancel_job j sv) = sv_tasks sv" "sv_saved (cancel_job j sv) = sv_saved sv"
  "sv_tasks (announce cfg sha job t sv) = sv_tasks sv" "sv_saved (announce cfg sha job t sv) = sv_saved sv"
  by (simp_all add: suspend_def resumed_def record_delivery_def go_on_def cancel_job_def announce_def split: option.splits)

lemma tasks_save [simp]:
  "sv_tasks (save_task t sv) = dput (tk_id t) t (sv_tasks sv)" "sv_saved (save_task t sv) = dput (tk_id t) t (sv_saved sv)"
  by (simp_all add: save_task_def)

definition owners :: "a2a \<Rightarrow> string set" where
  "owners sv = fst ` set (sv_active sv)"

lemma owners_simps [simp]:
  "owners (suspend j ph sv) = insert j (owners sv)" "owners (record_delivery e d n sv) = owners sv"
  "owners (save_task t sv) = owners sv"
  by (auto simp: owners_def suspend_def record_delivery_def save_task_def)

lemma owners_resumed: "owners (resumed j ph sv) \<subseteq> owners sv"
  by (simp add: owners_def resumed_def image_mono set_remove1_subset)

lemma owners_cancel: "owners (cancel_job j sv) \<subseteq> owners sv"
  by (auto simp: owners_def cancel_job_def)

lemma owners_go_on: "owners (go_on j job sv) \<subseteq> insert j (owners sv)"
  by (simp add: go_on_def subset_insertI)

lemma owners_announce: "owners (announce cfg sha job t sv) \<subseteq> insert (tk_id t) (owners sv)"
  using owners_go_on by (auto simp: announce_def split: option.splits)

section \<open>The invariant\<close>

text \<open>What the workers of a task are, by its state: one at most, none on what has completed or failed, no job on what was cancelled,
  and some on an open task unless one was lost.\<close>

definition fits :: "bool \<Rightarrow> task_state \<Rightarrow> phase list \<Rightarrow> bool" where
  "fits lossy st ws = (length ws \<le> 1 \<and> (st \<in> {Completed, Failed} \<longrightarrow> ws = []) \<and>
     (st = Canceled \<longrightarrow> Handling In_job \<notin> set ws) \<and> (\<not> terminal st \<longrightarrow> lossy \<or> ws \<noteq> []))"

definition a2a_ok :: "bool \<Rightarrow> a2a \<Rightarrow> bool" where
  "a2a_ok lossy sv =
     (sv_saved sv = sv_tasks sv \<and> distinct (dkeys (sv_tasks sv)) \<and> owners sv \<subseteq> set (dkeys (sv_tasks sv)) \<and>
      (\<forall>i t. dget (sv_tasks sv) i = Some t \<longrightarrow> tk_id t = i \<and> fits lossy (tk_state t) (workers i sv)))"

text \<open>A task that is settled for good: its state is terminal and no handler runs for it.\<close>

definition at_rest :: "string \<Rightarrow> a2a_task \<Rightarrow> a2a \<Rightarrow> bool" where
  "at_rest i t sv = (dget (sv_tasks sv) i = Some t \<and> terminal (tk_state t) \<and> (\<forall>from. Handling from \<notin> set (workers i sv)))"

text \<open>A step that works on one task and leaves it as \<open>t\<close>.\<close>

definition touches :: "bool \<Rightarrow> string \<Rightarrow> a2a_task \<Rightarrow> a2a \<Rightarrow> a2a \<Rightarrow> bool" where
  "touches lossy i t sv sv' =
     (sv_tasks sv' = dput i t (sv_tasks sv) \<and> sv_saved sv' = dput i t (sv_saved sv) \<and>
      (\<forall>j. j \<noteq> i \<longrightarrow> workers j sv' = workers j sv) \<and> owners sv' \<subseteq> insert i (owners sv) \<and>
      tk_id t = i \<and> fits lossy (tk_state t) (workers i sv') \<and> (\<forall>t0. at_rest i t0 sv \<longrightarrow> at_rest i t0 sv'))"

lemma a2a_okD:
  assumes "a2a_ok lossy sv"
  shows "sv_saved sv = sv_tasks sv" and "distinct (dkeys (sv_tasks sv))" and "owners sv \<subseteq> set (dkeys (sv_tasks sv))"
    and "dget (sv_tasks sv) i = Some t \<Longrightarrow> tk_id t = i" and "dget (sv_tasks sv) i = Some t \<Longrightarrow> fits lossy (tk_state t) (workers i sv)"
  using assms unfolding a2a_ok_def by blast+

lemma a2a_okI:
  assumes "sv_saved sv = sv_tasks sv" and "distinct (dkeys (sv_tasks sv))" and "owners sv \<subseteq> set (dkeys (sv_tasks sv))"
    and "\<And>i t. dget (sv_tasks sv) i = Some t \<Longrightarrow> tk_id t = i \<and> fits lossy (tk_state t) (workers i sv)"
  shows "a2a_ok lossy sv"
  using assms unfolding a2a_ok_def by blast

lemma touches_ok:
  assumes "a2a_ok lossy sv" and "touches lossy i t sv sv'"
  shows "a2a_ok lossy sv'"
proof (rule a2a_okI)
  have d: "sv_tasks sv' = dput i t (sv_tasks sv)" "sv_saved sv' = dput i t (sv_saved sv)"
    and w: "\<And>j. j \<noteq> i \<Longrightarrow> workers j sv' = workers j sv" and o: "owners sv' \<subseteq> insert i (owners sv)"
    and t: "tk_id t = i" "fits lossy (tk_state t) (workers i sv')"
    using assms(2) unfolding touches_def by blast+
  show "sv_saved sv' = sv_tasks sv'" unfolding d a2a_okD(1) [OF assms(1)] by (rule refl)
  show "distinct (dkeys (sv_tasks sv'))" unfolding d by (rule distinct_dkeys_dput [OF a2a_okD(2) [OF assms(1)]])
  show "owners sv' \<subseteq> set (dkeys (sv_tasks sv'))" using o a2a_okD(3) [OF assms(1)] unfolding d dkeys_dput by blast
  fix j u
  assume u: "dget (sv_tasks sv') j = Some u"
  show "tk_id u = j \<and> fits lossy (tk_state u) (workers j sv')"
  proof (cases "j = i")
    case True
    with u t d show ?thesis by simp
  next
    case False
    with u have "dget (sv_tasks sv) j = Some u" by (simp add: d)
    with a2a_okD(4,5) [OF assms(1)] show ?thesis unfolding w [OF False] by blast
  qed
qed

lemma touches_at_rest: "touches lossy i t sv sv' \<Longrightarrow> at_rest j t0 sv \<Longrightarrow> at_rest j t0 sv'"
  by (cases "j = i") (auto simp: touches_def at_rest_def)

lemma dput_same: "dget d k = Some v \<Longrightarrow> distinct (dkeys d) \<Longrightarrow> dput k v d = d"
  by (induction d) (auto split: if_splits)

lemma ok_task:
  assumes "a2a_ok lossy sv" and "dget (sv_tasks sv) i = Some t"
  shows "tk_id t = i \<and> dput i t (sv_tasks sv) = sv_tasks sv \<and> dput i t (sv_saved sv) = sv_saved sv \<and> fits lossy (tk_state t) (workers i sv)"
  using assms dput_same [OF assms(2)] by (simp add: a2a_ok_def)

lemma ok_worker:
  assumes "a2a_ok lossy sv" and "dget (sv_tasks sv) i = Some t" and "(i, ph) \<in> set (sv_active sv)" and "works ph"
  shows "workers i sv = [ph] \<and> tk_state t \<notin> {Completed, Failed}"
proof -
  have "ph \<in> set (workers i sv)" "fits lossy (tk_state t) (workers i sv)"
    using worker_mem [OF assms(4,3)] ok_task [OF assms(1,2)] by auto
  then show ?thesis by (cases "workers i sv") (auto simp: fits_def)
qed

lemma fresh_idle:
  assumes "a2a_ok lossy sv" and "i \<notin> set (dkeys (sv_tasks sv))"
  shows "workers i sv = []"
proof -
  have "i \<notin> owners sv" using assms by (auto simp: a2a_ok_def)
  then show ?thesis by (force simp: workers_def owners_def filter_empty_conv)
qed

section \<open>Every step keeps it\<close>

lemma settled_as_simps [simp]:
  "tk_id (settled_as outcome now t) = tk_id t" "terminal (tk_state (settled_as outcome now t))"
  "tk_state (settled_as outcome now t) \<in> {Completed, Failed}"
  by (auto simp: settled_as_def terminal_def split: sum.splits)

lemma fits_settled [simp]: "fits lossy (tk_state (settled_as outcome now t)) []"
  by (simp add: fits_def)

lemma settle_touches:
  assumes "tk_id t = i" and "\<And>j. j \<noteq> i \<Longrightarrow> workers j sv1 = workers j sv" and "workers i sv1 = []" and "owners sv1 \<subseteq> insert i (owners sv)"
    and "sv_tasks sv1 = sv_tasks sv \<or> sv_tasks sv1 = dput i t (sv_tasks sv)" and "sv_saved sv1 = sv_saved sv \<or> sv_saved sv1 = dput i t (sv_saved sv)"
    and "\<And>t0. \<not> at_rest i t0 sv"
  shows "touches lossy i (settled_as outcome now t) sv (settle_task cfg sha outcome now t sv1)"
  using assms(5,6) owners_announce [of cfg sha False "settled_as outcome now t" "save_task (settled_as outcome now t) sv1"] assms(1-4,7)
  by (auto simp: touches_def settle_task_def Let_def workers_announce split: if_splits)

lemma dput_dput [simp]: "dput k v (dput k w d) = dput k v d"
  by (induction d) auto

lemma run_touches:
  assumes "tk_id t = i" and "\<not> terminal (tk_state t)" and "\<And>j. j \<noteq> i \<Longrightarrow> workers j sv1 = workers j sv" and "workers i sv1 = []"
    and "owners sv1 \<subseteq> insert i (owners sv)" and "sv_tasks sv1 = dput i t (sv_tasks sv)" and "sv_saved sv1 = dput i t (sv_saved sv)"
    and "\<And>t0. \<not> at_rest i t0 sv"
  shows "\<exists>t'. touches lossy i t' sv (run_task cfg sha from now t sv1)"
proof (cases "ac_handler cfg")
  case True
  have "touches lossy i t sv (suspend i (Handling from) sv1)"
    using assms by (auto simp: touches_def fits_def works_def terminal_def)
  then show ?thesis using True assms(1) by (auto simp: run_task_def)
next
  case False
  have "touches lossy i (settled_as (Inr (''done: '' @ tk_text t)) now t) sv (settle_task cfg sha (Inr (''done: '' @ tk_text t)) now t sv1)"
    by (rule settle_touches) (use assms in auto)
  then show ?thesis using False by (auto simp: run_task_def)
qed

lemma open_no_rest: "dget (sv_tasks sv) i = Some t \<Longrightarrow> \<not> terminal (tk_state t) \<Longrightarrow> \<not> at_rest i t0 sv"
  by (auto simp: at_rest_def)

lemma new_no_rest: "i \<notin> set (dkeys (sv_tasks sv)) \<Longrightarrow> \<not> at_rest i t0 sv"
  using dget_Some_key [of "sv_tasks sv" i t0] unfolding at_rest_def by blast

lemma wake_touches:
  assumes "a2a_ok lossy sv" and "dget (sv_tasks sv) i = Some t" and "(i, ph) \<in> set (sv_active sv)" and "works ph"
    and "\<And>from. ph \<noteq> Handling from"
  shows "\<exists>t'. touches lossy i t' sv (wake cfg sha ph from now t sv)"
proof -
  note t = ok_task [OF assms(1,2)] and w = ok_worker [OF assms(1-4)]
  show ?thesis
  proof (cases "terminal (tk_state t)")
    case True
    then have "touches lossy i t sv (resumed i ph sv)"
      using t w assms(4) owners_resumed [of i ph sv] by (auto simp: touches_def fits_def at_rest_def)
    then show ?thesis using True t by (auto simp: wake_def)
  next
    case False
    have "\<exists>t'. touches lossy i t' sv (run_task cfg sha from now t (resumed i ph sv))"
    proof (rule run_touches)
      show "owners (resumed i ph sv) \<subseteq> insert i (owners sv)" using owners_resumed by blast
    qed (use t w False assms(4) open_no_rest [OF assms(2) False] in auto)
    then show ?thesis using False t by (simp add: wake_def)
  qed
qed

lemma new_task_Inr: "new_task str_of fresh now params = Inr t \<Longrightarrow> tk_id t = fst fresh \<and> tk_state t = Submitted"
  by (auto simp: new_task_def bind_r_Inr)

lemma set_working_simps [simp]: "tk_id (set_working now t) = tk_id t" "tk_state (set_working now t) = Working"
  by (simp_all add: set_working_def)

lemma send_touches:
  assumes "a2a_ok lossy sv" and "tk_id t = i" and "i \<notin> set (dkeys (sv_tasks sv))" and "tk_state t = Submitted"
  shows "\<exists>t'. touches lossy i t' sv (send_task cfg sha now t sv)"
proof (cases "is_slow (tk_text t)")
  case True
  have "touches lossy i (set_working now t) sv (send_task cfg sha now t sv)"
    using True assms(2) new_no_rest [OF assms(3)] fresh_idle [OF assms(1,3)]
      owners_announce [of cfg sha True "set_working now t" "save_task (set_working now t) (save_task t sv)"]
    by (auto simp: touches_def send_task_def Let_def workers_announce fits_def terminal_def)
  then show ?thesis by blast
next
  case False
  have "\<exists>t'. touches lossy i t' sv (run_task cfg sha In_send now t (save_task t sv))"
    by (rule run_touches) (use assms fresh_idle [OF assms(1,3)] new_no_rest [OF assms(3)] in \<open>auto simp: terminal_def\<close>)
  then show ?thesis using False by (simp add: send_task_def)
qed

lemma stream_touches:
  assumes "a2a_ok lossy sv" and "tk_id t = i" and "i \<notin> set (dkeys (sv_tasks sv))"
  shows "touches lossy i (set_working now t) sv (open_stream now t sv)"
  using assms(2) new_no_rest [OF assms(3)] fresh_idle [OF assms(1,3)]
  by (auto simp: touches_def open_stream_def fits_def terminal_def works_def)

lemma cancel_touches:
  assumes "a2a_ok lossy sv" and "cancel_task cfg sha now i sv = Inr (w, sv')"
  shows "sv' = sv \<or> (\<exists>t'. touches lossy i t' sv sv')"
proof -
  from assms(2) obtain t where t: "dget (sv_tasks sv) i = Some t" by (auto simp: cancel_task_def split: option.splits)
  show ?thesis
  proof (cases "terminal (tk_state t)")
    case True
    with assms(2) t show ?thesis by (simp add: cancel_task_def)
  next
    case False
    define t' where "t' = t\<lparr>tk_state := Canceled, tk_updated := now\<rparr>"
    define sv1 where "sv1 = cancel_job i (save_task t' sv)"
    have sv': "sv' = announce cfg sha False t' sv1" using assms(2) t False by (simp add: cancel_task_def t'_def sv1_def Let_def)
    have i: "tk_id t' = i" using ok_task [OF assms(1) t] by (simp add: t'_def)
    have "owners sv' \<subseteq> insert i (owners sv)"
      using owners_announce [of cfg sha False t' sv1] owners_cancel [of i "save_task t' sv"] i unfolding sv' sv1_def by auto
    moreover have "length (workers i sv) \<le> 1" using ok_task [OF assms(1) t] by (simp add: fits_def)
    then have "fits lossy Canceled (workers i sv')"
      unfolding sv' sv1_def by (auto simp: workers_announce fits_def terminal_def intro: order_trans [OF length_filter_le])
    ultimately have "touches lossy i t' sv sv'" using i open_no_rest [OF t False]
      by (simp add: touches_def sv' sv1_def workers_announce t'_def)
    then show ?thesis by blast
  qed
qed

text \<open>A step that leaves every task as it is and replaces one worker by another that is not a handler, or by none where one may be lost.\<close>

lemma passing_touches:
  assumes "a2a_ok lossy sv" and "dget (sv_tasks sv) i = Some t" and "sv_tasks sv' = sv_tasks sv" "sv_saved sv' = sv_saved sv"
    and "\<And>j. j \<noteq> i \<Longrightarrow> workers j sv' = workers j sv" and "owners sv' \<subseteq> insert i (owners sv)"
    and "workers i sv' = workers i sv \<or> tk_state t \<notin> {Completed, Failed} \<and>
      (\<exists>ws. workers i sv' = ws \<and> length ws \<le> 1 \<and> (\<forall>from. Handling from \<notin> set ws) \<and> (lossy \<or> ws \<noteq> []))"
  shows "touches lossy i t sv sv'"
  using ok_task [OF assms(1,2)] assms(3-) by (auto simp: touches_def fits_def at_rest_def)

lemma active_task:
  assumes "a2a_ok lossy sv" and "(i, ph) \<in> set (sv_active sv)"
  shows "\<exists>t. dget (sv_tasks sv) i = Some t"
proof -
  have "i \<in> owners sv" using assms(2) by (force simp: owners_def)
  then have "i \<in> set (dkeys (sv_tasks sv))" using a2a_okD(3) [OF assms(1)] by blast
  then show ?thesis by (metis dget_None_iff not_None_eq)
qed

lemma notified_touches:
  assumes "a2a_ok lossy sv" and "(i, Notifying n job) \<in> set (sv_active sv)" and "dget (sv_tasks sv) i = Some t"
    and "sv_tasks sv' = sv_tasks sv" "sv_saved sv' = sv_saved sv" and "owners sv' \<subseteq> insert i (owners sv)"
    and "\<And>j. workers j sv' = workers j (resumed i (Notifying n job) sv) @ (if j = i \<and> job then [ph] else [])"
    and "\<And>from. ph \<noteq> Handling from"
  shows "touches lossy i t sv sv'"
proof (rule passing_touches [OF assms(1,3-5)])
  show "workers j sv' = workers j sv" if "j \<noteq> i" for j using that assms(7) by simp
  show "workers i sv' = workers i sv \<or> tk_state t \<notin> {Completed, Failed} \<and>
      (\<exists>ws. workers i sv' = ws \<and> length ws \<le> 1 \<and> (\<forall>from. Handling from \<notin> set ws) \<and> (lossy \<or> ws \<noteq> []))"
  proof (cases job)
    case True
    then have "works (Notifying n job)" by (simp add: works_def)
    note w = ok_worker [OF assms(1,3,2) this]
    have "Handling k \<noteq> ph" for k using assms(8) [of k] by blast
    with w True assms(7) show ?thesis by (simp add: works_def)
  next
    case False
    with assms(7) show ?thesis by (simp add: works_def)
  qed
qed (rule assms(6))

lemma post_touches:
  assumes "a2a_ok lossy sv" and "(i, Notifying (Posting e n) job) \<in> set (sv_active sv)" and "dget (sv_tasks sv) i = Some t"
  shows "touches lossy i t sv (post_answered cfg i e n job delivered sv)"
proof -
  let ?sv = "post_answered cfg i e n job delivered sv" and ?again = "\<not> delivered \<and> n < ac_attempts cfg"
  let ?ph = "if ?again then Notifying (Posting e (n + 1)) True else Job_waiting"
  have "owners ?sv \<subseteq> insert i (owners sv)"
    using owners_go_on [of i job "record_delivery e delivered n (resumed i (Notifying (Posting e n) job) sv)"]
      owners_resumed [of i "Notifying (Posting e n) job" sv]
    by (auto simp: post_answered_def Let_def)
  moreover have "workers j ?sv = workers j (resumed i (Notifying (Posting e n) job) sv) @ (if j = i \<and> job then [?ph] else [])" for j
    by (auto simp: post_answered_def Let_def works_def)
  ultimately show ?thesis using notified_touches [OF assms, of ?sv ?ph] by (simp add: post_answered_def Let_def split: if_splits)
qed

lemma callback_touches:
  assumes "a2a_ok lossy sv" and "(i, Notifying Called job) \<in> set (sv_active sv)" and "dget (sv_tasks sv) i = Some t"
  shows "touches lossy i t sv (go_on i job (resumed i (Notifying Called job) sv))"
proof -
  have "owners (go_on i job (resumed i (Notifying Called job) sv)) \<subseteq> insert i (owners sv)"
    using owners_go_on owners_resumed by blast
  then show ?thesis using notified_touches [OF assms, of _ Job_waiting] by simp
qed

lemma lost_touches:
  assumes "a2a_ok True sv" and "(i, ph) \<in> set (sv_active sv)" and "dget (sv_tasks sv) i = Some t"
  shows "touches True i t sv (resumed i ph sv)"
proof (rule passing_touches [OF assms(1,3)])
  show "owners (resumed i ph sv) \<subseteq> insert i (owners sv)" using owners_resumed by blast
  show "workers i (resumed i ph sv) = workers i sv \<or> tk_state t \<notin> {Completed, Failed} \<and>
      (\<exists>ws. workers i (resumed i ph sv) = ws \<and> length ws \<le> 1 \<and> (\<forall>from. Handling from \<notin> set ws) \<and> (True \<or> ws \<noteq> []))"
    using ok_worker [OF assms(1,3,2)] by simp
qed simp_all

lemma returned_touches:
  assumes "a2a_ok lossy sv" and "(i, Handling from) \<in> set (sv_active sv)" and "dget (sv_tasks sv) i = Some t"
  shows "touches lossy i (settled_as outcome now t) sv (settle_task cfg sha outcome now t (resumed i (Handling from) sv))"
proof (rule settle_touches)
  have w: "works (Handling from)" by (simp add: works_def)
  note ok_worker [OF assms(1,3,2) w]
  then show "workers i (resumed i (Handling from) sv) = []" "\<not> at_rest i t0 sv" for t0 using w by (auto simp: at_rest_def)
  show "owners (resumed i (Handling from) sv) \<subseteq> insert i (owners sv)" using owners_resumed by blast
qed (use ok_task [OF assms(1,3)] in simp_all)

lemma request_touches:
  assumes "a2a_ok lossy sv" and "fst fresh \<notin> set (dkeys (sv_tasks sv))"
    and "rpc cfg sha str_of fresh now headers request sv = (reply, sv')"
  shows "sv' = sv \<or> (\<exists>i t. touches lossy i t sv sv')"
proof -
  have send: "\<exists>i t'. touches lossy i t' sv (send_task cfg sha now t sv)" "\<exists>i t'. touches lossy i t' sv (open_stream now t sv)"
    if "new_task str_of fresh now params = Inr t" for params t
    using new_task_Inr [OF that] assms(2) send_touches [OF assms(1)] stream_touches [OF assms(1)] by metis+
  have cancel: "sv1 = sv \<or> (\<exists>i t. touches lossy i t sv sv1)"
    if "bind_r (named_task str_of params) (\<lambda>i. cancel_task cfg sha now i sv) = Inr (w, sv1)" for params w sv1
  proof -
    from that obtain i where "cancel_task cfg sha now i sv = Inr (w, sv1)" by (auto simp: bind_r_Inr)
    from cancel_touches [OF assms(1) this] show ?thesis by blast
  qed
  from assms(3) show ?thesis
    unfolding rpc_def Let_def using send cancel by (fastforce split: if_splits sum.splits)
qed

lemma step_effect:
  assumes "a2a_ok lossy sv" and "a2a_step cfg sha lossy sv sv'"
  shows "sv' = sv \<or> (\<exists>now. sv' = restart now sv) \<or> (\<exists>i t. touches lossy i t sv sv')"
  using assms(2)
proof cases
  case (Request fresh str_of now headers request reply)
  then show ?thesis using request_touches [OF assms(1)] by blast
next
  case (Stream_goes_on i t now)
  moreover have "works Streaming" by (simp add: works_def)
  ultimately show ?thesis using wake_touches [OF assms(1), of i t Streaming] by blast
next
  case (Job_wakes i t now)
  moreover have "works Job_waiting" by (simp add: works_def)
  ultimately show ?thesis using wake_touches [OF assms(1), of i t Job_waiting] by blast
next
  case (Handler_returns i k t outcome now)
  then show ?thesis using returned_touches [OF assms(1)] by blast
next
  case (Post_answered i e n job delivered)
  with active_task [OF assms(1)] obtain t where "dget (sv_tasks sv) i = Some t" by blast
  then show ?thesis using post_touches [OF assms(1) Post_answered(2)] unfolding Post_answered(1) by blast
next
  case (Callback_returns i job)
  with active_task [OF assms(1)] obtain t where "dget (sv_tasks sv) i = Some t" by blast
  then show ?thesis using callback_touches [OF assms(1) Callback_returns(2)] unfolding Callback_returns(1) by blast
next
  case (Lost i ph job)
  then show ?thesis using lost_touches [of sv i ph] active_task [OF assms(1)] assms(1) by (metis (full_types))
qed blast

section \<open>Starting again\<close>

lemma restart_tasks:
  assumes "a2a_ok lossy sv"
  shows "dget (sv_tasks (restart now sv)) i = map_option (recovered now) (dget (sv_tasks sv) i)"
    and "dkeys (sv_tasks (restart now sv)) = dkeys (sv_tasks sv)"
proof -
  have "sv_tasks (restart now sv) = map (\<lambda>(i, t). (i, recovered now t)) (sv_tasks sv)"
    by (simp add: restart_def Let_def a2a_okD(1) [OF assms])
  then show "dget (sv_tasks (restart now sv)) i = map_option (recovered now) (dget (sv_tasks sv) i)"
    and "dkeys (sv_tasks (restart now sv)) = dkeys (sv_tasks sv)"
    by (simp_all only: dget_map_snd) (simp add: comp_def case_prod_beta')
qed

lemma recovered_simps [simp]: "tk_id (recovered now t) = tk_id t" "terminal (tk_state (recovered now t)) = terminal (tk_state t)"
  by (simp_all add: recovered_def terminal_def)

lemma jobs_of_rows:
  assumes "distinct (dkeys rows)" and "dget rows i = Some u"
  shows "map snd (filter (\<lambda>(j, ph). j = i \<and> works ph)
      (map (\<lambda>(i, t). (i, Job_waiting)) (filter (\<lambda>(i, t). \<not> terminal (tk_state t)) rows))) =
    (if terminal (tk_state u) then [] else [Job_waiting])"
  using assms
proof (induction rows)
  case (Cons r rows)
  obtain j t where r: "r = (j, t)" by (cases r)
  have none: "filter (\<lambda>(j, ph). j = i \<and> works ph)
      (map (\<lambda>(i, t). (i, Job_waiting)) (filter (\<lambda>(i, t). \<not> terminal (tk_state t)) rows)) = []"
    if "i \<notin> set (dkeys rows)" using that by (induction rows) auto
  show ?case
  proof (cases "j = i")
    case True
    with Cons.prems r have "u = t" "i \<notin> set (dkeys rows)" by auto
    with True r none show ?thesis by (simp add: works_def)
  next
    case False
    with Cons r show ?thesis by (cases "terminal (tk_state u)") auto
  qed
qed simp

lemma restart_active:
  "sv_active (restart now sv) = map (\<lambda>(i, t). (i, Job_waiting)) (filter (\<lambda>(i, t). \<not> terminal (tk_state t)) (sv_tasks (restart now sv)))"
  by (simp add: restart_def Let_def)

lemma restart_workers:
  assumes "a2a_ok lossy sv" and "dget (sv_tasks sv) i = Some t"
  shows "workers i (restart now sv) = (if terminal (tk_state t) then [] else [Job_waiting])"
proof -
  have "workers i (restart now sv) = map snd (filter (\<lambda>(j, ph). j = i \<and> works ph)
      (map (\<lambda>(i, t). (i, Job_waiting)) (filter (\<lambda>(i, t). \<not> terminal (tk_state t)) (sv_tasks (restart now sv)))))"
    by (simp only: workers_def restart_active)
  also have "\<dots> = (if terminal (tk_state (recovered now t)) then [] else [Job_waiting])"
    using assms a2a_okD(2) [OF assms(1)] by (intro jobs_of_rows) (simp_all add: restart_tasks [OF assms(1)])
  finally show ?thesis by simp
qed

lemma restart_ok:
  assumes "a2a_ok lossy sv"
  shows "a2a_ok lossy (restart now sv)"
proof (rule a2a_okI)
  show "sv_saved (restart now sv) = sv_tasks (restart now sv)" by (simp add: restart_def Let_def)
  show "distinct (dkeys (sv_tasks (restart now sv)))" using a2a_okD(2) [OF assms] by (simp add: restart_tasks(2) [OF assms])
  show "owners (restart now sv) \<subseteq> set (dkeys (sv_tasks (restart now sv)))"
    by (force simp: owners_def restart_def Let_def)
  fix i u
  assume "dget (sv_tasks (restart now sv)) i = Some u"
  then obtain t where t: "dget (sv_tasks sv) i = Some t" "u = recovered now t" by (auto simp: restart_tasks(1) [OF assms])
  then show "tk_id u = i \<and> fits lossy (tk_state u) (workers i (restart now sv))"
    using ok_task [OF assms t(1)] by (auto simp: restart_workers [OF assms t(1)] fits_def recovered_def terminal_def)
qed

lemma empty_server_ok: "a2a_ok lossy empty_server"
  by (simp add: a2a_ok_def empty_server_def owners_def)

interpretation a2a_server: invariant_system "a2a_step cfg sha lossy" "a2a_ok lossy" for cfg sha lossy
  by unfold_locales (metis step_effect restart_ok touches_ok)

lemma step_at_rest:
  assumes "a2a_ok lossy sv" and "at_rest i t sv" and "a2a_step cfg sha lossy sv sv'"
  shows "at_rest i t sv'"
proof -
  have "at_rest i t (restart now sv)" for now
    using assms(2) restart_tasks(1) [OF assms(1)] restart_workers [OF assms(1), of i t] by (simp add: at_rest_def recovered_def)
  then show ?thesis using step_effect [OF assms(1,3)] touches_at_rest assms(2) by blast
qed

section \<open>What is promised\<close>

text \<open>C35: A settled task never changes: once it has completed or failed, or was cancelled while no request was waiting for the handler on
  it, neither its state, its artifacts nor its time stamp change again, in memory or in the database, through any
  interleaving of requests, jobs, notifications and restarts.\<close>

theorem settled_task_never_changes:
  assumes "(a2a_step cfg sha lossy)\<^sup>*\<^sup>* empty_server sv" and "(a2a_step cfg sha lossy)\<^sup>*\<^sup>* sv sv'"
    and "dget (sv_tasks sv) i = Some t" and "terminal (tk_state t)"
    and "tk_state t = Canceled \<longrightarrow> (i, Handling In_send) \<notin> set (sv_active sv) \<and> (i, Handling In_stream) \<notin> set (sv_active sv)"
  shows "dget (sv_tasks sv') i = Some t \<and> dget (sv_saved sv') i = Some t"
proof -
  have ok: "a2a_ok lossy sv" by (rule a2a_server.steps_inv [OF assms(1) empty_server_ok])
  then have f: "fits lossy (tk_state t) (workers i sv)" using assms(3) by (rule a2a_okD(5))
  have "Handling k \<notin> set (workers i sv)" for k
  proof
    assume k: "Handling k \<in> set (workers i sv)"
    then have "tk_state t = Canceled" using f assms(4) by (auto simp: fits_def terminal_def)
    with k f assms(5) worker_active [OF k] show False by (cases k) (auto simp: fits_def)
  qed
  then have "at_rest i t sv" using assms(3,4) by (simp add: at_rest_def)
  then have "at_rest i t sv'"
    using a2a_server.steps_stable [OF assms(2) ok, of "at_rest i t"] step_at_rest by blast
  moreover have "a2a_ok lossy sv'" by (rule a2a_server.steps_inv [OF assms(2) ok])
  ultimately show ?thesis using a2a_okD(1) by (simp add: at_rest_def)
qed

text \<open>C36: A restart loses no task: whatever the server was doing, the database holds the tasks as they are in memory; after a restart
  the settled ones are as they were, and each of the others is working, with its text, and has one job and nobody else on it.\<close>

theorem restart_loses_no_task:
  assumes "(a2a_step cfg sha lossy)\<^sup>*\<^sup>* empty_server sv"
  shows "sv_saved sv = sv_tasks sv \<and> dkeys (sv_tasks (restart now sv)) = dkeys (sv_tasks sv) \<and>
    (\<forall>i t. dget (sv_tasks sv) i = Some t \<longrightarrow>
       (if terminal (tk_state t) then dget (sv_tasks (restart now sv)) i = Some t \<and> workers i (restart now sv) = []
        else dget (sv_tasks (restart now sv)) i = Some (t\<lparr>tk_state := Working, tk_updated := now\<rparr>) \<and>
             workers i (restart now sv) = [Job_waiting]))"
proof -
  have ok: "a2a_ok lossy sv" by (rule a2a_server.steps_inv [OF assms empty_server_ok])
  show ?thesis
    using a2a_okD(1) [OF ok] restart_tasks [OF ok] restart_workers [OF ok] by (simp add: recovered_def set_working_def)
qed










section \<open>Runs\<close>

definition plain :: a2a_config where
  "plain = \<lparr>ac_tokens = [''tok''], ac_keys = [], ac_callback = False, ac_http = True, ac_handler = True, ac_attempts = 2\<rparr>"

definition ask :: "string \<Rightarrow> string \<Rightarrow> json" where
  "ask method said = JObj [(''method'', JStr method), (''params'', JObj [(''id'', JStr ''t''), (''message'',
     JObj [(''parts'', JList [JObj [(''kind'', JStr ''text''), (''text'', JStr said)]])])])]"

definition asked :: "string \<Rightarrow> string \<Rightarrow> string \<Rightarrow> a2a \<Rightarrow> a2a" where
  "asked fresh method said sv =
     snd (rpc plain id (\<lambda>v. []) (fresh, ''c'') fresh (''Bearer tok'', []) (ask method said) sv)"

lemma asked_step:
  assumes "fresh \<notin> set (dkeys (sv_tasks sv))"
  shows "a2a_step plain id lossy sv (asked fresh method said sv)"
proof -
  have "fst (fresh, ''c'') \<notin> set (dkeys (sv_tasks sv))" using assms by simp
  from a2a_step.Request [OF this prod.collapse [symmetric]] show ?thesis unfolding asked_def .
qed

text \<open>A task is sent, the handler is at work on it, and another request cancels it; then the handler returns.\<close>

definition sent :: a2a where
  "sent = asked ''t'' ''message/send'' ''hello'' empty_server"

definition cancelled :: a2a where
  "cancelled = asked ''x'' ''tasks/cancel'' [] sent"

definition returned :: "a2a \<Rightarrow> a2a" where
  "returned sv = (case dget (sv_tasks sv) ''t'' of None \<Rightarrow> sv
     | Some t \<Rightarrow> settle_task plain id (Inr ''hi'') ''y'' t (resumed ''t'' (Handling In_send) sv))"

lemma sent_reached: "(a2a_step plain id lossy)\<^sup>*\<^sup>* empty_server sent"
  unfolding sent_def by (rule r_into_rtranclp, rule asked_step) (simp add: empty_server_def)

lemma sent_task: "\<exists>t. dget (sv_tasks sent) ''t'' = Some t \<and> tk_state t = Submitted"
proof -
  have "case dget (sv_tasks sent) ''t'' of None \<Rightarrow> False | Some t \<Rightarrow> tk_state t = Submitted" by code_simp
  then show ?thesis by (auto split: option.splits)
qed

lemma returned_step:
  assumes "(''t'', Handling In_send) \<in> set (sv_active sv)" and "dget (sv_tasks sv) ''t'' = Some t"
  shows "a2a_step plain id lossy sv (returned sv)"
  using a2a_step.Handler_returns [OF assms] assms(2) by (simp add: returned_def)

lemma handled_reached: "(a2a_step plain id lossy)\<^sup>*\<^sup>* empty_server (returned sent)"
proof -
  have a: "(''t'', Handling In_send) \<in> set (sv_active sent)" by code_simp
  from sent_task obtain t where "dget (sv_tasks sent) ''t'' = Some t" by blast
  from returned_step [OF a this] show ?thesis by (rule rtranclp.rtrancl_into_rtrancl [OF sent_reached])
qed

theorem settled_task_never_changes_witness:
  "\<exists>t. dget (sv_tasks (returned sent)) ''t'' = Some t \<and> tk_artifacts t = [(''result-t'', ''hi'')] \<and>
     dget (sv_tasks (restart ''z'' (returned sent))) ''t'' = Some t"
proof -
  have "case dget (sv_tasks (returned sent)) ''t'' of None \<Rightarrow> False
    | Some t \<Rightarrow> tk_state t = Completed \<and> tk_artifacts t = [(''result-t'', ''hi'')]" by code_simp
  then obtain t where t: "dget (sv_tasks (returned sent)) ''t'' = Some t" "tk_state t = Completed" "tk_artifacts t = [(''result-t'', ''hi'')]"
    by (auto split: option.splits)
  have "(a2a_step plain id False)\<^sup>*\<^sup>* (returned sent) (restart ''z'' (returned sent))"
    by (rule r_into_rtranclp) (rule a2a_step.Restarted)
  from settled_task_never_changes [OF handled_reached this t(1)] t(2)
  have "dget (sv_tasks (restart ''z'' (returned sent))) ''t'' = Some t" by (simp add: terminal_def)
  with t show ?thesis by blast
qed

theorem restart_loses_no_task_witness:
  "\<exists>t. dget (sv_tasks (restart ''z'' sent)) ''t'' = Some t \<and> tk_state t = Working \<and> workers ''t'' (restart ''z'' sent) = [Job_waiting]"
proof -
  from sent_task obtain t where t: "dget (sv_tasks sent) ''t'' = Some t" "tk_state t = Submitted" by blast
  with restart_loses_no_task [OF sent_reached [of False], of "''z''"] show ?thesis by (simp add: terminal_def)
qed


section \<open>Where the promises fail\<close>

text \<open>A task cancelled while a request waits for its handler is answered as cancelled, and completes afterwards.\<close>

lemma cancelled_task_completes:
  "map_option tk_state (dget (sv_tasks cancelled) ''t'') = Some Canceled \<and>
   map_option tk_state (dget (sv_saved (returned cancelled)) ''t'') = Some Completed \<and>
   (\<forall>lossy. (a2a_step plain id lossy)\<^sup>*\<^sup>* empty_server (returned cancelled))"
proof (intro conjI allI)
  show "map_option tk_state (dget (sv_saved (returned cancelled)) ''t'') = Some Completed" by code_simp
  show c: "map_option tk_state (dget (sv_tasks cancelled) ''t'') = Some Canceled" by code_simp
  fix lossy
  have "''x'' \<notin> set (dkeys (sv_tasks sent))" by code_simp
  then have one: "a2a_step plain id lossy sent cancelled" unfolding cancelled_def by (rule asked_step)
  have "(''t'', Handling In_send) \<in> set (sv_active cancelled)" by code_simp
  moreover from c obtain t where "dget (sv_tasks cancelled) ''t'' = Some t" by (auto simp: map_option_eq_Some)
  ultimately have two: "a2a_step plain id lossy cancelled (returned cancelled)" by (rule returned_step)
  show "(a2a_step plain id lossy)\<^sup>*\<^sup>* empty_server (returned cancelled)"
    by (rule rtranclp.rtrancl_into_rtrancl [OF rtranclp.rtrancl_into_rtrancl [OF sent_reached one] two])
qed

text \<open>A client that leaves its stream, or a push callback that raises before the job is made, leaves a task that is working with
  nobody at work on it, until the process starts again.\<close>

lemma abandoned_stream_works_for_ever:
  "let sv = resumed ''t'' Streaming (asked ''t'' ''message/stream'' ''hello'' empty_server)
   in map_option tk_state (dget (sv_tasks sv) ''t'') = Some Working \<and> sv_active sv = []"
  by code_simp

end
