(* ===== verification/A2a_Trust.thy ===== *)
theory A2a_Trust
  imports A2a_Server Json_Parse
begin

text \<open>
  Who may ask and whom to trust: the bearer gates of the control plane (\<open>auth.py\<close>), the signature policy for a discovered
  agent card (\<open>core/a2a/trust.py\<close>) and the choice of an interface (\<open>core/a2a/schema.py\<close>). Base64, the signature check, the
  canonical text of a card and the SDK's validation are arguments. \<open>CardTrustError\<close> and \<open>AgentCardError\<close> are value errors.
\<close>

section \<open>Bearer gates\<close>

definition is_ascii :: "string \<Rightarrow> bool" where
  "is_ascii s = list_all (\<lambda>c. (of_char c :: nat) < 128) s"

definition remove_prefix :: "string \<Rightarrow> string \<Rightarrow> string" where
  "remove_prefix p s = (if startswith s p then drop (length p) s else s)"

text \<open>\<open>_require\<close>: the variable, if set, and the header, if sent. \<open>hmac.compare_digest\<close> takes texts only if they are ASCII.\<close>

definition require_token :: "string option \<Rightarrow> string option \<Rightarrow> py_error option" where
  "require_token env authorization =
     (let expected = strip (case env of None \<Rightarrow> [] | Some v \<Rightarrow> v)
      in if expected = [] then Some (HTTPException 503)
         else let supplied = strip (remove_prefix ''Bearer '' (case authorization of None \<Rightarrow> [] | Some a \<Rightarrow> a))
              in if \<not> is_ascii supplied \<or> \<not> is_ascii expected then Some TypeError
                 else if supplied \<noteq> expected then Some (HTTPException 401) else None)"

text \<open>The environment by name; the two surfaces have a variable each.\<close>

definition require_control :: "(string \<Rightarrow> string option) \<Rightarrow> string option \<Rightarrow> py_error option" where
  "require_control env = require_token (env ''S17_CONTROL_TOKEN'')"

definition require_completion :: "(string \<Rightarrow> string option) \<Rightarrow> string option \<Rightarrow> py_error option" where
  "require_completion env = require_token (env ''S17_COMPLETION_TOKEN'')"

section \<open>Agent cards\<close>

record card_crypto =
  cc_b64 :: "string \<Rightarrow> string"
  cc_unb64 :: "string \<Rightarrow> string option"
  cc_canonical :: "obj \<Rightarrow> string"
  cc_checks :: "string \<Rightarrow> string \<Rightarrow> string \<Rightarrow> bool"

record trust_policy =
  tp_key :: "json \<Rightarrow> string option"
  tp_required :: bool
  tp_algorithms :: "string list"

definition canonical_card :: "card_crypto \<Rightarrow> obj \<Rightarrow> string" where
  "canonical_card cc agent = cc_canonical cc (ddel ''signatures'' agent)"

text \<open>One signature: it verifies, it is noted and passed over, or an exception leaves the loop.\<close>

datatype signature_check = Verified | Passed_over | Crashes py_error

definition item_text :: "(json \<Rightarrow> string) \<Rightarrow> json \<Rightarrow> string \<Rightarrow> string option" where
  "item_text str_of item key = (case item of JObj d \<Rightarrow> map_option (printed str_of) (dget d key) | _ \<Rightarrow> None)"

definition check_header :: "trust_policy \<Rightarrow> obj \<Rightarrow> string option" where
  "check_header tp header =
     (case jget header ''alg'' of
        JStr a \<Rightarrow> if a \<in> set (tp_algorithms tp) \<and> truthy (jget header ''kid'') then tp_key tp (jget header ''kid'') else None
      | _ \<Rightarrow> None)"

definition signed_text :: "card_crypto \<Rightarrow> obj \<Rightarrow> string \<Rightarrow> string" where
  "signed_text cc agent protected = protected @ ''.'' @ cc_b64 cc (canonical_card cc agent)"

definition check_signature :: "card_crypto \<Rightarrow> (json \<Rightarrow> string) \<Rightarrow> trust_policy \<Rightarrow> obj \<Rightarrow> json \<Rightarrow> signature_check" where
  "check_signature cc str_of tp agent item =
     (case item_text str_of item ''protected'' of None \<Rightarrow> Passed_over
      | Some protected \<Rightarrow>
          (case Option.bind (cc_unb64 cc protected) loads of None \<Rightarrow> Passed_over
           | Some (JObj header) \<Rightarrow>
               (case check_header tp header of None \<Rightarrow> Passed_over
                | Some pem \<Rightarrow>
                    (case Option.bind (item_text str_of item ''signature'') (cc_unb64 cc) of None \<Rightarrow> Passed_over
                     | Some sig \<Rightarrow> if cc_checks cc pem sig (signed_text cc agent protected) then Verified else Passed_over))
           | Some _ \<Rightarrow> Crashes AttributeError))"

fun first_verified :: "(json \<Rightarrow> signature_check) \<Rightarrow> json list \<Rightarrow> py_error option" where
  "first_verified check [] = Some ValueError"
| "first_verified check (x # xs) =
     (case check x of Verified \<Rightarrow> None | Passed_over \<Rightarrow> first_verified check xs | Crashes e \<Rightarrow> Some e)"

definition verify_card :: "card_crypto \<Rightarrow> (json \<Rightarrow> string) \<Rightarrow> trust_policy \<Rightarrow> obj \<Rightarrow> py_error option" where
  "verify_card cc str_of tp agent =
     (let signatures = dget_or agent ''signatures'' (JList [])
      in if \<not> truthy signatures then (if tp_required tp then Some ValueError else None)
         else case each_of signatures of Inl e \<Rightarrow> Some e | Inr xs \<Rightarrow> first_verified (check_signature cc str_of tp agent) xs)"

section \<open>Interfaces\<close>

definition upper_char :: "char \<Rightarrow> char" where
  "upper_char c = (let n = of_char c :: nat in if 97 \<le> n \<and> n \<le> 122 then char_of (n - 32) else c)"

definition interface_text :: "(json \<Rightarrow> string) \<Rightarrow> obj \<Rightarrow> string \<Rightarrow> string" where
  "interface_text str_of i key = printed str_of (dget_or i key (JStr []))"

text \<open>\<open>rank\<close>: the last index of a version in the caller's list.\<close>

definition version_rank :: "string list \<Rightarrow> string \<Rightarrow> nat" where
  "version_rank versions v = last (map fst (filter (\<lambda>(n, w). w = v) (enumerate 0 versions)))"

definition acceptable :: "(json \<Rightarrow> string) \<Rightarrow> string list \<Rightarrow> string list \<Rightarrow> obj \<Rightarrow> bool" where
  "acceptable str_of bindings versions i =
     (map upper_char (interface_text str_of i ''protocolBinding'') \<in> map upper_char ` set bindings \<and>
      interface_text str_of i ''protocolVersion'' \<in> set versions)"

definition negotiate_interface ::
  "(obj \<Rightarrow> bool) \<Rightarrow> (json \<Rightarrow> string) \<Rightarrow> string list \<Rightarrow> string list \<Rightarrow> obj \<Rightarrow> obj result" where
  "negotiate_interface valid str_of bindings versions agent =
     (if \<not> valid agent then Inl ValueError
      else case dget agent ''supportedInterfaces'' of None \<Rightarrow> Inl KeyError
      | Some v \<Rightarrow> bind_r (bind_r (each_of v) (map_r as_record)) (\<lambda>interfaces.
          let candidates = filter (acceptable str_of bindings versions) interfaces
          in if candidates = [] then Inl ValueError
             else Inr (arg_min_list (\<lambda>i. version_rank versions (interface_text str_of i ''protocolVersion'')) candidates)))"

section \<open>What they promise\<close>

text \<open>The gates fail closed: a request passes one only if its variable is configured with more than white space and the
  header carries that very token, and then it does pass if the token is ASCII; without the variable nobody passes, and
  the holder of one surface's token passes the other only if both variables hold the same token.\<close>

lemma gates_fail_closed:
  "(require_control env a = None \<longleftrightarrow>
      (\<exists>v h. env ''S17_CONTROL_TOKEN'' = Some v \<and> a = Some h \<and> strip v \<noteq> [] \<and> is_ascii (strip v) \<and>
         strip (remove_prefix ''Bearer '' h) = strip v)) \<and>
   (env ''S17_CONTROL_TOKEN'' = None \<longrightarrow> require_control env a = Some (HTTPException 503)) \<and>
   (require_control env a = None \<and> require_completion env a = None \<longrightarrow>
      map_option strip (env ''S17_CONTROL_TOKEN'') = map_option strip (env ''S17_COMPLETION_TOKEN''))"
proof -
  have [simp]: "strip [] = []" "strip (remove_prefix ''Bearer '' []) = []"
    by (simp_all add: strip_def rstrip_def lstrip_def remove_prefix_def startswith_def)
  have iff: "require_token e a = None \<longleftrightarrow>
      (\<exists>v h. e = Some v \<and> a = Some h \<and> strip v \<noteq> [] \<and> is_ascii (strip v) \<and> strip (remove_prefix ''Bearer '' h) = strip v)" for e
    by (cases e; cases a) (auto simp: require_token_def Let_def)
  show ?thesis by (auto simp: require_control_def require_completion_def iff) (simp add: require_token_def)
qed

lemma first_verified_None: "first_verified check xs = None \<Longrightarrow> \<exists>x \<in> set xs. check x = Verified"
  by (induction xs) (auto split: signature_check.splits)

lemma check_signature_Verified:
  assumes "check_signature cc str_of tp agent item = Verified"
  shows "\<exists>protected header pem sig. item_text str_of item ''protected'' = Some protected \<and>
    Option.bind (cc_unb64 cc protected) loads = Some (JObj header) \<and>
    (\<exists>a. jget header ''alg'' = JStr a \<and> a \<in> set (tp_algorithms tp)) \<and> tp_key tp (jget header ''kid'') = Some pem \<and>
    cc_checks cc pem sig (signed_text cc agent protected)"
proof -
  from assms obtain protected where p: "item_text str_of item ''protected'' = Some protected"
    by (auto simp: check_signature_def split: option.splits)
  with assms obtain header where h: "Option.bind (cc_unb64 cc protected) loads = Some (JObj header)"
    by (auto simp: check_signature_def split: option.splits json.splits)
  with assms p obtain pem sig where k: "check_header tp header = Some pem" "cc_checks cc pem sig (signed_text cc agent protected)"
    by (auto simp: check_signature_def split: option.splits if_splits)
  from k(1) have "(\<exists>a. jget header ''alg'' = JStr a \<and> a \<in> set (tp_algorithms tp)) \<and> tp_key tp (jget header ''kid'') = Some pem"
    by (auto simp: check_header_def split: json.splits if_splits)
  with p h k show ?thesis by blast
qed

text \<open>A card that is accepted is vouched for: where signatures are required, one of its signatures has an allowed algorithm in its
  protected header, names a key the caller trusts, and that key verifies the header together with the canonical text
  of the card without its signatures.\<close>

lemma accepted_card_is_vouched_for:
  assumes "verify_card cc str_of tp agent = None" and "tp_required tp"
  shows "\<exists>xs item protected header pem sig a. each_of (dget_or agent ''signatures'' (JList [])) = Inr xs \<and> item \<in> set xs \<and>
    item_text str_of item ''protected'' = Some protected \<and> Option.bind (cc_unb64 cc protected) loads = Some (JObj header) \<and>
    jget header ''alg'' = JStr a \<and> a \<in> set (tp_algorithms tp) \<and> tp_key tp (jget header ''kid'') = Some pem \<and>
    cc_checks cc pem sig (protected @ ''.'' @ cc_b64 cc (cc_canonical cc (ddel ''signatures'' agent)))"
proof -
  from assms obtain xs where xs: "each_of (dget_or agent ''signatures'' (JList [])) = Inr xs"
    "first_verified (check_signature cc str_of tp agent) xs = None"
    by (auto simp: verify_card_def Let_def split: if_splits sum.splits)
  from first_verified_None [OF xs(2)] obtain item where "item \<in> set xs" "check_signature cc str_of tp agent item = Verified" by blast
  with check_signature_Verified xs(1) show ?thesis unfolding signed_text_def canonical_card_def by blast
qed

text \<open>The interface negotiated is one the card offers, with a binding and a version the caller speaks, and no other offered
  interface the caller speaks has a version the caller prefers.\<close>

lemma negotiated_interface_is_preferred:
  assumes "negotiate_interface valid str_of bindings versions agent = Inr i"
  shows "valid agent \<and> (\<exists>v interfaces. dget agent ''supportedInterfaces'' = Some v \<and> bind_r (each_of v) (map_r as_record) = Inr interfaces \<and>
    i \<in> set interfaces \<and> acceptable str_of bindings versions i \<and>
    list_all (\<lambda>j. acceptable str_of bindings versions j \<longrightarrow>
      version_rank versions (interface_text str_of i ''protocolVersion'') \<le> version_rank versions (interface_text str_of j ''protocolVersion''))
      interfaces)"
proof -
  from assms obtain v interfaces where c: "valid agent" "dget agent ''supportedInterfaces'' = Some v"
    "bind_r (each_of v) (map_r as_record) = Inr interfaces"
    and f: "filter (acceptable str_of bindings versions) interfaces \<noteq> []"
    and i: "i = arg_min_list (\<lambda>i. version_rank versions (interface_text str_of i ''protocolVersion'')) (filter (acceptable str_of bindings versions) interfaces)"
    by (auto simp: negotiate_interface_def Let_def bind_r_Inr split: if_splits option.splits)
  have "i \<in> set (filter (acceptable str_of bindings versions) interfaces)" unfolding i by (rule arg_min_list_in [OF f])
  moreover have "version_rank versions (interface_text str_of i ''protocolVersion'') \<le> version_rank versions (interface_text str_of j ''protocolVersion'')"
    if "j \<in> set (filter (acceptable str_of bindings versions) interfaces)" for j
    unfolding i using f_arg_min_list_f [OF f] that by (metis (no_types, lifting) Min_le finite_imageI finite_set imageI)
  ultimately show ?thesis using c by (auto simp: list_all_iff)
qed

section \<open>Runs\<close>

definition two_tokens :: "string \<Rightarrow> string option" where
  "two_tokens v = (if v = ''S17_CONTROL_TOKEN'' then Some '' a'' else Some ''b'')"

lemma gates_fail_closed_witness:
  "require_control two_tokens (Some ''Bearer a'') = None \<and> require_completion two_tokens (Some ''Bearer a'') \<noteq> None"
proof -
  have r: "require_control two_tokens (Some ''Bearer a'') = None" by code_simp
  have "map_option strip (two_tokens ''S17_CONTROL_TOKEN'') \<noteq> map_option strip (two_tokens ''S17_COMPLETION_TOKEN'')" by code_simp
  with gates_fail_closed [of two_tokens "Some ''Bearer a''", THEN conjunct2, THEN conjunct2] r show ?thesis by simp
qed

text \<open>A signature that is the key and the text, and a header in plain JSON.\<close>

definition plain_crypto :: card_crypto where
  "plain_crypto = \<lparr>cc_b64 = id, cc_unb64 = Some, cc_canonical = (\<lambda>d. concat (map fst d)), cc_checks = (\<lambda>pem sig m. sig = pem @ m)\<rparr>"

definition one_key :: trust_policy where
  "one_key = \<lparr>tp_key = (\<lambda>kid. if kid = JStr ''k'' then Some ''key'' else None), tp_required = True, tp_algorithms = [''RS256'']\<rparr>"

definition quoted :: "string \<Rightarrow> string" where
  "quoted s = [CHR 0x22] @ s @ [CHR 0x22]"

definition plain_header :: string where
  "plain_header = ''{'' @ quoted ''alg'' @ '':'' @ quoted ''RS256'' @ '','' @ quoted ''kid'' @ '':'' @ quoted ''k'' @ ''}''"

definition signed_agent :: "string \<Rightarrow> string \<Rightarrow> obj" where
  "signed_agent header sig = [(''name'', JStr ''n''), (''signatures'', JList [JObj [(''protected'', JStr ''x''), (''signature'', JStr [])],
     JObj [(''protected'', JStr header), (''signature'', JStr sig)]])]"

lemma accepted_card_is_vouched_for_witness:
  "verify_card plain_crypto (\<lambda>v. []) one_key (signed_agent plain_header (''key'' @ plain_header @ ''.name'')) = None \<and>
   (\<exists>pem sig protected. cc_checks plain_crypto pem sig (protected @ ''.name''))"
proof -
  let ?agent = "signed_agent plain_header (''key'' @ plain_header @ ''.name'')"
  have v: "verify_card plain_crypto (\<lambda>v. []) one_key ?agent = None" by code_simp
  have "tp_required one_key" by code_simp
  from accepted_card_is_vouched_for [OF v this] obtain pem sig protected where
    "cc_checks plain_crypto pem sig (protected @ ''.'' @ cc_b64 plain_crypto (cc_canonical plain_crypto (ddel ''signatures'' ?agent)))" by blast
  then have "cc_checks plain_crypto pem sig (protected @ ''.name'')" by (simp add: plain_crypto_def signed_agent_def)
  with v show ?thesis by blast
qed

definition offering :: "string \<Rightarrow> obj" where
  "offering key = [(key, JList (map (\<lambda>(b, v). JObj [(''protocolBinding'', JStr b), (''protocolVersion'', JStr v)])
     [(''GRPC'', ''1.1''), (''jsonrpc'', ''1.0''), (''JSONRPC'', ''1.1'')]))]"

lemma negotiated_interface_is_preferred_witness:
  "\<exists>i. negotiate_interface (\<lambda>c. True) (\<lambda>v. []) [''JSONRPC''] [''1.1'', ''1.0''] (offering ''supportedInterfaces'') = Inr i \<and>
     acceptable (\<lambda>v. []) [''JSONRPC''] [''1.1'', ''1.0''] i \<and> interface_text (\<lambda>v. []) i ''protocolVersion'' = ''1.1''"
proof -
  have "case negotiate_interface (\<lambda>c. True) (\<lambda>v. []) [''JSONRPC''] [''1.1'', ''1.0''] (offering ''supportedInterfaces'') of
      Inl e \<Rightarrow> False | Inr i \<Rightarrow> interface_text (\<lambda>v. []) i ''protocolVersion'' = ''1.1''" by code_simp
  then obtain i where i: "negotiate_interface (\<lambda>c. True) (\<lambda>v. []) [''JSONRPC''] [''1.1'', ''1.0''] (offering ''supportedInterfaces'') = Inr i"
    "interface_text (\<lambda>v. []) i ''protocolVersion'' = ''1.1''" by (auto split: sum.splits)
  from negotiated_interface_is_preferred [OF i(1)] i show ?thesis by blast
qed

section \<open>Where the promises fail\<close>

text \<open>A header that is JSON but no object raises an exception that is no trust error.\<close>

lemma header_list_escapes:
  "verify_card plain_crypto (\<lambda>v. []) one_key (signed_agent ''[]'' []) = Some AttributeError"
  by code_simp

text \<open>A token outside ASCII locks its own holder out with an exception instead of an answer.\<close>

lemma accented_token_raises: "require_token (Some [CHR 0xE9]) (Some [CHR 0xE9]) = Some TypeError"
  by code_simp

text \<open>The SDK validates the protocol's own field names too, which the negotiation does not read.\<close>

lemma original_field_name_raises:
  "negotiate_interface (\<lambda>c. True) (\<lambda>v. []) [''JSONRPC''] [''1.0''] (offering ''supported_interfaces'') = Inl KeyError"
  by code_simp

end
