(* ===== verification/Workers.thy ===== *)
theory Workers
  imports Skills Memory_Store Planner_Parse
begin

text \<open>
  The workers (\<open>workers/parsing.py\<close>, \<open>general.py\<close>, \<open>special.py\<close>): reading a model's free reply into sections, choosing what memory
  may serve as evidence, when research counts as supported, loading a skill, and what a module's names make of a worker.
  Replies, pages and fetches are arguments; \<open>str_of\<close> prints a value that is no text.
\<close>

section \<open>Reading replies\<close>

text \<open>\<open>_slug\<close>: every run of other characters becomes one underscore.\<close>

definition slug_char :: "char \<Rightarrow> bool" where
  "slug_char c = (is_digit c \<or> is_letter c \<and> lower_char c = c)"

fun underscored :: "bool \<Rightarrow> string \<Rightarrow> string" where
  "underscored gap [] = []"
| "underscored gap (c # cs) =
     (if slug_char c then c # underscored False cs
      else if gap then underscored True cs else CHR ''_'' # underscored True cs)"

definition slug :: "string \<Rightarrow> string" where
  "slug s =
     (let u = (\<lambda>c. c = CHR ''_''); t = rev (dropWhile u (rev (dropWhile u (underscored False (lower s)))))
      in if t = [] then ''item'' else t)"

text \<open>\<open>_parse_json_object\<close>: the fence, then the reply, then its outermost braces.\<close>

definition reply_unfenced :: "string \<Rightarrow> string" where
  "reply_unfenced s =
     (if startswith s ''```'' then
        let b = dropWhile is_letter (drop 3 s); c = optional (CHR 0x0A) b
        in if endswith c ''```''
           then let d = take (length c - 3) c in if d \<noteq> [] \<and> last d = CHR 0x0A then butlast d else d
           else c
      else s)"

definition as_object :: "json option \<Rightarrow> obj option" where
  "as_object v = (case v of Some (JObj d) \<Rightarrow> Some d | _ \<Rightarrow> None)"

definition parse_json_object :: "json \<Rightarrow> obj option" where
  "parse_json_object reply =
     (case reply of
        JStr s \<Rightarrow>
          (let t = reply_unfenced (strip s)
           in case loads t of
                Some v \<Rightarrow> as_object (Some v)
              | None \<Rightarrow> (case brace_span t of None \<Rightarrow> None | Some u \<Rightarrow> as_object (loads u)))
      | _ \<Rightarrow> None)"

text \<open>From the first opening to the last closing bracket.\<close>

definition bracket_span :: "string \<Rightarrow> string option" where
  "bracket_span s =
     (let i = length (takeWhile (\<lambda>c. c \<noteq> CHR ''['') s); k = length (takeWhile (\<lambda>c. c \<noteq> CHR '']'') (rev s))
      in if CHR ''['' \<notin> set s \<or> CHR '']'' \<notin> set s \<or> length s - 1 - k \<le> i then None
         else Some (slice i (length s - k) s))"

definition parse_json_array :: "string \<Rightarrow> json list option" where
  "parse_json_array s =
     (case bracket_span (strip_fence (strip s)) of None \<Rightarrow> None
      | Some u \<Rightarrow> (case loads u of Some (JList xs) \<Rightarrow> Some xs | _ \<Rightarrow> None))"

section \<open>Sections\<close>

definition heading_keys :: "string list" where
  "heading_keys = [''heading'', ''title'', ''name'', ''label'', ''stem'', ''question'', ''prompt'', ''text'']"

definition points_keys :: "string list" where
  "points_keys = [''points'', ''options'', ''choices'', ''bullets'', ''items'', ''steps'']"

definition detail_keys :: "string list" where
  "detail_keys = [''detail'', ''solution'', ''answer'', ''explanation'', ''body'', ''description'', ''notes'']"

definition blank_value :: "json \<Rightarrow> bool" where
  "blank_value v = (v \<in> {JNull, JStr [], JList [], JObj []})"

text \<open>\<open>key.lower().replace("-", "_")\<close>\<close>

definition folded_key :: "string \<Rightarrow> string" where
  "folded_key k = map (\<lambda>c. if c = CHR ''-'' then CHR ''_'' else c) (lower k)"

definition free_entry :: "string list \<Rightarrow> string \<times> json \<Rightarrow> bool" where
  "free_entry used e = (fst e \<notin> set used \<and> \<not> blank_value (snd e))"

text \<open>\<open>first\<close>: an exact key wins, then the first key that contains a token; the entry that is claimed.\<close>

definition exact_entry :: "string list \<Rightarrow> string list \<Rightarrow> obj \<Rightarrow> (string \<times> json) option" where
  "exact_entry tokens used item =
     (case find (\<lambda>t. case dget item t of None \<Rightarrow> False | Some v \<Rightarrow> free_entry used (t, v)) tokens of
        None \<Rightarrow> None | Some t \<Rightarrow> Some (t, jget item t))"

fun loose_entry :: "string list \<Rightarrow> string list \<Rightarrow> obj \<Rightarrow> (string \<times> json) option" where
  "loose_entry [] used item = None"
| "loose_entry (t # ts) used item =
     (case find (\<lambda>e. free_entry used e \<and> contains t (folded_key (fst e))) item of
        Some e \<Rightarrow> Some e
      | None \<Rightarrow> loose_entry ts used item)"

definition claim :: "string list \<Rightarrow> obj \<Rightarrow> string list \<Rightarrow> json \<times> string list" where
  "claim tokens item used =
     (case exact_entry tokens used item of
        Some e \<Rightarrow> (snd e, fst e # used)
      | None \<Rightarrow> (case loose_entry tokens used item of Some e \<Rightarrow> (snd e, fst e # used) | None \<Rightarrow> (JNull, used)))"

definition is_scalar :: "json \<Rightarrow> bool" where
  "is_scalar v = (case v of JStr s \<Rightarrow> True | JInt i \<Rightarrow> True | JFloat q \<Rightarrow> True | JBool b \<Rightarrow> True | _ \<Rightarrow> False)"

record content_section =
  ct_heading :: string
  ct_points :: "string list"
  ct_detail :: string

definition paragraph_break :: string where
  "paragraph_break = [CHR 0x0A, CHR 0x0A]"

definition value_text :: "(json \<Rightarrow> string) \<Rightarrow> json \<Rightarrow> string" where
  "value_text str_of v = strip (printed str_of (or_else v (JStr [])))"

definition point_texts :: "(json \<Rightarrow> string) \<Rightarrow> json \<Rightarrow> string list" where
  "point_texts str_of v =
     (let xs = (case v of JList xs \<Rightarrow> xs | JObj d \<Rightarrow> map (JStr \<circ> fst) d | _ \<Rightarrow> if is_scalar v then [v] else [])
      in filter (\<lambda>p. p \<noteq> []) (map (\<lambda>p. strip (printed str_of p)) xs))"

definition leftover_texts :: "(json \<Rightarrow> string) \<Rightarrow> obj \<Rightarrow> string list \<Rightarrow> string list" where
  "leftover_texts str_of item used =
     map (\<lambda>(k, v). k @ '': '' @ printed str_of v)
       (filter (\<lambda>(k, v). k \<notin> set used \<and> is_scalar v \<and> strip (printed str_of v) \<noteq> []) item)"

definition as_section :: "(json \<Rightarrow> string) \<Rightarrow> obj \<Rightarrow> content_section" where
  "as_section str_of item =
     (let (heading, used1) = claim heading_keys item [];
          (points, used2) = claim points_keys item used1;
          (detail, used3) = claim detail_keys item used2
      in \<lparr>ct_heading = value_text str_of heading, ct_points = point_texts str_of points,
          ct_detail = join paragraph_break (filter (\<lambda>p. p \<noteq> []) (value_text str_of detail # leftover_texts str_of item used3))\<rparr>)"

text \<open>\<open>run_content\<close>: what the model's reply is taken for, and the text beside it.\<close>

datatype content = Object obj | Sections "content_section list" | Unstructured

definition content_of :: "(json \<Rightarrow> string) \<Rightarrow> string \<Rightarrow> content" where
  "content_of str_of raw =
     (case parse_json_object (JStr raw) of
        Some d \<Rightarrow> Object d
      | None \<Rightarrow>
          (case parse_json_array raw of
             Some items \<Rightarrow> if items \<noteq> [] \<and> list_all is_dict items
               then Sections (map (as_section str_of) (List.map_filter (\<lambda>v. as_object (Some v)) items)) else Unstructured
           | None \<Rightarrow> Unstructured))"

definition content_text :: "(json \<Rightarrow> string) \<Rightarrow> string \<Rightarrow> string" where
  "content_text str_of raw =
     (case content_of str_of raw of
        Object d \<Rightarrow> strip (printed str_of (or_else (or_else (jget d ''intro'') (jget d ''title'')) (JStr [])))
      | Sections ss \<Rightarrow> []
      | Unstructured \<Rightarrow> raw)"

section \<open>Memory as evidence\<close>

definition source_key :: "mem_record \<Rightarrow> string" where
  "source_key r = (case mm_sources r of [] \<Rightarrow> mm_id r | (uri, author) # rest \<Rightarrow> uri)"

text \<open>At most three hits of a source, at most eight in all, in the order they were ranked.\<close>

fun diversify :: "(string \<times> nat) list \<Rightarrow> nat \<Rightarrow> mem_record list \<Rightarrow> mem_record list" where
  "diversify per n [] = []"
| "diversify per n (r # rs) =
     (if dget_or per (source_key r) 0 \<ge> 3 then diversify per n rs
      else r # (if n + 1 = 8 then [] else diversify (dput (source_key r) (dget_or per (source_key r) 0 + 1) per) (n + 1) rs))"

definition evidence_search :: "memory_scope \<Rightarrow> int \<Rightarrow> search" where
  "evidence_search sc now =
     \<lparr>se_scope = sc, se_kinds = [Fact, Chunk, Playbook, Episode], se_limit = 24, se_history = False, se_neighbors = 0, se_now = now\<rparr>"

definition recall_worker :: "(mem_record \<Rightarrow> rat) \<Rightarrow> memory_scope \<Rightarrow> int \<Rightarrow> string \<Rightarrow> string \<Rightarrow> memory \<Rightarrow> mem_record list" where
  "recall_worker score sc now inbound run me =
     (let hits = filter (\<lambda>r. mm_id r \<noteq> inbound \<and> jget (mm_metadata r) ''run_id'' \<noteq> JStr run) (recall score (evidence_search sc now) me)
      in sort_key (\<lambda>r. if mm_kind r = Fact then 0 else 1 :: nat) (diversify [] 0 hits))"

section \<open>Research\<close>

text \<open>\<open>run_researcher\<close>: what was found, the pages as they were fetched, and the model's assessment of them.\<close>

record research =
  rs_pages :: "(string \<times> string) result list"
  rs_text :: string
  rs_insufficient :: bool

definition readable_page :: "(string \<times> string) result \<Rightarrow> bool" where
  "readable_page p = (case p of Inl e \<Rightarrow> False | Inr (url, txt) \<Rightarrow> url \<noteq> [] \<and> strip txt \<noteq> [])"

definition clipped_page :: "(string \<times> string) result \<Rightarrow> (string \<times> string) result" where
  "clipped_page p = (case p of Inl e \<Rightarrow> Inl e | Inr (url, txt) \<Rightarrow> Inr (url, take 12000 txt))"

definition is_supported :: "obj option \<Rightarrow> bool" where
  "is_supported assessment = (case assessment of None \<Rightarrow> False | Some d \<Rightarrow> jget d ''supported'' = JBool True)"

definition synthesis_of :: "(json \<Rightarrow> string) \<Rightarrow> obj option \<Rightarrow> string" where
  "synthesis_of str_of assessment =
     (case assessment of None \<Rightarrow> [] | Some d \<Rightarrow> strip (printed str_of (dget_or d ''synthesis'' (JStr []))))"

definition run_researcher :: "(json \<Rightarrow> string) \<Rightarrow> obj list \<Rightarrow> (string \<times> string) result list \<Rightarrow> json \<Rightarrow> research" where
  "run_researcher str_of hits fetched reply =
     (if hits = [] then \<lparr>rs_pages = [], rs_text = [], rs_insufficient = True\<rparr>
      else let pages = map clipped_page fetched
        in if \<not> list_ex readable_page pages then \<lparr>rs_pages = pages, rs_text = [], rs_insufficient = True\<rparr>
           else let assessment = parse_json_object reply; supported = is_supported assessment
             in \<lparr>rs_pages = pages, rs_text = (if supported then synthesis_of str_of assessment else []), rs_insufficient = \<not> supported\<rparr>)"

section \<open>Skills, jobs and remote agents\<close>

datatype loaded_skill = Loaded skill "string list" | Loaded_reference string

definition load_skill :: "skill_host \<Rightarrow> manager option \<Rightarrow> string \<Rightarrow> string \<Rightarrow> loaded_skill skilled" where
  "load_skill h m name ref =
     (case m of None \<Rightarrow> Inl (Raised RuntimeError)
      | Some m \<Rightarrow>
          if strip ref \<noteq> [] then bind_k (reference h m (strip name) (strip ref)) (\<lambda>t. Inr (Loaded_reference t))
          else (case enabled_named m (strip name) of
              None \<Rightarrow> Inl (Raised RuntimeError)
            | Some k \<Rightarrow> Inr (Loaded k (references h m (strip name)))))"

text \<open>\<open>launch_job\<close> after the endpoint's answer: the handle the node waits on.\<close>

definition job_handle :: "json \<Rightarrow> string result" where
  "job_handle accepted =
     (case accepted of
        JObj d \<Rightarrow> (case jget d ''handle'' of JStr s \<Rightarrow> if strip s = [] then Inl RuntimeError else Inr (strip s) | _ \<Rightarrow> Inl RuntimeError)
      | _ \<Rightarrow> Inl RuntimeError)"

text \<open>\<open>[A-Za-z0-9_.-]{1,128}\<close>; the trusted key of that name, if a folder of keys is configured.\<close>

definition kid_ok :: "string \<Rightarrow> bool" where
  "kid_ok kid = (kid \<noteq> [] \<and> length kid \<le> 128 \<and> list_all (\<lambda>c. is_letter c \<or> is_digit c \<or> c \<in> set ''_.-'') kid)"

definition trusted_key :: "(fpath \<times> stored) list \<Rightarrow> fpath option \<Rightarrow> string \<Rightarrow> stored option" where
  "trusted_key files folder kid =
     (case folder of None \<Rightarrow> None | Some d \<Rightarrow> if kid_ok kid then dget files (d @ [kid @ ''.pem'']) else None)"

section \<open>Names\<close>

text \<open>A name a module neither defines nor imports raises when a function looks it up.\<close>

definition look_up :: "string list \<Rightarrow> string \<Rightarrow> py_error option" where
  "look_up globals name = (if name \<in> set globals then None else Some NameError)"

definition special_globals :: "string list" where
  "special_globals = [''annotations'', ''json'', ''Any'', ''TaskSpec'', ''MemoryKind'', ''MemoryRecord'', ''Principal'', ''RunContext'',
     ''_parse_json_object'', ''run_validate_work'', ''run_role'', ''recall'', ''remember_explicit'']"

definition general_globals :: "string list" where
  "general_globals = [''annotations'', ''asyncio'', ''hashlib'', ''json'', ''os'', ''re'', ''date'', ''Path'', ''Any'', ''httpx'', ''A2AClient'',
     ''AgentCardTrustPolicy'', ''Deferred'', ''TaskSpec'', ''MemoryKind'', ''MemoryRecord'', ''_as_section'', ''_parse_json_array'',
     ''_parse_json_object'', ''_slug'', ''calculate'', ''copy_file'', ''current_datetime'', ''date_shift'', ''fetch_url'', ''file_sha256'',
     ''file_uri_to_path'', ''query_csv'', ''sandbox_directories'', ''sandbox_files'', ''sandbox_path'', ''web_search'', ''write_text_file'',
     ''RunContext'', ''run_calculate'', ''run_current_datetime'', ''run_date_shift'', ''run_fetch'', ''run_file_sha256'', ''run_query_csv'',
     ''run_search'', ''run_copy_file'', ''run_read_file'', ''run_write_file'', ''run_index'', ''list_channels'', ''request_approval'',
     ''run_retriever'', ''list_directory'', ''run_verify_artifact'', ''send_channel_message'', ''a2a_delegate'', ''create_calendar_events'',
     ''load_skill'', ''launch_job'', ''run_content'', ''run_researcher'']"

text \<open>\<open>run_validate_work\<close>: a validator does not spawn another; otherwise the child run's answer is summarised, or, where it is no
  JSON object, kept as text of a validation that did not pass.\<close>

definition run_validate_work :: "nat \<Rightarrow> string \<Rightarrow> obj result" where
  "run_validate_work depth answer =
     guard_r (look_up special_globals ''os'')
       (if depth \<ge> 1 then Inr [(''summary'', JStr ''validators do not spawn validators''), (''passed'', JBool True),
          (''findings'', JList []), (''skipped'', JBool True)]
        else case parse_json_object (JStr (strip answer)) of
            Some (e # d) \<Rightarrow> summarise (e # d)
          | _ \<Rightarrow> Inr [(''passed'', JBool False), (''findings'', JList []), (''summary'', JStr (take 2000 (strip answer))),
              (''blockers'', JInt 0), (''reproduced_any'', JBool False)])"

text \<open>\<open>run_retriever\<close>: the hits, with the model's summary of them.\<close>

definition run_retriever :: "mem_record list \<Rightarrow> string \<Rightarrow> (mem_record list \<times> string) result" where
  "run_retriever hits summary = guard_r (look_up general_globals ''recall'') (Inr (hits, summary))"

end
