(* ===== verification/Worker_Claims.thy ===== *)
theory Worker_Claims
  imports Workers Skill_Claims
begin

text \<open>
  What holds of the workers: sections keep what the model wrote, evidence from memory is the run's to read and not its own echo,
  research is reported only where its pages and its assessment carry it.
\<close>

section \<open>Sections\<close>

lemma lstrip_suffix: "\<exists>a. s = a @ lstrip s"
  unfolding lstrip_def by (metis takeWhile_dropWhile_id)

lemma strip_infix: "\<exists>a b. s = a @ strip s @ b"
proof -
  obtain a where a: "s = a @ lstrip s" using lstrip_suffix by blast
  have "\<exists>b. lstrip s = rstrip (lstrip s) @ b" unfolding rstrip_def by (metis rev_append rev_rev_ident takeWhile_dropWhile_id)
  with a show ?thesis unfolding strip_def by (metis append.assoc)
qed

lemma contains_strip: "contains (strip s) (u @ s)"
proof -
  obtain a b where "s = a @ strip s @ b" using strip_infix by blast
  then have "u @ s = (u @ a) @ strip s @ b" by (metis append.assoc)
  then show ?thesis using contains_suffix contains_prefix by metis
qed

lemma contains_self: "contains s s"
  using contains_prefix [of s "[]"] by simp

lemma contains_split: "contains b s \<Longrightarrow> \<exists>u v. s = u @ b @ v"
proof (induction s)
  case (Cons c s)
  show ?case
  proof (cases "startswith (c # s) b")
    case True
    then obtain v where "c # s = [] @ b @ v" unfolding startswith_append by auto
    then show ?thesis by blast
  next
    case False
    with Cons obtain u v where "s = u @ b @ v" by auto
    then have "c # s = (c # u) @ b @ v" by simp
    then show ?thesis by blast
  qed
qed simp

lemma contains_iff: "contains b s \<longleftrightarrow> (\<exists>u v. s = u @ b @ v)"
  using contains_split contains_suffix contains_prefix by blast

lemma contains_trans: "contains a b \<Longrightarrow> contains b c \<Longrightarrow> contains a c"
  unfolding contains_iff by (metis append.assoc)

text \<open>A slot claims an entry that was free, or nothing.\<close>

lemma exact_entry_mem: "exact_entry tokens used item = Some e \<Longrightarrow> e \<in> set item"
  by (auto simp: exact_entry_def find_Some_iff jget_def dget_or_def split: option.splits dest: map_of_SomeD)

lemma loose_entry_mem: "loose_entry tokens used item = Some e \<Longrightarrow> e \<in> set item"
  by (induction tokens) (auto simp: find_Some_iff split: option.splits)

lemma claim_cases:
  assumes "claim tokens item used = (w, used')"
  shows "used' = used \<or> (\<exists>k. (k, w) \<in> set item \<and> used' = k # used)"
  using assms exact_entry_mem loose_entry_mem unfolding claim_def
  by (auto split: option.splits)

lemma claimed_value:
  assumes "claim tokens item used = (w, used')" and "distinct (dkeys item)" and "(k, v) \<in> set item" and "k \<in> set used'" and "k \<notin> set used"
  shows "w = v"
  using claim_cases [OF assms(1)] assms(2-5) by (auto simp: eq_key_imp_eq_value)

lemma value_text_truthy: "truthy v \<Longrightarrow> value_text str_of v = strip (printed str_of v)"
  by (simp add: value_text_def or_else_def)

lemma point_texts_scalar: "is_scalar v \<Longrightarrow> strip (printed str_of v) \<noteq> [] \<Longrightarrow> point_texts str_of v = [strip (printed str_of v)]"
  by (cases v) (simp_all add: point_texts_def is_scalar_def)

text \<open>A section keeps what the model wrote: every entry of the object whose value is a text, a number or a truth value, is not false
  or zero and does not print as white space is found in the heading, among the points or in the detail.\<close>

lemma section_keeps_every_scalar:
  assumes "distinct (dkeys item)" and "(k, v) \<in> set item" and "is_scalar v" and "truthy v" and "strip (printed str_of v) \<noteq> []"
  shows "let s = as_section str_of item in list_ex (contains (strip (printed str_of v))) (ct_heading s # ct_detail s # ct_points s)"
proof -
  let ?t = "strip (printed str_of v)"
  obtain h u1 where h: "claim heading_keys item [] = (h, u1)" by fastforce
  obtain p u2 where p: "claim points_keys item u1 = (p, u2)" by fastforce
  obtain d u3 where d: "claim detail_keys item u2 = (d, u3)" by fastforce
  define parts where "parts = filter (\<lambda>q. q \<noteq> []) (value_text str_of d # leftover_texts str_of item u3)"
  have s: "as_section str_of item = \<lparr>ct_heading = value_text str_of h, ct_points = point_texts str_of p, ct_detail = join paragraph_break parts\<rparr>"
    by (simp add: as_section_def h p d parts_def)
  have part: "contains ?t (join paragraph_break parts)" if "q \<in> set parts" "contains ?t q" for q
  proof -
    from contains_join [OF that(1)] have "contains q (join paragraph_break parts)" .
    then show ?thesis using that(2) contains_trans by blast
  qed
  consider (heading) "k \<in> set u1" | (points) "k \<notin> set u1" "k \<in> set u2" | (detail) "k \<notin> set u2" "k \<in> set u3" | (left) "k \<notin> set u3"
    using claim_cases [OF p] by auto
  then have "contains ?t (value_text str_of h) \<or> ?t \<in> set (point_texts str_of p) \<or> contains ?t (join paragraph_break parts)"
  proof cases
    case heading
    then have "h = v" using claimed_value [OF h assms(1,2)] by simp
    then show ?thesis using value_text_truthy [OF assms(4)] contains_self by simp
  next
    case points
    then have "p = v" using claimed_value [OF p assms(1,2)] by simp
    then show ?thesis using point_texts_scalar [OF assms(3,5)] by simp
  next
    case detail
    then have "d = v" using claimed_value [OF d assms(1,2)] by simp
    then have "?t \<in> set parts" using value_text_truthy [OF assms(4)] assms(5) by (simp add: parts_def)
    then show ?thesis using part contains_self by blast
  next
    case left
    have "k @ '': '' @ printed str_of v \<in> set parts"
      using left assms(2,3,5) by (force simp: parts_def leftover_texts_def)
    moreover have "contains ?t (k @ '': '' @ printed str_of v)" using contains_strip [of "printed str_of v" "k @ '': ''"] by simp
    ultimately show ?thesis using part by blast
  qed
  then show ?thesis using contains_self by (auto simp: s list_ex_iff)
qed

section \<open>Memory as evidence\<close>

lemma diversify_props:
  assumes "n < 8" and "\<And>s. dget_or per s 0 \<le> 3"
  shows "length (diversify per n rs) \<le> 8 - n \<and> set (diversify per n rs) \<subseteq> set rs \<and>
    length (filter (\<lambda>r. source_key r = s) (diversify per n rs)) + dget_or per s 0 \<le> 3"
  using assms
proof (induction rs arbitrary: per n)
  case (Cons r rs)
  let ?c = "dget_or per (source_key r) 0"
  let ?per = "dput (source_key r) (?c + 1) per"
  show ?case
  proof (cases "?c \<ge> 3")
    case True
    with Cons.IH [OF Cons.prems] show ?thesis by auto
  next
    case False
    have per: "dget_or (dput a b per) x 0 = (if x = a then b else dget_or per x 0)" for a b x by (simp add: dget_or_def)
    show ?thesis
    proof (cases "n + 1 = 8")
      case True
      with False Cons.prems(2) show ?thesis by (auto simp: not_le less_Suc_eq_le)
    next
      case n: False
      have "dget_or ?per x 0 \<le> 3" for x unfolding per using False Cons.prems(2) [of x] by simp
      from Cons.IH [of "n + 1", OF _ this] n False Cons.prems(1) show ?thesis
        by (auto simp: per)
    qed
  qed
qed simp

text \<open>What memory offers a run as evidence: at most eight records, at most three of a source, the facts first; each is one
  the run's scope may read, current, of the four kinds that may serve as evidence, and neither the request itself nor a record
  of this very run.\<close>

lemma recalled_evidence_is_scoped_and_diverse:
  "let hits = recall_worker score sc now inbound run me in
   length hits \<le> 8 \<and> (\<forall>s. length (filter (\<lambda>r. source_key r = s) hits) \<le> 3) \<and>
   sorted (map (\<lambda>r. if mm_kind r = Fact then 0 else 1 :: nat) hits) \<and>
   list_all (\<lambda>r. r \<in> set (tb_records (me_live me)) \<and> scope_where sc (mm_scope r) \<and> mm_status r = Current \<and>
     mm_kind r \<in> {Fact, Chunk, Playbook, Episode} \<and> mm_id r \<noteq> inbound \<and> jget (mm_metadata r) ''run_id'' \<noteq> JStr run) hits"
proof -
  define found where "found = filter (\<lambda>r. mm_id r \<noteq> inbound \<and> jget (mm_metadata r) ''run_id'' \<noteq> JStr run) (recall score (evidence_search sc now) me)"
  define key :: "mem_record \<Rightarrow> nat" where "key = (\<lambda>r. if mm_kind r = Fact then 0 else 1)"
  define hits where "hits = sort_key key (diversify [] 0 found)"
  have h: "recall_worker score sc now inbound run me = hits" by (simp add: recall_worker_def found_def key_def hits_def Let_def)
  have m: "mset hits = mset (diversify [] 0 found)" by (simp add: hits_def)
  have dv: "length (diversify [] 0 found) \<le> 8" "set (diversify [] 0 found) \<subseteq> set found"
      "length (filter (\<lambda>r. source_key r = s) (diversify [] 0 found)) \<le> 3" for s
    using diversify_props [of 0 "[]" found s] by (simp_all add: dget_or_def)
  have "length (filter (\<lambda>r. source_key r = s) hits) \<le> 3" for s
    using dv(3) [of s] m by (metis mset_filter size_mset)
  moreover have "length hits \<le> 8" using dv(1) m by (metis size_mset)
  moreover have "sorted (map key hits)" by (simp add: hits_def)
  moreover have "r \<in> set (tb_records (me_live me)) \<and> scope_where sc (mm_scope r) \<and> mm_status r = Current \<and>
     mm_kind r \<in> {Fact, Chunk, Playbook, Episode} \<and> mm_id r \<noteq> inbound \<and> jget (mm_metadata r) ''run_id'' \<noteq> JStr run" if "r \<in> set hits" for r
  proof -
    have "r \<in> set found" using that dv(2) m by (metis set_mset_mset subsetD)
    then have i: "mm_id r \<noteq> inbound" "jget (mm_metadata r) ''run_id'' \<noteq> JStr run" and r: "r \<in> set (recall score (evidence_search sc now) me)"
      by (simp_all add: found_def)
    from r have "r \<in> set (tb_records (me_live me))" "readable (evidence_search sc now) r"
      by (auto simp: recall_def evidence_search_def Let_def dest: in_set_takeD)
    with i show ?thesis by (auto simp: readable_def evidence_search_def)
  qed
  ultimately show ?thesis unfolding h Let_def key_def [symmetric] by (auto simp: list_all_iff)
qed

section \<open>Research\<close>

text \<open>Research is honest about what carries it: text is reported only if a search hit was there, a page was fetched with
  text to read, and the model's assessment says in so many words that the pages support the question; otherwise the result is
  marked insufficient, and no page is quoted beyond 12,000 characters.\<close>

lemma research_is_honest:
  "let r = run_researcher str_of hits fetched reply in
   (rs_text r \<noteq> [] \<longrightarrow> \<not> rs_insufficient r) \<and>
   (\<not> rs_insufficient r \<longrightarrow> hits \<noteq> [] \<and> list_ex readable_page fetched \<and>
      (\<exists>d. parse_json_object reply = Some d \<and> jget d ''supported'' = JBool True)) \<and>
   list_all (\<lambda>p. case p of Inl e \<Rightarrow> True | Inr (url, content) \<Rightarrow> length content \<le> 12000) (rs_pages r)"
proof -
  have pages: "list_all (\<lambda>p. case p of Inl e \<Rightarrow> True | Inr (url, content) \<Rightarrow> length content \<le> 12000) (map clipped_page fetched)"
    by (auto simp: list_all_iff clipped_page_def split: sum.splits)
  have strip_nil: "strip [] = []" by (simp add: strip_def lstrip_def rstrip_def)
  have "readable_page p" if "readable_page (clipped_page p)" for p
  proof (cases p)
    case (Inr x)
    obtain url content where x: "x = (url, content)" by (cases x)
    have "strip content \<noteq> []" if "strip (take 12000 content) \<noteq> []"
    proof
      assume "strip content = []"
      then have "\<forall>x \<in> set (dropWhile is_space content). is_space x"
        by (simp add: strip_def lstrip_def rstrip_def dropWhile_eq_Nil_conv)
      then have "list_all is_space content"
        unfolding list_all_iff by (metis Un_iff set_append set_takeWhileD takeWhile_dropWhile_id)
      then have "list_all is_space (take 12000 content)" by (auto simp: list_all_iff dest: in_set_takeD)
      then have "strip (take 12000 content) = []"
        by (auto simp: strip_def lstrip_def rstrip_def list_all_iff dropWhile_eq_Nil_conv dest: set_dropWhileD)
      with that show False by simp
    qed
    with that Inr x show ?thesis by (auto simp: readable_page_def clipped_page_def)
  qed (use that in \<open>simp add: readable_page_def clipped_page_def\<close>)
  then have some: "list_ex readable_page fetched" if "list_ex readable_page (map clipped_page fetched)"
    using that by (auto simp: list_ex_iff)
  show ?thesis
    using pages some by (auto simp: run_researcher_def Let_def is_supported_def list_ex_iff split: option.splits)
qed

section \<open>Runs\<close>

definition quiz :: obj where
  "quiz = [(''question_text'', JStr ''two less two?''), (''options'', JList [JStr ''0'', JStr ''1'']), (''answer'', JInt 0),
     (''level'', JStr ''easy''), (''hints'', JList [JStr ''count''])]"

lemma section_keeps_every_scalar_witness:
  "let s = as_section (\<lambda>v. ''0'') quiz in list_ex (contains ''easy'') (ct_heading s # ct_detail s # ct_points s)"
proof -
  have "distinct (dkeys quiz)" "(''level'', JStr ''easy'') \<in> set quiz" "is_scalar (JStr ''easy'')" "truthy (JStr ''easy'')"
    "strip (printed (\<lambda>v. ''0'') (JStr ''easy'')) \<noteq> []" by code_simp+
  from section_keeps_every_scalar [OF \<open>distinct (dkeys quiz)\<close> \<open>(''level'', JStr ''easy'') \<in> set quiz\<close> \<open>is_scalar (JStr ''easy'')\<close>
      \<open>truthy (JStr ''easy'')\<close> \<open>strip (printed (\<lambda>v. ''0'') (JStr ''easy'')) \<noteq> []\<close>]
  have "let s = as_section (\<lambda>v. ''0'') quiz
    in list_ex (contains (strip (printed (\<lambda>v. ''0'') (JStr ''easy'')))) (ct_heading s # ct_detail s # ct_points s)" .
  moreover have "strip (printed (\<lambda>v. ''0'') (JStr ''easy'')) = ''easy''" by code_simp
  ultimately show ?thesis by simp
qed

definition assessed :: "string \<Rightarrow> json" where
  "assessed verdict = (let q = [CHR 0x22] in
     JStr (''{'' @ q @ ''supported'' @ q @ '':'' @ verdict @ '','' @ q @ ''synthesis'' @ q @ '':'' @ q @ ''so it is'' @ q @ ''}''))"

lemma research_is_honest_witness:
  "rs_text (run_researcher (\<lambda>v. []) [[]] [Inr (''u'', ''page'')] (assessed ''true'')) = ''so it is'' \<and>
   \<not> rs_insufficient (run_researcher (\<lambda>v. []) [[]] [Inr (''u'', ''page'')] (assessed ''true''))"
proof -
  have r: "rs_text (run_researcher (\<lambda>v. []) [[]] [Inr (''u'', ''page'')] (assessed ''true'')) = ''so it is''" by code_simp
  with research_is_honest [of "\<lambda>v. []" "[[]]" "[Inr (''u'', ''page'')]" "assessed ''true''"] show ?thesis by (simp add: Let_def)
qed

lemma quoted_verdict_is_not_support:
  "rs_insufficient (run_researcher (\<lambda>v. []) [[]] [Inr (''u'', ''page'')] (assessed ''1''))"
  by code_simp

section \<open>Where the promises fail\<close>

text \<open>An answer of zero is claimed by the detail and then written as nothing, and a list that no slot claims is left out.\<close>

lemma zero_answer_is_lost:
  "let s = as_section (\<lambda>v. ''0'') quiz
   in ct_detail s = ''level: easy'' \<and> \<not> list_ex (contains ''count'') (ct_heading s # ct_detail s # ct_points s)"
  by code_simp

text \<open>Two workers name what their module does not bind: they raise whatever they are asked.\<close>

lemma validator_never_runs: "run_validate_work depth answer = Inl NameError"
proof -
  have "look_up special_globals ''os'' = Some NameError" by code_simp
  then show ?thesis by (simp add: run_validate_work_def guard_r_def)
qed

lemma retriever_never_answers: "run_retriever hits summary = Inl NameError"
proof -
  have "look_up general_globals ''recall'' = Some NameError" by code_simp
  then show ?thesis by (simp add: run_retriever_def guard_r_def)
qed

end
