(* ===== verification/Channel.thy ===== *)
theory Channel
  imports Runtime Ui_Approval A2a_Trust Coding_Guard
begin

text \<open>
  The HTTP routes that reach a run (\<open>routes.py\<close>): a message from a chat channel, the callback of an external job, and
  the answers they give. A request is two steps, since it awaits the run in between: one from the arrival to the run, one from
  the run's result to the reply. What the run returns is an argument of the second step.
\<close>

section \<open>Channel messages\<close>

text \<open>\<open>ChannelMessageBody\<close>; the instant of arrival is the text it is printed as.\<close>

record channel_message =
  cm_channel :: string
  cm_user_id :: string
  cm_handle :: string
  cm_text :: "string option"
  cm_attachments :: "obj list"
  cm_voice :: "string option"
  cm_thread :: "string option"
  cm_trust :: string
  cm_arrived :: string
  cm_metadata :: obj

text \<open>\<open>model_dump(mode="json")\<close>\<close>

definition channel_json :: "channel_message \<Rightarrow> obj" where
  "channel_json m =
     [(''channel'', JStr (cm_channel m)), (''channel_user_id'', JStr (cm_user_id m)), (''user_handle'', JStr (cm_handle m)),
      (''text'', opt_json (cm_text m)), (''attachments'', JList (map JObj (cm_attachments m))),
      (''voice_audio_ref'', opt_json (cm_voice m)), (''thread_id'', opt_json (cm_thread m)),
      (''trust_level'', JStr (cm_trust m)), (''arrived_at'', JStr (cm_arrived m)), (''metadata'', JObj (cm_metadata m))]"

text \<open>The limits of the fields, and reading a message back: \<open>time_of\<close> reads an instant and prints it.\<close>

definition opt_at_most :: "nat \<Rightarrow> string option \<Rightarrow> bool" where
  "opt_at_most n s = (case s of None \<Rightarrow> True | Some t \<Rightarrow> length t \<le> n)"

definition within_limits :: "channel_message \<Rightarrow> bool" where
  "within_limits m \<longleftrightarrow>
     1 \<le> length (cm_channel m) \<and> length (cm_channel m) \<le> 100 \<and>
     1 \<le> length (cm_user_id m) \<and> length (cm_user_id m) \<le> 2000 \<and> length (cm_handle m) \<le> 2000 \<and>
     opt_at_most 40000 (cm_text m) \<and> length (cm_attachments m) \<le> 20 \<and> opt_at_most 4000 (cm_voice m) \<and>
     opt_at_most 2000 (cm_thread m) \<and> cm_trust m \<in> {''owner_paired'', ''user_paired'', ''untrusted''}"

fun read_str :: "json \<Rightarrow> string option" where
  "read_str (JStr s) = Some s"
| "read_str v = None"

fun read_opt_str :: "json \<Rightarrow> string option option" where
  "read_opt_str JNull = Some None"
| "read_opt_str (JStr s) = Some (Some s)"
| "read_opt_str v = None"

fun read_dict :: "json \<Rightarrow> obj option" where
  "read_dict (JObj d) = Some d"
| "read_dict v = None"

fun all_some :: "'a option list \<Rightarrow> 'a list option" where
  "all_some [] = Some []"
| "all_some (None # xs) = None"
| "all_some (Some x # xs) = map_option (Cons x) (all_some xs)"

fun read_dicts :: "json \<Rightarrow> obj list option" where
  "read_dicts (JList xs) = all_some (map read_dict xs)"
| "read_dicts v = None"

definition channel_of_json :: "(json \<Rightarrow> string option) \<Rightarrow> obj \<Rightarrow> channel_message option" where
  "channel_of_json time_of d =
     Option.bind (read_str (jget d ''channel'')) (\<lambda>channel.
     Option.bind (read_str (jget d ''channel_user_id'')) (\<lambda>user.
     Option.bind (read_str (jget d ''user_handle'')) (\<lambda>handle.
     Option.bind (read_opt_str (jget d ''text'')) (\<lambda>txt.
     Option.bind (read_dicts (dget_or d ''attachments'' (JList []))) (\<lambda>attachments.
     Option.bind (read_opt_str (jget d ''voice_audio_ref'')) (\<lambda>voice.
     Option.bind (read_opt_str (jget d ''thread_id'')) (\<lambda>thread.
     Option.bind (read_str (jget d ''trust_level'')) (\<lambda>trust.
     Option.bind (time_of (jget d ''arrived_at'')) (\<lambda>arrived.
     Option.bind (read_dict (dget_or d ''metadata'' (JObj []))) (\<lambda>metadata.
       let m = \<lparr>cm_channel = channel, cm_user_id = user, cm_handle = handle, cm_text = txt, cm_attachments = attachments,
                 cm_voice = voice, cm_thread = thread, cm_trust = trust, cm_arrived = arrived, cm_metadata = metadata\<rparr>
       in if within_limits m then Some m else None))))))))))"

text \<open>\<open>event_id\<close>: the provider's own id where the metadata has one, else a digest of the message.\<close>

definition id_candidate :: "(json \<Rightarrow> string) \<Rightarrow> obj \<Rightarrow> string \<Rightarrow> string option" where
  "id_candidate str_of metadata key =
     (let v = jget metadata key; s = strip (printed str_of v)
      in case v of JStr _ \<Rightarrow> if s = [] then None else Some s
         | JInt _ \<Rightarrow> if s = [] then None else Some s
         | JBool _ \<Rightarrow> if s = [] then None else Some s
         | _ \<Rightarrow> None)"

definition message_event_id :: "(json \<Rightarrow> string) \<Rightarrow> (obj \<Rightarrow> string) \<Rightarrow> channel_message \<Rightarrow> string" where
  "message_event_id str_of digest m =
     (case List.map_filter (id_candidate str_of (cm_metadata m)) [''message_id'', ''event_id'', ''update_id'', ''sid''] of
        i # _ \<Rightarrow> i | [] \<Rightarrow> digest (channel_json m))"

definition channel_source :: "channel_message \<Rightarrow> string" where
  "channel_source m = ''glc.channel.'' @ cm_channel m"

definition or_text :: "string option \<Rightarrow> string \<Rightarrow> string" where
  "or_text s d = (case s of None \<Rightarrow> d | Some t \<Rightarrow> if t = [] then d else t)"

definition channel_envelope :: "string \<Rightarrow> channel_message \<Rightarrow> envelope" where
  "channel_envelope eid m = \<lparr>en_id = eid, en_source = channel_source m, en_type = ''channel.message.received'',
     en_subject = Some (or_text (cm_thread m) (cm_user_id m)), en_data = channel_json m, en_actor = None\<rparr>"

section \<open>The reply\<close>

definition report_nodes :: "obj \<Rightarrow> obj list result" where
  "report_nodes outcome =
     bind_r (as_record (dget_or outcome ''graph'' (JObj []))) (\<lambda>g.
     bind_r (as_record (dget_or g ''nodes'' (JObj []))) (\<lambda>ns. map_r as_record (map snd ns)))"

definition gate_waits :: "string list \<Rightarrow> obj list \<Rightarrow> json list" where
  "gate_waits gates nodes =
     map (\<lambda>n. dget_or n ''wait'' (JObj []))
       (filter (\<lambda>n. jget n ''state'' = JStr ''waiting'' \<and> jget n ''skill'' \<in> JStr ` set gates) nodes)"

fun joinable :: "json \<Rightarrow> string result" where
  "joinable (JStr s) = Inr s"
| "joinable v = Inl TypeError"

definition choices_suffix :: "json \<Rightarrow> string result" where
  "choices_suffix v =
     (if \<not> truthy v then Inr []
      else bind_r (iterated v) (\<lambda>xs. bind_r (map_r joinable xs) (\<lambda>ss. Inr ('' Choices: '' @ join '', '' ss))))"

definition waiting_text :: "(json \<Rightarrow> string) \<Rightarrow> string list \<Rightarrow> string \<Rightarrow> obj \<Rightarrow> json result" where
  "waiting_text str_of gates rid outcome =
     bind_r (report_nodes outcome) (\<lambda>nodes.
       let other = JStr (''Work started and waiting for an external result. Run: '' @ rid) in
       case gate_waits gates nodes of
         [a] \<Rightarrow> bind_r (as_record a) (\<lambda>w.
             if truthy (jget w ''question'')
             then bind_r (choices_suffix (jget w ''choices'')) (\<lambda>c.
               Inr (JStr (''Approval needed: '' @ printed str_of (jget w ''question'') @ c)))
             else Inr other)
       | _ \<Rightarrow> Inr other)"

text \<open>\<open>_channel_reply\<close>; \<open>run_id\<close> is read where a branch prints it.\<close>

definition outcome_reply_text :: "(json \<Rightarrow> string) \<Rightarrow> string list \<Rightarrow> obj \<Rightarrow> json result" where
  "outcome_reply_text str_of gates outcome =
     (case dget outcome ''status'' of None \<Rightarrow> Inl KeyError
      | Some status \<Rightarrow>
          let rid = printed str_of (jget outcome ''run_id'') in
          if status = JStr ''completed'' then Inr (or_else (jget outcome ''answer'') (JStr ''Completed.''))
          else if status = JStr ''waiting'' then waiting_text str_of gates rid outcome
          else Inr (JStr (''I could not complete that request. Run: '' @ rid)))"

definition channel_reply :: "(json \<Rightarrow> string) \<Rightarrow> string list \<Rightarrow> channel_message \<Rightarrow> obj \<Rightarrow> obj result" where
  "channel_reply str_of gates m outcome =
     bind_r (outcome_reply_text str_of gates outcome) (\<lambda>txt.
       Inr [(''channel'', JStr (cm_channel m)), (''channel_user_id'', JStr (cm_user_id m)), (''text'', txt),
         (''attachments'', JList []), (''voice_audio_ref'', JNull), (''thread_id'', opt_json (cm_thread m))])"

section \<open>An approval parked in the same conversation\<close>

record channel_state =
  ch_events :: event_state
  ch_graph :: graph_store

definition same_conversation :: "channel_message \<Rightarrow> event_record \<Rightarrow> bool" where
  "same_conversation m r \<longleftrightarrow>
     jget (en_data (er_event r)) ''channel'' = JStr (cm_channel m) \<and>
     jget (en_data (er_event r)) ''channel_user_id'' = JStr (cm_user_id m) \<and>
     jget (en_data (er_event r)) ''thread_id'' = opt_json (cm_thread m)"

definition approval_waits :: "string list \<Rightarrow> snapshot \<Rightarrow> obj list" where
  "approval_waits gates s =
     filter (\<lambda>w. w \<noteq> [] \<and> jget w ''event_type'' = JStr ''approval.received'')
       (List.map_filter (\<lambda>(nid, n). if n_state n = Waiting \<and> n_skill n \<in> set gates then n_wait n else None) (sn_nodes s))"

definition decision_waits ::
  "(string \<Rightarrow> string) \<Rightarrow> string list \<Rightarrow> graph_store \<Rightarrow> ev_decision \<Rightarrow> (string \<times> obj) option result" where
  "decision_waits path_of gates gs d =
     (case dc_run_id d of None \<Rightarrow> Inr None
      | Some rid \<Rightarrow>
          if rid = [] then Inr None
          else (case snapshot_run path_of gs rid of
              Inl e \<Rightarrow> if e = KeyError then Inr None else Inl e
            | Inr s \<Rightarrow> (case approval_waits gates s of [w] \<Rightarrow> Inr (Some (rid, w)) | _ \<Rightarrow> Inr None)))"

fun first_found :: "('a \<Rightarrow> 'b option result) \<Rightarrow> 'a list \<Rightarrow> 'b option result" where
  "first_found f [] = Inr None"
| "first_found f (x # xs) = bind_r (f x) (\<lambda>r. case r of None \<Rightarrow> first_found f xs | Some y \<Rightarrow> Inr (Some y))"

definition waiting_approval ::
  "(string \<Rightarrow> string) \<Rightarrow> string list \<Rightarrow> channel_message \<Rightarrow> channel_state \<Rightarrow> (string \<times> obj) option result" where
  "waiting_approval path_of gates m st =
     first_found (\<lambda>r. first_found (decision_waits path_of gates (ch_graph st)) (rev (er_decisions r)))
       (filter (same_conversation m) (rev (es_events (ch_events st))))"

definition approval_payload :: "channel_message \<Rightarrow> obj" where
  "approval_payload m = [(''response'', JStr (or_text (cm_text m) [])), (''channel'', JStr (cm_channel m)),
     (''channel_user_id'', JStr (cm_user_id m)), (''thread_id'', opt_json (cm_thread m))]"

text \<open>\<open>_resume_channel_approval\<close> up to the run it resumes.\<close>

definition resume_approval ::
  "(json \<Rightarrow> string) \<Rightarrow> (string \<Rightarrow> string) \<Rightarrow> string list \<Rightarrow> channel_message \<Rightarrow> channel_state \<Rightarrow>
   string option result \<times> channel_state" where
  "resume_approval str_of path_of gates m st =
     (case waiting_approval path_of gates m st of
        Inl e \<Rightarrow> (Inl e, st)
      | Inr None \<Rightarrow> (Inr None, st)
      | Inr (Some (rid, w)) \<Rightarrow>
          (case dget w ''handle'' of None \<Rightarrow> (Inl KeyError, st)
           | Some h \<Rightarrow>
               let (r, gs) = complete_waiting path_of (ch_graph st) (printed str_of h) ''approval.received''
                     (approval_payload m) True
               in (bind_r r (\<lambda>c. Inr (if c = None then None else Some rid)), st\<lparr>ch_graph := gs\<rparr>)))"

section \<open>The message's request\<close>

text \<open>Exception classes with their subclasses.\<close>

definition value_errors :: "py_error list" where
  "value_errors = [ValueError, GraphMutationError, CapabilityError, PlannerOutputError, EditError, CommandError]"

definition runtime_errors :: "py_error list" where
  "runtime_errors = [RuntimeError, BudgetRefused, VerifierError, SkillError, JudgeUnparseable]"

text \<open>What a set of names in an environment variable configures.\<close>

definition named_set :: "string option \<Rightarrow> string list" where
  "named_set v = filter (\<lambda>s. s \<noteq> []) (map strip (split_on (CHR '','') (case v of None \<Rightarrow> [] | Some s \<Rightarrow> s)))"

definition message_principal :: "channel_message \<Rightarrow> string" where
  "message_principal m =
     (case jget (cm_metadata m) ''glc_principal_id'' of
        JStr s \<Rightarrow> if strip s = [] then cm_channel m @ '':'' @ cm_user_id m else s
      | _ \<Rightarrow> cm_channel m @ '':'' @ cm_user_id m)"

definition message_authority :: "(string \<Rightarrow> string option) \<Rightarrow> channel_message \<Rightarrow> string list" where
  "message_authority env m =
     (if cm_trust m = ''owner_paired'' then named_set (env ''S17_CHANNEL_ALLOWED_SIDE_EFFECTS'') else [])"

definition message_request :: "(string \<Rightarrow> string option) \<Rightarrow> string \<Rightarrow> channel_message \<Rightarrow> run_request" where
  "message_request env eid m =
     \<lparr>rq_prompt = Some (or_text (cm_text m) ''Respond to the attached channel message.''),
       rq_scope = Some \<lparr>sc_tenant = (case env ''S17_CHANNEL_TENANT'' of None \<Rightarrow> ''local'' | Some t \<Rightarrow> t),
         sc_project = Some ''channels'', sc_user = Some (message_principal m), sc_agent = Some ''s17-channel-agent'',
         sc_run = None\<rparr>,
       rq_source_uri = Some (''channel://'' @ cm_channel m @ ''/'' @ eid),
       rq_source_author = Some (or_text (Some (cm_handle m)) (cm_user_id m)),
       rq_respond_as = ''text'', rq_allowed = message_authority env m,
       rq_evidence = [(''channel_message'', JObj (channel_json m))],
       rq_budget = None, rq_principal = None, rq_transport = True, rq_llm = True\<rparr>"

section \<open>From arrival to reply\<close>

record channel_args =
  ca_str :: "json \<Rightarrow> string"
  ca_digest :: "obj \<Rightarrow> string"
  ca_path :: "string \<Rightarrow> string"
  ca_gates :: "string list"
  ca_limit :: int
  ca_env :: "string \<Rightarrow> string option"

text \<open>What an arrival comes to: a reply given before, a run its approval resumes, or a run to start.\<close>

datatype channel_outcome = Replied obj | Resumes string | Starts run_request

definition settled_reply :: "event_record \<Rightarrow> obj option" where
  "settled_reply r = (case find (\<lambda>d. dc_reply d \<noteq> None) (er_decisions r) of None \<Rightarrow> None | Some d \<Rightarrow> dc_reply d)"

definition message_id :: "channel_args \<Rightarrow> channel_message \<Rightarrow> string" where
  "message_id a m = message_event_id (ca_str a) (ca_digest a) m"

definition answer_or_work ::
  "channel_args \<Rightarrow> channel_message \<Rightarrow> obj option \<Rightarrow> channel_state \<Rightarrow> channel_outcome result \<times> channel_state" where
  "answer_or_work a m prior st =
     (case prior of Some reply \<Rightarrow> (Inr (Replied reply), st)
      | None \<Rightarrow>
          (case resume_approval (ca_str a) (ca_path a) (ca_gates a) m st of
             (Inl e, st') \<Rightarrow> (Inl e, st')
           | (Inr (Some rid), st') \<Rightarrow> (Inr (Resumes rid), st')
           | (Inr None, st') \<Rightarrow> (Inr (Starts (message_request (ca_env a) (message_id a m) m)), st')))"

text \<open>An id too long for an event is a validation error, a kind of value error.\<close>

definition channel_arrive ::
  "channel_args \<Rightarrow> int \<Rightarrow> string option \<Rightarrow> channel_message \<Rightarrow> channel_state \<Rightarrow> channel_outcome result \<times> channel_state" where
  "channel_arrive a now authorization m st =
     (case require_token (ca_env a ''S17_CHANNEL_BRIDGE_TOKEN'') authorization of
        Some e \<Rightarrow> (Inl e, st)
      | None \<Rightarrow>
          if length (message_id a m) > 500 then (Inl ValueError, st)
          else let ((r, gone), fresh, es) = ingest (ca_limit a) now (channel_envelope (message_id a m) m) (ch_events st)
               in answer_or_work a m (if fresh then None else settled_reply r) (st\<lparr>ch_events := es\<rparr>))"

text \<open>
  The second step, when the run has returned. A resumed run is noted as the answer to an approval, a run of its own as
  a direct request.
\<close>

definition reply_decision :: "bool \<Rightarrow> channel_message \<Rightarrow> obj \<Rightarrow> obj \<Rightarrow> (json \<Rightarrow> string) \<Rightarrow> ev_decision" where
  "reply_decision resumes m outcome reply str_of =
     \<lparr>dc_subscription = (if resumes then ''channel-approval'' else ''channel-direct''), dc_relevant = True,
       dc_reason = [], dc_goal = (if resumes then or_text (cm_text m) []
                                  else or_text (cm_text m) ''Respond to the attached channel message.''),
       dc_refused_by = None, dc_triage_cost = None, dc_acted = None,
       dc_run_id = Some (printed str_of (jget outcome ''run_id'')),
       dc_run_status = Some (printed str_of (jget outcome ''status'')), dc_failed = False, dc_reply = Some reply\<rparr>"

definition channel_finish ::
  "channel_args \<Rightarrow> int \<Rightarrow> bool \<Rightarrow> channel_message \<Rightarrow> obj \<Rightarrow> channel_state \<Rightarrow> obj result \<times> channel_state" where
  "channel_finish a now resumes m outcome st =
     (case channel_reply (ca_str a) (ca_gates a) m outcome of
        Inl e \<Rightarrow> (Inl e, st)
      | Inr reply \<Rightarrow> (Inr reply, st\<lparr>ch_events := add_decision now (channel_source m) (message_id a m)
            (reply_decision resumes m outcome reply (ca_str a)) (ch_events st)\<rparr>))"

text \<open>A run that raises: a direct request answers 503 for its value and runtime errors, a resumed one hands the error on.\<close>

definition channel_failure :: "bool \<Rightarrow> py_error \<Rightarrow> py_error" where
  "channel_failure resumes e =
     (if \<not> resumes \<and> (e \<in> set value_errors \<or> e \<in> set runtime_errors) then HTTPException 503 else e)"

section \<open>The other routes of a run\<close>

definition run_failure :: "py_error \<Rightarrow> py_error" where
  "run_failure e = (if e \<in> set value_errors then HTTPException 422
                    else if e \<in> set runtime_errors then HTTPException 503 else e)"

definition resume_failure :: "py_error \<Rightarrow> py_error" where
  "resume_failure e = (if e = KeyError then HTTPException 404
                       else if e \<in> set runtime_errors then HTTPException 503 else e)"

text \<open>\<open>POST /completions\<close> up to the run: nothing, or the run and the node whose wait is over.\<close>

definition completion_arrive ::
  "channel_args \<Rightarrow> string option \<Rightarrow> string \<Rightarrow> string \<Rightarrow> obj \<Rightarrow> bool \<Rightarrow> channel_state \<Rightarrow>
   (string \<times> string) option result \<times> channel_state" where
  "completion_arrive a authorization handle etype payload success st =
     (case require_completion (ca_env a) authorization of
        Some e \<Rightarrow> (Inl e, st)
      | None \<Rightarrow> let (r, gs) = complete_waiting (ca_path a) (ch_graph st) handle etype payload success
               in (bind_r r (\<lambda>c. Inr (map_option (\<lambda>(rid, nid, e). (rid, nid)) c)), st\<lparr>ch_graph := gs\<rparr>))"

text \<open>\<open>_channel_origin\<close>: who asked, recovered from the run's context.\<close>

definition channel_origin ::
  "(json \<Rightarrow> string option) \<Rightarrow> (string \<Rightarrow> string) \<Rightarrow> graph_store \<Rightarrow> string \<Rightarrow> channel_message option result" where
  "channel_origin time_of path_of gs rid =
     (case context_run path_of gs rid of
        Inl e \<Rightarrow> if e = KeyError \<or> e \<in> set value_errors then Inr None else Inl e
      | Inr ctx \<Rightarrow>
          bind_r (as_record (dget_or ctx ''initial_evidence'' (JObj []))) (\<lambda>ev.
            let raw = jget ev ''channel_message''
            in if truthy raw then (case raw of JObj d \<Rightarrow> Inr (channel_of_json time_of d) | _ \<Rightarrow> Inr None)
               else Inr None))"

text \<open>The reply that \<open>POST /completions\<close> sends to the channel after the run, if any.\<close>

definition late_reply ::
  "channel_args \<Rightarrow> (json \<Rightarrow> string option) \<Rightarrow> string \<Rightarrow> obj \<Rightarrow> channel_state \<Rightarrow> obj option result" where
  "late_reply a time_of rid outcome st =
     bind_r (channel_origin time_of (ca_path a) (ch_graph st) rid) (\<lambda>origin.
       case origin of None \<Rightarrow> Inr None
       | Some m \<Rightarrow>
           (case dget outcome ''status'' of None \<Rightarrow> Inl KeyError
            | Some s \<Rightarrow> if s \<in> {JStr ''completed'', JStr ''failed''}
                       then bind_r (channel_reply (ca_str a) (ca_gates a) m outcome) (\<lambda>r. Inr (Some r))
                       else Inr None))"

text \<open>\<open>_journal\<close>: a run in the shape its readers take.\<close>

definition run_journal :: "(string \<Rightarrow> string) \<Rightarrow> graph_store \<Rightarrow> string \<Rightarrow> obj result" where
  "run_journal path_of gs rid =
     (case snapshot_run path_of gs rid of
        Inl e \<Rightarrow> Inl (if e = KeyError then HTTPException 404 else e)
      | Inr s \<Rightarrow> bind_r (events_run path_of gs rid) (\<lambda>evs.
          Inr [(''run_id'', JStr rid), (''finished'', JBool (sn_finished s)), (''nodes'', JObj (map node_as_json (sn_nodes s))),
            (''edges'', JList (map (\<lambda>(a, b). JList [JStr a, JStr b]) (sn_edges s))),
            (''events'', JList (map event_as_json evs))]))"

end
