(* ===== verification/Channel_Claims.thy ===== *)
theory Channel_Claims
  imports Channel Runtime_Claims Event_History
begin

text \<open>
  What the channel route promises, for any interleaving of messages with each other and with the other users of the two
  stores: a reply goes to the conversation that asked, a message that was answered is answered the same way again, authority
  comes from the owner and from the configuration, and a late reply finds its way back through the checkpoint. And where it
  breaks: an identity shared by two conversations, a second delivery before the first answer, a refusal typed as a message.
\<close>

section \<open>The route as a system\<close>

text \<open>
  The handlers under way, the messages seen and the replies given. Other code writes to the same stores: the event engine, whose
  decisions carry no reply, and every user of the graph store.
\<close>

record channel_system =
  cy_state :: channel_state
  cy_flight :: "(bool \<times> channel_message) list"
  cy_seen :: "channel_message list"
  cy_answers :: "(channel_message \<times> obj) list"

definition outcome_flight :: "channel_message \<Rightarrow> channel_outcome result \<Rightarrow> (bool \<times> channel_message) list" where
  "outcome_flight m res = (case res of Inr (Resumes rid) \<Rightarrow> [(True, m)] | Inr (Starts rq) \<Rightarrow> [(False, m)] | _ \<Rightarrow> [])"

definition outcome_answers :: "channel_message \<Rightarrow> channel_outcome result \<Rightarrow> (channel_message \<times> obj) list" where
  "outcome_answers m res = (case res of Inr (Replied r) \<Rightarrow> [(m, r)] | _ \<Rightarrow> [])"

definition finish_answers :: "channel_message \<Rightarrow> obj result \<Rightarrow> (channel_message \<times> obj) list" where
  "finish_answers m res = (case res of Inr r \<Rightarrow> [(m, r)] | Inl e \<Rightarrow> [])"

definition without_reply :: "store_op \<Rightarrow> bool" where
  "without_reply op = (case op of Add_decision now source eid d \<Rightarrow> dc_reply d = None | _ \<Rightarrow> True)"

inductive channel_step :: "channel_args \<Rightarrow> (edge list \<Rightarrow> bool) \<Rightarrow> channel_system \<Rightarrow> channel_system \<Rightarrow> bool" for a is_dag where
  cs_arrive: "channel_arrive a now authorization m (cy_state s) = (res, st) \<Longrightarrow>
    channel_step a is_dag s (s\<lparr>cy_state := st, cy_flight := cy_flight s @ outcome_flight m res, cy_seen := m # cy_seen s,
      cy_answers := outcome_answers m res @ cy_answers s\<rparr>)"
| cs_finish: "i < length (cy_flight s) \<Longrightarrow> cy_flight s ! i = (k, m) \<Longrightarrow>
    channel_finish a now k m outcome (cy_state s) = (res, st) \<Longrightarrow>
    channel_step a is_dag s (s\<lparr>cy_state := st, cy_flight := take i (cy_flight s) @ drop (Suc i) (cy_flight s),
      cy_answers := finish_answers m res @ cy_answers s\<rparr>)"
| cs_fail: "i < length (cy_flight s) \<Longrightarrow>
    channel_step a is_dag s (s\<lparr>cy_flight := take i (cy_flight s) @ drop (Suc i) (cy_flight s)\<rparr>)"
| cs_events: "without_reply op \<Longrightarrow> channel_step a is_dag s
    (s\<lparr>cy_state := (cy_state s)\<lparr>ch_events := apply_op (ca_limit a) op (ch_events (cy_state s))\<rparr>\<rparr>)"
| cs_graph: "graph_step is_dag (ca_path a) (ch_graph (cy_state s)) g \<Longrightarrow> channel_step a is_dag s
    (s\<lparr>cy_state := (cy_state s)\<lparr>ch_graph := g\<rparr>\<rparr>)"

definition idle_channels :: channel_system where
  "idle_channels = \<lparr>cy_state = \<lparr>ch_events = empty_events, ch_graph = empty_store\<rparr>, cy_flight = [], cy_seen = [], cy_answers = []\<rparr>"

section \<open>Identities and addresses\<close>

definition message_key :: "channel_args \<Rightarrow> channel_message \<Rightarrow> string" where
  "message_key a m = event_key (channel_source m) (message_id a m)"

definition addressed :: "channel_message \<Rightarrow> obj \<Rightarrow> bool" where
  "addressed m r \<longleftrightarrow> jget r ''channel'' = JStr (cm_channel m) \<and> jget r ''channel_user_id'' = JStr (cm_user_id m) \<and>
     jget r ''thread_id'' = opt_json (cm_thread m)"

lemma channel_reply_addressed: "channel_reply str_of gates m outcome = Inr r \<Longrightarrow> addressed m r"
  by (auto simp: channel_reply_def bind_r_Inr addressed_def jget_def dget_or_def)

lemma channel_reply_voiceless:
  "channel_reply str_of gates m outcome = Inr r \<Longrightarrow> dkeys r = [''channel'', ''channel_user_id'', ''text'', ''attachments'', ''voice_audio_ref'', ''thread_id'']"
  by (auto simp: channel_reply_def bind_r_Inr)

lemma record_key_envelope [simp]: "er_event r = channel_envelope (message_id a m) m \<Longrightarrow> record_key r = message_key a m"
  by (simp add: record_key_def message_key_def channel_envelope_def)

lemma is_record_key: "is_record (channel_source m) (message_id a m) r \<Longrightarrow> record_key r = message_key a m"
  by (simp add: is_record_def record_key_def message_key_def)

section \<open>Every stored reply belongs to a message that was seen\<close>

definition reply_known :: "channel_args \<Rightarrow> channel_message list \<Rightarrow> string \<Rightarrow> obj \<Rightarrow> bool" where
  "reply_known a seen key r = (\<exists>m \<in> set seen. message_key a m = key \<and> addressed m r)"

definition replies_known :: "channel_args \<Rightarrow> channel_message list \<Rightarrow> event_state \<Rightarrow> bool" where
  "replies_known a seen es =
     (\<forall>r \<in> set (es_events es). \<forall>d \<in> set (er_decisions r). \<forall>x. dc_reply d = Some x \<longrightarrow> reply_known a seen (record_key r) x)"

definition channel_inv :: "channel_args \<Rightarrow> channel_system \<Rightarrow> bool" where
  "channel_inv a s \<longleftrightarrow>
     history_ok (ca_limit a) (ch_events (cy_state s)) \<and> replies_known a (cy_seen s) (ch_events (cy_state s)) \<and>
     snd ` set (cy_flight s) \<subseteq> set (cy_seen s) \<and>
     (\<forall>(m, r) \<in> set (cy_answers s). m \<in> set (cy_seen s) \<and> reply_known a (cy_seen s) (message_key a m) r)"

lemma reply_known_more: "reply_known a seen key r \<Longrightarrow> set seen \<subseteq> set seen' \<Longrightarrow> reply_known a seen' key r"
  by (auto simp: reply_known_def)

lemma replies_known_more: "replies_known a seen es \<Longrightarrow> set seen \<subseteq> set seen' \<Longrightarrow> replies_known a seen' es"
  by (meson replies_known_def reply_known_more)

text \<open>What a store operation leaves of the records: those of before, and perhaps a new one without decisions.\<close>

lemma ingest_events:
  "r \<in> set (es_events (snd (snd (ingest cap now e st)))) \<Longrightarrow> r \<in> set (es_events st) \<or> er_decisions r = []"
  by (auto simp: ingest_def Let_def compact_history_def dest: in_set_dropD split: option.splits if_splits)

lemma replies_known_sub:
  "replies_known a seen es \<Longrightarrow> (\<And>r. r \<in> set (es_events es') \<Longrightarrow> r \<in> set (es_events es) \<or> er_decisions r = []) \<Longrightarrow>
   replies_known a seen es'"
  unfolding replies_known_def by (metis empty_iff empty_set)

lemma find_record: "find p xs = Some x \<Longrightarrow> x \<in> set xs \<and> p x"
  by (auto simp: find_Some_iff)

lemma replies_known_add:
  assumes "replies_known a seen es"
    and "\<And>x. dc_reply d = Some x \<Longrightarrow> reply_known a seen (event_key source eid) x"
  shows "replies_known a seen (add_decision now source eid d es)"
proof (cases "find (is_record source eid) (es_events es)")
  case None
  then show ?thesis using assms(1) by (simp add: add_decision_def replies_known_def)
next
  case (Some r)
  note r = find_record [OF Some]
  show ?thesis
  proof (cases "list_ex (\<lambda>x. dc_subscription x = dc_subscription d) (er_decisions r)")
    case False
    let ?f = "\<lambda>r. r\<lparr>er_decisions := er_decisions r @ [d]\<rparr>"
    have "reply_known a seen (record_key y) x"
      if y: "y \<in> set (update_first (is_record source eid) ?f (es_events es))" and dx: "d' \<in> set (er_decisions y)" "dc_reply d' = Some x" for y d' x
    proof -
      from update_first_mem [OF y] consider "y \<in> set (es_events es)" | "y = ?f r" using Some by auto
      then show ?thesis
      proof cases
        case 2
        then have key: "record_key y = event_key source eid" using r by (simp add: record_key_def is_record_def)
        from 2 dx consider "d' \<in> set (er_decisions r)" | "d' = d" by auto
        then show ?thesis
          using assms dx r key unfolding replies_known_def by cases (auto simp: record_key_def 2)
      qed (use assms(1) dx in \<open>auto simp: replies_known_def\<close>)
    qed
    then show ?thesis using Some False by (simp add: add_decision_def replies_known_def)
  qed (use Some assms(1) in \<open>simp add: add_decision_def\<close>)
qed

lemma replies_known_op:
  assumes "replies_known a seen es" and "without_reply op"
  shows "replies_known a seen (apply_op cap op es)"
proof (cases op)
  case (Ingest now e)
  then show ?thesis using replies_known_sub [OF assms(1) ingest_events] by (simp add: apply_op_def)
next
  case (Add_decision now source eid d)
  then show ?thesis using replies_known_add [OF assms(1), of d source eid now] assms(2) by (simp add: apply_op_def without_reply_def)
qed (use assms(1) in \<open>auto simp: apply_op_def replies_known_def put_subscription_def window_record_def window_reserve_def
    put_window_def store_refuse_def beat_def Let_def\<close>)

lemma history_ok_index: "history_ok cap es \<Longrightarrow> x \<in> set (es_events es) \<Longrightarrow> dget (es_index es) (record_key x) = Some (er_sequence x)"
  by (simp add: history_ok_def)

section \<open>One arrival\<close>

lemma resume_approval_events [simp]: "ch_events (snd (resume_approval str_of path gates m st)) = ch_events st"
  by (simp add: resume_approval_def split: sum.split option.split prod.split)

lemma answer_or_work_events [simp]: "ch_events (snd (answer_or_work a m prior st)) = ch_events st"
proof (cases prior)
  case None
  show ?thesis
    using resume_approval_events [of "ca_str a" "ca_path a" "ca_gates a" m st]
    by (cases "resume_approval (ca_str a) (ca_path a) (ca_gates a) m st")
      (auto simp: answer_or_work_def None split: sum.split option.split)
qed (simp add: answer_or_work_def)

lemma answer_or_work_replied:
  "answer_or_work a m prior st = (Inr (Replied r), st') \<longleftrightarrow> prior = Some r \<and> st' = st"
  by (auto simp: answer_or_work_def split: option.splits prod.splits sum.splits)

text \<open>A message delivered before, whose record is still kept, meets that record and changes nothing.\<close>

lemma ingest_known_record:
  assumes "history_ok cap es" and "fst (snd (ingest cap now e es)) = False"
  shows "snd (snd (ingest cap now e es)) = es"
    and "settled_reply (fst (fst (ingest cap now e es))) = Some r \<Longrightarrow>
      fst (fst (ingest cap now e es)) \<in> set (es_events es) \<and>
      record_key (fst (fst (ingest cap now e es))) = event_key (en_source e) (en_id e)"
proof -
  from assms(2) obtain n where n: "dget (es_index es) (event_key (en_source e) (en_id e)) = Some n"
    by (auto simp: ingest_def Let_def split: option.splits)
  then show "snd (snd (ingest cap now e es)) = es" by (simp add: ingest_def split: option.split)
  assume settled: "settled_reply (fst (fst (ingest cap now e es))) = Some r"
  then obtain x where x: "find (\<lambda>r. er_sequence r = n) (es_events es) = Some x"
    using n by (cases "find (\<lambda>r. er_sequence r = n) (es_events es)") (auto simp: ingest_def settled_reply_def)
  have "x \<in> set (es_events es)" "er_sequence x = n" using find_record [OF x] by auto
  moreover from this have "dget (es_index es) (record_key x) = Some n" using assms(1) by (auto simp: history_ok_def)
  then have "record_key x = event_key (en_source e) (en_id e)" using n assms(1) by (auto simp: history_ok_def)
  ultimately show "fst (fst (ingest cap now e es)) \<in> set (es_events es) \<and>
      record_key (fst (fst (ingest cap now e es))) = event_key (en_source e) (en_id e)"
    using n x by (simp add: ingest_def)
qed

lemma channel_arrive_effect:
  assumes "channel_arrive a now authorization m st = (res, st')"
  shows "ch_events st' = ch_events st \<or>
    ch_events st' = snd (snd (ingest (ca_limit a) now (channel_envelope (message_id a m) m) (ch_events st)))"
proof -
  obtain r gone fresh es where i: "ingest (ca_limit a) now (channel_envelope (message_id a m) m) (ch_events st) = ((r, gone), fresh, es)"
    by (metis surj_pair)
  show ?thesis
  proof (cases "require_token (ca_env a ''S17_CHANNEL_BRIDGE_TOKEN'') authorization = None \<and> length (message_id a m) \<le> 500")
    case True
    then have "(res, st') = answer_or_work a m (if fresh then None else settled_reply r) (st\<lparr>ch_events := es\<rparr>)"
      using assms i by (simp add: channel_arrive_def)
    then have "st' = snd (answer_or_work a m (if fresh then None else settled_reply r) (st\<lparr>ch_events := es\<rparr>))"
      by (metis snd_conv)
    then have "ch_events st' = es" by simp
    with i show ?thesis by simp
  qed (use assms in \<open>auto simp: channel_arrive_def split: option.splits if_splits prod.splits\<close>)
qed

lemma channel_arrive_replied:
  assumes "history_ok (ca_limit a) (ch_events st)"
    and "channel_arrive a now authorization m st = (Inr (Replied r), st')"
  shows "\<exists>x \<in> set (es_events (ch_events st)). record_key x = message_key a m \<and> settled_reply x = Some r"
proof -
  obtain x gone fresh es where i: "ingest (ca_limit a) now (channel_envelope (message_id a m) m) (ch_events st) = ((x, gone), fresh, es)"
    by (metis surj_pair)
  have "answer_or_work a m (if fresh then None else settled_reply x) (st\<lparr>ch_events := es\<rparr>) = (Inr (Replied r), st')"
    using assms(2) i by (auto simp: channel_arrive_def split: option.splits if_splits)
  then have "\<not> fresh" "settled_reply x = Some r" by (auto simp: answer_or_work_replied split: if_splits)
  with ingest_known_record(2) [OF assms(1), of now "channel_envelope (message_id a m) m" r] i
  show ?thesis by (auto simp: message_key_def channel_envelope_def)
qed

lemma settled_reply_decision: "settled_reply x = Some r \<Longrightarrow> \<exists>d \<in> set (er_decisions x). dc_reply d = Some r"
  using find_record by (fastforce simp: settled_reply_def split: option.splits)

section \<open>The invariant\<close>

lemma channel_inv_idle [simp]: "channel_inv a idle_channels"
  by (simp add: channel_inv_def idle_channels_def replies_known_def empty_events_def history_ok_def)

lemma outcome_flight_set: "set (outcome_flight m res) \<subseteq> {(True, m), (False, m)}"
proof (cases res)
  case (Inr out)
  then show ?thesis by (cases out) (simp_all add: outcome_flight_def)
qed (simp add: outcome_flight_def)

lemma channel_inv_arrive:
  assumes inv: "channel_inv a s" and arr: "channel_arrive a now authorization m (cy_state s) = (res, st)"
  shows "channel_inv a (s\<lparr>cy_state := st, cy_flight := cy_flight s @ outcome_flight m res, cy_seen := m # cy_seen s,
      cy_answers := outcome_answers m res @ cy_answers s\<rparr>)"
proof -
  let ?seen = "m # cy_seen s"
  have old: "history_ok (ca_limit a) (ch_events (cy_state s))" "replies_known a (cy_seen s) (ch_events (cy_state s))"
    "snd ` set (cy_flight s) \<subseteq> set (cy_seen s)"
    "\<And>m r. (m, r) \<in> set (cy_answers s) \<Longrightarrow> m \<in> set (cy_seen s) \<and> reply_known a (cy_seen s) (message_key a m) r"
    using inv by (auto simp: channel_inv_def)
  have known: "replies_known a ?seen (ch_events (cy_state s))" by (rule replies_known_more [OF old(2)]) auto
  have hist: "history_ok (ca_limit a) (ch_events st)" "replies_known a ?seen (ch_events st)"
    using channel_arrive_effect [OF arr] old(1) known history_ok_ingest [OF old(1)]
      replies_known_sub [OF known ingest_events] by auto
  have fl: "snd ` set (outcome_flight m res) \<subseteq> set ?seen"
    using outcome_flight_set [of m res] by auto
  have an: "m' \<in> set ?seen \<and> reply_known a ?seen (message_key a m') r"
    if x: "(m', r) \<in> set (outcome_answers m res @ cy_answers s)" for m' r
  proof (cases "(m', r) \<in> set (cy_answers s)")
    case True
    then show ?thesis using old(4) reply_known_more [of a "cy_seen s"] by (metis insert_iff list.set(2) subset_insertI)
  next
    case False
    with x have "m' = m" "res = Inr (Replied r)"
      by (auto simp: outcome_answers_def split: sum.splits channel_outcome.splits)
    with channel_arrive_replied [OF old(1), of now authorization m r st] arr known settled_reply_decision
    show ?thesis by (fastforce simp: replies_known_def)
  qed
  then have "\<forall>(m', r) \<in> set (outcome_answers m res @ cy_answers s). m' \<in> set ?seen \<and> reply_known a ?seen (message_key a m') r"
    by blast
  moreover have "snd ` set (cy_flight s @ outcome_flight m res) \<subseteq> set ?seen" using old(3) fl by auto
  ultimately show ?thesis using hist by (simp add: channel_inv_def)
qed

lemma set_without: "set (take i xs @ drop (Suc i) xs) \<subseteq> set xs"
  by (auto dest: in_set_takeD in_set_dropD)

lemma channel_inv_finish:
  assumes inv: "channel_inv a s" and i: "i < length (cy_flight s)" "cy_flight s ! i = (k, m)"
    and fin: "channel_finish a now k m outcome (cy_state s) = (res, st)"
  shows "channel_inv a (s\<lparr>cy_state := st, cy_flight := take i (cy_flight s) @ drop (Suc i) (cy_flight s),
      cy_answers := finish_answers m res @ cy_answers s\<rparr>)"
proof -
  have old: "history_ok (ca_limit a) (ch_events (cy_state s))" "replies_known a (cy_seen s) (ch_events (cy_state s))"
    "snd ` set (cy_flight s) \<subseteq> set (cy_seen s)"
    "\<And>m r. (m, r) \<in> set (cy_answers s) \<Longrightarrow> m \<in> set (cy_seen s) \<and> reply_known a (cy_seen s) (message_key a m) r"
    using inv by (auto simp: channel_inv_def)
  have m: "m \<in> set (cy_seen s)" using i old(3) nth_mem [OF i(1)] by force
  have fl: "snd ` set (take i (cy_flight s) @ drop (Suc i) (cy_flight s)) \<subseteq> set (cy_seen s)"
    using set_without [of i "cy_flight s"] old(3) by blast
  show ?thesis
  proof (cases "channel_reply (ca_str a) (ca_gates a) m outcome")
    case (Inl e)
    then have "st = cy_state s" "res = Inl e" using fin by (simp_all add: channel_finish_def)
    with old fl show ?thesis by (auto simp: channel_inv_def finish_answers_def)
  next
    case (Inr r)
    let ?d = "reply_decision k m outcome r (ca_str a)"
    have st: "st = (cy_state s)\<lparr>ch_events := add_decision now (channel_source m) (message_id a m) ?d (ch_events (cy_state s))\<rparr>"
      "res = Inr r" using fin Inr by (auto simp: channel_finish_def)
    have r: "reply_known a (cy_seen s) (message_key a m) r"
      using m channel_reply_addressed [OF Inr] by (auto simp: reply_known_def)
    have "replies_known a (cy_seen s) (ch_events st)"
      unfolding st using replies_known_add [OF old(2), of ?d "channel_source m" "message_id a m" now] r
      by (simp add: reply_decision_def message_key_def)
    with st old fl r m history_ok_add_decision [OF old(1)] show ?thesis
      by (auto simp: channel_inv_def finish_answers_def)
  qed
qed

interpretation channel_route: invariant_system "channel_step a is_dag" "channel_inv a" for a is_dag
proof
  fix s t
  assume inv: "channel_inv a s" and step: "channel_step a is_dag s t"
  from step show "channel_inv a t"
  proof cases
    case cs_arrive
    then show ?thesis using channel_inv_arrive [OF inv] by simp
  next
    case cs_finish
    then show ?thesis using channel_inv_finish [OF inv] by simp
  next
    case (cs_fail i)
    then show ?thesis using inv set_without [of i "cy_flight s"] by (auto simp: channel_inv_def)
  next
    case cs_events
    then show ?thesis using inv history_ok_op replies_known_op by (auto simp: channel_inv_def)
  next
    case cs_graph
    then show ?thesis using inv by (simp add: channel_inv_def)
  qed
qed

section \<open>Replies\<close>

text \<open>C26: Whatever reply the route gives goes to the conversation that asked: in every interleaving of messages, runs and other
  users of the stores, a message is answered with its own channel, user and thread, provided that no two messages of
  different conversations share an identity.\<close>

theorem reply_goes_to_its_conversation:
  assumes "(channel_step a is_dag)\<^sup>*\<^sup>* idle_channels s"
    and "\<forall>m \<in> set (cy_seen s). \<forall>m' \<in> set (cy_seen s). message_key a m = message_key a m' \<longrightarrow>
      (cm_channel m, cm_user_id m, cm_thread m) = (cm_channel m', cm_user_id m', cm_thread m')"
    and "(m, r) \<in> set (cy_answers s)"
  shows "jget r ''channel'' = JStr (cm_channel m) \<and> jget r ''channel_user_id'' = JStr (cm_user_id m) \<and>
    jget r ''thread_id'' = opt_json (cm_thread m)"
proof -
  have "channel_inv a s" using channel_route.steps_inv [OF assms(1)] by simp
  with assms(3) obtain m' where m': "m \<in> set (cy_seen s)" "m' \<in> set (cy_seen s)" "message_key a m' = message_key a m" "addressed m' r"
    by (fastforce simp: channel_inv_def reply_known_def)
  with assms(2) have "(cm_channel m, cm_user_id m, cm_thread m) = (cm_channel m', cm_user_id m', cm_thread m')" by metis
  with m'(4) show ?thesis by (simp add: addressed_def)
qed

section \<open>A settled message stays settled\<close>

definition answer_settled_as :: "string \<Rightarrow> nat \<Rightarrow> obj \<Rightarrow> event_state \<Rightarrow> bool" where
  "answer_settled_as key n r es \<longleftrightarrow> dget (es_index es) key = Some n \<and>
     (\<forall>x \<in> set (es_events es). er_sequence x = n \<longrightarrow> settled_reply x = Some r)"

lemma settled_reply_append:
  "settled_reply x = Some r \<Longrightarrow> settled_reply (x\<lparr>er_decisions := er_decisions x @ ds\<rparr>) = Some r"
proof -
  have f: "find p xs = Some d \<Longrightarrow> find p (xs @ ds) = Some d" for p :: "ev_decision \<Rightarrow> bool" and xs d
    by (induction xs) auto
  assume "settled_reply x = Some r"
  then show ?thesis by (auto simp: settled_reply_def f split: option.splits)
qed

lemma settled_as_ingest:
  assumes "answer_settled_as key n r es" and "history_ok cap es"
  shows "answer_settled_as key n r (snd (snd (ingest cap now e es)))"
proof -
  have n: "dget (es_index es) key = Some n" "n < es_next es" "\<forall>x \<in> set (es_events es). er_sequence x = n \<longrightarrow> settled_reply x = Some r"
    using assms by (auto simp: answer_settled_as_def history_ok_def)
  have "dget (es_index (snd (snd (ingest cap now e es)))) key = Some n"
    using n(1) by (auto simp: ingest_def Let_def compact_history_def split: option.split)
  moreover have "x \<in> set (es_events es) \<or> er_sequence x = es_next es"
    if "x \<in> set (es_events (snd (snd (ingest cap now e es))))" for x
    using that by (auto simp: ingest_def Let_def compact_history_def dest: in_set_dropD split: option.splits if_splits)
  ultimately show ?thesis using n unfolding answer_settled_as_def by (metis less_irrefl)
qed

lemma settled_as_add_decision:
  assumes "answer_settled_as key n r es"
  shows "answer_settled_as key n r (add_decision now source eid d es)"
proof (cases "find (is_record source eid) (es_events es)")
  case None
  then show ?thesis using assms by (simp add: add_decision_def answer_settled_as_def)
next
  case (Some x)
  let ?f = "\<lambda>r. r\<lparr>er_decisions := er_decisions r @ [d]\<rparr>"
  have "settled_reply y = Some r"
    if y: "y \<in> set (update_first (is_record source eid) ?f (es_events es))" and seq: "er_sequence y = n" for y
  proof -
    from update_first_mem [OF y] consider "y \<in> set (es_events es)" | z where "z \<in> set (es_events es)" "y = ?f z" by auto
    then show ?thesis using assms seq settled_reply_append by cases (auto simp: answer_settled_as_def)
  qed
  then show ?thesis using assms Some by (auto simp: add_decision_def answer_settled_as_def)
qed

lemma settled_as_op:
  assumes "answer_settled_as key n r es" and "history_ok cap es"
  shows "answer_settled_as key n r (apply_op cap op es)"
proof (cases op)
  case (Ingest now e)
  then show ?thesis using settled_as_ingest [OF assms] by (simp add: apply_op_def)
next
  case (Add_decision now source eid d)
  then show ?thesis using settled_as_add_decision [OF assms(1)] by (simp add: apply_op_def)
qed (use assms(1) in \<open>auto simp: apply_op_def answer_settled_as_def put_subscription_def window_record_def window_reserve_def
    put_window_def store_refuse_def beat_def Let_def\<close>)

lemma settled_as_step:
  assumes "channel_inv a s" and "answer_settled_as key n r (ch_events (cy_state s))" and "channel_step a is_dag s t"
  shows "answer_settled_as key n r (ch_events (cy_state t))"
proof -
  have h: "history_ok (ca_limit a) (ch_events (cy_state s))" using assms(1) by (simp add: channel_inv_def)
  from assms(3) show ?thesis
  proof cases
    case cs_arrive
    then show ?thesis using channel_arrive_effect [OF cs_arrive(2)] settled_as_ingest [OF assms(2) h] assms(2) by auto
  next
    case cs_finish
    then show ?thesis using settled_as_add_decision [OF assms(2)] assms(2)
      by (auto simp: channel_finish_def split: sum.splits)
  next
    case cs_events
    then show ?thesis using settled_as_op [OF assms(2) h] by simp
  qed (use assms(2) in auto)
qed

text \<open>A message that was answered is answered the same way for good: however many messages, runs and other events come
  between, a further delivery of it, as long as its record is kept, gets the reply it got and changes neither store, so
  it starts and resumes nothing.\<close>

lemma answered_message_is_not_run_again:
  assumes "(channel_step a is_dag)\<^sup>*\<^sup>* idle_channels s"
    and "x \<in> set (es_events (ch_events (cy_state s)))" and "record_key x = message_key a m" and "settled_reply x = Some r"
    and "(channel_step a is_dag)\<^sup>*\<^sup>* s t"
    and "y \<in> set (es_events (ch_events (cy_state t)))" and "record_key y = message_key a m"
    and "require_token (ca_env a ''S17_CHANNEL_BRIDGE_TOKEN'') authorization = None" and "length (message_id a m) \<le> 500"
  shows "channel_arrive a now authorization m (cy_state t) = (Inr (Replied r), cy_state t)"
proof -
  have inv: "channel_inv a s" "channel_inv a t"
    using channel_route.steps_inv [OF assms(1)] channel_route.steps_inv [OF assms(5)] by simp_all
  define n where "n = er_sequence x"
  have h: "history_ok (ca_limit a) (ch_events (cy_state s))" "history_ok (ca_limit a) (ch_events (cy_state t))"
    using inv by (simp_all add: channel_inv_def)
  have seq: "u = x" if "u \<in> set (es_events (ch_events (cy_state s)))" "er_sequence u = n" for u
    using that assms(2) h(1) unfolding n_def history_ok_def by (meson distinct_map inj_on_def)
  have "answer_settled_as (message_key a m) n r (ch_events (cy_state s))"
    unfolding answer_settled_as_def using history_ok_index [OF h(1) assms(2)] assms(3,4) seq n_def by auto
  then have t: "answer_settled_as (message_key a m) n r (ch_events (cy_state t))"
    using channel_route.steps_stable [OF assms(5) inv(1), of "\<lambda>s. answer_settled_as (message_key a m) n r (ch_events (cy_state s))"]
      settled_as_step by blast
  have "er_sequence y = n" using t history_ok_index [OF h(2) assms(6)] assms(7) by (simp add: answer_settled_as_def)
  then obtain z where z: "find (\<lambda>r. er_sequence r = n) (es_events (ch_events (cy_state t))) = Some z"
    using assms(6) by (cases "find (\<lambda>r. er_sequence r = n) (es_events (ch_events (cy_state t)))") (auto simp: find_None_iff)
  then have "settled_reply z = Some r" using t find_record [OF z] by (auto simp: answer_settled_as_def)
  moreover have "ingest (ca_limit a) now (channel_envelope (message_id a m) m) (ch_events (cy_state t)) = ((z, False), False, ch_events (cy_state t))"
    using t z by (simp add: answer_settled_as_def ingest_def message_key_def channel_envelope_def)
  ultimately show ?thesis using assms(8,9) by (simp add: channel_arrive_def answer_or_work_def)
qed

section \<open>Concrete runs of the route\<close>

definition arrived :: "channel_args \<Rightarrow> int \<Rightarrow> string option \<Rightarrow> channel_message \<Rightarrow> channel_system \<Rightarrow> channel_system" where
  "arrived a now authorization m s =
     (let (res, st) = channel_arrive a now authorization m (cy_state s)
      in s\<lparr>cy_state := st, cy_flight := cy_flight s @ outcome_flight m res, cy_seen := m # cy_seen s,
           cy_answers := outcome_answers m res @ cy_answers s\<rparr>)"

definition finished :: "channel_args \<Rightarrow> int \<Rightarrow> obj \<Rightarrow> channel_system \<Rightarrow> channel_system" where
  "finished a now outcome s =
     (let (k, m) = cy_flight s ! 0; (res, st) = channel_finish a now k m outcome (cy_state s)
      in s\<lparr>cy_state := st, cy_flight := drop 1 (cy_flight s), cy_answers := finish_answers m res @ cy_answers s\<rparr>)"

lemma arrived_step: "channel_step a is_dag s (arrived a now authorization m s)"
proof -
  obtain res st where "channel_arrive a now authorization m (cy_state s) = (res, st)" by (metis surj_pair)
  from cs_arrive [OF this] this show ?thesis by (simp add: arrived_def)
qed

lemma finished_step: "cy_flight s \<noteq> [] \<Longrightarrow> channel_step a is_dag s (finished a now outcome s)"
proof -
  assume f: "cy_flight s \<noteq> []"
  obtain k m where km: "cy_flight s ! 0 = (k, m)" by (metis surj_pair)
  obtain res st where fin: "channel_finish a now k m outcome (cy_state s) = (res, st)" by (metis surj_pair)
  from cs_finish [of 0 s k m a now outcome res st is_dag] f km fin show ?thesis by (simp add: finished_def)
qed

definition demo_message :: channel_message where
  "demo_message = \<lparr>cm_channel = ''telegram'', cm_user_id = ''7'', cm_handle = ''u'', cm_text = Some ''hi'', cm_attachments = [],
     cm_voice = None, cm_thread = None, cm_trust = ''untrusted'', cm_arrived = ''t0'', cm_metadata = [(''message_id'', JInt 5)]\<rparr>"

definition demo_channel :: "int \<Rightarrow> channel_args" where
  "demo_channel limit = \<lparr>ca_str = (\<lambda>v. case v of JInt i \<Rightarrow> str_int i | _ \<Rightarrow> []), ca_digest = (\<lambda>d. ''d''), ca_path = (\<lambda>r. r),
     ca_gates = [''request_approval''], ca_limit = limit, ca_env = (\<lambda>n. Some ''k'')\<rparr>"

definition chat_outcome :: obj where
  "chat_outcome = [(''run_id'', JStr ''r''), (''status'', JStr ''completed''), (''answer'', JStr ''done'')]"

abbreviation chat_arrived :: "int \<Rightarrow> channel_message \<Rightarrow> channel_system \<Rightarrow> channel_system" where
  "chat_arrived limit m s \<equiv> arrived (demo_channel limit) 0 (Some ''Bearer k'') m s"

definition demo_answered :: channel_system where
  "demo_answered = finished (demo_channel 10) 1 chat_outcome (chat_arrived 10 demo_message idle_channels)"

definition demo_reply :: obj where
  "demo_reply = [(''channel'', JStr ''telegram''), (''channel_user_id'', JStr ''7''), (''text'', JStr ''done''),
     (''attachments'', JList []), (''voice_audio_ref'', JNull), (''thread_id'', JNull)]"

lemma demo_flight: "cy_flight (chat_arrived 10 demo_message idle_channels) = [(False, demo_message)]"
  by code_simp

lemma demo_answers: "cy_answers demo_answered = [(demo_message, demo_reply)] \<and> cy_seen demo_answered = [demo_message]"
  by code_simp

lemma demo_answered_reachable: "(channel_step (demo_channel 10) is_dag)\<^sup>*\<^sup>* idle_channels demo_answered"
proof -
  have "(channel_step (demo_channel 10) is_dag)\<^sup>*\<^sup>* idle_channels (chat_arrived 10 demo_message idle_channels)"
    using arrived_step by (rule r_into_rtranclp)
  moreover have "channel_step (demo_channel 10) is_dag (chat_arrived 10 demo_message idle_channels) demo_answered"
    unfolding demo_answered_def by (rule finished_step) (simp add: demo_flight)
  ultimately show ?thesis by (rule rtranclp.rtrancl_into_rtrancl)
qed

theorem reply_goes_to_its_conversation_witness:
  "(demo_message, demo_reply) \<in> set (cy_answers demo_answered) \<and> jget demo_reply ''channel_user_id'' = JStr ''7''"
  using reply_goes_to_its_conversation [OF demo_answered_reachable [of dag_check], of demo_message demo_reply] demo_answers
  by (simp add: demo_message_def)

lemma demo_record:
  "map (\<lambda>x. (record_key x, settled_reply x)) (es_events (ch_events (cy_state demo_answered))) =
     [(message_key (demo_channel 10) demo_message, Some demo_reply)]"
  by code_simp

lemma answered_message_is_not_run_again_witness:
  "channel_arrive (demo_channel 10) 5 (Some ''Bearer k'') demo_message (cy_state demo_answered) =
     (Inr (Replied demo_reply), cy_state demo_answered)"
proof -
  obtain x where x: "x \<in> set (es_events (ch_events (cy_state demo_answered)))"
    "record_key x = message_key (demo_channel 10) demo_message" "settled_reply x = Some demo_reply"
    using demo_record by (cases "es_events (ch_events (cy_state demo_answered))") auto
  have "require_token (ca_env (demo_channel 10) ''S17_CHANNEL_BRIDGE_TOKEN'') (Some ''Bearer k'') = None" by code_simp
  moreover have "length (message_id (demo_channel 10) demo_message) \<le> 500" by code_simp
  ultimately show ?thesis
    using answered_message_is_not_run_again [OF demo_answered_reachable [of dag_check] x rtranclp.rtrancl_refl x(1,2)] by blast
qed

section \<open>Where the route breaks\<close>

text \<open>A provider that delivers again before the first run has returned gets a second run of the same request.\<close>

lemma redelivery_starts_again:
  "cy_flight (chat_arrived 10 demo_message (chat_arrived 10 demo_message idle_channels)) = [(False, demo_message), (False, demo_message)]"
  by code_simp

text \<open>And so does a message whose record was compacted away, although its identity is still known.\<close>

lemma compacted_message_runs_again:
  "cy_flight (chat_arrived 1 demo_message (chat_arrived 1 (demo_message\<lparr>cm_metadata := [(''message_id'', JInt 6)]\<rparr>)
     (finished (demo_channel 1) 1 chat_outcome (chat_arrived 1 demo_message idle_channels)))) =
     [(False, demo_message\<lparr>cm_metadata := [(''message_id'', JInt 6)]\<rparr>), (False, demo_message)]"
  by code_simp

text \<open>Message ids are numbered per chat by the providers, the identity has no chat in it: another user's message with the same
  number is dropped, and its sender gets the first user's answer.\<close>

lemma other_chat_gets_the_reply:
  "cy_answers (chat_arrived 10 (demo_message\<lparr>cm_user_id := ''8'', cm_text := Some ''another question''\<rparr>) demo_answered) =
     [(demo_message\<lparr>cm_user_id := ''8'', cm_text := Some ''another question''\<rparr>, demo_reply), (demo_message, demo_reply)]"
  by code_simp

text \<open>Whatever is typed completes a parked approval as a success, also a refusal, and also by a sender the gateway does not trust.
  The surface's own decision marks a refused node failed.\<close>

definition parked_approval :: gnode where
  "parked_approval = \<lparr>n_skill = ''request_approval'', n_input = [], n_metadata = [], n_state = Waiting, n_result = None,
     n_wait = Some [(''handle'', JStr ''h''), (''event_type'', JStr ''approval.received''), (''question'', JStr ''Send it?'')]\<rparr>"

definition parked_store :: graph_store where
  "parked_store = \<lparr>gs_disk = [(''r'', (new_checkpoint ''r'' [])\<lparr>c_nodes := [(''ask'', parked_approval)]\<rparr>)], gs_index = []\<rparr>"

definition waiting_outcome :: obj where
  "waiting_outcome = [(''run_id'', JStr ''r''), (''status'', JStr ''waiting'')]"

definition asked_system :: channel_system where
  "asked_system =
     (let s = finished (demo_channel 10) 1 waiting_outcome (chat_arrived 10 demo_message idle_channels)
      in s\<lparr>cy_state := (cy_state s)\<lparr>ch_graph := parked_store\<rparr>\<rparr>)"

definition typed_no :: channel_message where
  "typed_no = demo_message\<lparr>cm_text := Some ''no'', cm_metadata := [(''message_id'', JInt 6)]\<rparr>"

lemma typed_refusal_approves:
  "cy_flight (chat_arrived 10 typed_no asked_system) = [(True, typed_no)] \<and>
   map_option (\<lambda>c. map_option (\<lambda>n. (n_state n, map_option (\<lambda>r. jget r ''response'') (n_result n))) (dget (c_nodes c) ''ask''))
     (dget (gs_disk (ch_graph (cy_state (chat_arrived 10 typed_no asked_system)))) ''r'') =
   Some (Some (Succeeded, Some (JStr ''no''))) \<and>
   snd (take_action (\<lambda>v. []) (\<lambda>r. r) parked_store ''r'' ''ask'' ''reject'' []) \<noteq> parked_store"
  by code_simp

section \<open>Authority and the way back\<close>

lemma named_set_nonempty: "[] \<notin> set (named_set v)"
  by (simp add: named_set_def)


lemma opened_setup:
  assumes "open_run str_of path rid False inbound (message_request env eid m) gs0 = Inr (rs, gs1)"
  shows "rs_allowed rs = message_authority env m" and "rs_evidence rs = [(''channel_message'', JObj (channel_json m))]"
  using assms by (auto simp: open_run_def new_setup_def message_request_def bind_r_Inr)




lemma all_some_map: "all_some (map read_dict (map JObj ds)) = Some ds"
  by (induction ds) simp_all

lemma read_opt_json [simp]: "read_opt_str (opt_json s) = Some s"
  by (simp add: opt_json_def split: option.split)

lemma channel_round_trip:
  assumes "within_limits m" and "time_of (JStr (cm_arrived m)) = Some (cm_arrived m)"
  shows "channel_of_json time_of (channel_json m) = Some m"
  using assms by (cases m) (simp add: channel_of_json_def channel_json_def jget_def dget_or_simps all_some_map Let_def del: map_map)

text \<open>A late reply finds its way back: when the run a message started comes to its end through a job's callback, after
  any steps of the graph store, the reply sent is the one the message's own handler would have given, made from the
  message recovered from the run's checkpoint.\<close>

lemma late_reply_reaches_its_sender:
  assumes "store_ok (ca_path a) gs0" and "dget (gs_disk gs0) (ca_path a rid) = None"
    and "open_run str_of (ca_path a) rid False inbound (message_request env eid m) gs0 = Inr (rs, gs1)"
    and "(graph_step dag_check (ca_path a))\<^sup>*\<^sup>* gs1 (ch_graph st)"
    and "within_limits m" and "time_of (JStr (cm_arrived m)) = Some (cm_arrived m)"
    and "dget outcome ''status'' = Some (JStr ''completed'') \<or> dget outcome ''status'' = Some (JStr ''failed'')"
  shows "\<exists>reply. late_reply a time_of rid outcome st = Inr (Some reply) \<and>
    fst (channel_finish a now k m outcome st) = Inr reply \<and> addressed m reply"
proof -
  have ctx: "context_run (ca_path a) (ch_graph st) rid = Inr (run_context rs)"
    using started_run_keeps [OF assms(1-4)] by (simp add: keeps_def)
  have "jget (rs_evidence rs) ''channel_message'' = JObj (channel_json m)"
    by (simp add: opened_setup(2) [OF assms(3)] jget_def dget_or_def)
  moreover have "dget_or (run_context rs) ''initial_evidence'' (JObj []) = JObj (rs_evidence rs)"
    by (simp add: run_context_def dget_or_simps)
  moreover have "channel_json m \<noteq> []" by (simp add: channel_json_def)
  ultimately have origin: "channel_origin time_of (ca_path a) (ch_graph st) rid = Inr (Some m)"
    using channel_round_trip [where m = m and time_of = time_of] assms(5,6) by (simp add: channel_origin_def ctx as_record_def)
  obtain reply where reply: "channel_reply (ca_str a) (ca_gates a) m outcome = Inr reply"
    using assms(7) by (auto simp: channel_reply_def outcome_reply_text_def)
  with origin assms(7) channel_reply_addressed [OF reply] show ?thesis
    by (auto simp: late_reply_def channel_finish_def)
qed

lemma late_reply_reaches_its_sender_witness:
  "\<exists>rs gs1 reply. open_run (\<lambda>_. []) (\<lambda>r. r) ''r'' False JNull (message_request (\<lambda>n. None) ''5'' demo_message) empty_store = Inr (rs, gs1) \<and>
     late_reply (demo_channel 10) (\<lambda>v. read_str v) ''r'' chat_outcome \<lparr>ch_events = empty_events, ch_graph = gs1\<rparr> = Inr (Some reply) \<and>
     addressed demo_message reply"
proof -
  obtain rs gs1 where o: "open_run (\<lambda>_. []) (\<lambda>r. r) ''r'' False JNull (message_request (\<lambda>n. None) ''5'' demo_message) empty_store = Inr (rs, gs1)"
    by (auto simp: open_run_def new_setup_def message_request_def)
  have p: "ca_path (demo_channel 10) = (\<lambda>r. r)" by (simp add: demo_channel_def)
  have f: "dget (gs_disk empty_store) (ca_path (demo_channel 10) ''r'') = None" by (simp add: empty_store_def)
  have s: "dget chat_outcome ''status'' = Some (JStr ''completed'') \<or> dget chat_outcome ''status'' = Some (JStr ''failed'')"
    by (simp add: chat_outcome_def)
  have l: "within_limits demo_message" by (simp add: within_limits_def demo_message_def opt_at_most_def)
  note late_reply_reaches_its_sender [OF store_ok_empty f, unfolded p, OF o, of "\<lparr>ch_events = empty_events, ch_graph = gs1\<rparr>" "\<lambda>v. read_str v" chat_outcome, unfolded channel_state.simps,
      OF rtranclp.rtrancl_refl l _ s]
  then show ?thesis using o by (auto simp: demo_message_def)
qed

end
