(* ===== verification/Gateway.thy ===== *)
theory Gateway
  imports Json Coding_Guard
begin

text \<open>
  The client of the model gateway (\<open>gateway.py\<close>): the request it builds, its attempts and fallback providers, the usage it
  returns. The gateway is an argument that answers the n-th request; sleeps are recorded, not waited for.
\<close>

section \<open>The request\<close>

definition passthrough :: "string list" where
  "passthrough = [''provider'', ''model'', ''max_tokens'', ''temperature'', ''reasoning'', ''auto_route'', ''cache_system'',
     ''response_format'', ''agent'', ''session'']"

definition env_or :: "(string \<Rightarrow> string option) \<Rightarrow> string \<Rightarrow> string \<Rightarrow> string" where
  "env_or env name d = (case env name of None \<Rightarrow> d | Some v \<Rightarrow> v)"

definition gateway_payload :: "(string \<Rightarrow> string option) \<Rightarrow> string \<Rightarrow> string \<Rightarrow> obj \<Rightarrow> obj" where
  "gateway_payload env prompt system request =
     dmerge [(''messages'', JList [JObj [(''role'', JStr ''user''), (''content'', JStr prompt)]]), (''system'', JStr system),
       (''max_tokens'', JInt 1600), (''temperature'', JInt 0), (''reasoning'', JStr ''off''), (''agent'', JStr ''s17_agent''),
       (''provider'', JStr (env_or env ''S17_GATEWAY_PROVIDER'' ''gemini''))]
     (filter (\<lambda>(k, v). k \<in> set passthrough) request)"

definition primary_provider :: "(json \<Rightarrow> string) \<Rightarrow> obj \<Rightarrow> string" where
  "primary_provider str_of payload = printed str_of (or_else (jget payload ''provider'') (JStr ''gemini''))"

definition fallback_providers :: "(string \<Rightarrow> string option) \<Rightarrow> string \<Rightarrow> string list" where
  "fallback_providers env primary =
     filter (\<lambda>p. p \<noteq> [] \<and> p \<noteq> primary) (map strip (split_on (CHR '','') (env_or env ''S17_GATEWAY_FALLBACK_PROVIDERS'' [])))"

text \<open>A model paired with the primary provider does not go to another.\<close>

definition provider_payload :: "string \<Rightarrow> obj \<Rightarrow> string \<Rightarrow> obj" where
  "provider_payload primary payload provider =
     (let p = dput ''provider'' (JStr provider) payload in if provider = primary then p else ddel ''model'' p)"

section \<open>Attempts\<close>

record gateway_response =
  gr_status :: int
  gr_json :: "json option"

datatype gateway_action = Post obj | Pause rat

type_synonym chat_gateway = "nat \<Rightarrow> obj \<Rightarrow> gateway_response"

definition retryable :: "gateway_response \<Rightarrow> bool" where
  "retryable r = (gr_status r \<in> {429, 502, 503})"

text \<open>The seconds slept after an attempt.\<close>

definition backoff :: "nat \<Rightarrow> rat" where
  "backoff attempt = min (2 ^ attempt / 2) 4"

text \<open>
  The inner loop from one attempt on: the last response, the number of the next request, what was done. \<open>k\<close> counts
  the requests of the whole call, \<open>left\<close> the attempts after this one.
\<close>

fun attempts_from :: "chat_gateway \<Rightarrow> obj \<Rightarrow> nat \<Rightarrow> nat \<Rightarrow> nat \<Rightarrow> gateway_response \<times> nat \<times> gateway_action list" where
  "attempts_from gw p k attempt 0 = (gw k p, Suc k, [Post p])"
| "attempts_from gw p k attempt (Suc left) =
     (if \<not> retryable (gw k p) then (gw k p, Suc k, [Post p])
      else let (r, k', acts) = attempts_from gw p (Suc k) (Suc attempt) left
           in (r, k', Post p # Pause (backoff attempt) # acts))"

text \<open>The outer loop over the providers, of which there is at least one; \<open>attempts\<close> is at least one.\<close>

fun providers_from :: "chat_gateway \<Rightarrow> nat \<Rightarrow> (string \<Rightarrow> obj) \<Rightarrow> nat \<Rightarrow> string \<Rightarrow> string list \<Rightarrow> gateway_response \<times> gateway_action list" where
  "providers_from gw attempts payload_for k provider rest =
     (let (r, k', acts) = attempts_from gw (payload_for provider) k 0 (attempts - 1)
      in case rest of [] \<Rightarrow> (r, acts)
         | q # qs \<Rightarrow>
             if \<not> retryable r then (r, acts)
             else let (r', acts') = providers_from gw attempts payload_for k' q qs in (r', acts @ acts'))"

declare providers_from.simps [simp del]

section \<open>One call\<close>

definition usage_of :: "obj \<Rightarrow> obj" where
  "usage_of b = [(''text'', dget_or b ''text'' (JStr [])), (''provider'', jget b ''provider''), (''model'', jget b ''model''),
     (''input_tokens'', or_else (jget b ''input_tokens'') (JInt 0)), (''output_tokens'', or_else (jget b ''output_tokens'') (JInt 0)),
     (''cache_read_input_tokens'', or_else (jget b ''cache_read_input_tokens'') (JInt 0)),
     (''cache_creation_input_tokens'', or_else (jget b ''cache_creation_input_tokens'') (JInt 0)),
     (''latency_ms'', jget b ''latency_ms''), (''stop_reason'', jget b ''stop_reason'')]"

text \<open>A body that is no JSON raises a kind of value error.\<close>

definition read_response :: "gateway_response \<Rightarrow> obj result" where
  "read_response r =
     (if gr_status r \<ge> 400 then Inl RuntimeError
      else case gr_json r of None \<Rightarrow> Inl ValueError | Some b \<Rightarrow> bind_r (as_record b) (\<lambda>d. Inr (usage_of d)))"

definition gateway_attempts :: "pytext \<Rightarrow> (string \<Rightarrow> string option) \<Rightarrow> nat result" where
  "gateway_attempts px env =
     (case px_int px (env_or env ''S17_GATEWAY_ATTEMPTS'' ''5'') of None \<Rightarrow> Inl ValueError | Some n \<Rightarrow> Inr (nat (max 1 n)))"

definition gateway_chat ::
  "pytext \<Rightarrow> (string \<Rightarrow> string option) \<Rightarrow> chat_gateway \<Rightarrow> string \<Rightarrow> string \<Rightarrow> obj \<Rightarrow> obj result \<times> gateway_action list" where
  "gateway_chat px env gw prompt system request =
     (case gateway_attempts px env of Inl e \<Rightarrow> (Inl e, [])
      | Inr attempts \<Rightarrow>
          let payload = gateway_payload env prompt system request;
              primary = primary_provider (px_str px) payload;
              (r, acts) = providers_from gw attempts (provider_payload primary payload) 0 primary (fallback_providers env primary)
          in (read_response r, acts))"

text \<open>\<open>complete\<close>: the unbudgeted path; a result always has the fields read here.\<close>

definition gateway_complete ::
  "pytext \<Rightarrow> (string \<Rightarrow> string option) \<Rightarrow> chat_gateway \<Rightarrow> string \<Rightarrow> string \<Rightarrow> string option \<Rightarrow> obj \<Rightarrow> obj result \<times> gateway_action list" where
  "gateway_complete px env gw prompt system session request =
     (let body = dmerge [(''session'', case session of None \<Rightarrow> JNull | Some s \<Rightarrow> JStr s)] request;
          (r, acts) = gateway_chat px env gw prompt system body
      in (bind_r r (\<lambda>u. Inr (map (\<lambda>k. (k, jget u k)) [''text'', ''provider'', ''model'', ''input_tokens'', ''output_tokens''])), acts))"

section \<open>Channels\<close>

definition channel_headers :: "(string \<Rightarrow> string option) \<Rightarrow> (string \<times> string) list" where
  "channel_headers env =
     (let token = strip (env_or env ''S17_CHANNEL_BRIDGE_TOKEN'' [])
      in if token = [] then [] else [(''Authorization'', ''Bearer '' @ token)])"

text \<open>\<open>channels\<close>, from the answer; a status from 400 on raises.\<close>

definition channel_catalogue :: "gateway_response \<Rightarrow> json list result" where
  "channel_catalogue r =
     (if gr_status r \<ge> 400 then Inl OSError
      else case gr_json r of None \<Rightarrow> Inl ValueError
      | Some b \<Rightarrow> bind_r (as_record b) (\<lambda>d. case dget_or d ''channels'' (JList []) of JList xs \<Rightarrow> Inr xs | _ \<Rightarrow> Inl RuntimeError))"

definition send_payload :: "string \<Rightarrow> string \<Rightarrow> string \<Rightarrow> string option \<Rightarrow> string option \<Rightarrow> obj" where
  "send_payload channel recipient txt thread voice =
     [(''channel'', JStr channel), (''channel_user_id'', JStr recipient), (''text'', JStr txt),
      (''thread_id'', case thread of None \<Rightarrow> JNull | Some t \<Rightarrow> JStr t),
      (''voice_audio_ref'', case voice of None \<Rightarrow> JNull | Some v \<Rightarrow> JStr v), (''attachments'', JList [])]"

definition channel_receipt :: "gateway_response \<Rightarrow> obj result" where
  "channel_receipt r =
     (if gr_status r \<ge> 400 then Inl RuntimeError
      else case gr_json r of None \<Rightarrow> Inl ValueError | Some (JObj d) \<Rightarrow> Inr d | Some _ \<Rightarrow> Inl RuntimeError)"

section \<open>What is sent\<close>

definition posts :: "gateway_action list \<Rightarrow> obj list" where
  "posts acts = List.map_filter (\<lambda>x. case x of Post p \<Rightarrow> Some p | Pause t \<Rightarrow> None) acts"

definition pauses :: "gateway_action list \<Rightarrow> rat list" where
  "pauses acts = List.map_filter (\<lambda>x. case x of Post p \<Rightarrow> None | Pause t \<Rightarrow> Some t) acts"


lemma pauses_simps [simp]:
  "pauses [] = []" "pauses (Post p # acts) = pauses acts" "pauses (Pause t # acts) = t # pauses acts"
  "pauses (xs @ ys) = pauses xs @ pauses ys"
  by (simp_all add: pauses_def List.map_filter_def)










definition demo_env :: "string \<Rightarrow> string option" where
  "demo_env n = (if n = ''S17_GATEWAY_FALLBACK_PROVIDERS'' then Some ''groq, gemini'' else None)"

definition demo_px :: pytext where
  "demo_px = \<lparr>px_str = (\<lambda>v. []), px_float = (\<lambda>s. None), px_int = (\<lambda>s. Some 2)\<rparr>"

text \<open>A gateway that is busy twice and then answers.\<close>

definition demo_gateway :: chat_gateway where
  "demo_gateway n p = (if n < 2 then \<lparr>gr_status = 429, gr_json = None\<rparr>
     else \<lparr>gr_status = 200, gr_json = Some (JObj [(''text'', JStr ''ok'')])\<rparr>)"

lemma demo_chat:
  "map (\<lambda>p. (jget p ''provider'', jget p ''model''))
     (posts (snd (gateway_chat demo_px demo_env demo_gateway ''p'' ''s'' [(''model'', JStr ''m''), (''system'', JStr ''evil'')]))) =
   [(JStr ''gemini'', JStr ''m''), (JStr ''gemini'', JStr ''m''), (JStr ''groq'', JNull)]"
  by code_simp


end
