(* ===== verification/Ui_Compose.thy ===== *)
theory Ui_Compose
  imports Ui_Claims Workers Eval_Rubric A2a_Server
begin

text \<open>
  The composed surface (\<open>ui/compose.py\<close>): the data model the harness builds from a run's outcomes, and the surface a model proposes
  over it, which passes the wall. \<open>dumps\<close> prints a result as JSON, the prompts are left out, and what the model replies is an
  argument.
\<close>

section \<open>Names and replies\<close>

text \<open>\<open>_slug\<close> of this file: an underscore is kept, every run of other characters becomes one.\<close>

definition surface_key_char :: "char \<Rightarrow> bool" where
  "surface_key_char c = (c = CHR ''_'' \<or> is_digit c \<or> is_letter c \<and> lower_char c = c)"

fun key_runs :: "bool \<Rightarrow> string \<Rightarrow> string" where
  "key_runs gap [] = []"
| "key_runs gap (c # cs) =
     (if surface_key_char c then c # key_runs False cs else if gap then key_runs True cs else CHR ''_'' # key_runs True cs)"

definition clean_key :: "string \<Rightarrow> string" where
  "clean_key s =
     (let u = (\<lambda>c. c = CHR ''_''); t = rev (dropWhile u (rev (dropWhile u (key_runs False (lower s)))))
      in if t = [] then ''item'' else t)"

definition extract_surface :: "string \<Rightarrow> obj option" where
  "extract_surface s =
     (case brace_span (strip_fence (strip s)) of None \<Rightarrow> None
      | Some u \<Rightarrow> (case loads u of Some (JObj d) \<Rightarrow> Some d | _ \<Rightarrow> None))"

section \<open>What the run produced\<close>

record compose_args =
  cx_goal :: string
  cx_registry :: registry
  cx_px :: pytext
  cx_dumps :: "obj \<Rightarrow> string"

record run_outcome =
  oc_key :: string
  oc_label :: json
  oc_detail :: string
  oc_sources :: nat
  oc_value :: "json option"

record gathered =
  ga_outcomes :: "run_outcome list"
  ga_summary :: "string list"
  ga_data :: obj
  ga_structured :: obj

fun stripped :: "json \<Rightarrow> string result" where
  "stripped (JStr s) = Inr (strip s)"
| "stripped v = Inl AttributeError"

definition outcome_text :: "obj \<Rightarrow> string result" where
  "outcome_text r = stripped (or_else (or_else (jget r ''text'') (jget r ''answer'')) (JStr []))"

definition private_fields :: "string list" where
  "private_fields = [''metered_calls'', ''budget_decisions'', ''raw'', ''pages'']"

definition public_result :: "obj \<Rightarrow> obj" where
  "public_result r = filter (\<lambda>(k, v). k \<notin> set private_fields) r"

definition source_urls :: "obj \<Rightarrow> json list result" where
  "source_urls r =
     bind_r (records (jget r ''hits'')) (\<lambda>hits.
       Inr (map (\<lambda>h. jget h ''url'') (filter (\<lambda>h. truthy (jget h ''url'')) hits)))"

text \<open>A truth value is an int to \<open>isinstance\<close>.\<close>

definition numeric_value :: "obj \<Rightarrow> json option" where
  "numeric_value r = (if num_of (jget r ''result'') = None then None else Some (jget r ''result''))"

definition outcome_subject :: "string \<times> gnode \<Rightarrow> json" where
  "outcome_subject nn = or_else (jget (n_input (snd nn)) ''subject'') (JStr (fst nn))"

definition listed_node :: "compose_args \<Rightarrow> string \<times> gnode \<Rightarrow> bool" where
  "listed_node a nn \<longleftrightarrow> n_skill (snd nn) \<notin> set (terminal_skills (cx_registry a) ''ui'') \<and> n_state (snd nn) = Succeeded"

definition is_synthesis :: "compose_args \<Rightarrow> string \<times> gnode \<Rightarrow> bool" where
  "is_synthesis a nn = (n_skill (snd nn) \<in> set (family (cx_registry a) ''synthesis''))"

definition compose_outcome :: "compose_args \<Rightarrow> string \<times> gnode \<Rightarrow> string \<Rightarrow> json list \<Rightarrow> run_outcome" where
  "compose_outcome a nn txt urls =
     (let r = node_result (snd nn); detail = (if txt = [] then cx_dumps a (public_result r) else txt)
      in \<lparr>oc_key = clean_key (printed (px_str (cx_px a)) (outcome_subject nn)), oc_label = outcome_subject nn,
           oc_detail = take 2000 detail, oc_sources = length urls, oc_value = numeric_value r\<rparr>)"

definition evidence_entry :: "run_outcome \<Rightarrow> json list \<Rightarrow> obj \<Rightarrow> json" where
  "evidence_entry oc urls r =
     JObj [(''label'', oc_label oc), (''detail'', JStr (oc_detail oc)), (''sources'', JList urls), (''result'', JObj (public_result r))]"

definition gather_node :: "compose_args \<Rightarrow> string \<times> gnode \<Rightarrow> gathered \<Rightarrow> gathered result" where
  "gather_node a nn ga =
     (let r = node_result (snd nn) in
      bind_r (outcome_text r) (\<lambda>txt. bind_r (source_urls r) (\<lambda>urls.
        if is_synthesis a nn
        then Inr (ga\<lparr>ga_structured := (case jget r ''structured'' of JObj d \<Rightarrow> d | _ \<Rightarrow> ga_structured ga),
                     ga_summary := (if txt = [] then ga_summary ga else ga_summary ga @ [txt])\<rparr>)
        else let oc = compose_outcome a nn txt urls
             in Inr (ga\<lparr>ga_outcomes := ga_outcomes ga @ [oc],
                        ga_data := dput (oc_key oc) (evidence_entry oc urls r) (ga_data ga)\<rparr>))))"

definition gather :: "compose_args \<Rightarrow> snapshot \<Rightarrow> gathered result" where
  "gather a s = fold_r (gather_node a) (filter (listed_node a) (sort_key fst (sn_nodes s)))
     \<lparr>ga_outcomes = [], ga_summary = [], ga_data = [], ga_structured = []\<rparr>"

definition gathered_summary :: "gathered \<Rightarrow> string" where
  "gathered_summary ga = take 2000 (join paragraph_break (ga_summary ga))"

section \<open>The data model\<close>

definition shown_value :: "run_outcome \<Rightarrow> json" where
  "shown_value oc = (case oc_value oc of Some v \<Rightarrow> v | None \<Rightarrow> JInt (int (oc_sources oc)))"

text \<open>\<open>float(x)\<close> of a number.\<close>

fun as_float :: "json \<Rightarrow> json result" where
  "as_float (JBool b) = Inr (JFloat (if b then 1 else 0))"
| "as_float (JInt i) = bind_r (float_of_int i) (\<lambda>q. Inr (JFloat q))"
| "as_float (JFloat q) = Inr (JFloat q)"
| "as_float v = Inl TypeError"

definition base_model :: "compose_args \<Rightarrow> gathered \<Rightarrow> obj result" where
  "base_model a ga =
     (let ocs = ga_outcomes ga; goal = JStr (cx_goal a); summary = gathered_summary ga in
      bind_r (map_r (as_float \<circ> shown_value) ocs) (\<lambda>spark.
      Inr [(''title'', goal), (''goal'', goal), (''summary'', or_else (JStr summary) goal),
        (''results'', JList (map (\<lambda>oc. JObj [(''label'', oc_label oc), (''detail'', JStr (oc_detail oc))]) ocs)),
        (''items'', JList (map (\<lambda>oc. JObj [(''label'', oc_label oc)]) ocs)),
        (''metrics'', JList (map (\<lambda>oc. JObj [(''label'', oc_label oc), (''value'', shown_value oc)]) ocs)),
        (''spark'', JList spark),
        (''table_rows'', JList (map (\<lambda>oc. JObj [(''Item'', oc_label oc), (''Sources'', JInt (int (oc_sources oc)))]) ocs)),
        (''item_count'', JInt (int (length ocs))),
        (''source_count'', JInt (int (sum_list (map oc_sources ocs)))),
        (''evidence'', JObj (ga_data ga))]))"

definition put_fields :: "string \<Rightarrow> obj \<Rightarrow> obj \<Rightarrow> obj" where
  "put_fields key fs dm = fold (\<lambda>(f, v). dput (key @ ''_'' @ clean_key f) v) fs dm"

text \<open>The result an outcome's fields come from is looked up by its key; the key always has an entry.\<close>

definition keyed_result :: "gathered \<Rightarrow> run_outcome \<Rightarrow> obj" where
  "keyed_result ga oc =
     (case jget (ga_data ga) (oc_key oc) of JObj e \<Rightarrow> (case jget e ''result'' of JObj r \<Rightarrow> r | _ \<Rightarrow> []) | _ \<Rightarrow> [])"

definition parsed_fields :: "run_outcome \<Rightarrow> obj \<Rightarrow> obj \<Rightarrow> obj" where
  "parsed_fields oc r dm =
     (case jget r ''text'' of
        JStr s \<Rightarrow> (case extract_surface s of
            Some d \<Rightarrow> if d = [] then dm else put_fields (oc_key oc) d (dput (oc_key oc @ ''_data'') (JObj d) dm)
          | None \<Rightarrow> dm)
      | _ \<Rightarrow> dm)"

definition item_key :: "nat \<Rightarrow> string \<Rightarrow> string" where
  "item_key i field = ''item_'' @ digits i @ ''_'' @ field"

definition flatten_outcome :: "gathered \<Rightarrow> nat \<times> run_outcome \<Rightarrow> obj \<Rightarrow> obj" where
  "flatten_outcome ga io dm =
     (let (i, oc) = io; r = keyed_result ga oc;
          dm1 = dput (item_key i ''detail'') (or_else (JStr (oc_detail oc)) (oc_label oc)) (dput (item_key i ''label'') (oc_label oc) dm);
          dm2 = (case oc_value oc of None \<Rightarrow> dm1 | Some v \<Rightarrow> dput (item_key i ''value'') v dm1)
      in parsed_fields oc r (put_fields (oc_key oc) (filter (\<lambda>(f, v). v \<noteq> JNull) r) dm2))"

definition run_facts :: "snapshot \<Rightarrow> event list \<Rightarrow> gathered \<Rightarrow> obj \<Rightarrow> obj" where
  "run_facts s evs ga dm =
     dput ''progress_max'' (JInt (max 1 (int (length (sn_nodes s)))))
       (dput ''progress_value'' (JInt (int (length (filter (\<lambda>(nid, n). n_state n = Succeeded) (sn_nodes s)))))
         (dput ''timeline'' (JList (map (\<lambda>e. JObj [(''time'', JStr (digits (ev_sequence e))),
              (''label'', JStr (strip (ev_kind e @ '' '' @ (case ev_node e of None \<Rightarrow> [] | Some n \<Rightarrow> n))))]) evs))
           (dput ''subjects'' (JList (map oc_label (ga_outcomes ga))) dm)))"

section \<open>The structured answer\<close>

text \<open>\<open>_num\<close>\<close>

definition without_commas :: "string \<Rightarrow> string" where
  "without_commas s = filter (\<lambda>c. c \<noteq> CHR '','') s"

definition series_number :: "pytext \<Rightarrow> json \<Rightarrow> json option result" where
  "series_number px v =
     (case v of JBool b \<Rightarrow> Inr None
      | JInt i \<Rightarrow> bind_r (as_float v) (\<lambda>f. Inr (Some f))
      | JFloat q \<Rightarrow> Inr (Some v)
      | _ \<Rightarrow> Inr (map_option JFloat (px_float px (strip (without_commas (printed (px_str px) v))))))"

definition clean_text :: "pytext \<Rightarrow> json \<Rightarrow> string" where
  "clean_text px v = strip (text_value px v [])"

text \<open>\<open>[str(x).strip() for x in value or [] if str(x).strip()]\<close>\<close>

definition clean_texts :: "pytext \<Rightarrow> json \<Rightarrow> string list result" where
  "clean_texts px v =
     bind_r (iterated v) (\<lambda>xs. Inr (filter (\<lambda>s. s \<noteq> []) (map (\<lambda>x. strip (printed (px_str px) x)) xs)))"

definition merge_title :: "obj \<Rightarrow> obj \<Rightarrow> obj" where
  "merge_title st dm = (case jget st ''title'' of JStr s \<Rightarrow> if strip s = [] then dm else dput ''title'' (JStr (strip s)) dm | _ \<Rightarrow> dm)"

definition merge_intro :: "string \<Rightarrow> obj \<Rightarrow> obj \<Rightarrow> obj" where
  "merge_intro summary st dm =
     (case jget st ''intro'' of
        JStr s \<Rightarrow> if strip s = [] then dm
          else let dm1 = dput ''intro'' (JStr (strip s)) dm
               in if summary = [] then dput ''summary'' (JStr (strip s)) dm1 else dm1
      | _ \<Rightarrow> dm)"

text \<open>\<open>data_model.setdefault("input", {})\<close>\<close>

definition merge_input :: "obj \<Rightarrow> obj" where
  "merge_input dm = (if dget dm ''input'' = None then dput ''input'' (JObj []) dm else dm)"

definition section_key :: "nat \<Rightarrow> string \<Rightarrow> string" where
  "section_key i field = ''section_'' @ digits i @ ''_'' @ field"

definition line_break :: string where
  "line_break = [CHR 0x0A]"

text \<open>The bullet before a point is one character.\<close>

definition bulleted :: "string list \<Rightarrow> string" where
  "bulleted points = join line_break (map (\<lambda>p. [CHR 0x95] @ '' '' @ p) points)"

definition merge_section :: "pytext \<Rightarrow> nat \<times> json \<Rightarrow> json list \<times> obj \<Rightarrow> (json list \<times> obj) result" where
  "merge_section px is acc =
     (let (i, sec) = is; (clean, dm) = acc in
      case sec of
        JObj d \<Rightarrow>
          (let heading = strip (text_value px (jget d ''heading'') (''Section '' @ digits (i + 1))) in
           bind_r (clean_texts px (jget d ''points'')) (\<lambda>points.
             let detail = clean_text px (jget d ''detail''); ps = JList (map JStr points)
             in Inr (clean @ [JObj [(''heading'', JStr heading), (''points'', ps), (''options'', ps), (''detail'', JStr detail)]],
                  dput (section_key i ''options'') ps
                    (dput (section_key i ''detail'') (JStr detail)
                      (dput (section_key i ''points'') (or_else (JStr (bulleted points)) (JStr heading))
                        (dput (section_key i ''heading'') (JStr heading) dm))))))
      | _ \<Rightarrow> Inr acc)"

definition section_event :: "json \<Rightarrow> json" where
  "section_event sec =
     (case sec of JObj d \<Rightarrow>
        JObj [(''time'', jget d ''heading''),
          (''label'', JStr (join ''; '' (case jget d ''points'' of JList ps \<Rightarrow> map (\<lambda>p. case p of JStr s \<Rightarrow> s | _ \<Rightarrow> []) ps | _ \<Rightarrow> [])))]
      | _ \<Rightarrow> JNull)"

definition merge_sections :: "pytext \<Rightarrow> obj \<Rightarrow> obj \<Rightarrow> obj result" where
  "merge_sections px st dm =
     (case jget st ''sections'' of
        JList secs \<Rightarrow> bind_r (fold_r (merge_section px) (enumerate 0 secs) ([], dm)) (\<lambda>(clean, dm').
          Inr (if clean = [] then dm'
               else dput ''section_events'' (JList (map section_event clean)) (dput ''sections'' (JList clean) dm')))
      | _ \<Rightarrow> Inr dm)"

definition clean_metric :: "pytext \<Rightarrow> json \<Rightarrow> obj option" where
  "clean_metric px v =
     (case v of JObj d \<Rightarrow>
        let label = clean_text px (jget d ''label'') in
        if label = [] then None
        else Some [(''label'', JStr (strip (printed (px_str px) (jget d ''label'')))), (''value'', jget d ''value''),
               (''unit'', JStr (clean_text px (jget d ''unit'')))]
      | _ \<Rightarrow> None)"

definition merge_metrics :: "pytext \<Rightarrow> obj \<Rightarrow> obj \<Rightarrow> obj" where
  "merge_metrics px st dm =
     (case jget st ''metrics'' of
        JList ms \<Rightarrow>
          (let clean = List.map_filter (clean_metric px) ms in
           if clean = [] then dm
           else fold (\<lambda>(i, m). dput (''metric_'' @ digits i @ ''_value'') (jget m ''value'')) (enumerate 0 clean)
                  (dput ''metrics'' (JList (map JObj clean)) dm))
      | _ \<Rightarrow> dm)"

definition series_point :: "pytext \<Rightarrow> json \<Rightarrow> (string \<times> json) option result" where
  "series_point px v =
     (case v of JObj d \<Rightarrow>
        bind_r (series_number px (jget d ''value'')) (\<lambda>n.
          let label = clean_text px (jget d ''label'')
          in Inr (case n of None \<Rightarrow> None | Some f \<Rightarrow> if label = [] then None else Some (label, f)))
      | _ \<Rightarrow> Inr None)"

definition merge_series :: "pytext \<Rightarrow> obj \<Rightarrow> obj \<Rightarrow> obj result" where
  "merge_series px st dm =
     (case jget st ''series'' of
        JList vs \<Rightarrow> bind_r (map_r (series_point px) vs) (\<lambda>ps.
          let clean = List.map_filter (\<lambda>p. p) ps; spark = JList (map snd clean)
          in Inr (if clean = [] then dm
                  else dput ''spark'' spark (dput ''series_values'' spark
                    (dput ''series'' (JList (map (\<lambda>(l, f). JObj [(''label'', JStr l), (''value'', f)]) clean)) dm))))
      | _ \<Rightarrow> Inr dm)"

definition merge_table :: "pytext \<Rightarrow> obj \<Rightarrow> obj \<Rightarrow> obj result" where
  "merge_table px st dm =
     (case jget st ''table'' of
        JObj t \<Rightarrow> bind_r (clean_texts px (jget t ''columns'')) (\<lambda>columns. bind_r (iterated (jget t ''rows'')) (\<lambda>all_rows.
          let rows = filter is_dict all_rows;
              dm1 = (if columns = [] then dm else dput ''table_columns'' (JList (map JStr columns)) dm)
          in Inr (if rows = [] then dm1 else dput ''table_rows'' (JList rows) dm1)))
      | _ \<Rightarrow> Inr dm)"

definition clean_choice :: "pytext \<Rightarrow> json \<Rightarrow> (string \<times> string) option" where
  "clean_choice px v =
     (case v of
        JObj d \<Rightarrow>
          if clean_text px (jget d ''label'') = [] then None
          else let label = strip (printed (px_str px) (jget d ''label''))
               in Some (text_value px (jget d ''id'') (clean_key label), label)
      | JStr s \<Rightarrow> if strip s = [] then None else Some (clean_key s, strip s)
      | _ \<Rightarrow> None)"

definition merge_choices :: "pytext \<Rightarrow> obj \<Rightarrow> obj \<Rightarrow> obj" where
  "merge_choices px st dm =
     (case jget st ''choices'' of
        JList vs \<Rightarrow>
          (let clean = List.map_filter (clean_choice px) vs in
           if clean = [] then dm
           else fold (\<lambda>(i, c). dput (''choice_'' @ digits i @ ''_label'') (JStr (snd c))) (enumerate 0 clean)
                  (dput ''subjects'' (JList (map (JStr \<circ> snd) clean))
                    (dput ''choices'' (JList (map (\<lambda>(cid, l). JObj [(''id'', JStr cid), (''label'', JStr l)]) clean)) dm)))
      | _ \<Rightarrow> dm)"

definition merge_structured :: "compose_args \<Rightarrow> gathered \<Rightarrow> obj \<Rightarrow> obj result" where
  "merge_structured a ga dm =
     (let st = ga_structured ga; px = cx_px a in
      if st = [] then Inr dm
      else bind_r (merge_sections px st (merge_input (merge_intro (gathered_summary ga) st (merge_title st dm)))) (\<lambda>dm1.
           bind_r (merge_series px st (merge_metrics px st dm1)) (\<lambda>dm2.
           bind_r (merge_table px st dm2) (\<lambda>dm3. Inr (merge_choices px st dm3)))))"

definition compose_data :: "compose_args \<Rightarrow> snapshot \<Rightarrow> event list \<Rightarrow> (gathered \<times> obj) result" where
  "compose_data a s evs =
     bind_r (gather a s) (\<lambda>ga. bind_r (base_model a ga) (\<lambda>dm.
       let flat = fold (flatten_outcome ga) (enumerate 0 (ga_outcomes ga)) dm
       in bind_r (merge_structured a ga (run_facts s evs ga flat)) (\<lambda>dm'. Inr (ga, dm'))))"

text \<open>The pointers offered to the model.\<close>

definition available_pointers :: "obj \<Rightarrow> string list" where
  "available_pointers dm = sort (map (\<lambda>k. CHR ''/'' # k) (dkeys dm))"

section \<open>The surface\<close>

record composed =
  cp_root :: json
  cp_components :: "obj list"
  cp_data :: obj
  cp_rejections :: "rejection list"
  cp_proposed :: nat
  cp_dangling :: "json list"
  cp_types :: "string list"
  cp_labels :: "json list"
  cp_parsed :: bool

text \<open>A set of JSON values, in the order they were met, by Python's equality; only hashable values may enter.\<close>

definition add_hashed :: "json \<Rightarrow> json list \<Rightarrow> json list result" where
  "add_hashed v acc = (if \<not> hashable v then Inl TypeError else if list_ex (py_eq v) acc then Inr acc else Inr (acc @ [v]))"

definition hashed :: "json list \<Rightarrow> json list result" where
  "hashed vs = fold_r add_hashed vs []"

text \<open>\<open>sorted\<close>: texts or numbers, but not both, and nothing else unless it is alone.\<close>

definition sorted_values :: "json list \<Rightarrow> json list result" where
  "sorted_values vs =
     (if length vs \<le> 1 then Inr vs
      else if list_all is_str vs then Inr (sort_key (\<lambda>v. case v of JStr s \<Rightarrow> s | _ \<Rightarrow> []) vs)
      else if list_all (\<lambda>v. num_of v \<noteq> None) vs then Inr (sort_key (\<lambda>v. case num_of v of Some q \<Rightarrow> q | None \<Rightarrow> 0) vs)
      else Inl TypeError)"

text \<open>\<open>for child in comp.get("children", [])\<close>: \<open>null\<close> and numbers cannot be iterated over.\<close>

definition children_values :: "obj \<Rightarrow> json list result" where
  "children_values entry = each_of (dget_or entry ''children'' (JList []))"

definition dangling_children :: "obj list \<Rightarrow> json list result" where
  "dangling_children accepted =
     bind_r (hashed (map (\<lambda>c. jget c ''id'') accepted)) (\<lambda>ids.
     bind_r (map_r children_values accepted) (\<lambda>children.
     bind_r (hashed (concat children)) (\<lambda>cs. sorted_values (filter (\<lambda>c. \<not> list_ex (py_eq c) ids) cs))))"

definition proposed_components :: "obj option \<Rightarrow> nat result" where
  "proposed_components surface =
     (case surface of None \<Rightarrow> Inr 0
      | Some d \<Rightarrow> (case dget_or d ''components'' (JList []) of
            JList xs \<Rightarrow> Inr (length xs) | JStr x \<Rightarrow> Inr (length x) | JObj x \<Rightarrow> Inr (length x) | _ \<Rightarrow> Inl TypeError))"

text \<open>Duplicates and order of types: the set of the accepted components' types, sorted.\<close>

definition types_used :: "obj list \<Rightarrow> string list" where
  "types_used accepted = sort (remdups (map (\<lambda>c. case jget c ''type'' of JStr t \<Rightarrow> t | _ \<Rightarrow> []) accepted))"

definition compose_surface :: "compose_args \<Rightarrow> snapshot \<Rightarrow> event list \<Rightarrow> string \<Rightarrow> composed result" where
  "compose_surface a s evs reply =
     bind_r (compose_data a s evs) (\<lambda>(ga, dm).
       let surface = extract_surface reply in
       bind_r (validate_surface (case surface of Some d \<Rightarrow> d | None \<Rightarrow> [(''components'', JList [])])) (\<lambda>(accepted, rejections).
       bind_r (dangling_children accepted) (\<lambda>dangling.
       bind_r (proposed_components surface) (\<lambda>proposed.
       Inr \<lparr>cp_root = (case surface of Some d \<Rightarrow> dget_or d ''root'' (JStr ''root'') | None \<Rightarrow> JStr ''root''),
         cp_components = accepted, cp_data = dm, cp_rejections = rejections, cp_proposed = proposed, cp_dangling = dangling,
         cp_types = types_used accepted, cp_labels = map oc_label (ga_outcomes ga), cp_parsed = (surface \<noteq> None)\<rparr>))))"

end
