(* ===== verification/Ui_Compose_Claims.thy ===== *)
theory Ui_Compose_Claims
  imports Ui_Compose
begin

text \<open>
  What a composed surface shows: the run's own outcomes, each of them, whatever the model replies, through components that
  passed the wall. And where composition loses an outcome or stops.
\<close>

section \<open>Keys the harness keeps to itself\<close>

text \<open>Every key made of an outcome and a field has an underscore in it, so the keys without one are out of reach.\<close>

definition kept_key :: "string \<Rightarrow> bool" where
  "kept_key k \<longleftrightarrow> k \<in> {''goal'', ''results'', ''items'', ''evidence''}"

lemma kept_key_plain: "kept_key k \<Longrightarrow> CHR ''_'' \<notin> set k"
  by (auto simp: kept_key_def)

lemma kept_key_other:
  "kept_key k \<Longrightarrow> k \<noteq> key @ ''_'' @ f" "kept_key k \<Longrightarrow> k \<noteq> item_key i f" "kept_key k \<Longrightarrow> k \<noteq> section_key i f"
  "kept_key k \<Longrightarrow> k \<noteq> ''metric_'' @ digits i @ ''_value''" "kept_key k \<Longrightarrow> k \<noteq> ''choice_'' @ digits i @ ''_label''"
  using kept_key_plain [of k] by (auto simp: item_key_def section_key_def)

lemma fold_keeps:
  "(\<And>x d. x \<in> set xs \<Longrightarrow> dget (f x d) k = dget d k) \<Longrightarrow> dget (fold f xs d) k = dget d k"
  by (induction xs arbitrary: d) auto

lemma put_fields_keeps: "kept_key k \<Longrightarrow> dget (put_fields key fs dm) k = dget dm k"
  unfolding put_fields_def by (rule fold_keeps) (auto dest: kept_key_other(1) [of k key])

lemma parsed_fields_keeps: "kept_key k \<Longrightarrow> dget (parsed_fields oc r dm) k = dget dm k"
  using kept_key_other(1) [of k "oc_key oc" "''data''"]
  by (simp add: parsed_fields_def put_fields_keeps split: json.split option.split)

lemma flatten_keeps: "kept_key k \<Longrightarrow> dget (flatten_outcome ga io dm) k = dget dm k"
  using kept_key_other(2) [of k "fst io"]
  by (cases io; cases "oc_value (snd io)") (simp_all add: flatten_outcome_def Let_def parsed_fields_keeps put_fields_keeps)

lemma run_facts_keeps: "kept_key k \<Longrightarrow> dget (run_facts s evs ga dm) k = dget dm k"
  by (auto simp: run_facts_def kept_key_def)

lemma small_merges_keep:
  assumes "kept_key k"
  shows "dget (merge_title st dm) k = dget dm k" and "dget (merge_intro summary st dm) k = dget dm k" and "dget (merge_input dm) k = dget dm k"
proof -
  have k: "k \<noteq> ''title''" "k \<noteq> ''intro''" "k \<noteq> ''summary''" "k \<noteq> ''input''" using assms by (auto simp: kept_key_def)
  show "dget (merge_title st dm) k = dget dm k" using k by (cases "jget st ''title''") (simp_all add: merge_title_def)
  show "dget (merge_intro summary st dm) k = dget dm k" using k by (cases "jget st ''intro''") (simp_all add: merge_intro_def Let_def)
  show "dget (merge_input dm) k = dget dm k" using k by (simp add: merge_input_def)
qed

lemma merge_section_keeps:
  assumes "kept_key k" and "merge_section px isec (clean, dm) = Inr (clean', dm')"
  shows "dget dm' k = dget dm k"
proof (cases isec)
  case (Pair i sec)
  with assms(2) kept_key_other(3) [OF assms(1)] show ?thesis
    by (cases sec) (auto simp: merge_section_def Let_def bind_r_Inr)
qed

lemma merge_sections_keeps:
  assumes "kept_key k" and "merge_sections px st dm = Inr dm'"
  shows "dget dm' k = dget dm k"
proof (cases "jget st ''sections''")
  case (JList secs)
  have fold: "fold_r (merge_section px) xs (clean, d) = Inr (clean', d') \<Longrightarrow> dget d' k = dget d k" for xs clean clean' d d'
    using fold_r_invariant [of "merge_section px" xs "(clean, d)" "(clean', d')" "\<lambda>(c, e). dget e k = dget d k"]
      merge_section_keeps [OF assms(1)] by fastforce
  from JList assms(2) obtain clean d where "fold_r (merge_section px) (enumerate 0 secs) ([], dm) = Inr (clean, d)"
    "dm' = (if clean = [] then d else dput ''section_events'' (JList (map section_event clean)) (dput ''sections'' (JList clean) d))"
    by (auto simp: merge_sections_def bind_r_Inr)
  with fold [OF this(1)] assms(1) show ?thesis by (auto simp: kept_key_def)
qed (use assms(2) in \<open>auto simp: merge_sections_def\<close>)

lemma merge_metrics_keeps: "kept_key k \<Longrightarrow> dget (merge_metrics px st dm) k = dget dm k"
proof -
  assume k: "kept_key k"
  have "dget (fold (\<lambda>(i, m). dput (''metric_'' @ digits i @ ''_value'') (jget m ''value'')) ms d) k = dget d k" for ms d
    by (rule fold_keeps) (use kept_key_other(4) [OF k] in auto)
  then show ?thesis using k by (auto simp: merge_metrics_def Let_def kept_key_def split: json.split)
qed

lemma merge_choices_keeps: "kept_key k \<Longrightarrow> dget (merge_choices px st dm) k = dget dm k"
proof -
  assume k: "kept_key k"
  have "dget (fold (\<lambda>(i, c). dput (''choice_'' @ digits i @ ''_label'') (JStr (snd c))) cs d) k = dget d k" for cs :: "(nat \<times> string \<times> string) list" and d
    by (rule fold_keeps) (use kept_key_other(5) [OF k] in auto)
  then show ?thesis using k by (auto simp: merge_choices_def Let_def kept_key_def split: json.split)
qed

lemma merge_series_keeps:
  assumes "kept_key k" and "merge_series px st dm = Inr dm'"
  shows "dget dm' k = dget dm k"
proof -
  have "k \<noteq> ''series''" "k \<noteq> ''series_values''" "k \<noteq> ''spark''" using assms(1) by (auto simp: kept_key_def)
  with assms(2) show ?thesis by (cases "jget st ''series''") (auto simp: merge_series_def Let_def bind_r_Inr)
qed

lemma merge_table_keeps:
  assumes "kept_key k" and "merge_table px st dm = Inr dm'"
  shows "dget dm' k = dget dm k"
proof -
  have "k \<noteq> ''table_columns''" "k \<noteq> ''table_rows''" using assms(1) by (auto simp: kept_key_def)
  with assms(2) show ?thesis by (cases "jget st ''table''") (auto simp: merge_table_def Let_def bind_r_Inr)
qed

lemma merge_structured_keeps:
  assumes "kept_key k" and "merge_structured a ga dm = Inr dm'"
  shows "dget dm' k = dget dm k"
proof (cases "ga_structured ga = []")
  case True
  then show ?thesis using assms(2) by (simp add: merge_structured_def)
next
  case False
  let ?st = "ga_structured ga" and ?px = "cx_px a"
  let ?dm0 = "merge_input (merge_intro (gathered_summary ga) ?st (merge_title ?st dm))"
  from False assms(2) obtain dm1 dm2 dm3 where steps: "merge_sections ?px ?st ?dm0 = Inr dm1"
    "merge_series ?px ?st (merge_metrics ?px ?st dm1) = Inr dm2" "merge_table ?px ?st dm2 = Inr dm3" "dm' = merge_choices ?px ?st dm3"
    unfolding merge_structured_def Let_def by (auto simp: bind_r_Inr)
  then show ?thesis
    using merge_sections_keeps [OF assms(1) steps(1)] merge_series_keeps [OF assms(1) steps(2)] merge_table_keeps [OF assms(1) steps(3)]
    by (simp add: merge_choices_keeps [OF assms(1)] merge_metrics_keeps [OF assms(1)] small_merges_keep [OF assms(1)])
qed

section \<open>What is gathered\<close>

text \<open>The succeeded nodes that are shown one by one, in the order of their ids.\<close>

definition shown_nodes :: "compose_args \<Rightarrow> snapshot \<Rightarrow> (string \<times> gnode) list" where
  "shown_nodes a s = filter (\<lambda>nn. listed_node a nn \<and> \<not> is_synthesis a nn) (sort_key fst (sn_nodes s))"

definition shows_node :: "compose_args \<Rightarrow> string \<times> gnode \<Rightarrow> run_outcome \<Rightarrow> bool" where
  "shows_node a nn oc = (\<exists>txt urls. outcome_text (node_result (snd nn)) = Inr txt \<and> source_urls (node_result (snd nn)) = Inr urls \<and>
     oc = compose_outcome a nn txt urls)"

lemma dkeys_dput_new: "k \<notin> set (dkeys d) \<Longrightarrow> dkeys (dput k v d) = dkeys d @ [k]"
  by (induction d) auto

lemma dkeys_dput_old: "k \<in> set (dkeys d) \<Longrightarrow> dkeys (dput k v d) = dkeys d"
  by (induction d) auto

lemma gather_fold:
  assumes "fold_r (gather_node a) ns ga = Inr ga'" and "set (dkeys (ga_data ga)) = oc_key ` set (ga_outcomes ga)"
    and "distinct (map oc_key (ga_outcomes ga)) \<Longrightarrow> dkeys (ga_data ga) = map oc_key (ga_outcomes ga)"
  shows "\<exists>ocs. list_all2 (shows_node a) (filter (\<lambda>nn. \<not> is_synthesis a nn) ns) ocs \<and> ga_outcomes ga' = ga_outcomes ga @ ocs \<and>
    set (dkeys (ga_data ga')) = oc_key ` set (ga_outcomes ga') \<and>
    (distinct (map oc_key (ga_outcomes ga')) \<longrightarrow> dkeys (ga_data ga') = map oc_key (ga_outcomes ga'))"
  using assms
proof (induction ns arbitrary: ga)
  case Nil
  then show ?case by simp
next
  case (Cons nn ns)
  from Cons.prems(1) obtain ga1 where step: "gather_node a nn ga = Inr ga1" and rest: "fold_r (gather_node a) ns ga1 = Inr ga'"
    by (auto simp: bind_r_Inr)
  from step obtain body urls where made: "outcome_text (node_result (snd nn)) = Inr body" "source_urls (node_result (snd nn)) = Inr urls"
    by (auto simp: gather_node_def Let_def bind_r_Inr)
  show ?case
  proof (cases "is_synthesis a nn")
    case True
    then have same: "ga_outcomes ga1 = ga_outcomes ga" "ga_data ga1 = ga_data ga" using step made by (auto simp: gather_node_def Let_def)
    show ?thesis using Cons.IH [OF rest] Cons.prems(2,3) True unfolding same by simp
  next
    case False
    let ?oc = "compose_outcome a nn body urls"
    have ga1: "ga_outcomes ga1 = ga_outcomes ga @ [?oc]" "\<exists>v. ga_data ga1 = dput (oc_key ?oc) v (ga_data ga)"
      using step made False by (auto simp: gather_node_def Let_def)
    then obtain v where v: "ga_data ga1 = dput (oc_key ?oc) v (ga_data ga)" by blast
    have k: "set (dkeys (ga_data ga1)) = oc_key ` set (ga_outcomes ga1)" using Cons.prems(2) by (auto simp: ga1(1) v)
    have d: "dkeys (ga_data ga1) = map oc_key (ga_outcomes ga1)" if "distinct (map oc_key (ga_outcomes ga1))"
    proof -
      have "distinct (map oc_key (ga_outcomes ga))" "oc_key ?oc \<notin> set (dkeys (ga_data ga))"
        using that Cons.prems(2) by (auto simp: ga1(1))
      then show ?thesis using Cons.prems(3) by (simp add: ga1(1) v dkeys_dput_new del: map_map)
    qed
    obtain ocs where ocs: "list_all2 (shows_node a) (filter (\<lambda>nn. \<not> is_synthesis a nn) ns) ocs" "ga_outcomes ga' = ga_outcomes ga1 @ ocs"
      "set (dkeys (ga_data ga')) = oc_key ` set (ga_outcomes ga')"
      "distinct (map oc_key (ga_outcomes ga')) \<longrightarrow> dkeys (ga_data ga') = map oc_key (ga_outcomes ga')"
      using Cons.IH [OF rest k d] by blast
    have "shows_node a nn ?oc" using made by (auto simp: shows_node_def)
    with ocs False ga1(1) show ?thesis by (intro exI [of _ "?oc # ocs"]) simp
  qed
qed

lemma gather_shows:
  assumes "gather a s = Inr ga"
  shows "list_all2 (shows_node a) (shown_nodes a s) (ga_outcomes ga)"
    and "distinct (map oc_key (ga_outcomes ga)) \<Longrightarrow> dkeys (ga_data ga) = map oc_key (ga_outcomes ga)"
proof -
  have f: "filter (\<lambda>nn. \<not> is_synthesis a nn) (filter (listed_node a) xs) = filter (\<lambda>nn. listed_node a nn \<and> \<not> is_synthesis a nn) xs" for xs
    by (simp add: conj_commute)
  from gather_fold [OF assms [unfolded gather_def]] obtain ocs where
    "list_all2 (shows_node a) (shown_nodes a s) ocs" "ga_outcomes ga = ocs"
    "distinct (map oc_key (ga_outcomes ga)) \<longrightarrow> dkeys (ga_data ga) = map oc_key (ga_outcomes ga)"
    by (auto simp: shown_nodes_def f)
  then show "list_all2 (shows_node a) (shown_nodes a s) (ga_outcomes ga)"
    and "distinct (map oc_key (ga_outcomes ga)) \<Longrightarrow> dkeys (ga_data ga) = map oc_key (ga_outcomes ga)" by simp_all
qed

lemma compose_data_kept:
  assumes "compose_data a s evs = Inr (ga, dm)"
  shows "gather a s = Inr ga" and "\<exists>dm0. base_model a ga = Inr dm0 \<and> (\<forall>k. kept_key k \<longrightarrow> dget dm k = dget dm0 k)"
proof -
  from assms obtain dm0 where steps: "gather a s = Inr ga" "base_model a ga = Inr dm0"
    "merge_structured a ga (run_facts s evs ga (fold (flatten_outcome ga) (enumerate 0 (ga_outcomes ga)) dm0)) = Inr dm"
    by (auto simp: compose_data_def Let_def bind_r_Inr)
  have "dget dm k = dget dm0 k" if k: "kept_key k" for k
    unfolding merge_structured_keeps [OF k steps(3)] run_facts_keeps [OF k]
    by (rule fold_keeps) (rule flatten_keeps [OF k])
  with steps show "gather a s = Inr ga" "\<exists>dm0. base_model a ga = Inr dm0 \<and> (\<forall>k. kept_key k \<longrightarrow> dget dm k = dget dm0 k)"
    by auto
qed

lemma validate_surface_renderable:
  "validate_surface d = Inr (accepted, rejections) \<Longrightarrow> list_all renderable accepted"
  by (auto simp: validate_surface_def list_all_iff split: json.splits if_splits dest!: check_next_fold)

text \<open>C22: A composed surface shows the run, whatever the model replies: its results are the succeeded nodes outside the surface
  and synthesis families, one for each, in the order of their ids and with their own texts; the goal is the run's; no field of
  an outcome and no part of the structured answer replaces them; the evidence has an entry for each of them when
  their keys differ; and every component of it is one the catalog allows.\<close>

theorem composed_surface_shows_the_run:
  assumes "compose_surface a s evs reply = Inr c"
  shows "\<exists>ocs evidence. list_all2 (shows_node a) (shown_nodes a s) ocs \<and>
    dget (cp_data c) ''goal'' = Some (JStr (cx_goal a)) \<and>
    dget (cp_data c) ''results'' = Some (JList (map (\<lambda>oc. JObj [(''label'', oc_label oc), (''detail'', JStr (oc_detail oc))]) ocs)) \<and>
    cp_labels c = map oc_label ocs \<and> dget (cp_data c) ''evidence'' = Some (JObj evidence) \<and>
    (\<not> distinct (map oc_key ocs) \<or> dkeys evidence = map oc_key ocs) \<and> list_all renderable (cp_components c)"
proof -
  from assms obtain ga dm d accepted rejections where
    steps: "compose_data a s evs = Inr (ga, dm)" "validate_surface d = Inr (accepted, rejections)"
    and c: "cp_data c = dm" "cp_components c = accepted" "cp_labels c = map oc_label (ga_outcomes ga)"
    by (auto simp: compose_surface_def Let_def bind_r_Inr)
  note kept = compose_data_kept [OF steps(1)]
  from kept(2) obtain dm0 where dm0: "base_model a ga = Inr dm0" "\<And>k. kept_key k \<Longrightarrow> dget dm k = dget dm0 k" by blast
  have base: "dget dm0 ''goal'' = Some (JStr (cx_goal a))" "dget dm0 ''evidence'' = Some (JObj (ga_data ga))"
    "dget dm0 ''results'' = Some (JList (map (\<lambda>oc. JObj [(''label'', oc_label oc), (''detail'', JStr (oc_detail oc))]) (ga_outcomes ga)))"
    using dm0(1) by (auto simp: base_model_def Let_def bind_r_Inr)
  have "kept_key ''goal''" "kept_key ''evidence''" "kept_key ''results''" by (simp_all add: kept_key_def)
  with dm0(2) base gather_shows [OF kept(1)] validate_surface_renderable [OF steps(2)] c show ?thesis
    by (intro exI [of _ "ga_outcomes ga"] exI [of _ "ga_data ga"]) auto
qed

section \<open>Where composition fails\<close>

definition plain_px :: pytext where
  "plain_px = \<lparr>px_str = (\<lambda>v. []), px_float = (\<lambda>s. None), px_int = (\<lambda>s. None)\<rparr>"

definition demo_compose :: compose_args where
  "demo_compose = \<lparr>cx_goal = ''compare'', cx_registry = [], cx_px = plain_px, cx_dumps = (\<lambda>d. ''{}'')\<rparr>"

definition done_node :: "string \<Rightarrow> obj \<Rightarrow> gnode" where
  "done_node subject r = \<lparr>n_skill = ''research'', n_input = [(''subject'', JStr subject)], n_metadata = [], n_state = Succeeded,
     n_result = Some r, n_wait = None\<rparr>"

definition composed_run :: "(string \<times> gnode) list \<Rightarrow> snapshot" where
  "composed_run nodes = \<lparr>sn_run_id = ''r'', sn_finished = True, sn_nodes = nodes, sn_edges = []\<rparr>"

definition text_surface :: string where
  "text_surface = [CHR ''{'', CHR 0x22] @ ''components'' @ [CHR 0x22] @ '':[]}''"

theorem composed_surface_shows_the_run_witness:
  "\<exists>c. \<exists>ocs :: run_outcome list. compose_surface demo_compose (composed_run [(''a'', done_node ''x'' [(''text'', JStr ''one'')])]) [] text_surface = Inr c \<and>
     length ocs = 1 \<and> cp_labels c = map oc_label ocs \<and> list_all renderable (cp_components c)"
proof -
  let ?s = "composed_run [(''a'', done_node ''x'' [(''text'', JStr ''one'')])]"
  have "case compose_surface demo_compose ?s [] text_surface of Inl e \<Rightarrow> False | Inr c \<Rightarrow> True" by code_simp
  then obtain c where c: "compose_surface demo_compose ?s [] text_surface = Inr c" by (auto split: sum.splits)
  have "length (shown_nodes demo_compose ?s) = 1" by code_simp
  moreover obtain ocs where ocs: "list_all2 (shows_node demo_compose) (shown_nodes demo_compose ?s) ocs" "cp_labels c = map oc_label ocs"
    "list_all renderable (cp_components c)" using composed_surface_shows_the_run [OF c] by blast
  ultimately have "length ocs = 1" using list_all2_lengthD [OF ocs(1)] by simp
  with c ocs(2,3) show ?thesis by blast
qed

text \<open>Two outcomes with one subject have one key: the first keeps its line in the results, but its evidence, and the result its
  fields are read from, are the second's.\<close>

definition two_attempts :: snapshot where
  "two_attempts = composed_run [(''a'', done_node ''x'' [(''text'', JStr ''one'')]), (''b'', done_node ''x'' [(''text'', JStr ''two'')])]"

lemma same_subject_hides_evidence:
  "(case compose_data demo_compose two_attempts [] of Inl e \<Rightarrow> None
    | Inr (ga, dm) \<Rightarrow> Some (jget dm ''item_count'', map (\<lambda>v. case v of JObj d \<Rightarrow> dkeys d | _ \<Rightarrow> []) [jget dm ''evidence''], jget dm ''x_text'')) =
   Some (JInt 2, [[''x'']], JStr ''two'')"
  by code_simp

text \<open>A component whose child is written inline, where an id belongs, stops the composition after the model was paid, and so
  does a number in place of the list.\<close>

definition inline_child :: "json \<Rightarrow> obj" where
  "inline_child kids = [(''id'', JStr ''root''), (''type'', JStr ''Column''), (''children'', kids)]"

lemma inline_child_stops_the_surface:
  "validate_surface [(''components'', JList [JObj (inline_child (JList [JObj [(''type'', JStr ''Text'')]]))])] =
     Inr ([inline_child (JList [JObj [(''type'', JStr ''Text'')]])], []) \<and>
   dangling_children [inline_child (JList [JObj [(''type'', JStr ''Text'')]])] = Inl TypeError \<and>
   dangling_children [inline_child (JInt 3)] = Inl TypeError"
  by code_simp

text \<open>A calculated integer too large for a float stops it as well.\<close>

lemma huge_value_stops_the_surface:
  "base_model a \<lparr>ga_outcomes = [\<lparr>oc_key = k, oc_label = l, oc_detail = t, oc_sources = n, oc_value = Some (JInt (10 ^ 400))\<rparr>],
     ga_summary = [], ga_data = d, ga_structured = st\<rparr> = Inl OverflowError"
  by (simp add: base_model_def Let_def map_r_def shown_value_def float_of_int_def float_limit_def)

end
