(* ===== verification/Econ_Config.thy ===== *)
theory Econ_Config
  imports Econ_Policy Json
begin

text \<open>
  Loading the economics configuration (\<open>config.py\<close>, and \<open>from_mapping\<close> of \<open>tiers.py\<close>, \<open>pricing.py\<close> and
  \<open>policy.py\<close>): from the three parsed YAML files to a ladder, a price table and thresholds. A YAML mapping is a JSON object, its
  keys are texts; what a scalar's \<open>str\<close>, \<open>int\<close> and \<open>float\<close> are is an argument.
\<close>

section \<open>Scalars\<close>

text \<open>\<open>float(v)\<close> and \<open>int(v)\<close>\<close>

definition float_argument :: "pytext \<Rightarrow> json \<Rightarrow> rat result" where
  "float_argument px v =
     (case v of JStr s \<Rightarrow> (case px_float px s of None \<Rightarrow> Inl ValueError | Some q \<Rightarrow> Inr q)
      | _ \<Rightarrow> (case num_of v of None \<Rightarrow> Inl TypeError | Some q \<Rightarrow> Inr q))"

definition int_argument :: "pytext \<Rightarrow> json \<Rightarrow> int result" where
  "int_argument px v =
     (case v of JStr s \<Rightarrow> (case px_int px s of None \<Rightarrow> Inl ValueError | Some i \<Rightarrow> Inr i)
      | _ \<Rightarrow> (case num_of v of None \<Rightarrow> Inl TypeError | Some q \<Rightarrow> Inr (int_of_rat q)))"

definition float_field :: "pytext \<Rightarrow> obj \<Rightarrow> string \<Rightarrow> rat \<Rightarrow> rat result" where
  "float_field px d k v = float_argument px (dget_or d k (JFloat v))"

definition int_field :: "pytext \<Rightarrow> obj \<Rightarrow> string \<Rightarrow> int \<Rightarrow> int result" where
  "int_field px d k v = int_argument px (dget_or d k (JInt v))"

text \<open>\<open>value or {}\<close>, on which \<open>get\<close> or \<open>items\<close> is called.\<close>

definition mapping_or_empty :: "json \<Rightarrow> obj result" where
  "mapping_or_empty v = (if truthy v then as_record v else Inr [])"

section \<open>Prices\<close>

definition price_of_row :: "pytext \<Rightarrow> json \<Rightarrow> model_price result" where
  "price_of_row px row =
     bind_r (mapping_or_empty row) (\<lambda>r. bind_r (float_field px r ''input'' 0) (\<lambda>i. bind_r (float_field px r ''output'' 0) (\<lambda>out.
       Inr \<lparr>mp_input = i, mp_output = out\<rparr>)))"

definition priced_row :: "pytext \<Rightarrow> string \<times> json \<Rightarrow> (string \<times> model_price) result" where
  "priced_row px kv = bind_r (price_of_row px (snd kv)) (\<lambda>p. Inr (fst kv, p))"

definition pricing_of_mapping :: "pytext \<Rightarrow> obj \<Rightarrow> pricing result" where
  "pricing_of_mapping px d =
     bind_r (int_field px d ''unit_tokens'' 1000000) (\<lambda>unit.
       if unit \<le> 0 then Inl ValueError
       else bind_r (price_of_row px (jget d ''default'')) (\<lambda>dflt.
            bind_r (mapping_or_empty (jget d ''models'')) (\<lambda>rows. bind_r (map_r (priced_row px) rows) (\<lambda>models.
            bind_r (float_field px d ''cache_read_multiplier'' 1) (\<lambda>cr. bind_r (float_field px d ''cache_write_multiplier'' 1) (\<lambda>cw.
            Inr \<lparr>pr_currency = printed (px_str px) (dget_or d ''currency'' (JStr ''USD'')), pr_unit_tokens = unit, pr_default = dflt,
              pr_models = models, pr_cache_read = cr, pr_cache_write = cw\<rparr>))))))"

section \<open>Thresholds\<close>

definition thresholds_of_mapping :: "pytext \<Rightarrow> obj \<Rightarrow> thresholds result" where
  "thresholds_of_mapping px d =
     bind_r (float_field px d ''downgrade_at'' (1 / 2)) (\<lambda>down.
     bind_r (float_field px d ''refuse_at'' (9 / 10)) (\<lambda>refuse.
     bind_r (float_field px d ''headroom_fraction'' 0) (\<lambda>headroom.
     bind_r (int_field px d ''max_calls_per_run'' 0) (\<lambda>per_run.
     bind_r (int_field px d ''max_calls_per_node'' 0) (\<lambda>per_node.
     bind_r (float_field px d ''reserve_fraction'' 0) (\<lambda>held.
     bind_r (float_field px d ''chars_per_token'' 4) (\<lambda>chars.
     bind_r (float_field px d ''input_estimate_safety'' (5 / 4)) (\<lambda>safety.
       Inr \<lparr>th_downgrade_at = down, th_refuse_at = refuse, th_headroom = headroom, th_calls_per_run = per_run,
         th_calls_per_node = per_node, th_reserve = held, th_chars_per_token = chars, th_safety = safety\<rparr>))))))))"

section \<open>The ladder\<close>

text \<open>A model's name is a text; the name and the rank of a rung are those of its place in the order.\<close>

definition text_of :: "json \<Rightarrow> string option" where
  "text_of v = (case v of JStr s \<Rightarrow> Some s | _ \<Rightarrow> None)"

definition tier_of_row :: "pytext \<Rightarrow> string \<Rightarrow> json \<Rightarrow> tier result" where
  "tier_of_row px name v =
     bind_r (mapping_or_empty v) (\<lambda>row. bind_r (mapping_or_empty (jget row ''request'')) (\<lambda>request.
     bind_r (int_field px row ''projected_input_tokens'' 0) (\<lambda>i. bind_r (int_field px row ''projected_output_tokens'' 0) (\<lambda>out.
       Inr \<lparr>t_name = name, t_rank = 0, t_request = request,
         t_price_model = text_of (or_else (jget row ''price_model'') (jget request ''model'')),
         t_projected_input = i, t_projected_output = out\<rparr>))))"

definition named_row :: "pytext \<Rightarrow> obj \<Rightarrow> string \<Rightarrow> (string \<times> tier) result" where
  "named_row px raw name = bind_r (tier_of_row px name (jget raw name)) (\<lambda>t. Inr (name, t))"

definition order_of :: "pytext \<Rightarrow> obj \<Rightarrow> obj \<Rightarrow> string list result" where
  "order_of px raw d =
     (let v = jget d ''order'' in
      if truthy v then bind_r (iterated v) (\<lambda>xs. Inr (map (printed (px_str px)) xs)) else Inr (sort (dkeys raw)))"

definition default_name :: "pytext \<Rightarrow> obj \<Rightarrow> (string \<times> string) list \<Rightarrow> string list \<Rightarrow> string result" where
  "default_name px d roles order =
     (let v = jget d ''default_tier'' in
      if truthy v then Inr (printed (px_str px) v)
      else case dget roles ''default'' of
          Some (c # r) \<Rightarrow> Inr (c # r)
        | _ \<Rightarrow> (case order of [] \<Rightarrow> Inl IndexError | n # ns \<Rightarrow> Inr n))"

definition ladder_of_mapping :: "pytext \<Rightarrow> obj \<Rightarrow> ladder result" where
  "ladder_of_mapping px d =
     bind_r (mapping_or_empty (jget d ''tiers'')) (\<lambda>raw. bind_r (order_of px raw d) (\<lambda>order.
     bind_r (map_r (named_row px raw) order) (\<lambda>rows. bind_r (mapping_or_empty (jget d ''role_tiers'')) (\<lambda>rt.
       let roles = map (\<lambda>(k, v). (k, printed (px_str px) v)) rt in
       bind_r (default_name px d roles order) (\<lambda>dflt. make_ladder (rank_tiers rows 0 order []) order roles dflt)))))"

section \<open>The configuration\<close>

record econ_config =
  ec_ladder :: ladder
  ec_pricing :: pricing
  ec_thresholds :: thresholds
  ec_default_budget :: rat
  ec_limits :: "(string \<times> rat) list"

text \<open>\<open>_read\<close>: a file that may be missing, and what it holds.\<close>

definition read_mapping :: "json option \<Rightarrow> obj result" where
  "read_mapping v = (case v of None \<Rightarrow> Inl FileNotFoundError
     | Some x \<Rightarrow> if truthy x then (case x of JObj d \<Rightarrow> Inr d | _ \<Rightarrow> Inl ValueError) else Inr [])"

definition limit_row :: "pytext \<Rightarrow> string \<times> json \<Rightarrow> (string \<times> rat) result" where
  "limit_row px kv = bind_r (float_argument px (snd kv)) (\<lambda>q. Inr (fst kv, q))"

definition load_config :: "pytext \<Rightarrow> json option \<Rightarrow> json option \<Rightarrow> json option \<Rightarrow> econ_config result" where
  "load_config px tiers_file pricing_file budgets_file =
     bind_r (read_mapping tiers_file) (\<lambda>td. bind_r (read_mapping pricing_file) (\<lambda>pd. bind_r (read_mapping budgets_file) (\<lambda>bd.
     bind_r (ladder_of_mapping px td) (\<lambda>l. bind_r (pricing_of_mapping px pd) (\<lambda>pr. bind_r (thresholds_of_mapping px bd) (\<lambda>th.
     bind_r (float_field px bd ''default_budget'' 0) (\<lambda>amount.
     bind_r (mapping_or_empty (jget bd ''principals'')) (\<lambda>rows. bind_r (map_r (limit_row px) rows) (\<lambda>limits.
       Inr \<lparr>ec_ladder = l, ec_pricing = pr, ec_thresholds = th, ec_default_budget = amount, ec_limits = limits\<rparr>)))))))))"

definition config_policy :: "econ_config \<Rightarrow> policy" where
  "config_policy cf = \<lparr>po_ladder = ec_ladder cf, po_pricing = ec_pricing cf, po_thresholds = ec_thresholds cf\<rparr>"

definition config_budget :: "econ_config \<Rightarrow> string \<Rightarrow> rat option \<Rightarrow> string option \<Rightarrow> budget result" where
  "config_budget cf owner amount run_id =
     new_budget (ceiling_for (ec_default_budget cf) (ec_limits cf) owner amount) owner (pr_currency (ec_pricing cf)) run_id
       (th_reserve (ec_thresholds cf))"

text \<open>\<open>describe\<close>, without the directory.\<close>

definition model_json :: "string option \<Rightarrow> json" where
  "model_json m = (case m of None \<Rightarrow> JNull | Some s \<Rightarrow> JStr s)"

definition describe_config :: "econ_config \<Rightarrow> obj" where
  "describe_config cf =
     (let l = ec_ladder cf; th = ec_thresholds cf in
      [(''currency'', JStr (pr_currency (ec_pricing cf))), (''tier_order'', JList (map JStr (l_order l))),
       (''default_tier'', JStr (t_name (default_tier l))),
       (''tier_models'', JObj (map (\<lambda>n. (n, model_json (tier_model (named_tier l (Some n))))) (remdups (l_order l)))),
       (''default_budget'', JFloat (ec_default_budget cf)),
       (''thresholds'', JObj [(''downgrade_at'', JFloat (th_downgrade_at th)), (''refuse_at'', JFloat (th_refuse_at th)),
          (''headroom_fraction'', JFloat (th_headroom th)), (''reserve_fraction'', JFloat (th_reserve th)),
          (''max_calls_per_run'', JInt (th_calls_per_run th)), (''max_calls_per_node'', JInt (th_calls_per_node th))])])"

section \<open>What loading guarantees\<close>

lemma make_ladder_ranked:
  assumes "make_ladder (rank_tiers rows 0 order []) order roles dflt = Inr l"
  shows "l_order l = order" and "order \<noteq> []" and "set (dkeys (l_tiers l)) = set order" and "l_default l \<in> set order"
    and "distinct order \<Longrightarrow> ladder_ok l"
proof -
  have parts: "order \<noteq> []" "dflt \<in> set order" "l = \<lparr>l_tiers = rank_tiers rows 0 order [], l_order = order, l_roles = roles, l_default = dflt\<rparr>"
    using assms by (auto simp: make_ladder_def dkeys_rank_tiers split: if_splits)
  then show "l_order l = order" and "order \<noteq> []" and "set (dkeys (l_tiers l)) = set order" and "l_default l \<in> set order"
    by (simp_all add: dkeys_rank_tiers)
  show "ladder_ok l" if "distinct order" using rank_tiers_ok [OF parts(1) that parts(2), of rows roles] assms by auto
qed

lemma pricing_of_mapping_unit: "pricing_of_mapping px d = Inr pr \<Longrightarrow> 0 < pr_unit_tokens pr"
  by (auto simp: pricing_of_mapping_def bind_r_Inr split: if_splits)

lemma ladder_of_mapping_made:
  "ladder_of_mapping px d = Inr l \<Longrightarrow> \<exists>rows order roles dflt. make_ladder (rank_tiers rows 0 order []) order roles dflt = Inr l"
  unfolding ladder_of_mapping_def bind_r_Inr Let_def by blast

lemma loaded_parts:
  assumes "load_config px tf pf bf = Inr cf"
  shows "0 < pr_unit_tokens (ec_pricing cf)"
    and "\<exists>rows order roles dflt. make_ladder (rank_tiers rows 0 order []) order roles dflt = Inr (ec_ladder cf)"
proof -
  from assms obtain td pd where "ladder_of_mapping px td = Inr (ec_ladder cf)" "pricing_of_mapping px pd = Inr (ec_pricing cf)"
    unfolding load_config_def bind_r_Inr by fastforce
  then show "0 < pr_unit_tokens (ec_pricing cf)"
    and "\<exists>rows order roles dflt. make_ladder (rank_tiers rows 0 order []) order roles dflt = Inr (ec_ladder cf)"
    using pricing_of_mapping_unit ladder_of_mapping_made by blast+
qed

text \<open>A configuration that loads is one the budget controller can work with: tokens have a positive unit, the ladder has a
  rung, its tiers are those of its order, the default is one of them, and where the order names no tier twice every rung
  knows its place; and a run's budget never passes the principal's configured limit or what was asked for, whichever is smaller.\<close>

lemma loaded_configuration_is_sound:
  assumes "load_config px tiers_file pricing_file budgets_file = Inr cf"
  shows "0 < pr_unit_tokens (ec_pricing cf) \<and> l_order (ec_ladder cf) \<noteq> [] \<and>
    set (dkeys (l_tiers (ec_ladder cf))) = set (l_order (ec_ladder cf)) \<and> l_default (ec_ladder cf) \<in> set (l_order (ec_ladder cf)) \<and>
    (distinct (l_order (ec_ladder cf)) \<longrightarrow> ladder_ok (ec_ladder cf)) \<and>
    (case config_budget cf owner amount run_id of Inl e \<Rightarrow> e = ValueError
     | Inr b \<Rightarrow> 0 \<le> b_total b \<and> b_principal b = owner \<and> b_spent b = 0 \<and> 0 \<le> b_reserve_fraction b \<and> b_reserve_fraction b < 1 \<and>
         (case dget (ec_limits cf) owner of None \<Rightarrow> True | Some l \<Rightarrow> b_total b \<le> l) \<and>
         (case amount of None \<Rightarrow> b_total b \<le> ec_default_budget cf | Some r \<Rightarrow> b_total b \<le> r))"
proof -
  from loaded_parts(2) [OF assms] obtain rows order roles dflt where
    l: "make_ladder (rank_tiers rows 0 order []) order roles dflt = Inr (ec_ladder cf)" by blast
  have budget: "case config_budget cf owner amount run_id of Inl e \<Rightarrow> e = ValueError
     | Inr b \<Rightarrow> 0 \<le> b_total b \<and> b_principal b = owner \<and> b_spent b = 0 \<and> 0 \<le> b_reserve_fraction b \<and> b_reserve_fraction b < 1 \<and>
         (case dget (ec_limits cf) owner of None \<Rightarrow> True | Some l \<Rightarrow> b_total b \<le> l) \<and>
         (case amount of None \<Rightarrow> b_total b \<le> ec_default_budget cf | Some r \<Rightarrow> b_total b \<le> r)"
    by (auto simp: config_budget_def new_budget_def ceiling_for_def Let_def split: option.split)
  show ?thesis using loaded_parts(1) [OF assms] make_ladder_ranked [OF l] budget by simp
qed

definition config_px :: pytext where
  "config_px = \<lparr>px_str = (\<lambda>v. []), px_float = (\<lambda>s. None), px_int = (\<lambda>s. None)\<rparr>"

text \<open>A price list for one model, two tiers in the order, of which only one is defined.\<close>

definition typo_tiers :: obj where
  "typo_tiers = [(''tiers'', JObj [(''cheap'', JObj [(''request'', JObj [(''model'', JStr ''m'')])])]),
     (''order'', JList [JStr ''cheap'', JStr ''chaep''])]"

definition demo_budgets :: obj where
  "demo_budgets = [(''default_budget'', JFloat (1 / 20)), (''principals'', JObj [(''t'', JFloat (1 / 50))])]"

definition demo_config :: "econ_config result" where
  "demo_config = load_config config_px (Some (JObj typo_tiers)) (Some (JObj [])) (Some (JObj demo_budgets))"

lemma demo_config_loads: "(case demo_config of Inl e \<Rightarrow> False | Inr cf \<Rightarrow> l_order (ec_ladder cf) = [''cheap'', ''chaep''])"
  by code_simp

lemma loaded_configuration_is_sound_witness:
  "\<exists>cf. demo_config = Inr cf \<and> ladder_ok (ec_ladder cf) \<and>
     (case config_budget cf ''t'' (Some 1) None of Inl e \<Rightarrow> e = ValueError | Inr b \<Rightarrow> b_total b \<le> 1)"
proof -
  obtain cf where cf: "demo_config = Inr cf" "l_order (ec_ladder cf) = [''cheap'', ''chaep'']"
    using demo_config_loads by (auto split: sum.splits)
  note sound = loaded_configuration_is_sound [OF cf(1) [unfolded demo_config_def], of "''t''" "Some 1" None]
  have "ladder_ok (ec_ladder cf)" using sound cf(2) by simp
  moreover have "case config_budget cf ''t'' (Some 1) None of Inl e \<Rightarrow> e = ValueError | Inr b \<Rightarrow> b_total b \<le> 1"
    using sound by (auto split: sum.splits)
  ultimately show ?thesis using cf(1) by blast
qed

text \<open>The check of \<open>TierLadder\<close> for undefined tiers cannot fail for a mapping: a tier is made for every name of the order first. A
  misspelt name becomes a tier that asks the gateway for nothing in particular.\<close>

lemma undefined_tier_is_accepted:
  "(case demo_config of Inl e \<Rightarrow> None | Inr cf \<Rightarrow> Some (t_request (named_tier (ec_ladder cf) (Some ''chaep'')),
      tier_model (named_tier (ec_ladder cf) (Some ''chaep'')))) = Some ([], None)"
  by code_simp

end
