(* ===== verification/Calculator.thy ===== *)
theory Calculator
  imports Prelude
begin

text \<open>
  The calculator (\<open>_arithmetic\<close> and \<open>calculate\<close> of \<open>tools.py\<close>) on parsed expressions: the tree is what \<open>ast.parse\<close> yields in
  mode \<open>eval\<close>, its values Python's ints, floats, truth values and lists. Floats are exact, so a result is always finite; a float
  power whose exponent is no integer is the argument \<open>fpow\<close>.
\<close>

section \<open>Expressions and values\<close>

datatype binary_op = Add | Sub | Mult | Div | Floor_div | Mod | Pow | Other_binary
datatype unary_op = Plus_sign | Minus_sign | Other_unary
datatype compare_op = Eq | Not_eq | Lt | Lt_e | Gt | Gt_e | Other_compare

text \<open>\<open>Other_node\<close> stands for every other node: names, attributes, texts, comprehensions, conditionals, lambdas.\<close>

datatype calc_expr =
    Int_const int
  | Float_const rat
  | Sequence "calc_expr list"
  | Bin_op binary_op calc_expr calc_expr
  | Unary_op unary_op calc_expr
  | Compare calc_expr "(compare_op \<times> calc_expr) list"
  | Call string "calc_expr list" bool
  | Other_node

datatype calc_value = VInt int | VFloat rat | VBool bool | VList "calc_value list"

text \<open>A truth value is an int.\<close>

fun int_value_of :: "calc_value \<Rightarrow> int option" where
  "int_value_of (VInt i) = Some i"
| "int_value_of (VBool b) = Some (if b then 1 else 0)"
| "int_value_of v = None"

fun number_of :: "calc_value \<Rightarrow> rat option" where
  "number_of (VInt i) = Some (of_int i)"
| "number_of (VBool b) = Some (if b then 1 else 0)"
| "number_of (VFloat q) = Some q"
| "number_of (VList vs) = None"

section \<open>Operators\<close>

text \<open>An operator on numbers: on two ints it may differ from what it does on floats.\<close>

definition on_numbers ::
  "(int \<Rightarrow> int \<Rightarrow> calc_value result) \<Rightarrow> (rat \<Rightarrow> rat \<Rightarrow> calc_value result) \<Rightarrow> calc_value \<Rightarrow> calc_value \<Rightarrow> calc_value result" where
  "on_numbers fi fq a b =
     (case (int_value_of a, int_value_of b) of
        (Some i, Some j) \<Rightarrow> fi i j
      | _ \<Rightarrow> (case (number_of a, number_of b) of (Some p, Some q) \<Rightarrow> fq p q | _ \<Rightarrow> Inl TypeError))"

definition repeated :: "calc_value list \<Rightarrow> int \<Rightarrow> calc_value result" where
  "repeated vs n = Inr (VList (concat (replicate (nat n) vs)))"

definition add_values :: "calc_value \<Rightarrow> calc_value \<Rightarrow> calc_value result" where
  "add_values a b =
     (case (a, b) of (VList xs, VList ys) \<Rightarrow> Inr (VList (xs @ ys))
      | _ \<Rightarrow> on_numbers (\<lambda>i j. Inr (VInt (i + j))) (\<lambda>p q. Inr (VFloat (p + q))) a b)"

definition mult_values :: "calc_value \<Rightarrow> calc_value \<Rightarrow> calc_value result" where
  "mult_values a b =
     (case (a, b) of
        (VList xs, _) \<Rightarrow> (case int_value_of b of Some n \<Rightarrow> repeated xs n | None \<Rightarrow> Inl TypeError)
      | (_, VList ys) \<Rightarrow> (case int_value_of a of Some n \<Rightarrow> repeated ys n | None \<Rightarrow> Inl TypeError)
      | _ \<Rightarrow> on_numbers (\<lambda>i j. Inr (VInt (i * j))) (\<lambda>p q. Inr (VFloat (p * q))) a b)"

definition div_values :: "calc_value \<Rightarrow> calc_value \<Rightarrow> calc_value result" where
  "div_values a b =
     on_numbers (\<lambda>i j. if j = 0 then Inl ZeroDivisionError else Inr (VFloat (of_int i / of_int j)))
       (\<lambda>p q. if q = 0 then Inl ZeroDivisionError else Inr (VFloat (p / q))) a b"

definition floor_div_values :: "calc_value \<Rightarrow> calc_value \<Rightarrow> calc_value result" where
  "floor_div_values a b =
     on_numbers (\<lambda>i j. if j = 0 then Inl ZeroDivisionError else Inr (VInt (i div j)))
       (\<lambda>p q. if q = 0 then Inl ZeroDivisionError else Inr (VFloat (of_int (floor (p / q))))) a b"

definition mod_values :: "calc_value \<Rightarrow> calc_value \<Rightarrow> calc_value result" where
  "mod_values a b =
     on_numbers (\<lambda>i j. if j = 0 then Inl ZeroDivisionError else Inr (VInt (i mod j)))
       (\<lambda>p q. if q = 0 then Inl ZeroDivisionError else Inr (VFloat (p - q * of_int (floor (p / q))))) a b"

definition int_power :: "rat \<Rightarrow> int \<Rightarrow> calc_value result" where
  "int_power p n =
     (if n \<ge> 0 then Inr (VFloat (p ^ nat n)) else if p = 0 then Inl ZeroDivisionError else Inr (VFloat (1 / p ^ nat (- n))))"

text \<open>The exponent is bounded before the power is taken; what is no number has no \<open>float\<close>.\<close>

definition pow_values :: "(rat \<Rightarrow> rat \<Rightarrow> calc_value result) \<Rightarrow> calc_value \<Rightarrow> calc_value \<Rightarrow> calc_value result" where
  "pow_values fpow a b =
     (case number_of b of None \<Rightarrow> Inl TypeError
      | Some e \<Rightarrow>
          if \<bar>e\<bar> > 12 then Inl ValueError
          else on_numbers (\<lambda>i j. if j \<ge> 0 then Inr (VInt (i ^ nat j)) else int_power (of_int i) j)
                 (\<lambda>p q. if q = of_int (floor q) then int_power p (floor q) else fpow p q) a b)"

definition binary_value :: "(rat \<Rightarrow> rat \<Rightarrow> calc_value result) \<Rightarrow> binary_op \<Rightarrow> calc_value \<Rightarrow> calc_value \<Rightarrow> calc_value result" where
  "binary_value fpow op a b =
     (case op of Add \<Rightarrow> add_values a b
      | Sub \<Rightarrow> on_numbers (\<lambda>i j. Inr (VInt (i - j))) (\<lambda>p q. Inr (VFloat (p - q))) a b
      | Mult \<Rightarrow> mult_values a b | Div \<Rightarrow> div_values a b | Floor_div \<Rightarrow> floor_div_values a b | Mod \<Rightarrow> mod_values a b
      | Pow \<Rightarrow> pow_values fpow a b | Other_binary \<Rightarrow> Inl ValueError)"

definition unary_value :: "unary_op \<Rightarrow> calc_value \<Rightarrow> calc_value result" where
  "unary_value op a =
     (let signed = (if op = Minus_sign then uminus else (\<lambda>x. x)); signed_q = (if op = Minus_sign then uminus else (\<lambda>x. x))
      in case a of VFloat q \<Rightarrow> Inr (VFloat (signed_q q))
         | _ \<Rightarrow> (case int_value_of a of Some i \<Rightarrow> Inr (VInt (signed i)) | None \<Rightarrow> Inl TypeError))"

fun values_eq :: "calc_value \<Rightarrow> calc_value \<Rightarrow> bool"
  and all_values_eq :: "calc_value list \<Rightarrow> calc_value list \<Rightarrow> bool" where
  "values_eq (VList xs) b = (case b of VList ys \<Rightarrow> all_values_eq xs ys | _ \<Rightarrow> False)"
| "values_eq a b = (number_of b \<noteq> None \<and> number_of a = number_of b)"
| "all_values_eq [] ys = (ys = [])"
| "all_values_eq (x # xs) ys = (case ys of [] \<Rightarrow> False | y # zs \<Rightarrow> values_eq x y \<and> all_values_eq xs zs)"

text \<open>\<open><\<close>: numbers by value, lists at their first difference; a list and a number have no order.\<close>

fun values_less :: "calc_value \<Rightarrow> calc_value \<Rightarrow> bool result"
  and lists_less :: "calc_value list \<Rightarrow> calc_value list \<Rightarrow> bool result" where
  "values_less (VList xs) b = (case b of VList ys \<Rightarrow> lists_less xs ys | _ \<Rightarrow> Inl TypeError)"
| "values_less a b = (case (number_of a, number_of b) of (Some p, Some q) \<Rightarrow> Inr (p < q) | _ \<Rightarrow> Inl TypeError)"
| "lists_less [] ys = Inr (ys \<noteq> [])"
| "lists_less (x # xs) ys = (case ys of [] \<Rightarrow> Inr False | y # zs \<Rightarrow> if values_eq x y then lists_less xs zs else values_less x y)"

definition compare_values :: "compare_op \<Rightarrow> calc_value \<Rightarrow> calc_value \<Rightarrow> calc_value result" where
  "compare_values op a b =
     (let yes = (\<lambda>r. bind_r r (\<lambda>x. Inr (VBool x))) in
      case op of
        Eq \<Rightarrow> Inr (VBool (values_eq a b))
      | Not_eq \<Rightarrow> Inr (VBool (\<not> values_eq a b))
      | Lt \<Rightarrow> yes (values_less a b)
      | Gt \<Rightarrow> yes (values_less b a)
      | Lt_e \<Rightarrow> yes (bind_r (values_less a b) (\<lambda>x. Inr (x \<or> values_eq a b)))
      | Gt_e \<Rightarrow> yes (bind_r (values_less b a) (\<lambda>x. Inr (x \<or> values_eq a b)))
      | Other_compare \<Rightarrow> Inl KeyError)"

section \<open>Functions\<close>

definition function_names :: "string list" where
  "function_names = [''abs'', ''min'', ''max'', ''round'', ''sum'']"

definition best_value :: "(calc_value \<Rightarrow> calc_value \<Rightarrow> bool result) \<Rightarrow> calc_value list \<Rightarrow> calc_value result" where
  "best_value better vs =
     (case vs of [] \<Rightarrow> Inl ValueError
      | x # xs \<Rightarrow> fold_r (\<lambda>y best. bind_r (better y best) (\<lambda>b. Inr (if b then y else best))) xs x)"

definition chosen :: "(calc_value \<Rightarrow> calc_value \<Rightarrow> bool result) \<Rightarrow> calc_value list \<Rightarrow> calc_value result" where
  "chosen better args =
     (case args of [] \<Rightarrow> Inl TypeError
      | [VList vs] \<Rightarrow> best_value better vs
      | [v] \<Rightarrow> Inl TypeError
      | _ \<Rightarrow> best_value better args)"

definition rounded_to :: "int \<Rightarrow> rat \<Rightarrow> rat" where
  "rounded_to n q = (if n \<ge> 0 then py_round (nat n) q else of_int (round_even (q / 10 ^ nat (- n))) * 10 ^ nat (- n))"

definition rounded :: "calc_value list \<Rightarrow> calc_value result" where
  "rounded args =
     (case args of
        [VFloat q] \<Rightarrow> Inr (VInt (round_even q))
      | [v] \<Rightarrow> (case int_value_of v of Some i \<Rightarrow> Inr (VInt i) | None \<Rightarrow> Inl TypeError)
      | [v, w] \<Rightarrow>
          (case int_value_of w of None \<Rightarrow> Inl TypeError
           | Some n \<Rightarrow> (case v of VFloat q \<Rightarrow> Inr (VFloat (rounded_to n q))
               | _ \<Rightarrow> (case int_value_of v of Some i \<Rightarrow> Inr (VInt (floor (rounded_to n (of_int i)))) | None \<Rightarrow> Inl TypeError)))
      | _ \<Rightarrow> Inl TypeError)"

definition summed :: "calc_value list \<Rightarrow> calc_value result" where
  "summed args =
     (case args of
        [VList vs] \<Rightarrow> fold_r (\<lambda>v acc. add_values acc v) vs (VInt 0)
      | [VList vs, start] \<Rightarrow> fold_r (\<lambda>v acc. add_values acc v) vs start
      | _ \<Rightarrow> Inl TypeError)"

definition absolute :: "calc_value list \<Rightarrow> calc_value result" where
  "absolute args =
     (case args of
        [VFloat q] \<Rightarrow> Inr (VFloat \<bar>q\<bar>)
      | [v] \<Rightarrow> (case int_value_of v of Some i \<Rightarrow> Inr (VInt \<bar>i\<bar>) | None \<Rightarrow> Inl TypeError)
      | _ \<Rightarrow> Inl TypeError)"

definition call_function :: "string \<Rightarrow> calc_value list \<Rightarrow> calc_value result" where
  "call_function name args =
     (if name = ''abs'' then absolute args
      else if name = ''min'' then chosen values_less args
      else if name = ''max'' then chosen (\<lambda>y best. values_less best y) args
      else if name = ''round'' then rounded args
      else summed args)"

section \<open>Evaluation\<close>

fun arithmetic :: "(rat \<Rightarrow> rat \<Rightarrow> calc_value result) \<Rightarrow> nat \<Rightarrow> calc_expr \<Rightarrow> calc_value result"
  and arithmetics :: "(rat \<Rightarrow> rat \<Rightarrow> calc_value result) \<Rightarrow> nat \<Rightarrow> calc_expr list \<Rightarrow> calc_value list result" where
  "arithmetic fpow depth e =
     (if depth > 20 then Inl ValueError
      else case e of
          Int_const i \<Rightarrow> Inr (VInt i)
        | Float_const q \<Rightarrow> Inr (VFloat q)
        | Sequence es \<Rightarrow>
            if length es > 100 then Inl ValueError
            else bind_r (arithmetics fpow (depth + 1) es) (\<lambda>vs. Inr (VList vs))
        | Bin_op op l r \<Rightarrow>
            if op = Other_binary then Inl ValueError
            else bind_r (arithmetic fpow (depth + 1) l) (\<lambda>a. bind_r (arithmetic fpow (depth + 1) r) (\<lambda>b. binary_value fpow op a b))
        | Unary_op op x \<Rightarrow>
            if op = Other_unary then Inl ValueError
            else bind_r (arithmetic fpow (depth + 1) x) (unary_value op)
        | Compare l [(op, r)] \<Rightarrow>
            if op = Other_compare then Inl KeyError
            else bind_r (arithmetic fpow (depth + 1) l) (\<lambda>a. bind_r (arithmetic fpow (depth + 1) r) (\<lambda>b. compare_values op a b))
        | Compare l _ \<Rightarrow> Inl ValueError
        | Call name args kwargs \<Rightarrow>
            if name \<notin> set function_names then Inl ValueError
            else if kwargs then Inl ValueError
            else bind_r (arithmetics fpow (depth + 1) args) (call_function name)
        | Other_node \<Rightarrow> Inl ValueError)"
| "arithmetics fpow depth [] = Inr []"
| "arithmetics fpow depth (e # es) =
     bind_r (arithmetic fpow depth e) (\<lambda>v. bind_r (arithmetics fpow depth es) (\<lambda>vs. Inr (v # vs)))"

declare arithmetic.simps [simp del]

text \<open>\<open>calculate\<close>: the expression node is at depth 0, its body at depth 1.\<close>

definition calculate :: "(rat \<Rightarrow> rat \<Rightarrow> calc_value result) \<Rightarrow> calc_expr \<Rightarrow> calc_value result" where
  "calculate fpow e = arithmetic fpow 1 e"

section \<open>What the calculator runs\<close>

text \<open>An expression of arithmetic and nothing else: constants, lists of at most a hundred, the operators, one comparison, the five
  functions without keywords.\<close>

fun only_arithmetic :: "calc_expr \<Rightarrow> bool" where
  "only_arithmetic (Int_const i) = True"
| "only_arithmetic (Float_const q) = True"
| "only_arithmetic (Sequence es) = (length es \<le> 100 \<and> list_all only_arithmetic es)"
| "only_arithmetic (Bin_op op l r) = (op \<noteq> Other_binary \<and> only_arithmetic l \<and> only_arithmetic r)"
| "only_arithmetic (Unary_op op x) = (op \<noteq> Other_unary \<and> only_arithmetic x)"
| "only_arithmetic (Compare l rs) = (only_arithmetic l \<and> length rs = 1 \<and> list_all (\<lambda>(op, r). op \<noteq> Other_compare \<and> only_arithmetic r) rs)"
| "only_arithmetic (Call name args kwargs) = (name \<in> set function_names \<and> \<not> kwargs \<and> list_all only_arithmetic args)"
| "only_arithmetic Other_node = False"

definition highest :: "nat list \<Rightarrow> nat" where
  "highest ns = foldr max ns 0"

lemma highest_simps [simp]: "highest [] = 0" "highest (n # ns) = max n (highest ns)"
  by (simp_all add: highest_def)

lemma add_max_le: "d + max a b \<le> m \<longleftrightarrow> d + a \<le> m \<and> d + b \<le> m" for a b d m :: nat
  by (auto simp: max_def)

lemma highest_le: "d \<le> m \<Longrightarrow> \<forall>x \<in> set es. d + f x \<le> m \<Longrightarrow> d + highest (map f es) \<le> m"
  by (induction es) (auto simp: max_def)

fun expr_height :: "calc_expr \<Rightarrow> nat" where
  "expr_height (Sequence es) = 1 + highest (map expr_height es)"
| "expr_height (Bin_op op l r) = 1 + max (expr_height l) (expr_height r)"
| "expr_height (Unary_op op x) = 1 + expr_height x"
| "expr_height (Compare l rs) = 1 + max (expr_height l) (highest (map (\<lambda>(op, r). expr_height r) rs))"
| "expr_height (Call name args kwargs) = 1 + highest (map expr_height args)"
| "expr_height e = 1"

lemma arithmetics_all:
  assumes "arithmetics fpow depth es = Inr vs" and "\<And>e v. e \<in> set es \<Longrightarrow> arithmetic fpow depth e = Inr v \<Longrightarrow> P e"
  shows "\<forall>e \<in> set es. P e"
  using assms by (induction es arbitrary: vs) (auto simp: bind_r_Inr)

lemma arithmetic_runs:
  "arithmetic fpow depth e = Inr v \<Longrightarrow> only_arithmetic e \<and> depth + expr_height e \<le> 21"
proof (induction e arbitrary: depth v)
  case (Sequence es)
  then obtain vs where vs: "depth \<le> 20" "length es \<le> 100" "arithmetics fpow (depth + 1) es = Inr vs"
    by (auto simp: arithmetic.simps bind_r_Inr split: if_splits)
  have "\<forall>e \<in> set es. only_arithmetic e \<and> depth + 1 + expr_height e \<le> 21"
    by (rule arithmetics_all [OF vs(3)]) (rule Sequence.IH)
  with vs highest_le [of depth 20 _ expr_height] show ?case by (auto simp: list_all_iff)
next
  case (Bin_op op l r)
  then obtain a b where "depth \<le> 20" "op \<noteq> Other_binary" "arithmetic fpow (depth + 1) l = Inr a" "arithmetic fpow (depth + 1) r = Inr b"
    by (subst (asm) (3) arithmetic.simps) (auto simp: bind_r_Inr split: if_splits)
  with Bin_op.IH(1) [of "depth + 1" a] Bin_op.IH(2) [of "depth + 1" b] show ?case by (simp add: add_max_le)
next
  case (Unary_op op x)
  then obtain a where "op \<noteq> Other_unary" "arithmetic fpow (depth + 1) x = Inr a"
    by (subst (asm) (2) arithmetic.simps) (auto simp: bind_r_Inr split: if_splits)
  with Unary_op.IH [of "depth + 1" a] show ?case by simp
next
  case (Compare l rs)
  from Compare.prems obtain op r where rs: "rs = [(op, r)]"
    by (subst (asm) arithmetic.simps) (auto split: if_splits list.splits)
  from Compare.prems obtain a b where "op \<noteq> Other_compare" "arithmetic fpow (depth + 1) l = Inr a" "arithmetic fpow (depth + 1) r = Inr b"
    unfolding rs by (subst (asm) arithmetic.simps) (auto simp: bind_r_Inr split: if_splits)
  with Compare.IH(1) [of "depth + 1" a] Compare.IH(2) [of "(op, r)" r "depth + 1" b] show ?case by (simp add: rs add_max_le)
next
  case (Call name args kwargs)
  then obtain vs where vs: "depth \<le> 20" "name \<in> set function_names" "\<not> kwargs" "arithmetics fpow (depth + 1) args = Inr vs"
    by (auto simp: arithmetic.simps bind_r_Inr split: if_splits)
  have "\<forall>e \<in> set args. only_arithmetic e \<and> depth + 1 + expr_height e \<le> 21"
    by (rule arithmetics_all [OF vs(4)]) (rule Call.IH)
  with vs highest_le [of depth 20 _ expr_height] show ?case by (auto simp: list_all_iff)
qed (auto simp: arithmetic.simps split: if_splits)

text \<open>The calculator runs arithmetic and nothing else: an expression it answers has no name, attribute, text or call but the
  five functions without keywords, no list of more than a hundred entries, and at most twenty levels, wherever in it
  these would stand; so nothing it is given can reach the interpreter around it.\<close>

lemma calculator_runs_only_arithmetic:
  assumes "calculate fpow e = Inr v"
  shows "only_arithmetic e \<and> expr_height e \<le> 20"
  using arithmetic_runs [OF assms [unfolded calculate_def]] by simp

definition demo_expr :: calc_expr where
  "demo_expr = Call ''max'' [Bin_op Add (Int_const 2) (Bin_op Mult (Int_const 3) (Int_const 4)), Bin_op Floor_div (Int_const (- 7)) (Int_const 2)] False"

lemma demo_expr_value: "calculate (\<lambda>p q. Inl ValueError) demo_expr = Inr (VInt 14)"
  by code_simp

lemma calculator_runs_only_arithmetic_witness: "only_arithmetic demo_expr \<and> expr_height demo_expr \<le> 20"
  by (rule calculator_runs_only_arithmetic [OF demo_expr_value])

text \<open>The bound on lists holds for the text only: a list of one entry repeated ten to the twelfth times passes every check.\<close>

lemma list_bound_is_escaped:
  "calculate fpow (Bin_op Mult (Sequence [Int_const 0]) (Bin_op Pow (Int_const 10) (Int_const 12))) =
     Inr (VList (concat (replicate (nat (10 ^ 12)) [VInt 0])))"
proof -
  have p: "binary_value fpow Pow (VInt 10) (VInt 12) = Inr (VInt (10 ^ 12))"
    by (simp add: binary_value_def pow_values_def on_numbers_def)
  have m: "binary_value fpow Mult (VList [VInt 0]) (VInt n) = Inr (VList (concat (replicate (nat n) [VInt 0])))" for n
    by (simp add: binary_value_def mult_values_def repeated_def)
  have l: "arithmetic fpow 2 (Sequence [Int_const 0]) = Inr (VList [VInt 0])" by (simp add: arithmetic.simps)
  have t: "arithmetic fpow 3 (Int_const 10) = Inr (VInt 10)" "arithmetic fpow 3 (Int_const 12) = Inr (VInt 12)"
    by (simp_all add: arithmetic.simps)
  have r: "arithmetic fpow 2 (Bin_op Pow (Int_const 10) (Int_const 12)) = Inr (VInt (10 ^ 12))"
    by (subst arithmetic.simps) (simp add: t p del: power_numeral)
  show ?thesis unfolding calculate_def
    by (subst arithmetic.simps) (simp add: l r [unfolded one_add_one] m numeral_2_eq_2 [symmetric] del: power_numeral)
qed

text \<open>So does the bound on exponents: powers of powers go as far as the depth allows.\<close>

fun tower :: "nat \<Rightarrow> calc_expr" where
  "tower 0 = Int_const 10"
| "tower (Suc n) = Bin_op Pow (tower n) (Int_const 12)"

lemma exponent_bound_is_escaped: "depth + n \<le> 20 \<Longrightarrow> arithmetic fpow depth (tower n) = Inr (VInt (10 ^ (12 ^ n)))"
proof (induction n arbitrary: depth)
  case (Suc n)
  have p: "binary_value fpow Pow (VInt i) (VInt 12) = Inr (VInt (i ^ 12))" for i
    by (simp add: binary_value_def pow_values_def on_numbers_def)
  have "arithmetic fpow (Suc depth) (tower n) = Inr (VInt (10 ^ (12 ^ n)))" using Suc by simp
  moreover have "arithmetic fpow (Suc depth) (Int_const 12) = Inr (VInt 12)" using Suc.prems by (simp add: arithmetic.simps)
  ultimately show ?case using Suc.prems p
    by (subst tower.simps, subst arithmetic.simps) (simp add: power_mult [symmetric] mult.commute)
qed (simp add: arithmetic.simps)

end
