(* ===== verification/Coding_Git.thy ===== *)
theory Coding_Git
  imports Coding_Edit Json
begin

text \<open>
  The workspace as a git checkout (\<open>coding/workspace.py\<close>), and the workers that run a command, show the changes and throw them away
  (\<open>workers/coding.py\<close>). Git itself is an argument: what one call of it ends with.
\<close>

section \<open>Calling git\<close>

datatype git_end = Git_done int string string | Git_missing | Git_slow

type_synonym git = "string list \<Rightarrow> git_end"

text \<open>A program that is missing is a \<open>FileNotFoundError\<close>, one that takes too long a subprocess error, which is its own class.\<close>

definition run_git :: "git \<Rightarrow> string list \<Rightarrow> string result" where
  "run_git g args =
     (case g args of
        Git_done code out err \<Rightarrow> if code \<noteq> 0 then Inl WorkspaceError else Inr out
      | Git_missing \<Rightarrow> Inl FileNotFoundError
      | Git_slow \<Rightarrow> Inl OSError)"

definition is_git :: "git \<Rightarrow> bool" where
  "is_git g = (case run_git g [''rev-parse'', ''--git-dir''] of Inl e \<Rightarrow> False | Inr out \<Rightarrow> True)"

definition workspace_diff :: "git \<Rightarrow> string result" where
  "workspace_diff g = bind_r (run_git g [''diff'']) (\<lambda>a. bind_r (run_git g [''diff'', ''--cached'']) (\<lambda>b. Inr (a @ b)))"

text \<open>A line of the short status: two letters and a blank, then the path.\<close>

definition status_path :: "string \<Rightarrow> string" where
  "status_path line = strip (drop 3 line)"

definition changed_files :: "git \<Rightarrow> string list result" where
  "changed_files g =
     bind_r (run_git g [''status'', ''--porcelain'']) (\<lambda>out.
       Inr (sort (remdups (map status_path (filter (\<lambda>l. strip l \<noteq> []) (split_lines out))))))"

definition reset_workspace :: "git \<Rightarrow> unit result" where
  "reset_workspace g = bind_r (run_git g [''checkout'', ''--'', ''.'']) (\<lambda>a. bind_r (run_git g [''clean'', ''-fd'']) (\<lambda>b. Inr ()))"

definition switch_branch :: "git \<Rightarrow> string \<Rightarrow> string result" where
  "switch_branch g name = bind_r (run_git g [''checkout'', ''-B'', name]) (\<lambda>a. Inr name)"

definition current_branch :: "git \<Rightarrow> string result" where
  "current_branch g = bind_r (run_git g [''rev-parse'', ''--abbrev-ref'', ''HEAD'']) (\<lambda>a. Inr (strip a))"

section \<open>The workers\<close>

text \<open>A worker returns a dict, or the object the command runner made.\<close>

datatype coding_result = As_dict obj | As_object command_result

definition git_diff_worker :: "git \<Rightarrow> coding_result result" where
  "git_diff_worker g =
     bind_r (workspace_diff g) (\<lambda>d. bind_r (changed_files g) (\<lambda>files.
       Inr (As_dict [(''diff'', or_else (JStr d) (JStr ''(no changes)'')), (''files'', JList (map JStr files))])))"

definition git_reset_worker :: "git \<Rightarrow> coding_result result" where
  "git_reset_worker g =
     bind_r (changed_files g) (\<lambda>changed. bind_r (reset_workspace g) (\<lambda>u.
       Inr (As_dict [(''reset'', JBool True), (''discarded'', JList (map JStr changed))])))"

definition run_command_worker ::
  "string list \<Rightarrow> string option \<Rightarrow> string \<Rightarrow> string list \<Rightarrow> int \<Rightarrow> process_end \<Rightarrow> coding_result result" where
  "run_command_worker allowed img base argv timeout pe =
     bind_r (run_command allowed img base argv timeout pe) (\<lambda>r. Inr (As_object r))"

text \<open>What the journal makes of a result: it is written as JSON, and an object of a class has no JSON.\<close>

definition journalled :: "coding_result \<Rightarrow> obj result" where
  "journalled r = (case r of As_dict d \<Rightarrow> Inr d | As_object c \<Rightarrow> Inl TypeError)"

section \<open>Facts\<close>

text \<open>The reset reports exactly what the status showed before, and runs nothing when the status fails.\<close>

lemma reset_reports_the_changes:
  "git_reset_worker g = Inr r \<Longrightarrow> \<exists>files. changed_files g = Inr files \<and>
     r = As_dict [(''reset'', JBool True), (''discarded'', JList (map JStr files))] \<and> sorted files \<and> distinct files"
  by (auto simp: git_reset_worker_def bind_r_Inr changed_files_def)

text \<open>Every command that ran ends the run: its result cannot be journalled.\<close>

lemma commands_are_never_journalled:
  "run_command_worker allowed img base argv timeout pe = Inr r \<Longrightarrow> journalled r = Inl TypeError"
  by (auto simp: run_command_worker_def bind_r_Inr journalled_def)

text \<open>A renamed file has two paths on its line of the status, which become one that does not exist.\<close>

lemma renamed_file_is_no_path: "status_path ''R  old.py -> new.py'' = ''old.py -> new.py''"
  by code_simp

end
