(* ===== verification/Planner_Context.thy ===== *)
theory Planner_Context
  imports Planner_Claims Skills Runtime
begin

text \<open>
  What the planner tells its models (\<open>planner.py\<close>): the clipped outcomes, the context of a planning call, the skills it keeps in
  the system prompt, and the context of the evidence review; and how far what is offered agrees with what \<open>_parse\<close> accepts.
  The wording of the prompts and the capabilities' descriptions are text, and left out; the ellipsis is the character 133.
\<close>

section \<open>Clipping\<close>

definition clip_mark :: "nat \<Rightarrow> string" where
  "clip_mark n = [CHR 0x85] @ ''<'' @ digits n @ '' chars>''"

text \<open>\<open>_clip\<close>: texts to \<open>chars\<close> characters, lists to twelve items, dicts to thirty keys, ten levels.\<close>

function clip :: "nat \<Rightarrow> nat \<Rightarrow> json \<Rightarrow> json" where
  "clip chars depth v =
     (if depth > 9 then JStr ''<depth-limit>''
      else case v of
        JStr s \<Rightarrow> if length s \<le> chars then JStr s else JStr (take chars s @ clip_mark (length s - chars))
      | JList xs \<Rightarrow> JList (map (clip chars (depth + 1)) (take 12 xs))
      | JObj d \<Rightarrow> JObj (map (\<lambda>(k, x). (k, clip chars (depth + 1) x)) (take 30 d))
      | _ \<Rightarrow> v)"
  by pat_completeness auto
termination by (relation "measure (\<lambda>(chars, depth, v). 10 - depth)") auto

declare clip.simps [simp del]

definition clip_default :: "json \<Rightarrow> json" where
  "clip_default v = clip 4000 0 v"

definition review_clip_chars :: nat where
  "review_clip_chars = 60000"

section \<open>The planning call\<close>

text \<open>The registry's manifest, an entry for each capability.\<close>

definition opt_field :: "string \<Rightarrow> json option \<Rightarrow> obj" where
  "opt_field k v = (case v of None \<Rightarrow> [] | Some x \<Rightarrow> [(k, x)])"

definition argument_manifest :: "argument \<Rightarrow> obj" where
  "argument_manifest ag =
     [(''type'', JStr (ag_kind ag))] @
     (if ag_required ag then [] else (''required'', JBool False) # opt_field ''default'' (ag_default ag)) @
     opt_field ''minimum'' (map_option JInt (ag_minimum ag)) @ opt_field ''maximum'' (map_option JInt (ag_maximum ag)) @
     (if ag_choices ag = [] then [] else [(''enum'', JList (map JStr (ag_choices ag)))]) @
     opt_field ''items'' (map_option (\<lambda>k. JObj [(''type'', JStr k)]) (ag_item_kind ag)) @
     opt_field ''format'' (map_option JStr (ag_format ag))"

definition capability_manifest :: "capability \<Rightarrow> obj" where
  "capability_manifest c =
     [(''name'', JStr (cp_name c)), (''arguments'', JObj (map (\<lambda>(n, ag). (n, JObj (argument_manifest ag))) (cp_arguments c))),
      (''side_effect'', JBool (cp_side_effect c)), (''terminal_for'', JList (map JStr (cp_terminal_for c)))]"

text \<open>What is offered: without the side effects the run may not have, and without what this deployment cannot run.\<close>

definition offered :: "planner_settings \<Rightarrow> string list \<Rightarrow> capability list" where
  "offered gp unavail =
     filter (\<lambda>c. (\<not> cp_side_effect c \<or> cp_name c \<in> set (gp_allowed gp)) \<and> cp_name c \<notin> set unavail) (map snd (gp_registry gp))"

definition result_json :: "gnode \<Rightarrow> json" where
  "result_json n = (case n_result n of None \<Rightarrow> JNull | Some r \<Rightarrow> JObj r)"

definition prompt_node :: "string \<times> gnode \<Rightarrow> json" where
  "prompt_node = (\<lambda>(nid, n). JObj [(''id'', JStr nid), (''capability'', JStr (n_skill n)), (''arguments'', JObj (n_input n)),
     (''state'', JStr (state_str (n_state n))), (''outcome'', clip_default (result_json n))])"

definition prompt_event :: "event \<Rightarrow> json" where
  "prompt_event e = JObj [(''sequence'', JInt (int (ev_sequence e))), (''kind'', JStr (ev_kind e)),
     (''node_id'', (case ev_node e of None \<Rightarrow> JNull | Some nid \<Rightarrow> JStr nid)), (''outcome'', clip_default (JObj (ev_payload e)))]"

definition edge_json :: "string \<times> string \<Rightarrow> json" where
  "edge_json e = JList [JStr (fst e), JStr (snd e)]"

record planner_surroundings =
  ps_goal :: string
  ps_evidence :: obj
  ps_unavailable :: "string list"
  ps_skills :: "manager option"

definition planner_prompt :: "planner_settings \<Rightarrow> planner_surroundings \<Rightarrow> snapshot \<Rightarrow> event \<Rightarrow> obj" where
  "planner_prompt gp ps g e =
     (let skills = (case ps_skills ps of None \<Rightarrow> [] | Some m \<Rightarrow> listing m) in
      [(''goal'', JStr (ps_goal ps)), (''initial_evidence'', clip_default (JObj (ps_evidence ps))),
       (''respond_as'', JStr (gp_respond_as gp)), (''latest_event'', prompt_event e),
       (''graph'', JObj [(''nodes'', JList (map prompt_node (sn_nodes g))), (''edges'', JList (map edge_json (sn_edges g)))]),
       (''capabilities'', JList (map (\<lambda>c. JObj (capability_manifest c)) (offered gp (ps_unavailable ps))))] @
      (if skills = [] then [] else [(''skills_available'', JList (map JObj skills))]) @
      [(''authority'', JObj [(''allowed_side_effects'', JList (map JStr (sort (remdups (gp_allowed gp)))))]),
       (''limits'', JObj [(''max_new_tasks_now'', JInt (gp_max_new gp)),
          (''remaining_node_slots'', JInt (gp_max_nodes gp - int (length (sn_nodes g))))])])"

text \<open>The skills the run has asked for, read from its graph, and the prompt they are injected into.\<close>

definition loaded_skills :: "(json \<Rightarrow> string) \<Rightarrow> snapshot \<Rightarrow> string list" where
  "loaded_skills str_of g =
     map (\<lambda>(nid, n). printed str_of (dget_or (n_input n) ''name'' (JStr [])))
       (filter (\<lambda>(nid, n). n_skill n = ''load_skill'' \<and> n_state n = Succeeded \<and> \<not> truthy (jget (n_input n) ''reference'')) (sn_nodes g))"

definition planner_system :: "string \<Rightarrow> string \<Rightarrow> string list \<Rightarrow> manager option \<Rightarrow> string" where
  "planner_system base goal loaded skills =
     (case skills of None \<Rightarrow> base
      | Some m \<Rightarrow> let injected = render_skills goal loaded m in
          if injected = [] then base else base @ [CHR 0x0A, CHR 0x0A] @ injected)"

section \<open>The evidence review\<close>

definition reviewed_node :: "string \<times> gnode \<Rightarrow> json" where
  "reviewed_node = (\<lambda>(nid, n). JObj [(''id'', JStr nid), (''capability'', JStr (n_skill n)), (''arguments'', JObj (n_input n)),
     (''outcome'', clip review_clip_chars 0 (result_json n))])"

definition unresolved :: "string \<times> gnode \<Rightarrow> json option" where
  "unresolved = (\<lambda>(nid, n).
     let r = result_or_empty n in
     if n_state n = Succeeded \<and> truthy (jget r ''insufficient'')
     then Some (JObj [(''id'', JStr nid), (''missing'', dget_or r ''missing'' (JList []))]) else None)"

definition review_prompt :: "planner_settings \<Rightarrow> planner_surroundings \<Rightarrow> snapshot \<Rightarrow> obj" where
  "review_prompt gp ps g =
     (let succeeded = filter (\<lambda>(nid, n). n_state n = Succeeded) (sn_nodes g) in
      [(''goal'', JStr (ps_goal ps)), (''respond_as'', JStr (gp_respond_as gp)),
       (''initial_evidence'', clip_default (JObj (ps_evidence ps))),
       (''completed_evidence'', JList (map reviewed_node succeeded)),
       (''evidence_attempts'', JInt (int (length (filter (\<lambda>(nid, n). n_skill n \<in> set (family (gp_registry gp) ''evidence'')) succeeded)))),
       (''verified_gaps'', clip_default (JList (List.map_filter unresolved (sn_nodes g))))])"

section \<open>Facts about clipping\<close>

text \<open>What the bounds leave alone, and what they promise.\<close>

function fits_clip :: "nat \<Rightarrow> nat \<Rightarrow> json \<Rightarrow> bool" where
  "fits_clip chars depth v =
     (if depth > 9 then False else
      (case v of
        JStr s \<Rightarrow> length s \<le> chars
      | JList xs \<Rightarrow> length xs \<le> 12 \<and> list_all (fits_clip chars (depth + 1)) (take 12 xs)
      | JObj d \<Rightarrow> length d \<le> 30 \<and> list_all (\<lambda>(k, x). fits_clip chars (depth + 1) x) (take 30 d)
      | _ \<Rightarrow> True))"
  by pat_completeness auto
termination
  apply (relation "measure (\<lambda>(chars, depth, v). 10 - depth)")
    apply auto
  done

declare fits_clip.simps [simp del]

lemma clip_fits: "fits_clip chars depth v \<Longrightarrow> clip chars depth v = v"
proof (induction chars depth v rule: clip.induct)
  case (1 chars depth v)
  from 1(3) have d: "\<not> depth > 9" by (subst (asm) fits_clip.simps) (simp split: if_splits)
  show ?case
  proof (cases v)
    case (JList xs)
    with 1(3) d have xs: "length xs \<le> 12" "list_all (fits_clip chars (depth + 1)) xs" by (auto simp: fits_clip.simps [of chars depth])
    then have "map (clip chars (depth + 1)) xs = xs"
      using 1(1) [OF d JList] by (intro map_idI) (auto simp: list_all_iff)
    with d JList xs(1) show ?thesis by (subst clip.simps) simp
  next
    case (JObj es)
    with 1(3) d have es: "length es \<le> 30" "list_all (\<lambda>(k, x). fits_clip chars (depth + 1) x) es" by (auto simp: fits_clip.simps [of chars depth])
    then have "map (\<lambda>(k, x). (k, clip chars (depth + 1) x)) es = es"
      using 1(2) [OF d JObj] by (intro map_idI) (auto simp: list_all_iff)
    with d JObj es(1) show ?thesis by (subst clip.simps) simp
  qed (use 1(3) d in \<open>simp_all add: fits_clip.simps [of chars depth] clip.simps [of chars depth]\<close>)
qed

text \<open>An outcome that fits reaches the review whole.\<close>

lemma review_sees_fitting_outcomes:
  assumes "(nid, n) \<in> set (sn_nodes g)" and "n_state n = Succeeded" and "fits_clip review_clip_chars 0 (result_json n)"
  shows "\<exists>seen. jget (review_prompt gp ps g) ''completed_evidence'' = JList seen \<and>
    JObj [(''id'', JStr nid), (''capability'', JStr (n_skill n)), (''arguments'', JObj (n_input n)), (''outcome'', result_json n)] \<in> set seen"
proof -
  have "reviewed_node (nid, n) = JObj [(''id'', JStr nid), (''capability'', JStr (n_skill n)), (''arguments'', JObj (n_input n)),
      (''outcome'', result_json n)]"
    using assms(3) by (simp add: reviewed_node_def clip_fits)
  moreover have "jget (review_prompt gp ps g) ''completed_evidence'' =
      JList (map reviewed_node (filter (\<lambda>(nid, n). n_state n = Succeeded) (sn_nodes g)))"
    by (simp add: review_prompt_def Let_def jget_def dget_or_def)
  ultimately show ?thesis using assms(1,2) by force
qed

text \<open>
  The bound on characters was raised for the review so that complete work does not look unfinished; the bounds on items
  and keys were not. Of thirteen questions in a list the reviewer sees twelve, with nothing to say that one is missing.
\<close>

definition question :: "nat \<Rightarrow> json" where
  "question i = JObj [(''question'', JStr (''Question '' @ digits i))]"

lemma review_loses_the_thirteenth_item:
  "clip review_clip_chars 0 (JObj [(''sections'', JList (map question [1..<14]))]) = JObj [(''sections'', JList (map question [1..<13]))]"
proof -
  have "clip review_clip_chars 2 (question i) = question i" if "i < 100" for i
  proof (rule clip_fits)
    have "i div 10 < 10" using that by simp
    then have "length (digits i) \<le> 2" by (simp add: digits.simps [of i] digits.simps [of "i div 10"])
    then show "fits_clip review_clip_chars 2 (question i)"
      by (simp add: question_def fits_clip.simps [of _ 2] fits_clip.simps [of _ 3] review_clip_chars_def)
  qed
  then have "map (clip review_clip_chars 2) (map question [1..<13]) = map question [1..<13]"
    by (auto intro: map_idI)
  moreover have "take 12 (map question [1..<14]) = map question [1..<13]" by (simp add: take_map upt_rec)
  moreover have "clip review_clip_chars 1 (JList xs) = JList (map (clip review_clip_chars 2) (take 12 xs))" for xs
    by (subst clip.simps) (simp add: numeral_2_eq_2)
  moreover have "clip review_clip_chars 0 (JObj [(''sections'', v)]) = JObj [(''sections'', clip review_clip_chars 1 v)]" for v
    by (subst clip.simps) (simp add: numeral_2_eq_2)
  ultimately show ?thesis by metis
qed

section \<open>What is offered and what is accepted\<close>

text \<open>With everything available, a plan holds offered capabilities only.\<close>

lemma planned_tasks_were_offered:
  assumes "plan gp model review g e = Inr p" and "t \<in> set (p_add p)" and "list_all (\<lambda>(n, c). n = cp_name c) (gp_registry gp)"
  shows "\<exists>c \<in> set (offered gp []). cp_name c = ts_skill t"
proof -
  obtain c where c: "dget (gp_registry gp) (ts_skill t) = Some c" "\<not> cp_side_effect c \<or> ts_skill t \<in> set (gp_allowed gp)"
    using plan_ok [OF assms(1)] assms(2) by (fastforce simp: patch_ok_def task_ok_def)
  then have m: "(ts_skill t, c) \<in> set (gp_registry gp)" by (auto dest: map_of_SomeD)
  with assms(3) have "cp_name c = ts_skill t" by (auto simp: list_all_iff)
  with c m show ?thesis by (force simp: offered_def)
qed

text \<open>
  What the deployment cannot run is left out of the offer and nowhere refused: the boundary, which the code calls the hard one, does not know
  of it. The demonstration's settings have no workspace; the test run it asks for is planned all the same.
\<close>

lemma unavailable_capability_is_planned:
  "plan demo_settings demo_model no_review demo_graph demo_start = Inr p \<Longrightarrow>
   \<exists>t \<in> set (p_add p). ts_skill t \<in> set (unavailable (gp_registry demo_settings) True False True) \<and>
     ts_skill t \<notin> cp_name ` set (offered demo_settings (unavailable (gp_registry demo_settings) True False True))"
proof -
  assume "plan demo_settings demo_model no_review demo_graph demo_start = Inr p"
  then have "p_add p = [demo_test_task]" using demo_plan by (auto simp: empty_patch_def)
  moreover have "ts_skill demo_test_task \<in> set (unavailable (gp_registry demo_settings) True False True)" by code_simp
  ultimately show ?thesis by (auto simp: offered_def)
qed

end
