(* ===== verification/A2a_Bridge.thy ===== *)
theory A2a_Bridge
  imports A2a_Claims A2a_Trust Graph_Promises
begin

text \<open>
  Around the task server: the client (\<open>core/a2a/client.py\<close>), the protobuf binding with its push configurations, its gate and its
  subscription, and the bridge that lets a graph node wait for a remote task (\<open>core/a2a/official.py\<close>). A message of the
  generated protobuf code is the record of the fields this code reads and writes; gRPC, HTTP and SQLite are their operations.
\<close>

section \<open>The client\<close>

definition client_params :: "string \<Rightarrow> string \<Rightarrow> string option \<Rightarrow> obj" where
  "client_params fresh txt push =
     [(''message'', JObj [(''kind'', JStr ''message''), (''messageId'', JStr fresh), (''role'', JStr ''user''),
         (''parts'', JList [JObj [(''kind'', JStr ''text''), (''text'', JStr txt)]])]),
      (''configuration'', JObj (case push of None \<Rightarrow> []
         | Some u \<Rightarrow> if u = [] then [] else [(''pushNotificationConfig'', JObj [(''url'', JStr u)])]))]"


text \<open>The answer: an HTTP status with a body. An error status raises before the body is looked at.\<close>

definition client_result :: "int \<Rightarrow> json \<Rightarrow> json result" where
  "client_result status body =
     (if status \<ge> 400 then Inl (HTTPException status)
      else bind_r (as_record body) (\<lambda>b.
        case dget b ''error'' of
          Some e \<Rightarrow> bind_r (as_record e) (\<lambda>d. case dget d ''message'' of None \<Rightarrow> Inl KeyError | Some m \<Rightarrow> Inl RuntimeError)
        | None \<Rightarrow> (case dget b ''result'' of None \<Rightarrow> Inl KeyError | Some r \<Rightarrow> Inr r)))"

record discovered_agent =
  da_card :: obj
  da_endpoint :: json

definition discover_agent ::
  "card_crypto \<Rightarrow> (json \<Rightarrow> string) \<Rightarrow> (obj \<Rightarrow> bool) \<Rightarrow> trust_policy \<Rightarrow> string list \<Rightarrow> int \<Rightarrow> json \<Rightarrow> discovered_agent result" where
  "discover_agent cc str_of valid tp versions status body =
     (if status \<ge> 400 then Inl (HTTPException status)
      else bind_r (as_record body) (\<lambda>agent.
        guard_r (verify_card cc str_of tp agent)
          (bind_r (negotiate_interface valid str_of [''JSONRPC''] versions agent) (\<lambda>interface.
             case dget interface ''url'' of None \<Rightarrow> Inl KeyError
             | Some u \<Rightarrow> Inr \<lparr>da_card = agent, da_endpoint = u\<rparr>))))"

section \<open>The protobuf binding\<close>

text \<open>\<open>_task\<close>; the time stamp is that of the translation and left out.\<close>

record proto_task =
  pt_id :: string
  pt_context :: string
  pt_state :: task_state
  pt_artifacts :: "(string \<times> string list) list"

definition proto_of :: "a2a_task \<Rightarrow> proto_task" where
  "proto_of t = \<lparr>pt_id = tk_id t, pt_context = tk_context t, pt_state = tk_state t,
     pt_artifacts = map (\<lambda>(i, s). (i, [s])) (tk_artifacts t)\<rparr>"









text \<open>
  \<open>SubscribeToTask\<close> over the states the task is in: when an update is sent, when the loop looks again after it was
  sent, when the next is sent, and so on; the updates sent, and whether the subscription has ended.
\<close>

fun updates_sent :: "a2a_task list \<Rightarrow> proto_task list" where
  "updates_sent [] = []"
| "updates_sent [t] = [proto_of t]"
| "updates_sent (t # u # ts) = proto_of t # (if terminal (tk_state u) then [] else updates_sent ts)"

fun subscription_ends :: "a2a_task list \<Rightarrow> bool" where
  "subscription_ends [] = False"
| "subscription_ends [t] = False"
| "subscription_ends (t # u # ts) = (terminal (tk_state u) \<or> subscription_ends ts)"

section \<open>Push configurations\<close>

record push_config =
  pc_task :: string
  pc_id :: string
  pc_url :: string
  pc_token :: string

definition put_push :: "push_config \<Rightarrow> push_config list \<Rightarrow> push_config list" where
  "put_push c rows = filter (\<lambda>r. pc_id r \<noteq> pc_id c) rows @ [c]"

definition get_push :: "string \<Rightarrow> push_config list \<Rightarrow> push_config option" where
  "get_push i rows = find (\<lambda>r. pc_id r = i) rows"

definition list_push :: "string \<Rightarrow> push_config list \<Rightarrow> push_config list" where
  "list_push task rows = filter (\<lambda>r. pc_task r = task) rows"

definition delete_push :: "string \<Rightarrow> string \<Rightarrow> push_config list \<Rightarrow> bool \<times> push_config list" where
  "delete_push task i rows =
     (list_ex (\<lambda>r. pc_task r = task \<and> pc_id r = i) rows, filter (\<lambda>r. \<not> (pc_task r = task \<and> pc_id r = i)) rows)"

section \<open>The bridge to the graph\<close>

text \<open>\<open>code\<close> is the number the generated code gives to a state.\<close>

record bridge =
  bg_remote :: "((string \<times> string) \<times> string) list"
  bg_results :: "((string \<times> string) \<times> proto_task option) list"

definition empty_bridge :: bridge where
  "empty_bridge = \<lparr>bg_remote = [], bg_results = []\<rparr>"

text \<open>\<open>dispatch_waiting\<close> before the remote task is started, when it has started, and when its subscription has ended.\<close>

definition dispatch_begin :: "(string \<Rightarrow> string) \<Rightarrow> graph_store \<Rightarrow> string \<Rightarrow> string \<Rightarrow> unit result" where
  "dispatch_begin path_of gs rid nid =
     bind_r (node_state_run path_of gs rid nid) (\<lambda>s. if s \<noteq> Waiting then Inl ValueError else Inr ())"

definition dispatch_started :: "string \<Rightarrow> string \<Rightarrow> string \<Rightarrow> bridge \<Rightarrow> bridge" where
  "dispatch_started rid nid remote br = br\<lparr>bg_remote := dput (rid, nid) remote (bg_remote br)\<rparr>"

definition ended_payload :: "(task_state \<Rightarrow> int) \<Rightarrow> proto_task \<Rightarrow> obj" where
  "ended_payload code t = [(''remote_task_id'', JStr (pt_id t)), (''state'', JInt (code (pt_state t)))]"

definition resume_patch :: "string \<Rightarrow> graph_patch" where
  "resume_patch nid = empty_patch\<lparr>p_resume := [nid], p_reason := ''official A2A subscription completed''\<rparr>"

definition resume_bridged ::
  "(task_state \<Rightarrow> int) \<Rightarrow> (edge list \<Rightarrow> bool) \<Rightarrow> (string \<Rightarrow> string) \<Rightarrow> string \<Rightarrow> string \<Rightarrow> proto_task \<Rightarrow> graph_store \<Rightarrow> graph_store result" where
  "resume_bridged code is_dag path_of rid nid t gs =
     bind_r (record_external_event path_of gs rid ''a2a_task_completed'' nid (ended_payload code t)) (\<lambda>(e, gs1).
     bind_r (node_state_run path_of gs1 rid nid) (\<lambda>s.
       if s = Waiting then bind_r (apply_patch is_dag path_of gs1 rid (resume_patch nid) (ev_sequence e)) (\<lambda>(applied, gs2). Inr gs2)
       else Inr gs1))"

text \<open>A subscription without an update leaves nothing to read an id from.\<close>

definition dispatch_ended ::
  "(task_state \<Rightarrow> int) \<Rightarrow> (edge list \<Rightarrow> bool) \<Rightarrow> (string \<Rightarrow> string) \<Rightarrow> string \<Rightarrow> string \<Rightarrow> proto_task list \<Rightarrow> bridge \<Rightarrow> graph_store \<Rightarrow> graph_store result \<times> bridge" where
  "dispatch_ended code is_dag path_of rid nid updates br gs =
     (let final = (if updates = [] then None else Some (last updates))
      in (case final of None \<Rightarrow> Inl AttributeError | Some t \<Rightarrow> resume_bridged code is_dag path_of rid nid t gs,
          br\<lparr>bg_results := dput (rid, nid) final (bg_results br)\<rparr>))"

text \<open>\<open>result_skill\<close>, the worker of a node that was resumed.\<close>

definition bridged_result :: "(task_state \<Rightarrow> int) \<Rightarrow> bridge \<Rightarrow> string \<Rightarrow> string \<Rightarrow> obj result" where
  "bridged_result code br rid nid =
     (case dget (bg_results br) (rid, nid) of None \<Rightarrow> Inl KeyError
      | Some None \<Rightarrow> Inl AttributeError
      | Some (Some t) \<Rightarrow> Inr (ended_payload code t @ [(''artifacts'', JList (map (JStr \<circ> fst) (pt_artifacts t)))]))"

definition cancel_target :: "bridge \<Rightarrow> string \<Rightarrow> string \<Rightarrow> string result" where
  "cancel_target br rid nid = (case dget (bg_remote br) (rid, nid) of None \<Rightarrow> Inl KeyError | Some i \<Rightarrow> Inr i)"

definition cancel_bridged ::
  "(task_state \<Rightarrow> int) \<Rightarrow> (string \<Rightarrow> string) \<Rightarrow> bridge \<Rightarrow> string \<Rightarrow> string \<Rightarrow> proto_task \<Rightarrow> graph_store \<Rightarrow> graph_store result" where
  "cancel_bridged code path_of br rid nid answered gs =
     bind_r (cancel_target br rid nid) (\<lambda>i.
     bind_r (record_external_event path_of gs rid ''a2a_task_cancelled'' nid
         [(''remote_task_id'', JStr i), (''state'', JInt (code (pt_state answered)))]) (\<lambda>(e, gs1). Inr gs1))"

section \<open>What the bindings promise\<close>

text \<open>
  What client, protobuf binding and bridge promise: the two bindings drive one task server through one gate, a client's message and
  answer arrive as they were sent, and the bridge resumes the node that waits and no other.
\<close>

section \<open>One server behind two bindings\<close>












section \<open>The client's message and answer\<close>

text \<open>The text a client sends is the text the server works on, and it draws no context of its own.\<close>

lemma client_message_arrives:
  "new_task str_of fresh now (JObj (client_params k txt push)) = Inr t \<Longrightarrow>
   tk_text t = txt \<and> tk_id t = fst fresh \<and> tk_context t = snd fresh \<and> tk_state t = Submitted \<and>
   tk_url t = (case push of None \<Rightarrow> JNull | Some u \<Rightarrow> if u = [] then JNull else JStr u)"
  by (auto simp: new_task_def client_params_def as_record_def dget_or_def jget_def bind_r_Inr each_of_def map_r_def part_text_def
      push_token_def or_else_def printed_def split: option.splits if_splits)

lemma client_reads_the_answer:
  "client_result 200 (JObj [(''jsonrpc'', JStr ''2.0''), (''id'', k), (''result'', JObj w)]) = Inr (JObj w)"
  by (simp add: client_result_def as_record_def)

text \<open>The server sends its errors with an error status, so the message of the error never reaches the caller.\<close>

lemma client_loses_the_message:
  "status \<ge> 400 \<Longrightarrow> client_result status (JObj [(''error'', JObj [(''message'', m)])]) = Inl (HTTPException status)"
  by (simp add: client_result_def)

section \<open>The bridge\<close>

lemma recorded_event:
  assumes "load_run path gs rid = Inr c" and "record_external_event path gs rid kind nid payload = Inr (e, gs')"
  shows "load_run path gs' rid = Inr (log_event kind (Some nid) payload c\<lparr>c_version := c_version c + 1\<rparr>)" and
    "e = fst (add_event kind (Some nid) payload c)"
proof -
  have e: "e = fst (add_event kind (Some nid) payload c)" "gs' = save_run path (log_event kind (Some nid) payload c) gs"
    using assms by (auto simp: record_external_event_def split: prod.splits)
  have "ck_step dag_check c (log_event kind (Some nid) payload c)" by (rule ck_external)
  then have "same_run c (log_event kind (Some nid) payload c)" by (rule ck_step_same_run) (rule peeling.dag_checker_axioms)
  from load_after_save(1) [OF assms(1) this] e(2)
  show "load_run path gs' rid = Inr (log_event kind (Some nid) payload c\<lparr>c_version := c_version c + 1\<rparr>)"
    by (simp add: add_event_def Let_def)
  show "e = fst (add_event kind (Some nid) payload c)" by (rule e(1))
qed

lemma state_of_frame [simp]: "state_of (c\<lparr>c_events := es\<rparr>) k = state_of c k" "state_of (c\<lparr>c_version := v\<rparr>) k = state_of c k"
  by (simp_all add: state_of_def)

lemma resume_patch_moves: "patch_moves (resume_patch nid) d = set_state nid Pending d"
  by (simp add: patch_moves_def resume_patch_def empty_patch_def Let_def)

lemma resume_grow [simp]: "state_of (grow (resume_patch nid) d) k = state_of d k" "c_events (grow (resume_patch nid) d) = c_events d"
  by (auto simp: state_of_grow grow_def resume_patch_def empty_patch_def split: option.split)

text \<open>The bridge resumes what waits and nothing else. When a subscription has ended, the journal has one more record of its last
  update; the node is pending again if it was waiting still, and keeps its state if a cancellation or a callback came
  first; every other node keeps its state; and the node's worker will get that update as its result.\<close>

lemma bridge_resumes_its_node:
  assumes "dag_checker is_dag" and "load_run path gs rid = Inr c" and "dget (c_applied c) (length (c_events c) + 1) = None"
    and "dispatch_ended code is_dag path rid nid updates br gs = (Inr gs', br')"
  shows "\<exists>c' more. load_run path gs' rid = Inr c' \<and> updates \<noteq> [] \<and>
    (\<forall>k. state_of c' k = (if k = nid \<and> state_of c nid = Some Waiting then Some Pending else state_of c k)) \<and>
    c_events c' = c_events c @ [\<lparr>ev_sequence = length (c_events c) + 1, ev_kind = ''a2a_task_completed'', ev_node = Some nid,
      ev_payload = ended_payload code (last updates)\<rparr>] @ more \<and> map ev_kind more \<in> {[], [''graph_patched'']} \<and>
    bridged_result code br' rid nid =
      Inr (ended_payload code (last updates) @ [(''artifacts'', JList (map (JStr \<circ> fst) (pt_artifacts (last updates))))])"
proof -
  let ?t = "last updates"
  have ne: "updates \<noteq> []" and res: "resume_bridged code is_dag path rid nid ?t gs = Inr gs'"
    and br': "br' = br\<lparr>bg_results := dput (rid, nid) (Some ?t) (bg_results br)\<rparr>"
    using assms(4) by (auto simp: dispatch_ended_def Let_def split: if_splits)
  let ?c1 = "log_event ''a2a_task_completed'' (Some nid) (ended_payload code ?t) c\<lparr>c_version := c_version c + 1\<rparr>"
  from res obtain e gs1 s where e: "record_external_event path gs rid ''a2a_task_completed'' nid (ended_payload code ?t) = Inr (e, gs1)"
    "node_state_run path gs1 rid nid = Inr s"
    "if s = Waiting then bind_r (apply_patch is_dag path gs1 rid (resume_patch nid) (ev_sequence e)) (\<lambda>(applied, gs2). Inr gs2) = Inr gs'
     else gs' = gs1"
    by (auto simp: resume_bridged_def bind_r_Inr split: if_splits)
  note c1 = recorded_event [OF assms(2) e(1)]
  have states: "state_of ?c1 k = state_of c k" for k by (simp add: add_event_def Let_def)
  have s: "state_of c nid = Some s" using e(2) c1(1) states by (auto simp: node_state_run_def split: option.splits)
  have events: "c_events ?c1 = c_events c @ [\<lparr>ev_sequence = length (c_events c) + 1, ev_kind = ''a2a_task_completed'', ev_node = Some nid,
      ev_payload = ended_payload code ?t\<rparr>]" by (simp add: add_event_def Let_def)
  have out: "bridged_result code br' rid nid = Inr (ended_payload code ?t @ [(''artifacts'', JList (map (JStr \<circ> fst) (pt_artifacts ?t)))])"
    by (simp add: bridged_result_def br')
  show ?thesis
  proof (cases "s = Waiting")
    case False
    then show ?thesis using e(3) c1(1) s states events out ne by (intro exI [of _ ?c1] exI [of _ "[]"]) auto
  next
    case True
    then obtain applied where ap: "apply_patch is_dag path gs1 rid (resume_patch nid) (ev_sequence e) = Inr (applied, gs')"
      using e(3) by (auto simp: bind_r_Inr)
    then obtain c2 where c2: "apply_patch_ck is_dag (resume_patch nid) (ev_sequence e) ?c1 = Inr (applied, c2)"
      "gs' = (if applied then save_run path c2 gs1 else gs1)"
      using c1(1) by (auto simp: apply_patch_def bind_r_Inr)
    have "dget (c_applied ?c1) (ev_sequence e) = None" using assms(3) c1(2) by (simp add: add_event_def Let_def)
    with c2(1) have applied: applied using dag_checker.apply_patch_False [OF assms(1)] by (cases applied) auto
    then have eq: "c2 = record_patch (resume_patch nid) (ev_sequence e) (set_state nid Pending (grow (resume_patch nid) ?c1))"
      using c2(1) dag_checker.apply_patch_True [OF assms(1)] by (simp add: resume_patch_moves)
    have l: "load_run path gs' rid = Inr (c2\<lparr>c_version := c_version c2 + 1\<rparr>)"
      using load_after_save(1) [OF c1(1) ck_step_same_run [OF ck_patch assms(1)]] c2 applied by simp
    have "state_of (c2\<lparr>c_version := c_version c2 + 1\<rparr>) k = (if k = nid then Some Pending else state_of c k)" for k
      using s states by (simp add: eq)
    moreover have "\<exists>p. c_events (c2\<lparr>c_version := c_version c2 + 1\<rparr>) = c_events ?c1 @ [p] \<and> ev_kind p = ''graph_patched''"
      by (simp add: eq record_patch_def add_event_def Let_def)
    ultimately show ?thesis using l s True events out ne by (intro exI [of _ "c2\<lparr>c_version := c_version c2 + 1\<rparr>"]) auto
  qed
qed

definition bridged_node :: gnode where
  "bridged_node = \<lparr>n_skill = ''a2a_result'', n_input = [], n_metadata = [], n_state = Waiting, n_result = None, n_wait = Some []\<rparr>"

definition bridged_store :: graph_store where
  "bridged_store = \<lparr>gs_disk = [(''r'', (new_checkpoint ''r'' [])\<lparr>c_nodes := [(''far'', bridged_node)]\<rparr>)], gs_index = []\<rparr>"

definition summed_up :: proto_task where
  "summed_up = \<lparr>pt_id = ''t'', pt_context = ''c'', pt_state = Completed, pt_artifacts = [(''result-t'', [''done''])]\<rparr>"

lemma bridged_loads: "case load_run id bridged_store ''r'' of Inl e \<Rightarrow> False
    | Inr c \<Rightarrow> dget (c_applied c) (length (c_events c) + 1) = None \<and> state_of c ''far'' = Some Waiting"
  by code_simp

lemma bridged_dispatch:
  "case fst (dispatch_ended (\<lambda>s. 3) dag_check id ''r'' ''far'' [summed_up] empty_bridge bridged_store) of Inl e \<Rightarrow> False | Inr gs \<Rightarrow> True"
  by code_simp

lemma bridge_resumes_its_node_witness:
  "\<exists>gs br. dispatch_ended (\<lambda>s. 3) dag_check id ''r'' ''far'' [summed_up] empty_bridge bridged_store = (Inr gs, br) \<and>
     node_state_run id gs ''r'' ''far'' = Inr Pending \<and>
     bridged_result (\<lambda>s. 3) br ''r'' ''far'' =
       Inr [(''remote_task_id'', JStr ''t''), (''state'', JInt 3), (''artifacts'', JList [JStr ''result-t''])]"
proof -
  obtain c where c: "load_run id bridged_store ''r'' = Inr c" "dget (c_applied c) (length (c_events c) + 1) = None"
    "state_of c ''far'' = Some Waiting"
    using bridged_loads by (auto split: sum.splits)
  obtain gs br where d: "dispatch_ended (\<lambda>s. 3) dag_check id ''r'' ''far'' [summed_up] empty_bridge bridged_store = (Inr gs, br)"
    using bridged_dispatch by (metis (no_types, lifting) prod.collapse sum.case_eq_if sum.collapse(2))
  from bridge_resumes_its_node [OF peeling.dag_checker_axioms c(1,2) d] c(3) d show ?thesis
    by (auto simp: node_state_run_def ended_payload_def summed_up_def)
qed

section \<open>Where they fall short\<close>

text \<open>A subscription ends only when the task has.\<close>

lemma subscription_ends_terminal: "subscription_ends ts \<Longrightarrow> \<exists>t \<in> set ts. terminal (tk_state t)"
  by (induction ts rule: subscription_ends.induct) auto

text \<open>
  But the update is sent before the loop looks again: a task that completes while its last update is on its way ends the
  subscription with an update that says it is working, and the node gets that as its result, without the artifacts.
\<close>

definition working_task :: a2a_task where
  "working_task = \<lparr>tk_id = ''t'', tk_context = ''c'', tk_text = ''sum up'', tk_state = Working, tk_artifacts = [], tk_url = JNull,
     tk_token = JNull, tk_updated = ''now''\<rparr>"

lemma subscription_misses_the_end:
  "let ts = [working_task, settled_as (Inr ''done'') ''later'' working_task]
   in subscription_ends ts \<and> updates_sent ts = [proto_of working_task] \<and> pt_state (last (updates_sent ts)) = Working \<and>
      pt_artifacts (last (updates_sent ts)) = []"
  by code_simp

text \<open>What the bridge knows is in memory: after a restart a dispatched node has no remote task to cancel and no result to give.\<close>

lemma restarted_bridge_forgets:
  "cancel_target empty_bridge rid nid = Inl KeyError \<and> bridged_result code empty_bridge rid nid = Inl KeyError"
  by (simp add: cancel_target_def bridged_result_def empty_bridge_def)

text \<open>Push configurations are told apart by their own id: two tasks that use the same one have one row, the later's.\<close>

lemma push_of_another_task_is_replaced:
  "pc_id a = pc_id b \<Longrightarrow> pc_task a \<noteq> pc_task b \<Longrightarrow> list_push (pc_task a) (put_push b (put_push a [])) = []"
  by (simp add: put_push_def list_push_def)

lemma push_is_kept: "get_push (pc_id c) (put_push c rows) = Some c"
  by (induction rows) (auto simp: put_push_def get_push_def)

lemma deleted_push_is_gone: "pc_id c = i \<Longrightarrow> pc_task c = task \<Longrightarrow> c \<notin> set (snd (delete_push task i rows))"
  by (simp add: delete_push_def)

end
