(* ===== verification/Dates.thy ===== *)
theory Dates
  imports Capability
begin

text \<open>
  Dates as the tools use them (\<open>date_shift\<close> of \<open>tools.py\<close>, the dates of \<open>create_calendar_events\<close>): reading an ISO date, the
  proleptic Gregorian calendar of \<open>datetime.date\<close> as day numbers, and what is printed. A date is its year, month and day.
\<close>

type_synonym day = "nat \<times> nat \<times> nat"

section \<open>Day numbers\<close>

definition days_in_year :: "nat \<Rightarrow> nat" where
  "days_in_year y = (if leap_year y then 366 else 365)"

definition days_before_year :: "nat \<Rightarrow> nat" where
  "days_before_year y = (let p = y - 1 in 365 * p + p div 4 - p div 100 + p div 400)"

definition days_before_month :: "nat \<Rightarrow> nat \<Rightarrow> nat" where
  "days_before_month y m = sum_list (map (days_in_month y) [1..<m])"

definition ordinal :: "day \<Rightarrow> nat" where
  "ordinal d = (case d of (y, m, k) \<Rightarrow> days_before_year y + days_before_month y m + k)"

text \<open>The date of a day number: years and months are counted off.\<close>

function year_from :: "nat \<Rightarrow> nat \<Rightarrow> nat \<times> nat" where
  "year_from y n = (if n \<le> days_in_year y then (y, n) else year_from (y + 1) (n - days_in_year y))"
  by pat_completeness auto
termination by (relation "measure snd") (auto simp: days_in_year_def split: if_splits)

function month_from :: "nat \<Rightarrow> nat \<Rightarrow> nat \<Rightarrow> nat \<times> nat" where
  "month_from y m n = (if n \<le> days_in_month y m \<or> m \<ge> 12 then (m, n) else month_from y (m + 1) (n - days_in_month y m))"
  by pat_completeness auto
termination by (relation "measure (\<lambda>(y, m, n). 12 - m)") auto

declare year_from.simps [simp del] month_from.simps [simp del]

definition date_of :: "nat \<Rightarrow> day" where
  "date_of n = (let (y, k) = year_from 1 n; (m, d) = month_from y 1 k in (y, m, d))"

text \<open>31 December 9999 is the last date there is.\<close>

definition last_day :: int where
  "last_day = 3652059"

definition date_plus :: "day \<Rightarrow> int \<Rightarrow> day result" where
  "date_plus d k =
     (if \<bar>k\<bar> > 999999999 then Inl OverflowError
      else let n = int (ordinal d) + k in if n < 1 \<or> n > last_day then Inl OverflowError else Inr (date_of (nat n)))"

section \<open>Texts\<close>

text \<open>A number with leading zeros.\<close>

definition padded :: "nat \<Rightarrow> nat \<Rightarrow> string" where
  "padded k n = map (\<lambda>i. char_of (48 + n div 10 ^ i mod 10)) (rev [0..<k])"

definition iso_text :: "day \<Rightarrow> string" where
  "iso_text d = (case d of (y, m, k) \<Rightarrow> padded 4 y @ ''-'' @ padded 2 m @ ''-'' @ padded 2 k)"

definition week_date :: "nat \<Rightarrow> nat \<Rightarrow> nat \<Rightarrow> day" where
  "week_date y w d =
     (let first = ordinal (y, 1, 1); monday = first - first_weekday y + (if first_weekday y > 3 then 7 else 0)
      in date_of (monday + (w - 1) * 7 + d - 1))"

text \<open>\<open>date.fromisoformat\<close> with its value.\<close>

definition parse_date :: "string \<Rightarrow> day option" where
  "parse_date s =
     (let num = (\<lambda>i j. case num_at i j s of None \<Rightarrow> 0 | Some n \<Rightarrow> n); wk = (\<lambda>i. slice i (i + 1) s = ''W'') in
      if \<not> iso_date s then None
      else if length s = 10 then Some (if wk 5 then week_date (num 0 4) (num 6 8) (num 9 10) else (num 0 4, num 5 7, num 8 10))
      else if length s = 8 then
        Some (if slice 4 5 s = ''-'' then week_date (num 0 4) (num 6 8) 1 else if wk 4 then week_date (num 0 4) (num 5 7) (num 7 8)
              else (num 0 4, num 4 6, num 6 8))
      else Some (week_date (num 0 4) (num 5 7) 1))"

definition weekday_names :: "string list" where
  "weekday_names = [''Monday'', ''Tuesday'', ''Wednesday'', ''Thursday'', ''Friday'', ''Saturday'', ''Sunday'']"

definition weekday_of :: "day \<Rightarrow> string" where
  "weekday_of d = weekday_names ! ((ordinal d + 6) mod 7)"

definition date_shift :: "string \<Rightarrow> int \<Rightarrow> obj result" where
  "date_shift v days =
     (case parse_date v of None \<Rightarrow> Inl ValueError
      | Some d \<Rightarrow> bind_r (date_plus d days) (\<lambda>s.
          Inr [(''date'', JStr v), (''days'', JInt days), (''result'', JStr (iso_text s)), (''weekday'', JStr (weekday_of s))]))"

section \<open>Counting days\<close>

lemma days_before_Suc: "1 \<le> y \<Longrightarrow> days_before_year (Suc y) = days_before_year y + days_in_year y"
proof -
  assume "1 \<le> y"
  then obtain p where y: "y = Suc p" by (cases y) auto
  have q: "p div 100 \<le> 365 * p + p div 4" by (rule order_trans [of _ p]) simp_all
  have c: "Suc p mod 100 = 0 \<longrightarrow> Suc p mod 4 = 0" "Suc p mod 400 = 0 \<longrightarrow> Suc p mod 100 = 0" by presburger+
  show ?thesis using q c unfolding y days_before_year_def days_in_year_def leap_year_def Let_def
    by (simp add: div_Suc ac_simps)
qed

lemma month_before_Suc: "1 \<le> m \<Longrightarrow> days_before_month y (Suc m) = days_before_month y m + days_in_month y m"
  by (simp add: days_before_month_def)

lemma days_in_month_pos [simp]: "0 < days_in_month y m"
  by (simp add: days_in_month_def)

lemma whole_year: "days_before_month y 13 = days_in_year y"
  by (simp add: days_before_month_def days_in_year_def days_in_month_def upt_rec)

fun year_days :: "nat \<Rightarrow> nat \<Rightarrow> nat" where
  "year_days y 0 = 0"
| "year_days y (Suc k) = days_in_year y + year_days (Suc y) k"

lemma year_days_before: "1 \<le> y \<Longrightarrow> days_before_year y + year_days y k = days_before_year (y + k)"
proof (induction k arbitrary: y)
  case (Suc k)
  show ?case using Suc.IH [of "Suc y"] Suc.prems by (simp add: days_before_Suc)
qed simp

lemma year_from_sum: "1 \<le> n \<Longrightarrow> n \<le> days_in_year (y + k) \<Longrightarrow> year_from y (year_days y k + n) = (y + k, n)"
proof (induction k arbitrary: y)
  case 0
  then show ?case by (simp add: year_from.simps [of y n])
next
  case (Suc k)
  then have "\<not> year_days y (Suc k) + n \<le> days_in_year y" by simp
  moreover have "year_days y (Suc k) + n - days_in_year y = year_days (Suc y) k + n" by simp
  ultimately show ?case using Suc.IH [of "Suc y"] Suc.prems by (simp add: year_from.simps [of y])
qed

lemma year_from_bounds:
  "1 \<le> y \<Longrightarrow> 1 \<le> n \<Longrightarrow> year_from y n = (y', k) \<Longrightarrow>
   y \<le> y' \<and> 1 \<le> k \<and> k \<le> days_in_year y' \<and> days_before_year y' + k = days_before_year y + n"
proof (induction y n arbitrary: y' k rule: year_from.induct)
  case (1 y n)
  show ?case
  proof (cases "n \<le> days_in_year y")
    case True
    with 1 show ?thesis by (simp add: year_from.simps [of y n])
  next
    case False
    with 1(4) have "year_from (y + 1) (n - days_in_year y) = (y', k)" by (simp add: year_from.simps [of y n])
    moreover have "1 \<le> n - days_in_year y" using False by simp
    ultimately show ?thesis using 1(1) [OF False, of y' k] False 1(2) by (simp add: days_before_Suc)
  qed
qed

lemma month_before_mono: "m \<le> m' \<Longrightarrow> days_before_month y m \<le> days_before_month y m'"
proof -
  have "days_before_month y n \<le> days_before_month y (Suc n)" for n by (cases n) (simp_all add: days_before_month_def)
  then show "m \<le> m' \<Longrightarrow> days_before_month y m \<le> days_before_month y m'" by (rule lift_Suc_mono_le)
qed

lemma month_from_sum:
  "1 \<le> m \<Longrightarrow> m \<le> m' \<Longrightarrow> m' \<le> 12 \<Longrightarrow> 1 \<le> d \<Longrightarrow> d \<le> days_in_month y m' \<Longrightarrow>
   month_from y m (days_before_month y m' - days_before_month y m + d) = (m', d)"
proof (induction "m' - m" arbitrary: m)
  case 0
  then show ?case by (simp add: month_from.simps [of y m])
next
  case (Suc j)
  then have m: "m < m'" by simp
  have le: "days_before_month y (Suc m) \<le> days_before_month y m'" by (rule month_before_mono) (use m in simp)
  have step: "days_before_month y m' - days_before_month y m + d - days_in_month y m = days_before_month y m' - days_before_month y (Suc m) + d"
    "\<not> days_before_month y m' - days_before_month y m + d \<le> days_in_month y m"
    using le Suc.prems(1,4) by (simp_all add: month_before_Suc)
  from Suc.hyps(1) [of "Suc m"] Suc.hyps(2) Suc.prems m step show ?case by (simp add: month_from.simps [of y m])
qed

lemma month_from_bounds:
  "1 \<le> m \<Longrightarrow> m \<le> 12 \<Longrightarrow> 1 \<le> n \<Longrightarrow> days_before_month y m + n \<le> days_in_year y \<Longrightarrow> month_from y m n = (m', d) \<Longrightarrow>
   1 \<le> m' \<and> m' \<le> 12 \<and> 1 \<le> d \<and> d \<le> days_in_month y m' \<and> days_before_month y m' + d = days_before_month y m + n"
proof (induction y m n arbitrary: m' d rule: month_from.induct)
  case (1 y m n)
  show ?case
  proof (cases "n \<le> days_in_month y m \<or> m \<ge> 12")
    case True
    have "m = 12 \<Longrightarrow> n \<le> days_in_month y m"
      using 1(5) whole_year [of y] month_before_Suc [of 12 y] by simp
    with True 1 show ?thesis by (auto simp: month_from.simps [of y m n])
  next
    case False
    with 1(6) have "month_from y (m + 1) (n - days_in_month y m) = (m', d)" by (simp add: month_from.simps [of y m n])
    moreover have "1 \<le> n - days_in_month y m" using False by linarith
    ultimately show ?thesis using 1(1) [OF False, of m' d] False 1(2,3,5) by (simp add: month_before_Suc)
  qed
qed

definition is_date :: "day \<Rightarrow> bool" where
  "is_date d = (case d of (y, m, k) \<Rightarrow> date_ok y m k)"

lemma before_year_1 [simp]: "days_before_year 1 = 0" "days_before_year (Suc 0) = 0"
  by (simp_all add: days_before_year_def)

lemma before_month_1 [simp]: "days_before_month y 1 = 0" "days_before_month y (Suc 0) = 0"
  by (simp_all add: days_before_month_def)

text \<open>Every day number has a date, and every date is the date of its number.\<close>

lemma ordinal_date_of:
  assumes "1 \<le> n"
  shows "ordinal (date_of n) = n" and "is_date (date_of n)"
proof -
  obtain y k where y: "year_from 1 n = (y, k)" by fastforce
  obtain m d where m: "month_from y 1 k = (m, d)" by fastforce
  have yb: "1 \<le> y \<and> 1 \<le> k \<and> k \<le> days_in_year y \<and> days_before_year y + k = n"
    using year_from_bounds [OF _ assms y] by simp
  moreover have "1 \<le> m \<and> m \<le> 12 \<and> 1 \<le> d \<and> d \<le> days_in_month y m \<and> days_before_month y m + d = k"
    using month_from_bounds [OF _ _ _ _ m] yb by simp
  ultimately show "ordinal (date_of n) = n" "is_date (date_of n)"
    by (simp_all add: date_of_def y [simplified] m [simplified] ordinal_def is_date_def date_ok_def)
qed

lemma date_of_ordinal:
  assumes "is_date d" shows "date_of (ordinal d) = d" and "1 \<le> ordinal d"
proof -
  obtain y m k where d: "d = (y, m, k)" "1 \<le> y" "1 \<le> m" "m \<le> 12" "1 \<le> k" "k \<le> days_in_month y m"
    using assms by (cases d) (auto simp: is_date_def date_ok_def)
  have "days_before_month y (Suc m) \<le> days_before_month y 13" by (rule month_before_mono) (use d(4) in simp)
  then have in_year: "days_before_month y m + k \<le> days_in_year y" using d whole_year [of y] by (simp add: month_before_Suc)
  have "year_from 1 (year_days 1 (y - 1) + (days_before_month y m + k)) = (1 + (y - 1), days_before_month y m + k)"
    by (rule year_from_sum) (use d in_year in simp_all)
  moreover have "year_days 1 (y - 1) = days_before_year y" using year_days_before [of 1 "y - 1"] d(2) by simp
  moreover have "month_from y 1 (days_before_month y m - days_before_month y 1 + k) = (m, k)"
    by (rule month_from_sum) (use d in simp_all)
  ultimately show "date_of (ordinal d) = d" using d(1,2) by (simp add: date_of_def ordinal_def ac_simps)
  show "1 \<le> ordinal d" using d by (simp add: ordinal_def)
qed

section \<open>Texts and dates\<close>

lemma digit_char [simp]: "k < 10 \<Longrightarrow> is_digit (char_of (48 + k))" "k < 10 \<Longrightarrow> digit_value (char_of (48 + k)) = k"
  by (simp_all add: is_digit_def digit_value_def)

lemma padded_length [simp]: "length (padded k n) = k"
  by (simp add: padded_def)

lemma padded_digits: "list_all is_digit (padded k n)"
  by (simp add: padded_def list_all_iff)

lemma padded_value: "n < 10 ^ k \<Longrightarrow> nat_of_digits (padded k n) = n"
proof -
  have "fold (\<lambda>c a. 10 * a + digit_value c) (padded k n) a = a * 10 ^ k + n mod 10 ^ k" for a
  proof (induction k arbitrary: a)
    case (Suc k)
    have "padded (Suc k) n = char_of (48 + n div 10 ^ k mod 10) # padded k n" by (simp add: padded_def)
    moreover have "n mod 10 ^ Suc k = (n div 10 ^ k mod 10) * 10 ^ k + n mod 10 ^ k"
      using mod_mult2_eq [of n "10 ^ k" 10] by (simp add: ac_simps)
    ultimately show ?case using Suc.IH by (simp add: algebra_simps)
  qed (simp add: padded_def)
  then show "n < 10 ^ k \<Longrightarrow> nat_of_digits (padded k n) = n" by (simp add: nat_of_digits_def)
qed

lemma parse_iso_text:
  assumes "is_date d" and "fst d \<le> 9999"
  shows "parse_date (iso_text d) = Some d"
proof -
  obtain y m k where d: "d = (y, m, k)" "date_ok y m k" "y < 10 ^ 4" using assms by (cases d) (auto simp: is_date_def)
  have mk: "m < 10 ^ 2" "k < 10 ^ 2" using d(2) by (auto simp: date_ok_def days_in_month_def split: if_splits)
  define s where "s = padded 4 y @ ''-'' @ padded 2 m @ ''-'' @ padded 2 k"
  have parts: "slice 0 4 s = padded 4 y" "slice 5 7 s = padded 2 m" "slice 8 10 s = padded 2 k" "slice 4 5 s = ''-''" "slice 7 8 s = ''-''"
    by (simp_all add: slice_def s_def)
  have w: "slice 5 6 s \<noteq> ''W''"
  proof -
    have "slice 5 6 s = take 1 (padded 2 m)" by (simp add: slice_def s_def)
    moreover have "take 1 (padded 2 m) = [char_of (48 + m div 10 mod 10)]" by (simp add: padded_def numeral_2_eq_2)
    moreover have "char_of (48 + m div 10 mod 10) \<noteq> CHR ''W''"
    proof
      assume "char_of (48 + m div 10 mod 10) = CHR ''W''"
      with digit_char(1) [of "m div 10 mod 10"] have "is_digit (CHR ''W'')" by simp
      then show False by (simp add: is_digit_def)
    qed
    ultimately show ?thesis by simp
  qed
  have n: "num_at 0 4 s = Some y" "num_at 5 7 s = Some m" "num_at 8 10 s = Some k"
    using d(3) mk by (simp_all add: num_at_def parts padded_digits padded_value del: power_numeral)
  then show ?thesis using d(1,2) parts w by (simp add: parse_date_def iso_date_def iso_text_def three_def Let_def flip: s_def) (simp add: s_def)
qed

section \<open>The last year\<close>

lemma before_year_mono: "1 \<le> y \<Longrightarrow> y \<le> z \<Longrightarrow> days_before_year y \<le> days_before_year z"
  using year_days_before [of y "z - y"] by (metis le_add1 le_add_diff_inverse)

lemma year_9999 [simp]: "days_before_year 9999 = 3651694" "days_before_year 10000 = 3652059" "first_weekday 9999 = 4"
  by (simp_all add: days_before_year_def first_weekday_def)

lemma ordinal_last_day:
  assumes "is_date d" shows "int (ordinal d) \<le> last_day \<longleftrightarrow> fst d \<le> 9999"
proof -
  obtain y m k where d: "d = (y, m, k)" "1 \<le> y" "m \<le> 12" "1 \<le> m" "1 \<le> k" "k \<le> days_in_month y m"
    using assms by (cases d) (auto simp: is_date_def date_ok_def)
  have "days_before_month y (Suc m) \<le> days_before_month y 13" by (rule month_before_mono) (use d(3) in simp)
  then have "days_before_month y m + k \<le> days_in_year y" using d whole_year [of y] by (simp add: month_before_Suc)
  then have above: "ordinal d \<le> days_before_year (Suc y)" using d by (simp add: ordinal_def days_before_Suc)
  show ?thesis
  proof (cases "y \<le> 9999")
    case True
    then have "days_before_year (Suc y) \<le> days_before_year 10000" by (intro before_year_mono) simp_all
    with above True d(1) show ?thesis by (simp add: last_day_def)
  next
    case False
    then have "days_before_year 10000 \<le> days_before_year y" by (intro before_year_mono) simp_all
    then have "ordinal d > 3652059" using d by (simp add: ordinal_def)
    with False d(1) show ?thesis by (simp add: last_day_def)
  qed
qed

lemma week_date_ok:
  assumes "week_ok y w d" and "y \<le> 9999"
  shows "is_date (week_date y w d)" and "fst (week_date y w d) \<le> 9999"
proof -
  define f where "f = first_weekday y"
  let ?n = "ordinal (y, 1, 1) - f + (if f > 3 then 7 else 0) + (w - 1) * 7 + d - 1"
  have y: "1 \<le> y" "1 \<le> d" "d \<le> 7" "1 \<le> w" "w \<le> 53" using assms(1) by (auto simp: week_ok_def)
  have first: "ordinal (y, 1, 1) = days_before_year y + 1" by (simp add: ordinal_def)
  have f: "f \<le> 6" "y = 1 \<Longrightarrow> f = 0" using pos_mod_bound [of 7] by (auto simp: f_def first_weekday_def Let_def less_Suc_eq_le [symmetric])
  have "y \<noteq> 1 \<Longrightarrow> days_before_year 2 \<le> days_before_year y" using y(1) by (intro before_year_mono) auto
  then have low: "f \<le> days_before_year y" using f by (cases "y = 1") (auto simp: days_before_year_def [of 2])
  then have n1: "1 \<le> ?n" using first y by auto
  have date: "week_date y w d = date_of ?n" by (simp add: week_date_def Let_def f_def)
  show ok: "is_date (week_date y w d)" unfolding date by (rule ordinal_date_of(2) [OF n1])
  have "?n \<le> 3652059"
  proof (cases "y = 9999")
    case True
    then have "f = 4" by (simp add: f_def)
    moreover have "w \<le> 52" "w = 52 \<Longrightarrow> d \<le> 5" using assms(1) True by (auto simp: week_ok_def)
    ultimately show ?thesis using first True y by (cases "w = 52") auto
  next
    case False
    then have "days_before_year (Suc y) \<le> days_before_year 9999" using assms(2) y(1) by (intro before_year_mono) auto
    then have "days_before_year y + 365 \<le> 3651694" using y(1) by (simp add: days_before_Suc days_in_year_def split: if_splits)
    then show ?thesis using first y by auto
  qed
  then have "int (ordinal (week_date y w d)) \<le> last_day" unfolding date ordinal_date_of(1) [OF n1] last_day_def by simp
  then show "fst (week_date y w d) \<le> 9999" using ordinal_last_day [OF ok] by simp
qed

lemma nat_of_digits_bound: "list_all is_digit s \<Longrightarrow> nat_of_digits s < 10 ^ length s"
proof -
  have "list_all is_digit s \<Longrightarrow> fold (\<lambda>c n. 10 * n + digit_value c) s a < (a + 1) * 10 ^ length s" for a
  proof (induction s arbitrary: a)
    case (Cons c s)
    then have "digit_value c \<le> 9" by (auto simp: is_digit_def digit_value_def Let_def)
    then have "10 * a + digit_value c + 1 \<le> 10 * (a + 1)" by simp
    then have "(10 * a + digit_value c + 1) * 10 ^ length s \<le> (10 * (a + 1)) * 10 ^ length s" by (rule mult_right_mono) simp
    moreover have "fold (\<lambda>c n. 10 * n + digit_value c) s (10 * a + digit_value c) < (10 * a + digit_value c + 1) * 10 ^ length s"
      using Cons by simp
    ultimately have "fold (\<lambda>c n. 10 * n + digit_value c) s (10 * a + digit_value c) < (10 * (a + 1)) * 10 ^ length s" by (rule order.strict_trans2 [rotated])
    then show ?case by (simp add: algebra_simps)
  qed simp
  from this [of 0] show "list_all is_digit s \<Longrightarrow> nat_of_digits s < 10 ^ length s" by (simp add: nat_of_digits_def)
qed

lemma num_at_bound: "num_at 0 4 s = Some y \<Longrightarrow> y \<le> 9999"
  using nat_of_digits_bound [of "slice 0 4 s"] by (auto simp: num_at_def split: if_splits)

lemma three_True: "three p a b c \<longleftrightarrow> (\<exists>x y z. a = Some x \<and> b = Some y \<and> c = Some z \<and> p x y z)"
  by (auto simp: three_def split: option.splits)

lemma week_read:
  assumes "num_at 0 4 s = Some y" and "week_ok y w d"
  shows "is_date (week_date y w d)" and "fst (week_date y w d) \<le> 9999"
  using week_date_ok [OF assms(2) num_at_bound [OF assms(1)]] by simp_all

text \<open>What is read is a date, and not past the last one.\<close>

lemma parse_date_ok: "parse_date s = Some d \<Longrightarrow> is_date d \<and> fst d \<le> 9999"
  by (auto simp: parse_date_def iso_date_def three_True Let_def is_date_def [of "(_, _, _)"] intro: week_read num_at_bound
      split: if_splits)

section \<open>Shifting\<close>

text \<open>Shifting a date can be undone: what \<open>date_shift\<close> answers is the ISO text of the date that many days away, on the weekday that many
  days on, and shifting that text back by as many days gives the date it started from, in whichever of the ISO forms
  it was written; only a day before the year 1 or after the year 9999 has no answer.\<close>

lemma shifted_date_comes_back:
  assumes "date_shift v n = Inr r"
  shows "\<exists>d s. parse_date v = Some d \<and> jget r ''result'' = JStr (iso_text s) \<and> is_date s \<and> int (ordinal s) = int (ordinal d) + n \<and>
    jget r ''weekday'' = JStr (weekday_names ! nat ((int (ordinal d) + n + 6) mod 7)) \<and>
    date_shift (iso_text s) (- n) = Inr [(''date'', JStr (iso_text s)), (''days'', JInt (- n)),
      (''result'', JStr (iso_text d)), (''weekday'', JStr (weekday_of d))]"
proof -
  obtain d s where d: "parse_date v = Some d" "date_plus d n = Inr s"
    and r: "r = [(''date'', JStr v), (''days'', JInt n), (''result'', JStr (iso_text s)), (''weekday'', JStr (weekday_of s))]"
    using assms by (auto simp: date_shift_def bind_r_Inr split: option.splits)
  note ok = parse_date_ok [OF d(1)]
  have bounds: "\<bar>n\<bar> \<le> 999999999" "1 \<le> int (ordinal d) + n" "int (ordinal d) + n \<le> last_day" and s: "s = date_of (nat (int (ordinal d) + n))"
    using d(2) by (auto simp: date_plus_def Let_def split: if_splits)
  have "1 \<le> nat (int (ordinal d) + n)" using bounds(2) by simp
  note sd = ordinal_date_of [OF this, folded s]
  have ord: "int (ordinal s) = int (ordinal d) + n" using sd(1) bounds(2) by simp
  have "fst s \<le> 9999" using ordinal_last_day [OF sd(2)] ord bounds(3) by simp
  then have "parse_date (iso_text s) = Some s" by (rule parse_iso_text [OF sd(2)])
  moreover have "date_plus s (- n) = Inr d"
    using bounds(1) ord date_of_ordinal [of d] ok ordinal_last_day [of d] by (simp add: date_plus_def Let_def)
  ultimately have reverse: "date_shift (iso_text s) (- n) = Inr [(''date'', JStr (iso_text s)), (''days'', JInt (- n)),
      (''result'', JStr (iso_text d)), (''weekday'', JStr (weekday_of d))]" by (simp add: date_shift_def)
  have "(ordinal s + 6) mod 7 = nat ((int (ordinal d) + n + 6) mod 7)"
    unfolding ord [symmetric] by (simp add: nat_mod_as_int)
  then have "weekday_of s = weekday_names ! nat ((int (ordinal d) + n + 6) mod 7)" by (simp add: weekday_of_def)
  with d(1) sd(2) ord reverse r show ?thesis by (intro exI [of _ d] exI [of _ s]) (simp add: jget_def dget_or_def)
qed

text \<open>The day after the 28th of February of the year 4, which is a leap year.\<close>

lemma leap_shift: "date_shift ''0004-02-28'' 1 =
    Inr [(''date'', JStr ''0004-02-28''), (''days'', JInt 1), (''result'', JStr ''0004-02-29''), (''weekday'', JStr ''Sunday'')]"
  by code_simp

lemma shifted_date_comes_back_witness:
  "\<exists>d s. parse_date ''0004-02-28'' = Some d \<and> iso_text s = ''0004-02-29'' \<and> int (ordinal s) = int (ordinal d) + 1 \<and>
     date_shift (iso_text s) (- 1) = Inr [(''date'', JStr (iso_text s)), (''days'', JInt (- 1)),
       (''result'', JStr (iso_text d)), (''weekday'', JStr (weekday_of d))]"
proof -
  obtain d s where "parse_date ''0004-02-28'' = Some d" "JStr ''0004-02-29'' = JStr (iso_text s)"
    "int (ordinal s) = int (ordinal d) + 1"
    "date_shift (iso_text s) (- 1) = Inr [(''date'', JStr (iso_text s)), (''days'', JInt (- 1)),
       (''result'', JStr (iso_text d)), (''weekday'', JStr (weekday_of d))]"
    using shifted_date_comes_back [OF leap_shift] by (auto simp: jget_def dget_or_def)
  then show ?thesis by (metis json.inject(4))
qed

end
