(* ===== verification/Runtime_Workers.thy ===== *)
theory Runtime_Workers
  imports Planner_Claims Runtime Reasoning Memory_Store Event_Outbox Gateway Memory_Claims Reasoning_Claims
begin

text \<open>
  What a run is put together from (\<open>AgentRuntime.run\<close>): the restated goal, the planner's settings, the table of workers and which
  of them go through the outbox; the role worker, the workers that write to memory, and the indexing of a document.
  Environment variables are the function \<open>env\<close>, the model's replies arguments.
\<close>

section \<open>The goal\<close>

definition switched_on :: "(string \<Rightarrow> string option) \<Rightarrow> string \<Rightarrow> bool" where
  "switched_on env name = (lower (env_or env name ''0'') \<in> {''1'', ''true'', ''yes''})"

text \<open>The optimiser is given the callable the run was started with, before the budget seam replaces it; a run without one
  raises inside the optimiser, which keeps the request.\<close>

definition restated_goal ::
  "pytext \<Rightarrow> (string \<Rightarrow> string list) \<Rightarrow> (string \<Rightarrow> string option) \<Rightarrow> bool \<Rightarrow> run_request \<Rightarrow> string \<Rightarrow> string result \<Rightarrow> string result" where
  "restated_goal px literals env resume rq prompt reply =
     (if switched_on env ''S17_QUERY_OPTIMIZER'' \<and> \<not> resume then
        bind_r (optimize px literals 12 prompt (if rq_llm rq then reply else Inl TypeError)) (\<lambda>q. Inr (planning_goal q))
      else Inr prompt)"

definition unmetered_call :: "(string \<Rightarrow> string option) \<Rightarrow> bool \<Rightarrow> run_request \<Rightarrow> string \<Rightarrow> bool" where
  "unmetered_call env resume rq prompt =
     (switched_on env ''S17_QUERY_OPTIMIZER'' \<and> \<not> resume \<and> rq_llm rq \<and> rq_budget rq \<noteq> None \<and> strip prompt \<noteq> [])"

section \<open>The planner's settings\<close>

definition env_int :: "pytext \<Rightarrow> (string \<Rightarrow> string option) \<Rightarrow> string \<Rightarrow> string \<Rightarrow> int result" where
  "env_int px env name d = (case px_int px (env_or env name d) of None \<Rightarrow> Inl ValueError | Some n \<Rightarrow> Inr n)"

definition run_settings ::
  "pytext \<Rightarrow> (string \<Rightarrow> bool) \<Rightarrow> (string \<Rightarrow> string option) \<Rightarrow> registry \<Rightarrow> run_setup \<Rightarrow> planner_settings result" where
  "run_settings px ip env rg rs =
     bind_r (env_int px env ''S17_MAX_GRAPH_NODES'' ''32'') (\<lambda>nodes.
     bind_r (env_int px env ''S17_MAX_FRONTIER'' ''4'') (\<lambda>frontier.
     bind_r (env_int px env ''S17_MAX_REPEAT_FAILURES'' ''4'') (\<lambda>repeats.
       Inr \<lparr>gp_registry = rg, gp_ip = ip, gp_respond_as = rs_respond_as rs, gp_max_nodes = nodes, gp_max_new = frontier,
         gp_repair = 3, gp_review = True, gp_allowed = rs_allowed rs, gp_max_repeat = repeats\<rparr>)))"

section \<open>The table of workers\<close>

definition listed_workers :: "string list" where
  "listed_workers = [''memory_recall'', ''remember_explicit_fact'', ''web_search'', ''fetch_url'', ''index_file'',
     ''list_directory'', ''read_file'', ''write_file'', ''copy_file'', ''file_sha256'', ''verify_artifact'', ''calculate'', ''query_csv'',
     ''current_datetime'', ''date_shift'', ''create_calendar_events'', ''a2a_delegate'', ''load_skill'', ''copy_code_file'',
     ''list_channels'', ''send_channel_message'', ''launch_job'', ''request_approval'', ''answer_with_evidence'', ''researcher'',
     ''retriever'', ''content'', ''compose_surface'', ''read_code'', ''edit_code'', ''create_file'', ''glob_files'', ''grep_code'',
     ''run_command'', ''git_diff'', ''git_reset'', ''validate_work'']"

definition role_workers :: "registry \<Rightarrow> string list" where
  "role_workers rg = family rg ''generic_role''"

definition worker_names :: "registry \<Rightarrow> string list" where
  "worker_names rg = listed_workers @ role_workers rg"

text \<open>\<open>idempotent\<close>: the key of the outbox a task's worker runs under, if it has one; \<open>hash\<close> of the four parts.\<close>

definition once_key :: "(string \<times> string \<times> string \<times> obj \<Rightarrow> string) \<Rightarrow> registry \<Rightarrow> string \<Rightarrow> task_spec \<Rightarrow> string option" where
  "once_key hash rg rid t = (if runs_once rg (ts_skill t) then Some (hash (rid, ts_id t, ts_skill t, ts_input t)) else None)"

text \<open>Arguments of the executor: the pool's size comes from the environment as well.\<close>

definition executor_args ::
  "pytext \<Rightarrow> (string \<Rightarrow> string option) \<Rightarrow> (edge list \<Rightarrow> bool) \<Rightarrow> (string \<Rightarrow> string) \<Rightarrow> planner \<Rightarrow> registry \<Rightarrow> string \<Rightarrow> run_args result" where
  "executor_args px env is_dag path p rg rid =
     bind_r (env_int px env ''S17_MAX_WORKERS'' ''4'') (\<lambda>n.
       Inr \<lparr>ra_is_dag = is_dag, ra_path = path, ra_planner = p, ra_skills = worker_names rg, ra_max_workers = n,
         ra_run_id = rid, ra_max_completed = None\<rparr>)"

section \<open>Role workers\<close>

definition upstream_evidence :: "string \<Rightarrow> (string \<times> gnode) list \<Rightarrow> obj" where
  "upstream_evidence tid nodes =
     map (\<lambda>(i, n). (i, JObj (result_or_empty n))) (filter (\<lambda>(i, n). result_or_empty n \<noteq> [] \<and> i \<noteq> tid) nodes)"

definition role_request :: "json \<Rightarrow> task_spec \<Rightarrow> (string \<times> gnode) list \<Rightarrow> obj" where
  "role_request initial t nodes =
     [(''task'', JObj (ts_input t)), (''initial_evidence'', initial), (''upstream_evidence'', JObj (upstream_evidence (ts_id t) nodes))]"

text \<open>The registry is asked for the role's rule before the model is.\<close>

definition run_role :: "registry \<Rightarrow> task_spec \<Rightarrow> obj \<Rightarrow> obj result" where
  "run_role rg t reply =
     bind_r (get_capability rg (ts_skill t)) (\<lambda>c.
       Inr [(''text'', dget_or reply ''text'' (JStr [])), (''provider'', jget reply ''provider''), (''model'', jget reply ''model''),
         (''agent'', JStr (ts_skill t))])"

section \<open>Writing to memory\<close>

definition fact_record ::
  "string \<times> int \<Rightarrow> memory_scope \<Rightarrow> string \<Rightarrow> string \<times> string \<Rightarrow> string \<times> string \<Rightarrow> obj \<Rightarrow> string option \<Rightarrow> mem_record" where
  "fact_record fresh sc txt source who meta supersedes =
     \<lparr>mm_id = fst fresh, mm_kind = Fact, mm_scope = sc, mm_text = txt, mm_sources = [source], mm_principal = who,
      mm_metadata = meta, mm_document = None, mm_place = None, mm_created = snd fresh, mm_valid_to = None,
      mm_status = Current, mm_supersedes = supersedes\<rparr>"

definition fact_written :: "mem_record \<Rightarrow> obj" where
  "fact_written r = [(''id'', JStr (mm_id r)), (''kind'', JStr (kind_text (mm_kind r))), (''text'', JStr (mm_text r)),
     (''sources'', JList (map (\<lambda>s. JStr (fst s)) (mm_sources r)))]"

text \<open>\<open>remember_explicit\<close>; \<open>fresh\<close> draws the record's and the audit's identifier and time.\<close>

definition remember_explicit ::
  "(string \<Rightarrow> bool) \<Rightarrow> (nat \<Rightarrow> string \<times> int) \<Rightarrow> string \<Rightarrow> memory_scope \<Rightarrow> string \<times> string \<Rightarrow> string \<Rightarrow> memory \<Rightarrow> obj result \<times> memory" where
  "remember_explicit embeds fresh rid sc source txt me =
     (let r = fact_record (fresh 0) sc txt source (''gateway'', ''gateway'')
            [(''run_id'', JStr rid), (''promotion'', JStr ''explicit_user_request'')] None
      in case write_memory embeds (fresh 1) r me of
           (Some e, me') \<Rightarrow> (Inl e, me')
         | (None, me') \<Rightarrow> (Inr [(''fact'', JObj (fact_written r))], me'))"

definition remember_fact ::
  "(string \<Rightarrow> bool) \<Rightarrow> (nat \<Rightarrow> string \<times> int) \<Rightarrow> memory_scope \<Rightarrow> string \<times> string \<Rightarrow> string \<times> string \<Rightarrow> string option \<Rightarrow> string \<Rightarrow>
   memory \<Rightarrow> obj result \<times> memory" where
  "remember_fact embeds fresh sc source who supersedes txt me =
     (let r = fact_record (fresh 0) sc txt source who [] supersedes
      in case write_memory embeds (fresh 1) r me of
           (Some e, me') \<Rightarrow> (Inl e, me')
         | (None, me') \<Rightarrow> (Inr [(''id'', JStr (mm_id r)), (''status'', JStr ''current''),
              (''sources'', JList (map (\<lambda>s. JStr (fst s)) (mm_sources r)))], me'))"

section \<open>Indexing a document\<close>

record manifest_entry =
  me_id :: string
  me_ordinal :: nat
  me_heading :: "string option"
  me_words :: nat
  me_text :: string

definition manifest_row :: "string \<times> document_chunk \<Rightarrow> manifest_entry" where
  "manifest_row ic =
     \<lparr>me_id = fst ic, me_ordinal = dk_ordinal (snd ic), me_heading = dk_heading (snd ic),
      me_words = word_count (dk_text (snd ic)), me_text = dk_text (snd ic)\<rparr>"

record index_report =
  ix_document :: string
  ix_version :: nat
  ix_idempotent :: bool
  ix_records :: "string list"
  ix_source_words :: nat
  ix_indexed_words :: nat
  ix_excluded_words :: int
  ix_manifest :: "manifest_entry list"

definition document_ingestion :: "chunking \<Rightarrow> memory_scope \<Rightarrow> string \<times> string \<Rightarrow> (nat \<Rightarrow> string \<times> int) \<Rightarrow> string \<Rightarrow> ingestion" where
  "document_ingestion ck sc source fresh txt =
     (let prepared = fst (prepare_markdown txt) in
      \<lparr>in_source = txt, in_prepared = prepared, in_chunks = semantic_chunks ck False prepared, in_uri = fst source,
       in_scope = sc, in_author = snd source, in_fresh = fresh\<rparr>)"

definition indexed_as :: "ingestion \<Rightarrow> ingested \<Rightarrow> index_report" where
  "indexed_as g i =
     \<lparr>ix_document = ig_document i, ix_version = ig_version i, ix_idempotent = ig_idempotent i, ix_records = ig_records i,
      ix_source_words = word_count (in_source g), ix_indexed_words = word_count (in_prepared g),
      ix_excluded_words = int (word_count (in_source g)) - int (word_count (in_prepared g)),
      ix_manifest = map manifest_row (zip (ig_records i) (in_chunks g))\<rparr>"

definition index_document ::
  "(string \<Rightarrow> string) \<Rightarrow> (string \<Rightarrow> bool) \<Rightarrow> chunking \<Rightarrow> memory_scope \<Rightarrow> string \<times> string \<Rightarrow> (nat \<Rightarrow> string \<times> int) \<Rightarrow> string \<Rightarrow>
   memory \<Rightarrow> index_report result \<times> memory" where
  "index_document sha embeds ck sc source fresh txt me =
     (let g = document_ingestion ck sc source fresh txt in
      case ingest_document sha embeds g me of
        (Inl e, me') \<Rightarrow> (Inl e, me')
      | (Inr i, me') \<Rightarrow> (Inr (indexed_as g i), me'))"

section \<open>What the table of workers promises\<close>

text \<open>
  What the table of workers promises the planner, what the optimiser may spend, and whether the manifest of an indexed document
  is what memory holds.
\<close>

section \<open>Every planned task has a worker\<close>

lemma advertised_have_workers: "list_all (\<lambda>k. k \<in> set (worker_names default_registry)) (dkeys default_registry)"
  by code_simp

lemma registered_has_worker: "dget default_registry k \<noteq> None \<Longrightarrow> k \<in> set (worker_names default_registry)"
  using advertised_have_workers dget_None_iff [of default_registry k] by (simp only: list_all_iff) blast

lemma known_worker_executes: "ts_skill t \<in> set skills \<Longrightarrow> fst (execute skills t w) = (\<forall>m. w \<noteq> work.Raised m)"
  by (simp add: execute_def split: work.split)

text \<open>C19: No task the planner adds is answered as an unknown skill: the executor has a worker for it, so it fails only when
  that worker raises. And when its capability has a side effect, the run was allowed it, and its worker runs under the key of the
  outbox made of run, task, capability and arguments; a task without one runs outside the outbox.\<close>

theorem planned_task_has_a_worker:
  assumes "gp_registry gp = default_registry" and "plan gp model review g e = Inr p" and "t \<in> set (p_add p)"
    and "executor_args px env is_dag path pl default_registry rid = Inr a"
  shows "(fst (execute (ra_skills a) t w) = (\<forall>m. w \<noteq> work.Raised m)) \<and>
    (\<exists>c. dget default_registry (ts_skill t) = Some c \<and> (cp_side_effect c \<longrightarrow> ts_skill t \<in> set (gp_allowed gp)) \<and>
       once_key hash default_registry rid t =
         (if cp_side_effect c then Some (hash (rid, ts_id t, ts_skill t, ts_input t)) else None))"
proof -
  obtain c where c: "dget default_registry (ts_skill t) = Some c" "cp_side_effect c \<longrightarrow> ts_skill t \<in> set (gp_allowed gp)"
    using plan_ok [OF assms(2)] assms(1,3) by (auto simp: patch_ok_def task_ok_def)
  have "ra_skills a = worker_names default_registry" using assms(4) by (auto simp: executor_args_def bind_r_Inr)
  then show ?thesis using known_worker_executes registered_has_worker c by (auto simp: once_key_def runs_once_def)
qed

definition plain_env :: "string \<Rightarrow> string option" where
  "plain_env name = None"

definition small_px :: pytext where
  "small_px = \<lparr>px_str = (\<lambda>v. []), px_float = (\<lambda>s. None), px_int = (\<lambda>s. Some (if s = ''32'' then 32 else if s = ''4'' then 4 else 0))\<rparr>"

definition worker_demo_args :: run_args where
  "worker_demo_args = \<lparr>ra_is_dag = dag_check, ra_path = id, ra_planner = plan demo_settings demo_model no_review,
     ra_skills = worker_names default_registry, ra_max_workers = 4, ra_run_id = ''r'', ra_max_completed = None\<rparr>"

lemma worker_demo_args_made:
  "executor_args small_px plain_env dag_check id (plan demo_settings demo_model no_review) default_registry ''r'' = Inr worker_demo_args"
  by (simp add: executor_args_def env_int_def env_or_def plain_env_def small_px_def worker_demo_args_def)

lemma planned_task_has_a_worker_witness:
  "\<exists>c. dget default_registry ''run_command'' = Some c \<and> cp_side_effect c \<and>
     once_key (\<lambda>(rid, tid, skill, args). rid @ ''/'' @ tid) default_registry ''r'' demo_test_task = Some ''r/t1''"
proof -
  let ?p = "empty_patch\<lparr>p_add := [demo_test_task], p_reason := ''test'', p_metadata := meter_fields [] []\<rparr>"
  have "demo_test_task \<in> set (p_add ?p)" by simp
  from planned_task_has_a_worker [OF _ demo_plan this worker_demo_args_made, where hash = "\<lambda>(rid, tid, skill, args). rid @ ''/'' @ tid"]
  have "\<exists>c. dget default_registry (ts_skill demo_test_task) = Some c \<and>
      once_key (\<lambda>(rid, tid, skill, args). rid @ ''/'' @ tid) default_registry ''r'' demo_test_task =
        (if cp_side_effect c then Some (''r'' @ ''/'' @ ts_id demo_test_task) else None)"
    unfolding prod.case demo_settings_def planner_settings.simps by blast
  moreover have "ts_skill demo_test_task = ''run_command''" "''r'' @ ''/'' @ ts_id demo_test_task = ''r/t1''"
    by (simp_all add: demo_test_task_def)
  moreover have "case dget default_registry ''run_command'' of Some c \<Rightarrow> cp_side_effect c | None \<Rightarrow> False" by code_simp
  ultimately show ?thesis by (auto split: option.splits)
qed

text \<open>A role without a bespoke worker is bound from the registry, and asked by its own name.\<close>

lemma roles_answer_under_their_name:
  "k \<in> set (role_workers default_registry) \<Longrightarrow> ts_skill t = k \<Longrightarrow> \<exists>d. run_role default_registry t reply = Inr d \<and> jget d ''agent'' = JStr k"
proof -
  have "list_all (\<lambda>k. dget default_registry k \<noteq> None) (role_workers default_registry)" by code_simp
  then show "k \<in> set (role_workers default_registry) \<Longrightarrow> ts_skill t = k \<Longrightarrow> ?thesis"
    by (auto simp: list_all_iff run_role_def get_capability_def jget_def dget_or_def split: option.split)
qed

section \<open>The restated goal\<close>

text \<open>Whatever the optimiser answers, the planner's goal ends in the request, verbatim but for surrounding blanks, or is the
  request itself.\<close>

lemma goal_keeps_the_request:
  assumes "restated_goal px literals env resume rq prompt reply = Inr g"
  shows "g = prompt \<or> (\<exists>b. g = b @ strip prompt)"
  using assms by (auto simp: restated_goal_def bind_r_Inr dest!: rewrite_keeps_the_request split: if_splits)

text \<open>The optimiser's call is made on the callable the run was started with, whether or not the run has a budget: the ledger does
  not see it.\<close>

definition budgeted_request :: run_request where
  "budgeted_request = \<lparr>rq_prompt = Some ''fix the login'', rq_scope = None, rq_source_uri = None, rq_source_author = None,
     rq_respond_as = ''text'', rq_allowed = [], rq_evidence = [], rq_budget = Some 1, rq_principal = None, rq_transport = True, rq_llm = True\<rparr>"

lemma rewriting_is_outside_the_budget:
  "unmetered_call (\<lambda>n. Some ''yes'') False budgeted_request ''fix the login''"
  by code_simp

lemma resumed_run_plans_the_plain_request: "restated_goal px literals env True rq prompt reply = Inr prompt"
  by (simp add: restated_goal_def)

section \<open>The manifest of a document\<close>

text \<open>After a document was indexed anew, the manifest lists exactly the chunks memory now holds as the document's current ones, with
  their identifiers, places and texts, and all of it is committed.\<close>

lemma manifest_is_what_is_stored:
  assumes "(memory_step sha)\<^sup>*\<^sup>* empty_memory me" and "index_document sha embeds ck sc source fresh txt me = (Inr x, me')"
    and "\<not> ix_idempotent x"
  shows "map (\<lambda>e. (me_id e, me_ordinal e, me_text e)) (ix_manifest x) =
      map (\<lambda>r. (mm_id r, place_ordinal r, mm_text r)) (chunks_of (ix_document x) (me_live me')) \<and>
    me_saved me' = me_live me' \<and> map me_id (ix_manifest x) = ix_records x"
proof -
  define g where "g = document_ingestion ck sc source fresh txt"
  define d where "d = document_id sha (in_scope g) (in_uri g)"
  define active where "active = active_row (me_live me) d"
  define row where "row = \<lparr>dr_id = d, dr_version = (case active of None \<Rightarrow> 1 | Some x \<Rightarrow> dr_version x + 1), dr_active = True,
    dr_scope = in_scope g, dr_uri = in_uri g, dr_source_hash = sha (in_source g), dr_prepared_hash = sha (in_prepared g)\<rparr>"
  have ok: "tables_ok (me_live me)" using memory_store.steps_inv [OF assms(1) empty_memory_ok] by (simp add: memory_ok_def)
  from assms(2) obtain i where i: "ingest_document sha embeds g me = (Inr i, me')" "x = indexed_as g i"
    by (auto simp: index_document_def Let_def g_def [symmetric] split: prod.splits sum.splits)
  then obtain tb where tb: "index_version embeds row g (active \<noteq> None) (me_live me) = Inr tb" "me' = \<lparr>me_live = tb, me_saved = tb\<rparr>"
    "i = \<lparr>ig_document = d, ig_version = dr_version row, ig_idempotent = False, ig_records = map (\<lambda>i. fst (in_fresh g i)) [0..<length (in_chunks g)]\<rparr>"
    using assms(3) by (auto simp: indexed_as_def ingest_document_def Let_def d_def [symmetric] active_def [symmetric] row_def
        split: option.splits if_splits sum.splits)
  have "chunks_of d tb = map (chunk_record g row) (enumerate 0 (in_chunks g))"
    using index_version_chunks [OF tb(1) ok] by (simp add: active_def row_def)
  then have "map (\<lambda>r. (mm_id r, place_ordinal r, mm_text r)) (chunks_of d tb) =
      map (\<lambda>(k, c). (fst (in_fresh g k), dk_ordinal c, dk_text c)) (enumerate 0 (in_chunks g))"
    by (simp add: chunk_record_def place_ordinal_def split: prod.split)
  moreover have "zip (map f [0..<length cs]) cs = map (\<lambda>(k, c). (f k, c)) (enumerate 0 cs)" for f :: "nat \<Rightarrow> string" and cs :: "document_chunk list"
    by (simp add: enumerate_eq_zip zip_map1)
  moreover have "map (\<lambda>k. f (fst k)) (enumerate 0 cs) = map f [0..<length cs]" for f :: "nat \<Rightarrow> string" and cs :: "document_chunk list"
  proof -
    have "map f (map fst (enumerate 0 cs)) = map f [0..<length cs]" by simp
    then show ?thesis by (simp only: map_map comp_def)
  qed
  ultimately show ?thesis using i(2) tb(2,3)
    by (simp add: indexed_as_def manifest_row_def comp_def split_beta)
qed

lemma manifest_is_what_is_stored_witness:
  "\<exists>x me. index_document id (\<lambda>t. True) two_topics team (''guide.md'', ''me'') (\<lambda>n. (digits n, int n)) ''one'' empty_memory = (Inr x, me) \<and>
     map (\<lambda>e. (me_id e, me_text e)) (ix_manifest x) = [(''0'', ''one'')] \<and> me_saved me = me_live me"
proof -
  let ?i = "index_document id (\<lambda>t. True) two_topics team (''guide.md'', ''me'') (\<lambda>n. (digits n, int n)) ''one'' empty_memory"
  have "case ?i of (Inr x, me) \<Rightarrow> \<not> ix_idempotent x \<and> map (\<lambda>e. (me_id e, me_text e)) (ix_manifest x) = [(''0'', ''one'')] | _ \<Rightarrow> False"
    by code_simp
  then obtain x me where i: "?i = (Inr x, me)" "\<not> ix_idempotent x" "map (\<lambda>e. (me_id e, me_text e)) (ix_manifest x) = [(''0'', ''one'')]"
    by (auto split: prod.splits sum.splits)
  have "me_saved me = me_live me" using manifest_is_what_is_stored [OF rtranclp.rtrancl_refl i(1,2)] by simp
  with i show ?thesis by (intro exI [of _ x] exI [of _ me]) simp
qed

text \<open>The chunks are cut before the store is asked whether it has the document, by a model that may cut it otherwise the second time:
  the manifest of a document that was already there pairs the stored identifiers with texts that are not stored.\<close>

definition indexed_by :: "(nat \<Rightarrow> string \<Rightarrow> string result) \<Rightarrow> memory \<Rightarrow> index_report result \<times> memory" where
  "indexed_by segmenter me = index_document id (\<lambda>t. True) (two_topics\<lparr>ck_segmenter := segmenter\<rparr>) team (''g.md'', ''me'')
     (\<lambda>n. (digits n, int n)) ''alpha beta'' me"

lemma repeated_manifest_is_another:
  "case indexed_by (\<lambda>n b. Inr (if b = ''alpha beta'' then ''beta'' else [])) empty_memory of
     (Inr x, me) \<Rightarrow>
       (case indexed_by (\<lambda>n b. Inr []) me of
          (Inr y, me') \<Rightarrow> me' = me \<and> ix_idempotent y \<and> ix_records y = [''0'', ''1''] \<and>
            map me_text (ix_manifest y) = [''alpha beta''] \<and> map me_text (ix_manifest x) \<noteq> [''alpha beta'']
        | _ \<Rightarrow> False)
   | _ \<Rightarrow> False"
  by code_simp

end
