(* ===== verification/Worker_Calls.thy ===== *)
theory Worker_Calls
  imports Worker_Claims Dates Gateway A2a_Bridge
begin

text \<open>
  Workers that leave something behind or call out (\<open>workers/general.py\<close>): calendar files, jobs of other processes, remote agents
  and channels. The artifact folder of the run is the list of its files; what a remote answers, a file's URI and the C library's
  \<open>%Y\<close> are arguments.
\<close>

section \<open>Calendar events\<close>

type_synonym folder = "(string \<times> string) list"

definition event_stamp :: "(nat \<Rightarrow> string) \<Rightarrow> day \<Rightarrow> string" where
  "event_stamp year_text d = (case d of (y, m, k) \<Rightarrow> year_text y @ padded 2 m @ padded 2 k)"

definition event_file :: "(nat \<Rightarrow> string) \<Rightarrow> string \<Rightarrow> string \<Rightarrow> nat \<Rightarrow> day \<Rightarrow> string" where
  "event_file year_text rid title i d =
     join [CHR 0x0A] [''BEGIN:VCALENDAR'', ''VERSION:2.0'', ''BEGIN:VEVENT'', ''UID:'' @ rid @ ''-'' @ digits i @ ''@glc.local'',
       ''DTSTART;VALUE=DATE:'' @ event_stamp year_text d, ''SUMMARY:'' @ title, ''END:VEVENT'', ''END:VCALENDAR'', []]"

definition event_name :: "string \<Rightarrow> nat \<Rightarrow> string" where
  "event_name title i = take 48 (slug title) @ ''_'' @ digits i @ ''.ics''"

definition write_event :: "(nat \<Rightarrow> string) \<Rightarrow> string \<Rightarrow> string \<Rightarrow> nat \<times> day \<Rightarrow> folder \<Rightarrow> folder" where
  "write_event year_text rid title ix = dput (event_name title (fst ix)) (event_file year_text rid title (fst ix) (snd ix))"

definition event_date :: "string \<Rightarrow> day result" where
  "event_date raw = (case parse_date raw of None \<Rightarrow> Inl ValueError | Some d \<Rightarrow> Inr d)"

text \<open>Every date is read before anything is written.\<close>

definition create_calendar_events ::
  "(nat \<Rightarrow> string) \<Rightarrow> (string \<Rightarrow> string) \<Rightarrow> string \<Rightarrow> string \<Rightarrow> string list \<Rightarrow> folder \<Rightarrow> obj result \<times> folder" where
  "create_calendar_events year_text uri rid title raws files =
     (case map_r event_date raws of
        Inl e \<Rightarrow> (Inl e, files)
      | Inr ds \<Rightarrow>
          (Inr [(''artifacts'', JList (map (\<lambda>i. JStr (uri (event_name title i))) [1..<length ds + 1])), (''title'', JStr title),
             (''dates'', JList (map (\<lambda>d. JStr (iso_text d)) ds))],
           fold (write_event year_text rid title) (enumerate 1 ds) files))"

section \<open>Jobs\<close>

definition callback_base :: "(string \<Rightarrow> string option) \<Rightarrow> string" where
  "callback_base env = env_or env ''S17_CALLBACK_BASE_URL'' (env_or env ''S17_BASE_URL'' [])"

definition right_stripped :: "char \<Rightarrow> string \<Rightarrow> string" where
  "right_stripped c s = rev (dropWhile (\<lambda>x. x = c) (rev s))"

definition job_envelope :: "(string \<Rightarrow> string option) \<Rightarrow> string \<Rightarrow> string \<Rightarrow> json \<Rightarrow> obj" where
  "job_envelope env rid tid job =
     [(''task'', job), (''run_id'', JStr rid), (''node_id'', JStr tid),
      (''callback_url'', JStr (right_stripped (CHR ''/'') (callback_base env) @ ''/v1/agent/completions'')),
      (''callback_event_type'', JStr ''job.completed'')] @
     (case env ''S17_COMPLETION_TOKEN'' of None \<Rightarrow> [] | Some t \<Rightarrow> if t = [] then [] else [(''callback_token'', JStr t)])"

text \<open>\<open>launch_job\<close>: the envelope that is posted, if any, and what the endpoint's answer makes of it. A status from 400 on raises,
  as does a body that is no JSON.\<close>

definition launch_job ::
  "(string \<Rightarrow> string option) \<Rightarrow> string \<Rightarrow> task_spec \<Rightarrow> gateway_response \<Rightarrow> obj option \<times> deferred result" where
  "launch_job env rid t answer =
     (if callback_base env = [] then (None, Inl RuntimeError)
      else (Some (job_envelope env rid (ts_id t) (jget (ts_input t) ''task'')),
        if gr_status answer \<ge> 400 then Inl OSError
        else case gr_json answer of None \<Rightarrow> Inl ValueError
        | Some accepted \<Rightarrow> bind_r (job_handle accepted) (\<lambda>h.
            Inr \<lparr>d_handle = h, d_event_type = ''job.completed'',
              d_metadata = [(''endpoint'', jget (ts_input t) ''endpoint''), (''launched_by'', JStr (ts_id t))]\<rparr>)))"

section \<open>Remote agents\<close>

definition remote_state :: "json \<Rightarrow> json result" where
  "remote_state result =
     (case result of
        JObj d \<Rightarrow> bind_r (as_record (or_else (jget d ''status'') (JObj []))) (\<lambda>s. Inr (jget s ''state''))
      | _ \<Rightarrow> Inr JNull)"

definition ended_badly :: "json \<Rightarrow> bool" where
  "ended_badly s = (s \<in> set (map JStr [''failed'', ''canceled'', ''cancelled'', ''rejected'']))"

text \<open>\<open>in\<close> a set of texts hashes the state, so a list or a dict raises.\<close>

definition a2a_delegate :: "discovered_agent \<Rightarrow> int \<Rightarrow> json \<Rightarrow> obj result" where
  "a2a_delegate agent status answer =
     bind_r (client_result status answer) (\<lambda>r.
     bind_r (remote_state r) (\<lambda>s.
       if is_list s \<or> is_dict s then Inl TypeError
       else if ended_badly s then Inl RuntimeError
       else Inr [(''agent'', jget (da_card agent) ''name''), (''endpoint'', da_endpoint agent), (''result'', r)]))"

section \<open>Channels\<close>

definition list_channels :: "bool \<Rightarrow> gateway_response \<Rightarrow> obj result" where
  "list_channels has_channels answer =
     (if \<not> has_channels then Inl RuntimeError
      else bind_r (channel_catalogue answer) (\<lambda>cs. Inr [(''channels'', JList cs), (''count'', JInt (int (length cs)))]))"

definition optional_text :: "obj \<Rightarrow> string \<Rightarrow> string option" where
  "optional_text d k = (case jget d k of JStr s \<Rightarrow> Some s | _ \<Rightarrow> None)"

definition required_text :: "obj \<Rightarrow> string \<Rightarrow> string result" where
  "required_text d k = (case dget d k of Some (JStr s) \<Rightarrow> Inr s | Some _ \<Rightarrow> Inl TypeError | None \<Rightarrow> Inl KeyError)"

text \<open>\<open>send_channel_message\<close>: what is posted, and the receipt as the node's result.\<close>

definition send_channel_message :: "bool \<Rightarrow> obj \<Rightarrow> gateway_response \<Rightarrow> (obj \<times> obj) result" where
  "send_channel_message can_send args answer =
     (if \<not> can_send then Inl RuntimeError
      else bind_r (required_text args ''channel'') (\<lambda>channel.
        bind_r (required_text args ''recipient_id'') (\<lambda>recipient.
        bind_r (required_text args ''text'') (\<lambda>txt.
        bind_r (channel_receipt answer) (\<lambda>receipt.
          Inr (send_payload channel recipient txt (optional_text args ''thread_id'') (optional_text args ''voice_audio_ref''),
            [(''channel'', JStr channel), (''recipient_id'', JStr recipient), (''receipt'', JObj receipt)]))))))"

section \<open>What the calls leave behind\<close>

text \<open>
  Every date asked for gets its own event; what a job's endpoint is told and what its handle is; and where these workers believe
  more than they were told.
\<close>

section \<open>Numbers in names\<close>

lemma digits_roundtrip: "nat_of_digits (digits n) = n"
proof (induction n rule: digits.induct)
  case (1 n)
  show ?case
  proof (cases "n < 10")
    case True
    then show ?thesis by (simp add: digits.simps [of n] nat_of_digits_def digit_value_def)
  next
    case False
    have "nat_of_digits (xs @ [c]) = 10 * nat_of_digits xs + digit_value c" for xs c by (simp add: nat_of_digits_def)
    moreover have "digit_value (char_of (48 + n mod 10) :: char) = n mod 10" by (simp add: digit_value_def)
    ultimately show ?thesis using 1 [OF False] False by (simp add: digits.simps [of n])
  qed
qed

lemma digits_inject [simp]: "digits i = digits j \<longleftrightarrow> i = j"
  by (metis digits_roundtrip)

lemma event_name_inject [simp]: "event_name title i = event_name title j \<longleftrightarrow> i = j"
  by (simp add: event_name_def)

lemma map_r_error: "map_r f xs = Inl e \<Longrightarrow> \<exists>x \<in> set xs. f x = Inl e"
proof -
  have "fold_r (\<lambda>x acc. bind_r (f x) (\<lambda>y. Inr (acc @ [y]))) xs acc = Inl e \<Longrightarrow> \<exists>x \<in> set xs. f x = Inl e" for acc
  proof (induction xs arbitrary: acc)
    case (Cons x xs)
    then show ?case by (cases "f x") auto
  qed simp
  then show "map_r f xs = Inl e \<Longrightarrow> ?thesis" by (simp add: map_r_def)
qed

section \<open>Calendar events\<close>

lemma other_files_stay:
  "\<forall>i. i < length ds \<longrightarrow> k \<noteq> event_name title (n + i) \<Longrightarrow> dget (fold (write_event yt rid title) (enumerate n ds) files) k = dget files k"
proof (induction ds arbitrary: n files)
  case (Cons d ds)
  have "k \<noteq> event_name title n" using Cons.prems [THEN spec, of 0] by simp
  moreover have "\<forall>i. i < length ds \<longrightarrow> k \<noteq> event_name title (Suc n + i)" using Cons.prems [THEN spec, of "Suc _"] by auto
  ultimately show ?case using Cons.IH [of "Suc n"] by (simp add: write_event_def)
qed simp

lemma event_is_written:
  "i < length ds \<Longrightarrow> dget (fold (write_event yt rid title) (enumerate n ds) files) (event_name title (n + i)) =
     Some (event_file yt rid title (n + i) (ds ! i))"
proof (induction ds arbitrary: n i files)
  case (Cons d ds)
  show ?case
  proof (cases i)
    case 0
    have "dget (fold (write_event yt rid title) (enumerate (Suc n) ds) (write_event yt rid title (n, d) files)) (event_name title n) =
        dget (write_event yt rid title (n, d) files) (event_name title n)" by (rule other_files_stay) simp
    moreover have "write_event yt rid title (n, d) files = dput (event_name title n) (event_file yt rid title n d) files"
      by (simp add: write_event_def)
    ultimately show ?thesis using 0 by simp
  next
    case (Suc j)
    then show ?thesis using Cons.IH [of j "Suc n"] Cons.prems by simp
  qed
qed simp

text \<open>Asking for calendar events is all or nothing: with one date that is none, nothing is written; otherwise there is one file for
  every date, under a name of its own, that holds that date's event, the result lists them in the order asked for, and no other file is touched.\<close>

lemma every_date_gets_its_event:
  assumes "create_calendar_events yt uri rid title raws files = (r, files')"
  shows "(if list_ex (\<lambda>s. parse_date s = None) raws then r = Inl ValueError \<and> files' = files
     else \<exists>ds. map Some ds = map parse_date raws \<and>
       (\<forall>i < length ds. dget files' (event_name title (i + 1)) = Some (event_file yt rid title (i + 1) (ds ! i))) \<and>
       (\<forall>k. (\<forall>i < length ds. k \<noteq> event_name title (i + 1)) \<longrightarrow> dget files' k = dget files k) \<and>
       (\<exists>d. r = Inr d \<and> jget d ''artifacts'' = JList (map (\<lambda>i. JStr (uri (event_name title (i + 1)))) [0..<length ds])))"
proof (cases "map_r event_date raws")
  case (Inl e)
  have "parse_date s = None \<and> e = ValueError" if "event_date s = Inl e" for s
    using that by (cases "parse_date s") (auto simp: event_date_def)
  with map_r_error [OF Inl] have "list_ex (\<lambda>s. parse_date s = None) raws \<and> e = ValueError" by (auto simp: list_ex_iff)
  with Inl assms show ?thesis by (simp add: create_calendar_events_def)
next
  case (Inr ds)
  then have a: "list_all2 (\<lambda>s d. parse_date s = Some d) raws ds"
    using map_r_all2 [OF Inr] by (auto simp: event_date_def elim!: list_all2_mono split: option.splits)
  then have m: "map Some ds = map parse_date raws"
    by (induction raws ds rule: list_all2_induct) simp_all
  then have "None \<notin> parse_date ` set raws" by (metis image_set ex_map_conv option.distinct(1) in_set_conv_nth length_map nth_map)
  then have n: "\<not> list_ex (\<lambda>s. parse_date s = None) raws" by (force simp: list_ex_iff)
  have f: "files' = fold (write_event yt rid title) (enumerate 1 ds) files" and r: "\<exists>d. r = Inr d \<and> jget d ''artifacts'' =
      JList (map (\<lambda>i. JStr (uri (event_name title i))) [1..<length ds + 1])"
    using Inr assms by (auto simp: create_calendar_events_def jget_def dget_or_def)
  have "[1..<length ds + 1] = map (\<lambda>i. i + 1) [0..<length ds]" by (simp add: map_Suc_upt)
  with r have r: "\<exists>d. r = Inr d \<and> jget d ''artifacts'' = JList (map (\<lambda>i. JStr (uri (event_name title (i + 1)))) [0..<length ds])"
    by (simp add: comp_def)
  have w: "\<forall>i < length ds. dget files' (event_name title (i + 1)) = Some (event_file yt rid title (i + 1) (ds ! i))"
    unfolding f using event_is_written [of _ ds yt rid title 1 files] by simp
  have "\<forall>k. (\<forall>i < length ds. k \<noteq> event_name title (i + 1)) \<longrightarrow> dget files' k = dget files k"
    unfolding f using other_files_stay [of ds _ title 1 yt rid files] by simp
  with w r m n show ?thesis by auto
qed

lemma every_date_gets_its_event_witness:
  "\<exists>files. snd (create_calendar_events digits id ''r'' ''Stand-up'' [''2026-01-05'', ''20260112''] []) = files \<and>
     dget files ''stand_up_2.ics'' = Some (event_file digits ''r'' ''Stand-up'' 2 (2026, 1, 12)) \<and>
     contains ''DTSTART;VALUE=DATE:20260112'' (event_file digits ''r'' ''Stand-up'' 2 (2026, 1, 12))"
proof -
  let ?c = "create_calendar_events digits id ''r'' ''Stand-up'' [''2026-01-05'', ''20260112''] []"
  obtain r files where c: "?c = (r, files)" by fastforce
  have p: "map parse_date [''2026-01-05'', ''20260112''] = map Some [(2026, 1, 5), (2026, 1, 12)]" by code_simp
  then have "\<not> list_ex (\<lambda>s. parse_date s = None) [''2026-01-05'', ''20260112'']" by simp
  with every_date_gets_its_event [OF c] obtain ds where ds: "map Some ds = map parse_date [''2026-01-05'', ''20260112'']"
    "\<forall>i < length ds. dget files (event_name ''Stand-up'' (i + 1)) = Some (event_file digits ''r'' ''Stand-up'' (i + 1) (ds ! i))"
    by (simp only: if_False) blast
  from ds(1) p have "map Some ds = map Some [(2026, 1, 5), (2026, 1, 12)]" by simp
  then have "ds = [(2026, 1, 5), (2026, 1, 12)]" by (simp only: inj_map_eq_map [OF inj_Some])
  with ds(2) [THEN spec, of 1] have "dget files (event_name ''Stand-up'' (1 + 1)) = Some (event_file digits ''r'' ''Stand-up'' (1 + 1) (2026, 1, 12))" by simp
  then have "dget files (event_name ''Stand-up'' 2) = Some (event_file digits ''r'' ''Stand-up'' 2 (2026, 1, 12))" by (simp only: one_add_one)
  moreover have "event_name ''Stand-up'' 2 = ''stand_up_2.ics''" by code_simp
  moreover have "contains ''DTSTART;VALUE=DATE:20260112'' (event_file digits ''r'' ''Stand-up'' 2 (2026, 1, 12))" by code_simp
  ultimately show ?thesis using c by simp
qed

text \<open>The names depend on the title and the position only: a second call in the same run whose title reads alike replaces the events
  of the first, whose result still lists them.\<close>

lemma later_events_replace_earlier:
  "dget (snd (create_calendar_events digits id ''r'' ''review!'' [''2026-02-05''] files)) (event_name ''Review'' 1) =
     Some (event_file digits ''r'' ''review!'' 1 (2026, 2, 5))"
proof -
  have "map_r event_date [''2026-02-05''] = Inr [(2026, 2, 5)]" by code_simp
  moreover have "event_name ''Review'' 1 = event_name ''review!'' 1" by code_simp
  ultimately show ?thesis
    using event_is_written [of 0 "[(2026, 2, 5)]" digits "''r''" "''review!''" 1 files] by (simp add: create_calendar_events_def)
qed

text \<open>The title is written as it is: one with a line break adds lines of its own to the event.\<close>

lemma title_adds_lines:
  "contains (CHR 0x0A # ''ATTENDEE:x'' @ [CHR 0x0A]) (event_file digits ''r'' (''Review'' @ CHR 0x0A # ''ATTENDEE:x'') 1 (2026, 1, 5))"
  by code_simp

section \<open>Jobs and remote agents\<close>

text \<open>A job's node waits for the kind of event the endpoint was told to send, under the handle it answered with; nothing is posted
  unless there is an address to answer to.\<close>

lemma envelope_fields:
  "jget (job_envelope env rid tid job) ''callback_event_type'' = JStr ''job.completed''"
  "jget (job_envelope env rid tid job) ''node_id'' = JStr tid" "jget (job_envelope env rid tid job) ''run_id'' = JStr rid"
  by (simp_all add: job_envelope_def jget_def dget_or_def)

lemma job_handle_nonempty: "job_handle v = Inr h \<Longrightarrow> h \<noteq> []"
  by (auto simp: job_handle_def split: json.splits if_splits)

lemma job_calls_back:
  assumes "launch_job env rid t answer = (posted, Inr d)"
  shows "\<exists>p. posted = Some p \<and> callback_base env \<noteq> [] \<and> jget p ''callback_event_type'' = JStr (d_event_type d) \<and>
    jget p ''node_id'' = JStr (ts_id t) \<and> jget p ''run_id'' = JStr rid \<and> d_handle d \<noteq> []"
proof -
  from assms obtain v h where "callback_base env \<noteq> []" "job_handle v = Inr h" "d_handle d = h" "d_event_type d = ''job.completed''"
    "posted = Some (job_envelope env rid (ts_id t) (jget (ts_input t) ''task''))"
    by (auto simp: launch_job_def bind_r_Inr split: if_splits option.splits)
  then show ?thesis using job_handle_nonempty by (auto simp: envelope_fields)
qed

text \<open>The token that completes any waiting node of any run is sent to the endpoint of the planner's choice.\<close>

lemma job_endpoint_gets_the_token:
  "env ''S17_COMPLETION_TOKEN'' = Some tok \<Longrightarrow> tok \<noteq> [] \<Longrightarrow> callback_base env \<noteq> [] \<Longrightarrow>
   \<exists>p. fst (launch_job env rid t answer) = Some p \<and> jget p ''callback_token'' = JStr tok"
  by (simp add: launch_job_def job_envelope_def jget_def dget_or_def)

text \<open>A remote task that is still working, that needs input, or that names its failure as version 1.0 of the protocol spells it, is a
  success of the node.\<close>

lemma unfinished_remote_is_success:
  "list_all (\<lambda>s. \<exists>d. a2a_delegate \<lparr>da_card = [], da_endpoint = JNull\<rparr> 200
       (JObj [(''result'', JObj [(''status'', JObj [(''state'', JStr s)])])]) = Inr d)
     [''working'', ''input-required'', ''TASK_STATE_FAILED'']"
  by (simp add: a2a_delegate_def client_result_def as_record_def remote_state_def or_else_def jget_def dget_or_def ended_badly_def)

end
