(* ===== verification/Tool_Queries.thy ===== *)
theory Tool_Queries
  imports Sandbox Event_Lease Json_Parse
begin

text \<open>
  Questions the tools put to tables and pages (\<open>tools.py\<close>): \<open>query_csv\<close>, which types the columns of CSV files and runs one
  read-only statement over them, \<open>fetch_url\<close> and \<open>web_search\<close> with their HTML readers. What the CSV reader, SQLite, the HTML
  parser and the network give is an argument; characters are 8 bit.
\<close>

section \<open>The statement\<close>

definition word_char :: "char \<Rightarrow> bool" where
  "word_char c = (is_alnum c \<or> c = CHR ''_'' \<or> (let n = of_char c :: nat in
     n \<in> {170, 178, 179, 181, 185, 186, 188, 189, 190} \<or> (192 \<le> n \<and> n \<le> 255 \<and> n \<noteq> 215 \<and> n \<noteq> 247)))"

fun words_from :: "string \<Rightarrow> string \<Rightarrow> string list" where
  "words_from w [] = (if w = [] then [] else [w])"
| "words_from w (c # cs) = (if word_char c then words_from (w @ [c]) cs else (if w = [] then [] else [w]) @ words_from [] cs)"

definition sql_words :: "string \<Rightarrow> string list" where
  "sql_words s = map lower (words_from [] s)"

definition writing_words :: "string list" where
  "writing_words = [''attach'', ''detach'', ''pragma'', ''insert'', ''update'', ''delete'', ''drop'', ''alter'', ''create'',
     ''replace'', ''vacuum'']"

definition unended :: "string \<Rightarrow> string" where
  "unended s = rev (dropWhile (\<lambda>c. c = CHR '';'') (rev s))"

definition read_only :: "string \<Rightarrow> bool" where
  "read_only s =
     (lower (takeWhile word_char s) \<in> {''select'', ''with''} \<and> CHR '';'' \<notin> set (unended s) \<and>
      list_all (\<lambda>w. w \<notin> set writing_words) (sql_words s))"

section \<open>Columns\<close>

text \<open>\<open>re.sub(r"\W+", "_", name).strip("_")\<close>\<close>

fun squeezed :: "bool \<Rightarrow> string \<Rightarrow> string" where
  "squeezed gap [] = []"
| "squeezed gap (c # cs) =
     (if word_char c then c # squeezed False cs else if gap then squeezed True cs else CHR ''_'' # squeezed True cs)"

definition sql_name :: "string \<Rightarrow> string" where
  "sql_name s = (let u = (\<lambda>c. c = CHR ''_'') in rev (dropWhile u (rev (dropWhile u (squeezed False s)))))"

definition table_name :: "string \<Rightarrow> string" where
  "table_name stem = (if sql_name stem = [] then ''data'' else sql_name stem)"

definition column_name :: "nat \<times> string \<Rightarrow> string" where
  "column_name ix = (if sql_name (snd ix) = [] then ''column_'' @ digits (fst ix) else sql_name (snd ix))"

text \<open>\<open>DictReader\<close>: blank lines are skipped, a row that is short has \<open>None\<close>s, a field named twice is the last of that name.\<close>

definition row_dict :: "string list \<Rightarrow> string list \<Rightarrow> (string \<times> string option) list" where
  "row_dict names row = fold (\<lambda>(k, v). dput k v) (zip names (map Some row @ replicate (length names - length row) None)) []"

definition raw_row :: "string list \<Rightarrow> string list \<Rightarrow> string option list" where
  "raw_row names row = map (\<lambda>k. dget_or (row_dict names row) k (Some [])) names"

definition raw_rows :: "string list \<Rightarrow> string list list \<Rightarrow> string option list list" where
  "raw_rows names rows = map (raw_row names) (filter (\<lambda>r. r \<noteq> []) rows)"

definition cell_text :: "string option \<Rightarrow> string" where
  "cell_text c = (case c of None \<Rightarrow> ''None'' | Some s \<Rightarrow> s)"

datatype column_type = Integer_column | Real_column | Text_column

definition unsigned :: "string \<Rightarrow> string" where
  "unsigned s = (case s of c # cs \<Rightarrow> if c \<in> set ''+-'' then cs else s | [] \<Rightarrow> [])"

definition integer_text :: "string \<Rightarrow> bool" where
  "integer_text s = (unsigned s \<noteq> [] \<and> list_all is_digit (unsigned s))"

definition real_text :: "string \<Rightarrow> bool" where
  "real_text s =
     (let t = unsigned s; whole = takeWhile is_digit t; rest = dropWhile is_digit t in
      case rest of [] \<Rightarrow> whole \<noteq> []
      | c # ds \<Rightarrow> c = CHR ''.'' \<and> list_all is_digit ds \<and> (whole \<noteq> [] \<or> ds \<noteq> []))"

definition column_values :: "nat \<Rightarrow> string option list list \<Rightarrow> string list" where
  "column_values i rows = filter (\<lambda>v. v \<noteq> []) (map (\<lambda>r. strip (cell_text (r ! i))) rows)"

definition type_of_values :: "string list \<Rightarrow> column_type" where
  "type_of_values vs =
     (if vs \<noteq> [] \<and> list_all integer_text vs then Integer_column
      else if vs \<noteq> [] \<and> list_all real_text vs then Real_column else Text_column)"

definition column_types :: "nat \<Rightarrow> string option list list \<Rightarrow> column_type list" where
  "column_types n rows = map (\<lambda>i. type_of_values (column_values i rows)) [0..<n]"

section \<open>Cells\<close>

datatype cell = Null | Int_cell int | Real_cell rat | Text_cell string

definition negative :: "string \<Rightarrow> bool" where
  "negative s = (take 1 s = ''-'')"

text \<open>\<open>int\<close> and \<open>float\<close> of a text of digits, surrounding blanks allowed. Beyond 4,300 digits \<open>int\<close> raises.\<close>

definition int_cell :: "string \<Rightarrow> cell result" where
  "int_cell v =
     (let s = strip v in
      if \<not> integer_text s \<or> length (unsigned s) > 4300 then Inl ValueError
      else Inr (Int_cell ((if negative s then -1 else 1) * int (nat_of_digits (unsigned s)))))"

definition real_value :: "string \<Rightarrow> rat" where
  "real_value s =
     (let t = unsigned s; whole = takeWhile is_digit t; frac = drop 1 (dropWhile is_digit t)
      in (if negative s then -1 else 1) * of_nat (nat_of_digits (whole @ frac)) / 10 ^ length frac)"

definition real_cell :: "string \<Rightarrow> cell result" where
  "real_cell v = (if real_text (strip v) then Inr (Real_cell (real_value (strip v))) else Inl ValueError)"

definition convert_cell :: "string option \<times> column_type \<Rightarrow> cell result" where
  "convert_cell vk =
     (let v = cell_text (fst vk) in
      if strip v = [] then Inr Null
      else case snd vk of Integer_column \<Rightarrow> int_cell v | Real_column \<Rightarrow> real_cell v | Text_column \<Rightarrow> Inr (Text_cell v))"

text \<open>SQLite takes integers of 64 bits.\<close>

definition bound_cell :: "cell \<Rightarrow> cell result" where
  "bound_cell c = (case c of Int_cell i \<Rightarrow> if - (2 ^ 63) \<le> i \<and> i < 2 ^ 63 then Inr c else Inl OverflowError | _ \<Rightarrow> Inr c)"

section \<open>A query\<close>

record table =
  tb_name :: string
  tb_columns :: "(string \<times> column_type) list"
  tb_rows :: "cell list list"

record sql_engine =
  se_create :: "table list \<Rightarrow> string \<Rightarrow> (string \<times> column_type) list \<Rightarrow> py_error option"
  se_select :: "table list \<Rightarrow> string \<Rightarrow> (string list \<times> cell list list) result"

text \<open>One file: its stem and the rows the CSV reader gives, the first of which names the names.\<close>

definition load_table :: "sql_engine \<Rightarrow> table list \<Rightarrow> string \<times> string list list \<Rightarrow> table result" where
  "load_table db ts file =
     (let (stem, lines) = file; names = (case lines of [] \<Rightarrow> [] | f # fs \<Rightarrow> f) in
      if names = [] then Inl ValueError
      else let rows = raw_rows names (tl lines); types = column_types (length names) rows;
               columns = zip (map column_name (enumerate 1 names)) types
        in guard_r (se_create db ts (table_name stem) columns)
             (bind_r (map_r (\<lambda>r. map_r convert_cell (zip r types)) rows) (\<lambda>cells.
              bind_r (map_r (map_r bound_cell) cells) (\<lambda>stored.
                Inr \<lparr>tb_name = table_name stem, tb_columns = columns, tb_rows = stored\<rparr>))))"

fun load_tables :: "sql_engine \<Rightarrow> (string \<Rightarrow> (string \<times> string list list) result) \<Rightarrow> table list \<Rightarrow> string list \<Rightarrow> table list result" where
  "load_tables db read ts [] = Inr ts"
| "load_tables db read ts (f # fs) =
     bind_r (read f) (\<lambda>file. bind_r (load_table db ts file) (\<lambda>t. load_tables db read (ts @ [t]) fs))"

record query_answer =
  qa_tables :: "table list"
  qa_columns :: "string list"
  qa_rows :: "(string \<times> cell) list list"
  qa_count :: nat
  qa_truncated :: bool

definition answer_row :: "string list \<Rightarrow> cell list \<Rightarrow> (string \<times> cell) list" where
  "answer_row columns row = fold (\<lambda>(k, v). dput k v) (zip columns row) []"

definition query_csv ::
  "sql_engine \<Rightarrow> (string \<Rightarrow> (string \<times> string list list) result) \<Rightarrow> string list \<Rightarrow> string \<Rightarrow> query_answer result" where
  "query_csv db read files sql =
     (let s = strip sql in
      if \<not> read_only s then Inl ValueError
      else bind_r (load_tables db read [] files) (\<lambda>ts.
           bind_r (se_select db ts s) (\<lambda>(columns, found).
             let rows = map (answer_row columns) (take 201 found) in
             Inr \<lparr>qa_tables = ts, qa_columns = columns, qa_rows = take 200 rows, qa_count = min (length rows) 200,
               qa_truncated = (length rows > 200)\<rparr>)))"

section \<open>Pages\<close>

text \<open>What the HTML parser calls: an attribute without a value has none.\<close>

datatype html_event = Open_tag string "(string \<times> string option) list" | Close_tag string | Data string

record extractor =
  ex_parts :: "string list"
  ex_skip :: nat

definition hidden_tags :: "string list" where
  "hidden_tags = [''script'', ''style'', ''noscript'', ''svg'']"

definition breaking_tags :: "string list" where
  "breaking_tags = [''p'', ''br'', ''li'', ''h1'', ''h2'', ''h3'', ''h4'', ''tr'']"

definition extract_one :: "html_event \<Rightarrow> extractor \<Rightarrow> extractor" where
  "extract_one e x =
     (case e of
        Open_tag t attrs \<Rightarrow>
          x\<lparr>ex_skip := ex_skip x + (if t \<in> set hidden_tags then 1 else 0),
            ex_parts := ex_parts x @ (if t \<in> set breaking_tags then [[CHR 0x0A]] else [])\<rparr>
      | Close_tag t \<Rightarrow> if t \<in> set hidden_tags \<and> ex_skip x \<noteq> 0 then x\<lparr>ex_skip := ex_skip x - 1\<rparr> else x
      | Data d \<Rightarrow> if ex_skip x = 0 \<and> strip d \<noteq> [] then x\<lparr>ex_parts := ex_parts x @ [strip d @ '' '']\<rparr> else x)"

definition extracted :: "html_event list \<Rightarrow> string list" where
  "extracted es = ex_parts (fold extract_one es \<lparr>ex_parts = [], ex_skip = 0\<rparr>)"

text \<open>Blanks and tabs become one blank, three and more line breaks two.\<close>

fun one_blank :: "bool \<Rightarrow> string \<Rightarrow> string" where
  "one_blank gap [] = []"
| "one_blank gap (c # cs) =
     (if c = CHR '' '' \<or> c = CHR 0x09 then (if gap then one_blank True cs else CHR '' '' # one_blank True cs)
      else c # one_blank False cs)"

fun two_breaks :: "nat \<Rightarrow> string \<Rightarrow> string" where
  "two_breaks n [] = []"
| "two_breaks n (c # cs) =
     (if c = CHR 0x0A then (if n \<ge> 2 then two_breaks n cs else c # two_breaks (n + 1) cs) else c # two_breaks 0 cs)"

definition page_text :: "(string \<Rightarrow> string) \<Rightarrow> html_event list \<Rightarrow> string" where
  "page_text unescape es = strip (two_breaks 0 (one_blank False (unescape (concat (extracted es)))))"

record web_response =
  wr_status :: int
  wr_url :: string
  wr_type :: string
  wr_text :: string

record fetched_page =
  fp_url :: string
  fp_status :: int
  fp_type :: string
  fp_text :: string
  fp_truncated :: bool

text \<open>\<open>fetch_url\<close>: \<open>scheme\<close> is \<open>urlparse\<close>'s, \<open>parse\<close> the HTML parser's. A status from 400 on raises.\<close>

definition fetch_url ::
  "(string \<Rightarrow> string result) \<Rightarrow> (string \<Rightarrow> html_event list) \<Rightarrow> (string \<Rightarrow> string) \<Rightarrow> nat \<Rightarrow> string \<Rightarrow> web_response result \<Rightarrow>
   fetched_page result" where
  "fetch_url scheme parse unescape cap url response =
     bind_r (scheme url) (\<lambda>s.
       if s \<notin> {''http'', ''https''} then Inl ValueError
       else bind_r response (\<lambda>r.
         if wr_status r \<ge> 400 then Inl OSError
         else let t = (if contains ''html'' (wr_type r) then page_text unescape (parse (wr_text r)) else wr_text r)
           in Inr \<lparr>fp_url = wr_url r, fp_status = wr_status r, fp_type = wr_type r, fp_text = take cap t,
                fp_truncated = (length t > cap)\<rparr>))"

section \<open>Searching\<close>

record hit =
  ht_title :: string
  ht_url :: string
  ht_snippet :: string

text \<open>The reader of the result page: the hits and which one is being read.\<close>

record page_reader =
  pr_hits :: "hit list"
  pr_current :: "nat option"

definition class_of :: "(string \<times> string option) list \<Rightarrow> string result" where
  "class_of attrs = (case dget (rev attrs) ''class'' of None \<Rightarrow> Inr [] | Some None \<Rightarrow> Inl TypeError | Some (Some c) \<Rightarrow> Inr c)"

text \<open>\<open>target\<close> gives a link's address. The class is only looked at on links and divisions; one without a value is no text, so \<open>in\<close>
  raises.\<close>

definition read_tag ::
  "(string option \<Rightarrow> string result) \<Rightarrow> string \<Rightarrow> (string \<times> string option) list \<Rightarrow> page_reader \<Rightarrow> page_reader result" where
  "read_tag target t attrs x =
     (if t \<notin> {''a'', ''div''} then Inr x
      else bind_r (class_of attrs) (\<lambda>c.
        if t = ''a'' \<and> contains ''result__a'' c then
          bind_r (target (dget_or (rev attrs) ''href'' (Some []))) (\<lambda>u.
            Inr \<lparr>pr_hits = pr_hits x @ [\<lparr>ht_title = [], ht_url = u, ht_snippet = []\<rparr>], pr_current = Some (length (pr_hits x))\<rparr>)
        else if contains ''result__snippet'' c \<and> pr_hits x \<noteq> [] then Inr (x\<lparr>pr_current := Some (length (pr_hits x) - 1)\<rparr>)
        else Inr x))"

definition add_text :: "string \<Rightarrow> hit \<Rightarrow> hit" where
  "add_text d h =
     (if ht_title h = [] then h\<lparr>ht_title := strip (ht_title h @ '' '' @ strip d)\<rparr>
      else h\<lparr>ht_snippet := strip (ht_snippet h @ '' '' @ strip d)\<rparr>)"

definition read_event :: "(string option \<Rightarrow> string result) \<Rightarrow> html_event \<Rightarrow> page_reader \<Rightarrow> page_reader result" where
  "read_event target e x =
     (case e of
        Open_tag t attrs \<Rightarrow> read_tag target t attrs x
      | Close_tag t \<Rightarrow> Inr x
      | Data d \<Rightarrow>
          (case pr_current x of
             Some i \<Rightarrow> if strip d = [] then Inr x else Inr (x\<lparr>pr_hits := (pr_hits x)[i := add_text d (pr_hits x ! i)]\<rparr>)
           | None \<Rightarrow> Inr x))"

definition page_hits :: "(string option \<Rightarrow> string result) \<Rightarrow> html_event list \<Rightarrow> hit list result" where
  "page_hits target es =
     bind_r (fold_r (read_event target) es \<lparr>pr_hits = [], pr_current = None\<rparr>) (\<lambda>x. Inr (pr_hits x))"

text \<open>The client's rows, as dicts of texts.\<close>

definition client_hits :: "(string \<times> string) list list \<Rightarrow> hit list" where
  "client_hits rows =
     map (\<lambda>r. \<lparr>ht_title = strip (dget_or r ''title'' []), ht_url = strip (dget_or r ''href'' []), ht_snippet = strip (dget_or r ''body'' [])\<rparr>)
       (filter (\<lambda>r. startswith (dget_or r ''href'' []) ''http://'' \<or> startswith (dget_or r ''href'' []) ''https://'') rows)"

record search_answer =
  sa_hits :: "hit list"
  sa_backend :: "string option"
  sa_errors :: nat

definition wanted :: "int \<Rightarrow> nat" where
  "wanted n = nat (max 1 (min n 5))"

text \<open>\<open>web_search\<close>: the client's rows for so many results, then the result page; it never raises.\<close>

definition web_search ::
  "(string option \<Rightarrow> string result) \<Rightarrow> (nat \<Rightarrow> (string \<times> string) list list result) \<Rightarrow> html_event list result \<Rightarrow> int \<Rightarrow> search_answer" where
  "web_search target client html n =
     (let m = wanted n; first = bind_r (client m) (\<lambda>rows. Inr (client_hits rows)) in
      case first of
        Inr (h # hs) \<Rightarrow> \<lparr>sa_hits = h # hs, sa_backend = Some ''ddgs'', sa_errors = 0\<rparr>
      | _ \<Rightarrow>
          (case bind_r html (page_hits target) of
             Inl e \<Rightarrow> \<lparr>sa_hits = [], sa_backend = None, sa_errors = 2\<rparr>
           | Inr found \<Rightarrow>
               (let hs = take m (filter (\<lambda>h. ht_url h \<noteq> []) found) in
                \<lparr>sa_hits = hs, sa_backend = Some ''duckduckgo-html'', sa_errors = (if hs = [] then 2 else 1)\<rparr>)))"

section \<open>What the tables and pages promise\<close>

text \<open>
  What \<open>query_csv\<close> promises of the tables it builds and of its answers, what the page readers keep, and where they read too
  much or too little.
\<close>

section \<open>Types of columns\<close>

definition cell_fits :: "column_type \<Rightarrow> cell \<Rightarrow> bool" where
  "cell_fits k c =
     (case c of Null \<Rightarrow> True
      | Int_cell i \<Rightarrow> k = Integer_column \<and> - (2 ^ 63) \<le> i \<and> i < 2 ^ 63
      | Real_cell q \<Rightarrow> k = Real_column
      | Text_cell s \<Rightarrow> k = Text_column \<and> strip s \<noteq> [])"

lemma converted_cell_fits:
  "convert_cell (v, k) = Inr c \<Longrightarrow> bound_cell c = Inr c' \<Longrightarrow> c' = c \<and> cell_fits k c"
  by (auto simp: convert_cell_def int_cell_def real_cell_def bound_cell_def cell_fits_def Let_def
      split: column_type.splits cell.splits if_splits)

lemma stored_row_fits:
  assumes "map_r convert_cell (zip r ks) = Inr cs" and "map_r bound_cell cs = Inr ds" and "length r = length ks"
  shows "length ds = length ks \<and> (\<forall>i < length ks. cell_fits (ks ! i) (ds ! i))"
proof -
  have a: "list_all2 (\<lambda>x y. convert_cell x = Inr y) (zip r ks) cs" "list_all2 (\<lambda>x y. bound_cell x = Inr y) cs ds"
    using assms(1,2) by (auto dest: map_r_all2)
  then have l: "length cs = length ks" "length ds = length ks" 
    using list_all2_lengthD [OF a(1)] list_all2_lengthD [OF a(2)] assms(3) by simp_all
  have "cell_fits (ks ! i) (ds ! i)" if i: "i < length ks" for i
  proof -
    have "convert_cell (r ! i, ks ! i) = Inr (cs ! i)" "bound_cell (cs ! i) = Inr (ds ! i)"
      using a l i assms(3) by (auto simp: list_all2_conv_all_nth)
    from converted_cell_fits [OF this] show ?thesis by simp
  qed
  with l show ?thesis by blast
qed

lemma raw_row_length [simp]: "length (raw_row names r) = length names"
  by (simp add: raw_row_def)

lemma column_types_length [simp]: "length (column_types n rows) = n"
  by (simp add: column_types_def)

text \<open>C40: A table that was loaded is rectangular and typed: every row has a cell for every column, and every cell is empty or of the
  column's type, an integer fitting into the 64 bits the database has.\<close>

theorem loaded_table_is_typed:
  assumes "load_table db ts file = Inr t" and "row \<in> set (tb_rows t)"
  shows "length row = length (tb_columns t) \<and> (\<forall>i < length row. cell_fits (snd (tb_columns t ! i)) (row ! i))"
proof -
  obtain stem lines where f: "file = (stem, lines)" by fastforce
  define names where "names = (case lines of [] \<Rightarrow> [] | f # fs \<Rightarrow> f)"
  define rows where "rows = raw_rows names (tl lines)"
  define ks where "ks = column_types (length names) rows"
  from assms(1) obtain cells stored where c: "map_r (\<lambda>r. map_r convert_cell (zip r ks)) rows = Inr cells"
    "map_r (map_r bound_cell) cells = Inr stored" "tb_rows t = stored" "tb_columns t = zip (map column_name (enumerate 1 names)) ks"
    by (auto simp: load_table_def f names_def [symmetric] rows_def [symmetric] ks_def [symmetric] Let_def guard_r_Inr bind_r_Inr
        split: if_splits)
  have a: "list_all2 (\<lambda>r cs. map_r convert_cell (zip r ks) = Inr cs) rows cells" "list_all2 (\<lambda>cs ds. map_r bound_cell cs = Inr ds) cells stored"
    using c(1,2) by (auto dest: map_r_all2)
  from assms(2) c(3) obtain i where i: "i < length stored" "row = stored ! i" by (auto simp: in_set_conv_nth)
  then have "map_r convert_cell (zip (rows ! i) ks) = Inr (cells ! i)" "map_r bound_cell (cells ! i) = Inr row" "rows ! i \<in> set rows"
    using a by (auto simp: list_all2_conv_all_nth)
  moreover have "length (rows ! i) = length ks" using calculation(3) by (auto simp: rows_def raw_rows_def ks_def)
  moreover have "length ks = length (tb_columns t)" "snd (tb_columns t ! j) = ks ! j" if "j < length ks" for j
    using that by (auto simp: c(4) ks_def)
  moreover have "length (tb_columns t) = length ks" by (simp add: c(4) ks_def)
  ultimately show ?thesis using stored_row_fits by metis
qed

text \<open>A file with an integer column, a real column, an empty cell and a short row.\<close>

definition any_engine :: sql_engine where
  "any_engine = \<lparr>se_create = (\<lambda>ts n cs. None), se_select = (\<lambda>ts s. Inr (map fst (concat (map tb_columns ts)), concat (map tb_rows ts)))\<rparr>"

definition sales :: "string \<times> string list list" where
  "sales = (''sales'', [[''unit price'', ''n''], [''1.50'', ''7''], [], ['' '', ''-3''], [''2'', ''10'', ''extra'']])"

lemma loaded_table_is_typed_witness:
  "\<exists>t. load_table any_engine [] sales = Inr t \<and> tb_columns t = [(''unit_price'', Real_column), (''n'', Integer_column)] \<and>
     tb_rows t = [[Real_cell (3 / 2), Int_cell 7], [Null, Int_cell (-3)], [Real_cell 2, Int_cell 10]] \<and>
     cell_fits Integer_column (Int_cell 7)"
proof -
  have "load_table any_engine [] sales = Inr \<lparr>tb_name = ''sales'', tb_columns = [(''unit_price'', Real_column), (''n'', Integer_column)],
      tb_rows = [[Real_cell (3 / 2), Int_cell 7], [Null, Int_cell (-3)], [Real_cell 2, Int_cell 10]]\<rparr>" (is "_ = Inr ?t")
    by code_simp
  moreover from loaded_table_is_typed [OF this, of "[Real_cell (3 / 2), Int_cell 7]"] have "cell_fits Integer_column (Int_cell 7)"
    by (auto dest: spec [of _ 1])
  ultimately show ?thesis by (intro exI [of _ ?t]) simp
qed

section \<open>Answers\<close>

text \<open>\<open>query_csv\<close> runs a statement only when it is one query without a word that writes; the answer has at most 200
  rows, counts them, and says so when there were more.\<close>

lemma query_is_read_only_and_bounded:
  assumes "query_csv db read files sql = Inr a"
  shows "\<exists>ts columns found. load_tables db read [] files = Inr ts \<and> se_select db ts (strip sql) = Inr (columns, found) \<and>
    qa_count a = length (qa_rows a) \<and> qa_rows a = map (answer_row columns) (take 200 found) \<and>
    (qa_truncated a \<longleftrightarrow> length found > 200) \<and>
    set (sql_words (strip sql)) \<inter> set writing_words = {} \<and> CHR '';'' \<notin> set (unended (strip sql))"
proof -
  from assms obtain ts columns found where "read_only (strip sql)" and r: "load_tables db read [] files = Inr ts"
    "se_select db ts (strip sql) = Inr (columns, found)"
    "a = \<lparr>qa_tables = ts, qa_columns = columns, qa_rows = take 200 (map (answer_row columns) (take 201 found)),
       qa_count = min (length (map (answer_row columns) (take 201 found))) 200,
       qa_truncated = length (map (answer_row columns) (take 201 found)) > 200\<rparr>"
    by (auto simp: query_csv_def Let_def bind_r_Inr split: if_splits)
  then show ?thesis by (auto simp: read_only_def list_all_iff take_map min_def)
qed

lemma query_is_read_only_and_bounded_witness:
  "\<exists>a. query_csv any_engine (\<lambda>f. Inr sales) [''sales.csv''] '' SELECT * FROM sales; '' = Inr a \<and> qa_count a = 3 \<and> \<not> qa_truncated a"
proof -
  let ?q = "query_csv any_engine (\<lambda>f. Inr sales) [''sales.csv''] '' SELECT * FROM sales; ''"
  have "case ?q of Inl e \<Rightarrow> False | Inr a \<Rightarrow> length (qa_rows a) = 3 \<and> \<not> qa_truncated a" by code_simp
  then obtain a where a: "?q = Inr a" "length (qa_rows a) = 3" "\<not> qa_truncated a" by (auto split: sum.splits)
  then have "qa_count a = 3" using query_is_read_only_and_bounded [OF a(1)] by auto
  with a show ?thesis by blast
qed

text \<open>Words are refused wherever they stand: reading queries that call the function \<open>replace\<close> or compare with the text
  \<open>delete\<close>.\<close>

lemma reading_queries_are_refused:
  "\<not> read_only ''select replace(name, 1, 2) from t'' \<and> \<not> read_only ''select count(*) from log where action = delete'' \<and>
   read_only ''select count(*) from log where action = 1''"
  by code_simp

text \<open>A row that is short gives the text \<open>None\<close>: one such row makes a column of numbers a column of texts.\<close>

lemma short_row_is_None:
  "map_sum id (\<lambda>t. (tb_columns t, tb_rows t)) (load_table any_engine [] (''t'', [[''a'', ''n''], [''x'', ''1''], [''y'']])) =
     Inr ([(''a'', Text_column), (''n'', Text_column)],
          [[Text_cell ''x'', Text_cell ''1''], [Text_cell ''y'', Text_cell ''None'']])"
  by code_simp

text \<open>An identifier of twenty digits is an integer to the reader and too large for the database: the file cannot be queried at all.\<close>

lemma long_identifier_stops_the_query:
  "load_table any_engine [] (''t'', [[''id''], [''12345678901234567890'']]) = Inl OverflowError"
proof -
  have s: "strip ''12345678901234567890'' = ''12345678901234567890''" "integer_text ''12345678901234567890''"
    "unsigned ''12345678901234567890'' = ''12345678901234567890''" "\<not> negative ''12345678901234567890''" by code_simp+
  have "nat_of_digits ''12345678901234567890'' = 12345678901234567890"
    by (simp add: nat_of_digits_def digit_value_def)
  with s have c: "convert_cell (Some ''12345678901234567890'', Integer_column) = Inr (Int_cell 12345678901234567890)"
    by (simp add: convert_cell_def cell_text_def int_cell_def Let_def)
  have r: "raw_rows [''id''] [[''12345678901234567890'']] = [[Some ''12345678901234567890'']]"
    "column_types 1 [[Some ''12345678901234567890'']] = [Integer_column]" by code_simp+
  then have "column_types (length [''id'']) [[Some ''12345678901234567890'']] = [Integer_column]" by simp
  then show ?thesis using r c by (simp add: load_table_def any_engine_def map_r_def bound_cell_def Let_def)
qed

text \<open>Columns of one name, as in a join, are one entry of an answer's row.\<close>

lemma joined_columns_collide: "answer_row [''id'', ''id''] [Int_cell 1, Int_cell 2] = [(''id'', Int_cell 2)]"
  by code_simp

section \<open>Pages\<close>

text \<open>A hidden element without nested ones leaves no trace in what is read, but the line breaks it holds.\<close>

lemma skipped_events:
  "0 < ex_skip x \<Longrightarrow> list_all (\<lambda>e. case e of Open_tag t attrs \<Rightarrow> t \<notin> set hidden_tags \<and> t \<notin> set breaking_tags
     | Close_tag t \<Rightarrow> t \<notin> set hidden_tags | Data d \<Rightarrow> True) body \<Longrightarrow> fold extract_one body x = x"
proof (induction body)
  case (Cons e body)
  then have "extract_one e x = x" by (cases e) (simp_all add: extract_one_def)
  with Cons show ?case by simp
qed simp

lemma hidden_element_is_not_read:
  assumes "t \<in> set hidden_tags" and "list_all (\<lambda>e. case e of Open_tag t attrs \<Rightarrow> t \<notin> set hidden_tags \<and> t \<notin> set breaking_tags
     | Close_tag t \<Rightarrow> t \<notin> set hidden_tags | Data d \<Rightarrow> True) body"
  shows "extracted (xs @ [Open_tag t attrs] @ body @ [Close_tag t] @ ys) = extracted (xs @ ys)"
proof -
  have "t \<notin> set breaking_tags" using assms(1) by (auto simp: hidden_tags_def breaking_tags_def)
  then show ?thesis using assms
    by (simp add: extracted_def skipped_events extract_one_def [of "Open_tag t attrs"] extract_one_def [of "Close_tag t"])
qed

text \<open>A hidden element that is never closed hides the rest of the page.\<close>

lemma open_element_hides_the_rest:
  "extracted [Data ''a'', Open_tag ''svg'' [], Open_tag ''p'' [], Data ''b'', Close_tag ''p'', Data ''c''] = [''a '', [CHR 0x0A]]"
  by code_simp

section \<open>Searching\<close>

lemma fallback_is_bounded:
  "sa_backend (web_search target client html n) \<noteq> Some ''ddgs'' \<Longrightarrow> length (sa_hits (web_search target client html n)) \<le> wanted n \<and> wanted n \<le> 5"
  by (auto simp: web_search_def wanted_def Let_def split: sum.splits list.splits)

text \<open>The reader never leaves a hit: everything the page says after the last one is its snippet.\<close>

lemma last_hit_takes_the_rest:
  "page_hits (\<lambda>u. Inr (case u of None \<Rightarrow> [] | Some s \<Rightarrow> s))
     [Open_tag ''a'' [(''class'', Some ''result__a''), (''href'', Some ''http://h'')], Data ''Title'', Close_tag ''a'',
      Open_tag ''footer'' [], Data ''Next page'', Close_tag ''footer''] =
     Inr [\<lparr>ht_title = ''Title'', ht_url = ''http://h'', ht_snippet = ''Next page''\<rparr>]"
  by code_simp

text \<open>One division whose class has no value loses every hit of the page.\<close>

lemma bare_class_loses_every_hit:
  "sa_hits (web_search target (\<lambda>m. Inr []) (Inr (es @ [Open_tag ''div'' [(''class'', None)]])) n) = []"
proof -
  have "fold_r (read_event target) (es @ [Open_tag ''div'' [(''class'', None)]]) x = Inr y \<Longrightarrow> False" for x y
    by (induction es arbitrary: x) (auto simp: read_event_def read_tag_def class_of_def bind_r_Inr)
  then obtain e where "page_hits target (es @ [Open_tag ''div'' [(''class'', None)]]) = Inl e"
    unfolding page_hits_def by (cases "fold_r (read_event target) (es @ [Open_tag ''div'' [(''class'', None)]]) \<lparr>pr_hits = [], pr_current = None\<rparr>") auto
  then show ?thesis by (simp add: web_search_def client_hits_def Let_def)
qed

end
