(* ===== verification/Service.thy ===== *)
theory Service
  imports A2a_Bridge Ui_Surface Runtime Gateway Channel Runtime_Workers A2a_Trust
begin

text \<open>
  The service as it is put together (\<open>main.py\<close>) and the pages it serves (\<open>ui/routes.py\<close>): the agent card it advertises and the
  tokens behind it, what an inbound agent's task becomes, and the routes that build, check and serve surfaces. Signing, process
  start-up and reading files are left out; the client's page is an argument.
\<close>

section \<open>The agent card\<close>

definition secrets :: "(string \<Rightarrow> string option) \<Rightarrow> string \<Rightarrow> string list" where
  "secrets env name = filter (\<lambda>s. s \<noteq> []) (map strip (split_on (CHR '','') (env_or env name [])))"

definition base_url :: "(string \<Rightarrow> string option) \<Rightarrow> string \<Rightarrow> string" where
  "base_url env port = rev (dropWhile (\<lambda>c. c = CHR ''/'') (rev (env_or env ''S17_BASE_URL'' (''http://127.0.0.1:'' @ port))))"

definition interface_json :: "string \<Rightarrow> string \<Rightarrow> json" where
  "interface_json url binding = JObj [(''url'', JStr url), (''protocolBinding'', JStr binding), (''protocolVersion'', JStr ''1.0'')]"

definition required_scheme :: "string \<Rightarrow> json" where
  "required_scheme name = JObj [(''schemes'', JObj [(name, JObj [(''list'', JList [])])])]"

definition bearer_scheme :: "string \<times> json" where
  "bearer_scheme = (''bearer'', JObj [(''httpAuthSecurityScheme'', JObj [(''description'', JStr ''A2A bearer token''), (''scheme'', JStr ''bearer'')])])"

definition api_key_scheme :: "string \<times> json" where
  "api_key_scheme = (''apiKey'', JObj [(''apiKeySecurityScheme'',
     JObj [(''description'', JStr ''A2A API key''), (''location'', JStr ''header''), (''name'', JStr ''X-API-Key'')])])"

text \<open>The schemes there are secrets for.\<close>

definition offered_schemes :: "string list \<Rightarrow> string list \<Rightarrow> obj" where
  "offered_schemes bearers keys = (if bearers = [] then [] else [bearer_scheme]) @ (if keys = [] then [] else [api_key_scheme])"

definition service_card :: "string \<Rightarrow> string \<Rightarrow> string list \<Rightarrow> string list \<Rightarrow> obj" where
  "service_card base grpc_port bearers keys =
     [(''name'', JStr ''S17 general live-graph agent''),
      (''description'', JStr ''Capability-driven outcome planning, scoped memory, semantic indexing and A2A delegation''),
      (''version'', JStr ''0.2.0''),
      (''supportedInterfaces'', JList [interface_json (base @ ''/a2a'') ''JSONRPC'', interface_json (''dns:///127.0.0.1:'' @ grpc_port) ''GRPC'']),
      (''capabilities'', JObj [(''streaming'', JBool True), (''pushNotifications'', JBool True)]),
      (''defaultInputModes'', JList [JStr ''text/plain'']), (''defaultOutputModes'', JList [JStr ''text/plain'', JStr ''application/json'']),
      (''skills'', JList [JObj [(''id'', JStr ''grounded-answer''), (''name'', JStr ''Grounded answer''),
         (''description'', JStr ''Runs a live graph over explicitly scoped evidence.''),
         (''tags'', JList (map JStr [''live-graph'', ''memory'', ''semantic-chunking'', ''budget-aware'']))]])] @
     (let schemes = offered_schemes bearers keys in
      if schemes = [] then []
      else [(''securitySchemes'', JObj schemes), (''securityRequirements'', JList (map (\<lambda>s. required_scheme (fst s)) schemes))])"

definition service_config :: "string list \<Rightarrow> string list \<Rightarrow> nat \<Rightarrow> a2a_config" where
  "service_config bearers keys attempts =
     \<lparr>ac_tokens = bearers, ac_keys = keys, ac_callback = False, ac_http = True, ac_handler = True, ac_attempts = attempts\<rparr>"

text \<open>\<open>handle_a2a_task\<close>: the request an inbound text becomes, and its answer from the run's result.\<close>

definition inbound_request :: "string \<Rightarrow> run_request" where
  "inbound_request txt =
     \<lparr>rq_prompt = Some txt,
      rq_scope = Some \<lparr>sc_tenant = ''a2a'', sc_project = Some ''inbound'', sc_user = Some ''remote-agent'', sc_agent = Some ''s17code'', sc_run = None\<rparr>,
      rq_source_uri = Some ''a2a://inbound/task'', rq_source_author = Some ''remote-agent'', rq_respond_as = ''text'', rq_allowed = [],
      rq_evidence = [], rq_budget = None, rq_principal = None, rq_transport = False, rq_llm = True\<rparr>"

definition inbound_answer :: "obj \<Rightarrow> json result" where
  "inbound_answer result =
     (if jget result ''status'' \<noteq> JStr ''completed'' then Inl RuntimeError
      else case dget result ''answer'' of None \<Rightarrow> Inl KeyError | Some v \<Rightarrow> Inr v)"

section \<open>Surfaces\<close>

definition rejection_json :: "rejection \<Rightarrow> json" where
  "rejection_json r = JObj [(''component_id'', rj_component r), (''field'', JStr (rj_field r)), (''invariant'', JStr (rj_invariant r))]"

definition read_run :: "(string \<Rightarrow> string) \<Rightarrow> graph_store \<Rightarrow> string \<Rightarrow> snapshot result" where
  "read_run path_of gs rid =
     (case snapshot_run path_of gs rid of Inl e \<Rightarrow> Inl (if e = KeyError then HTTPException 404 else e) | Inr s \<Rightarrow> Inr s)"

definition surface_route :: "(string \<Rightarrow> string) \<Rightarrow> graph_store \<Rightarrow> string \<Rightarrow> obj result" where
  "surface_route path_of gs rid =
     bind_r (read_run path_of gs rid) (\<lambda>s.
       let built = build_run_surface s in
       bind_r (validate_surface built) (\<lambda>(accepted, rejections).
         Inr [(''run_id'', JStr rid),
              (''surface'', JObj [(''root'', jget built ''root''), (''components'', JList (map JObj accepted)), (''dataModel'', jget built ''dataModel'')]),
              (''rejections'', JList (map rejection_json rejections))]))"

definition validate_route :: "obj \<Rightarrow> obj result" where
  "validate_route surface =
     bind_r (validate_surface surface) (\<lambda>(accepted, rejections).
       Inr [(''ok'', JBool (rejections = [])), (''accepted'', JList (map (\<lambda>c. jget c ''id'') accepted)),
            (''rejections'', JList (map rejection_json rejections))])"

text \<open>\<open>/composed\<close> reads the node named \<open>surface\<close>, whatever made it.\<close>

definition composed_result :: "(string \<times> gnode) list \<Rightarrow> obj" where
  "composed_result nodes = (case dget nodes ''surface'' of None \<Rightarrow> [] | Some n \<Rightarrow> result_or_empty n)"

definition composed_route :: "(string \<Rightarrow> string) \<Rightarrow> graph_store \<Rightarrow> string \<Rightarrow> obj result" where
  "composed_route path_of gs rid =
     bind_r (read_run path_of gs rid) (\<lambda>s.
     let res = composed_result (sn_nodes s) in
     bind_r (as_record (or_else (jget res ''surface'') (JObj []))) (\<lambda>surf.
       if \<not> truthy (jget surf ''components'') then Inl (HTTPException 404)
       else bind_r (validate_surface surf) (\<lambda>(accepted, rejections).
         Inr [(''run_id'', JStr rid), (''finished'', JBool (sn_finished s)),
              (''surface'', JObj [(''root'', jget surf ''root''), (''components'', JList (map JObj accepted)),
                 (''dataModel'', or_else (jget res ''data_model'') (or_else (jget surf ''dataModel'') (JObj [])))]),
              (''component_count'', JInt (int (length accepted))), (''clean'', JBool (rejections = [])),
              (''provider'', jget res ''provider''), (''model'', jget res ''model'')])))"

text \<open>The client's page: every occurrence of the mark becomes the run's name, as it was given.\<close>

definition run_mark :: string where
  "run_mark = ''__RUN_ID__''"

function page_for :: "string \<Rightarrow> string \<Rightarrow> string" where
  "page_for rid [] = []"
| "page_for rid (c # cs) =
     (if startswith (c # cs) run_mark then rid @ page_for rid (drop (length run_mark) (c # cs)) else c # page_for rid cs)"
  by pat_completeness auto
termination by (relation "measure (\<lambda>(rid, s). length s)") (auto simp: run_mark_def)

section \<open>What is advertised holds\<close>

lemma card_fields:
  "dget (service_card base port bearers keys) ''supportedInterfaces'' =
     Some (JList [interface_json (base @ ''/a2a'') ''JSONRPC'', interface_json (''dns:///127.0.0.1:'' @ port) ''GRPC''])"
  "dget (service_card base port bearers keys) ''securityRequirements'' =
     (if bearers = [] \<and> keys = [] then None else Some (JList (map (\<lambda>s. required_scheme (fst s)) (offered_schemes bearers keys))))"
  by (simp_all add: service_card_def offered_schemes_def Let_def)

lemma own_interface_chosen:
  "dget agent ''supportedInterfaces'' = Some (JList [interface_json u ''JSONRPC'', interface_json v ''GRPC'']) \<Longrightarrow>
   negotiate_interface (\<lambda>c. True) str_of [''JSONRPC''] [''1.0''] agent =
     Inr [(''url'', JStr u), (''protocolBinding'', JStr ''JSONRPC''), (''protocolVersion'', JStr ''1.0'')]"
  by (simp add: negotiate_interface_def interface_json_def each_of_def as_record_def acceptable_def interface_text_def printed_def
      dget_or_def upper_char_def map_r_def Let_def)

text \<open>The card is true of the server behind it: it demands a scheme exactly if the server refuses the anonymous, it names the
  schemes there are credentials for, a bearer of one of the tokens is let in, and a client speaking JSON-RPC 1.0 negotiates the
  service's own address from it.\<close>

lemma card_tells_the_gate:
  "(dget (service_card base port bearers keys) ''securityRequirements'' = None) = rpc_allowed (service_config bearers keys n) [] [] \<and>
   (dget (offered_schemes bearers keys) ''bearer'' = None) = (bearers = []) \<and>
   (dget (offered_schemes bearers keys) ''apiKey'' = None) = (keys = []) \<and>
   rpc_allowed (service_config (t # bearers) keys n) (''Bearer '' @ t) [] = (t \<noteq> []) \<and>
   negotiate_interface (\<lambda>c. True) str_of [''JSONRPC''] [''1.0''] (service_card base port bearers keys) =
     Inr [(''url'', JStr (base @ ''/a2a'')), (''protocolBinding'', JStr ''JSONRPC''), (''protocolVersion'', JStr ''1.0'')]"
proof -
  have "lower (''Bearer '' @ t) = ''bearer '' @ lower t"
  proof -
    have "lower ''Bearer '' = ''bearer ''" by code_simp
    then show ?thesis by (simp add: lower_def)
  qed
  then have "bearer_of (''Bearer '' @ t) = t" by (simp add: bearer_of_def startswith_def)
  moreover have "bearer_of [] = []" by (simp add: bearer_of_def startswith_def lower_def)
  ultimately show ?thesis
    using own_interface_chosen [OF card_fields(1)]
    by (simp add: card_fields(2) rpc_allowed_def service_config_def offered_schemes_def bearer_scheme_def api_key_scheme_def)
qed

text \<open>Without secrets the door is open, and what comes in starts a run.\<close>

lemma unset_secrets_open_the_door:
  "secrets (\<lambda>n. None) ''S17_A2A_BEARER_TOKENS'' = [] \<and> rpc_allowed (service_config [] [] n) authorization key"
  by (simp add: secrets_def env_or_def rpc_allowed_def service_config_def strip_def lstrip_def rstrip_def)

text \<open>A run that is parked on an approval or a job is a failure of the task that asked for it.\<close>

lemma parked_run_fails_the_task: "inbound_answer [(''status'', JStr ''waiting''), (''answer'', JStr [])] = Inl RuntimeError"
  by (simp add: inbound_answer_def jget_def dget_or_def)

text \<open>A surface composed by a node of any other name is not found.\<close>

lemma composed_under_another_name_is_missing:
  "read_run path_of gs rid = Inr s \<Longrightarrow> dget (sn_nodes s) ''surface'' = None \<Longrightarrow>
   composed_route path_of gs rid = Inl (HTTPException 404)"
  by (simp add: composed_route_def composed_result_def as_record_def or_else_def jget_def dget_or_def)

text \<open>The run's name is written into the page as it was given, whether or not there is such a run.\<close>

lemma page_carries_markup:
  "page_for ''<script>x</script>'' ''run __RUN_ID__.'' = ''run <script>x</script>.''"
  by (simp add: startswith_def run_mark_def)

section \<open>Runs and memory over HTTP\<close>

text \<open>
  The routes that start runs and reach memory (\<open>routes.py\<close>): the bodies with the bounds their fields declare, the run a posted body
  becomes, and facts, documents and searches. A body that is no such object is refused before these definitions.
\<close>

section \<open>Bodies\<close>

record scope_body =
  sb_tenant :: string
  sb_project :: "string option"
  sb_user :: "string option"
  sb_agent :: "string option"

definition body_scope :: "scope_body \<Rightarrow> memory_scope" where
  "body_scope b = \<lparr>sc_tenant = sb_tenant b, sc_project = sb_project b, sc_user = sb_user b, sc_agent = sb_agent b, sc_run = None\<rparr>"

record run_body = scope_body +
  rb_prompt :: string
  rb_respond_as :: string
  rb_budget :: "rat option"
  rb_principal :: "string option"
  rb_allowed :: "string list"


record index_body = scope_body +
  ib_text :: string
  ib_source_uri :: string
  ib_source_author :: string

record search_body = scope_body +
  qb_query :: string
  qb_limit :: int
  qb_kinds :: "memory_kind list option"

definition text_between :: "nat \<Rightarrow> nat \<Rightarrow> string \<Rightarrow> bool" where
  "text_between low high s = (low \<le> length s \<and> length s \<le> high)"

definition run_body_ok :: "run_body \<Rightarrow> bool" where
  "run_body_ok b =
     (text_between 1 40000 (rb_prompt b) \<and> rb_respond_as b \<in> {''text'', ''ui''} \<and>
      (case rb_budget b of None \<Rightarrow> True | Some x \<Rightarrow> x > 0) \<and>
      (case rb_principal b of None \<Rightarrow> True | Some p \<Rightarrow> length p \<le> 200) \<and> length (rb_allowed b) \<le> 20)"


definition index_body_ok :: "index_body \<Rightarrow> bool" where
  "index_body_ok b = text_between 1 500000 (ib_text b)"


definition checked :: "bool \<Rightarrow> py_error option" where
  "checked b = (if b then None else Some (HTTPException 422))"

section \<open>Starting a run\<close>

definition run_request_of :: "run_body \<Rightarrow> run_request" where
  "run_request_of b =
     \<lparr>rq_prompt = Some (rb_prompt b), rq_scope = Some (body_scope (scope_body.truncate b)), rq_source_uri = Some ''api://agent/runs'',
      rq_source_author = Some (case sb_user b of None \<Rightarrow> ''api-user'' | Some u \<Rightarrow> if u = [] then ''api-user'' else u),
      rq_respond_as = rb_respond_as b, rq_allowed = remdups (rb_allowed b), rq_evidence = [], rq_budget = rb_budget b,
      rq_principal = rb_principal b, rq_transport = True, rq_llm = True\<rparr>"

text \<open>The gate comes before the body's bounds.\<close>

definition run_route :: "(string \<Rightarrow> string option) \<Rightarrow> string option \<Rightarrow> run_body \<Rightarrow> run_request result" where
  "run_route env authorization b =
     guard_r (require_control env authorization) (guard_r (checked (run_body_ok b)) (Inr (run_request_of b)))"

section \<open>Memory\<close>


definition document_route ::
  "(string \<Rightarrow> string) \<Rightarrow> (string \<Rightarrow> bool) \<Rightarrow> chunking \<Rightarrow> (nat \<Rightarrow> string \<times> int) \<Rightarrow> index_body \<Rightarrow> memory \<Rightarrow> index_report result \<times> memory" where
  "document_route sha embeds ck fresh b me =
     (if \<not> index_body_ok b then (Inl (HTTPException 422), me)
      else index_document sha embeds ck (body_scope (scope_body.truncate b)) (ib_source_uri b, ib_source_author b) fresh (ib_text b) me)"

definition body_search :: "search_body \<Rightarrow> int \<Rightarrow> search" where
  "body_search b now =
     \<lparr>se_scope = body_scope (scope_body.truncate b), se_kinds = (case qb_kinds b of None \<Rightarrow> [] | Some ks \<Rightarrow> ks),
      se_limit = nat (qb_limit b), se_history = False, se_neighbors = 0, se_now = now\<rparr>"



section \<open>What a posted run may do\<close>

text \<open>A run that is started over HTTP was started by a holder of the control token, and has the body's authority and no more: its
  side effects, its budget, which is positive, its scope.\<close>

lemma posted_run_has_its_authority:
  assumes "run_route env authorization b = Inr rq"
  shows "require_control env authorization = None \<and> set (rq_allowed rq) = set (rb_allowed b) \<and> length (rq_allowed rq) \<le> 20 \<and>
    rq_budget rq = rb_budget b \<and> (\<forall>x. rq_budget rq = Some x \<longrightarrow> x > 0) \<and> rq_scope rq = Some (body_scope (scope_body.truncate b))"
proof -
  from assms have rq: "require_control env authorization = None" "run_body_ok b" "rq = run_request_of b"
    by (auto simp: run_route_def guard_r_Inr checked_def split: if_splits)
  have "length (rb_allowed b) \<le> 20" using rq(2) by (simp add: run_body_ok_def)
  then have "length (remdups (rb_allowed b)) \<le> 20" using length_remdups_leq order_trans by blast
  moreover have "rq_allowed rq = remdups (rb_allowed b)" "rq_budget rq = rb_budget b" "rq_scope rq = Some (body_scope (scope_body.truncate b))"
    by (simp_all add: rq(3) run_request_of_def)
  moreover have "\<forall>x. rb_budget b = Some x \<longrightarrow> x > 0" using rq(2) by (auto simp: run_body_ok_def)
  ultimately show ?thesis using rq(1) by simp
qed

section \<open>What is remembered is found\<close>






definition alice :: scope_body where
  "alice = \<lparr>sb_tenant = ''t'', sb_project = None, sb_user = Some ''alice'', sb_agent = None\<rparr>"


definition search_posted :: search_body where
  "search_posted = scope_body.extend alice (search_body.fields ''drink'' 5 None)"

definition after_post :: "obj result \<times> memory" where
  "after_post = remember_fact (\<lambda>t. True) (\<lambda>n. (digits n, int n)) (body_scope alice) (''chat://1'', ''user'') (''gateway'', ''gateway'') None
     ''tea, not coffee'' empty_memory"



text \<open>The kinds are the caller's, who needs no token: the audit trail of a scope can be read by naming it.\<close>

lemma search_reads_the_audit_trail:
  "map mm_kind (recall (\<lambda>r. 0) (body_search (search_posted\<lparr>qb_kinds := Some [Audit]\<rparr>) 0) (snd after_post)) = [Audit]"
  by code_simp

end
