(* ===== verification/Spec2Isabelle.thy ===== *)
theory Spec2Isabelle
  imports Econ_Claims Event_Claims Event_Lease Event_Outbox Event_Feed Planner_Claims Coding_Claims Ui_Claims Ui_Live_Claims Runtime_Claims
    Telemetry_Claims Eval_Claims Reasoning_Claims Memory_Chunk_Claims Memory_Claims Sandbox Skill_Claims A2a_Claims A2a_Trust Worker_Claims
    Channel_Claims Gateway Ui_Compose_Claims Econ_Config Calculator Coding_Git Planner_Context A2a_Bridge Dates Runtime_Workers Worker_Calls
    Tool_Queries Service
begin

text \<open>
  S17 is an agent service: a request becomes a run, a run is a directed acyclic graph of tasks that grows
  while it executes, a planner (a language model behind a validation boundary) proposes the growth, workers
  carry the tasks out, and everything the service must remember is a journalled file. This development
  models the program's own core under \<open>src/s17code/\<close> and proves what makes each part correct.

  The parts, in the order in which the theories build on each other:

  \<^item> \<open>Prelude\<close>, \<open>Json\<close>, \<open>Json_Parse\<close>, \<open>Fnmatch\<close>, \<open>Dag\<close>. Python exceptions as the left of a sum
    (\<open>result\<close>, \<open>bind_r\<close>, \<open>guard_r\<close>, \<open>fold_r\<close>), dicts as association lists in insertion order (\<open>dget\<close>, \<open>dput\<close>),
    rounding, decimal printing, the locale \<open>invariant_system\<close> of a step relation that keeps an invariant; JSON values with
    Python's truth value and equality; \<open>json.loads\<close>; \<open>fnmatch\<close>; the one question asked of networkx,
    whether a graph is acyclic, as the locale \<open>dag_checker\<close> with a peeling checker as its interpretation; and
    \<open>pytext\<close>, how \<open>str\<close>, \<open>int\<close> and \<open>float\<close> read and print what no type restricts.

  \<^item> The live graph (\<open>core/live_graph/core.py\<close>, \<open>store.py\<close>). \<open>Graph_Model\<close> has tasks, patches, nodes,
    events and the checkpoint; \<open>Graph_Ops\<close> the methods of \<open>GraphStore\<close> on one loaded checkpoint;
    \<open>Graph_Store\<close> the store as files found through a path function, and \<open>graph_step\<close>, a method call on it;
    \<open>Graph_Executor\<close> the executor as \<open>exec_step\<close>, whose environment chooses which tasks come back first.
    \<open>Graph_Invariants\<close> and \<open>Graph_Props\<close> show that every operation keeps a checkpoint well formed and that settled nodes stay;
    \<open>Graph_Facts\<close> describes \<open>ready\<close>, patches and callbacks; \<open>Graph_Promises\<close> and \<open>Graph_Executor_Props\<close> state it for
    reachable stores and executors, the locale \<open>accepted_planner\<close> among them: what a planner must promise so that its
    patches are never refused.

  \<^item> The money (\<open>economics/\<close>). \<open>Econ_Ledger\<close> has prices and tiers, \<open>Econ_Budget\<close> the run's ledger,
    \<open>Econ_Policy\<close> the decision on one call, \<open>Econ_Controller\<close> admission and charge as two steps of \<open>gw_step\<close>, as
    \<open>complete\<close> awaits the provider in between; \<open>Econ_Config\<close> reads the three configuration files, once parsed. \<open>Econ_Claims\<close>
    bounds the spend by what is in flight and shows the ledger to be its charges. \<open>Gateway\<close> (\<open>gateway.py\<close>) is the client every
    call goes through: its payload, attempts, fallbacks and usage.

  \<^item> Unattended operation (\<open>events/\<close>). \<open>Event_Store\<close> (history, identity index, daily windows), \<open>Event_Governor\<close>
    (ceilings), \<open>Event_Engine\<close> (\<open>engine_step\<close>: arrival, gate, dispatch and finish of interleaved tasks), \<open>Event_Lease\<close>
    (one tick at a time), \<open>Event_Outbox\<close> (\<open>outbox_step\<close>: side effects with crashes in between),
    \<open>Event_Feed\<close> (the morning report, adapters, routes, the stream with its cursor).
    \<open>Event_History\<close>, \<open>Event_Engine_Props\<close> and \<open>Event_Claims\<close> hold the invariants and bounds.

  \<^item> Capabilities and planner (\<open>capabilities.py\<close>, \<open>planner.py\<close>). \<open>Capability\<close> (contracts, validation, the default
    registry), \<open>Evidence\<close> (projection of results), \<open>Planner_Parse\<close> (from a reply to a patch), \<open>Planner\<close> (one
    planning turn with its repairs and its review; the model's replies are an argument), \<open>Planner_Context\<close> (what the models
    are told: manifest, clipped outcomes, skills).
    \<open>Capability_Props\<close>, \<open>Planner_Props\<close> and \<open>Planner_Claims\<close>: accepted arguments conform, a patch stays within the run's authority,
    repeats no work and is always applied by the store, for whatever the model answers.

  \<^item> The coding agent's hands (\<open>coding/\<close>, \<open>workers/coding.py\<close>). \<open>Coding_Guard\<close> (protected paths, the workspace
    boundary, the command allowlist), \<open>Coding_Edit\<close> (a file tree with read, edit by anchor, create, copy, glob, grep),
    \<open>Coding_Git\<close> (the git calls and what the workers make of them), \<open>Coding_Claims\<close>.

  \<^item> Tools (\<open>tools.py\<close>). \<open>Sandbox\<close> (files behind a root, the locale \<open>confined\<close>), \<open>Calculator\<close> (on a
    parsed expression), \<open>Dates\<close> (the calendar), \<open>Tool_Queries\<close> (typed tables of CSV files, pages,
    searches).

  \<^item> Skills (\<open>skills/\<close>). \<open>Skills\<close> (one file with its front matter; the manager: discovery, selection, rendering,
    references), \<open>Skill_Claims\<close>.

  \<^item> Memory (\<open>core/memory/\<close>). \<open>Memory_Chunks\<close> (cutting a document), \<open>Memory_Chunk_Claims\<close> (the chunks are the document),
    \<open>Memory_Store\<close> (records, scopes, supersession, versions of documents, committed and live tables), \<open>Memory_Claims\<close>.

  \<^item> Reasoning (\<open>reasoning/\<close>): \<open>Reasoning\<close>, \<open>Reasoning_Claims\<close>. Evaluations (\<open>evals/\<close>): \<open>Eval_Rubric\<close>, \<open>Eval_Pairs\<close>,
    \<open>Eval_Claims\<close>. The trace (\<open>telemetry/spans.py\<close>): \<open>Telemetry\<close>, \<open>Telemetry_Claims\<close>, a journal as a tree of spans that
    accounts for every call.

  \<^item> Agents among each other (\<open>core/a2a/\<close>, \<open>auth.py\<close>). \<open>A2a_Server\<close> (tasks as the steps between awaits, \<open>a2a_step\<close>),
    \<open>A2a_Claims\<close>, \<open>A2a_Trust\<close> (tokens, signed cards, negotiation), \<open>A2a_Bridge\<close> (client, gRPC servicer, push configurations, the
    bridge to a waiting node).

  \<^item> Workers (\<open>workers/\<close>). \<open>Workers\<close> (replies into sections, recall, research, skills), \<open>Worker_Claims\<close>, \<open>Worker_Calls\<close> (calendar,
    jobs, delegation, channels).

  \<^item> The surface (\<open>ui/\<close>). \<open>Ui_Surface\<close> (the wall: catalog and validator; the harness's own surfaces), \<open>Ui_Compose\<close>
    (surfaces a model composes over a run's data), \<open>Ui_Approval\<close>
    (the decision on a parked action, over the graph store), \<open>Ui_Stream\<close> (AG-UI events, reducer, reconnect),
    \<open>Ui_Claims\<close>, \<open>Ui_Compose_Claims\<close> and \<open>Ui_Live_Claims\<close>.

  \<^item> The runtime and the service (\<open>runtime.py\<close>, \<open>routes.py\<close>, \<open>main.py\<close>). \<open>Runtime\<close>: context and resume, budget seam,
    availability, the answer worker's evidence, the result; \<open>Runtime_Claims\<close>. \<open>Runtime_Workers\<close>: the goal, the planner's settings,
    the table of workers, roles, facts and indexing. \<open>Channel\<close>: a channel's message from arrival
    to reply, completions; \<open>Channel_Claims\<close>, over the interleaved steps \<open>channel_step\<close>. \<open>Service\<close>: the agent card, the
    pages, the bodies, starting a run and memory over HTTP.

  Conventions. Floats are exact rationals, so rounding errors of IEEE arithmetic are not modelled; a date and
  time is a number of microseconds (of nanoseconds in traces), with its day as text where the code keeps windows per day; texts of
  reasons, hints and prompts are shortened or left out where no code reads them; characters are 8 bit, and what the code writes beyond
  Latin-1 (bullets, ellipses) has its place in Windows-1252. What the repository does not define is a parameter:
  SHA-256 paths, \<open>str()\<close> of floats and nested values, the address check of \<open>urlparse\<close>, the regex engine,
  the order of \<open>os.walk\<close>, link resolution of the file system, git, cryptography, embeddings and their scores, the CSV and HTML
  readers, SQL, fresh identifiers, clocks, environment variables, and the replies of models and remote services. A step whose effect the
  code makes durable with an atomic rename is one step; a coroutine that awaits is several, one for every segment between awaits.

  No definition runs on fuel. Loops of the code are structural recursions over the data they walk, or carry a
  termination proof; what may go on for ever (the executor, the engine, the outbox, the task server, the
  stream) is a step relation or a recursion over the inputs that arrive, so a theorem about it speaks of every finite part of a run.
  The numeric bounds are the code's: 28,000 characters of evidence, 20,000 of output, 4,000 or 60,000 of a clipped outcome with 12
  items, 30 keys and 10 levels, 12,000 of a skill and 24,000 of all, 12,000 of a page, 8 hits of memory and 3 of a source, 200 rows of
  a query, 20 levels, 100 entries and the exponent 12 in the calculator, three repairs of a reply, five attempts of a call with pauses of
  at most 4 seconds, the run's own limits as arguments.

  Where the code does not do what it means to, a lemma shows it by a run of the model: such lemmas stand at the end of their theory, or
  in a section named for it.

  Not modelled: the wording of prompts; HTTP, gRPC, SQLite and file input and output as such, and \<open>grpc_binding.py\<close>, a second
  transport of the same core; embedders and the vector index; splitting a command's text into arguments; reading YAML, CSV and HTML;
  SQL; the OpenTelemetry SDK; signing a card, process start-up and the command line; hand-written example surfaces; and the
  experiment scripts under \<open>src/proofs\<close>, which drive the service with live models and are no part of it.
\<close>

end
